(* ===== verification/Chatbox_Prelude.thy ===== *)
theory Chatbox_Prelude
  imports Main "HOL-Library.Word" "HOL-Library.Char_ord" "HOL-Library.List_Lexorder"
begin

unbundle bit_operations_syntax

text \<open>
  The vocabulary every component shares.

  \<^item> Machine types: \<open>u16\<close>, \<open>u32\<close> and \<open>u64\<close> stand for \<open>std::uint16_t\<close>, \<open>unsigned\<close> and
    \<open>std::uint64_t\<close>. \<open>std::string\<close> is HOL's \<open>string\<close>: a \<open>char\<close> is one byte, and
    \<open>byte\<close> reads it as an \<open>unsigned char\<close>.
  \<^item> The classification functions of \<open><cctype>\<close> in the C locale. In the UTF-8 locales
    the terminal front end may select, they answer the same for every single byte.
  \<^item> What the code uses of \<open>std::string\<close>, \<open>std::to_string\<close> and \<open>std::from_chars\<close>:
    searching one character, splitting on a delimiter, decimal printing and reading.
  \<^item> The generic contracts several components meet: a codec with a round trip, a list that
    keeps only its most recent entries, a step function with an invariant, and a functional
    refinement.
\<close>

section \<open>Machine types\<close>

type_synonym u16 = "16 word"
type_synonym u32 = "32 word"
type_synonym u64 = "64 word"

named_theorems wf_simps \<open>unfolding of the well-formedness predicates\<close>

lemma unat_less: "unat (w :: 'a::len word) < 2 ^ LENGTH('a)"
  by (rule unsigned_less)

section \<open>Characters\<close>

definition byte :: "char \<Rightarrow> nat" where
  "byte c = of_char c"

definition iscntrl :: "char \<Rightarrow> bool" where
  "iscntrl c \<longleftrightarrow> byte c < 32 \<or> byte c = 127"

definition isspace :: "char \<Rightarrow> bool" where
  "isspace c \<longleftrightarrow> (9 \<le> byte c \<and> byte c \<le> 13) \<or> byte c = 32"

definition isdigit :: "char \<Rightarrow> bool" where
  "isdigit c \<longleftrightarrow> 48 \<le> byte c \<and> byte c \<le> 57"

definition isupper :: "char \<Rightarrow> bool" where
  "isupper c \<longleftrightarrow> 65 \<le> byte c \<and> byte c \<le> 90"

definition islower :: "char \<Rightarrow> bool" where
  "islower c \<longleftrightarrow> 97 \<le> byte c \<and> byte c \<le> 122"

definition isalnum :: "char \<Rightarrow> bool" where
  "isalnum c \<longleftrightarrow> isdigit c \<or> isupper c \<or> islower c"

definition isxdigit :: "char \<Rightarrow> bool" where
  "isxdigit c \<longleftrightarrow> isdigit c \<or> (65 \<le> byte c \<and> byte c \<le> 70) \<or> (97 \<le> byte c \<and> byte c \<le> 102)"

definition tolower :: "char \<Rightarrow> char" where
  "tolower c = (if isupper c then char_of (byte c + 32) else c)"

definition toupper :: "char \<Rightarrow> char" where
  "toupper c = (if islower c then char_of (byte c - 32) else c)"

lemmas ctype_defs = iscntrl_def isspace_def isdigit_def isupper_def islower_def
  isalnum_def isxdigit_def

lemma byte_less [simp]: "byte c < 256"
  by (simp add: byte_def)

lemma char_of_byte [simp]: "char_of (byte c) = c"
  by (simp add: byte_def)

lemma byte_char_of [simp]: "byte (char_of (n::nat)) = n mod 256"
  by (simp add: byte_def)

lemma byte_inject [simp]: "byte c = byte d \<longleftrightarrow> c = d"
  by (simp add: byte_def)

lemma tolower_tolower [simp]: "tolower (tolower c) = tolower c"
  by (auto simp: tolower_def isupper_def)

section \<open>Searching and splitting strings\<close>

text \<open>\<open>s.find(c)\<close>: the position of the first \<open>c\<close>, \<open>None\<close> for \<open>npos\<close>.\<close>

fun find_char :: "char \<Rightarrow> string \<Rightarrow> nat option" where
  "find_char c [] = None"
| "find_char c (x # xs) = (if x = c then Some 0 else map_option Suc (find_char c xs))"

text \<open>\<open>s.find(c, pos)\<close>: the same search from \<open>pos\<close> on.\<close>

definition find_from :: "char \<Rightarrow> string \<Rightarrow> nat \<Rightarrow> nat option" where
  "find_from c s pos = map_option ((+) pos) (find_char c (drop pos s))"

lemma find_char_None [simp]: "find_char c s = None \<longleftrightarrow> c \<notin> set s"
  by (induction s) auto

lemma find_char_absent [simp]: "c \<notin> set s \<Longrightarrow> find_char c s = None"
  by simp

lemma find_char_less: "find_char c s = Some i \<Longrightarrow> i < length s"
  by (induction s arbitrary: i) (auto split: if_splits)

lemma find_char_append [simp]: "c \<notin> set a \<Longrightarrow> find_char c (a @ c # b) = Some (length a)"
  by (induction a) auto

lemma find_char_SomeD:
  "find_char c s = Some i \<Longrightarrow> s = take i s @ c # drop (Suc i) s \<and> c \<notin> set (take i s)"
  by (induction s arbitrary: i) (auto split: if_splits)

lemma find_char_SomeE:
  assumes "find_char c s = Some i"
  obtains a b where "s = a @ c # b" "c \<notin> set a" "i = length a"
proof -
  have "s = take i s @ c # drop (Suc i) s" "c \<notin> set (take i s)" "i = length (take i s)"
    using find_char_SomeD [OF assms] find_char_less [OF assms] by auto
  then show ?thesis by (rule that)
qed

text \<open>
  Splitting at every delimiter, keeping empty fields: the loop of \<open>split_fields\<close> in
  \<open>protocol.cpp\<close> and of \<open>parse_invite\<close> in \<open>invite.cpp\<close>. The loop variable \<open>start\<close> is
  the suffix that is still to be split.
\<close>

function split_on :: "char \<Rightarrow> string \<Rightarrow> string list" where
  "split_on d s = (case find_char d s of
       None \<Rightarrow> [s]
     | Some i \<Rightarrow> take i s # split_on d (drop (Suc i) s))"
  by pat_completeness auto
termination
  by (relation "measure (\<lambda>(d, s). length s)") (auto dest: find_char_less)

declare split_on.simps [simp del]

lemma split_on_single [simp]: "d \<notin> set s \<Longrightarrow> split_on d s = [s]"
  by (subst split_on.simps) simp

lemma split_on_append [simp]: "d \<notin> set a \<Longrightarrow> split_on d (a @ d # b) = a # split_on d b"
  by (subst split_on.simps) simp

lemma split_on_delim [simp]: "split_on d (d # b) = [] # split_on d b"
  using split_on_append [of d "[]" b] by simp

lemma split_on_not_Nil [simp]: "split_on d s \<noteq> []"
  by (subst split_on.simps) (simp split: option.splits)

lemma split_on_code [code]:
  "split_on d s = (let a = takeWhile (\<lambda>c. c \<noteq> d) s; r = dropWhile (\<lambda>c. c \<noteq> d) s
     in if r = [] then [s] else a # split_on d (tl r))"
proof (cases "d \<in> set s")
  case True
  then obtain a b where s: "s = a @ d # b" "d \<notin> set a" by (metis split_list_first)
  then have "takeWhile (\<lambda>c. c \<noteq> d) s = a" "dropWhile (\<lambda>c. c \<noteq> d) s = d # b"
    by (auto simp: takeWhile_append takeWhile_eq_all_conv dropWhile_append)
  with s show ?thesis by simp
next
  case False
  then have "dropWhile (\<lambda>c. c \<noteq> d) s = []" by (auto simp: dropWhile_eq_Nil_conv)
  with False show ?thesis by simp
qed

lemma split_on_no_delim: "f \<in> set (split_on d s) \<Longrightarrow> d \<notin> set f"
proof (induction d s rule: split_on.induct)
  case (1 d s)
  show ?case
  proof (cases "find_char d s")
    case None
    with "1.prems" show ?thesis by (auto simp: split_on.simps [of d s])
  next
    case (Some i)
    with "1.prems" have "f = take i s \<or> f \<in> set (split_on d (drop (Suc i) s))"
      by (auto simp: split_on.simps [of d s])
    with "1.IH" [OF Some] find_char_SomeD [OF Some] show ?thesis by auto
  qed
qed

text \<open>Joining with a delimiter, as the serialisers do.\<close>

fun join_with :: "char \<Rightarrow> string list \<Rightarrow> string" where
  "join_with d [] = []"
| "join_with d [x] = x"
| "join_with d (x # y # ys) = x @ d # join_with d (y # ys)"

lemma split_join:
  "xs \<noteq> [] \<Longrightarrow> (\<And>x. x \<in> set xs \<Longrightarrow> d \<notin> set x) \<Longrightarrow> split_on d (join_with d xs) = xs"
  by (induction d xs rule: join_with.induct) auto

lemma join_split [simp]: "join_with d (split_on d s) = s"
proof (induction d s rule: split_on.induct)
  case (1 d s)
  show ?case
  proof (cases "find_char d s")
    case None
    then show ?thesis by simp
  next
    case (Some i)
    obtain y ys where split: "split_on d (drop (Suc i) s) = y # ys"
      by (cases "split_on d (drop (Suc i) s)") auto
    have "join_with d (split_on d s) = take i s @ d # join_with d (split_on d (drop (Suc i) s))"
      by (simp add: split_on.simps [of d s] Some split)
    also have "\<dots> = take i s @ d # drop (Suc i) s" using "1.IH" [OF Some] by simp
    also have "\<dots> = s" using find_char_SomeD [OF Some] by simp
    finally show ?thesis .
  qed
qed

lemma split_on_Cons [simp]:
  "c \<noteq> d \<Longrightarrow> split_on d (c # s) = (case split_on d s of f # fs \<Rightarrow> (c # f) # fs)"
  by (cases "find_char d s") (simp_all add: split_on.simps [of d "c # s"] split_on.simps [of d s])

lemma set_join_with: "c \<in> set (join_with d xs) \<Longrightarrow> c = d \<or> (\<exists>x \<in> set xs. c \<in> set x)"
  by (induction d xs rule: join_with.induct) auto

lemma last_join_with: "xs \<noteq> [] \<Longrightarrow> last xs \<noteq> [] \<Longrightarrow> join_with d xs \<noteq> [] \<and> last (join_with d xs) = last (last xs)"
  by (induction d xs rule: join_with.induct) auto

lemma length_join_with_le:
  "(\<And>x. x \<in> set xs \<Longrightarrow> length x \<le> k) \<Longrightarrow> length (join_with d xs) \<le> length xs * (k + 1)"
proof (induction d xs rule: join_with.induct)
  case (3 d x y ys)
  from "3.prems" [of x] "3.IH" "3.prems" show ?case by fastforce
qed auto

section \<open>Decimal numbers\<close>

definition digit_char :: "nat \<Rightarrow> char" where
  "digit_char d = char_of (48 + d)"

text \<open>\<open>std::to_string\<close> of an unsigned number.\<close>

fun nat_to_string :: "nat \<Rightarrow> string" where
  "nat_to_string n = (if n < 10 then [digit_char n]
     else nat_to_string (n div 10) @ [digit_char (n mod 10)])"

declare nat_to_string.simps [simp del]

definition dec_value :: "string \<Rightarrow> nat" where
  "dec_value s = foldl (\<lambda>acc c. acc * 10 + (byte c - 48)) 0 s"

datatype errc = invalid_argument | result_out_of_range

text \<open>
  \<open>std::from_chars\<close> for an unsigned type whose values are below \<open>bound\<close>: it reads the
  longest prefix of digits (no sign, no white space), fails when there is none or when
  the number does not fit, and otherwise returns the value and the rest of the text.
\<close>

definition from_chars :: "nat \<Rightarrow> string \<Rightarrow> errc + (nat \<times> string)" where
  "from_chars bound s =
     (let ds = takeWhile isdigit s in
      if ds = [] then Inl invalid_argument
      else if bound \<le> dec_value ds then Inl result_out_of_range
      else Inr (dec_value ds, dropWhile isdigit s))"

lemma isdigit_digit_char [simp]: "d < 10 \<Longrightarrow> isdigit (digit_char d)"
  by (simp add: digit_char_def isdigit_def)

lemma byte_digit_char [simp]: "d < 10 \<Longrightarrow> byte (digit_char d) = 48 + d"
  by (simp add: digit_char_def)

lemma dec_value_snoc: "dec_value (s @ [c]) = dec_value s * 10 + (byte c - 48)"
  by (simp add: dec_value_def)

lemma nat_to_string_digits: "c \<in> set (nat_to_string n) \<Longrightarrow> isdigit c"
proof (induction n rule: nat_to_string.induct)
  case (1 n)
  then show ?case by (auto simp: nat_to_string.simps [of n] split: if_splits)
qed

lemma nat_to_string_not_Nil [simp]: "nat_to_string n \<noteq> []"
  by (subst nat_to_string.simps) simp

lemma dec_value_nat_to_string [simp]: "dec_value (nat_to_string n) = n"
proof (induction n rule: nat_to_string.induct)
  case (1 n)
  show ?case
  proof (cases "n < 10")
    case True
    then show ?thesis by (simp add: nat_to_string.simps [of n] dec_value_def)
  next
    case False
    with 1 show ?thesis by (simp add: nat_to_string.simps [of n] dec_value_snoc)
  qed
qed

lemma from_chars_nat_to_string [simp]:
  assumes "n < bound"
  shows "from_chars bound (nat_to_string n) = Inr (n, [])"
proof -
  have "takeWhile isdigit (nat_to_string n) = nat_to_string n"
    by (simp add: takeWhile_eq_all_conv nat_to_string_digits)
  moreover have "dropWhile isdigit (nat_to_string n) = []"
    by (simp add: dropWhile_eq_Nil_conv nat_to_string_digits)
  ultimately show ?thesis using assms unfolding from_chars_def by (simp only:) simp
qed

lemma nat_to_string_no_char:
  "\<not> isdigit c \<Longrightarrow> c \<notin> set (nat_to_string n)"
  using nat_to_string_digits by blast

lemma from_chars_bound: "from_chars bound s = Inr (n, r) \<Longrightarrow> n < bound"
  by (auto simp: from_chars_def Let_def split: if_splits)

lemma length_nat_to_string:
  "0 < k \<Longrightarrow> n < 10 ^ k \<Longrightarrow> length (nat_to_string n) \<le> k"
proof (induction n arbitrary: k rule: nat_to_string.induct)
  case (1 n)
  show ?case
  proof (cases "n < 10")
    case True
    with "1.prems" show ?thesis by (simp add: nat_to_string.simps [of n])
  next
    case False
    obtain j where k: "k = Suc j" using "1.prems" by (cases k) auto
    with False "1.prems" have j: "0 < j" "n div 10 < 10 ^ j"
      by (cases j, simp_all add: less_mult_imp_div_less mult.commute)
    with "1.IH" False have "length (nat_to_string (n div 10)) \<le> j" by simp
    with False k show ?thesis by (simp add: nat_to_string.simps [of n])
  qed
qed

section \<open>Shared contracts\<close>

text \<open>
  A codec: whatever is valid encodes, and decoding the encoding gives it back. Distinct
  valid values then have distinct encodings, and a list of them can be decoded one by one.
\<close>

locale codec =
  fixes encode :: "'a \<Rightarrow> 'b option"
    and decode :: "'b \<Rightarrow> 'a option"
    and valid :: "'a \<Rightarrow> bool"
  assumes encodes: "valid x \<Longrightarrow> \<exists>w. encode x = Some w"
    and roundtrip: "valid x \<Longrightarrow> encode x = Some w \<Longrightarrow> decode w = Some x"
begin

lemma encode_injective:
  "valid x \<Longrightarrow> valid y \<Longrightarrow> encode x = Some w \<Longrightarrow> encode y = Some w \<Longrightarrow> x = y"
  using roundtrip [of x w] roundtrip [of y w] by simp

lemma decode_all:
  "(\<And>x. x \<in> set xs \<Longrightarrow> valid x) \<Longrightarrow> map (\<lambda>x. Option.bind (encode x) decode) xs = map Some xs"
  using encodes roundtrip by (induction xs) fastforce+

end

text \<open>
  A log that keeps its most recent entries: \<open>push_back\<close>, then \<open>pop_front\<close> when it grew
  past its limit. After any number of pushes it holds the last entries pushed, in order.
\<close>

definition push_bounded :: "nat \<Rightarrow> 'a \<Rightarrow> 'a list \<Rightarrow> 'a list" where
  "push_bounded limit x xs =
     (let ys = xs @ [x] in if length ys > limit then tl ys else ys)"

definition last_n :: "nat \<Rightarrow> 'a list \<Rightarrow> 'a list" where
  "last_n n xs = drop (length xs - n) xs"

lemma length_push_bounded:
  "length xs \<le> limit \<Longrightarrow> length (push_bounded limit x xs) \<le> limit"
  by (auto simp: push_bounded_def Let_def)

lemma push_bounded_last_n:
  assumes "length xs \<le> limit"
  shows "push_bounded limit x xs = last_n limit (xs @ [x])"
proof (cases "length xs = limit")
  case True
  then show ?thesis by (cases xs) (auto simp: push_bounded_def last_n_def Let_def drop_Suc)
next
  case False
  with assms show ?thesis by (simp add: push_bounded_def last_n_def Let_def)
qed

lemma last_n_rev: "last_n n xs = rev (take n (rev xs))"
  by (simp add: last_n_def rev_take)

lemma last_n_last_n_append: "last_n n (last_n n xs @ ys) = last_n n (xs @ ys)"
  by (simp add: last_n_rev take_append)

lemma length_last_n [simp]: "length (last_n n xs) = min n (length xs)"
  by (auto simp: last_n_def)

lemma fold_push_bounded:
  "length ys \<le> limit \<Longrightarrow> fold (push_bounded limit) xs ys = last_n limit (ys @ xs)"
proof (induction xs arbitrary: ys)
  case Nil
  then show ?case by (simp add: last_n_def)
next
  case (Cons x xs)
  have "fold (push_bounded limit) (x # xs) ys = last_n limit (last_n limit (ys @ [x]) @ xs)"
    using Cons.prems by (simp add: Cons.IH length_push_bounded push_bounded_last_n)
  also have "\<dots> = last_n limit (ys @ x # xs)"
    by (simp add: last_n_last_n_append)
  finally show ?case .
qed

text \<open>
  A deterministic machine with an invariant: the steps are a function of the event, and
  the invariant holds after every run from a state that satisfies it.
\<close>

locale invariant_machine =
  fixes step :: "'e \<Rightarrow> 's \<Rightarrow> 's"
    and inv :: "'s \<Rightarrow> bool"
    and allowed :: "'e \<Rightarrow> 's \<Rightarrow> bool"
  assumes step_inv: "inv s \<Longrightarrow> allowed e s \<Longrightarrow> inv (step e s)"
begin

inductive run :: "'s \<Rightarrow> 's \<Rightarrow> bool" for s0 :: 's where
  start: "run s0 s0"
| more: "run s0 s \<Longrightarrow> allowed e s \<Longrightarrow> run s0 (step e s)"

lemma run_inv: "run s0 s \<Longrightarrow> inv s0 \<Longrightarrow> inv s"
  by (induction rule: run.induct) (auto intro: step_inv)

text \<open>Whether a sequence of steps can be taken, one after the other.\<close>

primrec possible :: "'e list \<Rightarrow> 's \<Rightarrow> bool" where
  "possible [] s \<longleftrightarrow> True"
| "possible (e # es) s \<longleftrightarrow> allowed e s \<and> possible es (step e s)"

lemma possible_run: "run s0 s \<Longrightarrow> possible es s \<Longrightarrow> run s0 (fold step es s)"
  by (induction es arbitrary: s) (auto intro: run.more)

end

text \<open>
  A functional refinement: every step of the concrete machine is, under its invariant, the
  step of an abstract one on the abstracted state. Then whole runs correspond.
\<close>

locale simulation =
  fixes step :: "'e \<Rightarrow> 'c \<Rightarrow> 'c"
    and spec :: "'e \<Rightarrow> 'a \<Rightarrow> 'a"
    and abs :: "'c \<Rightarrow> 'a"
    and inv :: "'c \<Rightarrow> bool"
    and allowed :: "'e \<Rightarrow> bool"
  assumes keeps: "inv c \<Longrightarrow> allowed e \<Longrightarrow> inv (step e c)"
    and simulates: "inv c \<Longrightarrow> allowed e \<Longrightarrow> abs (step e c) = spec e (abs c)"
begin

lemma run_simulates:
  "inv c \<Longrightarrow> list_all allowed es \<Longrightarrow>
     inv (fold step es c) \<and> abs (fold step es c) = fold spec es (abs c)"
  by (induction es arbitrary: c) (auto simp: keeps simulates)

end

end
