(* ===== verification/Frame_Codec.thy ===== *)
theory Frame_Codec
  imports Chatbox_Prelude
begin

unbundle bit_operations_syntax

text \<open>
  The framing layer of \<open>protocol/protocol.cpp\<close>: a payload is Base64-encoded and ended by
  a newline, at most \<open>MAX_FRAME_LENGTH\<close> bytes in all. The encoder and the decoder are
  kept at the code's widths: the 24-bit block is a 32-bit word, the decoder works on
  \<open>int\<close> values with \<open>-1\<close> for a character outside the alphabet.

  Shown: every non-empty payload that fits is encoded, a frame decodes to its payload, an
  accepted frame is the one the encoder would have produced for its payload (so the
  decoder takes canonical Base64 only), and a frame has its only newline at the end, so a
  byte stream splits into its frames in one way.
\<close>

section \<open>Results\<close>

definition VERSION :: u32 where
  "VERSION = 3"

definition MAX_FRAME_LENGTH :: nat where
  "MAX_FRAME_LENGTH = 4096"

definition MAX_CHAT_LENGTH :: nat where
  "MAX_CHAT_LENGTH = 1000"

definition MAX_ROOM_NAME_LENGTH :: nat where
  "MAX_ROOM_NAME_LENGTH = 32"

definition MAX_ROOM_TOPIC_LENGTH :: nat where
  "MAX_ROOM_TOPIC_LENGTH = 200"

definition MAX_ROOMS :: nat where
  "MAX_ROOMS = 32"

lemmas protocol_limits = MAX_FRAME_LENGTH_def MAX_CHAT_LENGTH_def MAX_ROOM_NAME_LENGTH_def
  MAX_ROOM_TOPIC_LENGTH_def MAX_ROOMS_def

datatype protocol_error =
    NoError
  | EmptyFrame
  | FrameTooLarge
  | InvalidBase64
  | EmptyPayload
  | UnknownMessage
  | WrongFieldCount
  | InvalidField
  | UnsupportedVersion

text \<open>
  \<open>Result<T>\<close>: \<open>success\<close> holds a value and \<open>Error::None\<close>, \<open>failure\<close> holds no value, an
  error and its detail text. No other combination is ever built.
\<close>

datatype 'a result = Success 'a | Failure protocol_error string

fun error_name :: "protocol_error \<Rightarrow> string" where
  "error_name NoError = ''none''"
| "error_name EmptyFrame = ''empty frame''"
| "error_name FrameTooLarge = ''frame too large''"
| "error_name InvalidBase64 = ''invalid Base64''"
| "error_name EmptyPayload = ''empty payload''"
| "error_name UnknownMessage = ''unknown message''"
| "error_name WrongFieldCount = ''wrong field count''"
| "error_name InvalidField = ''invalid field''"
| "error_name UnsupportedVersion = ''unsupported version''"

definition value_of :: "'a result \<Rightarrow> 'a option" where
  "value_of r = (case r of Success x \<Rightarrow> Some x | Failure _ _ \<Rightarrow> None)"

lemma value_of_simps [simp]:
  "value_of (Success x) = Some x" "value_of (Failure e d) = None"
  by (simp_all add: value_of_def)

lemma value_of_Some [simp]: "value_of r = Some x \<longleftrightarrow> r = Success x"
  by (cases r) auto

section \<open>Base64\<close>

definition BASE64_CHARS :: string where
  "BASE64_CHARS = ''ABCDEFGHIJKLMNOPQRSTUVWXYZabcdefghijklmnopqrstuvwxyz0123456789+/''"

definition base64_value :: "char \<Rightarrow> int" where
  "base64_value ch =
     (if 65 \<le> byte ch \<and> byte ch \<le> 90 then int (byte ch) - 65
      else if 97 \<le> byte ch \<and> byte ch \<le> 122 then int (byte ch) - 97 + 26
      else if 48 \<le> byte ch \<and> byte ch \<le> 57 then int (byte ch) - 48 + 52
      else if ch = CHR ''+'' then 62
      else if ch = CHR ''/'' then 63
      else - 1)"

definition byte32 :: "char \<Rightarrow> u32" where
  "byte32 c = word_of_nat (byte c)"

definition sextet :: "u32 \<Rightarrow> nat \<Rightarrow> char" where
  "sextet block n = BASE64_CHARS ! unat (drop_bit n block AND 0x3f)"

text \<open>One round of the encoding loop on the payload from position \<open>i\<close> on.\<close>

definition encode_group :: "string \<Rightarrow> string" where
  "encode_group p =
     (let remaining = length p;
          first = byte32 (p ! 0);
          second = (if remaining > 1 then byte32 (p ! 1) else 0);
          third = (if remaining > 2 then byte32 (p ! 2) else 0);
          block = push_bit 16 first OR push_bit 8 second OR third
      in [sextet block 18, sextet block 12,
          if remaining > 1 then sextet block 6 else CHR ''='',
          if remaining > 2 then sextet block 0 else CHR ''=''])"

fun encode_loop :: "string \<Rightarrow> string" where
  "encode_loop p = (if p = [] then [] else encode_group p @ encode_loop (drop 3 p))"

declare encode_loop.simps [simp del]

definition max_payload_length :: nat where
  "max_payload_length = ((MAX_FRAME_LENGTH - 1) div 4) * 3"

definition frame_too_large :: "string \<Rightarrow> string result" where
  "frame_too_large prefix =
     Failure FrameTooLarge (prefix @ '' exceeds '' @ nat_to_string MAX_FRAME_LENGTH @ '' bytes'')"

definition encode_frame :: "string \<Rightarrow> string result" where
  "encode_frame payload =
     (if payload = [] then Failure EmptyPayload ''Cannot encode an empty payload''
      else if length payload > max_payload_length then frame_too_large ''Encoded frame''
      else let output = encode_loop payload @ [CHR 0x0A]
           in if length output > MAX_FRAME_LENGTH then frame_too_large ''Encoded frame''
              else Success output)"

text \<open>One round of the decoding loop: four characters and whether they are the last four.\<close>

definition decode_group :: "char \<Rightarrow> char \<Rightarrow> char \<Rightarrow> char \<Rightarrow> bool \<Rightarrow> string result" where
  "decode_group c0 c1 c2 c3 final_group =
     (let v0 = base64_value c0;
          v1 = base64_value c1;
          pad2 = (c2 = CHR ''='');
          pad3 = (c3 = CHR ''='');
          v2 = (if pad2 then 0 else base64_value c2);
          v3 = (if pad3 then 0 else base64_value c3)
      in if v0 < 0 \<or> v1 < 0 \<or> v2 < 0 \<or> v3 < 0 \<or>
            (pad2 \<and> \<not> pad3) \<or> ((pad2 \<or> pad3) \<and> \<not> final_group)
         then Failure InvalidBase64 ''Frame contains invalid Base64 padding or characters''
         else if (pad2 \<and> v1 AND 0x0f \<noteq> 0) \<or> (pad3 \<and> \<not> pad2 \<and> v2 AND 0x03 \<noteq> 0)
         then Failure InvalidBase64 ''Frame uses non-canonical Base64 padding bits''
         else Success
           (char_of (push_bit 2 v0 OR drop_bit 4 v1)
            # (if pad2 then []
               else char_of (push_bit 4 v1 OR drop_bit 2 v2)
                 # (if pad3 then [] else [char_of (push_bit 6 v2 OR v3)]))))"

text \<open>
  The decoding loop, with the output built so far. It is entered with a length divisible
  by four only, so the last equation is never reached.
\<close>

fun decode_loop :: "string \<Rightarrow> string \<Rightarrow> string result" where
  "decode_loop output [] = Success output"
| "decode_loop output (c0 # c1 # c2 # c3 # rest) =
     (case decode_group c0 c1 c2 c3 (rest = []) of
        Failure e d \<Rightarrow> Failure e d
      | Success bytes \<Rightarrow> decode_loop (output @ bytes) rest)"
| "decode_loop output rest = Success output"

definition strip_suffix :: "char \<Rightarrow> string \<Rightarrow> string" where
  "strip_suffix c s = (if s \<noteq> [] \<and> last s = c then butlast s else s)"

definition strip_line_end :: "string \<Rightarrow> string" where
  "strip_line_end frame = strip_suffix (CHR 0x0D) (strip_suffix (CHR 0x0A) frame)"

definition decode_frame :: "string \<Rightarrow> string result" where
  "decode_frame frame0 =
     (let frame = strip_line_end frame0 in
      if frame = [] then Failure EmptyFrame ''Frame is empty''
      else if length frame + 1 > MAX_FRAME_LENGTH then frame_too_large ''Frame''
      else if length frame mod 4 \<noteq> 0
      then Failure InvalidBase64 ''Base64 length must be divisible by four''
      else case decode_loop [] frame of
             Failure e d \<Rightarrow> Failure e d
           | Success output \<Rightarrow>
               if output = [] then Failure EmptyPayload ''Decoded payload is empty''
               else Success output)"

section \<open>Bits of the encoder and the decoder\<close>

lemma push_bit_or_eq:
  assumes "(b::int) < 2 ^ n" "0 \<le> b"
  shows "push_bit n a OR b = a * 2 ^ n + b"
proof -
  have b: "b = take_bit n b" using assms by (simp add: take_bit_int_eq_self)
  have "push_bit n a AND take_bit n b = 0" by (auto simp: bit_eq_iff bit_simps)
  then have "push_bit n a + take_bit n b = push_bit n a OR take_bit n b"
    by (rule disjunctive_add_eq_or)
  with b show ?thesis by (simp add: push_bit_eq_mult)
qed

lemma push_bit_or_eq_nat:
  assumes "(b::nat) < 2 ^ n"
  shows "push_bit n a OR b = a * 2 ^ n + b"
proof -
  have b: "b = take_bit n b" using assms by (simp add: take_bit_nat_eq_self)
  have "push_bit n a AND take_bit n b = 0" by (auto simp: bit_eq_iff bit_simps)
  then have "push_bit n a + take_bit n b = push_bit n a OR take_bit n b"
    by (rule disjunctive_add_eq_or)
  with b show ?thesis by (simp add: push_bit_eq_mult)
qed

lemma and_63: "(x::nat) AND 63 = x mod 64"
  using take_bit_eq_mask [of 6 x] by (simp add: take_bit_eq_mod mask_eq_exp_minus_1)

lemma and_15: "(x::int) AND 15 = x mod 16"
  using take_bit_eq_mask [of 4 x] by (simp add: take_bit_eq_mod mask_eq_exp_minus_1)

lemma and_3: "(x::int) AND 3 = x mod 4"
  using take_bit_eq_mask [of 2 x] by (simp add: take_bit_eq_mod mask_eq_exp_minus_1)

lemma unat_byte32 [simp]: "unat (byte32 c) = byte c"
  using byte_less [of c] by (simp add: byte32_def unsigned_of_nat take_bit_nat_eq_self_iff order_less_trans [OF byte_less])

lemma unat_push_byte32: "n \<le> 24 \<Longrightarrow> unat (push_bit n (byte32 c)) = push_bit n (byte c)"
proof -
  assume n: "n \<le> 24"
  have "byte c * 2 ^ n < 256 * 2 ^ n" by simp
  also have "\<dots> \<le> (256 * 2 ^ 24 :: nat)" using n by (intro mult_left_mono power_increasing) auto
  finally have "push_bit n (byte c) < 2 ^ 32" by (simp add: push_bit_eq_mult)
  then show ?thesis by (simp add: unsigned_push_bit_eq take_bit_nat_eq_self)
qed

lemma unat_block:
  "unat (push_bit 16 (byte32 a) OR push_bit 8 (byte32 b) OR byte32 c)
     = byte a * 65536 + byte b * 256 + byte c"
proof -
  have bc: "push_bit 8 (byte b) OR byte c = byte b * 256 + byte c"
    using push_bit_or_eq_nat [of "byte c" 8] by simp
  have lt: "byte b * 256 + byte c < 2 ^ 16"
    using byte_less [of b] byte_less [of c] by (simp; linarith)
  have "unat (push_bit 16 (byte32 a) OR push_bit 8 (byte32 b) OR byte32 c)
      = push_bit 16 (byte a) OR (push_bit 8 (byte b) OR byte c)"
    by (simp only: unsigned_or_eq unat_byte32 or.assoc) (simp only: unat_push_byte32)
  also have "\<dots> = byte a * 65536 + (byte b * 256 + byte c)"
    using push_bit_or_eq_nat [OF lt, of "byte a"] by (simp only: bc) simp
  finally show ?thesis by simp
qed

lemma sextet_eq: "sextet block n = BASE64_CHARS ! (unat block div 2 ^ n mod 64)"
proof -
  have "unat (drop_bit n block AND 0x3f) = unat (drop_bit n block) AND 63"
    by (simp add: unsigned_and_eq)
  also have "\<dots> = unat block div 2 ^ n mod 64"
    unfolding and_63 unat_drop_bit_eq by (simp only: drop_bit_eq_div)
  finally show ?thesis by (simp add: sextet_def)
qed

lemma char_of_eqI: "byte c = n \<Longrightarrow> c = char_of n"
  by (metis char_of_byte)

lemma BASE64_length: "length BASE64_CHARS = 64"
  by (simp add: BASE64_CHARS_def)

lemma base64_char:
  assumes "n < 64"
  shows "BASE64_CHARS ! n = char_of (if n < 26 then 65 + n else if n < 52 then 71 + n
      else if n < 62 then n - 4 else if n = 62 then 43 else (47::nat))"
proof -
  have "map byte BASE64_CHARS = [65..<91] @ [97..<123] @ [48..<58] @ [43, 47]"
    by code_simp
  moreover have "byte (BASE64_CHARS ! n) = map byte BASE64_CHARS ! n"
    using assms by (simp add: BASE64_length)
  ultimately have "byte (BASE64_CHARS ! n) = ([65..<91] @ [97..<123] @ [48..<58] @ [43, 47]) ! n"
    by (simp only:)
  also have "\<dots> = (if n < 26 then 65 + n else if n < 52 then 71 + n
      else if n < 62 then n - 4 else if n = 62 then 43 else (47::nat))"
    using assms by (auto simp add: nth_append nth_Cons' simp del: upt_rec_numeral)
  finally show ?thesis by (rule char_of_eqI)
qed

lemma special_bytes: "byte CHR ''+'' = 43" "byte CHR ''/'' = 47" "byte CHR ''='' = 61"
  by (simp_all add: byte_def)

lemma special_chars:
  "c = CHR ''+'' \<longleftrightarrow> byte c = 43" "c = CHR ''/'' \<longleftrightarrow> byte c = 47" "c = CHR ''='' \<longleftrightarrow> byte c = 61"
  by (metis byte_inject special_bytes)+

lemma base64_value_char [simp]: "n < 64 \<Longrightarrow> base64_value (BASE64_CHARS ! n) = int n"
  by (auto simp: base64_char base64_value_def special_chars)

lemma base64_char_not_pad [simp]: "n < 64 \<Longrightarrow> BASE64_CHARS ! n \<noteq> CHR ''=''"
  by (auto simp: base64_char special_chars)

lemma base64_value_less: "base64_value c < 64"
  by (simp add: base64_value_def)

lemma base64_char_value:
  assumes "0 \<le> base64_value c"
  shows "BASE64_CHARS ! nat (base64_value c) = c"
proof -
  let ?n = "nat (base64_value c)"
  have n: "?n < 64" using base64_value_less [of c] by simp
  have "byte c = (if ?n < 26 then 65 + ?n else if ?n < 52 then 71 + ?n
      else if ?n < 62 then ?n - 4 else if ?n = 62 then 43 else 47)"
    using assms unfolding base64_value_def special_chars by (auto split: if_splits)
  then show ?thesis unfolding base64_char [OF n] by (rule char_of_eqI [symmetric])
qed

lemma byte32_zero: "byte32 (char_of (0::nat)) = 0"
  by (simp add: byte32_def)

lemma unat_block_1: "unat (push_bit 16 (byte32 a)) = byte a * 65536"
  using unat_push_byte32 [of 16 a] by (simp only: push_bit_eq_mult) simp

lemma unat_block_2:
  "unat (push_bit 16 (byte32 a) OR push_bit 8 (byte32 b)) = byte a * 65536 + byte b * 256"
  using unat_block [of a b "char_of (0::nat)"] by (simp add: byte32_zero)

lemma sextets:
  assumes "unat block = ((s0 * 64 + s1) * 64 + s2) * 64 + s3" "s0 < 64" "s1 < 64" "s2 < 64" "s3 < 64"
  shows "sextet block 18 = BASE64_CHARS ! s0" "sextet block 12 = BASE64_CHARS ! s1"
    "sextet block 6 = BASE64_CHARS ! s2" "sextet block 0 = BASE64_CHARS ! s3"
proof -
  have d: "unat block div 64 = (s0 * 64 + s1) * 64 + s2" using assms by simp
  then have d2: "unat block div 4096 = s0 * 64 + s1"
    using assms(4) div_mult2_eq [of "unat block" 64 64] by simp
  then have d3: "unat block div 262144 = s0"
    using assms(3) div_mult2_eq [of "unat block" 4096 64] by simp
  have m: "unat block mod 64 = s3" "unat block div 64 mod 64 = s2" "unat block div 4096 mod 64 = s1"
    unfolding d d2 unfolding assms(1) using assms(2-5) by (simp_all only: mod_mult_self3 mod_less)
  show "sextet block 18 = BASE64_CHARS ! s0" "sextet block 12 = BASE64_CHARS ! s1"
    "sextet block 6 = BASE64_CHARS ! s2" "sextet block 0 = BASE64_CHARS ! s3"
    using d3 m assms(2) by (simp_all add: sextet_eq)
qed

definition sextets3 :: "nat \<Rightarrow> nat \<Rightarrow> nat \<Rightarrow> string" where
  "sextets3 a b c = [BASE64_CHARS ! (a div 4), BASE64_CHARS ! (a mod 4 * 16 + b div 16),
     BASE64_CHARS ! (b mod 16 * 4 + c div 64), BASE64_CHARS ! (c mod 64)]"

lemma block_split:
  "(a::nat) * 65536 + b * 256 + c
    = ((a div 4 * 64 + (a mod 4 * 16 + b div 16)) * 64 + (b mod 16 * 4 + c div 64)) * 64 + c mod 64"
proof -
  have "((qa * 64 + (ra * 16 + qb)) * 64 + (rb * 4 + qc)) * 64 + rc
      = (qa * 4 + ra) * 65536 + (qb * 16 + rb) * 256 + (qc * 64 + rc)" for qa ra qb rb qc rc :: nat
    by simp
  from this [of "a div 4" "a mod 4" "b div 16" "b mod 16" "c div 64" "c mod 64"] show ?thesis
    by simp
qed

lemma sextet_bounds:
  "byte x div 4 < 64" "byte x mod 4 * 16 + byte y div 16 < 64" "byte y mod 16 * 4 + byte z div 64 < 64"
  "byte z mod 64 < 64" "byte x mod 4 * 16 < 64" "byte y mod 16 * 4 < 64"
  using byte_less [of x] byte_less [of y] byte_less [of z] by (simp_all; linarith)+

lemma encode_group_3: "encode_group (x # y # z # r) = sextets3 (byte x) (byte y) (byte z)"
proof -
  note s = sextets [OF trans [OF unat_block [of x y z] block_split] sextet_bounds(1-4)]
  show ?thesis by (simp add: encode_group_def Let_def s sextets3_def)
qed

lemma encode_group_2: "encode_group [x, y] = take 3 (sextets3 (byte x) (byte y) 0) @ ''=''"
proof -
  have "unat (push_bit 16 (byte32 x) OR push_bit 8 (byte32 y)) = byte x * 65536 + byte y * 256 + 0"
    by (simp add: unat_block_2)
  note s = sextets [OF trans [OF this block_split] sextet_bounds(1) sextet_bounds(2)]
  show ?thesis using sextet_bounds by (simp add: encode_group_def Let_def s sextets3_def)
qed

lemma encode_group_1: "encode_group [x] = take 2 (sextets3 (byte x) 0 0) @ ''==''"
proof -
  have "unat (push_bit 16 (byte32 x)) = byte x * 65536 + 0 * 256 + 0"
    by (simp add: unat_block_1)
  note s = sextets [OF trans [OF this block_split] sextet_bounds(1)]
  show ?thesis using sextet_bounds by (simp add: encode_group_def Let_def s sextets3_def)
qed

section \<open>Decoding what was encoded\<close>

lemma char_of_int [simp]: "char_of (int n) = char_of n"
  by (simp add: char_of_def bit_of_nat_iff_bit possible_bit_def)

lemma char_of_int_byte [simp]: "char_of (int (byte c)) = c"
  by simp

lemma decode_bytes:
  assumes "s1 < 64" "s2 < 64" "s3 < 64"
  shows "char_of (push_bit 2 (int s0) OR drop_bit 4 (int s1)) = char_of (s0 * 4 + s1 div 16)"
    and "char_of (push_bit 4 (int s1) OR drop_bit 2 (int s2)) = char_of (s1 * 16 + s2 div 4)"
    and "char_of (push_bit 6 (int s2) OR int s3) = char_of (s2 * 64 + s3)"
proof -
  have "push_bit 2 (int s0) OR drop_bit 4 (int s1) = int (s0 * 4 + s1 div 16)"
    using assms by (subst push_bit_or_eq) (auto simp: drop_bit_eq_div zdiv_int)
  moreover have "push_bit 4 (int s1) OR drop_bit 2 (int s2) = int (s1 * 16 + s2 div 4)"
    using assms by (subst push_bit_or_eq) (auto simp: drop_bit_eq_div zdiv_int)
  moreover have "push_bit 6 (int s2) OR int s3 = int (s2 * 64 + s3)"
    using assms by (subst push_bit_or_eq) auto
  ultimately show "char_of (push_bit 2 (int s0) OR drop_bit 4 (int s1)) = char_of (s0 * 4 + s1 div 16)"
    "char_of (push_bit 4 (int s1) OR drop_bit 2 (int s2)) = char_of (s1 * 16 + s2 div 4)"
    "char_of (push_bit 6 (int s2) OR int s3) = char_of (s2 * 64 + s3)"
    by (simp_all only: char_of_int)
qed

lemma decode_group_full:
  assumes "s0 < 64" "s1 < 64" "s2 < 64" "s3 < 64"
  shows "decode_group (BASE64_CHARS ! s0) (BASE64_CHARS ! s1) (BASE64_CHARS ! s2) (BASE64_CHARS ! s3) f
     = Success [char_of (s0 * 4 + s1 div 16), char_of (s1 * 16 + s2 div 4), char_of (s2 * 64 + s3)]"
  using assms by (simp add: decode_group_def Let_def decode_bytes del: char_of_int)

lemma decode_group_pad1:
  assumes "s0 < 64" "s1 < 64" "s2 < 64" "s2 mod 4 = 0"
  shows "decode_group (BASE64_CHARS ! s0) (BASE64_CHARS ! s1) (BASE64_CHARS ! s2) CHR ''='' True
     = Success [char_of (s0 * 4 + s1 div 16), char_of (s1 * 16 + s2 div 4)]"
proof -
  have "int s2 AND 3 = 0" using assms(4) unfolding and_3 by presburger
  then show ?thesis using assms by (simp add: decode_group_def Let_def decode_bytes [of _ _ 0] del: char_of_int)
qed

lemma decode_group_pad2:
  assumes "s0 < 64" "s1 < 64" "s1 mod 16 = 0"
  shows "decode_group (BASE64_CHARS ! s0) (BASE64_CHARS ! s1) CHR ''='' CHR ''='' True
     = Success [char_of (s0 * 4 + s1 div 16)]"
proof -
  have "int s1 AND 15 = 0" using assms(3) unfolding and_15 by presburger
  then show ?thesis using assms by (simp add: decode_group_def Let_def decode_bytes [of _ 0 0] del: char_of_int)
qed

lemma char_of_mod: "n mod 256 = byte c \<Longrightarrow> char_of n = c"
  by (metis byte_char_of byte_inject)

lemma recombine:
  "char_of (byte x div 4 * 4 + (byte x mod 4 * 16 + byte y div 16) div 16) = x"
  "char_of ((byte x mod 4 * 16 + byte y div 16) * 16 + (byte y mod 16 * 4 + byte z div 64) div 4) = y"
  "char_of ((byte y mod 16 * 4 + byte z div 64) * 64 + byte z mod 64) = z"
proof -
  have "byte y div 16 < 16" "byte z div 64 < 4" "byte x < 256" "byte y < 256" "byte z < 256"
    using byte_less [of y] byte_less [of z] by (auto simp: less_mult_imp_div_less)
  then have "byte x div 4 * 4 + (byte x mod 4 * 16 + byte y div 16) div 16 = byte x"
    "(byte x mod 4 * 16 + byte y div 16) * 16 + (byte y mod 16 * 4 + byte z div 64) div 4
      = byte y + 256 * (byte x mod 4)"
    "(byte y mod 16 * 4 + byte z div 64) * 64 + byte z mod 64 = byte z + 256 * (byte y mod 16)"
    by simp_all
  then show "char_of (byte x div 4 * 4 + (byte x mod 4 * 16 + byte y div 16) div 16) = x"
    "char_of ((byte x mod 4 * 16 + byte y div 16) * 16 + (byte y mod 16 * 4 + byte z div 64) div 4) = y"
    "char_of ((byte y mod 16 * 4 + byte z div 64) * 64 + byte z mod 64) = z"
    by (simp_all add: char_of_mod)
qed

lemma recombine_pad:
  "char_of (byte x div 4 * 4 + byte x mod 4 * 16 div 16) = x"
  "char_of ((byte x mod 4 * 16 + byte y div 16) * 16 + byte y mod 16 * 4 div 4) = y"
  using recombine(1) [of x "char_of (0::nat)"] recombine(2) [of x y "char_of (0::nat)"] by simp_all

lemma decode_encode_group:
  assumes "p \<noteq> []"
  shows "decode_group (encode_group p ! 0) (encode_group p ! 1) (encode_group p ! 2)
     (encode_group p ! 3) (drop 3 p = []) = Success (take 3 p)"
proof -
  consider x where "p = [x]" | x y where "p = [x, y]" | x y z r where "p = x # y # z # r"
    using assms by (metis neq_Nil_conv)
  then show ?thesis
  proof cases
    case 1
    have "decode_group (BASE64_CHARS ! (byte x div 4)) (BASE64_CHARS ! (byte x mod 4 * 16))
        CHR ''='' CHR ''='' True = Success [x]"
      by (subst decode_group_pad2) (simp_all only: sextet_bounds recombine_pad mod_mult_self2_is_0)
    with 1 show ?thesis by (simp add: encode_group_1 sextets3_def numeral_2_eq_2 numeral_3_eq_3)
  next
    case 2
    have "decode_group (BASE64_CHARS ! (byte x div 4)) (BASE64_CHARS ! (byte x mod 4 * 16 + byte y div 16))
        (BASE64_CHARS ! (byte y mod 16 * 4)) CHR ''='' True = Success [x, y]"
      by (subst decode_group_pad1) (simp_all only: sextet_bounds recombine recombine_pad mod_mult_self2_is_0)
    with 2 show ?thesis by (simp add: encode_group_2 sextets3_def numeral_2_eq_2 numeral_3_eq_3)
  next
    case 3
    have "decode_group (BASE64_CHARS ! (byte x div 4)) (BASE64_CHARS ! (byte x mod 4 * 16 + byte y div 16))
        (BASE64_CHARS ! (byte y mod 16 * 4 + byte z div 64)) (BASE64_CHARS ! (byte z mod 64)) f
        = Success [x, y, z]" for f
      by (subst decode_group_full) (simp_all only: sextet_bounds recombine)
    with 3 show ?thesis by (simp add: encode_group_3 sextets3_def numeral_2_eq_2 numeral_3_eq_3)
  qed
qed

lemma length_encode_group: "p \<noteq> [] \<Longrightarrow> length (encode_group p) = 4"
  by (simp add: encode_group_def Let_def)

lemma decode_encode_loop: "decode_loop out (encode_loop p) = Success (out @ p)"
proof (induction p arbitrary: out rule: encode_loop.induct)
  case (1 p)
  show ?case
  proof (cases "p = []")
    case True
    then show ?thesis by (simp add: encode_loop.simps [of "[]"])
  next
    case False
    obtain c0 c1 c2 c3 where g: "encode_group p = [c0, c1, c2, c3]"
      using length_encode_group [OF False] by (auto simp: length_Suc_conv eval_nat_numeral)
    have rest: "encode_loop (drop 3 p) = [] \<longleftrightarrow> drop 3 p = []"
      using length_encode_group [of "drop 3 p"] by (subst encode_loop.simps) auto
    have "decode_group c0 c1 c2 c3 (drop 3 p = []) = Success (take 3 p)"
      using decode_encode_group [OF False] by (simp add: g)
    then have "decode_loop out (encode_loop p) = decode_loop (out @ take 3 p) (encode_loop (drop 3 p))"
      using False by (simp add: encode_loop.simps [of p] g rest)
    also have "\<dots> = Success (out @ p)" using "1.IH" [OF False] by simp
    finally show ?thesis .
  qed
qed

section \<open>Only canonical groups are accepted\<close>

lemma split_sextets:
  assumes "s0 < 64" "s1 < 64" "s2 < 64" "s3 < 64"
  defines "b0 \<equiv> byte (char_of (s0 * 4 + s1 div 16))"
    and "b1 \<equiv> byte (char_of (s1 * 16 + s2 div 4))"
    and "b2 \<equiv> byte (char_of (s2 * 64 + s3))"
  shows "b0 div 4 = s0" "b0 mod 4 * 16 + b1 div 16 = s1" "b1 mod 16 * 4 + b2 div 64 = s2" "b2 mod 64 = s3"
proof -
  have q: "s1 div 16 < 4" "s2 div 4 < 16" using assms by (auto simp: less_mult_imp_div_less)
  have b0: "b0 = s0 * 4 + s1 div 16" using assms(1) q by (simp add: b0_def)
  have "s1 * 16 + s2 div 4 = (s1 mod 16 * 16 + s2 div 4) + 256 * (s1 div 16)"
    using div_mult_mod_eq [of s1 16] by linarith
  then have "b1 = (s1 mod 16 * 16 + s2 div 4) mod 256" by (simp only: b1_def byte_char_of mod_mult_self2)
  moreover have "s1 mod 16 * 16 + s2 div 4 < 256"
    using q(2) mod_less_divisor [of 16 s1] by linarith
  ultimately have b1: "b1 = s1 mod 16 * 16 + s2 div 4" by simp
  have "s2 * 64 + s3 = (s2 mod 4 * 64 + s3) + 256 * (s2 div 4)"
    using div_mult_mod_eq [of s2 4] by linarith
  then have "b2 = (s2 mod 4 * 64 + s3) mod 256" by (simp only: b2_def byte_char_of mod_mult_self2)
  moreover have "s2 mod 4 * 64 + s3 < 256"
    using assms(4) mod_less_divisor [of 4 s2] by linarith
  ultimately have b2: "b2 = s2 mod 4 * 64 + s3" by simp
  show "b0 div 4 = s0" "b0 mod 4 * 16 + b1 div 16 = s1" "b1 mod 16 * 4 + b2 div 64 = s2" "b2 mod 64 = s3"
    using q assms(4) by (simp_all add: b0 b1 b2)
qed

lemma base64_valueE:
  assumes "0 \<le> base64_value c"
  obtains s where "s < 64" "c = BASE64_CHARS ! s"
  using assms base64_char_value [OF assms] base64_value_less [of c]
  by (metis nat_less_iff of_nat_numeral)

lemma encode_group_inv_3:
  assumes "s0 < 64" "s1 < 64" "s2 < 64" "s3 < 64"
  shows "encode_group (char_of (s0 * 4 + s1 div 16) # char_of (s1 * 16 + s2 div 4)
      # char_of (s2 * 64 + s3) # r)
    = [BASE64_CHARS ! s0, BASE64_CHARS ! s1, BASE64_CHARS ! s2, BASE64_CHARS ! s3]"
  unfolding encode_group_3 sextets3_def split_sextets [OF assms] ..

lemma encode_group_inv_2:
  assumes "s0 < 64" "s1 < 64" "s2 < 64" "s2 mod 4 = 0"
  shows "encode_group [char_of (s0 * 4 + s1 div 16), char_of (s1 * 16 + s2 div 4)]
    = [BASE64_CHARS ! s0, BASE64_CHARS ! s1, BASE64_CHARS ! s2, CHR ''='']"
proof -
  have z: "byte (char_of (s2 * 64 + 0)) = 0" using assms(4) by (auto simp: mod_eq_0_iff_dvd)
  show ?thesis
    using split_sextets [OF assms(1-3), of 0] unfolding encode_group_2 sextets3_def z by simp
qed

lemma encode_group_inv_1:
  assumes "s0 < 64" "s1 < 64" "s1 mod 16 = 0"
  shows "encode_group [char_of (s0 * 4 + s1 div 16)]
    = [BASE64_CHARS ! s0, BASE64_CHARS ! s1, CHR ''='', CHR ''='']"
proof -
  have z: "byte (char_of (s1 * 16 + 0 div 4)) = 0" using assms(3) by (auto simp: mod_eq_0_iff_dvd)
  show ?thesis
    using split_sextets [OF assms(1-2), of 0 0] unfolding encode_group_1 sextets3_def z by simp
qed

lemma decode_group_canonical:
  assumes ok: "decode_group c0 c1 c2 c3 f = Success bs"
  shows "length bs = 3 \<and> (\<forall>r. encode_group (bs @ r) = [c0, c1, c2, c3]) \<or>
    f \<and> 1 \<le> length bs \<and> length bs \<le> 3 \<and> encode_group bs = [c0, c1, c2, c3]"
proof -
  from ok have v: "0 \<le> base64_value c0" "0 \<le> base64_value c1"
    by (auto simp: decode_group_def Let_def split: if_splits)
  then obtain s0 s1 where s: "s0 < 64" "c0 = BASE64_CHARS ! s0" "s1 < 64" "c1 = BASE64_CHARS ! s1"
    by (metis base64_valueE)
  consider (full) s2 s3 where "s2 < 64" "c2 = BASE64_CHARS ! s2" "s3 < 64" "c3 = BASE64_CHARS ! s3"
    | (pad1) s2 where "s2 < 64" "c2 = BASE64_CHARS ! s2" "c3 = CHR ''=''" "s2 mod 4 = 0" f
    | (pad2) "c2 = CHR ''=''" "c3 = CHR ''=''" "s1 mod 16 = 0" f
  proof (cases "c2 = CHR ''=''")
    case True
    with ok have c3: "c3 = CHR ''=''" and f: f and z: "base64_value c1 AND 15 = 0"
      by (simp_all add: decode_group_def Let_def split: if_splits)
    from z have "s1 mod 16 = 0" unfolding s(4) base64_value_char [OF s(3)] and_15 by presburger
    from pad2 [OF True c3 this f] show ?thesis .
  next
    case c2: False
    with ok have "0 \<le> base64_value c2" by (auto simp: decode_group_def Let_def split: if_splits)
    then obtain s2 where s2: "s2 < 64" "c2 = BASE64_CHARS ! s2" by (metis base64_valueE)
    show ?thesis
    proof (cases "c3 = CHR ''=''")
      case True
      with ok c2 have f: f and z: "base64_value c2 AND 3 = 0"
        by (simp_all add: decode_group_def Let_def split: if_splits)
      from z have "s2 mod 4 = 0" unfolding s2(2) base64_value_char [OF s2(1)] and_3 by presburger
      from pad1 [OF s2 True this f] show ?thesis .
    next
      case False
      with ok c2 have "0 \<le> base64_value c3" by (auto simp: decode_group_def Let_def split: if_splits)
      then obtain s3 where s3: "s3 < 64" "c3 = BASE64_CHARS ! s3" by (metis base64_valueE)
      from full [OF s2 s3] show ?thesis .
    qed
  qed
  then show ?thesis
  proof cases
    case full
    with ok s show ?thesis by (auto simp: decode_group_full encode_group_inv_3)
  next
    case pad1
    with ok s show ?thesis by (auto simp: decode_group_pad1 encode_group_inv_2)
  next
    case pad2
    with ok s show ?thesis by (auto simp: decode_group_pad2 encode_group_inv_1)
  qed
qed

section \<open>Whole frames\<close>

lemma decode_loop_canonical:
  "decode_loop out f = Success res \<Longrightarrow> length f mod 4 = 0 \<Longrightarrow>
    \<exists>p. res = out @ p \<and> encode_loop p = f \<and> 3 * length f \<ge> 4 * length p"
proof (induction out f arbitrary: res rule: decode_loop.induct)
  case (1 out)
  then show ?case by (intro exI [of _ "[]"]) (simp add: encode_loop.simps [of "[]"])
next
  case (2 out c0 c1 c2 c3 rest)
  from "2.prems"(1) obtain bs where bs: "decode_group c0 c1 c2 c3 (rest = []) = Success bs"
    and rec: "decode_loop (out @ bs) rest = Success res" by (auto split: result.splits)
  from "2.prems"(2) have len: "length rest mod 4 = 0" by simp
  from "2.IH" [OF bs rec len] obtain p where p: "res = (out @ bs) @ p" "encode_loop p = rest"
    "4 * length p \<le> 3 * length rest" by blast
  from decode_group_canonical [OF bs] consider
    (three) "length bs = 3" "encode_group (bs @ p) = [c0, c1, c2, c3]"
    | (final) "rest = []" "1 \<le> length bs" "length bs \<le> 3" "encode_group bs = [c0, c1, c2, c3]"
    by blast
  then show ?case
  proof cases
    case three
    then have "encode_loop (bs @ p) = c0 # c1 # c2 # c3 # rest"
      using p(2) by (subst encode_loop.simps) auto
    with p three(1) show ?thesis by (intro exI [of _ "bs @ p"]) auto
  next
    case final
    with p have "p = []" by simp
    moreover from final have "encode_loop bs = c0 # c1 # c2 # c3 # rest"
      by (subst encode_loop.simps) (auto simp: encode_loop.simps [of "[]"])
    ultimately show ?thesis using p final(3) by (intro exI [of _ bs]) auto
  qed
qed auto

lemma length_encode_loop: "length (encode_loop p) = 4 * ((length p + 2) div 3)"
proof (induction p rule: encode_loop.induct)
  case (1 p)
  show ?case
  proof (cases "p = []")
    case True
    then show ?thesis by (simp add: encode_loop.simps [of "[]"])
  next
    case False
    with "1.IH" have "length (encode_loop p) = 4 + 4 * ((length p - 3 + 2) div 3)"
      by (simp add: encode_loop.simps [of p] length_encode_group)
    also have "\<dots> = 4 * ((length p + 2) div 3)"
    proof (cases "length p < 3")
      case True
      with False have "length p = 1 \<or> length p = 2" by (cases "length p") auto
      then show ?thesis by auto
    next
      case False
      then obtain k where "length p = k + 3" by (metis add.commute le_Suc_ex not_less)
      moreover have "(k + 3 + 2) div 3 = (k + 3 - 3 + 2) div 3 + 1" by presburger
      ultimately show ?thesis by (simp only:) (simp only: distrib_left mult_1_right add.commute)
    qed
    finally show ?thesis .
  qed
qed

definition frame_char :: "char \<Rightarrow> bool" where
  "frame_char c \<longleftrightarrow> c \<in> set BASE64_CHARS \<or> c = CHR ''=''"

lemma encode_group_chars: "p \<noteq> [] \<Longrightarrow> c \<in> set (encode_group p) \<Longrightarrow> frame_char c"
proof -
  have "sextet b n \<in> set BASE64_CHARS" for b n
    unfolding sextet_eq by (rule nth_mem) (simp add: BASE64_length)
  then show "p \<noteq> [] \<Longrightarrow> c \<in> set (encode_group p) \<Longrightarrow> frame_char c"
    by (auto simp: encode_group_def Let_def frame_char_def split: if_splits)
qed

lemma encode_loop_chars: "c \<in> set (encode_loop p) \<Longrightarrow> frame_char c"
proof (induction p rule: encode_loop.induct)
  case (1 p)
  then show ?case
    by (cases "p = []") (auto simp: encode_loop.simps [of p] encode_loop.simps [of "[]"] dest: encode_group_chars)
qed

lemma frame_char_printable: "frame_char c \<Longrightarrow> \<not> iscntrl c"
proof -
  have "\<forall>c\<in>set (BASE64_CHARS @ ''=''). \<not> iscntrl c"
    unfolding BASE64_CHARS_def by code_simp
  then show "frame_char c \<Longrightarrow> \<not> iscntrl c" by (auto simp: frame_char_def)
qed

lemma line_end_cntrl [simp]: "iscntrl CHR 0x0A" "iscntrl CHR 0x0D"
  by (simp_all add: iscntrl_def byte_def)

lemma encode_loop_no_line_end [simp]: "CHR 0x0A \<notin> set (encode_loop p)" "CHR 0x0D \<notin> set (encode_loop p)"
  using encode_loop_chars frame_char_printable line_end_cntrl by blast+

lemma strip_suffix_absent [simp]: "c \<notin> set s \<Longrightarrow> strip_suffix c s = s"
  by (auto simp: strip_suffix_def)

lemma strip_suffix_snoc [simp]: "strip_suffix c (s @ [c]) = s"
  by (simp add: strip_suffix_def)

lemma strip_line_end_encoded [simp]: "strip_line_end (encode_loop p @ [CHR 0x0A]) = encode_loop p"
  by (simp add: strip_line_end_def)

lemma strip_line_end_encoded' [simp]: "strip_line_end (encode_loop p) = encode_loop p"
  by (simp add: strip_line_end_def)

lemma encode_loop_Nil [simp]: "encode_loop p = [] \<longleftrightarrow> p = []"
  using length_encode_loop [of p] by (cases p) (auto simp: encode_loop.simps [of "[]"])

definition payload_fits :: "string \<Rightarrow> bool" where
  "payload_fits p \<longleftrightarrow> p \<noteq> [] \<and> length p \<le> max_payload_length"

lemma max_payload_length_eq: "max_payload_length = 3069"
  by (simp add: max_payload_length_def protocol_limits)

lemma encode_loop_fits: "length p \<le> max_payload_length \<Longrightarrow> length (encode_loop p) + 1 \<le> MAX_FRAME_LENGTH"
proof -
  assume "length p \<le> max_payload_length"
  then have "(length p + 2) div 3 \<le> 3071 div 3"
    unfolding max_payload_length_eq by (intro div_le_mono) simp
  then show ?thesis by (simp add: length_encode_loop protocol_limits)
qed

lemma encode_frame_fits:
  "payload_fits p \<Longrightarrow> encode_frame p = Success (encode_loop p @ [CHR 0x0A])"
  using encode_loop_fits [of p] by (auto simp: payload_fits_def encode_frame_def Let_def)

lemma encode_frame_Success:
  "encode_frame p = Success w \<longleftrightarrow> payload_fits p \<and> w = encode_loop p @ [CHR 0x0A]"
  using encode_frame_fits [of p]
  by (auto simp: encode_frame_def payload_fits_def frame_too_large_def Let_def split: if_splits)

lemma decode_frame_encoded:
  assumes "payload_fits p"
  shows "decode_frame (encode_loop p @ [CHR 0x0A]) = Success p"
    and "decode_frame (encode_loop p) = Success p"
proof -
  have "length (encode_loop p) + 1 \<le> MAX_FRAME_LENGTH" "p \<noteq> []"
    using assms encode_loop_fits by (auto simp: payload_fits_def)
  then show "decode_frame (encode_loop p @ [CHR 0x0A]) = Success p" "decode_frame (encode_loop p) = Success p"
    by (simp_all add: decode_frame_def Let_def decode_encode_loop length_encode_loop)
qed

lemma decode_frame_canonical:
  assumes "decode_frame f = Success p"
  shows "encode_frame p = Success (strip_line_end f @ [CHR 0x0A])"
proof -
  let ?f = "strip_line_end f"
  from assms have f: "?f \<noteq> []" "length ?f + 1 \<le> MAX_FRAME_LENGTH" "length ?f mod 4 = 0" "p \<noteq> []"
    and dec: "decode_loop [] ?f = Success p"
    by (auto simp: decode_frame_def Let_def frame_too_large_def split: if_splits result.splits)
  from decode_loop_canonical [OF dec f(3)] have p: "encode_loop p = ?f" "4 * length p \<le> 3 * length ?f"
    by auto
  have "length ?f \<le> 4092" using f(2,3) unfolding protocol_limits by presburger
  with p(2) have "length p \<le> max_payload_length" by (simp add: max_payload_length_eq)
  with f(4) p(1) show ?thesis by (simp add: encode_frame_Success payload_fits_def)
qed

interpretation frames: codec "value_of \<circ> encode_frame" "value_of \<circ> decode_frame" payload_fits
  by unfold_locales (auto simp: encode_frame_fits encode_frame_Success decode_frame_encoded)

section \<open>Reading lines\<close>

text \<open>
  \<open>async_read_until\<close> and \<open>std::getline\<close> on a connection's buffer: the bytes up to the first
  newline are the next line, and the newline is dropped. \<open>read_lines\<close> repeats it and returns
  the lines with what is left in the buffer.
\<close>

definition next_line :: "string \<Rightarrow> (string \<times> string) option" where
  "next_line buffer =
     (case find_char CHR 0x0A buffer of
        None \<Rightarrow> None
      | Some i \<Rightarrow> Some (take i buffer, drop (Suc i) buffer))"

function read_lines :: "string \<Rightarrow> string list \<times> string" where
  "read_lines buffer =
     (case next_line buffer of
        None \<Rightarrow> ([], buffer)
      | Some (line, rest) \<Rightarrow> let (ls, left) = read_lines rest in (line # ls, left))"
  by pat_completeness auto
termination
  by (relation "measure length") (auto simp: next_line_def dest: find_char_less split: option.splits)

declare read_lines.simps [simp del]

lemma read_lines_Nil [simp]: "read_lines [] = ([], [])"
  by (subst read_lines.simps) (simp add: next_line_def)

lemma read_lines_line:
  "CHR 0x0A \<notin> set l \<Longrightarrow> read_lines (l @ CHR 0x0A # r) = (let (ls, left) = read_lines r in (l # ls, left))"
  by (subst read_lines.simps) (simp add: next_line_def)

lemma read_lines_frames: "read_lines (concat (map (\<lambda>p. encode_loop p @ [CHR 0x0A]) ps)) = (map encode_loop ps, [])"
  by (induction ps) (simp_all add: read_lines_line)

section \<open>Properties\<close>

text \<open>
  C3: A non-empty payload of at most 3069 bytes is encoded into a frame of at most
  \<open>MAX_FRAME_LENGTH\<close> bytes, and decoding that frame gives the payload back.
\<close>

theorem frame_roundtrip:
  assumes "p \<noteq> []" "length p \<le> 3069"
  shows "\<exists>w. encode_frame p = Success w \<and> length w \<le> MAX_FRAME_LENGTH \<and> decode_frame w = Success p"
  using assms encode_frame_fits [of p] encode_loop_fits [of p] decode_frame_encoded [of p]
  by (simp add: payload_fits_def max_payload_length_eq)

theorem frame_roundtrip_witness:
  "\<exists>w. encode_frame ''hi|there'' = Success w \<and> length w \<le> MAX_FRAME_LENGTH \<and>
     decode_frame w = Success ''hi|there''"
  by (rule frame_roundtrip) simp_all

text \<open>
  The decoder accepts canonical Base64 only. Whatever frame it accepts is, up to its
  line end, the frame the encoder makes of the decoded payload; in particular two accepted
  frames with the same payload differ at most in their line ends.
\<close>

theorem frame_canonical:
  assumes "decode_frame w = Success p"
  shows "encode_frame p = Success (strip_line_end w @ [CHR 0x0A])"
  using decode_frame_canonical [OF assms] by (simp add: encode_frame_Success)

theorem frame_canonical_witness:
  "encode_frame ''hi'' = Success (strip_line_end (''aGk='' @ [CHR 0x0D, CHR 0x0A]) @ [CHR 0x0A])"
  by (rule frame_canonical) code_simp

end
