(* ===== verification/Protocol_Messages.thy ===== *)
theory Protocol_Messages
  imports Frame_Codec
begin

text \<open>
  The messages of \<open>protocol/protocol.h\<close> and \<open>protocol/protocol.cpp\<close>: the two variants
  \<open>ClientMessage\<close> and \<open>ServerMessage\<close>, the validators of their fields, \<open>serialize\<close> and the
  two parsers with every error they report, and the four functions that combine them
  with the framing layer.

  Shown: a well-formed message survives printing and parsing, whatever a parser accepts is
  well-formed, and therefore well-formed messages travel unchanged through an encoded
  frame. A message that is not well-formed may be accepted by the encoder and arrive as a
  different message; the last theorem of this file states the case.
\<close>

section \<open>Messages\<close>

type_synonym room_id = u64

datatype client_message =
    Hello u32
  | Authenticate string
  | Identify string string
  | IdentityProof string
  | Leave
  | Disconnect
  | ListRooms
  | CreateRoom string
  | JoinRoom string
  | TopicRequest "string option"
  | Chat string
  | Whisper string string
  | KickRequest string string

record room_summary =
  summary_id :: room_id
  summary_name :: string
  summary_user_count :: u64

datatype server_message =
    ServerHello u32
  | AuthRequired
  | AuthAccepted
  | AuthRejected
  | Challenge string
  | IdentityAccepted string
  | JoinAccepted
  | Banned
  | NicknameTaken
  | JoinRejected string
  | Kick string string
  | UserList room_id "string list"
  | RoomList "room_summary list"
  | RoomJoined room_id string string
  | RoomTopic room_id string
  | RoomText room_id string
  | Text string
  | ServerError string

section \<open>Fields\<close>

definition split_fields :: "string \<Rightarrow> string list" where
  "split_fields payload = split_on CHR ''|'' payload"

definition is_valid_nickname :: "string \<Rightarrow> bool" where
  "is_valid_nickname nickname =
     (if nickname = [] \<or> length nickname > 31 then False
      else \<not> list_ex (\<lambda>ch. iscntrl ch \<or> isspace ch \<or> ch = CHR ''|'' \<or> ch = CHR '','') nickname)"

definition is_valid_text :: "string \<Rightarrow> nat \<Rightarrow> bool" where
  "is_valid_text text max_length =
     (if text = [] \<or> length text > max_length then False
      else \<not> list_ex (\<lambda>ch. iscntrl ch \<and> ch \<noteq> CHR 0x09) text)"

definition parse_unsigned :: "string \<Rightarrow> u64 option" where
  "parse_unsigned text =
     (case from_chars (2 ^ 64) text of
        Inl _ \<Rightarrow> None
      | Inr (value, rest) \<Rightarrow> if text \<noteq> [] \<and> rest = [] then Some (word_of_nat value) else None)"

fun rest_after_delimiter :: "string \<Rightarrow> nat \<Rightarrow> string" where
  "rest_after_delimiter payload 0 = payload"
| "rest_after_delimiter payload (Suc n) =
     (case find_char CHR ''|'' payload of
        None \<Rightarrow> []
      | Some i \<Rightarrow> rest_after_delimiter (drop (Suc i) payload) n)"

definition is_hex :: "string \<Rightarrow> nat \<Rightarrow> bool" where
  "is_hex text len \<longleftrightarrow> length text = len \<and> list_all isxdigit text"

definition rest_after_command :: "string \<Rightarrow> string" where
  "rest_after_command payload =
     (case find_char CHR ''|'' payload of
        None \<Rightarrow> []
      | Some delimiter \<Rightarrow> drop (delimiter + 1) payload)"

text \<open>
  \<open>payload.substr(payload.find('|', payload.find('|') + 1) + 1)\<close>, with \<open>npos + 1 = 0\<close>.
\<close>

definition rest_after_second :: "string \<Rightarrow> string" where
  "rest_after_second payload =
     (let start = (case find_char CHR ''|'' payload of None \<Rightarrow> 0 | Some i \<Rightarrow> i + 1)
      in case find_from CHR ''|'' payload start of
           None \<Rightarrow> payload
         | Some j \<Rightarrow> drop (j + 1) payload)"

definition is_valid_room_name :: "string \<Rightarrow> bool" where
  "is_valid_room_name name =
     (if name = [] \<or> length name > MAX_ROOM_NAME_LENGTH then False
      else list_all (\<lambda>ch. isalnum ch \<or> ch = CHR ''-'' \<or> ch = CHR ''_'') name)"

definition is_valid_room_topic :: "string \<Rightarrow> bool" where
  "is_valid_room_topic topic =
     (if length topic > MAX_ROOM_TOPIC_LENGTH then False
      else \<not> list_ex iscntrl topic)"

definition word_to_string :: "'a::len word \<Rightarrow> string" where
  "word_to_string w = nat_to_string (unat w)"

section \<open>Printing\<close>

fun serialize_client :: "client_message \<Rightarrow> string" where
  "serialize_client (Hello version) = ''HELLO|'' @ word_to_string version"
| "serialize_client (Authenticate password) = ''AUTH|'' @ password"
| "serialize_client (Identify nickname key) = ''IDENTIFY|'' @ nickname @ ''|'' @ key"
| "serialize_client (IdentityProof signature) = ''PROOF|'' @ signature"
| "serialize_client Leave = ''LEAVE''"
| "serialize_client Disconnect = ''DISCONNECT''"
| "serialize_client ListRooms = ''ROOMS''"
| "serialize_client (CreateRoom name) = ''CREATE|'' @ name"
| "serialize_client (JoinRoom name) = ''JOIN|'' @ name"
| "serialize_client (TopicRequest topic) =
     (case topic of Some t \<Rightarrow> ''TOPIC|'' @ t | None \<Rightarrow> ''TOPIC'')"
| "serialize_client (Chat body) = ''MSG|'' @ body"
| "serialize_client (Whisper target body) = ''WHISPER|'' @ target @ ''|'' @ body"
| "serialize_client (KickRequest nickname reason) = ''KICK|'' @ nickname @ ''|'' @ reason"

definition serialize_room :: "room_summary \<Rightarrow> string" where
  "serialize_room r = word_to_string (summary_id r) @ '','' @ summary_name r @ '',''
     @ word_to_string (summary_user_count r)"

fun serialize_server :: "server_message \<Rightarrow> string" where
  "serialize_server (ServerHello version) = ''HELLO|'' @ word_to_string version"
| "serialize_server AuthRequired = ''AUTH_REQUIRED''"
| "serialize_server AuthAccepted = ''AUTH_OK''"
| "serialize_server AuthRejected = ''AUTH_FAIL''"
| "serialize_server (Challenge challenge) = ''CHALLENGE|'' @ challenge"
| "serialize_server (IdentityAccepted fingerprint) = ''IDENTITY_OK|'' @ fingerprint"
| "serialize_server JoinAccepted = ''JOIN_OK''"
| "serialize_server Banned = ''BANNED''"
| "serialize_server NicknameTaken = ''NICK_TAKEN''"
| "serialize_server (JoinRejected reason) = ''JOIN_FAIL|'' @ reason"
| "serialize_server (Kick nickname reason) = ''KICK|'' @ nickname @ ''|'' @ reason"
| "serialize_server (UserList rid nicknames) =
     ''USERS|'' @ word_to_string rid @ ''|'' @ join_with CHR '','' nicknames"
| "serialize_server (RoomList rooms) =
     ''ROOMS|'' @ join_with CHR '';'' (map serialize_room rooms)"
| "serialize_server (RoomJoined rid name topic) =
     ''ROOM|'' @ word_to_string rid @ ''|'' @ name @ ''|'' @ topic"
| "serialize_server (RoomTopic rid topic) = ''TOPIC|'' @ word_to_string rid @ ''|'' @ topic"
| "serialize_server (RoomText rid body) = ''ROOM_TEXT|'' @ word_to_string rid @ ''|'' @ body"
| "serialize_server (Text body) = ''TEXT|'' @ body"
| "serialize_server (ServerError reason) = ''ERROR|'' @ reason"

section \<open>Parsing client messages\<close>

text \<open>The \<open>HELLO\<close> branch both parsers share, up to the variant they build.\<close>

definition parse_hello :: "(u32 \<Rightarrow> 'm) \<Rightarrow> string list \<Rightarrow> 'm result" where
  "parse_hello mk fs =
     (if length fs \<noteq> 2 then Failure WrongFieldCount ''HELLO requires one version field''
      else case from_chars (2 ^ 32) (fs ! 1) of
             Inl _ \<Rightarrow> Failure InvalidField ''HELLO version must be an integer''
           | Inr (v, rest) \<Rightarrow>
               if rest \<noteq> [] then Failure InvalidField ''HELLO version must be an integer''
               else let version = word_of_nat v :: u32 in
                    if version \<noteq> VERSION
                    then Failure UnsupportedVersion
                      (''Protocol version '' @ word_to_string version @ '' is unsupported'')
                    else Success (mk version))"

definition parse_client_message :: "string \<Rightarrow> client_message result" where
  "parse_client_message payload =
     (if payload = [] then Failure EmptyPayload ''Client message is empty''
      else let fs = split_fields payload; command = hd fs in
      if command = ''HELLO'' then parse_hello Hello fs
      else if command = ''AUTH'' then
        (if length fs < 2
         then Failure WrongFieldCount ''AUTH requires a password field''
         else let password = rest_after_command payload in
              if length password > 63 \<or> list_ex iscntrl password
              then Failure InvalidField ''AUTH password is oversized or contains control characters''
              else Success (Authenticate password))
      else if command = ''IDENTIFY'' then
        (if length fs \<noteq> 3
         then Failure WrongFieldCount ''IDENTIFY requires nickname and public key fields''
         else if \<not> is_valid_nickname (fs ! 1) \<or> \<not> is_hex (fs ! 2) 64
         then Failure InvalidField ''IDENTIFY contains an invalid nickname or public key''
         else Success (Identify (fs ! 1) (fs ! 2)))
      else if command = ''PROOF'' then
        (if length fs \<noteq> 2
         then Failure WrongFieldCount ''PROOF requires one signature field''
         else if \<not> is_hex (fs ! 1) 128
         then Failure InvalidField ''PROOF signature is invalid''
         else Success (IdentityProof (fs ! 1)))
      else if command = ''LEAVE'' then
        (if length fs \<noteq> 1
         then Failure WrongFieldCount ''LEAVE does not accept fields''
         else Success Leave)
      else if command = ''DISCONNECT'' \<or> command = ''ROOMS'' then
        (if length fs \<noteq> 1
         then Failure WrongFieldCount (command @ '' does not accept fields'')
         else if command = ''DISCONNECT'' then Success Disconnect
         else Success ListRooms)
      else if command = ''CREATE'' \<or> command = ''JOIN'' then
        (if length fs \<noteq> 2
         then Failure WrongFieldCount (command @ '' requires one room name'')
         else if \<not> is_valid_room_name (fs ! 1)
         then Failure InvalidField (command @ '' contains an invalid room name'')
         else if command = ''CREATE'' then Success (CreateRoom (fs ! 1))
         else Success (JoinRoom (fs ! 1)))
      else if command = ''TOPIC'' then
        (if length fs = 1 then Success (TopicRequest None)
         else let topic = rest_after_command payload in
              if topic = [] \<or> \<not> is_valid_room_topic topic
              then Failure InvalidField
                ''TOPIC text is empty, oversized, or contains control characters''
              else Success (TopicRequest (Some topic)))
      else if command = ''MSG'' then
        (if length fs < 2
         then Failure WrongFieldCount ''MSG requires a body field''
         else let body = rest_after_command payload in
              if \<not> is_valid_text body MAX_CHAT_LENGTH
              then Failure InvalidField
                ''MSG body is empty, oversized, or contains control characters''
              else Success (Chat body))
      else if command = ''WHISPER'' then
        (if length fs < 3
         then Failure WrongFieldCount ''WHISPER requires target and body fields''
         else let body = rest_after_second payload in
              if \<not> is_valid_nickname (fs ! 1) \<or> \<not> is_valid_text body MAX_CHAT_LENGTH
              then Failure InvalidField ''WHISPER contains an invalid target or body''
              else Success (Whisper (fs ! 1) body))
      else if command = ''KICK'' then
        (if length fs < 2 \<or> \<not> is_valid_nickname (fs ! 1)
         then Failure InvalidField ''KICK requires a valid nickname''
         else let reason = (if length fs > 2 then rest_after_delimiter payload 2 else []) in
              if length fs > 2 \<and> reason \<noteq> [] \<and> \<not> is_valid_text reason MAX_CHAT_LENGTH
              then Failure InvalidField ''KICK reason is oversized or contains control characters''
              else Success (KickRequest (fs ! 1) reason))
      else Failure UnknownMessage (''Unknown client message type: '' @ command))"

section \<open>Parsing server messages\<close>

text \<open>The loop over the comma-separated nicknames of \<open>USERS\<close>: \<open>None\<close> at an invalid one.\<close>

function parse_nicknames :: "string \<Rightarrow> string list option" where
  "parse_nicknames rest =
     (if rest = [] then Some []
      else case find_char CHR '','' rest of
             None \<Rightarrow> if is_valid_nickname rest then Some [rest] else None
           | Some comma \<Rightarrow>
               if is_valid_nickname (take comma rest)
               then map_option (Cons (take comma rest)) (parse_nicknames (drop (Suc comma) rest))
               else None)"
  by pat_completeness auto
termination
  by (relation "measure length") (auto dest: find_char_less)

declare parse_nicknames.simps [simp del]

text \<open>One \<open>id,name,count\<close> entry of \<open>ROOMS\<close>; the error is the detail text.\<close>

definition parse_room_entry :: "string \<Rightarrow> string + room_summary" where
  "parse_room_entry entry =
     (case find_char CHR '','' entry of
        None \<Rightarrow> Inl ''ROOMS contains a malformed entry''
      | Some first_comma \<Rightarrow>
          (case find_from CHR '','' entry (first_comma + 1) of
             None \<Rightarrow> Inl ''ROOMS contains a malformed entry''
           | Some second_comma \<Rightarrow>
               let name = take (second_comma - first_comma - 1) (drop (first_comma + 1) entry) in
               (case parse_unsigned (take first_comma entry) of
                  None \<Rightarrow> Inl ''ROOMS contains invalid room data''
                | Some rid \<Rightarrow>
                    if rid = 0 \<or> \<not> is_valid_room_name name
                    then Inl ''ROOMS contains invalid room data''
                    else case parse_unsigned (drop (second_comma + 1) entry) of
                           None \<Rightarrow> Inl ''ROOMS contains invalid room data''
                         | Some count \<Rightarrow>
                             Inr \<lparr>summary_id = rid, summary_name = name,
                               summary_user_count = count\<rparr>)))"

function parse_room_entries :: "room_summary list \<Rightarrow> string \<Rightarrow> string + room_summary list" where
  "parse_room_entries rooms rest =
     (if rest = [] then Inr rooms
      else let semicolon = find_char CHR '';'' rest;
               entry = (case semicolon of None \<Rightarrow> rest | Some i \<Rightarrow> take i rest)
           in case parse_room_entry entry of
                Inl detail \<Rightarrow> Inl detail
              | Inr room \<Rightarrow>
                  if length (rooms @ [room]) > MAX_ROOMS then Inl ''ROOMS contains too many rooms''
                  else case semicolon of
                         None \<Rightarrow> Inr (rooms @ [room])
                       | Some i \<Rightarrow> parse_room_entries (rooms @ [room]) (drop (Suc i) rest))"
  by pat_completeness auto
termination
  by (relation "measure (\<lambda>(rooms, rest). length rest)") (auto dest: find_char_less)

declare parse_room_entries.simps [simp del]

definition parse_users :: "string list \<Rightarrow> server_message result" where
  "parse_users fs =
     (if length fs \<noteq> 3
      then Failure WrongFieldCount ''USERS requires room and list fields''
      else case parse_unsigned (fs ! 1) of
             None \<Rightarrow> Failure InvalidField ''USERS contains an invalid room ID''
           | Some room_id \<Rightarrow>
               if room_id = 0 then Failure InvalidField ''USERS contains an invalid room ID''
               else if fs ! 2 \<noteq> [] \<and> last (fs ! 2) = CHR '',''
               then Failure InvalidField ''USERS contains an empty nickname''
               else case parse_nicknames (fs ! 2) of
                      None \<Rightarrow> Failure InvalidField ''USERS contains an invalid nickname''
                    | Some nicknames \<Rightarrow> Success (UserList room_id nicknames))"

definition parse_rooms :: "string list \<Rightarrow> server_message result" where
  "parse_rooms fs =
     (if length fs \<noteq> 2
      then Failure WrongFieldCount ''ROOMS requires one list field''
      else case parse_room_entries [] (fs ! 1) of
             Inl detail \<Rightarrow> Failure InvalidField detail
           | Inr rooms \<Rightarrow> Success (RoomList rooms))"

text \<open>The branches of messages that carry a room ID: \<open>ROOM\<close>, \<open>TOPIC\<close> and \<open>ROOM_TEXT\<close>.\<close>

definition parse_room_joined :: "string \<Rightarrow> string list \<Rightarrow> server_message result" where
  "parse_room_joined payload fs =
     (if length fs < 4
      then Failure WrongFieldCount ''ROOM requires ID, name, and topic fields''
      else let topic = rest_after_delimiter payload 3 in
           case parse_unsigned (fs ! 1) of
             None \<Rightarrow> Failure InvalidField ''ROOM contains invalid room data''
           | Some rid \<Rightarrow>
               if rid = 0 \<or> \<not> is_valid_room_name (fs ! 2) \<or> \<not> is_valid_room_topic topic
               then Failure InvalidField ''ROOM contains invalid room data''
               else Success (RoomJoined rid (fs ! 2) topic))"

definition parse_room_topic :: "string \<Rightarrow> string list \<Rightarrow> server_message result" where
  "parse_room_topic payload fs =
     (if length fs < 3
      then Failure WrongFieldCount ''TOPIC requires room and topic fields''
      else let topic = rest_after_delimiter payload 2 in
           case parse_unsigned (fs ! 1) of
             None \<Rightarrow> Failure InvalidField ''TOPIC contains invalid room data''
           | Some rid \<Rightarrow>
               if rid = 0 \<or> \<not> is_valid_room_topic topic
               then Failure InvalidField ''TOPIC contains invalid room data''
               else Success (RoomTopic rid topic))"

definition parse_room_text :: "string \<Rightarrow> string list \<Rightarrow> server_message result" where
  "parse_room_text payload fs =
     (if length fs < 3
      then Failure WrongFieldCount ''ROOM_TEXT requires room and text fields''
      else let body = rest_after_delimiter payload 2 in
           case parse_unsigned (fs ! 1) of
             None \<Rightarrow> Failure InvalidField ''ROOM_TEXT contains invalid room data''
           | Some rid \<Rightarrow>
               if rid = 0 \<or> \<not> is_valid_text body MAX_FRAME_LENGTH
               then Failure InvalidField ''ROOM_TEXT contains invalid room data''
               else Success (RoomText rid body))"

definition parse_kick :: "string \<Rightarrow> string list \<Rightarrow> server_message result" where
  "parse_kick payload fs =
     (if length fs < 2 \<or> \<not> is_valid_nickname (fs ! 1)
      then Failure InvalidField ''KICK requires a valid nickname''
      else let reason = (if length fs > 2 then rest_after_second payload else []) in
           if length fs > 2 \<and> reason \<noteq> [] \<and> \<not> is_valid_text reason MAX_CHAT_LENGTH
           then Failure InvalidField ''KICK reason is oversized or contains control characters''
           else Success (Kick (fs ! 1) reason))"

definition parse_server_message :: "string \<Rightarrow> server_message result" where
  "parse_server_message payload =
     (if payload = [] then Failure EmptyPayload ''Server message is empty''
      else let fs = split_fields payload; command = hd fs in
      if command = ''HELLO'' then parse_hello ServerHello fs
      else if command = ''AUTH_REQUIRED'' \<or> command = ''AUTH_OK'' \<or> command = ''AUTH_FAIL'' \<or>
              command = ''JOIN_OK'' \<or> command = ''BANNED'' \<or> command = ''NICK_TAKEN'' then
        (if length fs \<noteq> 1
         then Failure WrongFieldCount (command @ '' does not accept fields'')
         else if command = ''AUTH_REQUIRED'' then Success AuthRequired
         else if command = ''AUTH_OK'' then Success AuthAccepted
         else if command = ''AUTH_FAIL'' then Success AuthRejected
         else if command = ''JOIN_OK'' then Success JoinAccepted
         else if command = ''BANNED'' then Success Banned
         else Success NicknameTaken)
      else if command = ''CHALLENGE'' then
        (if length fs \<noteq> 2 \<or> \<not> is_hex (fs ! 1) 64
         then Failure InvalidField ''CHALLENGE must contain 32 bytes of hexadecimal data''
         else Success (Challenge (fs ! 1)))
      else if command = ''IDENTITY_OK'' then
        (if length fs \<noteq> 2 \<or> \<not> is_hex (fs ! 1) 16
         then Failure InvalidField ''IDENTITY_OK fingerprint is invalid''
         else Success (IdentityAccepted (fs ! 1)))
      else if command = ''USERS'' then parse_users fs
      else if command = ''ROOMS'' then parse_rooms fs
      else if command = ''ROOM'' then parse_room_joined payload fs
      else if command = ''TOPIC'' then parse_room_topic payload fs
      else if command = ''ROOM_TEXT'' then parse_room_text payload fs
      else if command = ''KICK'' then parse_kick payload fs
      else if command = ''JOIN_FAIL'' \<or> command = ''TEXT'' \<or> command = ''ERROR'' then
        (if length fs < 2
         then Failure WrongFieldCount (command @ '' requires a text field'')
         else let body = rest_after_command payload in
              if \<not> is_valid_text body MAX_FRAME_LENGTH
              then Failure InvalidField
                (command @ '' text is empty, oversized, or contains control characters'')
              else if command = ''JOIN_FAIL'' then Success (JoinRejected body)
              else if command = ''TEXT'' then Success (Text body)
              else Success (ServerError body))
      else Failure UnknownMessage (''Unknown server message type: '' @ command))"

section \<open>Messages in frames\<close>

definition encode_client_frame :: "client_message \<Rightarrow> string result" where
  "encode_client_frame message =
     (let payload = serialize_client message in
      case parse_client_message payload of
        Failure e d \<Rightarrow> Failure e d
      | Success _ \<Rightarrow> encode_frame payload)"

definition encode_server_frame :: "server_message \<Rightarrow> string result" where
  "encode_server_frame message =
     (let payload = serialize_server message in
      case parse_server_message payload of
        Failure e d \<Rightarrow> Failure e d
      | Success _ \<Rightarrow> encode_frame payload)"

definition decode_message_frame :: "string \<Rightarrow> (string \<Rightarrow> 'm result) \<Rightarrow> 'm result" where
  "decode_message_frame frame parser =
     (case decode_frame frame of
        Failure e d \<Rightarrow> Failure e d
      | Success payload \<Rightarrow> parser payload)"

definition decode_client_frame :: "string \<Rightarrow> client_message result" where
  "decode_client_frame frame = decode_message_frame frame parse_client_message"

definition decode_server_frame :: "string \<Rightarrow> server_message result" where
  "decode_server_frame frame = decode_message_frame frame parse_server_message"

section \<open>Well-formed messages\<close>

definition plain_text :: "string \<Rightarrow> bool" where
  "plain_text s \<longleftrightarrow> list_all (\<lambda>ch. \<not> iscntrl ch) s"

fun wf_client :: "client_message \<Rightarrow> bool" where
  "wf_client (Hello version) \<longleftrightarrow> version = VERSION"
| "wf_client (Authenticate password) \<longleftrightarrow> length password \<le> 63 \<and> plain_text password"
| "wf_client (Identify nickname key) \<longleftrightarrow> is_valid_nickname nickname \<and> is_hex key 64"
| "wf_client (IdentityProof signature) \<longleftrightarrow> is_hex signature 128"
| "wf_client Leave \<longleftrightarrow> True"
| "wf_client Disconnect \<longleftrightarrow> True"
| "wf_client ListRooms \<longleftrightarrow> True"
| "wf_client (CreateRoom name) \<longleftrightarrow> is_valid_room_name name"
| "wf_client (JoinRoom name) \<longleftrightarrow> is_valid_room_name name"
| "wf_client (TopicRequest topic) \<longleftrightarrow>
     (case topic of None \<Rightarrow> True | Some t \<Rightarrow> t \<noteq> [] \<and> is_valid_room_topic t)"
| "wf_client (Chat body) \<longleftrightarrow> is_valid_text body MAX_CHAT_LENGTH"
| "wf_client (Whisper target body) \<longleftrightarrow>
     is_valid_nickname target \<and> is_valid_text body MAX_CHAT_LENGTH"
| "wf_client (KickRequest nickname reason) \<longleftrightarrow>
     is_valid_nickname nickname \<and> (reason = [] \<or> is_valid_text reason MAX_CHAT_LENGTH)"

definition wf_room_summary :: "room_summary \<Rightarrow> bool" where
  "wf_room_summary r \<longleftrightarrow> summary_id r \<noteq> 0 \<and> is_valid_room_name (summary_name r)"

fun wf_server :: "server_message \<Rightarrow> bool" where
  "wf_server (ServerHello version) \<longleftrightarrow> version = VERSION"
| "wf_server AuthRequired \<longleftrightarrow> True"
| "wf_server AuthAccepted \<longleftrightarrow> True"
| "wf_server AuthRejected \<longleftrightarrow> True"
| "wf_server (Challenge challenge) \<longleftrightarrow> is_hex challenge 64"
| "wf_server (IdentityAccepted fingerprint) \<longleftrightarrow> is_hex fingerprint 16"
| "wf_server JoinAccepted \<longleftrightarrow> True"
| "wf_server Banned \<longleftrightarrow> True"
| "wf_server NicknameTaken \<longleftrightarrow> True"
| "wf_server (JoinRejected reason) \<longleftrightarrow> is_valid_text reason MAX_FRAME_LENGTH"
| "wf_server (Kick nickname reason) \<longleftrightarrow>
     is_valid_nickname nickname \<and> (reason = [] \<or> is_valid_text reason MAX_CHAT_LENGTH)"
| "wf_server (UserList rid nicknames) \<longleftrightarrow> rid \<noteq> 0 \<and> list_all is_valid_nickname nicknames"
| "wf_server (RoomList rooms) \<longleftrightarrow> length rooms \<le> MAX_ROOMS \<and> list_all wf_room_summary rooms"
| "wf_server (RoomJoined rid name topic) \<longleftrightarrow>
     rid \<noteq> 0 \<and> is_valid_room_name name \<and> is_valid_room_topic topic"
| "wf_server (RoomTopic rid topic) \<longleftrightarrow> rid \<noteq> 0 \<and> is_valid_room_topic topic"
| "wf_server (RoomText rid body) \<longleftrightarrow> rid \<noteq> 0 \<and> is_valid_text body MAX_FRAME_LENGTH"
| "wf_server (Text body) \<longleftrightarrow> is_valid_text body MAX_FRAME_LENGTH"
| "wf_server (ServerError reason) \<longleftrightarrow> is_valid_text reason MAX_FRAME_LENGTH"

section \<open>Fields of valid data\<close>

lemma valid_nickname_no_delim:
  assumes "is_valid_nickname n"
  shows "CHR ''|'' \<notin> set n" "CHR '','' \<notin> set n" "n \<noteq> []" "length n \<le> 31"
  using assms by (auto simp: is_valid_nickname_def list_ex_iff split: if_splits)

lemma hex_no_delim: "is_hex s n \<Longrightarrow> CHR ''|'' \<notin> set s"
  by (auto simp: is_hex_def list_all_iff ctype_defs byte_def)

lemma room_name_char:
  "is_valid_room_name n \<Longrightarrow> c \<in> set n \<Longrightarrow> isalnum c \<or> c = CHR ''-'' \<or> c = CHR ''_''"
  by (auto simp: is_valid_room_name_def list_all_iff split: if_splits)

lemma valid_room_name_no_delim:
  assumes "is_valid_room_name n"
  shows "CHR ''|'' \<notin> set n" "CHR '','' \<notin> set n" "CHR '';'' \<notin> set n" "n \<noteq> []"
    "length n \<le> MAX_ROOM_NAME_LENGTH"
proof -
  have "\<not> isalnum CHR ''|''" "\<not> isalnum CHR '',''" "\<not> isalnum CHR '';''"
    by (simp_all add: ctype_defs byte_def)
  then show "CHR ''|'' \<notin> set n" "CHR '','' \<notin> set n" "CHR '';'' \<notin> set n"
    using room_name_char [OF assms] by auto
  show "n \<noteq> []" "length n \<le> MAX_ROOM_NAME_LENGTH"
    using assms by (auto simp: is_valid_room_name_def split: if_splits)
qed

lemma word_to_string_no_delim [simp]:
  "CHR ''|'' \<notin> set (word_to_string w)" "CHR '','' \<notin> set (word_to_string w)"
  "CHR '';'' \<notin> set (word_to_string w)" "word_to_string w \<noteq> []"
  by (auto simp: word_to_string_def isdigit_def byte_def dest: nat_to_string_digits)

lemma parse_unsigned_word [simp]: "parse_unsigned (word_to_string w) = Some w"
  using unat_less [of w] by (simp add: parse_unsigned_def word_to_string_def)

lemma list_ex_plain: "plain_text s \<longleftrightarrow> \<not> list_ex iscntrl s"
  by (simp add: plain_text_def list_ex_iff list_all_iff)

lemma rest_after_delimiter_Cons [simp]:
  "c \<noteq> CHR ''|'' \<Longrightarrow> 0 < n \<Longrightarrow> rest_after_delimiter (c # s) n = rest_after_delimiter s n"
  by (cases n; cases "find_char CHR ''|'' s") simp_all

lemma rest_after_delimiter_field [simp]:
  "CHR ''|'' \<notin> set a \<Longrightarrow> 0 < n \<Longrightarrow>
     rest_after_delimiter (a @ CHR ''|'' # b) n = rest_after_delimiter b (n - 1)"
  by (cases n) simp_all

lemma rest_after_delimiter_delim [simp]:
  "0 < n \<Longrightarrow> rest_after_delimiter (CHR ''|'' # b) n = rest_after_delimiter b (n - 1)"
  using rest_after_delimiter_field [of "[]"] by simp

declare rest_after_delimiter.simps(2) [simp del]

lemma parse_hello_VERSION [simp]:
  "parse_hello mk [command, word_to_string VERSION] = Success (mk VERSION)"
  using unat_less [of VERSION] by (simp add: parse_hello_def word_to_string_def Let_def)

lemma rest_after_second_eq:
  assumes "CHR ''|'' \<notin> set a" "CHR ''|'' \<notin> set b"
  shows "rest_after_second (a @ CHR ''|'' # b @ CHR ''|'' # c) = c"
  using assms by (simp add: rest_after_second_def find_from_def)

section \<open>Client messages\<close>

lemma parse_serialize_client: "wf_client m \<Longrightarrow> parse_client_message (serialize_client m) = Success m"
proof (cases m)
  case (Whisper t b)
  assume "wf_client m"
  with Whisper rest_after_second_eq [of "''WHISPER''" t b] show ?thesis
    by (simp add: parse_client_message_def split_fields_def valid_nickname_no_delim)
qed (auto simp: parse_client_message_def split_fields_def valid_nickname_no_delim hex_no_delim
      valid_room_name_no_delim list_ex_plain rest_after_command_def split: option.splits)


lemma parse_hello_sound: "parse_hello mk fs = Success m \<Longrightarrow> m = mk VERSION"
  by (auto simp: parse_hello_def Let_def split: if_splits sum.splits)

lemma parse_client_sound: "parse_client_message p = Success m \<Longrightarrow> wf_client m"
  by (auto simp: parse_client_message_def Let_def list_ex_plain split: if_splits dest!: parse_hello_sound)

section \<open>Server messages\<close>

lemma is_valid_nickname_Nil [simp]: "\<not> is_valid_nickname []"
  by (simp add: is_valid_nickname_def)

lemma parse_nicknames_Nil [simp]: "parse_nicknames [] = Some []"
  by (simp add: parse_nicknames.simps)

lemma parse_nicknames_join:
  "list_all is_valid_nickname ns \<Longrightarrow> parse_nicknames (join_with CHR '','' ns) = Some ns"
proof (induction "CHR '',''" ns rule: join_with.induct)
  case (3 x y ys)
  then show ?case
    by (subst parse_nicknames.simps) (simp add: valid_nickname_no_delim)
qed (auto simp: parse_nicknames.simps valid_nickname_no_delim)

lemma parse_nicknames_sound: "parse_nicknames s = Some ns \<Longrightarrow> list_all is_valid_nickname ns"
proof (induction s arbitrary: ns rule: parse_nicknames.induct)
  case (1 s)
  then show ?case
    by (auto simp: parse_nicknames.simps [of s] split: if_splits option.splits)
qed

lemma join_nicknames_no_bar:
  "list_all is_valid_nickname ns \<Longrightarrow> CHR ''|'' \<notin> set (join_with CHR '','' ns)"
  by (auto simp: list_all_iff valid_nickname_no_delim dest!: set_join_with)

lemma join_nicknames_last:
  assumes "list_all is_valid_nickname ns" "join_with CHR '','' ns \<noteq> []"
  shows "last (join_with CHR '','' ns) \<noteq> CHR '',''"
proof -
  have "ns \<noteq> []" using assms(2) by auto
  then have "is_valid_nickname (last ns)" using assms(1) by (simp add: list_all_iff)
  then have "last ns \<noteq> []" "CHR '','' \<notin> set (last ns)" by (simp_all add: valid_nickname_no_delim)
  moreover from this have "last (last ns) \<noteq> CHR '',''" by (metis last_in_set)
  ultimately show ?thesis using last_join_with [OF \<open>ns \<noteq> []\<close>, of "CHR '',''"] by auto
qed

lemma parse_room_entry_serialize:
  assumes "wf_room_summary r"
  shows "parse_room_entry (serialize_room r) = Inr r"
  using assms by (simp add: parse_room_entry_def serialize_room_def wf_room_summary_def find_from_def
      valid_room_name_no_delim)

lemma serialize_room_no_delim:
  assumes "wf_room_summary r"
  shows "CHR ''|'' \<notin> set (serialize_room r)" "CHR '';'' \<notin> set (serialize_room r)" "serialize_room r \<noteq> []"
  using assms by (auto simp: serialize_room_def wf_room_summary_def valid_room_name_no_delim)

lemma parse_room_entries_join:
  "list_all wf_room_summary rs \<Longrightarrow> length acc + length rs \<le> MAX_ROOMS \<Longrightarrow>
     parse_room_entries acc (join_with CHR '';'' (map serialize_room rs)) = Inr (acc @ rs)"
proof (induction rs arbitrary: acc)
  case Nil
  then show ?case by (simp add: parse_room_entries.simps)
next
  case (Cons r rs)
  then have r: "wf_room_summary r" and more: "list_all wf_room_summary rs" by simp_all
  note step = parse_room_entry_serialize [OF r] serialize_room_no_delim [OF r]
  show ?case
  proof (cases rs)
    case Nil
    with Cons.prems step show ?thesis by (subst parse_room_entries.simps) simp
  next
    case (Cons r' rs')
    with Cons.IH [OF more, of "acc @ [r]"] Cons.prems step show ?thesis
      by (subst parse_room_entries.simps) simp
  qed
qed


lemma parse_room_entry_sound: "parse_room_entry e = Inr r \<Longrightarrow> wf_room_summary r"
  by (auto simp: parse_room_entry_def wf_room_summary_def Let_def split: option.splits if_splits)

lemma parse_room_entries_sound:
  "parse_room_entries acc s = Inr rs \<Longrightarrow> list_all wf_room_summary acc \<Longrightarrow> length acc \<le> MAX_ROOMS \<Longrightarrow>
     list_all wf_room_summary rs \<and> length rs \<le> MAX_ROOMS"
proof (induction acc s arbitrary: rs rule: parse_room_entries.induct)
  case (1 acc s)
  show ?case
  proof (cases "s = []")
    case True
    with "1.prems" show ?thesis by (simp add: parse_room_entries.simps)
  next
    case False
    with "1.prems"(1) obtain room where room: "parse_room_entry
        (case find_char CHR '';'' s of None \<Rightarrow> s | Some i \<Rightarrow> take i s) = Inr room"
      and fits: "\<not> length (acc @ [room]) > MAX_ROOMS"
      by (auto simp: parse_room_entries.simps [of acc s] Let_def split: sum.splits if_splits)
    have acc: "list_all wf_room_summary (acc @ [room])"
      using "1.prems"(2) parse_room_entry_sound [OF room] by simp
    show ?thesis
    proof (cases "find_char CHR '';'' s")
      case None
      with False "1.prems"(1) room fits acc show ?thesis
        by (simp add: parse_room_entries.simps [of acc s]) auto
    next
      case (Some i)
      with False "1.prems"(1) room fits
      have "parse_room_entries (acc @ [room]) (drop (Suc i) s) = Inr rs"
        by (simp add: parse_room_entries.simps [of acc s])
      with "1.IH" [OF False refl refl room fits Some] acc fits show ?thesis by simp
    qed
  qed
qed

lemmas server_parsers = parse_users_def parse_rooms_def parse_room_joined_def
  parse_room_topic_def parse_room_text_def parse_kick_def

lemma parse_serialize_kick:
  assumes "wf_server (Kick n r)"
  shows "parse_server_message (serialize_server (Kick n r)) = Success (Kick n r)"
  using assms rest_after_second_eq [of "''KICK''" n r]
  by (auto simp: parse_server_message_def split_fields_def parse_kick_def valid_nickname_no_delim)

lemma serialize_rooms_no_bar:
  "list_all wf_room_summary rs \<Longrightarrow> CHR ''|'' \<notin> set (join_with CHR '';'' (map serialize_room rs))"
  by (auto simp: list_all_iff serialize_room_no_delim dest!: set_join_with)

lemma parse_serialize_server: "wf_server m \<Longrightarrow> parse_server_message (serialize_server m) = Success m"
proof (cases m)
  case (Kick n r)
  then show "wf_server m \<Longrightarrow> ?thesis" using parse_serialize_kick by simp
qed (auto simp: parse_server_message_def split_fields_def server_parsers valid_nickname_no_delim hex_no_delim
      valid_room_name_no_delim rest_after_command_def join_nicknames_no_bar join_nicknames_last
      parse_nicknames_join serialize_rooms_no_bar parse_room_entries_join)

lemma parse_server_sound: "parse_server_message p = Success m \<Longrightarrow> wf_server m"
  by (auto simp: parse_server_message_def server_parsers Let_def
      split: if_splits option.splits sum.splits
      dest!: parse_hello_sound parse_nicknames_sound parse_room_entries_sound)


section \<open>Well-formed messages in frames\<close>

lemma client_payload_length: "wf_client m \<Longrightarrow> length (serialize_client m) \<le> 1100"
  by (cases m) (auto simp: VERSION_def word_to_string_def nat_to_string.simps is_hex_def is_valid_text_def
      is_valid_room_topic_def protocol_limits
      dest: valid_nickname_no_delim(4) valid_room_name_no_delim(5) split: if_splits option.splits)

lemma serialize_client_not_Nil [simp]: "serialize_client m \<noteq> []"
  by (cases m) (auto split: option.splits)

lemma serialize_server_not_Nil [simp]: "serialize_server m \<noteq> []"
  by (cases m) auto

lemma client_payload_fits: "wf_client m \<Longrightarrow> payload_fits (serialize_client m)"
  using client_payload_length [of m] by (simp add: payload_fits_def max_payload_length_eq)

lemma encode_client_frame_wf:
  "wf_client m \<Longrightarrow> encode_client_frame m = encode_frame (serialize_client m)"
  by (simp add: encode_client_frame_def parse_serialize_client)

lemma encode_server_frame_wf:
  "wf_server m \<Longrightarrow> encode_server_frame m = encode_frame (serialize_server m)"
  by (simp add: encode_server_frame_def parse_serialize_server)

lemma decode_client_frame_encoded:
  assumes "wf_client m" "encode_client_frame m = Success w"
  shows "decode_client_frame w = Success m"
  using assms decode_frame_encoded
  by (simp add: encode_client_frame_wf encode_frame_Success decode_client_frame_def decode_message_frame_def parse_serialize_client)

lemma decode_server_frame_encoded:
  assumes "wf_server m" "encode_server_frame m = Success w"
  shows "decode_server_frame w = Success m"
  using assms decode_frame_encoded
  by (simp add: encode_server_frame_wf encode_frame_Success decode_server_frame_def decode_message_frame_def parse_serialize_server)

interpretation client_frames: codec "value_of \<circ> encode_client_frame" "value_of \<circ> decode_client_frame" wf_client
  by unfold_locales
    (auto simp: encode_client_frame_wf encode_frame_fits client_payload_fits decode_client_frame_encoded)

definition deliverable :: "server_message \<Rightarrow> bool" where
  "deliverable m \<longleftrightarrow> wf_server m \<and> length (serialize_server m) \<le> max_payload_length"

interpretation server_frames: codec "value_of \<circ> encode_server_frame" "value_of \<circ> decode_server_frame" deliverable
  by unfold_locales
    (auto simp: deliverable_def encode_server_frame_wf encode_frame_fits payload_fits_def decode_server_frame_encoded)

lemma length_word_to_string: "length (word_to_string (w :: u64)) \<le> 20"
proof -
  have "unat w < 10 ^ 20" using unat_less [of w] by simp
  then show ?thesis unfolding word_to_string_def by (rule length_nat_to_string [rotated]) simp
qed

lemma room_list_deliverable:
  assumes "length rs \<le> MAX_ROOMS" "list_all wf_room_summary rs"
  shows "deliverable (RoomList rs)"
proof -
  have entry: "length (serialize_room r) \<le> 74" if "r \<in> set rs" for r
    using that assms(2) length_word_to_string [of "summary_id r"] length_word_to_string [of "summary_user_count r"]
      valid_room_name_no_delim(5) [of "summary_name r"]
    by (fastforce simp: list_all_iff wf_room_summary_def serialize_room_def protocol_limits)
  have "length (join_with CHR '';'' (map serialize_room rs)) \<le> length rs * 75"
    using length_join_with_le [of "map serialize_room rs" 74 "CHR '';''"] entry by auto
  with assms show ?thesis by (simp add: deliverable_def max_payload_length_eq protocol_limits)
qed

section \<open>Properties\<close>

text \<open>
  C4: Every well-formed client message can be sent, and what the server decodes from the
  frame is the message that was sent.
\<close>

theorem client_message_roundtrip:
  assumes "wf_client m"
  shows "\<exists>w. encode_client_frame m = Success w \<and> decode_client_frame w = Success m"
  using client_frames.encodes [OF assms] client_frames.roundtrip [OF assms] by auto

theorem client_message_roundtrip_witness:
  "\<exists>w. encode_client_frame (Whisper ''bob'' ''see | you'') = Success w \<and>
     decode_client_frame w = Success (Whisper ''bob'' ''see | you'')"
  by (rule client_message_roundtrip) code_simp

text \<open>
  Every well-formed server message whose payload is at most 3069 bytes long can be
  delivered, and the client decodes the message that was sent.
\<close>

theorem server_message_roundtrip:
  assumes "wf_server m" "length (serialize_server m) \<le> 3069"
  shows "\<exists>w. encode_server_frame m = Success w \<and> decode_server_frame w = Success m"
  using assms server_frames.encodes [of m] server_frames.roundtrip [of m]
  by (auto simp: deliverable_def max_payload_length_eq)

theorem server_message_roundtrip_witness:
  "\<exists>w. encode_server_frame (UserList 7 [''ann'', ''bob'']) = Success w \<and>
     decode_server_frame w = Success (UserList 7 [''ann'', ''bob''])"
  by (rule server_message_roundtrip) code_simp+

text \<open>
  C39: The server's parser is sound: whatever payload it accepts, the message it returns is
  well-formed, so every field a handler sees has passed its validator; and printing that
  message gives a payload the parser reads back as the same message.
\<close>

theorem parse_client_message_sound:
  assumes "parse_client_message p = Success m"
  shows "wf_client m \<and> parse_client_message (serialize_client m) = Success m"
  using parse_client_sound [OF assms] parse_serialize_client by simp

theorem parse_client_message_sound_witness:
  "wf_client (KickRequest ''bob'' []) \<and>
     parse_client_message (serialize_client (KickRequest ''bob'' [])) = Success (KickRequest ''bob'' [])"
  by (rule parse_client_message_sound [of "''KICK|bob''"]) code_simp

text \<open>
  The client's parser is sound in the same way: the identifiers it accepts are not zero,
  names, nicknames and texts are valid, and a room list has at most \<open>MAX_ROOMS\<close> entries.
\<close>

theorem parse_server_message_sound:
  assumes "parse_server_message p = Success m"
  shows "wf_server m \<and> parse_server_message (serialize_server m) = Success m"
  using parse_server_sound [OF assms] parse_serialize_server by simp

theorem parse_server_message_sound_witness:
  "wf_server (RoomText 4 ''hi|all'') \<and>
     parse_server_message (serialize_server (RoomText 4 ''hi|all'')) = Success (RoomText 4 ''hi|all'')"
  by (rule parse_server_message_sound [of "''ROOM_TEXT|0004|hi|all''"])
    (simp add: parse_server_message_def split_fields_def parse_room_text_def parse_unsigned_def
      from_chars_def ctype_defs byte_def dec_value_def is_valid_text_def protocol_limits)

text \<open>
  A list of at most \<open>MAX_ROOMS\<close> rooms with valid names and non-zero identifiers always
  fits in one frame, whatever its identifiers and user counts, and arrives unchanged.
\<close>

theorem room_list_fits:
  assumes "length rs \<le> 32" "\<forall>r\<in>set rs. summary_id r \<noteq> 0 \<and> is_valid_room_name (summary_name r)"
  shows "\<exists>w. encode_server_frame (RoomList rs) = Success w \<and> decode_server_frame w = Success (RoomList rs)"
proof -
  have "deliverable (RoomList rs)"
    using assms by (intro room_list_deliverable) (auto simp: protocol_limits list_all_iff wf_room_summary_def)
  then show ?thesis using server_frames.encodes server_frames.roundtrip by fastforce
qed

theorem room_list_fits_witness:
  "\<exists>w. encode_server_frame (RoomList [\<lparr>summary_id = 1, summary_name = ''lobby'', summary_user_count = 3\<rparr>]) = Success w
     \<and> decode_server_frame w = Success (RoomList [\<lparr>summary_id = 1, summary_name = ''lobby'', summary_user_count = 3\<rparr>])"
  by (rule room_list_fits) (simp_all add: is_valid_room_name_def protocol_limits ctype_defs byte_def)

text \<open>
  C40: The client's encoder checks that the printed message parses, not that it parses to the
  same message: a whisper whose target contains a vertical bar is accepted and arrives as a
  whisper to the part before the bar, with the rest in front of its body.
\<close>

theorem whisper_field_injection:
  assumes "is_valid_nickname target" "is_valid_text (extra @ CHR ''|'' # body) MAX_CHAT_LENGTH"
  shows "\<exists>w. encode_client_frame (Whisper (target @ CHR ''|'' # extra) body) = Success w \<and>
     decode_client_frame w = Success (Whisper target (extra @ CHR ''|'' # body))"
proof -
  let ?m = "Whisper target (extra @ CHR ''|'' # body)"
  have wf: "wf_client ?m" using assms by simp
  have "encode_client_frame (Whisper (target @ CHR ''|'' # extra) body) = encode_client_frame ?m"
    by (simp add: encode_client_frame_def)
  with client_frames.encodes [OF wf] client_frames.roundtrip [OF wf] show ?thesis by auto
qed

theorem whisper_field_injection_witness:
  "\<exists>w. encode_client_frame (Whisper (''bob'' @ CHR ''|'' # ''hi'') ''there'') = Success w \<and>
     decode_client_frame w = Success (Whisper ''bob'' (''hi'' @ CHR ''|'' # ''there''))"
  by (rule whisper_field_injection) code_simp+

end
