(* ===== verification/App_State.thy ===== *)
theory App_State
  imports Protocol_Messages
begin

text \<open>
  \<open>app/app_state.cpp\<close>: the state the user interface draws, kept behind one mutex. Every
  function locks, updates and unlocks, so each is one step of the record \<open>app_state\<close>, whose
  fields are the file's globals.

  Shown: however the functions are called, at most \<open>MAX_MESSAGES\<close> messages are kept; they are
  the last ones pushed since the list was last cleared; and the sequence number, which the
  scrollback relies on, counts every push.
\<close>

section \<open>State and operations\<close>

definition MAX_MESSAGES :: nat where
  "MAX_MESSAGES = 200"

record app_state =
  g_messages :: "string list"
  g_message_sequence :: u64
  g_users :: "string list"
  g_rooms :: "room_summary list"
  g_active_room_id :: room_id
  g_active_room_name :: string
  g_active_room_topic :: string
  g_kicked :: bool

definition initial_app_state :: app_state where
  "initial_app_state = \<lparr>g_messages = [], g_message_sequence = 0, g_users = [], g_rooms = [],
     g_active_room_id = 0, g_active_room_name = [], g_active_room_topic = [], g_kicked = False\<rparr>"

record chat_state_snapshot =
  snap_messages :: "string list"
  snap_users :: "string list"
  snap_rooms :: "room_summary list"
  snap_active_room_id :: room_id
  snap_active_room_name :: string
  snap_active_room_topic :: string
  snap_message_sequence :: u64

definition chat_state_snapshot :: "app_state \<Rightarrow> chat_state_snapshot" where
  "chat_state_snapshot st = \<lparr>snap_messages = g_messages st, snap_users = g_users st,
     snap_rooms = g_rooms st, snap_active_room_id = g_active_room_id st,
     snap_active_room_name = g_active_room_name st,
     snap_active_room_topic = g_active_room_topic st,
     snap_message_sequence = g_message_sequence st\<rparr>"

definition clear_messages :: "app_state \<Rightarrow> app_state" where
  "clear_messages st = st\<lparr>g_messages := []\<rparr>"

definition update_room_users :: "room_id \<Rightarrow> string list \<Rightarrow> app_state \<Rightarrow> app_state" where
  "update_room_users rid users st =
     (if rid = g_active_room_id st then st\<lparr>g_users := users\<rparr> else st)"

definition mark_kicked :: "app_state \<Rightarrow> app_state" where
  "mark_kicked st = st\<lparr>g_kicked := True\<rparr>"

definition was_kicked :: "app_state \<Rightarrow> bool" where
  "was_kicked st = g_kicked st"

definition push_message :: "string \<Rightarrow> app_state \<Rightarrow> app_state" where
  "push_message msg st =
     (let messages = g_messages st @ [msg] in
      st\<lparr>g_message_sequence := g_message_sequence st + 1,
         g_messages := (if length messages > MAX_MESSAGES then tl messages else messages)\<rparr>)"

definition message_snapshot :: "app_state \<Rightarrow> string list" where
  "message_snapshot st = g_messages st"

definition user_snapshot :: "app_state \<Rightarrow> string list" where
  "user_snapshot st = g_users st"

definition reset_chat_state :: "app_state \<Rightarrow> app_state" where
  "reset_chat_state st = st\<lparr>g_messages := [], g_users := [], g_rooms := [],
     g_active_room_id := 0, g_active_room_name := [], g_active_room_topic := [],
     g_kicked := False\<rparr>"

definition activate_room :: "room_id \<Rightarrow> string \<Rightarrow> string \<Rightarrow> app_state \<Rightarrow> app_state" where
  "activate_room rid name topic st = st\<lparr>g_active_room_id := rid, g_active_room_name := name,
     g_active_room_topic := topic, g_messages := [], g_users := []\<rparr>"

definition update_room_topic :: "room_id \<Rightarrow> string \<Rightarrow> app_state \<Rightarrow> app_state" where
  "update_room_topic rid topic st =
     (if g_active_room_id st = rid then st\<lparr>g_active_room_topic := topic\<rparr> else st)"

definition update_room_list :: "room_summary list \<Rightarrow> app_state \<Rightarrow> app_state" where
  "update_room_list rooms st = st\<lparr>g_rooms := rooms\<rparr>"

definition app_active_room_id :: "app_state \<Rightarrow> room_id" where
  "app_active_room_id st = g_active_room_id st"

definition app_active_room_name :: "app_state \<Rightarrow> string" where
  "app_active_room_name st = g_active_room_name st"

definition app_active_room_topic :: "app_state \<Rightarrow> string" where
  "app_active_room_topic st = g_active_room_topic st"

lemmas app_ops = clear_messages_def update_room_users_def mark_kicked_def reset_chat_state_def
  activate_room_def update_room_topic_def update_room_list_def

section \<open>Every sequence of calls\<close>

text \<open>The calls that change the state, as events.\<close>

datatype app_event =
    ClearMessages
  | UpdateRoomUsers room_id "string list"
  | MarkKicked
  | PushMessage string
  | ResetChatState
  | ActivateRoom room_id string string
  | UpdateRoomTopic room_id string
  | UpdateRoomList "room_summary list"

fun app_step :: "app_event \<Rightarrow> app_state \<Rightarrow> app_state" where
  "app_step ClearMessages st = clear_messages st"
| "app_step (UpdateRoomUsers rid users) st = update_room_users rid users st"
| "app_step MarkKicked st = mark_kicked st"
| "app_step (PushMessage msg) st = push_message msg st"
| "app_step ResetChatState st = reset_chat_state st"
| "app_step (ActivateRoom rid name topic) st = activate_room rid name topic st"
| "app_step (UpdateRoomTopic rid topic) st = update_room_topic rid topic st"
| "app_step (UpdateRoomList rooms) st = update_room_list rooms st"

text \<open>The messages pushed since the last call that clears the list.\<close>

fun since_clear :: "app_event list \<Rightarrow> string list \<Rightarrow> string list" where
  "since_clear [] acc = acc"
| "since_clear (e # es) acc = since_clear es
     (case e of PushMessage m \<Rightarrow> acc @ [m] | ClearMessages \<Rightarrow> [] | ResetChatState \<Rightarrow> []
      | ActivateRoom _ _ _ \<Rightarrow> [] | _ \<Rightarrow> acc)"

definition pushes :: "app_event list \<Rightarrow> nat" where
  "pushes es = length (filter (\<lambda>e. case e of PushMessage _ \<Rightarrow> True | _ \<Rightarrow> False) es)"

lemma push_message_bounded:
  "g_messages (push_message m st) = push_bounded MAX_MESSAGES m (g_messages st)"
  "g_message_sequence (push_message m st) = g_message_sequence st + 1"
  by (simp_all add: push_message_def push_bounded_def Let_def)

interpretation app: invariant_machine app_step "\<lambda>st. length (g_messages st) \<le> MAX_MESSAGES" "\<lambda>e st. True"
proof
  fix s :: app_state and e
  assume "length (g_messages s) \<le> MAX_MESSAGES"
  then show "length (g_messages (app_step e s)) \<le> MAX_MESSAGES"
    by (cases e) (auto simp: app_ops push_message_bounded length_push_bounded)
qed

lemma app_step_messages:
  assumes "g_messages st = last_n MAX_MESSAGES acc"
  shows "g_messages (app_step e st) = last_n MAX_MESSAGES (since_clear [e] acc)"
proof (cases e)
  case (PushMessage m)
  with assms show ?thesis
    by (simp add: push_message_bounded push_bounded_last_n last_n_last_n_append)
qed (use assms in \<open>auto simp: app_ops last_n_def\<close>)

lemma since_clear_Cons: "since_clear (e # es) acc = since_clear es (since_clear [e] acc)"
  by simp

lemma fold_app_step:
  "g_messages st = last_n MAX_MESSAGES acc \<Longrightarrow>
     g_messages (fold app_step es st) = last_n MAX_MESSAGES (since_clear es acc)"
proof (induction es arbitrary: st acc)
  case (Cons e es)
  show ?case
    unfolding fold_Cons comp_apply since_clear_Cons [of e es]
    by (rule Cons.IH) (rule app_step_messages [OF Cons.prems])
qed simp

lemma app_step_sequence:
  "g_message_sequence (app_step e st) = g_message_sequence st + of_nat (pushes [e])"
  by (cases e) (simp_all add: pushes_def app_ops push_message_bounded)

lemma pushes_Cons: "pushes (e # es) = pushes [e] + pushes es"
  by (simp add: pushes_def)

lemma fold_app_sequence:
  "g_message_sequence (fold app_step es st) = g_message_sequence st + of_nat (pushes es)"
proof (induction es arbitrary: st)
  case (Cons e es)
  then show ?case by (simp add: pushes_Cons [of e es] app_step_sequence algebra_simps)
qed (simp add: pushes_def)

section \<open>Properties\<close>

text \<open>
  After any sequence of calls from the initial state, the message list is the last
  \<open>MAX_MESSAGES\<close> of the messages pushed since it was last cleared, in the order of the
  pushes, and the sequence number is the number of all pushes modulo \<open>2 ^ 64\<close>.
\<close>

theorem app_messages_retained:
  "g_messages (fold app_step es initial_app_state) = last_n MAX_MESSAGES (since_clear es []) \<and>
   g_message_sequence (fold app_step es initial_app_state) = of_nat (pushes es)"
  using fold_app_step [of initial_app_state "[]" es] fold_app_sequence [of es initial_app_state]
  by (simp add: initial_app_state_def last_n_def)

end
