(* ===== verification/Identity_Utils.thy ===== *)
theory Identity_Utils
  imports Protocol_Messages
begin

text \<open>
  The helpers of \<open>common/utils.cpp\<close>: hexadecimal text, nickname and message checks, field
  splitting, and the identity keys with their files and signatures. libsodium is not part
  of the repository: its functions are the fields of the record \<open>sodium\<close>, an argument of
  the definitions that call it, and what the code relies on are the hypotheses
  \<open>hex_laws\<close>, \<open>keypair_laws\<close> and \<open>signature_laws\<close>.

  Shown: the two nickname checks of the repository agree, a signature made with an identity
  is accepted for its public key, an identity that was written to its file is read back
  unchanged, and a nickname keeps the key it was first given.
\<close>

section \<open>Fields and checks\<close>

text \<open>
  \<open>split\<close>: repeated \<open>std::getline\<close>, which delivers no item once the stream is at its end,
  so there is no empty last field, unlike \<open>split_on\<close>. With the newline as delimiter it
  gives the lines of a file.
\<close>

function split :: "string \<Rightarrow> char \<Rightarrow> string list" where
  "split s delim =
     (if s = [] then []
      else case find_char delim s of
             None \<Rightarrow> [s]
           | Some i \<Rightarrow> take i s # split (drop (Suc i) s) delim)"
  by pat_completeness auto
termination
  by (relation "measure (\<lambda>(s, delim). length s)") (auto dest: find_char_less)

declare split.simps [simp del]

fun join_fields_loop :: "string list \<Rightarrow> nat \<Rightarrow> nat \<Rightarrow> char \<Rightarrow> string \<Rightarrow> string" where
  "join_fields_loop [] i start delim out = out"
| "join_fields_loop (f # fs) i start delim out =
     (if i < start then join_fields_loop fs (Suc i) start delim out
      else join_fields_loop fs (Suc i) start delim
             (out @ (if i > start then [delim] else []) @ f))"

definition join_fields :: "string list \<Rightarrow> nat \<Rightarrow> char \<Rightarrow> string" where
  "join_fields fs start delim = join_fields_loop fs 0 start delim []"

definition NICK_MAX_LEN :: nat where
  "NICK_MAX_LEN = 31"

definition HOST_MAX_LEN :: nat where
  "HOST_MAX_LEN = 63"

definition MAX_CHAT_MESSAGE_LEN :: nat where
  "MAX_CHAT_MESSAGE_LEN = MAX_CHAT_LENGTH"

definition is_hex_of_len :: "string \<Rightarrow> nat \<Rightarrow> bool" where
  "is_hex_of_len text bytes =
     (if length text \<noteq> bytes * 2 then False else list_all isxdigit text)"

fun nickname_chars_ok :: "string \<Rightarrow> bool" where
  "nickname_chars_ok [] = True"
| "nickname_chars_ok (ch # rest) =
     (if iscntrl ch \<or> isspace ch \<or> ch = CHR ''|'' \<or> ch = CHR '','' then False
      else nickname_chars_ok rest)"

definition utils_is_valid_nickname :: "string \<Rightarrow> bool" where
  "utils_is_valid_nickname nick =
     (if nick = [] \<or> length nick > NICK_MAX_LEN then False else nickname_chars_ok nick)"

fun message_chars_ok :: "string \<Rightarrow> bool" where
  "message_chars_ok [] = True"
| "message_chars_ok (ch # rest) =
     (if iscntrl ch \<and> ch \<noteq> CHR 0x09 then False else message_chars_ok rest)"

definition is_valid_chat_message :: "string \<Rightarrow> bool" where
  "is_valid_chat_message message =
     (if message = [] \<or> length message > MAX_CHAT_MESSAGE_LEN then False
      else message_chars_ok message)"

definition identity_fingerprint :: "string \<Rightarrow> string" where
  "identity_fingerprint public_key_hex =
     (if length public_key_hex \<le> 16 then public_key_hex else take 16 public_key_hex)"

section \<open>Keys and signatures\<close>

definition crypto_sign_PUBLICKEYBYTES :: nat where "crypto_sign_PUBLICKEYBYTES = 32"
definition crypto_sign_SECRETKEYBYTES :: nat where "crypto_sign_SECRETKEYBYTES = 64"
definition crypto_sign_BYTES :: nat where "crypto_sign_BYTES = 64"

lemmas sodium_sizes = crypto_sign_PUBLICKEYBYTES_def crypto_sign_SECRETKEYBYTES_def
  crypto_sign_BYTES_def

text \<open>
  \<open>sodium_hex2bin\<close> returns the bytes it decoded when its return code is 0; the code then
  compares their number with the size of the buffer. The random functions take the number
  of the call.
\<close>

record sodium =
  sodium_bin2hex :: "string \<Rightarrow> string"
  sodium_hex2bin :: "nat \<Rightarrow> string \<Rightarrow> string option"
  randombytes_buf :: "nat \<Rightarrow> nat \<Rightarrow> string"
  crypto_sign_keypair :: "nat \<Rightarrow> string \<times> string"
  crypto_sign_detached :: "string \<Rightarrow> string \<Rightarrow> string"
  crypto_sign_verify_detached :: "string \<Rightarrow> string \<Rightarrow> string \<Rightarrow> bool"

record client_identity =
  public_key :: string
  secret_key :: string
  public_key_hex :: string

definition bytes_to_hex :: "sodium \<Rightarrow> string \<Rightarrow> string" where
  "bytes_to_hex S data = sodium_bin2hex S data"

definition hex_to_bytes :: "sodium \<Rightarrow> string \<Rightarrow> nat \<Rightarrow> string option" where
  "hex_to_bytes S hex out_len =
     (case sodium_hex2bin S out_len hex of
        None \<Rightarrow> None
      | Some bytes \<Rightarrow> if length bytes = out_len then Some bytes else None)"

definition hex_from_text :: "sodium \<Rightarrow> string \<Rightarrow> string" where
  "hex_from_text S text = bytes_to_hex S text"

definition random_hex :: "sodium \<Rightarrow> nat \<Rightarrow> nat \<Rightarrow> string" where
  "random_hex S call bytes = bytes_to_hex S (randombytes_buf S call bytes)"

definition sign_identity_challenge :: "sodium \<Rightarrow> client_identity \<Rightarrow> string \<Rightarrow> string" where
  "sign_identity_challenge S ident challenge =
     bytes_to_hex S (crypto_sign_detached S challenge (secret_key ident))"

definition verify_identity_signature :: "sodium \<Rightarrow> string \<Rightarrow> string \<Rightarrow> string \<Rightarrow> bool" where
  "verify_identity_signature S key_hex challenge signature_hex =
     (if \<not> is_hex_of_len key_hex crypto_sign_PUBLICKEYBYTES \<or>
         \<not> is_hex_of_len signature_hex crypto_sign_BYTES then False
      else case hex_to_bytes S key_hex crypto_sign_PUBLICKEYBYTES of
             None \<Rightarrow> False
           | Some key \<Rightarrow>
               (case hex_to_bytes S signature_hex crypto_sign_BYTES of
                  None \<Rightarrow> False
                | Some signature \<Rightarrow> crypto_sign_verify_detached S signature challenge key))"

section \<open>Identity files\<close>

text \<open>
  The files the identity code touches: their contents, the paths whose directories can be
  created and that can be opened for writing, and how many bytes the device then takes
  (\<open>None\<close>: all of them).
\<close>

record filesystem =
  contents :: "string \<Rightarrow> string option"
  openable :: "string \<Rightarrow> bool"
  capacity :: "string \<Rightarrow> nat option"

definition posix_data_directory :: "(string \<Rightarrow> string option) \<Rightarrow> string" where
  "posix_data_directory getenv =
     (let set_var = (\<lambda>v. case getenv v of None \<Rightarrow> False | Some s \<Rightarrow> s \<noteq> []);
          append = (\<lambda>p s. if last p = CHR ''/'' then p @ s else p @ ''/'' @ s) in
      if set_var ''XDG_DATA_HOME'' then append (the (getenv ''XDG_DATA_HOME'')) ''chatbox''
      else if set_var ''HOME'' then append (the (getenv ''HOME'')) ''.local/share/chatbox''
      else ''.'')"

definition legacy_identity_file :: "sodium \<Rightarrow> string \<Rightarrow> string" where
  "legacy_identity_file S nick = ''chatbox_identity_'' @ hex_from_text S nick @ ''.key''"

definition identity_file_for_nickname :: "sodium \<Rightarrow> string \<Rightarrow> string \<Rightarrow> string" where
  "identity_file_for_nickname S data_directory nick =
     (if data_directory \<noteq> [] \<and> last data_directory = CHR ''/'' then data_directory
      else data_directory @ ''/'') @ legacy_identity_file S nick"

definition nth_line :: "string list \<Rightarrow> nat \<Rightarrow> string" where
  "nth_line ls n = (if n < length ls then ls ! n else [])"

definition load_identity_file :: "sodium \<Rightarrow> filesystem \<Rightarrow> string \<Rightarrow> client_identity option" where
  "load_identity_file S fs path =
     (case contents fs path of
        None \<Rightarrow> None
      | Some text \<Rightarrow>
          let ls = split text CHR 0x0A; public_hex = nth_line ls 0; secret_hex = nth_line ls 1 in
          if \<not> is_hex_of_len public_hex crypto_sign_PUBLICKEYBYTES \<or>
             \<not> is_hex_of_len secret_hex crypto_sign_SECRETKEYBYTES then None
          else case hex_to_bytes S public_hex crypto_sign_PUBLICKEYBYTES of
                 None \<Rightarrow> None
               | Some pk \<Rightarrow>
                   (case hex_to_bytes S secret_hex crypto_sign_SECRETKEYBYTES of
                      None \<Rightarrow> None
                    | Some sk \<Rightarrow>
                        Some \<lparr>public_key = pk, secret_key = sk, public_key_hex = public_hex\<rparr>))"

definition save_identity_file ::
  "sodium \<Rightarrow> filesystem \<Rightarrow> string \<Rightarrow> client_identity \<Rightarrow> bool \<times> filesystem" where
  "save_identity_file S fs path ident =
     (if \<not> openable fs path then (False, fs)
      else let text = public_key_hex ident @ [CHR 0x0A]
                 @ bytes_to_hex S (secret_key ident) @ [CHR 0x0A];
               room = (case capacity fs path of None \<Rightarrow> length text | Some n \<Rightarrow> n)
           in (length text \<le> room, fs\<lparr>contents := (contents fs)(path \<mapsto> take room text)\<rparr>))"

text \<open>The result: whether it succeeded, the identity, whether it was created, the files.\<close>

definition load_or_create_identity ::
  "sodium \<Rightarrow> nat \<Rightarrow> string \<Rightarrow> filesystem \<Rightarrow> string \<Rightarrow>
     bool \<times> client_identity \<times> bool \<times> filesystem" where
  "load_or_create_identity S call data_directory fs nick =
     (let path = identity_file_for_nickname S data_directory nick;
          legacy_path = legacy_identity_file S nick in
      case load_identity_file S fs path of
        Some ident \<Rightarrow> (True, ident, False, fs)
      | None \<Rightarrow>
          (case (if legacy_path \<noteq> path then load_identity_file S fs legacy_path else None) of
             Some ident \<Rightarrow>
               let (saved, fs') = save_identity_file S fs path ident in (saved, ident, False, fs')
           | None \<Rightarrow>
               let (pk, sk) = crypto_sign_keypair S call;
                   ident = \<lparr>public_key = pk, secret_key = sk, public_key_hex = bytes_to_hex S pk\<rparr>;
                   (saved, fs') = save_identity_file S fs path ident
               in (saved, ident, True, fs')))"


section \<open>Agreement of the checks\<close>

lemma nickname_chars_ok_iff:
  "nickname_chars_ok s \<longleftrightarrow> \<not> list_ex (\<lambda>ch. iscntrl ch \<or> isspace ch \<or> ch = CHR ''|'' \<or> ch = CHR '','') s"
  by (induction s) auto

lemma message_chars_ok_iff:
  "message_chars_ok s \<longleftrightarrow> \<not> list_ex (\<lambda>ch. iscntrl ch \<and> ch \<noteq> CHR 0x09) s"
  by (induction s) auto

lemma utils_is_valid_nickname_eq: "utils_is_valid_nickname n = is_valid_nickname n"
  by (simp add: utils_is_valid_nickname_def is_valid_nickname_def nickname_chars_ok_iff NICK_MAX_LEN_def)

lemma is_valid_chat_message_eq: "is_valid_chat_message m = is_valid_text m MAX_CHAT_LENGTH"
  by (simp add: is_valid_chat_message_def is_valid_text_def message_chars_ok_iff MAX_CHAT_MESSAGE_LEN_def)

lemma is_hex_of_len_eq: "is_hex_of_len s n = is_hex s (n * 2)"
  by (simp add: is_hex_of_len_def is_hex_def)

lemma fingerprint_hex: "is_hex key 64 \<Longrightarrow> is_hex (identity_fingerprint key) 16"
  by (auto simp: is_hex_def identity_fingerprint_def list_all_iff dest: in_set_takeD)

lemma split_append [simp]: "d \<notin> set a \<Longrightarrow> split (a @ d # b) d = a # split b d"
  by (subst split.simps) simp

lemma split_Nil [simp]: "split [] d = []"
  by (simp add: split.simps)

lemma split_eq_split_on:
  "split s d = (if last (split_on d s) = [] then butlast (split_on d s) else split_on d s)"
proof (induction s d rule: split.induct)
  case (1 s d)
  show ?case
  proof (cases "find_char d s")
    case None
    then show ?thesis by (simp add: split.simps [of s] split_on.simps [of d s])
  next
    case (Some i)
    moreover from this have "s \<noteq> []" by auto
    ultimately show ?thesis
      using 1 by (simp add: split.simps [of s] split_on.simps [of d s])
  qed
qed

lemma split_no_delim: "f \<in> set (split s d) \<Longrightarrow> d \<notin> set f"
  by (auto simp: split_eq_split_on dest: in_set_butlastD split_on_no_delim split: if_splits)

lemma split_lines:
  "(\<And>l. l \<in> set ls \<Longrightarrow> d \<notin> set l) \<Longrightarrow> split (concat (map (\<lambda>l. l @ [d]) ls)) d = ls"
  by (induction ls) auto

lemma join_fields_loop_rest:
  "start < i \<Longrightarrow> join_fields_loop fs i start d out = out @ concat (map (\<lambda>f. d # f) fs)"
  by (induction fs arbitrary: i out) auto

lemma join_with_concat: "join_with d (f # fs) = f @ concat (map (\<lambda>f. d # f) fs)"
  by (induction fs arbitrary: f) auto

lemma join_fields_from: "join_fields_loop fs i (i + k) d [] = join_with d (drop k fs)"
proof (induction fs arbitrary: i k)
  case (Cons f fs)
  then show ?case
    by (cases k) (auto simp: join_fields_loop_rest join_with_concat dest: meta_spec [of _ "Suc i"])
qed simp

lemma join_fields_drop: "join_fields fs start d = join_with d (drop start fs)"
  using join_fields_from [of fs 0 start d] by (simp add: join_fields_def)

lemma split_join_last:
  assumes "xs \<noteq> []" "\<And>x. x \<in> set xs \<Longrightarrow> d \<notin> set x" "last xs \<noteq> []"
  shows "split (join_with d xs) d = xs"
  using assms split_join [of xs d] by (simp add: split_eq_split_on)

section \<open>Identities\<close>

definition hex_laws :: "sodium \<Rightarrow> bool" where
  "hex_laws S \<longleftrightarrow> (\<forall>d. sodium_hex2bin S (length d) (sodium_bin2hex S d) = Some d \<and>
     length (sodium_bin2hex S d) = length d * 2 \<and> list_all isxdigit (sodium_bin2hex S d))"

definition keypair_laws :: "sodium \<Rightarrow> bool" where
  "keypair_laws S \<longleftrightarrow> (\<forall>call. length (fst (crypto_sign_keypair S call)) = crypto_sign_PUBLICKEYBYTES \<and>
     length (snd (crypto_sign_keypair S call)) = crypto_sign_SECRETKEYBYTES)"

definition signature_laws :: "sodium \<Rightarrow> bool" where
  "signature_laws S \<longleftrightarrow> (\<forall>call m. let (pk, sk) = crypto_sign_keypair S call;
      sig = crypto_sign_detached S m sk in
      length sig = crypto_sign_BYTES \<and> crypto_sign_verify_detached S sig m pk)"

text \<open>An identity whose text is valid hexadecimal for its public key, with a full secret key.\<close>

definition wf_identity :: "sodium \<Rightarrow> client_identity \<Rightarrow> bool" where
  "wf_identity S i \<longleftrightarrow> is_hex_of_len (public_key_hex i) crypto_sign_PUBLICKEYBYTES \<and>
     hex_to_bytes S (public_key_hex i) crypto_sign_PUBLICKEYBYTES = Some (public_key i) \<and>
     length (secret_key i) = crypto_sign_SECRETKEYBYTES"

lemma newline_not_xdigit [simp]: "\<not> isxdigit CHR 0x0A"
  by (simp add: isxdigit_def isdigit_def byte_def)

lemma hex_no_newline: "is_hex_of_len s n \<Longrightarrow> CHR 0x0A \<notin> set s"
  by (auto simp: is_hex_of_len_def list_all_iff split: if_splits)

lemma hex_lawsD:
  assumes "hex_laws S"
  shows "hex_to_bytes S (bytes_to_hex S d) (length d) = Some d"
    and "is_hex_of_len (bytes_to_hex S d) (length d)"
  using assms by (auto simp: hex_laws_def hex_to_bytes_def bytes_to_hex_def is_hex_of_len_def)

lemma hex_to_bytes_length: "hex_to_bytes S h n = Some d \<Longrightarrow> length d = n"
  by (auto simp: hex_to_bytes_def split: option.splits if_splits)

lemma nth_line_simps [simp]: "nth_line (l # ls) 0 = l" "nth_line (l # ls) (Suc n) = nth_line ls n"
  by (auto simp: nth_line_def)

lemma load_saved_identity:
  assumes "hex_laws S" "wf_identity S i" "save_identity_file S fs path i = (True, fs')"
  shows "load_identity_file S fs' path = Some i"
proof -
  let ?sk = "bytes_to_hex S (secret_key i)"
  note sk = hex_lawsD [OF assms(1), of "secret_key i"]
  have stored: "contents fs' path = Some (public_key_hex i @ CHR 0x0A # ?sk @ [CHR 0x0A])"
    using assms(3) by (auto simp: save_identity_file_def Let_def split: if_splits)
  have "split (public_key_hex i @ CHR 0x0A # ?sk @ [CHR 0x0A]) CHR 0x0A = [public_key_hex i, ?sk]"
  proof -
    have "CHR 0x0A \<notin> set (public_key_hex i)" "CHR 0x0A \<notin> set ?sk"
      using assms(2) sk(2) hex_no_newline unfolding wf_identity_def by blast+
    then show ?thesis by (simp add: split_append [where b = "[]"])
  qed
  with stored assms(2) sk show ?thesis
    by (simp add: load_identity_file_def wf_identity_def Let_def)
qed

lemma loaded_identity_wf: "load_identity_file S fs path = Some i \<Longrightarrow> wf_identity S i"
  by (auto simp: load_identity_file_def wf_identity_def Let_def hex_to_bytes_length
      split: option.splits if_splits)

lemma keypair_identity_wf:
  assumes "hex_laws S" "keypair_laws S" "crypto_sign_keypair S call = (pk, sk)"
  shows "wf_identity S \<lparr>public_key = pk, secret_key = sk, public_key_hex = bytes_to_hex S pk\<rparr>"
  using assms(2,3) hex_lawsD [OF assms(1), of pk]
  by (auto simp: keypair_laws_def wf_identity_def dest: spec [of _ call])

section \<open>Properties\<close>

text \<open>
  The checks of \<open>common/utils.cpp\<close> accept exactly the texts the protocol's own checks
  accept: nicknames, chat messages and hexadecimal keys pass one if and only if they pass
  the other, so a session never refuses a field its parser let through.
\<close>

theorem validators_agree:
  "utils_is_valid_nickname n = is_valid_nickname n \<and>
   is_valid_chat_message m = is_valid_text m MAX_CHAT_LENGTH \<and>
   is_hex_of_len k crypto_sign_PUBLICKEYBYTES = is_hex k 64 \<and>
   is_hex_of_len k crypto_sign_BYTES = is_hex k 128"
  by (simp add: utils_is_valid_nickname_eq is_valid_chat_message_eq is_hex_of_len_eq sodium_sizes)

text \<open>
  Whatever identity \<open>load_or_create_identity\<close> returns with success, calling it again for
  the same nickname on the files it left returns the same identity, reports that it was not
  created, and writes nothing: a nickname keeps its key, also when the key came from the
  former working-directory file. Hypotheses on libsodium: decoding inverts encoding, and
  generated keys have their documented sizes.
\<close>

theorem identity_persists:
  assumes "hex_laws S" "keypair_laws S"
    and "load_or_create_identity S call dir fs nick = (True, ident, created, fs')"
  shows "load_or_create_identity S call' dir fs' nick = (True, ident, False, fs')"
proof -
  let ?path = "identity_file_for_nickname S dir nick"
  have "load_identity_file S fs' ?path = Some ident"
  proof (cases "load_identity_file S fs ?path")
    case (Some i)
    with assms(3) show ?thesis by (simp add: load_or_create_identity_def)
  next
    case None
    with assms(3) have saved: "save_identity_file S fs ?path ident = (True, fs')" "wf_identity S ident"
      by (auto simp: load_or_create_identity_def Let_def split: option.splits prod.splits if_splits
          intro: loaded_identity_wf keypair_identity_wf [OF assms(1,2)])
    then show ?thesis using load_saved_identity [OF assms(1)] by blast
  qed
  then show ?thesis by (simp add: load_or_create_identity_def)
qed

text \<open>
  A concrete stand-in for libsodium that meets the hypotheses: two hexadecimal digits per
  byte, one key pair and one signature.
\<close>

definition hex_digit :: "nat \<Rightarrow> char" where
  "hex_digit d = char_of (if d < 10 then 48 + d else 87 + d)"

definition hex_digit_value :: "char \<Rightarrow> nat" where
  "hex_digit_value c = (if isdigit c then byte c - 48 else byte c - 87)"

fun hex_of_bytes :: "string \<Rightarrow> string" where
  "hex_of_bytes [] = []"
| "hex_of_bytes (c # cs) = hex_digit (byte c div 16) # hex_digit (byte c mod 16) # hex_of_bytes cs"

fun bytes_of_hex :: "string \<Rightarrow> string" where
  "bytes_of_hex (a # b # r) = char_of (hex_digit_value a * 16 + hex_digit_value b) # bytes_of_hex r"
| "bytes_of_hex _ = []"

definition plain_sodium :: sodium where
  "plain_sodium = \<lparr>sodium_bin2hex = hex_of_bytes, sodium_hex2bin = (\<lambda>n h. Some (bytes_of_hex h)),
     randombytes_buf = (\<lambda>call n. replicate n CHR ''r''),
     crypto_sign_keypair = (\<lambda>call. (replicate 32 CHR ''p'', replicate 64 CHR ''s'')),
     crypto_sign_detached = (\<lambda>m sk. sk),
     crypto_sign_verify_detached = (\<lambda>sig m pk. pk = replicate 32 CHR ''p'' \<and> sig = replicate 64 CHR ''s'')\<rparr>"

lemma hex_digit_value_digit: "d < 16 \<Longrightarrow> hex_digit_value (hex_digit d) = d"
  by (simp add: hex_digit_value_def hex_digit_def isdigit_def)

lemma isxdigit_hex_digit: "d < 16 \<Longrightarrow> isxdigit (hex_digit d)"
  by (simp add: hex_digit_def isxdigit_def isdigit_def)

lemma byte_halves: "byte c div 16 < 16" "byte c mod 16 < 16" "byte c div 16 * 16 + byte c mod 16 = byte c"
  using byte_less [of c] by (simp_all add: less_mult_imp_div_less)

lemma bytes_of_hex_of_bytes: "bytes_of_hex (hex_of_bytes d) = d"
proof (induction d)
  case (Cons c d)
  then show ?case
    by (simp add: hex_digit_value_digit byte_halves(1,2))
qed simp

lemma hex_of_bytes_hex: "length (hex_of_bytes d) = length d * 2 \<and> list_all isxdigit (hex_of_bytes d)"
  by (induction d) (auto simp: isxdigit_hex_digit byte_halves)

lemma plain_sodium_laws: "hex_laws plain_sodium" "keypair_laws plain_sodium" "signature_laws plain_sodium"
  by (simp_all add: hex_laws_def keypair_laws_def signature_laws_def plain_sodium_def sodium_sizes
      bytes_of_hex_of_bytes hex_of_bytes_hex)

lemma create_fresh_identity:
  assumes "contents fs = (\<lambda>_. None)" "openable fs = (\<lambda>_. True)" "capacity fs = (\<lambda>_. None)"
  shows "\<exists>ident fs'. load_or_create_identity S call dir fs nick = (True, ident, True, fs')"
proof -
  have "load_identity_file S fs p = None" for p by (simp add: load_identity_file_def assms)
  moreover have "fst (save_identity_file S fs p i)" for p i by (simp add: save_identity_file_def assms Let_def)
  ultimately show ?thesis
    by (simp add: load_or_create_identity_def Let_def split_beta)
qed

theorem identity_persists_witness:
  "let fs = \<lparr>contents = \<lambda>_. None, openable = \<lambda>_. True, capacity = \<lambda>_. None\<rparr>;
       (ok, ident, created, fs') = load_or_create_identity plain_sodium 0 ''/home/ann'' fs ''ann''
   in ok \<and> created \<and> load_or_create_identity plain_sodium 7 ''/home/ann'' fs' ''ann'' = (True, ident, False, fs')"
proof -
  let ?fs = "\<lparr>contents = \<lambda>_. None, openable = \<lambda>_. True, capacity = \<lambda>_. None\<rparr>"
  obtain ident fs' where first:
    "load_or_create_identity plain_sodium 0 ''/home/ann'' ?fs ''ann'' = (True, ident, True, fs')"
    using create_fresh_identity [of ?fs plain_sodium 0 "''/home/ann''" "''ann''"] by auto
  then show ?thesis using identity_persists [OF plain_sodium_laws(1,2) first] by simp
qed

lemma verify_signed:
  assumes "hex_laws S" "keypair_laws S" "signature_laws S" "crypto_sign_keypair S call = (pk, sk)"
  shows "verify_identity_signature S (bytes_to_hex S pk) challenge
     (bytes_to_hex S (crypto_sign_detached S challenge sk))"
proof -
  let ?sig = "crypto_sign_detached S challenge sk"
  have sig: "length ?sig = crypto_sign_BYTES" "crypto_sign_verify_detached S ?sig challenge pk"
    using assms(3,4) by (auto simp: signature_laws_def Let_def dest: spec2 [of _ call challenge])
  have pk: "length pk = crypto_sign_PUBLICKEYBYTES"
    using assms(2,4) by (auto simp: keypair_laws_def dest: spec [of _ call])
  show ?thesis
    using sig pk hex_lawsD [OF assms(1), of ?sig] hex_lawsD [OF assms(1), of pk]
    by (simp add: verify_identity_signature_def)
qed

text \<open>
  The signature a client makes of a challenge with a generated identity is accepted by
  the server's check for that identity's public key. Hypotheses on libsodium: hexadecimal
  decoding inverts encoding, keys and signatures have their documented sizes, and a detached
  signature verifies under the public key of its pair.
\<close>

theorem signature_accepted:
  assumes "hex_laws S" "keypair_laws S" "signature_laws S"
    and "crypto_sign_keypair S call = (pk, sk)"
    and "ident = \<lparr>public_key = pk, secret_key = sk, public_key_hex = bytes_to_hex S pk\<rparr>"
  shows "verify_identity_signature S (public_key_hex ident) challenge (sign_identity_challenge S ident challenge)"
  using verify_signed [OF assms(1-4)] assms(5) by (simp add: sign_identity_challenge_def)

theorem signature_accepted_witness:
  "verify_identity_signature plain_sodium (bytes_to_hex plain_sodium (replicate 32 CHR ''p'')) ''c0ffee''
     (sign_identity_challenge plain_sodium \<lparr>public_key = replicate 32 CHR ''p'',
        secret_key = replicate 64 CHR ''s'',
        public_key_hex = bytes_to_hex plain_sodium (replicate 32 CHR ''p'')\<rparr> ''c0ffee'')"
  using signature_accepted [OF plain_sodium_laws, of 0 "replicate 32 CHR ''p''" "replicate 64 CHR ''s''" _ "''c0ffee''"]
  by (simp add: plain_sodium_def)

end
