(* ===== verification/Ordered_Containers.thy ===== *)
theory Ordered_Containers
  imports Chatbox_Prelude
begin

text \<open>
  What the code uses of \<open>std::set\<close> and \<open>std::map\<close>. Both iterate in key order, so a set is
  a strictly ascending list and a map an association list with strictly ascending keys.
  The two locales are the contracts the components rely on; they are interpreted on the
  operations here, which are the ones the model uses.
\<close>

section \<open>Sets\<close>

fun set_insert :: "'a::linorder \<Rightarrow> 'a list \<Rightarrow> 'a list" where
  "set_insert x [] = [x]"
| "set_insert x (y # ys) = (if x < y then x # y # ys else if x = y then y # ys else y # set_insert x ys)"

definition set_erase :: "'a \<Rightarrow> 'a list \<Rightarrow> 'a list" where
  "set_erase x xs = filter (\<lambda>y. y \<noteq> x) xs"

definition set_count :: "'a \<Rightarrow> 'a list \<Rightarrow> nat" where
  "set_count x xs = (if x \<in> set xs then 1 else 0)"

abbreviation ascending :: "'a::linorder list \<Rightarrow> bool" where
  "ascending \<equiv> sorted_wrt (<)"

lemma set_set_insert [simp]: "set (set_insert x xs) = insert x (set xs)"
  by (induction xs) auto

lemma set_set_erase [simp]: "set (set_erase x xs) = set xs - {x}"
  by (auto simp: set_erase_def)

lemma set_count_pos [simp]: "0 < set_count x xs \<longleftrightarrow> x \<in> set xs"
  by (simp add: set_count_def)

lemma ascending_set_insert [intro]: "ascending xs \<Longrightarrow> ascending (set_insert x xs)"
  by (induction xs) auto

lemma ascending_set_erase [intro]: "ascending xs \<Longrightarrow> ascending (set_erase x xs)"
  by (simp add: set_erase_def sorted_wrt_filter)

lemma ascending_distinct: "ascending (xs :: 'a::linorder list) \<Longrightarrow> distinct xs"
  by (induction xs) auto

locale set_container =
  fixes elems :: "'s \<Rightarrow> 'a set"
    and ins :: "'a \<Rightarrow> 's \<Rightarrow> 's"
    and del :: "'a \<Rightarrow> 's \<Rightarrow> 's"
    and ok :: "'s \<Rightarrow> bool"
  assumes elems_ins: "ok s \<Longrightarrow> elems (ins x s) = insert x (elems s)"
    and elems_del: "ok s \<Longrightarrow> elems (del x s) = elems s - {x}"
    and ok_ins: "ok s \<Longrightarrow> ok (ins x s)"
    and ok_del: "ok s \<Longrightarrow> ok (del x s)"
begin

lemma elems_fold_ins: "ok s \<Longrightarrow> ok (fold ins xs s) \<and> elems (fold ins xs s) = set xs \<union> elems s"
  by (induction xs arbitrary: s) (auto simp: elems_ins ok_ins)

lemma del_ins: "ok s \<Longrightarrow> x \<notin> elems s \<Longrightarrow> elems (del x (ins x s)) = elems s"
  by (simp add: elems_ins elems_del ok_ins)

end

interpretation std_set: set_container set set_insert set_erase "ascending :: 'a::linorder list \<Rightarrow> bool"
  by unfold_locales auto

section \<open>Maps\<close>

abbreviation map_find :: "('k \<times> 'v) list \<Rightarrow> 'k \<Rightarrow> 'v option" where
  "map_find \<equiv> map_of"

text \<open>\<open>m[k] = v\<close>\<close>

fun map_assign :: "'k::linorder \<Rightarrow> 'v \<Rightarrow> ('k \<times> 'v) list \<Rightarrow> ('k \<times> 'v) list" where
  "map_assign k v [] = [(k, v)]"
| "map_assign k v ((k', v') # m) =
     (if k < k' then (k, v) # (k', v') # m
      else if k = k' then (k, v) # m
      else (k', v') # map_assign k v m)"

text \<open>\<open>m.emplace(k, v)\<close>: an existing entry stays.\<close>

definition map_emplace :: "'k::linorder \<Rightarrow> 'v \<Rightarrow> ('k \<times> 'v) list \<Rightarrow> ('k \<times> 'v) list" where
  "map_emplace k v m = (if map_find m k = None then map_assign k v m else m)"

text \<open>An assignment through an iterator found at \<open>k\<close>.\<close>

definition map_modify :: "'k \<Rightarrow> ('v \<Rightarrow> 'v) \<Rightarrow> ('k \<times> 'v) list \<Rightarrow> ('k \<times> 'v) list" where
  "map_modify k f m = map (\<lambda>(k', v). (k', if k' = k then f v else v)) m"

text \<open>\<open>m.erase(k)\<close>\<close>

definition map_erase :: "'k \<Rightarrow> ('k \<times> 'v) list \<Rightarrow> ('k \<times> 'v) list" where
  "map_erase k m = filter (\<lambda>(k', v). k' \<noteq> k) m"

lemma map_find_assign [simp]:
  "ascending (map fst m) \<Longrightarrow> map_find (map_assign k v m) k' = (if k' = k then Some v else map_find m k')"
  by (induction m) auto

lemma set_keys_assign: "fst ` set (map_assign k v m) = insert k (fst ` set m)"
proof (induction m)
  case (Cons a m)
  then show ?case by (cases a) (simp add: insert_commute)
qed simp

lemma ascending_assign [intro]:
  "ascending (map fst m) \<Longrightarrow> ascending (map fst (map_assign k v m))"
proof (induction m)
  case (Cons a m)
  obtain k' v' where a: "a = (k', v')" by (cases a)
  have later: "\<forall>x\<in>set (map_assign k v m). k' < fst x" if "k' < k"
  proof
    fix x assume "x \<in> set (map_assign k v m)"
    then have "fst x = k \<or> fst x \<in> fst ` set m" using set_keys_assign [of k v m] by blast
    with that Cons.prems a show "k' < fst x" by auto
  qed
  with Cons a show ?case by auto
qed simp

lemma set_assign_new:
  "map_find m k = None \<Longrightarrow> set (map_assign k v m) = insert (k, v) (set m)"
  by (induction m) (auto split: if_splits)

lemma length_assign_new: "map_find m k = None \<Longrightarrow> length (map_assign k v m) = Suc (length m)"
  by (induction m) (auto split: if_splits)

lemma map_find_modify [simp]:
  "map_find (map_modify k f m) k' = (if k' = k then map_option f (map_find m k) else map_find m k')"
  by (induction m) (auto simp: map_modify_def)

lemma keys_modify [simp]: "map fst (map_modify k f m) = map fst m"
  by (induction m) (auto simp: map_modify_def)

lemma length_modify [simp]: "length (map_modify k f m) = length m"
  by (simp add: map_modify_def)

lemma keys_distinct: "ascending (map fst m) \<Longrightarrow> distinct (map fst (m :: ('k::linorder \<times> 'v) list))"
  by (rule ascending_distinct)

lemma map_find_iff:
  "ascending (map fst m) \<Longrightarrow> map_find m k = Some v \<longleftrightarrow> (k, v) \<in> set m"
  using keys_distinct [of m] by simp

locale map_container =
  fixes find :: "'m \<Rightarrow> 'k \<Rightarrow> 'v option"
    and assign :: "'k \<Rightarrow> 'v \<Rightarrow> 'm \<Rightarrow> 'm"
    and emplace :: "'k \<Rightarrow> 'v \<Rightarrow> 'm \<Rightarrow> 'm"
    and ok :: "'m \<Rightarrow> bool"
  assumes find_assign: "ok m \<Longrightarrow> find (assign k v m) k' = (if k' = k then Some v else find m k')"
    and find_emplace: "ok m \<Longrightarrow> find (emplace k v m) k' =
          (if k' = k \<and> find m k = None then Some v else find m k')"
    and ok_assign: "ok m \<Longrightarrow> ok (assign k v m)"
    and ok_emplace: "ok m \<Longrightarrow> ok (emplace k v m)"
begin

lemma emplace_keeps: "ok m \<Longrightarrow> find m k' = Some v' \<Longrightarrow> find (emplace k v m) k' = Some v'"
  by (auto simp: find_emplace)

lemma fold_emplace_keeps:
  "ok m \<Longrightarrow> find m k' = Some v' \<Longrightarrow>
     ok (fold (\<lambda>(k, v). emplace k v) kvs m) \<and> find (fold (\<lambda>(k, v). emplace k v) kvs m) k' = Some v'"
  by (induction kvs arbitrary: m) (auto simp: ok_emplace emplace_keeps)

lemma fold_assign:
  "ok m \<Longrightarrow> ok (fold (\<lambda>(k, v). assign k v) kvs m) \<and>
     find (fold (\<lambda>(k, v). assign k v) kvs m) k' =
       (case map_of (rev kvs) k' of None \<Rightarrow> find m k' | Some v \<Rightarrow> Some v)"
  by (induction kvs arbitrary: m) (auto simp: find_assign ok_assign map_add_def split: option.splits)

end

lemma map_find_emplace:
  "ascending (map fst m) \<Longrightarrow>
     map_find (map_emplace k v m) k' = (if k' = k \<and> map_find m k = None then Some v else map_find m k')"
  by (auto simp: map_emplace_def)

lemma ascending_emplace [intro]: "ascending (map fst m) \<Longrightarrow> ascending (map fst (map_emplace k v m))"
  by (auto simp: map_emplace_def)

lemma map_assign_snoc: "\<forall>x \<in> set m. fst x < k \<Longrightarrow> map_assign k v m = m @ [(k, v)]"
  by (induction m) auto

text \<open>Inserting the entries of a map one by one gives the map.\<close>

lemma fold_map_assign:
  "ascending (map fst (m0 @ m)) \<Longrightarrow> fold (\<lambda>(k, v). map_assign k v) m m0 = m0 @ m"
proof (induction m arbitrary: m0)
  case (Cons a m)
  obtain k v where a: "a = (k, v)" by (cases a)
  with Cons.prems have "map_assign k v m0 = m0 @ [(k, v)]"
    by (intro map_assign_snoc) (auto simp: sorted_wrt_append)
  with Cons.IH [of "m0 @ [a]"] Cons.prems a show ?case by simp
qed simp

lemma ascending_map_erase: "ascending (map fst m) \<Longrightarrow> ascending (map fst (map_erase k m))"
  by (induction m) (auto simp: map_erase_def)

lemma fold_emplace_find:
  "ascending (map fst m) \<Longrightarrow> distinct (map fst l) \<Longrightarrow>
     map_find (fold (\<lambda>(k, v). map_emplace k v) l m) k =
       (case map_find m k of Some v \<Rightarrow> Some v | None \<Rightarrow> map_find l k)"
  by (induction l arbitrary: m)
    (auto simp: map_find_emplace ascending_emplace image_iff split: option.splits dest: map_of_SomeD)

interpretation std_map: map_container map_find map_assign map_emplace
    "\<lambda>m. ascending (map fst (m :: ('k::linorder \<times> 'v) list))"
  by unfold_locales (auto simp: map_find_emplace)

end
