(* ===== verification/Chat_Server.thy ===== *)
theory Chat_Server
  imports App_State Session_IO Identity_Utils Ordered_Containers
begin

text \<open>
  \<open>class ChatServer\<close> of \<open>chat/chat_server.h\<close>: rooms, members, identities, bans and everything
  the server sends. Its methods are functions on the record \<open>chat_server\<close>. The two record
  types it is built from follow the sharing of the code:

  \<^item> \<open>client_session\<close> is the protocol state of a \<open>ClientSession\<close> object. Sessions are shared
    pointers; a session is named by a number and the objects are a store \<open>sess\<close>. The order
    of the numbers stands for the pointer order in which \<open>std::set\<close> iterates.
  \<^item> \<open>outputs\<close> collects what the server only writes: the sessions' output queues (the model of
    \<open>Session_IO\<close>), the local user interface, log, storage requests, standard error and files.
    It also counts the calls made to the environment (clocks and random numbers), whose
    results are functions of the call's number in the record \<open>environment\<close>.

  Each method is one step: the server's handlers run on one thread, and the mutexes only
  protect it against the host's own user interface. A method that reports an error through
  a reference parameter returns \<open>Inl error\<close> and leaves the state alone, which is what the
  code does; one that returns a \<open>bool\<close> returns it beside the new state.
\<close>

section \<open>Data\<close>

type_synonym session_id = nat

record stored_room =
  sr_id :: room_id
  sr_name :: string
  sr_topic :: string
  sr_owner :: string
  sr_created_at :: int

record stored_ban =
  sb_nickname :: string
  sb_reason :: string
  sb_created_at :: int
  sb_expires_at :: "int option"

record stored_message =
  sm_id :: string
  sm_room_id :: room_id
  sm_nickname :: string
  sm_body :: string
  sm_sent_at :: int

text \<open>The calls the server makes on its \<open>ServerStorage\<close>; it ignores what they return.\<close>

datatype storage_request =
    StoreRoom stored_room
  | UpdateTopic room_id string
  | StoreIdentity string string
  | StoreBan stored_ban
  | RemoveBan string
  | StoreMessage stored_message
  | Flush

record room =
  rm_id :: room_id
  rm_name :: string
  rm_topic :: string
  rm_owner :: string
  rm_recent :: "string list"
  rm_members :: "session_id list"

record client_session =
  nickname :: string
  pending_nickname :: string
  pending_public_key_hex :: string
  pending_challenge :: string
  active_room_id :: room_id
  authenticated :: bool
  protocol_negotiated :: bool
  recent_messages_by_room :: "(room_id \<times> int list) list"
  reading :: bool

definition fresh_session :: client_session where
  "fresh_session = \<lparr>nickname = [], pending_nickname = [], pending_public_key_hex = [],
     pending_challenge = [], active_room_id = 0, authenticated = False,
     protocol_negotiated = False, recent_messages_by_room = [], reading = False\<rparr>"

record environment =
  crypto :: sodium
  timestamp :: "nat \<Rightarrow> string"
  unix_seconds :: "nat \<Rightarrow> int"
  unix_micros :: "nat \<Rightarrow> int"
  steady_nanos :: "nat \<Rightarrow> int"

record outputs =
  ios :: "session_id \<Rightarrow> session_io"
  ui :: app_state
  log_lines :: "string list"
  storage_requests :: "storage_request list"
  stderr :: "string list"
  files :: "string \<Rightarrow> string option"
  calls :: nat
  last_timestamp :: int

record chat_server =
  password :: string
  local_nickname :: string
  history_limit :: nat
  has_log :: bool
  has_storage :: bool
  bans_file :: string
  identities_file :: string
  acceptor_open :: bool
  sessions :: "session_id list"
  sess :: "session_id \<Rightarrow> client_session"
  next_session :: session_id
  rooms :: "(room_id \<times> room) list"
  next_room_id :: room_id
  local_room_id :: room_id
  banned_nicks :: "string list"
  identities :: "(string \<times> string) list"
  effects :: outputs

definition DEFAULT_ROOM_ID :: room_id where
  "DEFAULT_ROOM_ID = 1"

definition SERVER_HISTORY_LIMIT :: nat where
  "SERVER_HISTORY_LIMIT = 100"

section \<open>Output\<close>

text \<open>\<open>ClientSession::deliver\<close>: a message that cannot be encoded is dropped.\<close>

definition deliver :: "server_message \<Rightarrow> session_id \<Rightarrow> outputs \<Rightarrow> outputs" where
  "deliver msg s out =
     (case encode_server_frame msg of
        Failure _ detail \<Rightarrow> out\<lparr>stderr := stderr out @ [''Protocol encode error: '' @ detail]\<rparr>
      | Success wire \<Rightarrow> out\<lparr>ios := (ios out)(s := post_task (PostWrite wire) (ios out s))\<rparr>)"

definition deliver_text :: "string \<Rightarrow> session_id \<Rightarrow> outputs \<Rightarrow> outputs" where
  "deliver_text text s out = deliver (Text text) s out"

definition deliver_all :: "session_id list \<Rightarrow> server_message \<Rightarrow> outputs \<Rightarrow> outputs" where
  "deliver_all members msg out = fold (deliver msg) members out"

definition close_session :: "session_id \<Rightarrow> outputs \<Rightarrow> outputs" where
  "close_session s out = out\<lparr>ios := (ios out)(s := post_task PostClose (ios out s))\<rparr>"

definition abort_session :: "session_id \<Rightarrow> outputs \<Rightarrow> outputs" where
  "abort_session s out = out\<lparr>ios := (ios out)(s := post_task PostAbort (ios out s))\<rparr>"

definition on_ui :: "(app_state \<Rightarrow> app_state) \<Rightarrow> outputs \<Rightarrow> outputs" where
  "on_ui f out = out\<lparr>ui := f (ui out)\<rparr>"

definition log_write :: "bool \<Rightarrow> string \<Rightarrow> outputs \<Rightarrow> outputs" where
  "log_write logging line out =
     (if logging then out\<lparr>log_lines := log_lines out @ [line]\<rparr> else out)"

definition store :: "storage_request \<Rightarrow> outputs \<Rightarrow> outputs" where
  "store request out = out\<lparr>storage_requests := storage_requests out @ [request]\<rparr>"

definition tick :: "outputs \<Rightarrow> outputs" where
  "tick out = out\<lparr>calls := Suc (calls out)\<rparr>"

text \<open>
  \<open>next_message_timestamp\<close>: strictly increasing over the life of the process, also when the
  clock steps back. On one thread the compare-and-exchange succeeds at its first attempt.
\<close>

definition next_message_timestamp :: "environment \<Rightarrow> outputs \<Rightarrow> int \<times> outputs" where
  "next_message_timestamp E out =
     (let now = unix_micros E (calls out); candidate = max now (last_timestamp out + 1)
      in (candidate, (tick out)\<lparr>last_timestamp := candidate\<rparr>))"

definition store_message :: "environment \<Rightarrow> room_id \<Rightarrow> string \<Rightarrow> string \<Rightarrow> outputs \<Rightarrow> outputs" where
  "store_message E rid nick msg out =
     (let mid = random_hex (crypto E) (calls out) 16;
          (sent, out) = next_message_timestamp E (tick out)
      in store (StoreMessage \<lparr>sm_id = mid, sm_room_id = rid, sm_nickname = nick, sm_body = msg,
           sm_sent_at = sent\<rparr>) out)"

section \<open>Rooms\<close>

definition normalized_room_name :: "string \<Rightarrow> string" where
  "normalized_room_name name = map tolower name"

definition find_room_by_name :: "string \<Rightarrow> chat_server \<Rightarrow> (room_id \<times> room) option" where
  "find_room_by_name name st =
     (let wanted = normalized_room_name name
      in find (\<lambda>(rid, room). normalized_room_name (rm_name room) = wanted) (rooms st))"

definition local_here :: "room_id \<Rightarrow> chat_server \<Rightarrow> bool" where
  "local_here rid st \<longleftrightarrow> local_nickname st \<noteq> [] \<and> local_room_id st = rid"

definition room_list :: "chat_server \<Rightarrow> room_summary list" where
  "room_list st = map (\<lambda>(rid, room).
     let count = length (rm_members room);
         count = (if local_here rid st then count + 1 else count)
     in \<lparr>summary_id = rid, summary_name = rm_name room, summary_user_count = of_nat count\<rparr>) (rooms st)"

text \<open>The nicknames of a room's members, with the local user's, in order.\<close>

definition room_users :: "room_id \<Rightarrow> room \<Rightarrow> chat_server \<Rightarrow> string list" where
  "room_users rid room st = sort
     (filter (\<lambda>n. n \<noteq> []) (map (\<lambda>m. nickname (sess st m)) (rm_members room))
      @ (if local_here rid st then [local_nickname st] else []))"

definition broadcast_room :: "environment \<Rightarrow> room_id \<Rightarrow> string \<Rightarrow> string \<Rightarrow> chat_server \<Rightarrow> chat_server" where
  "broadcast_room E rid msg nick st =
     (case map_find (rooms st) rid of
        None \<Rightarrow> st
      | Some room \<Rightarrow>
          let limit = history_limit st;
              st = st\<lparr>rooms := map_modify rid (\<lambda>r. r\<lparr>rm_recent := push_bounded limit msg (rm_recent r)\<rparr>)
                     (rooms st)\<rparr>;
              st = (if local_here rid st then effects_update (on_ui (push_message msg)) st else st);
              st = effects_update (deliver_all (rm_members room) (RoomText rid msg)) st;
              st = effects_update (log_write (has_log st) (''[#'' @ rm_name room @ ''] '' @ msg)) st
          in if has_storage st then effects_update (store_message E rid nick msg) st else st)"

definition broadcast_users :: "room_id \<Rightarrow> chat_server \<Rightarrow> chat_server" where
  "broadcast_users rid st =
     (case map_find (rooms st) rid of
        None \<Rightarrow> st
      | Some room \<Rightarrow>
          let users = room_users rid room st;
              st = (if local_here rid st then effects_update (on_ui (update_room_users rid users)) st else st)
          in effects_update (deliver_all (rm_members room) (UserList rid users)) st)"

definition broadcast_room_lists :: "chat_server \<Rightarrow> chat_server" where
  "broadcast_room_lists st =
     (let list = room_list st;
          joined = filter (\<lambda>s. nickname (sess st s) \<noteq> []) (sessions st);
          st = effects_update (deliver_all joined (RoomList list)) st
      in if local_nickname st \<noteq> [] \<and> local_room_id st \<noteq> 0
         then effects_update (on_ui (update_room_list list)) st else st)"

definition send_room_list :: "session_id \<Rightarrow> chat_server \<Rightarrow> chat_server" where
  "send_room_list s st = effects_update (deliver (RoomList (room_list st)) s) st"

definition show_room_list_local :: "chat_server \<Rightarrow> chat_server" where
  "show_room_list_local st =
     (let list = room_list st;
          line = (\<lambda>r. ''[system]   '' @ (if summary_id r = local_room_id st then ''* '' else ''- '')
             @ summary_name r @ '' ('' @ word_to_string (summary_user_count r) @ '')'')
      in effects_update (on_ui (\<lambda>u. fold (\<lambda>r. push_message (line r)) list
           (push_message ''[system] Available rooms:'' (update_room_list list u)))) st)"

definition current_unix_seconds :: "environment \<Rightarrow> outputs \<Rightarrow> int" where
  "current_unix_seconds E out = unix_seconds E (calls out)"

definition persist_room :: "environment \<Rightarrow> room_id \<Rightarrow> chat_server \<Rightarrow> chat_server" where
  "persist_room E rid st =
     (if \<not> has_storage st then st
      else case map_find (rooms st) rid of
             None \<Rightarrow> st
           | Some room \<Rightarrow> effects_update (\<lambda>out. store (StoreRoom
               \<lparr>sr_id = rm_id room, sr_name = rm_name room, sr_topic = rm_topic room,
                sr_owner = rm_owner room, sr_created_at = current_unix_seconds E out\<rparr>) (tick out)) st)"

definition set_active_room_id :: "session_id \<Rightarrow> room_id \<Rightarrow> chat_server \<Rightarrow> chat_server" where
  "set_active_room_id s rid st = st\<lparr>sess := (sess st)(s := (sess st s)\<lparr>active_room_id := rid\<rparr>)\<rparr>"

definition erase_member :: "room_id \<Rightarrow> session_id \<Rightarrow> chat_server \<Rightarrow> chat_server" where
  "erase_member rid s st =
     st\<lparr>rooms := map_modify rid (\<lambda>r. r\<lparr>rm_members := set_erase s (rm_members r)\<rparr>) (rooms st)\<rparr>"

definition insert_member :: "room_id \<Rightarrow> session_id \<Rightarrow> chat_server \<Rightarrow> chat_server" where
  "insert_member rid s st =
     st\<lparr>rooms := map_modify rid (\<lambda>r. r\<lparr>rm_members := set_insert s (rm_members r)\<rparr>) (rooms st)\<rparr>"

text \<open>The messages a session is sent when it enters a room.\<close>

definition send_room :: "room \<Rightarrow> session_id \<Rightarrow> outputs \<Rightarrow> outputs" where
  "send_room target s out =
     (let out = deliver (RoomJoined (rm_id target) (rm_name target) (rm_topic target)) s out
      in if rm_recent target \<noteq> []
         then fold (\<lambda>message. deliver (RoomText (rm_id target) message) s) (rm_recent target)
                (deliver_text (''[system] Recent messages in #'' @ rm_name target @ '':'') s out)
         else out)"

definition move_session_to_room ::
  "environment \<Rightarrow> session_id \<Rightarrow> room_id \<Rightarrow> bool \<Rightarrow> chat_server \<Rightarrow> chat_server" where
  "move_session_to_room E s target_id announce_move st =
     (let old_id = active_room_id (sess st s) in
      case map_find (rooms st) target_id of
        None \<Rightarrow> st
      | Some target \<Rightarrow>
          let nick = nickname (sess st s);
              st = erase_member old_id s st;
              st = insert_member target_id s st;
              st = set_active_room_id s target_id st;
              st = (if announce_move \<and> old_id \<noteq> 0
                    then broadcast_users old_id (broadcast_room E old_id
                           (''[system] '' @ nick @ '' left for #'' @ rm_name target) [] st)
                    else st);
              st = effects_update (send_room target s) st;
              st = broadcast_room E (rm_id target)
                     (''[system] '' @ nick @ '' joined #'' @ rm_name target) [] st;
              st = broadcast_users (rm_id target) st
          in broadcast_room_lists st)"

definition move_local_to_room ::
  "environment \<Rightarrow> room_id \<Rightarrow> bool \<Rightarrow> chat_server \<Rightarrow> chat_server" where
  "move_local_to_room E target_id announce_move st =
     (case map_find (rooms st) target_id of
        None \<Rightarrow> st
      | Some target \<Rightarrow>
          let old_id = local_room_id st;
              st = st\<lparr>local_room_id := target_id\<rparr>;
              st = (if announce_move \<and> old_id \<noteq> 0
                    then broadcast_users old_id (broadcast_room E old_id
                           (''[system] '' @ local_nickname st @ '' left for #'' @ rm_name target) [] st)
                    else st);
              st = effects_update (on_ui (activate_room (rm_id target) (rm_name target) (rm_topic target))) st;
              st = (if rm_recent target \<noteq> []
                    then effects_update (on_ui (\<lambda>u. fold push_message (rm_recent target)
                           (push_message (''[system] Recent messages in #'' @ rm_name target @ '':'') u))) st
                    else st);
              st = broadcast_room E (rm_id target)
                     (''[system] '' @ local_nickname st @ '' joined #'' @ rm_name target) [] st;
              st = broadcast_users (rm_id target) st
          in broadcast_room_lists st)"

section \<open>Sessions and rooms\<close>

definition join :: "session_id \<Rightarrow> chat_server \<Rightarrow> chat_server" where
  "join s st = st\<lparr>sessions := set_insert s (sessions st)\<rparr>"

definition is_member :: "room_id \<Rightarrow> session_id \<Rightarrow> chat_server \<Rightarrow> bool" where
  "is_member rid s st =
     (case map_find (rooms st) rid of None \<Rightarrow> False | Some room \<Rightarrow> set_count s (rm_members room) > 0)"

definition disconnect :: "environment \<Rightarrow> session_id \<Rightarrow> bool \<Rightarrow> chat_server \<Rightarrow> chat_server" where
  "disconnect E s announce st =
     (let st = st\<lparr>sessions := set_erase s (sessions st)\<rparr>;
          old_room_id = active_room_id (sess st s);
          st = set_active_room_id s 0 st
      in if old_room_id = 0 then st
         else let removed = is_member old_room_id s st;
                  st = erase_member old_room_id s st;
                  nick = nickname (sess st s);
                  st = (if removed \<and> announce \<and> nick \<noteq> []
                        then broadcast_room E old_room_id (''[system] '' @ nick @ '' left'') [] st
                        else st)
              in if removed then broadcast_room_lists (broadcast_users old_room_id st) else st)"

definition admit_to_default_room :: "environment \<Rightarrow> session_id \<Rightarrow> chat_server \<Rightarrow> chat_server" where
  "admit_to_default_room E s st = move_session_to_room E s DEFAULT_ROOM_ID False st"

definition no_such_room :: "string \<Rightarrow> string" where
  "no_such_room name = ''Room '' @ [CHR 0x27] @ name @ [CHR 0x27] @ '' does not exist''"

definition join_room :: "environment \<Rightarrow> session_id \<Rightarrow> string \<Rightarrow> chat_server \<Rightarrow> string + chat_server" where
  "join_room E s name st =
     (case find_room_by_name name st of
        None \<Rightarrow> Inl (no_such_room name)
      | Some (rid, _) \<Rightarrow>
          if active_room_id (sess st s) = rid
          then Inl (''Already in room '' @ [CHR 0x27] @ name @ [CHR 0x27])
          else Inr (move_session_to_room E s rid True st))"

definition leave_room :: "environment \<Rightarrow> session_id \<Rightarrow> chat_server \<Rightarrow> string + chat_server" where
  "leave_room E s st =
     (if active_room_id (sess st s) = DEFAULT_ROOM_ID then Inl ''Already in the lobby''
      else Inr (move_session_to_room E s DEFAULT_ROOM_ID True st))"

text \<open>The guards the three ways to create a room share, and the new entry.\<close>

definition check_new_room :: "string \<Rightarrow> chat_server \<Rightarrow> string option" where
  "check_new_room name st =
     (if \<not> is_valid_room_name name
      then Some (''Room names use 1-32 letters, numbers, '' @ [CHR 0x27] @ ''-'' @ [CHR 0x27]
        @ '' or '' @ [CHR 0x27] @ ''_'' @ [CHR 0x27])
      else if length (rooms st) \<ge> MAX_ROOMS
      then Some ''This server has reached its room limit''
      else if find_room_by_name name st \<noteq> None
      then Some (''A room named '' @ [CHR 0x27] @ name @ [CHR 0x27] @ '' already exists'')
      else None)"

definition add_room :: "string \<Rightarrow> string \<Rightarrow> chat_server \<Rightarrow> chat_server" where
  "add_room name owner st =
     (let rid = next_room_id st in
      st\<lparr>next_room_id := rid + 1,
         rooms := map_emplace rid \<lparr>rm_id = rid, rm_name = name, rm_topic = [], rm_owner = owner,
                    rm_recent = [], rm_members = []\<rparr> (rooms st)\<rparr>)"

definition create_room :: "environment \<Rightarrow> session_id \<Rightarrow> string \<Rightarrow> chat_server \<Rightarrow> string + chat_server" where
  "create_room E s name st =
     (case check_new_room name st of
        Some error \<Rightarrow> Inl error
      | None \<Rightarrow>
          let rid = next_room_id st;
              st = add_room name (nickname (sess st s)) st;
              st = persist_room E rid st
          in Inr (move_session_to_room E s rid True st))"

definition create_local_room :: "environment \<Rightarrow> string \<Rightarrow> chat_server \<Rightarrow> string + chat_server" where
  "create_local_room E name st =
     (if local_nickname st = [] then Inl ''No interactive host is configured''
      else case check_new_room name st of
        Some error \<Rightarrow> Inl error
      | None \<Rightarrow>
          let rid = next_room_id st;
              st = add_room name (local_nickname st) st;
              st = persist_room E rid st
          in Inr (move_local_to_room E rid True st))"

definition create_admin_room :: "environment \<Rightarrow> string \<Rightarrow> chat_server \<Rightarrow> string + chat_server" where
  "create_admin_room E name st =
     (case check_new_room name st of
        Some error \<Rightarrow> Inl error
      | None \<Rightarrow>
          let st = add_room name [] st;
              created_id = (case find_room_by_name name st of None \<Rightarrow> 0 | Some (rid, _) \<Rightarrow> rid);
              st = (if created_id \<noteq> 0 then persist_room E created_id st else st)
          in Inr (broadcast_room_lists st))"

definition users_in_room :: "string \<Rightarrow> chat_server \<Rightarrow> string + string list" where
  "users_in_room name st =
     (case find_room_by_name name st of
        None \<Rightarrow> Inl (no_such_room name)
      | Some (rid, room) \<Rightarrow> Inr (room_users rid room st))"

definition join_local_room :: "environment \<Rightarrow> string \<Rightarrow> chat_server \<Rightarrow> string + chat_server" where
  "join_local_room E name st =
     (case find_room_by_name name st of
        None \<Rightarrow> Inl (no_such_room name)
      | Some (rid, _) \<Rightarrow>
          if local_room_id st = rid
          then Inl (''Already in room '' @ [CHR 0x27] @ name @ [CHR 0x27])
          else Inr (move_local_to_room E rid True st))"

definition leave_local_room :: "environment \<Rightarrow> chat_server \<Rightarrow> string + chat_server" where
  "leave_local_room E st =
     (if local_room_id st = DEFAULT_ROOM_ID then Inl ''Already in the lobby''
      else Inr (move_local_to_room E DEFAULT_ROOM_ID True st))"

definition start_local_user :: "chat_server \<Rightarrow> chat_server" where
  "start_local_user st =
     (if local_nickname st = [] then st
      else let st = st\<lparr>local_room_id := DEFAULT_ROOM_ID\<rparr> in
           case map_find (rooms st) DEFAULT_ROOM_ID of
             None \<Rightarrow> st
           | Some lobby \<Rightarrow>
               let st = effects_update (on_ui (activate_room (rm_id lobby) (rm_name lobby) (rm_topic lobby))) st
               in broadcast_room_lists (broadcast_users (rm_id lobby) st))"

section \<open>Messages and topics\<close>

definition broadcast :: "environment \<Rightarrow> string \<Rightarrow> chat_server \<Rightarrow> chat_server" where
  "broadcast E msg st =
     (let rid = local_room_id st; rid = (if rid = 0 then DEFAULT_ROOM_ID else rid)
      in broadcast_room E rid msg [] st)"

definition broadcast_server :: "environment \<Rightarrow> string \<Rightarrow> chat_server \<Rightarrow> chat_server" where
  "broadcast_server E msg st =
     fold (\<lambda>rid. broadcast_room E rid (''[SERVER] '' @ msg) []) (map fst (rooms st)) st"

text \<open>The loops over a room's members keep the last match; \<open>find\<close> on a set keeps the first.\<close>

definition last_member_named :: "string \<Rightarrow> room \<Rightarrow> chat_server \<Rightarrow> session_id option" where
  "last_member_named nick room st =
     find (\<lambda>m. nickname (sess st m) = nick) (rev (rm_members room))"

definition first_session_named :: "string \<Rightarrow> chat_server \<Rightarrow> session_id option" where
  "first_session_named nick st = find (\<lambda>s. nickname (sess st s) = nick) (sessions st)"

definition send_private_in_room ::
  "environment \<Rightarrow> string \<Rightarrow> string \<Rightarrow> string \<Rightarrow> room_id \<Rightarrow> bool \<Rightarrow> chat_server \<Rightarrow> bool \<times> chat_server" where
  "send_private_in_room E sender target message rid mirror_to_local st =
     (case map_find (rooms st) rid of
        None \<Rightarrow> (False, st)
      | Some room \<Rightarrow>
          let sender_session = last_member_named sender room st;
              target_session = last_member_named target room st;
              target_is_local = local_here rid st \<and> target = local_nickname st;
              to_session = (\<lambda>line s. case s of None \<Rightarrow> (\<lambda>out. out) | Some m \<Rightarrow> deliver_text line m)
          in if target_session = None \<and> \<not> target_is_local
             then let error = ''[system] User '' @ [CHR 0x27] @ target @ [CHR 0x27] @ '' is not in this room'';
                      st = effects_update (to_session error sender_session) st;
                      st = (if mirror_to_local then effects_update (on_ui (push_message error)) st else st)
                  in (False, st)
             else let line = ''[PRIVATE '' @ timestamp E (calls (effects st)) @ ''] '' @ sender @ '' -> ''
                        @ target @ '': '' @ message;
                      st = effects_update tick st;
                      st = (if target_is_local \<or> mirror_to_local
                            then effects_update (on_ui (push_message line)) st else st);
                      st = effects_update (to_session line target_session) st;
                      st = (if sender \<noteq> target then effects_update (to_session line sender_session) st else st);
                      st = effects_update (log_write (has_log st) (''[private #'' @ word_to_string rid @ ''] ''
                             @ sender @ '' -> '' @ target @ '': '' @ message)) st
                  in (True, st))"

definition send_private ::
  "environment \<Rightarrow> string \<Rightarrow> string \<Rightarrow> string \<Rightarrow> bool \<Rightarrow> chat_server \<Rightarrow> bool \<times> chat_server" where
  "send_private E sender target message mirror_to_local st =
     (let rid = local_room_id st;
          rid = (if rid = 0
                 then (case first_session_named sender st of
                         None \<Rightarrow> 0 | Some s \<Rightarrow> active_room_id (sess st s))
                 else rid)
      in send_private_in_room E sender target message rid mirror_to_local st)"

definition send_private_from ::
  "environment \<Rightarrow> session_id \<Rightarrow> string \<Rightarrow> string \<Rightarrow> chat_server \<Rightarrow> bool \<times> chat_server" where
  "send_private_from E sender target message st =
     send_private_in_room E (nickname (sess st sender)) target message
       (active_room_id (sess st sender)) False st"

definition send_topic :: "session_id \<Rightarrow> chat_server \<Rightarrow> chat_server" where
  "send_topic s st =
     (case map_find (rooms st) (active_room_id (sess st s)) of
        None \<Rightarrow> st
      | Some room \<Rightarrow>
          effects_update (deliver (RoomTopic (active_room_id (sess st s)) (rm_topic room)) s) st)"

definition set_topic_for_room ::
  "environment \<Rightarrow> room_id \<Rightarrow> string \<Rightarrow> bool \<Rightarrow> string \<Rightarrow> chat_server \<Rightarrow> string + chat_server" where
  "set_topic_for_room E rid actor privileged topic st =
     (if \<not> is_valid_room_topic topic
      then Inl ''Topics may contain at most 200 printable characters''
      else case map_find (rooms st) rid of
        None \<Rightarrow> Inl ''The active room no longer exists''
      | Some room \<Rightarrow>
          if \<not> privileged \<and> rm_owner room \<noteq> actor
          then Inl (''Only this room'' @ [CHR 0x27] @ ''s creator can change its topic'')
          else
            let st = st\<lparr>rooms := map_modify rid (\<lambda>r. r\<lparr>rm_topic := topic\<rparr>) (rooms st)\<rparr>;
                st = (if has_storage st then effects_update (store (UpdateTopic rid topic)) st else st);
                st = effects_update (deliver_all (rm_members room) (RoomTopic rid topic)) st;
                st = (if local_here rid st
                      then effects_update (on_ui (update_room_topic rid topic)) st else st)
            in Inr (broadcast_room E rid
                 (''[system] '' @ actor @ '' changed the topic to: '' @ topic) [] st))"

definition set_topic :: "environment \<Rightarrow> session_id \<Rightarrow> string \<Rightarrow> chat_server \<Rightarrow> string + chat_server" where
  "set_topic E s topic st =
     set_topic_for_room E (active_room_id (sess st s)) (nickname (sess st s)) False topic st"

definition set_local_topic :: "environment \<Rightarrow> string \<Rightarrow> chat_server \<Rightarrow> string + chat_server" where
  "set_local_topic E topic st =
     set_topic_for_room E (local_room_id st) (local_nickname st) True topic st"

definition set_admin_topic :: "environment \<Rightarrow> string \<Rightarrow> string \<Rightarrow> chat_server \<Rightarrow> string + chat_server" where
  "set_admin_topic E room_name topic st =
     (case find_room_by_name room_name st of
        None \<Rightarrow> Inl (no_such_room room_name)
      | Some (rid, _) \<Rightarrow> set_topic_for_room E rid ''server'' True topic st)"

section \<open>Moderation\<close>

definition kick_user_in_room ::
  "environment \<Rightarrow> room_id \<Rightarrow> string \<Rightarrow> string \<Rightarrow> chat_server \<Rightarrow> bool \<times> chat_server" where
  "kick_user_in_room E rid nick reason st =
     (case map_find (rooms st) rid of
        None \<Rightarrow> (False, st)
      | Some room \<Rightarrow>
          (case find (\<lambda>m. nickname (sess st m) = nick) (rm_members room) of
             None \<Rightarrow> (False, st)
           | Some target \<Rightarrow>
               let st = effects_update (deliver (Kick nick reason) target) st;
                   st = effects_update (close_session target) st;
                   st = disconnect E target False st;
                   st = broadcast_room E rid (''[system] '' @ nick @ '' was kicked''
                          @ (if reason = [] then [] else '': '' @ reason)) [] st
               in (True, broadcast_users rid st)))"

definition kick_user_in_named_room ::
  "environment \<Rightarrow> string \<Rightarrow> string \<Rightarrow> string \<Rightarrow> chat_server \<Rightarrow> string + chat_server" where
  "kick_user_in_named_room E room_name nick reason st =
     (case find_room_by_name room_name st of
        None \<Rightarrow> Inl (no_such_room room_name)
      | Some (rid, _) \<Rightarrow>
          let (kicked, st') = kick_user_in_room E rid nick reason st in
          if \<not> kicked
          then Inl (''User '' @ [CHR 0x27] @ nick @ [CHR 0x27] @ '' is not in #'' @ room_name)
          else Inr st')"

definition kick_from ::
  "environment \<Rightarrow> session_id \<Rightarrow> string \<Rightarrow> string \<Rightarrow> chat_server \<Rightarrow> string + chat_server" where
  "kick_from E requester nick reason st =
     (let rid = active_room_id (sess st requester);
          not_owner = Inl (''Only this room'' @ [CHR 0x27] @ ''s creator can kick members'') in
      case map_find (rooms st) rid of
        None \<Rightarrow> not_owner
      | Some room \<Rightarrow>
          if rm_owner room \<noteq> nickname (sess st requester) then not_owner
          else if nick = nickname (sess st requester) then Inl ''You cannot kick yourself''
          else let (kicked, st') = kick_user_in_room E rid nick reason st in
               if \<not> kicked
               then Inl (''User '' @ [CHR 0x27] @ nick @ [CHR 0x27] @ '' is not in this room'')
               else Inr st')"

definition kick_user :: "environment \<Rightarrow> string \<Rightarrow> string \<Rightarrow> chat_server \<Rightarrow> bool \<times> chat_server" where
  "kick_user E nick reason st =
     (let rid = local_room_id st;
          rid = (if rid = 0
                 then (case first_session_named nick st of
                         None \<Rightarrow> 0 | Some s \<Rightarrow> active_room_id (sess st s))
                 else rid)
      in if rid \<noteq> 0 then kick_user_in_room E rid nick reason st else (False, st))"

definition save_bans :: "chat_server \<Rightarrow> chat_server" where
  "save_bans st =
     (if bans_file st = [] then st
      else effects_update (files_update (\<lambda>f. f(bans_file st \<mapsto>
             concat (map (\<lambda>nick. nick @ [CHR 0x0A]) (banned_nicks st))))) st)"

definition ban_user :: "environment \<Rightarrow> string \<Rightarrow> string \<Rightarrow> chat_server \<Rightarrow> chat_server" where
  "ban_user E nick reason st =
     (let st = st\<lparr>banned_nicks := set_insert nick (banned_nicks st)\<rparr>;
          st = (if has_storage st
                then effects_update (\<lambda>out. store (StoreBan \<lparr>sb_nickname = nick, sb_reason = reason,
                       sb_created_at = current_unix_seconds E out, sb_expires_at = None\<rparr>) (tick out)) st
                else save_bans st);
          st = (case first_session_named nick st of
                  None \<Rightarrow> st
                | Some target \<Rightarrow>
                    let rid = active_room_id (sess st target);
                        st = effects_update (deliver (Kick nick (if reason = [] then ''banned'' else reason)) target) st;
                        st = effects_update (close_session target) st;
                        st = disconnect E target False st;
                        st = broadcast_room E rid (''[system] '' @ nick @ '' has been banned'') [] st
                    in broadcast_users rid st)
      in effects_update (log_write (has_log st) (''[admin] Banned: '' @ nick
           @ (if reason = [] then [] else '' ('' @ reason @ '')''))) st)"

definition unban_user :: "string \<Rightarrow> chat_server \<Rightarrow> bool \<times> chat_server" where
  "unban_user nick st =
     (let removed = set_count nick (banned_nicks st) > 0;
          st = st\<lparr>banned_nicks := set_erase nick (banned_nicks st)\<rparr>
      in if removed
         then let st = (if has_storage st then effects_update (store (RemoveBan nick)) st else save_bans st)
              in (True, effects_update (log_write (has_log st) (''[admin] Unbanned: '' @ nick)) st)
         else (False, st))"

definition ban_list :: "chat_server \<Rightarrow> string list" where
  "ban_list st = banned_nicks st"

definition connected_users :: "chat_server \<Rightarrow> string list" where
  "connected_users st = sort ((if local_nickname st \<noteq> [] then [local_nickname st] else [])
     @ filter (\<lambda>n. n \<noteq> []) (map (\<lambda>s. nickname (sess st s)) (sessions st)))"

section \<open>Admission\<close>

definition has_password :: "chat_server \<Rightarrow> bool" where
  "has_password st \<longleftrightarrow> password st \<noteq> []"

definition check_password :: "string \<Rightarrow> chat_server \<Rightarrow> bool" where
  "check_password pw st \<longleftrightarrow> pw = password st"

definition is_banned :: "string \<Rightarrow> chat_server \<Rightarrow> bool" where
  "is_banned nick st \<longleftrightarrow> set_count nick (banned_nicks st) > 0"

definition nickname_taken :: "string \<Rightarrow> chat_server \<Rightarrow> bool" where
  "nickname_taken nick st =
     (if local_nickname st \<noteq> [] \<and> local_nickname st = nick then True
      else list_ex (\<lambda>s. nickname (sess st s) = nick) (sessions st))"

text \<open>The error when the identity is not available for the nickname.\<close>

definition identity_available_for :: "string \<Rightarrow> string \<Rightarrow> chat_server \<Rightarrow> string option" where
  "identity_available_for nick key st =
     (if \<not> utils_is_valid_nickname nick then Some ''Invalid nickname''
      else if \<not> is_hex_of_len key crypto_sign_PUBLICKEYBYTES then Some ''Invalid identity public key''
      else case map_find (identities st) nick of
             None \<Rightarrow> None
           | Some bound \<Rightarrow>
               if bound \<noteq> key then Some ''Nickname belongs to a different identity key'' else None)"

definition save_identities :: "chat_server \<Rightarrow> chat_server" where
  "save_identities st =
     (if identities_file st = [] then st
      else effects_update (files_update (\<lambda>f. f(identities_file st \<mapsto>
             concat (map (\<lambda>(nick, key). nick @ ''|'' @ key @ [CHR 0x0A]) (identities st))))) st)"

definition bind_identity :: "string \<Rightarrow> string \<Rightarrow> chat_server \<Rightarrow> bool \<times> chat_server" where
  "bind_identity nick key st =
     (case map_find (identities st) nick of
        Some bound \<Rightarrow> (bound = key, st)
      | None \<Rightarrow>
          let st = st\<lparr>identities := map_assign nick key (identities st)\<rparr>;
              st = (if has_storage st then effects_update (store (StoreIdentity nick key)) st
                    else save_identities st)
          in (True, effects_update (log_write (has_log st) (''[identity] Registered '' @ nick
                 @ '' as '' @ identity_fingerprint key)) st))"

definition register_local_identity :: "string \<Rightarrow> string \<Rightarrow> chat_server \<Rightarrow> bool \<times> chat_server" where
  "register_local_identity nick key st =
     (if identity_available_for nick key st = None then bind_identity nick key st else (False, st))"

section \<open>Files of bans and identities\<close>

text \<open>What the storage's load functions return.\<close>

record persisted =
  load_rooms :: "stored_room list"
  load_history :: "room_id \<Rightarrow> nat \<Rightarrow> stored_message list"
  load_stored_identities :: "(string \<times> string) list"
  load_stored_bans :: "stored_ban list"

definition identity_line :: "string \<Rightarrow> (string \<times> string) option" where
  "identity_line line =
     (let parts = split line CHR ''|'' in
      if length parts = 2 \<and> utils_is_valid_nickname (parts ! 0) \<and>
         is_hex_of_len (parts ! 1) crypto_sign_PUBLICKEYBYTES
      then Some (parts ! 0, parts ! 1) else None)"

definition load_identities :: "persisted \<Rightarrow> string \<Rightarrow> chat_server \<Rightarrow> chat_server" where
  "load_identities P path st =
     (if path = [] then st
      else if has_storage st
      then st\<lparr>identities := fold (\<lambda>(nick, key). map_assign nick key) (load_stored_identities P) (identities st)\<rparr>
      else let st = st\<lparr>identities_file := path\<rparr> in
           case files (effects st) path of
             None \<Rightarrow> st
           | Some text \<Rightarrow>
               let bindings = List.map_filter identity_line (split text CHR 0x0A);
                   st = st\<lparr>identities := fold (\<lambda>(nick, key). map_assign nick key) bindings (identities st)\<rparr>
               in effects_update (log_write (has_log st) (''[identity] Loaded ''
                    @ nat_to_string (length bindings) @ '' identity binding(s) from '' @ path)) st)"

definition load_bans :: "persisted \<Rightarrow> string \<Rightarrow> chat_server \<Rightarrow> chat_server" where
  "load_bans P path st =
     (if path = [] then st
      else if has_storage st
      then st\<lparr>banned_nicks := fold (\<lambda>ban. set_insert (sb_nickname ban)) (load_stored_bans P) (banned_nicks st)\<rparr>
      else let st = st\<lparr>bans_file := path\<rparr> in
           case files (effects st) path of
             None \<Rightarrow> st
           | Some text \<Rightarrow>
               let st = st\<lparr>banned_nicks := fold set_insert
                     (filter (\<lambda>nick. nick \<noteq> []) (split text CHR 0x0A)) (banned_nicks st)\<rparr>
               in effects_update (log_write (has_log st) (''[admin] Loaded ''
                    @ nat_to_string (length (banned_nicks st)) @ '' ban(s) from '' @ path)) st)"

text \<open>\<open>P\<close> is what the storage loads after it imported the two files, with what counts it reports.\<close>

definition import_legacy_files ::
  "persisted \<Rightarrow> nat \<Rightarrow> nat \<Rightarrow> string \<Rightarrow> string \<Rightarrow> chat_server \<Rightarrow> chat_server" where
  "import_legacy_files P imported_bans imported_identities bans_path identities_path st =
     (if \<not> has_storage st then load_bans P bans_path (load_identities P identities_path st)
      else let st = st\<lparr>identities := fold (\<lambda>(nick, key). map_assign nick key) (load_stored_identities P) [],
                       banned_nicks := fold (\<lambda>ban. set_insert (sb_nickname ban)) (load_stored_bans P) []\<rparr>
           in effects_update (log_write (has_log st \<and> (imported_bans \<noteq> 0 \<or> imported_identities \<noteq> 0))
                (''[storage] Imported '' @ nat_to_string imported_bans @ '' ban(s) and ''
                 @ nat_to_string imported_identities @ '' identity binding(s) into SQLite'')) st)"

section \<open>Starting and stopping\<close>

definition load_room :: "persisted \<Rightarrow> stored_room \<Rightarrow> chat_server \<Rightarrow> chat_server" where
  "load_room P stored st =
     (let rid = sr_id stored;
          room = \<lparr>rm_id = rid, rm_name = sr_name stored, rm_topic = sr_topic stored,
            rm_owner = sr_owner stored,
            rm_recent = map sm_body (rev (load_history P rid (history_limit st))), rm_members = []\<rparr>
      in st\<lparr>next_room_id := max (next_room_id st) (rid + 1), rooms := map_emplace rid room (rooms st)\<rparr>)"

definition load_persistent_state :: "environment \<Rightarrow> persisted \<Rightarrow> chat_server \<Rightarrow> chat_server" where
  "load_persistent_state E P st =
     (let st = (if has_storage st
                then let st = fold (load_room P) (load_rooms P) st;
                         st = st\<lparr>identities := fold (\<lambda>(nick, key). map_assign nick key)
                                (load_stored_identities P) (identities st)\<rparr>
                     in st\<lparr>banned_nicks := fold (\<lambda>ban. set_insert (sb_nickname ban))
                                (load_stored_bans P) (banned_nicks st)\<rparr>
                else st)
      in if map_find (rooms st) DEFAULT_ROOM_ID = None
         then persist_room E DEFAULT_ROOM_ID (st\<lparr>rooms := map_emplace DEFAULT_ROOM_ID
                \<lparr>rm_id = DEFAULT_ROOM_ID, rm_name = ''lobby'', rm_topic = ''Welcome to the lobby'',
                 rm_owner = local_nickname st, rm_recent = [], rm_members = []\<rparr> (rooms st)\<rparr>)
         else st)"

definition initial_outputs :: outputs where
  "initial_outputs = \<lparr>ios = \<lambda>_. initial_io, ui = initial_app_state, log_lines = [],
     storage_requests = [], stderr = [], files = \<lambda>_. None, calls = 0, last_timestamp = 0\<rparr>"

text \<open>The constructor, up to opening the acceptor.\<close>

definition new_chat_server ::
  "environment \<Rightarrow> string \<Rightarrow> bool \<Rightarrow> string \<Rightarrow> persisted option \<Rightarrow> nat \<Rightarrow> chat_server" where
  "new_chat_server E pw log local_nick storage limit =
     (let st = \<lparr>password = pw, local_nickname = local_nick, history_limit = max 1 limit,
            has_log = log, has_storage = (storage \<noteq> None), bans_file = [],
            identities_file = ''identities.txt'', acceptor_open = True, sessions = [],
            sess = \<lambda>_. fresh_session, next_session = 0, rooms = [],
            next_room_id = DEFAULT_ROOM_ID + 1, local_room_id = 0, banned_nicks = [],
            identities = [], effects = initial_outputs\<rparr>
      in load_persistent_state E (case storage of Some P \<Rightarrow> P | None \<Rightarrow>
           \<lparr>load_rooms = [], load_history = \<lambda>_ _. [], load_stored_identities = [],
            load_stored_bans = []\<rparr>) st)"

text \<open>The task \<open>stop\<close> posts.\<close>

definition stop :: "chat_server \<Rightarrow> chat_server" where
  "stop st =
     (let old = sessions st;
          st = st\<lparr>acceptor_open := False, sessions := [],
                  rooms := map (\<lambda>(rid, room). (rid, room\<lparr>rm_members := []\<rparr>)) (rooms st)\<rparr>;
          st = effects_update (fold abort_session old) st
      in if has_storage st then effects_update (store Flush) st else st)"

end
