(* ===== verification/Client_Session.thy ===== *)
theory Client_Session
  imports Chat_Server
begin

text \<open>
  \<open>chat/client_session.cpp\<close>: what a session does with each message a client sends, one
  definition per branch of \<open>read_loop\<close>, the message quota, and the life of a session from
  \<open>accept_loop\<close> to its last read. \<open>reading\<close> records whether the session has a read pending:
  the branches that return without calling \<open>read_loop\<close> again clear it, and a frame is only
  handled while it is set.

  \<open>server_step\<close> collects these handlers and the operations the host's interface and the
  administrator call into the steps of the whole server.
\<close>

section \<open>Session state\<close>

definition update_session ::
  "session_id \<Rightarrow> (client_session \<Rightarrow> client_session) \<Rightarrow> chat_server \<Rightarrow> chat_server" where
  "update_session s f st = st\<lparr>sess := (sess st)(s := f (sess st s))\<rparr>"

definition stop_reading :: "session_id \<Rightarrow> chat_server \<Rightarrow> chat_server" where
  "stop_reading s st = update_session s (reading_update (\<lambda>_. False)) st"

definition reply :: "session_id \<Rightarrow> server_message \<Rightarrow> chat_server \<Rightarrow> chat_server" where
  "reply s msg st = effects_update (deliver msg s) st"

text \<open>\<open>close(); server_.disconnect(self, false); return;\<close>\<close>

definition hang_up :: "environment \<Rightarrow> session_id \<Rightarrow> chat_server \<Rightarrow> chat_server" where
  "hang_up E s st = stop_reading s (disconnect E s False (effects_update (close_session s) st))"

definition RATE_LIMIT_MESSAGES :: nat where
  "RATE_LIMIT_MESSAGES = 20"

definition RATE_LIMIT_WINDOW_NANOS :: int where
  "RATE_LIMIT_WINDOW_NANOS = 60 * 1000000000"

text \<open>The quota on one room's deque: the decision and the times that stay.\<close>

definition quota_step :: "int \<Rightarrow> int list \<Rightarrow> bool \<times> int list" where
  "quota_step now recent =
     (let recent = dropWhile (\<lambda>t. now - t > RATE_LIMIT_WINDOW_NANOS) recent
      in if length recent \<ge> RATE_LIMIT_MESSAGES then (False, recent) else (True, recent @ [now]))"

definition consume_message_quota :: "environment \<Rightarrow> session_id \<Rightarrow> chat_server \<Rightarrow> bool \<times> chat_server" where
  "consume_message_quota E s st =
     (let now = steady_nanos E (calls (effects st));
          st = effects_update tick st;
          rid = active_room_id (sess st s);
          all = recent_messages_by_room (sess st s);
          (allowed, recent) = quota_step now (case map_find all rid of None \<Rightarrow> [] | Some q \<Rightarrow> q)
      in (allowed, update_session s (recent_messages_by_room_update (\<lambda>_. map_assign rid recent all)) st))"

section \<open>Handlers\<close>

definition handle_hello :: "session_id \<Rightarrow> u32 \<Rightarrow> chat_server \<Rightarrow> chat_server" where
  "handle_hello s version st =
     (if protocol_negotiated (sess st s)
      then reply s (ServerError ''Protocol handshake already completed'') st
      else let st = update_session s (protocol_negotiated_update (\<lambda>_. version = VERSION)) st
           in reply s (if has_password st then AuthRequired else AuthAccepted) st)"

definition handle_authenticate :: "environment \<Rightarrow> session_id \<Rightarrow> string \<Rightarrow> chat_server \<Rightarrow> chat_server" where
  "handle_authenticate E s pw st =
     (if check_password pw st
      then reply s AuthAccepted (update_session s (authenticated_update (\<lambda>_. True)) st)
      else hang_up E s (reply s AuthRejected st))"

definition IDENTITY_CHALLENGE_BYTES :: nat where
  "IDENTITY_CHALLENGE_BYTES = 32"

definition handle_identify :: "environment \<Rightarrow> session_id \<Rightarrow> string \<Rightarrow> string \<Rightarrow> chat_server \<Rightarrow> chat_server" where
  "handle_identify E s nick key st =
     (if nickname (sess st s) \<noteq> [] then reply s (JoinRejected ''Already joined'') st
      else case identity_available_for nick key st of
        Some identity_error \<Rightarrow> hang_up E s (reply s (JoinRejected identity_error) st)
      | None \<Rightarrow>
          if is_banned nick st then hang_up E s (reply s Banned st)
          else if nickname_taken nick st then hang_up E s (reply s NicknameTaken st)
          else let challenge = random_hex (crypto E) (calls (effects st)) IDENTITY_CHALLENGE_BYTES;
                   st = effects_update tick st;
                   st = update_session s (\<lambda>c. c\<lparr>pending_nickname := nick,
                          pending_public_key_hex := key, pending_challenge := challenge\<rparr>) st
               in reply s (Challenge challenge) st)"

definition handle_proof :: "environment \<Rightarrow> session_id \<Rightarrow> string \<Rightarrow> chat_server \<Rightarrow> chat_server" where
  "handle_proof E s signature st =
     (let c = sess st s; nick = pending_nickname c; key = pending_public_key_hex c in
      if nickname c \<noteq> [] then reply s (JoinRejected ''Already joined'') st
      else if nick = [] \<or> key = [] \<or> pending_challenge c = []
      then hang_up E s (reply s (JoinRejected ''Identify before sending proof'') st)
      else if \<not> verify_identity_signature (crypto E) key (pending_challenge c) signature
      then hang_up E s (reply s (JoinRejected ''Identity proof failed'') st)
      else if is_banned nick st then hang_up E s (reply s Banned st)
      else if nickname_taken nick st then hang_up E s (reply s NicknameTaken st)
      else case bind_identity nick key st of
        (False, st) \<Rightarrow> hang_up E s (reply s (JoinRejected ''Identity registration failed'') st)
      | (True, st) \<Rightarrow>
          let st = update_session s (\<lambda>c. c\<lparr>nickname := nick, pending_nickname := [],
                     pending_public_key_hex := [], pending_challenge := []\<rparr>) st;
              st = reply s (IdentityAccepted (identity_fingerprint key)) st;
              st = reply s JoinAccepted st
          in admit_to_default_room E s st)"

text \<open>An operation that reports an error sends it to the client.\<close>

definition or_error :: "session_id \<Rightarrow> string + chat_server \<Rightarrow> chat_server \<Rightarrow> chat_server" where
  "or_error s r st = (case r of Inl error \<Rightarrow> reply s (ServerError error) st | Inr st' \<Rightarrow> st')"

definition handle_leave :: "environment \<Rightarrow> session_id \<Rightarrow> chat_server \<Rightarrow> chat_server" where
  "handle_leave E s st =
     (if nickname (sess st s) = [] then reply s (Text ''[system] Ignored leave request before joining'') st
      else or_error s (leave_room E s st) st)"

definition handle_disconnect :: "environment \<Rightarrow> session_id \<Rightarrow> chat_server \<Rightarrow> chat_server" where
  "handle_disconnect E s st = stop_reading s (effects_update (close_session s) (disconnect E s True st))"

definition handle_list_rooms :: "session_id \<Rightarrow> chat_server \<Rightarrow> chat_server" where
  "handle_list_rooms s st =
     (if nickname (sess st s) = [] then reply s (ServerError ''Join before listing rooms'') st
      else send_room_list s st)"

definition handle_create :: "environment \<Rightarrow> session_id \<Rightarrow> string \<Rightarrow> chat_server \<Rightarrow> chat_server" where
  "handle_create E s name st =
     (if nickname (sess st s) = [] then reply s (ServerError ''Join before creating rooms'') st
      else or_error s (create_room E s name st) st)"

definition handle_join_room :: "environment \<Rightarrow> session_id \<Rightarrow> string \<Rightarrow> chat_server \<Rightarrow> chat_server" where
  "handle_join_room E s name st =
     (if nickname (sess st s) = [] then reply s (ServerError ''Join before switching rooms'') st
      else or_error s (join_room E s name st) st)"

definition handle_topic :: "environment \<Rightarrow> session_id \<Rightarrow> string option \<Rightarrow> chat_server \<Rightarrow> chat_server" where
  "handle_topic E s topic st =
     (if nickname (sess st s) = [] then reply s (ServerError ''Join before viewing a topic'') st
      else case topic of
             None \<Rightarrow> send_topic s st
           | Some t \<Rightarrow> or_error s (set_topic E s t st) st)"

definition rate_limit_text :: string where
  "rate_limit_text = ''[system] Slow down - message rate limit is ''
     @ nat_to_string RATE_LIMIT_MESSAGES @ '' per minute''"

definition handle_chat :: "environment \<Rightarrow> session_id \<Rightarrow> string \<Rightarrow> chat_server \<Rightarrow> chat_server" where
  "handle_chat E s body st =
     (if nickname (sess st s) = [] then reply s (Text ''[system] Join before sending messages'') st
      else case consume_message_quota E s st of
        (False, st) \<Rightarrow> reply s (Text rate_limit_text) st
      | (True, st) \<Rightarrow>
          if \<not> is_valid_chat_message body then reply s (Text ''[system] Invalid message text'') st
          else let nick = nickname (sess st s);
                   line = ''['' @ timestamp E (calls (effects st)) @ ''] '' @ nick @ '': '' @ body
               in broadcast_room E (active_room_id (sess st s)) line nick (effects_update tick st))"

definition handle_whisper :: "environment \<Rightarrow> session_id \<Rightarrow> string \<Rightarrow> string \<Rightarrow> chat_server \<Rightarrow> chat_server" where
  "handle_whisper E s target body st =
     (if nickname (sess st s) = [] then reply s (Text ''[system] Join before sending messages'') st
      else case consume_message_quota E s st of
        (False, st) \<Rightarrow> reply s (Text rate_limit_text) st
      | (True, st) \<Rightarrow>
          if \<not> utils_is_valid_nickname target \<or> \<not> is_valid_chat_message body
          then reply s (Text ''[system] Invalid whisper target or message'') st
          else snd (send_private_from E s target body st))"

definition handle_kick :: "environment \<Rightarrow> session_id \<Rightarrow> string \<Rightarrow> string \<Rightarrow> chat_server \<Rightarrow> chat_server" where
  "handle_kick E s nick reason st =
     (if nickname (sess st s) = [] then reply s (ServerError ''Join before moderating a room'') st
      else or_error s (kick_from E s nick reason st) st)"

text \<open>The messages that need a finished handshake and, with a password, authentication.\<close>

definition handle_authorised :: "environment \<Rightarrow> session_id \<Rightarrow> client_message \<Rightarrow> chat_server \<Rightarrow> chat_server" where
  "handle_authorised E s message st =
     (case message of
        Identify nick key \<Rightarrow> handle_identify E s nick key st
      | IdentityProof signature \<Rightarrow> handle_proof E s signature st
      | Leave \<Rightarrow> handle_leave E s st
      | Disconnect \<Rightarrow> handle_disconnect E s st
      | ListRooms \<Rightarrow> handle_list_rooms s st
      | CreateRoom name \<Rightarrow> handle_create E s name st
      | JoinRoom name \<Rightarrow> handle_join_room E s name st
      | TopicRequest topic \<Rightarrow> handle_topic E s topic st
      | Chat body \<Rightarrow> handle_chat E s body st
      | Whisper target body \<Rightarrow> handle_whisper E s target body st
      | KickRequest nick reason \<Rightarrow> handle_kick E s nick reason st
      | _ \<Rightarrow> reply s (Text ''[system] Ignored message in the current session state'') st)"

definition handle_message :: "environment \<Rightarrow> session_id \<Rightarrow> client_message \<Rightarrow> chat_server \<Rightarrow> chat_server" where
  "handle_message E s message st =
     (case message of
        Hello version \<Rightarrow> handle_hello s version st
      | _ \<Rightarrow>
          if \<not> protocol_negotiated (sess st s)
          then hang_up E s (reply s (ServerError ''Protocol handshake required'') st)
          else case message of
            Authenticate pw \<Rightarrow> handle_authenticate E s pw st
          | _ \<Rightarrow>
              if has_password st \<and> \<not> authenticated (sess st s) then reply s AuthRequired st
              else handle_authorised E s message st)"

definition handle_line :: "environment \<Rightarrow> session_id \<Rightarrow> string \<Rightarrow> chat_server \<Rightarrow> chat_server" where
  "handle_line E s line st =
     (case decode_client_frame line of
        Failure error detail \<Rightarrow>
          let st = reply s (ServerError (''Invalid client frame: '' @ detail)) st
          in if error = UnsupportedVersion then hang_up E s st else st
      | Success message \<Rightarrow> handle_message E s message st)"

section \<open>The life of a session\<close>

definition accept :: "chat_server \<Rightarrow> chat_server" where
  "accept st =
     (if \<not> acceptor_open st then st
      else let s = next_session st;
               st = st\<lparr>next_session := Suc s, sess := (sess st)(s := fresh_session)\<rparr>;
               st = effects_update (ios_update (\<lambda>f. f(s := initial_io))) st
           in join s st)"

text \<open>The completion of \<open>async_server_handshake\<close>, without and with an error.\<close>

definition handshake_done :: "session_id \<Rightarrow> chat_server \<Rightarrow> chat_server" where
  "handshake_done s st =
     update_session s (reading_update (\<lambda>_. True)) (reply s (ServerHello VERSION) st)"

definition handshake_failed :: "environment \<Rightarrow> session_id \<Rightarrow> chat_server \<Rightarrow> chat_server" where
  "handshake_failed E s st =
     effects_update (ios_update (\<lambda>f. f(s := stream_close (f s)))) (disconnect E s False st)"

definition read_failed :: "environment \<Rightarrow> session_id \<Rightarrow> chat_server \<Rightarrow> chat_server" where
  "read_failed E s st =
     stop_reading s (disconnect E s (\<not> suppress_leave_notice (ios (effects st) s)) st)"

section \<open>The steps of the server\<close>

datatype host_event =
    StartLocalUser
  | RegisterLocal string string
  | LocalSay string
  | LocalWhisper string string
  | LocalCreate string
  | LocalJoin string
  | LocalLeave
  | LocalTopic string
  | LocalRooms
  | AdminCreate string
  | AdminTopic string string
  | AdminKick string string string
  | KickUser string string
  | BanUser string string
  | UnbanUser string
  | ServerBroadcast string
  | Display app_event
  | StopServer

definition keep_on_error :: "chat_server \<Rightarrow> string + chat_server \<Rightarrow> chat_server" where
  "keep_on_error st r = (case r of Inl _ \<Rightarrow> st | Inr st' \<Rightarrow> st')"

fun host_step :: "environment \<Rightarrow> host_event \<Rightarrow> chat_server \<Rightarrow> chat_server" where
  "host_step E StartLocalUser st = start_local_user st"
| "host_step E (RegisterLocal nick key) st = snd (register_local_identity nick key st)"
| "host_step E (LocalSay msg) st = broadcast E msg st"
| "host_step E (LocalWhisper target msg) st = snd (send_private E (local_nickname st) target msg True st)"
| "host_step E (LocalCreate name) st = keep_on_error st (create_local_room E name st)"
| "host_step E (LocalJoin name) st = keep_on_error st (join_local_room E name st)"
| "host_step E LocalLeave st = keep_on_error st (leave_local_room E st)"
| "host_step E (LocalTopic topic) st = keep_on_error st (set_local_topic E topic st)"
| "host_step E LocalRooms st = show_room_list_local st"
| "host_step E (AdminCreate name) st = keep_on_error st (create_admin_room E name st)"
| "host_step E (AdminTopic room topic) st = keep_on_error st (set_admin_topic E room topic st)"
| "host_step E (AdminKick room nick reason) st = keep_on_error st (kick_user_in_named_room E room nick reason st)"
| "host_step E (KickUser nick reason) st = snd (kick_user E nick reason st)"
| "host_step E (BanUser nick reason) st = ban_user E nick reason st"
| "host_step E (UnbanUser nick) st = snd (unban_user nick st)"
| "host_step E (ServerBroadcast msg) st = broadcast_server E msg st"
| "host_step E (Display a) st = effects_update (on_ui (app_step a)) st"
| "host_step E StopServer st = stop st"

datatype server_event =
    Accept
  | HandshakeDone session_id
  | HandshakeFailed session_id
  | Line session_id string
  | ReadFailed session_id
  | TaskRun session_id
  | WriteCompleted session_id
  | WriteError session_id
  | Host host_event

definition run_posted :: "session_io \<Rightarrow> session_io" where
  "run_posted io = (case posted io of [] \<Rightarrow> io | t # ts \<Rightarrow> run_task t (io\<lparr>posted := ts\<rparr>))"

fun server_step :: "environment \<Rightarrow> server_event \<Rightarrow> chat_server \<Rightarrow> chat_server" where
  "server_step E Accept st = accept st"
| "server_step E (HandshakeDone s) st = handshake_done s st"
| "server_step E (HandshakeFailed s) st = handshake_failed E s st"
| "server_step E (Line s line) st = handle_line E s line st"
| "server_step E (ReadFailed s) st = read_failed E s st"
| "server_step E (TaskRun s) st = effects_update (ios_update (\<lambda>f. f(s := run_posted (f s)))) st"
| "server_step E (WriteCompleted s) st = effects_update (ios_update (\<lambda>f. f(s := write_done (f s)))) st"
| "server_step E (WriteError s) st = effects_update (ios_update (\<lambda>f. f(s := write_failed (f s)))) st"
| "server_step E (Host e) st = host_step E e st"

text \<open>When an event can happen: handlers of a session run while their operation is pending.\<close>

fun event_enabled :: "server_event \<Rightarrow> chat_server \<Rightarrow> bool" where
  "event_enabled (HandshakeDone s) st = (s < next_session st \<and> \<not> reading (sess st s))"
| "event_enabled (HandshakeFailed s) st = (s < next_session st \<and> \<not> reading (sess st s))"
| "event_enabled (Line s line) st = reading (sess st s)"
| "event_enabled (ReadFailed s) st = reading (sess st s)"
| "event_enabled (TaskRun s) st = (posted (ios (effects st) s) \<noteq> [])"
| "event_enabled (WriteCompleted s) st = in_flight (ios (effects st) s)"
| "event_enabled (WriteError s) st = in_flight (ios (effects st) s)"
| "event_enabled _ st = True"

end
