(* ===== verification/Server_Invariant.thy ===== *)
theory Server_Invariant
  imports Client_Session
begin

text \<open>
  The invariant of the server: what holds of its rooms, members, sessions, nicknames and
  identities after every sequence of events, in whatever order clients, the host and the
  network produce them. The first sections say which part of the state each operation
  leaves alone and how it changes the rest; the invariant is then checked event by event.
\<close>

section \<open>What the operations leave alone\<close>

lemma map_modify_absent: "map_find m k = None \<Longrightarrow> map_modify k f m = m"
  by (induction m) (auto simp: map_modify_def split: if_splits)

lemma rooms_broadcast_room [simp]:
  "rooms (broadcast_room E rid msg n st) =
     map_modify rid (\<lambda>r. r\<lparr>rm_recent := push_bounded (history_limit st) msg (rm_recent r)\<rparr>) (rooms st)"
  by (simp add: broadcast_room_def Let_def map_modify_absent split: option.split)

lemma broadcast_room_frame [simp]:
  "password (broadcast_room E rid msg n st) = password st"
  "local_nickname (broadcast_room E rid msg n st) = local_nickname st"
  "history_limit (broadcast_room E rid msg n st) = history_limit st"
  "has_storage (broadcast_room E rid msg n st) = has_storage st"
  "acceptor_open (broadcast_room E rid msg n st) = acceptor_open st"
  "sessions (broadcast_room E rid msg n st) = sessions st"
  "sess (broadcast_room E rid msg n st) = sess st"
  "next_session (broadcast_room E rid msg n st) = next_session st"
  "next_room_id (broadcast_room E rid msg n st) = next_room_id st"
  "local_room_id (broadcast_room E rid msg n st) = local_room_id st"
  "banned_nicks (broadcast_room E rid msg n st) = banned_nicks st"
  "identities (broadcast_room E rid msg n st) = identities st"
  by (simp_all add: broadcast_room_def Let_def split: option.split)

text \<open>Operations that only produce output change nothing but \<open>effects\<close>.\<close>

lemma broadcast_users_effects: "\<exists>g. broadcast_users rid st = effects_update g st"
  by (auto simp: broadcast_users_def Let_def split: option.split intro: exI [of _ "\<lambda>x. x"])

lemma broadcast_room_lists_effects: "\<exists>g. broadcast_room_lists st = effects_update g st"
  by (auto simp: broadcast_room_lists_def Let_def)

lemma persist_room_effects: "\<exists>g. persist_room E rid st = effects_update g st"
  by (auto simp: persist_room_def split: option.split intro: exI [of _ "\<lambda>x. x"])

lemma effects_frame:
  assumes "\<exists>g. st' = effects_update g (st :: chat_server)"
  shows "password st' = password st" "local_nickname st' = local_nickname st"
    "history_limit st' = history_limit st" "has_storage st' = has_storage st" "acceptor_open st' = acceptor_open st"
    "sessions st' = sessions st" "sess st' = sess st" "next_session st' = next_session st"
    "rooms st' = rooms st" "next_room_id st' = next_room_id st" "local_room_id st' = local_room_id st"
    "banned_nicks st' = banned_nicks st" "identities st' = identities st"
  using assms by auto

lemmas output_frames [simp] =
  effects_frame [OF broadcast_users_effects] effects_frame [OF broadcast_room_lists_effects]
  effects_frame [OF persist_room_effects]

section \<open>The invariant\<close>

definition rooms_inv :: "nat \<Rightarrow> room_id \<Rightarrow> (room_id \<times> room) list \<Rightarrow> bool" where
  "rooms_inv limit next rms \<longleftrightarrow>
     ascending (map fst rms) \<and>
     (\<forall>(rid, r) \<in> set rms. rid = rm_id r \<and> rid \<noteq> 0 \<and> rid < next \<and> is_valid_room_name (rm_name r) \<and>
        is_valid_room_topic (rm_topic r) \<and> length (rm_recent r) \<le> limit) \<and>
     distinct (map (\<lambda>(rid, r). normalized_room_name (rm_name r)) rms) \<and>
     DEFAULT_ROOM_ID \<in> fst ` set rms \<and>
     length rms \<le> MAX_ROOMS \<and> unat next + (MAX_ROOMS - length rms) < 2 ^ 64 \<and> 1 \<le> limit"

definition members_inv :: "(room_id \<times> room) list \<Rightarrow> (session_id \<Rightarrow> client_session) \<Rightarrow> bool" where
  "members_inv rms ss \<longleftrightarrow>
     (\<forall>(rid, r) \<in> set rms. ascending (rm_members r) \<and>
        (\<forall>m \<in> set (rm_members r). active_room_id (ss m) = rid \<and> nickname (ss m) \<noteq> []))"

definition nicknames_inv :: "session_id list \<Rightarrow> string \<Rightarrow> (session_id \<Rightarrow> client_session) \<Rightarrow> bool" where
  "nicknames_inv present local_nick ss \<longleftrightarrow> ascending present \<and>
     (\<forall>s \<in> set present. \<forall>t \<in> set present. nickname (ss s) = nickname (ss t) \<and> nickname (ss s) \<noteq> [] \<longrightarrow> s = t) \<and>
     (\<forall>s \<in> set present. nickname (ss s) \<noteq> [] \<longrightarrow> nickname (ss s) \<noteq> local_nick)"

definition admitted :: "string \<Rightarrow> (string \<times> string) list \<Rightarrow> client_session \<Rightarrow> bool" where
  "admitted pw ids c \<longleftrightarrow> protocol_negotiated c \<and> (pw \<noteq> [] \<longrightarrow> authenticated c) \<and>
     is_valid_nickname (nickname c) \<and> map_find ids (nickname c) \<noteq> None"

definition session_inv :: "string \<Rightarrow> (string \<times> string) list \<Rightarrow> client_session \<Rightarrow> bool" where
  "session_inv pw ids c \<longleftrightarrow>
     (nickname c \<noteq> [] \<longrightarrow> admitted pw ids c) \<and>
     (pending_nickname c \<noteq> [] \<longrightarrow> protocol_negotiated c \<and> (pw \<noteq> [] \<longrightarrow> authenticated c) \<and>
        is_valid_nickname (pending_nickname c) \<and> is_hex (pending_public_key_hex c) 64)"

definition server_inv :: "chat_server \<Rightarrow> bool" where
  "server_inv st \<longleftrightarrow>
     rooms_inv (history_limit st) (next_room_id st) (rooms st) \<and>
     members_inv (rooms st) (sess st) \<and>
     nicknames_inv (sessions st) (local_nickname st) (sess st) \<and>
     (\<forall>s. session_inv (password st) (identities st) (sess st s)) \<and>
     (\<forall>s \<ge> next_session st. sess st s = fresh_session) \<and>
     (\<forall>s \<in> set (sessions st). s < next_session st) \<and>
     ascending (map fst (identities st)) \<and> ascending (banned_nicks st) \<and>
     (local_room_id st = 0 \<or> local_room_id st \<in> fst ` set (rooms st))"

lemma server_inv_effects [simp]: "server_inv (effects_update g st) = server_inv st"
  by (simp add: server_inv_def)

lemma server_inv_output:
  "server_inv (broadcast_users rid st) = server_inv st"
  "server_inv (broadcast_room_lists st) = server_inv st"
  "server_inv (persist_room E rid st) = server_inv st"
  by (simp_all add: server_inv_def)

declare server_inv_output [simp]

section \<open>Rooms\<close>

lemma set_map_modify: "set (map_modify k f m) = (\<lambda>(k', v). (k', if k' = k then f v else v)) ` set m"
  by (simp add: map_modify_def)

lemma keys_map_modify: "fst ` set (map_modify k f m) = fst ` set m"
  by (force simp: set_map_modify)

lemma in_map_modify:
  "(k', v') \<in> set (map_modify k f m) \<longleftrightarrow> (\<exists>v. (k', v) \<in> set m \<and> v' = (if k' = k then f v else v))"
  unfolding set_map_modify by (force simp: image_iff)

lemma members_invI:
  assumes "\<And>rid r. (rid, r) \<in> set rms \<Longrightarrow> ascending (rm_members r)"
    and "\<And>rid r m. (rid, r) \<in> set rms \<Longrightarrow> m \<in> set (rm_members r) \<Longrightarrow>
      active_room_id (ss m) = rid \<and> nickname (ss m) \<noteq> []"
  shows "members_inv rms ss"
  using assms by (fastforce simp: members_inv_def)

lemma members_invD:
  assumes "members_inv rms ss" "(rid, r) \<in> set rms"
  shows "ascending (rm_members r)"
    and "m \<in> set (rm_members r) \<Longrightarrow> active_room_id (ss m) = rid"
    and "m \<in> set (rm_members r) \<Longrightarrow> nickname (ss m) \<noteq> []"
  using assms by (auto simp: members_inv_def)

lemma rooms_inv_modify:
  assumes "rooms_inv limit nxt rms"
    and "\<And>r. rm_id (f r) = rm_id r" "\<And>r. rm_name (f r) = rm_name r"
    and "\<And>r. is_valid_room_topic (rm_topic r) \<Longrightarrow> is_valid_room_topic (rm_topic (f r))"
    and "\<And>r. length (rm_recent r) \<le> limit \<Longrightarrow> length (rm_recent (f r)) \<le> limit"
  shows "rooms_inv limit nxt (map_modify k f rms)"
proof -
  have "map (\<lambda>(rid, r). normalized_room_name (rm_name r)) (map_modify k f rms) =
      map (\<lambda>(rid, r). normalized_room_name (rm_name r)) rms"
    by (auto simp: map_modify_def assms(3))
  with assms show ?thesis
    by (auto simp: rooms_inv_def keys_map_modify) (auto simp: set_map_modify)
qed

lemma members_inv_modify:
  assumes "members_inv rms ss" "\<And>r. rm_members (f r) = rm_members r"
  shows "members_inv (map_modify k f rms) ss"
  by (rule members_invI) (auto simp: in_map_modify assms(2) dest: members_invD [OF assms(1)] split: if_splits)

lemma members_inv_session:
  assumes "members_inv rms ss" "active_room_id c = active_room_id (ss s)"
    "nickname (ss s) \<noteq> [] \<Longrightarrow> nickname c \<noteq> []"
  shows "members_inv rms (ss(s := c))"
  by (rule members_invI) (use assms(2,3) in \<open>auto dest: members_invD [OF assms(1)]\<close>)

lemma members_inv_leave:
  assumes "members_inv rms ss" "old = active_room_id (ss s)"
  shows "members_inv (map_modify old (\<lambda>r. r\<lparr>rm_members := set_erase s (rm_members r)\<rparr>) rms)
     (ss(s := (ss s)\<lparr>active_room_id := a\<rparr>))"
proof (rule members_invI)
  fix rid r
  assume "(rid, r) \<in> set (map_modify old (\<lambda>r. r\<lparr>rm_members := set_erase s (rm_members r)\<rparr>) rms)"
  then obtain v where v: "(rid, v) \<in> set rms"
    and r: "r = (if rid = old then v\<lparr>rm_members := set_erase s (rm_members v)\<rparr> else v)"
    by (auto simp: in_map_modify)
  note old = members_invD [OF assms(1) v]
  show "ascending (rm_members r)" using r old(1) by (simp add: ascending_set_erase)
  fix m assume m: "m \<in> set (rm_members r)"
  then have "m \<in> set (rm_members v)" "m \<noteq> s"
    using r old(2) assms(2) by (auto split: if_splits)
  with old(2,3) show "active_room_id ((ss(s := (ss s)\<lparr>active_room_id := a\<rparr>)) m) = rid \<and>
      nickname ((ss(s := (ss s)\<lparr>active_room_id := a\<rparr>)) m) \<noteq> []" by simp
qed

lemma members_inv_enter:
  assumes "members_inv rms ss" "active_room_id (ss s) = target" "nickname (ss s) \<noteq> []"
  shows "members_inv (map_modify target (\<lambda>r. r\<lparr>rm_members := set_insert s (rm_members r)\<rparr>) rms) ss"
proof (rule members_invI)
  fix rid r
  assume "(rid, r) \<in> set (map_modify target (\<lambda>r. r\<lparr>rm_members := set_insert s (rm_members r)\<rparr>) rms)"
  then obtain v where v: "(rid, v) \<in> set rms"
    and r: "r = (if rid = target then v\<lparr>rm_members := set_insert s (rm_members v)\<rparr> else v)"
    by (auto simp: in_map_modify)
  note old = members_invD [OF assms(1) v]
  show "ascending (rm_members r)" using r old(1) by (simp add: ascending_set_insert)
  fix m assume "m \<in> set (rm_members r)"
  with r old(2,3) assms(2,3) show "active_room_id (ss m) = rid \<and> nickname (ss m) \<noteq> []"
    by (auto split: if_splits)
qed

text \<open>Posting a message to a room keeps the invariant.\<close>

lemma server_inv_broadcast_room [simp]:
  assumes "server_inv st"
  shows "server_inv (broadcast_room E rid msg n st)"
  using assms
  by (auto simp: server_inv_def keys_map_modify intro!: rooms_inv_modify members_inv_modify length_push_bounded)


section \<open>Sessions\<close>

lemma server_invD:
  assumes "server_inv st"
  shows "rooms_inv (history_limit st) (next_room_id st) (rooms st)"
    and "members_inv (rooms st) (sess st)"
    and "nicknames_inv (sessions st) (local_nickname st) (sess st)"
    and "session_inv (password st) (identities st) (sess st s)"
    and "next_session st \<le> s \<Longrightarrow> sess st s = fresh_session"
    and "s \<in> set (sessions st) \<Longrightarrow> s < next_session st"
    and "ascending (map fst (identities st))" "ascending (banned_nicks st)"
    and "local_room_id st = 0 \<or> local_room_id st \<in> fst ` set (rooms st)"
  using assms by (auto simp: server_inv_def)

lemma rooms_invD:
  assumes "rooms_inv limit nxt rms"
  shows "ascending (map fst rms)" "DEFAULT_ROOM_ID \<in> fst ` set rms" "length rms \<le> MAX_ROOMS"
    and "(rid, r) \<in> set rms \<Longrightarrow> rid = rm_id r \<and> rid \<noteq> 0 \<and> rid < nxt \<and> is_valid_room_name (rm_name r) \<and>
        is_valid_room_topic (rm_topic r) \<and> length (rm_recent r) \<le> limit"
  using assms by (auto simp: rooms_inv_def)

lemma known_session: "server_inv st \<Longrightarrow> nickname (sess st s) \<noteq> [] \<Longrightarrow> s < next_session st"
  using server_invD(5) [of st s] by (cases "s < next_session st") (auto simp: fresh_session_def)

lemma reading_session: "server_inv st \<Longrightarrow> reading (sess st s) \<Longrightarrow> s < next_session st"
  using server_invD(5) [of st s] by (cases "s < next_session st") (auto simp: fresh_session_def)

lemma nicknames_inv_same:
  "(\<And>t. nickname (ss' t) = nickname (ss t)) \<Longrightarrow> nicknames_inv p l ss' = nicknames_inv p l ss"
  by (simp add: nicknames_inv_def)

lemma server_inv_session:
  assumes "server_inv st" "s < next_session st"
    and "active_room_id c = active_room_id (sess st s)" "nickname c = nickname (sess st s)"
    and "session_inv (password st) (identities st) c"
  shows "server_inv (st\<lparr>sess := (sess st)(s := c)\<rparr>)"
proof -
  have "nicknames_inv (sessions st) (local_nickname st) ((sess st)(s := c))"
    using server_invD(3) [OF assms(1)] nicknames_inv_same [of "(sess st)(s := c)" "sess st"] assms(4) by simp
  moreover have "members_inv (rooms st) ((sess st)(s := c))"
    using server_invD(2) [OF assms(1)] by (rule members_inv_session) (use assms in auto)
  ultimately show ?thesis using assms by (simp add: server_inv_def)
qed

lemma session_inv_keeps:
  "session_inv pw ids c \<Longrightarrow> session_inv pw ids (c\<lparr>active_room_id := a\<rparr>)"
  "session_inv pw ids c \<Longrightarrow> session_inv pw ids (c\<lparr>reading := b\<rparr>)"
  "session_inv pw ids c \<Longrightarrow> session_inv pw ids (c\<lparr>recent_messages_by_room := q\<rparr>)"
  "session_inv pw ids c \<Longrightarrow> session_inv pw ids (c\<lparr>authenticated := True\<rparr>)"
  "session_inv pw ids c \<Longrightarrow> session_inv pw ids (c\<lparr>protocol_negotiated := True\<rparr>)"
  by (auto simp: session_inv_def admitted_def)

lemma nicknames_inv_erase: "nicknames_inv p l ss \<Longrightarrow> nicknames_inv (set_erase s p) l ss"
  unfolding nicknames_inv_def by (simp add: ascending_set_erase) blast

lemma nicknames_inv_active:
  "nicknames_inv p l ss \<Longrightarrow> nicknames_inv p l (ss(s := (ss s)\<lparr>active_room_id := a\<rparr>))"
  by (subst nicknames_inv_same [of _ ss]) auto

text \<open>A session leaves its room: taken out of the members, its active room cleared or changed.\<close>

lemma server_inv_leave:
  assumes "server_inv st" "s < next_session st"
  shows "server_inv (erase_member (active_room_id (sess st s)) s (set_active_room_id s a st))"
proof -
  let ?old = "active_room_id (sess st s)"
  have "rooms_inv (history_limit st) (next_room_id st)
      (map_modify ?old (\<lambda>r. r\<lparr>rm_members := set_erase s (rm_members r)\<rparr>) (rooms st))"
    using server_invD(1) [OF assms(1)] by (rule rooms_inv_modify) simp_all
  with assms show ?thesis
    by (auto simp: server_inv_def erase_member_def set_active_room_id_def keys_map_modify
        session_inv_keeps intro!: members_inv_leave nicknames_inv_active)
qed

lemma server_inv_enter:
  assumes "server_inv st" "active_room_id (sess st s) = rid" "nickname (sess st s) \<noteq> []"
  shows "server_inv (insert_member rid s st)"
proof -
  have "rooms_inv (history_limit st) (next_room_id st)
      (map_modify rid (\<lambda>r. r\<lparr>rm_members := set_insert s (rm_members r)\<rparr>) (rooms st))"
    using server_invD(1) [OF assms(1)] by (rule rooms_inv_modify) simp_all
  with assms show ?thesis
    by (auto simp: server_inv_def insert_member_def keys_map_modify intro!: members_inv_enter)
qed

lemma server_inv_sessions_erase:
  "server_inv st \<Longrightarrow> server_inv (st\<lparr>sessions := set_erase s (sessions st)\<rparr>)"
  by (auto simp: server_inv_def intro: nicknames_inv_erase)

lemma member_ops_frame [simp]:
  "sess (erase_member rid s st) = sess st" "sess (insert_member rid s st) = sess st"
  "sessions (erase_member rid s st) = sessions st" "sessions (insert_member rid s st) = sessions st"
  "sessions (set_active_room_id s a st) = sessions st"
  "rooms (set_active_room_id s a st) = rooms st"
  "nickname (sess (set_active_room_id s a st) t) = nickname (sess st t)"
  "active_room_id (sess (set_active_room_id s a st) s) = a"
  by (simp_all add: erase_member_def insert_member_def set_active_room_id_def)

lemma erase_insert_active:
  "set_active_room_id s a (insert_member rid s (erase_member old s st)) =
     insert_member rid s (erase_member old s (set_active_room_id s a st))"
  by (simp add: erase_member_def insert_member_def set_active_room_id_def)

lemma server_inv_move:
  assumes "server_inv st" "nickname (sess st s) \<noteq> []"
  shows "server_inv (move_session_to_room E s target announce st)"
proof -
  let ?st = "set_active_room_id s target (insert_member target s (erase_member (active_room_id (sess st s)) s st))"
  have "server_inv ?st"
    unfolding erase_insert_active
    by (rule server_inv_enter [OF server_inv_leave]) (use assms known_session in auto)
  then show ?thesis using assms(1)
    by (simp add: move_session_to_room_def Let_def split: option.split)
qed

lemma server_inv_disconnect:
  assumes "server_inv st" "s < next_session st"
  shows "server_inv (disconnect E s announce st)"
proof -
  let ?st = "st\<lparr>sessions := set_erase s (sessions st)\<rparr>"
  have inv: "server_inv ?st" "s < next_session ?st"
    using assms server_inv_sessions_erase by auto
  have zero: "server_inv (set_active_room_id s 0 ?st)" if "active_room_id (sess st s) = 0"
    unfolding set_active_room_id_def
    using inv that server_invD(4) [OF inv(1)] by (intro server_inv_session) (simp_all add: session_inv_keeps)
  have "server_inv (erase_member (active_room_id (sess st s)) s (set_active_room_id s 0 ?st))"
    using server_inv_leave [OF inv] by simp
  with zero show ?thesis by (simp add: disconnect_def Let_def)
qed


section \<open>New rooms\<close>

lemma distinct_map_assign:
  assumes "map_find m k = None" "distinct (map f m)" "f (k, v) \<notin> f ` set m"
  shows "distinct (map f (map_assign k v m))"
  using assms
proof (induction m)
  case (Cons a m)
  obtain k' v' where a: "a = (k', v')" by (cases a)
  with Cons.prems have new: "k' \<noteq> k" "map_find m k = None" "distinct (map f m)" "f (k, v) \<notin> f ` set m"
    "f (k', v') \<notin> f ` set m" "f (k, v) \<noteq> f (k', v')"
    by (auto split: if_splits)
  with Cons.IH have "distinct (map f (map_assign k v m))" by blast
  moreover have "f (k', v') \<notin> f ` set (map_assign k v m)"
    using new set_assign_new [OF new(2), of v] by auto
  ultimately show ?case using a new Cons.prems by simp
qed simp

lemma next_room_id_fresh:
  assumes "rooms_inv limit nxt rms" "length rms < MAX_ROOMS"
  shows "map_find rms nxt = None" "nxt < nxt + 1" "nxt \<noteq> 0" "unat (nxt + 1) = unat nxt + 1"
proof -
  show "map_find rms nxt = None"
    using rooms_invD(4) [OF assms(1)] by (fastforce simp: map_of_eq_None_iff)
  have room: "unat nxt + 1 < 2 ^ 64" using assms by (auto simp: rooms_inv_def)
  then show inc: "unat (nxt + 1) = unat nxt + 1" by (simp add: unat_word_ariths)
  then show "nxt < nxt + 1" by (simp add: word_less_nat_alt)
  obtain r where "(DEFAULT_ROOM_ID, r) \<in> set rms" using rooms_invD(2) [OF assms(1)] by auto
  then have "DEFAULT_ROOM_ID < nxt" using rooms_invD(4) [OF assms(1)] by blast
  then show "nxt \<noteq> 0" by auto
qed

lemma check_new_room_None:
  "check_new_room name st = None \<longleftrightarrow>
     is_valid_room_name name \<and> length (rooms st) < MAX_ROOMS \<and> find_room_by_name name st = None"
  by (cases "find_room_by_name name st") (auto simp: check_new_room_def)

lemma find_room_by_name_None:
  "find_room_by_name name st = None \<longleftrightarrow>
     (\<forall>(rid, r) \<in> set (rooms st). normalized_room_name (rm_name r) \<noteq> normalized_room_name name)"
  by (auto simp: find_room_by_name_def Let_def find_None_iff)

lemma rooms_inv_add:
  assumes "rooms_inv limit nxt rms" "length rms < MAX_ROOMS" "is_valid_room_name name"
    and "\<forall>(rid, r) \<in> set rms. normalized_room_name (rm_name r) \<noteq> normalized_room_name name"
  shows "rooms_inv limit (nxt + 1) (map_assign nxt \<lparr>rm_id = nxt, rm_name = name, rm_topic = [],
     rm_owner = owner, rm_recent = [], rm_members = []\<rparr> rms)" (is "rooms_inv _ _ (map_assign nxt ?room rms)")
proof -
  note fresh = next_room_id_fresh [OF assms(1,2)]
  have "distinct (map (\<lambda>(rid, r). normalized_room_name (rm_name r)) (map_assign nxt ?room rms))"
    using assms(1,4) fresh(1) by (intro distinct_map_assign) (auto simp: rooms_inv_def)
  moreover have "unat (nxt + 1) + (MAX_ROOMS - length (map_assign nxt ?room rms)) < 2 ^ 64"
    using assms(1,2) fresh(1,4) by (auto simp: rooms_inv_def length_assign_new)
  moreover have "rid < nxt + 1" if "(rid, r) \<in> set rms" for rid r
    using rooms_invD(4) [OF assms(1) that] fresh(2) by auto
  ultimately show ?thesis
    using assms fresh(1,2,3)
    by (auto simp: rooms_inv_def set_assign_new length_assign_new ascending_assign is_valid_room_topic_def)
qed

lemma server_inv_add_room:
  assumes "server_inv st" "check_new_room name st = None"
  shows "server_inv (add_room name owner st)"
proof -
  have ok: "is_valid_room_name name" "length (rooms st) < MAX_ROOMS"
    "\<forall>(rid, r) \<in> set (rooms st). normalized_room_name (rm_name r) \<noteq> normalized_room_name name"
    using assms(2) by (auto simp: check_new_room_None find_room_by_name_None)
  note fresh = next_room_id_fresh [OF server_invD(1) [OF assms(1)] ok(2)]
  note rooms = rooms_inv_add [OF server_invD(1) [OF assms(1)] ok(2,1,3), of owner]
  show ?thesis
    using assms(1) rooms fresh(1)
    by (auto simp: server_inv_def add_room_def Let_def map_emplace_def members_inv_def set_assign_new)
qed

section \<open>Topics, moderation and stopping\<close>

lemma server_inv_topic:
  assumes "server_inv st" "is_valid_room_topic topic"
  shows "server_inv (st\<lparr>rooms := map_modify rid (\<lambda>r. r\<lparr>rm_topic := topic\<rparr>) (rooms st)\<rparr>)"
proof -
  have "rooms_inv (history_limit st) (next_room_id st) (map_modify rid (\<lambda>r. r\<lparr>rm_topic := topic\<rparr>) (rooms st))"
    using server_invD(1) [OF assms(1)] by (rule rooms_inv_modify) (simp_all add: assms(2))
  moreover have "members_inv (map_modify rid (\<lambda>r. r\<lparr>rm_topic := topic\<rparr>) (rooms st)) (sess st)"
    using server_invD(2) [OF assms(1)] by (rule members_inv_modify) simp
  ultimately show ?thesis using assms(1) by (simp add: server_inv_def keys_map_modify)
qed

lemma server_inv_set_topic:
  assumes "server_inv st" "set_topic_for_room E rid actor privileged topic st = Inr st'"
  shows "server_inv st'"
  using assms server_inv_topic [OF assms(1), of topic rid]
  by (auto simp: set_topic_for_room_def Let_def split: if_splits option.splits)

lemma member_known:
  assumes "server_inv st" "map_find (rooms st) rid = Some room" "m \<in> set (rm_members room)"
  shows "m < next_session st" "active_room_id (sess st m) = rid" "nickname (sess st m) \<noteq> []"
proof -
  have "(rid, room) \<in> set (rooms st)" using assms(2) by (rule map_of_SomeD)
  from members_invD [OF server_invD(2) [OF assms(1)] this] assms(3)
  show "active_room_id (sess st m) = rid" "nickname (sess st m) \<noteq> []" by auto
  then show "m < next_session st" using known_session [OF assms(1)] by blast
qed

lemma find_SomeD: "find P xs = Some x \<Longrightarrow> x \<in> set xs \<and> P x"
  by (auto simp: find_Some_iff)

lemma server_inv_kick_in_room:
  assumes "server_inv st"
  shows "server_inv (snd (kick_user_in_room E rid nick reason st))"
proof (cases "fst (kick_user_in_room E rid nick reason st)")
  case True
  then obtain room target where "map_find (rooms st) rid = Some room" "target \<in> set (rm_members room)"
    and find: "find (\<lambda>m. nickname (sess st m) = nick) (rm_members room) = Some target"
    by (auto simp: kick_user_in_room_def Let_def dest: find_SomeD split: option.splits)
  with member_known [OF assms] assms show ?thesis
    by (simp add: kick_user_in_room_def Let_def server_inv_disconnect)
next
  case False
  then show ?thesis using assms by (auto simp: kick_user_in_room_def Let_def split: option.splits)
qed

lemma server_inv_ban:
  assumes "server_inv st"
  shows "server_inv (ban_user E nick reason st)"
proof -
  let ?st = "st\<lparr>banned_nicks := set_insert nick (banned_nicks st)\<rparr>"
  have inv: "server_inv ?st" using assms by (auto simp: server_inv_def ascending_set_insert)
  have target: "t < next_session st" if "first_session_named nick st' = Some t" "sessions st' = sessions st" for st' t
    using that server_invD(6) [OF assms] by (auto simp: first_session_named_def dest: find_SomeD)
  show ?thesis
    using inv target
    by (simp add: ban_user_def Let_def save_bans_def server_inv_disconnect split: option.split)
qed

lemma server_inv_unban: "server_inv st \<Longrightarrow> server_inv (snd (unban_user nick st))"
  by (auto simp: unban_user_def Let_def save_bans_def server_inv_def ascending_set_erase)

lemma server_inv_stop:
  assumes "server_inv st"
  shows "server_inv (stop st)"
proof -
  let ?clear = "map (\<lambda>(rid, room). (rid, room\<lparr>rm_members := []\<rparr>)) (rooms st)"
  have keys: "map fst ?clear = map fst (rooms st)"
    and names: "map (\<lambda>(rid, r). normalized_room_name (rm_name r)) ?clear =
      map (\<lambda>(rid, r). normalized_room_name (rm_name r)) (rooms st)"
    by auto
  from keys have keys': "fst ` set ?clear = fst ` set (rooms st)" by (metis list.set_map)
  have "rooms_inv (history_limit st) (next_room_id st) ?clear"
    using server_invD(1) [OF assms] unfolding rooms_inv_def keys names keys' by auto
  moreover have "members_inv ?clear (sess st)" by (rule members_invI) auto
  moreover have "nicknames_inv [] (local_nickname st) (sess st)" by (simp add: nicknames_inv_def)
  ultimately show ?thesis
    using assms keys' by (simp add: stop_def Let_def server_inv_def)
qed

section \<open>The local user\<close>

lemma server_inv_local_room:
  "server_inv st \<Longrightarrow> map_find (rooms st) rid = Some room \<Longrightarrow> server_inv (st\<lparr>local_room_id := rid\<rparr>)"
  by (force simp: server_inv_def dest: map_of_SomeD)

lemma server_inv_move_local:
  assumes "server_inv st"
  shows "server_inv (move_local_to_room E target announce st)"
proof (cases "map_find (rooms st) target")
  case (Some room)
  with server_inv_local_room [OF assms Some] show ?thesis
    by (simp add: move_local_to_room_def Let_def)
qed (use assms in \<open>simp add: move_local_to_room_def\<close>)

lemma server_inv_start_local:
  assumes "server_inv st"
  shows "server_inv (start_local_user st)"
proof -
  obtain lobby where "map_find (rooms st) DEFAULT_ROOM_ID = Some lobby"
    using rooms_invD(2) [OF server_invD(1) [OF assms]] by (metis not_Some_eq map_of_eq_None_iff)
  with server_inv_local_room [OF assms this] assms show ?thesis by (simp add: start_local_user_def Let_def)
qed

section \<open>Identities and nicknames\<close>

lemma session_inv_mono:
  assumes "session_inv pw ids c" "\<And>n. map_find ids n \<noteq> None \<Longrightarrow> map_find ids' n \<noteq> None"
  shows "session_inv pw ids' c"
  using assms unfolding session_inv_def admitted_def by blast

lemma server_inv_identities:
  assumes "server_inv st"
  shows "server_inv (st\<lparr>identities := map_assign nick key (identities st)\<rparr>)"
proof -
  note ids = server_invD(7) [OF assms]
  have "session_inv (password st) (map_assign nick key (identities st)) (sess st s)" for s
    using server_invD(4) [OF assms] by (rule session_inv_mono) (simp add: ids)
  with assms ids show ?thesis by (auto simp: server_inv_def ascending_assign)
qed

lemma bind_identity_frame:
  "sessions (snd (bind_identity nick key st)) = sessions st" "sess (snd (bind_identity nick key st)) = sess st"
  "rooms (snd (bind_identity nick key st)) = rooms st" "password (snd (bind_identity nick key st)) = password st"
  "local_nickname (snd (bind_identity nick key st)) = local_nickname st"
  "next_session (snd (bind_identity nick key st)) = next_session st"
  by (auto simp: bind_identity_def Let_def save_identities_def split: option.split)

lemma server_inv_bind:
  assumes "server_inv st"
  shows "server_inv (snd (bind_identity nick key st))"
    and "map_find (identities (snd (bind_identity nick key st))) nick \<noteq> None"
  using assms server_inv_identities [OF assms, of nick key] server_invD(7) [OF assms]
  by (auto simp: bind_identity_def Let_def save_identities_def split: option.split)

lemma nickname_not_taken:
  assumes "\<not> nickname_taken nick st" "nick \<noteq> []"
  shows "nick \<noteq> local_nickname st" "s \<in> set (sessions st) \<Longrightarrow> nickname (sess st s) \<noteq> nick"
  using assms by (auto simp: nickname_taken_def list_ex_iff split: if_splits)

lemma nicknames_inv_set:
  assumes "nicknames_inv p l ss" "nickname c = n" "n \<noteq> l" "\<And>t. t \<in> set p \<Longrightarrow> nickname (ss t) \<noteq> n"
  shows "nicknames_inv p l (ss(s := c))"
  using assms(1) unfolding nicknames_inv_def
  by (intro conjI ballI impI) (use assms(2-4) in \<open>auto split: if_splits\<close>)

lemma server_inv_set_nickname:
  assumes "server_inv st" "s < next_session st" "nickname c \<noteq> []" "active_room_id c = active_room_id (sess st s)"
    and "nickname c \<noteq> local_nickname st" "\<And>t. t \<in> set (sessions st) \<Longrightarrow> nickname (sess st t) \<noteq> nickname c"
    and "session_inv (password st) (identities st) c"
  shows "server_inv (st\<lparr>sess := (sess st)(s := c)\<rparr>)"
proof -
  have "nicknames_inv (sessions st) (local_nickname st) ((sess st)(s := c))"
    using server_invD(3) [OF assms(1)] refl assms(5,6) by (rule nicknames_inv_set)
  moreover have "members_inv (rooms st) ((sess st)(s := c))"
    using server_invD(2) [OF assms(1)] by (rule members_inv_session) (use assms in auto)
  ultimately show ?thesis using assms by (simp add: server_inv_def)
qed


section \<open>Handlers\<close>

lemma server_inv_reply [simp]: "server_inv (reply s msg st) = server_inv st"
  by (simp add: reply_def)

lemma reply_frame [simp]:
  "sess (reply s msg st) = sess st" "sessions (reply s msg st) = sessions st" "rooms (reply s msg st) = rooms st"
  "next_session (reply s msg st) = next_session st" "password (reply s msg st) = password st"
  "identities (reply s msg st) = identities st" "local_nickname (reply s msg st) = local_nickname st"
  "banned_nicks (reply s msg st) = banned_nicks st"
  by (simp_all add: reply_def)

lemma server_inv_update:
  assumes "server_inv st" "s < next_session st"
    and "\<And>c. active_room_id (f c) = active_room_id c" "\<And>c. nickname (f c) = nickname c"
    and "\<And>c. session_inv (password st) (identities st) c \<Longrightarrow> session_inv (password st) (identities st) (f c)"
  shows "server_inv (update_session s f st)"
  unfolding update_session_def
  using assms(1,2) by (rule server_inv_session) (simp_all add: assms(3-5) server_invD(4) [OF assms(1)])

lemma server_inv_stop_reading: "server_inv st \<Longrightarrow> s < next_session st \<Longrightarrow> server_inv (stop_reading s st)"
  unfolding stop_reading_def by (rule server_inv_update) (auto simp: session_inv_keeps)

lemma next_session_disconnect [simp]: "next_session (disconnect E s a st) = next_session st"
  by (simp add: disconnect_def Let_def erase_member_def set_active_room_id_def)

lemma server_inv_hang_up: "server_inv st \<Longrightarrow> s < next_session st \<Longrightarrow> server_inv (hang_up E s st)"
  by (simp add: hang_up_def server_inv_stop_reading server_inv_disconnect)

lemma server_inv_or_error:
  "server_inv st \<Longrightarrow> (\<And>st'. r = Inr st' \<Longrightarrow> server_inv st') \<Longrightarrow> server_inv (or_error s r st)"
  by (cases r) (simp_all add: or_error_def)

lemma server_inv_keep_on_error:
  "server_inv st \<Longrightarrow> (\<And>st'. r = Inr st' \<Longrightarrow> server_inv st') \<Longrightarrow> server_inv (keep_on_error st r)"
  by (cases r) (simp_all add: keep_on_error_def)

lemma server_inv_join_room:
  "server_inv st \<Longrightarrow> nickname (sess st s) \<noteq> [] \<Longrightarrow> join_room E s name st = Inr st' \<Longrightarrow> server_inv st'"
  by (auto simp: join_room_def server_inv_move split: option.splits if_splits)

lemma server_inv_leave_room:
  "server_inv st \<Longrightarrow> nickname (sess st s) \<noteq> [] \<Longrightarrow> leave_room E s st = Inr st' \<Longrightarrow> server_inv st'"
  by (auto simp: leave_room_def server_inv_move split: if_splits)

lemma add_room_frame [simp]: "sess (add_room name owner st) = sess st"
  by (simp add: add_room_def Let_def)

lemma server_inv_create_room:
  "server_inv st \<Longrightarrow> nickname (sess st s) \<noteq> [] \<Longrightarrow> create_room E s name st = Inr st' \<Longrightarrow> server_inv st'"
  by (auto simp: create_room_def Let_def server_inv_move server_inv_add_room split: option.splits)

lemma server_inv_kick_from:
  assumes "server_inv st" "kick_from E s nick reason st = Inr st'"
  shows "server_inv st'"
  using assms server_inv_kick_in_room [OF assms(1), of E "active_room_id (sess st s)" nick reason]
  by (auto simp: kick_from_def Let_def split: option.splits if_splits prod.splits)

lemma server_inv_send_private_in_room:
  "server_inv st \<Longrightarrow> server_inv (snd (send_private_in_room E a b m rid mirror st))"
  by (simp add: send_private_in_room_def Let_def split: option.split)

lemma quota_update:
  "snd (consume_message_quota E s st) =
     update_session s (recent_messages_by_room_update (\<lambda>_. recent_messages_by_room
       (sess (snd (consume_message_quota E s st)) s))) (effects_update tick st)"
  by (simp add: consume_message_quota_def Let_def update_session_def split_beta)

lemma server_inv_quota:
  "server_inv st \<Longrightarrow> s < next_session st \<Longrightarrow> server_inv (snd (consume_message_quota E s st))"
  by (subst quota_update, rule server_inv_update) (auto simp: session_inv_keeps)

lemma server_inv_quotaD:
  "consume_message_quota E s st = (b, st') \<Longrightarrow> server_inv st \<Longrightarrow> s < next_session st \<Longrightarrow> server_inv st'"
  using server_inv_quota [of st s E] by simp

lemma server_inv_handle_chat:
  "server_inv st \<Longrightarrow> s < next_session st \<Longrightarrow> server_inv (handle_chat E s body st)"
  by (auto simp: handle_chat_def Let_def dest: server_inv_quotaD split: prod.split bool.split)

lemma server_inv_handle_whisper:
  "server_inv st \<Longrightarrow> s < next_session st \<Longrightarrow> server_inv (handle_whisper E s target body st)"
  by (auto simp: handle_whisper_def send_private_from_def server_inv_send_private_in_room
      dest: server_inv_quotaD split: prod.split bool.split)

lemma server_inv_handle_hello:
  "server_inv st \<Longrightarrow> s < next_session st \<Longrightarrow> version = VERSION \<Longrightarrow> server_inv (handle_hello s version st)"
  by (auto simp: handle_hello_def Let_def session_inv_keeps intro!: server_inv_update)

lemma server_inv_handle_authenticate:
  "server_inv st \<Longrightarrow> s < next_session st \<Longrightarrow> server_inv (handle_authenticate E s pw st)"
  by (auto simp: handle_authenticate_def session_inv_keeps server_inv_hang_up intro!: server_inv_update)

lemma server_inv_handle_identify:
  assumes "server_inv st" "s < next_session st" "is_valid_nickname nick" "is_hex key 64"
    and "protocol_negotiated (sess st s)" "password st \<noteq> [] \<longrightarrow> authenticated (sess st s)"
  shows "server_inv (handle_identify E s nick key st)"
proof -
  have "server_inv (update_session s (\<lambda>c. c\<lparr>pending_nickname := nick, pending_public_key_hex := key,
      pending_challenge := ch\<rparr>) (effects_update tick st))" for ch
    unfolding update_session_def
    by (rule server_inv_session)
      (use assms server_invD(4) [OF assms(1), of s] in \<open>auto simp: session_inv_def admitted_def\<close>)
  with assms show ?thesis
    by (simp add: handle_identify_def Let_def server_inv_hang_up split: option.split)
qed

lemma server_inv_handle_proof:
  assumes "server_inv st" "s < next_session st"
  shows "server_inv (handle_proof E s signature st)"
proof -
  let ?c = "sess st s"
  let ?nick = "pending_nickname ?c" and ?key = "pending_public_key_hex ?c"
  obtain b st1 where bind: "bind_identity ?nick ?key st = (b, st1)" by (cases "bind_identity ?nick ?key st")
  note inv1 = server_inv_bind [OF assms(1), of ?nick ?key]
  note frame = bind_identity_frame [of ?nick ?key st]
  let ?st2 = "update_session s (\<lambda>c. c\<lparr>nickname := ?nick, pending_nickname := [],
     pending_public_key_hex := [], pending_challenge := []\<rparr>) st1"
  have "server_inv ?st2" if free: "\<not> nickname_taken ?nick st" and set: "?nick \<noteq> []" "nickname ?c = []"
    unfolding update_session_def
  proof (rule server_inv_set_nickname)
    show "server_inv st1" using inv1 bind by simp
    show "session_inv (password st1) (identities st1) ((sess st1 s)\<lparr>nickname := ?nick, pending_nickname := [],
        pending_public_key_hex := [], pending_challenge := []\<rparr>)"
      using server_invD(4) [OF assms(1), of s] set inv1(2) frame bind
      by (auto simp: session_inv_def admitted_def)
  qed (use frame bind assms(2) set nickname_not_taken [OF free set(1)] in auto)
  moreover have "nickname (sess ?st2 s) = ?nick" by (simp add: update_session_def)
  moreover have "server_inv st1" using inv1 bind by simp
  moreover have "next_session st1 = next_session st" using frame bind by simp
  ultimately show ?thesis
    using assms bind
    by (auto simp: handle_proof_def Let_def admit_to_default_room_def server_inv_hang_up server_inv_move
        split: bool.split)
qed

lemma server_inv_handle_room:
  assumes "server_inv st"
  shows "server_inv (handle_leave E s st)" "server_inv (handle_create E s name st)"
    "server_inv (handle_join_room E s name st)" "server_inv (handle_list_rooms s st)"
  using assms
  by (auto simp: handle_leave_def handle_create_def handle_join_room_def handle_list_rooms_def send_room_list_def
      intro!: server_inv_or_error dest: server_inv_leave_room server_inv_create_room server_inv_join_room)

lemma server_inv_handle_moderation:
  assumes "server_inv st"
  shows "server_inv (handle_topic E s topic st)" "server_inv (handle_kick E s nick reason st)"
  using assms
  by (auto simp: handle_topic_def send_topic_def set_topic_def handle_kick_def intro!: server_inv_or_error
      dest: server_inv_set_topic server_inv_kick_from split: option.split)

lemma server_inv_handle_disconnect:
  "server_inv st \<Longrightarrow> s < next_session st \<Longrightarrow> server_inv (handle_disconnect E s st)"
  by (simp add: handle_disconnect_def server_inv_stop_reading server_inv_disconnect)

lemma server_inv_handle_authorised:
  assumes "server_inv st" "s < next_session st" "wf_client message"
    and "protocol_negotiated (sess st s)" "password st \<noteq> [] \<longrightarrow> authenticated (sess st s)"
  shows "server_inv (handle_authorised E s message st)"
  using assms
  by (cases message)
    (simp_all add: handle_authorised_def server_inv_handle_identify server_inv_handle_proof
      server_inv_handle_room server_inv_handle_moderation server_inv_handle_disconnect
      server_inv_handle_chat server_inv_handle_whisper)

lemma server_inv_handle_message:
  assumes "server_inv st" "s < next_session st" "wf_client message"
  shows "server_inv (handle_message E s message st)"
  using assms server_inv_handle_authorised [OF assms]
  by (cases message)
    (auto simp: handle_message_def has_password_def server_inv_handle_hello server_inv_handle_authenticate
      server_inv_hang_up)

lemma decode_client_frame_wf: "decode_client_frame line = Success m \<Longrightarrow> wf_client m"
  by (auto simp: decode_client_frame_def decode_message_frame_def dest: parse_client_sound split: result.splits)

lemma server_inv_handle_line:
  "server_inv st \<Longrightarrow> s < next_session st \<Longrightarrow> server_inv (handle_line E s line st)"
  by (auto simp: handle_line_def Let_def server_inv_hang_up server_inv_handle_message
      dest: decode_client_frame_wf split: result.split)

section \<open>Every event\<close>

lemma server_inv_accept:
  assumes "server_inv st"
  shows "server_inv (accept st)"
proof (cases "acceptor_open st")
  case True
  let ?s = "next_session st"
  let ?ss = "(sess st)(?s := fresh_session)"
  have ss: "?ss = sess st" using server_invD(5) [OF assms, of ?s] by auto
  have "nicknames_inv (set_insert ?s (sessions st)) (local_nickname st) (sess st)"
    using server_invD(3) [OF assms] server_invD(5) [OF assms, of ?s]
    unfolding nicknames_inv_def by (auto simp: fresh_session_def ascending_set_insert)
  with assms True show ?thesis
    by (auto simp: accept_def Let_def join_def ss server_inv_def)
qed (use assms in \<open>simp add: accept_def\<close>)

lemma server_inv_broadcast_server: "server_inv st \<Longrightarrow> server_inv (broadcast_server E msg st)"
proof -
  have "server_inv st \<Longrightarrow> server_inv (fold (\<lambda>rid. broadcast_room E rid m []) rids st)" for m rids
    by (induction rids arbitrary: st) simp_all
  then show "server_inv st \<Longrightarrow> ?thesis" by (simp add: broadcast_server_def)
qed

lemma server_inv_create_local_room:
  "server_inv st \<Longrightarrow> create_local_room E name st = Inr st' \<Longrightarrow> server_inv st'"
  by (auto simp: create_local_room_def Let_def server_inv_move_local server_inv_add_room split: option.splits if_splits)

lemma server_inv_create_admin_room:
  "server_inv st \<Longrightarrow> create_admin_room E name st = Inr st' \<Longrightarrow> server_inv st'"
  by (auto simp: create_admin_room_def Let_def server_inv_add_room split: option.splits if_splits)

lemma server_inv_join_local_room:
  "server_inv st \<Longrightarrow> join_local_room E name st = Inr st' \<Longrightarrow> server_inv st'"
  by (auto simp: join_local_room_def server_inv_move_local split: option.splits if_splits)

lemma server_inv_leave_local_room:
  "server_inv st \<Longrightarrow> leave_local_room E st = Inr st' \<Longrightarrow> server_inv st'"
  by (auto simp: leave_local_room_def server_inv_move_local split: if_splits)

lemma server_inv_kick_named:
  assumes "server_inv st" "kick_user_in_named_room E room nick reason st = Inr st'"
  shows "server_inv st'"
proof -
  obtain rid r where "find_room_by_name room st = Some (rid, r)"
    using assms(2) by (auto simp: kick_user_in_named_room_def split: option.splits)
  with assms server_inv_kick_in_room [OF assms(1), of E rid nick reason] show ?thesis
    by (auto simp: kick_user_in_named_room_def split: prod.splits if_splits)
qed

lemma server_inv_set_admin_topic:
  "server_inv st \<Longrightarrow> set_admin_topic E room topic st = Inr st' \<Longrightarrow> server_inv st'"
  by (auto simp: set_admin_topic_def split: option.splits intro: server_inv_set_topic)

lemma server_inv_register:
  "server_inv st \<Longrightarrow> server_inv (snd (register_local_identity nick key st))"
  by (simp add: register_local_identity_def server_inv_bind)

lemma server_inv_kick_user: "server_inv st \<Longrightarrow> server_inv (snd (kick_user E nick reason st))"
  by (simp add: kick_user_def Let_def server_inv_kick_in_room)

lemma server_inv_host:
  assumes "server_inv st"
  shows "server_inv (host_step E e st)"
proof (cases e)
  case (LocalTopic t)
  with assms show ?thesis
    by (auto simp: set_local_topic_def intro: server_inv_keep_on_error server_inv_set_topic)
qed (use assms in \<open>auto simp: server_inv_start_local server_inv_register broadcast_def Let_def send_private_def
      server_inv_send_private_in_room show_room_list_local_def server_inv_kick_user server_inv_ban server_inv_unban
      server_inv_broadcast_server server_inv_stop
      intro!: server_inv_keep_on_error
      intro: server_inv_create_local_room server_inv_create_admin_room server_inv_join_local_room
        server_inv_leave_local_room server_inv_kick_named server_inv_set_admin_topic\<close>)

lemma server_inv_step:
  assumes "server_inv st" "event_enabled e st"
  shows "server_inv (server_step E e st)"
proof (cases e)
  case (HandshakeDone s)
  with assms show ?thesis
    by (auto simp: handshake_done_def session_inv_keeps intro!: server_inv_update)
next
  case (HandshakeFailed s)
  with assms show ?thesis by (simp add: handshake_failed_def server_inv_disconnect)
next
  case (Line s line)
  with assms show ?thesis by (simp add: server_inv_handle_line reading_session)
next
  case (ReadFailed s)
  with assms show ?thesis
    by (simp add: read_failed_def server_inv_stop_reading server_inv_disconnect reading_session)
qed (use assms in \<open>simp_all add: server_inv_accept server_inv_host\<close>)

interpretation server: invariant_machine "server_step E" server_inv event_enabled for E
  by unfold_locales (rule server_inv_step)

section \<open>Starting\<close>

lemma session_inv_fresh: "session_inv pw ids fresh_session"
  by (simp add: session_inv_def fresh_session_def)

lemma server_inv_new: "server_inv (new_chat_server E pw log local_nick None limit)"
proof -
  have name: "is_valid_room_name ''lobby''"
    by (simp add: is_valid_room_name_def protocol_limits ctype_defs byte_def)
  have topic: "is_valid_room_topic ''Welcome to the lobby''"
    by (simp add: is_valid_room_topic_def protocol_limits ctype_defs byte_def)
  show ?thesis
    using name topic
    by (simp add: new_chat_server_def load_persistent_state_def map_emplace_def server_inv_def
        rooms_inv_def members_inv_def nicknames_inv_def session_inv_fresh DEFAULT_ROOM_ID_def protocol_limits)
qed

text \<open>
  What the server relies on when it starts from a storage: rooms in the order of their numbers,
  with names and topics it would have accepted, identities in the order of the nicknames, and no
  more history than was asked for. That the storage keeps this promise is shown with its model.
\<close>

definition wf_persisted :: "persisted \<Rightarrow> bool" where
  "wf_persisted P \<longleftrightarrow> ascending (map sr_id (load_rooms P)) \<and> DEFAULT_ROOM_ID \<in> sr_id ` set (load_rooms P) \<and>
     length (load_rooms P) \<le> MAX_ROOMS \<and> distinct (map (\<lambda>r. normalized_room_name (sr_name r)) (load_rooms P)) \<and>
     (\<forall>r \<in> set (load_rooms P). sr_id r \<noteq> 0 \<and> unat (sr_id r) < 2 ^ 63 \<and> is_valid_room_name (sr_name r) \<and>
        is_valid_room_topic (sr_topic r)) \<and>
     ascending (map fst (load_stored_identities P)) \<and> (\<forall>rid n. 1 \<le> n \<longrightarrow> length (load_history P rid n) \<le> n)"

definition room_of_row :: "persisted \<Rightarrow> nat \<Rightarrow> stored_room \<Rightarrow> room" where
  "room_of_row P limit r = \<lparr>rm_id = sr_id r, rm_name = sr_name r, rm_topic = sr_topic r, rm_owner = sr_owner r,
     rm_recent = map sm_body (rev (load_history P (sr_id r) limit)), rm_members = []\<rparr>"

lemma fold_load_room:
  assumes "ascending (map fst (rooms st) @ map sr_id rs)"
  shows "fold (load_room P) rs st = st\<lparr>rooms := rooms st @ map (\<lambda>r. (sr_id r, room_of_row P (history_limit st) r)) rs,
    next_room_id := fold (\<lambda>r n. max n (sr_id r + 1)) rs (next_room_id st)\<rparr>"
  using assms
proof (induction rs arbitrary: st)
  case (Cons r rs)
  have "sr_id r \<notin> fst ` set (rooms st)" using Cons.prems by (auto simp: sorted_wrt_append)
  moreover have "map_assign (sr_id r) x (rooms st) = rooms st @ [(sr_id r, x)]" for x
    using Cons.prems by (intro map_assign_snoc) (auto simp: sorted_wrt_append)
  ultimately have "load_room P r st = st\<lparr>rooms := rooms st @ [(sr_id r, room_of_row P (history_limit st) r)],
      next_room_id := max (next_room_id st) (sr_id r + 1)\<rparr>"
    by (simp add: load_room_def Let_def map_emplace_def map_of_eq_None_iff room_of_row_def)
  with Cons.IH [of "load_room P r st"] Cons.prems show ?case by simp
qed simp

lemma next_room_bounds:
  assumes "\<And>r. r \<in> set rs \<Longrightarrow> unat (sr_id r :: u64) < 2 ^ 63" "unat n \<le> 2 ^ 63"
  shows "unat (fold (\<lambda>r n. max n (sr_id r + 1)) rs n) \<le> 2 ^ 63"
    and "n \<le> fold (\<lambda>r n. max n (sr_id r + 1)) rs n"
    and "r \<in> set rs \<Longrightarrow> sr_id r < fold (\<lambda>r n. max n (sr_id r + 1)) rs n"
proof -
  have succ: "unat (w + 1) = unat w + 1" if "unat w < 2 ^ 63" for w :: u64
    using that by (simp add: unat_plus_if_size word_size)
  have "unat (fold (\<lambda>r n. max n (sr_id r + 1)) rs n) \<le> 2 ^ 63 \<and> n \<le> fold (\<lambda>r n. max n (sr_id r + 1)) rs n \<and>
      (\<forall>r \<in> set rs. sr_id r < fold (\<lambda>r n. max n (sr_id r + 1)) rs n)"
    using assms
  proof (induction rs arbitrary: n)
    case (Cons r rs)
    have r: "unat (sr_id r + 1) = unat (sr_id r) + 1" "unat (sr_id r) < 2 ^ 63" using Cons.prems(1) succ by auto
    then have "unat (max n (sr_id r + 1)) \<le> 2 ^ 63" using Cons.prems(2) by (simp add: max_def)
    moreover have "sr_id r < max n (sr_id r + 1)" using r by (intro less_max_iff_disj [THEN iffD2] disjI2) (simp add: word_less_nat_alt)
    ultimately show ?case
      using Cons.IH [of "max n (sr_id r + 1)"] Cons.prems(1) order_less_le_trans [of "sr_id r" "max n (sr_id r + 1)"]
      by (simp add: max.bounded_iff del: less_max_iff_disj)
  qed simp
  then show "unat (fold (\<lambda>r n. max n (sr_id r + 1)) rs n) \<le> 2 ^ 63" "n \<le> fold (\<lambda>r n. max n (sr_id r + 1)) rs n"
    "r \<in> set rs \<Longrightarrow> sr_id r < fold (\<lambda>r n. max n (sr_id r + 1)) rs n" by blast+
qed

lemma fold_set_insert:
  "ascending xs \<Longrightarrow> ascending (fold (\<lambda>b. set_insert (f b)) bs xs) \<and> set (fold (\<lambda>b. set_insert (f b)) bs xs) = set xs \<union> f ` set bs"
proof (induction bs arbitrary: xs)
  case (Cons b bs)
  have "ascending (set_insert (f b) xs)" using Cons.prems by (rule ascending_set_insert)
  from Cons.IH [OF this] show ?case by auto
qed simp

lemma started_view:
  fixes E pw log nick limit
  assumes "wf_persisted P"
  defines "st \<equiv> new_chat_server E pw log nick (Some P) limit"
  shows "rooms st = map (\<lambda>r. (sr_id r, room_of_row P (max 1 limit) r)) (load_rooms P)"
    and "next_room_id st = fold (\<lambda>r n. max n (sr_id r + 1)) (load_rooms P) (DEFAULT_ROOM_ID + 1)"
    and "identities st = load_stored_identities P" "ascending (banned_nicks st)"
    and "set (banned_nicks st) = sb_nickname ` set (load_stored_bans P)"
    and "sessions st = []" "sess st = (\<lambda>_. fresh_session)" "next_session st = 0" "local_room_id st = 0" "history_limit st = max 1 limit"
    and "has_storage st" "storage_requests (effects st) = []" "password st = pw"
proof -
  let ?rs = "load_rooms P"
  define st0 where "st0 = \<lparr>password = pw, local_nickname = nick, history_limit = max 1 limit, has_log = log, has_storage = True,
      bans_file = [], identities_file = ''identities.txt'', acceptor_open = True, sessions = [], sess = \<lambda>_. fresh_session,
      next_session = 0, rooms = [], next_room_id = DEFAULT_ROOM_ID + 1, local_room_id = 0, banned_nicks = [], identities = [],
      effects = initial_outputs\<rparr>"
  define st1 where "st1 = (fold (load_room P) ?rs st0)\<lparr>identities := load_stored_identities P,
      banned_nicks := fold (\<lambda>ban. set_insert (sb_nickname ban)) (load_stored_bans P) []\<rparr>"
  have rooms: "fold (load_room P) ?rs st0 = st0\<lparr>rooms := map (\<lambda>r. (sr_id r, room_of_row P (max 1 limit) r)) ?rs,
      next_room_id := fold (\<lambda>r n. max n (sr_id r + 1)) ?rs (DEFAULT_ROOM_ID + 1)\<rparr>"
    using fold_load_room [of st0 ?rs P] assms(1) by (simp add: st0_def wf_persisted_def)
  have "DEFAULT_ROOM_ID \<in> fst ` set (rooms (fold (load_room P) ?rs st0))"
    using assms(1) by (force simp: rooms wf_persisted_def)
  then obtain l where lobby: "map_find (rooms (fold (load_room P) ?rs st0)) DEFAULT_ROOM_ID = Some l"
    by (metis map_of_eq_None_iff not_None_eq)
  have "fold (\<lambda>(n, k). map_assign n k) (load_stored_identities P) [] = load_stored_identities P"
    using fold_map_assign [of "[]" "load_stored_identities P"] assms(1) by (simp add: wf_persisted_def)
  moreover have "has_storage st0" "identities st0 = []" "banned_nicks st0 = []" by (simp_all add: st0_def)
  ultimately have "load_persistent_state E P st0 = st1"
    using lobby by (simp add: load_persistent_state_def Let_def st1_def rooms)
  moreover have "st = load_persistent_state E P st0"
    by (simp add: st_def new_chat_server_def st0_def)
  ultimately have "st = st1" by simp
  moreover note fold_set_insert [of "[]" sb_nickname "load_stored_bans P"]
  ultimately show
      "rooms st = map (\<lambda>r. (sr_id r, room_of_row P (max 1 limit) r)) ?rs"
      "next_room_id st = fold (\<lambda>r n. max n (sr_id r + 1)) ?rs (DEFAULT_ROOM_ID + 1)"
      "identities st = load_stored_identities P" "ascending (banned_nicks st)"
      "set (banned_nicks st) = sb_nickname ` set (load_stored_bans P)"
      "sessions st = []" "sess st = (\<lambda>_. fresh_session)" "next_session st = 0" "local_room_id st = 0" "history_limit st = max 1 limit"
      "has_storage st" "storage_requests (effects st) = []" "password st = pw"
    by (simp_all add: st1_def rooms) (simp_all add: st0_def initial_outputs_def)
qed

lemma server_inv_stored:
  assumes "wf_persisted P"
  shows "server_inv (new_chat_server E pw log nick (Some P) limit)"
proof -
  let ?st = "new_chat_server E pw log nick (Some P) limit"
  note view = started_view [OF assms, of E pw log nick limit]
  have nxt: "unat (next_room_id ?st) \<le> 2 ^ 63" "\<And>r. r \<in> set (load_rooms P) \<Longrightarrow> sr_id r < next_room_id ?st"
    using next_room_bounds [of "load_rooms P" "DEFAULT_ROOM_ID + 1"] assms view(2) by (auto simp: wf_persisted_def DEFAULT_ROOM_ID_def)
  have "MAX_ROOMS < 2 ^ 62" by (simp add: protocol_limits)
  then have "rooms_inv (history_limit ?st) (next_room_id ?st) (rooms ?st)"
    using nxt assms
    by (auto simp: rooms_inv_def view(1,10) room_of_row_def comp_def wf_persisted_def image_image)
  moreover have "members_inv (rooms ?st) (sess ?st)" by (auto simp: members_inv_def view(1) room_of_row_def)
  ultimately show ?thesis
    using view assms by (simp add: server_inv_def nicknames_inv_def session_inv_fresh wf_persisted_def)
qed

text \<open>The states the server reaches, without storage or from one that keeps its promise.\<close>

inductive reachable :: "environment \<Rightarrow> chat_server \<Rightarrow> bool" for E :: environment where
  start: "reachable E (new_chat_server E pw log local_nick None limit)"
| stored: "wf_persisted P \<Longrightarrow> reachable E (new_chat_server E pw log local_nick (Some P) limit)"
| step: "reachable E st \<Longrightarrow> event_enabled e st \<Longrightarrow> reachable E (server_step E e st)"

lemma reachable_run: "reachable E st \<Longrightarrow> \<exists>st0. server_inv st0 \<and> server.run E st0 st"
  by (induction rule: reachable.induct) (blast intro: server.run.intros server_inv_new server_inv_stored)+

lemma reachable_inv: "reachable E st \<Longrightarrow> server_inv st"
  using reachable_run server.run_inv by blast

end
