(* ===== verification/Server_Example.thy ===== *)
theory Server_Example
  imports Server_Invariant
begin

text \<open>
  A concrete run of the server: one client connects, completes the handshake, identifies as
  \<open>ann\<close>, proves her key and is in the lobby. It shows that the states the properties speak
  about exist, and it is the input at which they are instantiated.
\<close>

definition demo_env :: environment where
  "demo_env = \<lparr>crypto = plain_sodium, timestamp = \<lambda>_. ''12:00:00'', unix_seconds = \<lambda>n. int n,
     unix_micros = \<lambda>n. int n, steady_nanos = \<lambda>n. int n * 1000000000\<rparr>"

definition ann_key :: string where
  "ann_key = bytes_to_hex plain_sodium (replicate 32 CHR ''p'')"

definition ann_signature :: string where
  "ann_signature = bytes_to_hex plain_sodium (replicate 64 CHR ''s'')"

definition started :: chat_server where
  "started = new_chat_server demo_env [] False [] None 100"

definition connected :: chat_server where
  "connected = handshake_done 0 (accept started)"

definition negotiated :: chat_server where
  "negotiated = handle_message demo_env 0 (Hello VERSION) connected"

definition identified :: chat_server where
  "identified = handle_message demo_env 0 (Identify ''ann'' ann_key) negotiated"

definition joined :: chat_server where
  "joined = handle_message demo_env 0 (IdentityProof ann_signature) identified"

lemma message_line:
  assumes "wf_client m"
  shows "\<exists>line. decode_client_frame line = Success m \<and> server_step E (Line s line) st = handle_message E s m st"
proof -
  let ?line = "encode_loop (serialize_client m)"
  have "decode_frame ?line = Success (serialize_client m)"
    using decode_frame_encoded(2) [OF client_payload_fits [OF assms]] .
  then have "decode_client_frame ?line = Success m"
    by (simp add: decode_client_frame_def decode_message_frame_def parse_serialize_client assms)
  then show ?thesis by (auto simp: handle_line_def)
qed

lemma reachable_message:
  assumes "reachable E st" "reading (sess st s)" "wf_client m"
  shows "reachable E (handle_message E s m st)"
proof -
  obtain line where "server_step E (Line s line) st = handle_message E s m st"
    using message_line [OF assms(3)] by blast
  then show ?thesis using reachable.step [OF assms(1), of "Line s line"] assms(2) by simp
qed

lemma ann_key_valid: "is_hex ann_key 64" "is_hex_of_len ann_key crypto_sign_PUBLICKEYBYTES" "ann_key \<noteq> []"
proof -
  have "is_hex_of_len ann_key (length (replicate 32 CHR ''p''))"
    unfolding ann_key_def by (rule hex_lawsD(2) [OF plain_sodium_laws(1)])
  then show "is_hex ann_key 64" "is_hex_of_len ann_key crypto_sign_PUBLICKEYBYTES"
    by (simp_all add: is_hex_of_len_eq sodium_sizes)
  then show "ann_key \<noteq> []" by (auto simp: is_hex_def)
qed

lemma ann_signature_valid: "is_hex ann_signature 128"
proof -
  have "is_hex_of_len ann_signature (length (replicate 64 CHR ''s''))"
    unfolding ann_signature_def by (rule hex_lawsD(2) [OF plain_sodium_laws(1)])
  then show ?thesis by (simp add: is_hex_of_len_eq)
qed

lemma ann_verifies: "verify_identity_signature plain_sodium ann_key challenge ann_signature"
  using verify_signed [OF plain_sodium_laws, of 0 "replicate 32 CHR ''p''" "replicate 64 CHR ''s''" challenge]
  by (simp add: plain_sodium_def ann_key_def ann_signature_def)

lemma ann_valid: "is_valid_nickname ''ann''"
  by (simp add: is_valid_nickname_def ctype_defs byte_def)

lemma started_fields:
  "sessions started = []" "sess started = (\<lambda>_. fresh_session)" "next_session started = 0"
  "rooms started = [(1, \<lparr>rm_id = 1, rm_name = ''lobby'', rm_topic = ''Welcome to the lobby'', rm_owner = [],
     rm_recent = [], rm_members = []\<rparr>)]"
  "password started = []" "next_room_id started = 2" "local_nickname started = []" "identities started = []" "banned_nicks started = []"
  "history_limit started = 100" "acceptor_open started" "\<not> has_storage started"
  by (simp_all add: started_def new_chat_server_def load_persistent_state_def map_emplace_def DEFAULT_ROOM_ID_def
      persist_room_def)

lemma connected_fields:
  "sessions connected = [0]" "sess connected 0 = fresh_session\<lparr>reading := True\<rparr>" "next_session connected = 1"
  "rooms connected = rooms started" "password connected = []" "next_room_id connected = 2" "local_nickname connected = []"
  "identities connected = []" "banned_nicks connected = []" "history_limit connected = 100" "acceptor_open connected" "\<not> has_storage connected"
  by (simp_all add: connected_def handshake_done_def update_session_def reply_def accept_def Let_def join_def
      started_fields)

lemma negotiated_fields:
  "sessions negotiated = [0]" "next_session negotiated = 1" "sess negotiated 0 = fresh_session\<lparr>reading := True, protocol_negotiated := True\<rparr>"
  "rooms negotiated = rooms started" "password negotiated = []" "next_room_id negotiated = 2" "local_nickname negotiated = []"
  "identities negotiated = []" "banned_nicks negotiated = []" "history_limit negotiated = 100" "acceptor_open negotiated" "\<not> has_storage negotiated"
  by (simp_all add: negotiated_def handle_message_def handle_hello_def Let_def update_session_def reply_def
      connected_fields fresh_session_def)

lemma identified_fields:
  "sessions identified = [0]" "next_session identified = 1"
  "sess identified 0 = fresh_session\<lparr>reading := True, protocol_negotiated := True, pending_nickname := ''ann'',
     pending_public_key_hex := ann_key,
     pending_challenge := random_hex plain_sodium (calls (effects negotiated)) IDENTITY_CHALLENGE_BYTES\<rparr>"
  "rooms identified = rooms started" "password identified = []" "next_room_id identified = 2" "local_nickname identified = []"
  "identities identified = []" "banned_nicks identified = []" "history_limit identified = 100" "acceptor_open identified" "\<not> has_storage identified"
  by (simp_all add: identified_def handle_message_def has_password_def handle_authorised_def handle_identify_def
      identity_available_for_def utils_is_valid_nickname_eq ann_valid ann_key_valid is_banned_def set_count_def
      nickname_taken_def Let_def update_session_def reply_def negotiated_fields fresh_session_def demo_env_def)


lemma challenge_not_Nil: "random_hex plain_sodium n IDENTITY_CHALLENGE_BYTES \<noteq> []"
proof -
  have "is_hex_of_len (bytes_to_hex plain_sodium (replicate 32 CHR ''r'')) 32"
    using hex_lawsD(2) [OF plain_sodium_laws(1), of "replicate 32 CHR ''r''"] by simp
  then show ?thesis
    by (auto simp: random_hex_def IDENTITY_CHALLENGE_BYTES_def plain_sodium_def is_hex_of_len_def)
qed

lemma joined_fields:
  "sessions joined = [0]" "next_session joined = 1" "nickname (sess joined 0) = ''ann''" "active_room_id (sess joined 0) = 1"
  "reading (sess joined 0)" "protocol_negotiated (sess joined 0)" "recent_messages_by_room (sess joined 0) = []"
  "rooms joined = [(1, \<lparr>rm_id = 1, rm_name = ''lobby'', rm_topic = ''Welcome to the lobby'', rm_owner = [],
     rm_recent = [''[system] ann joined #lobby''], rm_members = [0]\<rparr>)]"
  "password joined = []" "next_room_id joined = 2" "local_nickname joined = []" "identities joined = [(''ann'', ann_key)]"
  "banned_nicks joined = []" "history_limit joined = 100" "acceptor_open joined" "\<not> has_storage joined"
  by (simp_all add: joined_def handle_message_def has_password_def handle_authorised_def handle_proof_def
      is_banned_def set_count_def nickname_taken_def bind_identity_def save_identities_def Let_def update_session_def
      reply_def identified_fields started_fields fresh_session_def demo_env_def ann_key_valid ann_verifies
      challenge_not_Nil admit_to_default_room_def move_session_to_room_def DEFAULT_ROOM_ID_def erase_member_def
      insert_member_def set_active_room_id_def map_modify_def push_bounded_def)

lemma reachable_connected: "reachable demo_env connected"
proof -
  have "reachable demo_env started" unfolding started_def by (rule reachable.start)
  then have "reachable demo_env (accept started)" using reachable.step [of demo_env started Accept] by simp
  moreover have "event_enabled (HandshakeDone 0) (accept started)"
    by (simp add: accept_def join_def started_fields Let_def fresh_session_def)
  ultimately show ?thesis
    using reachable.step [of demo_env "accept started" "HandshakeDone 0"] by (simp add: connected_def)
qed

lemma reachable_identified: "reachable demo_env identified"
proof -
  have "reachable demo_env negotiated"
    unfolding negotiated_def by (rule reachable_message [OF reachable_connected]) (simp_all add: connected_fields)
  then show ?thesis
    unfolding identified_def by (rule reachable_message) (simp_all add: negotiated_fields ann_valid ann_key_valid)
qed

lemma reachable_joined: "reachable demo_env joined"
  unfolding joined_def
  by (rule reachable_message [OF reachable_identified]) (simp_all add: identified_fields ann_signature_valid)

lemma other_session: "sess joined 1 = fresh_session"
  using server_invD(5) [OF reachable_inv [OF reachable_joined], of 1] by (simp add: joined_fields)

text \<open>Then \<open>ann\<close> creates a room of her own.\<close>

definition created :: chat_server where
  "created = handle_message demo_env 0 (CreateRoom ''dev'') joined"

lemma dev_valid: "is_valid_room_name ''dev''"
  by (simp add: is_valid_room_name_def protocol_limits ctype_defs byte_def)

lemma created_fields:
  "nickname (sess created 0) = ''ann''" "active_room_id (sess created 0) = 2" "reading (sess created 0)"
  "protocol_negotiated (sess created 0)" "password created = []" "sessions created = [0]" "next_session created = 1"
  "local_nickname created = []" "banned_nicks created = []" "identities created = [(''ann'', ann_key)]"
  "history_limit created = 100" "\<not> has_storage created" "acceptor_open created"
  "rooms created = [(1, \<lparr>rm_id = 1, rm_name = ''lobby'', rm_topic = ''Welcome to the lobby'', rm_owner = [],
       rm_recent = [''[system] ann joined #lobby'', ''[system] ann left for #dev''], rm_members = []\<rparr>),
     (2, \<lparr>rm_id = 2, rm_name = ''dev'', rm_topic = [], rm_owner = ''ann'',
       rm_recent = [''[system] ann joined #dev''], rm_members = [0]\<rparr>)]"
  using dev_valid
  by (simp_all add: created_def handle_message_def has_password_def handle_authorised_def handle_create_def
      or_error_def create_room_def check_new_room_def find_room_by_name_def joined_fields protocol_limits
      normalized_room_name_def tolower_def isupper_def byte_def Let_def add_room_def map_emplace_def
      move_session_to_room_def erase_member_def insert_member_def set_active_room_id_def map_modify_def
      push_bounded_def set_erase_def)

lemma reachable_created: "reachable demo_env created"
  unfolding created_def by (rule reachable_message [OF reachable_joined]) (simp_all add: joined_fields dev_valid)

text \<open>A second client joins as \<open>bob\<close> and enters her room.\<close>

definition bob_connected :: chat_server where
  "bob_connected = handle_message demo_env 1 (Hello VERSION) (handshake_done 1 (accept created))"

definition bob_identified :: chat_server where
  "bob_identified = handle_message demo_env 1 (Identify ''bob'' ann_key) bob_connected"

definition bob_joined :: chat_server where
  "bob_joined = handle_message demo_env 1 (IdentityProof ann_signature) bob_identified"

definition bob_in_dev :: chat_server where
  "bob_in_dev = handle_message demo_env 1 (JoinRoom ''dev'') bob_joined"

lemma bob_valid: "is_valid_nickname ''bob''"
  by (simp add: is_valid_nickname_def ctype_defs byte_def)

lemma bob_connected_fields:
  "sessions bob_connected = [0, 1]" "nickname (sess bob_connected 0) = ''ann''"
  "active_room_id (sess bob_connected 0) = 2" "reading (sess bob_connected 0)"
  "protocol_negotiated (sess bob_connected 0)"
  "sess bob_connected 1 = fresh_session\<lparr>reading := True, protocol_negotiated := True\<rparr>"
  "rooms bob_connected = rooms created" "password bob_connected = []" "local_nickname bob_connected = []"
  "identities bob_connected = [(''ann'', ann_key)]" "banned_nicks bob_connected = []"
  "history_limit bob_connected = 100" "\<not> has_storage bob_connected"
  by (simp_all add: bob_connected_def handle_message_def handle_hello_def handshake_done_def accept_def join_def
      update_session_def reply_def created_fields fresh_session_def Let_def del: One_nat_def)

lemma bob_identified_fields:
  "sessions bob_identified = [0, 1]" "nickname (sess bob_identified 0) = ''ann''"
  "active_room_id (sess bob_identified 0) = 2" "reading (sess bob_identified 0)"
  "protocol_negotiated (sess bob_identified 0)"
  "sess bob_identified 1 = fresh_session\<lparr>reading := True, protocol_negotiated := True, pending_nickname := ''bob'',
     pending_public_key_hex := ann_key,
     pending_challenge := random_hex plain_sodium (calls (effects bob_connected)) IDENTITY_CHALLENGE_BYTES\<rparr>"
  "rooms bob_identified = rooms created" "password bob_identified = []" "local_nickname bob_identified = []"
  "identities bob_identified = [(''ann'', ann_key)]" "banned_nicks bob_identified = []"
  "history_limit bob_identified = 100" "\<not> has_storage bob_identified"
  by (simp_all add: bob_identified_def handle_message_def has_password_def handle_authorised_def handle_identify_def
      identity_available_for_def utils_is_valid_nickname_eq bob_valid ann_key_valid is_banned_def set_count_def
      nickname_taken_def Let_def update_session_def reply_def bob_connected_fields fresh_session_def demo_env_def
      del: One_nat_def)

lemma bob_joined_fields:
  "sessions bob_joined = [0, 1]" "nickname (sess bob_joined 0) = ''ann''" "active_room_id (sess bob_joined 0) = 2"
  "reading (sess bob_joined 0)" "protocol_negotiated (sess bob_joined 0)"
  "nickname (sess bob_joined 1) = ''bob''" "active_room_id (sess bob_joined 1) = 1"
  "reading (sess bob_joined 1)" "protocol_negotiated (sess bob_joined 1)" "password bob_joined = []"
  "history_limit bob_joined = 100"
  "map (\<lambda>(rid, r). (rid, rm_name r, rm_owner r, rm_members r)) (rooms bob_joined) =
     [(1, ''lobby'', [], [1]), (2, ''dev'', ''ann'', [0])]"
  by (simp_all add: bob_joined_def handle_message_def has_password_def handle_authorised_def handle_proof_def
      is_banned_def set_count_def nickname_taken_def bind_identity_def save_identities_def Let_def update_session_def
      reply_def bob_identified_fields created_fields(14) fresh_session_def demo_env_def ann_key_valid ann_verifies
      challenge_not_Nil admit_to_default_room_def move_session_to_room_def DEFAULT_ROOM_ID_def erase_member_def
      insert_member_def set_active_room_id_def map_modify_def set_erase_def del: One_nat_def)

lemma reachable_bob_joined: "reachable demo_env bob_joined"
proof -
  have "reachable demo_env (accept created)" using reachable.step [OF reachable_created, of Accept] by simp
  moreover have "event_enabled (HandshakeDone 1) (accept created)"
    by (simp add: accept_def join_def created_fields Let_def fresh_session_def)
  ultimately have "reachable demo_env (handshake_done 1 (accept created))"
    using reachable.step [of demo_env "accept created" "HandshakeDone 1"] by simp
  then have "reachable demo_env bob_connected"
    unfolding bob_connected_def by (rule reachable_message) (simp_all add: handshake_done_def update_session_def)
  then have "reachable demo_env bob_identified"
    unfolding bob_identified_def
    by (rule reachable_message) (simp_all add: bob_connected_fields bob_valid ann_key_valid del: One_nat_def)
  then show ?thesis
    unfolding bob_joined_def
    by (rule reachable_message) (simp_all add: bob_identified_fields ann_signature_valid del: One_nat_def)
qed

lemma bob_in_dev_fields:
  "sessions bob_in_dev = [0, 1]" "nickname (sess bob_in_dev 0) = ''ann''" "active_room_id (sess bob_in_dev 0) = 2"
  "reading (sess bob_in_dev 0)" "protocol_negotiated (sess bob_in_dev 0)" "password bob_in_dev = []"
  "nickname (sess bob_in_dev 1) = ''bob''"
  "map (\<lambda>(rid, r). (rid, rm_name r, rm_owner r, rm_members r)) (rooms bob_in_dev) =
     [(1, ''lobby'', [], []), (2, ''dev'', ''ann'', [0, 1])]"
proof -
  obtain lobby dev where rooms: "rooms bob_joined = [(1, lobby), (2, dev)]" "rm_name lobby = ''lobby''"
      "rm_name dev = ''dev''" "rm_members lobby = [1]" "rm_members dev = [0]" "rm_owner dev = ''ann''" "rm_owner lobby = []"
    using bob_joined_fields(12) by (auto simp: map_eq_Cons_conv)
  have ids: "rm_id dev = 2" 
    using rooms_invD(4) [OF server_invD(1) [OF reachable_inv [OF reachable_bob_joined]], of 2 dev] rooms(1) by simp
  show "sessions bob_in_dev = [0, 1]" "nickname (sess bob_in_dev 0) = ''ann''" "active_room_id (sess bob_in_dev 0) = 2"
    "reading (sess bob_in_dev 0)" "protocol_negotiated (sess bob_in_dev 0)" "password bob_in_dev = []"
    "nickname (sess bob_in_dev 1) = ''bob''"
    "map (\<lambda>(rid, r). (rid, rm_name r, rm_owner r, rm_members r)) (rooms bob_in_dev) =
       [(1, ''lobby'', [], []), (2, ''dev'', ''ann'', [0, 1])]"
    using rooms ids
    by (simp_all add: bob_in_dev_def handle_message_def has_password_def handle_authorised_def handle_join_room_def
        or_error_def join_room_def find_room_by_name_def bob_joined_fields(1-11) normalized_room_name_def tolower_def
        isupper_def byte_def Let_def move_session_to_room_def erase_member_def insert_member_def
        set_active_room_id_def map_modify_def set_erase_def del: One_nat_def)
qed

lemma reachable_bob_in_dev: "reachable demo_env bob_in_dev"
  unfolding bob_in_dev_def
  by (rule reachable_message [OF reachable_bob_joined]) (simp_all add: bob_joined_fields dev_valid del: One_nat_def)

end
