(* ===== verification/Server_Properties.thy ===== *)
theory Server_Properties
  imports Server_Example
begin

text \<open>
  What the server guarantees, on top of its invariant: who may join and under which name,
  who may change or moderate a room, and how the files behave.
\<close>

section \<open>Rooms and members\<close>

text \<open>
  C1: In every reachable state there are at most 32 rooms, the lobby among them; identifiers
  are not zero and name one room each; no two rooms have names that differ only in letter
  case; names and topics are valid; and no room keeps more messages than the history limit.
\<close>

theorem rooms_invariant:
  assumes "reachable E st"
  shows "length (rooms st) \<le> 32 \<and> map_find (rooms st) DEFAULT_ROOM_ID \<noteq> None \<and>
    distinct (map fst (rooms st)) \<and>
    distinct (map (\<lambda>(rid, r). normalized_room_name (rm_name r)) (rooms st)) \<and>
    (\<forall>(rid, r) \<in> set (rooms st). rid = rm_id r \<and> rid \<noteq> 0 \<and> is_valid_room_name (rm_name r) \<and>
       is_valid_room_topic (rm_topic r) \<and> length (rm_recent r) \<le> history_limit st)"
proof -
  have inv: "rooms_inv (history_limit st) (next_room_id st) (rooms st)"
    using server_invD(1) [OF reachable_inv [OF assms]] .
  have "map_find (rooms st) DEFAULT_ROOM_ID \<noteq> None"
    using rooms_invD(2) [OF inv] by (simp add: map_of_eq_None_iff)
  then show ?thesis
    using inv keys_distinct [OF rooms_invD(1) [OF inv]] by (auto simp: rooms_inv_def protocol_limits)
qed

theorem rooms_invariant_witness:
  "map_find (rooms joined) DEFAULT_ROOM_ID \<noteq> None \<and> length (rooms joined) \<le> 32"
  using rooms_invariant [OF reachable_joined] by blast

text \<open>
  In every reachable state, the methods of the server being taken as steps, a session that is listed in a room has joined with a nickname
  and has that room as its active room, so no session is listed in two rooms. (\<open>Membership_Threads\<close> has the interleavings inside the methods.)
\<close>

theorem members_invariant:
  assumes "reachable E st" "(rid, r) \<in> set (rooms st)" "m \<in> set (rm_members r)"
  shows "active_room_id (sess st m) = rid \<and> nickname (sess st m) \<noteq> [] \<and>
    (\<forall>(rid', r') \<in> set (rooms st). m \<in> set (rm_members r') \<longrightarrow> rid' = rid)"
proof -
  note inv = server_invD(2) [OF reachable_inv [OF assms(1)]]
  show ?thesis using members_invD [OF inv assms(2)] assms(3) members_invD(2) [OF inv] by blast
qed

theorem members_invariant_witness:
  "active_room_id (sess joined 0) = 1 \<and> nickname (sess joined 0) \<noteq> []"
  using members_invariant [OF reachable_joined, of 1 _ 0] by (simp add: joined_fields)

text \<open>
  C17: In every reachable state no two connected sessions have the same nickname, and none
  has the nickname of the local user.
\<close>

theorem nicknames_unique:
  assumes "reachable E st" "s \<in> set (sessions st)" "t \<in> set (sessions st)"
    and "nickname (sess st s) \<noteq> []" "nickname (sess st s) = nickname (sess st t)"
  shows "s = t \<and> nickname (sess st s) \<noteq> local_nickname st"
  using server_invD(3) [OF reachable_inv [OF assms(1)]] assms(2-5) unfolding nicknames_inv_def by blast

theorem nicknames_unique_witness: "nickname (sess joined 0) \<noteq> local_nickname joined"
  using nicknames_unique [OF reachable_joined, of 0 0] by (simp add: joined_fields)

text \<open>
  In every reachable state a session that has a nickname has completed the protocol
  handshake, has given the password if the server has one, has a valid nickname, and that
  nickname is bound to an identity key.
\<close>

theorem joined_is_authorised:
  assumes "reachable E st" "nickname (sess st s) \<noteq> []"
  shows "protocol_negotiated (sess st s) \<and> (has_password st \<longrightarrow> authenticated (sess st s)) \<and>
    is_valid_nickname (nickname (sess st s)) \<and> map_find (identities st) (nickname (sess st s)) \<noteq> None"
  using server_invD(4) [OF reachable_inv [OF assms(1)], of s] assms(2)
  by (auto simp: session_inv_def admitted_def has_password_def)

theorem joined_is_authorised_witness:
  "protocol_negotiated (sess joined 0) \<and> map_find (identities joined) ''ann'' \<noteq> None"
  using joined_is_authorised [OF reachable_joined, of 0] by (simp add: joined_fields)

section \<open>Identities and admission\<close>

text \<open>The part of the state that decides who a session is.\<close>

definition credentials :: "client_session \<Rightarrow> string \<times> string \<times> string \<times> string \<times> bool \<times> bool" where
  "credentials c = (nickname c, pending_nickname c, pending_public_key_hex c, pending_challenge c,
     authenticated c, protocol_negotiated c)"

definition auth_view :: "chat_server \<Rightarrow> string \<times> string \<times> (string \<times> string) list \<times>
    (session_id \<Rightarrow> string \<times> string \<times> string \<times> string \<times> bool \<times> bool)" where
  "auth_view st = (password st, local_nickname st, identities st, \<lambda>t. credentials (sess st t))"

lemma auth_view_base [simp]:
  "auth_view (effects_update g st) = auth_view st"
  "auth_view (broadcast_room E rid msg n st) = auth_view st"
  "auth_view (broadcast_users rid st) = auth_view st"
  "auth_view (broadcast_room_lists st) = auth_view st"
  "auth_view (persist_room E rid st) = auth_view st"
  "auth_view (rooms_update h st) = auth_view st"
  "auth_view (sessions_update p st) = auth_view st"
  "auth_view (local_room_id_update l st) = auth_view st"
  "auth_view (banned_nicks_update b st) = auth_view st"
  "auth_view (reply s answer st) = auth_view st"
  by (simp_all add: auth_view_def)

lemma auth_view_session:
  "(\<And>c. credentials (f c) = credentials c) \<Longrightarrow> auth_view (update_session s f st) = auth_view st"
  by (auto simp: auth_view_def update_session_def)

lemma auth_view_ops [simp]:
  "auth_view (set_active_room_id s a st) = auth_view st"
  "auth_view (erase_member rid s st) = auth_view st"
  "auth_view (insert_member rid s st) = auth_view st"
  "auth_view (stop_reading s st) = auth_view st"
  "auth_view (add_room name owner st) = auth_view st"
  "auth_view (save_bans st) = auth_view st"
  by (auto simp: fun_eq_iff auth_view_def set_active_room_id_def erase_member_def insert_member_def stop_reading_def
      update_session_def credentials_def add_room_def Let_def save_bans_def)

lemma auth_view_moves [simp]:
  "auth_view (disconnect E s announce st) = auth_view st"
  "auth_view (move_session_to_room E s target announce st) = auth_view st"
  "auth_view (move_local_to_room E target announce st) = auth_view st"
  by (simp_all add: disconnect_def move_session_to_room_def move_local_to_room_def Let_def split: option.split)

lemma auth_view_hang_up [simp]: "auth_view (hang_up E s st) = auth_view st"
  by (simp add: hang_up_def)

lemma auth_view_kick [simp]: "auth_view (snd (kick_user_in_room E rid nick reason st)) = auth_view st"
  by (simp add: kick_user_in_room_def Let_def split: option.split)

lemma auth_view_kickD: "kick_user_in_room E rid nick reason st = (b, st') \<Longrightarrow> auth_view st' = auth_view st"
  using auth_view_kick [of E rid nick reason st] by simp

lemma auth_view_results:
  "set_topic_for_room E rid actor priv topic st = Inr st' \<Longrightarrow> auth_view st' = auth_view st"
  "join_room E s name st = Inr st' \<Longrightarrow> auth_view st' = auth_view st"
  "leave_room E s st = Inr st' \<Longrightarrow> auth_view st' = auth_view st"
  "create_room E s name st = Inr st' \<Longrightarrow> auth_view st' = auth_view st"
  "kick_from E s nick reason st = Inr st' \<Longrightarrow> auth_view st' = auth_view st"
  "create_local_room E name st = Inr st' \<Longrightarrow> auth_view st' = auth_view st"
  "create_admin_room E name st = Inr st' \<Longrightarrow> auth_view st' = auth_view st"
  "join_local_room E name st = Inr st' \<Longrightarrow> auth_view st' = auth_view st"
  "leave_local_room E st = Inr st' \<Longrightarrow> auth_view st' = auth_view st"
  "kick_user_in_named_room E room nick reason st = Inr st' \<Longrightarrow> auth_view st' = auth_view st"
  by (auto simp: set_topic_for_room_def join_room_def leave_room_def create_room_def kick_from_def
      create_local_room_def create_admin_room_def join_local_room_def leave_local_room_def
      kick_user_in_named_room_def Let_def dest: auth_view_kickD
      split: option.splits if_splits prod.splits)

lemma auth_view_private [simp]:
  "auth_view (snd (send_private_in_room E a b m rid mirror st)) = auth_view st"
  by (simp add: send_private_in_room_def Let_def split: option.split)

lemma auth_view_quota: "consume_message_quota E s st = (b, st') \<Longrightarrow> auth_view st' = auth_view st"
  by (auto simp: consume_message_quota_def Let_def credentials_def auth_view_session split: prod.splits)

lemma auth_view_or_error:
  "(\<And>st'. r = Inr st' \<Longrightarrow> auth_view st' = auth_view st) \<Longrightarrow> auth_view (or_error s r st) = auth_view st"
  "(\<And>st'. r = Inr st' \<Longrightarrow> auth_view st' = auth_view st) \<Longrightarrow> auth_view (keep_on_error st r) = auth_view st"
  by (cases r; simp add: or_error_def keep_on_error_def)+

lemma auth_view_handlers:
  "auth_view (handle_leave E s st) = auth_view st"
  "auth_view (handle_disconnect E s st) = auth_view st"
  "auth_view (handle_list_rooms s st) = auth_view st"
  "auth_view (handle_create E s name st) = auth_view st"
  "auth_view (handle_join_room E s name st) = auth_view st"
  "auth_view (handle_topic E s topic st) = auth_view st"
  "auth_view (handle_kick E s nick reason st) = auth_view st"
  by (auto simp: handle_leave_def handle_disconnect_def handle_list_rooms_def send_room_list_def handle_create_def
      handle_join_room_def handle_topic_def send_topic_def set_topic_def handle_kick_def
      intro!: auth_view_or_error dest: auth_view_results split: option.split)

lemma auth_view_messages:
  "auth_view (handle_chat E s body st) = auth_view st"
  "auth_view (handle_whisper E s target body st) = auth_view st"
  by (auto simp: handle_chat_def handle_whisper_def send_private_from_def Let_def
      dest: auth_view_quota split: prod.split bool.split)

lemma auth_viewD:
  assumes "auth_view st' = auth_view st"
  shows "identities st' = identities st" "nickname (sess st' t) = nickname (sess st t)"
    "password st' = password st"
  using assms by (auto simp: auth_view_def credentials_def dest: fun_cong [of _ _ t])

lemma nickname_update:
  "(\<And>c. nickname (f c) = nickname c) \<Longrightarrow> nickname (sess (update_session s f st) t) = nickname (sess st t)"
  by (simp add: update_session_def)

text \<open>What the handlers that do change credentials keep.\<close>

lemma early_handlers_keep:
  "nickname (sess (handle_hello s v st) t) = nickname (sess st t)"
  "identities (handle_hello s v st) = identities st"
  "nickname (sess (handle_authenticate E s pw st) t) = nickname (sess st t)"
  "identities (handle_authenticate E s pw st) = identities st"
  "nickname (sess (handle_identify E s nick key st) t) = nickname (sess st t)"
  "identities (handle_identify E s nick key st) = identities st"
  by (auto simp: handle_hello_def handle_authenticate_def handle_identify_def Let_def nickname_update
      auth_viewD [OF auth_view_hang_up] update_session_def split: option.split)

lemma host_step_auth:
  assumes "\<And>nick key. e \<noteq> RegisterLocal nick key"
  shows "auth_view (host_step E e st) = auth_view st"
proof (cases e)
  case (ServerBroadcast msg)
  have "auth_view (fold (\<lambda>rid. broadcast_room E rid m []) rids st') = auth_view st'" for rids m st'
    by (induction rids arbitrary: st') simp_all
  with ServerBroadcast show ?thesis by (simp add: broadcast_server_def)
next
  case (BanUser nick reason)
  then show ?thesis by (simp add: ban_user_def Let_def split: option.split)
next
  case StopServer
  then show ?thesis by (simp add: stop_def Let_def auth_view_def)
next
  case StartLocalUser
  then show ?thesis by (simp add: start_local_user_def Let_def split: option.split)
qed (use assms in \<open>auto simp: broadcast_def send_private_def show_room_list_local_def kick_user_def unban_user_def
      set_local_topic_def set_admin_topic_def Let_def
      intro!: auth_view_or_error dest: auth_view_results split: option.splits\<close>)

lemma auth_view_failures [simp]:
  "auth_view (handshake_failed E s st) = auth_view st" "auth_view (read_failed E s st) = auth_view st"
  by (simp_all add: handshake_failed_def read_failed_def)

lemma auth_view_handshake: "auth_view (handshake_done s st) = auth_view st"
  by (simp add: handshake_done_def auth_view_session credentials_def)

lemma auth_view_accept: "server_inv st \<Longrightarrow> auth_view (accept st) = auth_view st"
  using server_invD(5) [of st "next_session st"]
  by (auto simp: accept_def Let_def join_def auth_view_def fun_eq_iff)

text \<open>Who a session is changes only in the four handlers of the admission protocol.\<close>

definition admission_message :: "client_message \<Rightarrow> bool" where
  "admission_message m = (case m of Hello _ \<Rightarrow> True | Authenticate _ \<Rightarrow> True | Identify _ _ \<Rightarrow> True
     | IdentityProof _ \<Rightarrow> True | _ \<Rightarrow> False)"

lemma handle_message_auth:
  "\<not> admission_message m \<Longrightarrow> auth_view (handle_message E s m st) = auth_view st"
  by (cases m) (simp_all add: admission_message_def handle_message_def handle_authorised_def auth_view_handlers auth_view_messages)

text \<open>
  How the bindings can change: not at all, or by one new binding of a valid nickname that had
  none to a valid key.
\<close>

definition binds :: "(string \<times> string) list \<Rightarrow> (string \<times> string) list \<Rightarrow> bool" where
  "binds ids ids' \<longleftrightarrow> ids' = ids \<or> (\<exists>nick key. is_valid_nickname nick \<and> is_hex key 64 \<and>
     map_find ids nick = None \<and> ids' = map_assign nick key ids)"

lemma binds_refl [simp]: "binds ids ids"
  by (simp add: binds_def)

lemma binds_bind_identity:
  assumes "is_valid_nickname nick" "is_hex key 64"
  shows "binds (identities st) (identities (snd (bind_identity nick key st)))"
  using assms by (auto simp: binds_def bind_identity_def Let_def save_identities_def split: option.split)

lemma binds_proof:
  assumes "server_inv st"
  shows "binds (identities st) (identities (handle_proof E s g st))"
proof -
  let ?nick = "pending_nickname (sess st s)" and ?key = "pending_public_key_hex (sess st s)"
  have valid: "is_valid_nickname ?nick" "is_hex ?key 64" if "?nick \<noteq> []"
    using server_invD(4) [OF assms, of s] that by (auto simp: session_inv_def)
  obtain b st1 where bind: "bind_identity ?nick ?key st = (b, st1)" by (cases "bind_identity ?nick ?key st")
  have "binds (identities st) (identities st1)" if "?nick \<noteq> []"
    using binds_bind_identity [OF valid [OF that]] bind by (metis snd_conv)
  moreover have "identities (handle_proof E s g st) = identities st \<or>
      ?nick \<noteq> [] \<and> identities (handle_proof E s g st) = identities st1"
    using bind by (auto simp: handle_proof_def Let_def admit_to_default_room_def auth_viewD(1) [OF auth_view_hang_up]
        auth_viewD(1) [OF auth_view_moves(2)] update_session_def split: bool.split)
  ultimately show ?thesis using binds_refl by metis
qed

lemma binds_message:
  assumes "server_inv st"
  shows "binds (identities st) (identities (handle_message E s m st))"
proof (cases "admission_message m")
  case True
  then show ?thesis
    using binds_proof [OF assms]
    by (cases m) (simp_all add: admission_message_def handle_message_def handle_authorised_def early_handlers_keep
        auth_viewD(1) [OF auth_view_hang_up])
next
  case False
  then show ?thesis using auth_viewD(1) [OF handle_message_auth [of m E s st]] by simp
qed

lemma identities_step:
  assumes "server_inv st"
  shows "binds (identities st) (identities (server_step E e st))"
proof (cases e)
  case (Line s line)
  show ?thesis
    using binds_message [OF assms] Line
    by (auto simp: handle_line_def Let_def auth_viewD(1) [OF auth_view_hang_up] split: result.split)
next
  case (Host h)
  show ?thesis
  proof (cases "\<exists>n k. h = RegisterLocal n k")
    case True
    with Host show ?thesis
      by (auto simp: register_local_identity_def identity_available_for_def utils_is_valid_nickname_eq
          is_hex_of_len_eq sodium_sizes intro!: binds_bind_identity split: if_splits)
  next
    case False
    with Host auth_viewD(1) [OF host_step_auth [of h E st]] show ?thesis by simp
  qed
qed (simp_all add: auth_viewD(1) [OF auth_view_accept [OF assms]] auth_viewD(1) [OF auth_view_failures(1)]
      auth_viewD(1) [OF auth_view_failures(2)] auth_viewD(1) [OF auth_view_handshake])

text \<open>
  C18: A nickname's identity key never changes. Whatever happens - any event in any reachable
  state - a nickname that is bound to a key stays bound to that key.
\<close>

theorem identity_binding_permanent:
  assumes "reachable E st" "event_enabled e st" "map_find (identities st) nick = Some key"
  shows "map_find (identities (server_step E e st)) nick = Some key"
  using identities_step [OF reachable_inv [OF assms(1)], of E e] assms(3)
    server_invD(7) [OF reachable_inv [OF assms(1)]]
  by (auto simp: binds_def)

theorem identity_binding_permanent_witness:
  "map_find (identities (server_step demo_env (Host (RegisterLocal ''ann'' (replicate 64 CHR ''0''))) joined)) ''ann''
     = Some ann_key"
  by (rule identity_binding_permanent [OF reachable_joined]) (simp_all add: joined_fields)

lemma nickname_message:
  assumes "\<And>g. m \<noteq> IdentityProof g"
  shows "nickname (sess (handle_message E s m st) t) = nickname (sess st t)"
proof (cases "admission_message m")
  case True
  with assms show ?thesis
    by (cases m) (auto simp: admission_message_def handle_message_def handle_authorised_def early_handlers_keep
        auth_viewD(2) [OF auth_view_hang_up])
next
  case False
  then show ?thesis by (rule auth_viewD(2) [OF handle_message_auth])
qed

lemma nickname_event:
  assumes "server_inv st" "\<And>u line g. e = Line u line \<Longrightarrow> decode_client_frame line \<noteq> Success (IdentityProof g)"
  shows "nickname (sess (server_step E e st) t) = nickname (sess st t)"
proof (cases e)
  case (Line u line)
  with assms(2) [OF Line] show ?thesis
    using nickname_message
    by (auto simp: handle_line_def Let_def auth_viewD(2) [OF auth_view_hang_up] split: result.split)
next
  case (Host h)
  show ?thesis
  proof (cases "\<exists>n k. h = RegisterLocal n k")
    case True
    with Host show ?thesis by (auto simp: register_local_identity_def bind_identity_frame)
  next
    case False
    with Host host_step_auth [of h E st] show ?thesis by (auto dest: auth_viewD(2))
  qed
qed (use auth_viewD(2) [OF auth_view_accept [OF assms(1)]] in
    \<open>auto simp: auth_viewD(2) [OF auth_view_failures(1)] auth_viewD(2) [OF auth_view_failures(2)]
      auth_viewD(2) [OF auth_view_handshake]\<close>)

lemma bind_identity_result:
  assumes "server_inv st" "bind_identity nick key st = (True, st')"
  shows "map_find (identities st') nick = Some key"
  using assms server_invD(7) [OF assms(1)]
  by (auto simp: bind_identity_def Let_def save_identities_def split: option.splits if_splits)

text \<open>The one way a session gets a nickname: the last branch of \<open>handle_proof\<close>.\<close>

lemma handle_proof_admits:
  assumes "server_inv st" "nickname (sess st t) = []" "nickname (sess (handle_proof E s g st) t) \<noteq> []"
  defines "c \<equiv> sess st s"
  shows "t = s \<and> verify_identity_signature (crypto E) (pending_public_key_hex c) (pending_challenge c) g \<and>
    pending_challenge c \<noteq> [] \<and> \<not> is_banned (pending_nickname c) st \<and> \<not> nickname_taken (pending_nickname c) st \<and>
    nickname (sess (handle_proof E s g st) s) = pending_nickname c \<and>
    map_find (identities (handle_proof E s g st)) (pending_nickname c) = Some (pending_public_key_hex c)"
proof -
  obtain b st1 where bind: "bind_identity (pending_nickname c) (pending_public_key_hex c) st = (b, st1)"
    by (cases "bind_identity (pending_nickname c) (pending_public_key_hex c) st")
  have frame: "sess st1 = sess st" using bind_identity_frame(2) bind by (metis snd_conv)
  have b: b
    using assms(2,3) bind frame unfolding c_def
    by (auto simp: handle_proof_def Let_def auth_viewD(2) [OF auth_view_hang_up] split: if_splits bool.splits)
  have bound: "map_find (identities st1) (pending_nickname c) = Some (pending_public_key_hex c)"
    using bind_identity_result [OF assms(1)] bind b by simp
  show ?thesis
    using assms(2,3) bind b frame bound unfolding c_def
    by (auto simp: handle_proof_def Let_def admit_to_default_room_def auth_viewD(1,2) [OF auth_view_hang_up]
        auth_viewD(1,2) [OF auth_view_moves(2)] update_session_def split: if_splits)
qed

text \<open>
  C2: A session gets a nickname only by proving its key. Whenever an event in a reachable state
  gives a nickname to a session that had none, the event is a \<open>PROOF\<close> frame of that very
  session, whose signature verifies for the public key and the non-empty challenge the session
  was waiting on; the nickname is the one it had announced, not banned and not in use; the
  session has passed the password check; and the nickname is then bound to that key.
\<close>

theorem admission_requires_proof:
  assumes "reachable E st" "nickname (sess st s) = []" "nickname (sess (server_step E e st) s) \<noteq> []"
  shows "\<exists>line g. e = Line s line \<and> decode_client_frame line = Success (IdentityProof g) \<and>
    verify_identity_signature (crypto E) (pending_public_key_hex (sess st s)) (pending_challenge (sess st s)) g \<and>
    pending_challenge (sess st s) \<noteq> [] \<and>
    \<not> is_banned (pending_nickname (sess st s)) st \<and> \<not> nickname_taken (pending_nickname (sess st s)) st \<and>
    (has_password st \<longrightarrow> authenticated (sess st s)) \<and>
    nickname (sess (server_step E e st) s) = pending_nickname (sess st s) \<and>
    map_find (identities (server_step E e st)) (pending_nickname (sess st s)) = Some (pending_public_key_hex (sess st s))"
proof -
  note inv = reachable_inv [OF assms(1)]
  obtain u line g where e: "e = Line u line" "decode_client_frame line = Success (IdentityProof g)"
    using nickname_event [OF inv, of e E s] assms(2,3) by metis
  then have step: "server_step E e st = handle_proof E u g st"
    and pw: "has_password st \<longrightarrow> authenticated (sess st u)"
    using assms(2,3)
    by (auto simp: handle_line_def handle_message_def handle_authorised_def auth_viewD(2) [OF auth_view_hang_up]
        split: if_splits)
  from handle_proof_admits [OF inv assms(2), of E u g] assms(3) step e pw show ?thesis by auto
qed

theorem admission_requires_proof_witness:
  "\<exists>line. decode_client_frame line = Success (IdentityProof ann_signature) \<and>
     nickname (sess (server_step demo_env (Line 0 line) identified) 0) = ''ann'' \<and>
     pending_challenge (sess identified 0) \<noteq> [] \<and> \<not> is_banned ''ann'' identified"
proof -
  obtain line where line: "decode_client_frame line = Success (IdentityProof ann_signature)"
    "server_step demo_env (Line 0 line) identified = joined"
    using message_line [of "IdentityProof ann_signature" demo_env 0 identified] ann_signature_valid
    by (auto simp: joined_def)
  have "nickname (sess identified 0) = []" by (simp add: identified_fields fresh_session_def)
  from admission_requires_proof [OF reachable_identified this, of "Line 0 line"] line show ?thesis
    by (auto simp: joined_fields identified_fields)
qed

end
