(* ===== verification/Server_Delivery.thy ===== *)
theory Server_Delivery
  imports Server_Properties
begin

text \<open>
  What reaches whom: the lines a session reads from its stream, the
  recipients of chat lines and whispers, and the times stored with messages.
\<close>

section \<open>Reading the stream\<close>

text \<open>
  A stream of frames is read as the messages that were sent. However many well-formed
  client messages are encoded and concatenated, the session's line reader cuts the bytes into
  exactly their frames, with nothing left over, and each line decodes to its message.
\<close>

theorem stream_of_messages:
  assumes "\<forall>m \<in> set ms. wf_client m" "map encode_client_frame ms = map Success ws"
  shows "snd (read_lines (concat ws)) = [] \<and>
    map decode_client_frame (fst (read_lines (concat ws))) = map Success ms"
proof -
  have "ws = map (\<lambda>m. encode_loop (serialize_client m) @ [CHR 0x0A]) ms"
    using assms
    by (induction ms arbitrary: ws)
      (auto simp: encode_client_frame_wf encode_frame_fits client_payload_fits map_eq_Cons_conv Cons_eq_map_conv)
  moreover have "decode_client_frame (encode_loop (serialize_client m)) = Success m" if "wf_client m" for m
    using decode_frame_encoded(2) [OF client_payload_fits [OF that]] that
    by (simp add: decode_client_frame_def decode_message_frame_def parse_serialize_client)
  ultimately show ?thesis using assms(1) read_lines_frames [of "map serialize_client ms"] by (simp add: comp_def)
qed

theorem stream_of_messages_witness:
  "\<exists>ws. map encode_client_frame [Leave, Chat ''hi''] = map Success ws \<and>
     map decode_client_frame (fst (read_lines (concat ws))) = map Success [Leave, Chat ''hi'']"
proof -
  have wf: "\<forall>m \<in> set [Leave, Chat ''hi'']. wf_client m"
    by (simp add: is_valid_text_def protocol_limits ctype_defs byte_def)
  obtain w1 w2 where "encode_client_frame Leave = Success w1" "encode_client_frame (Chat ''hi'') = Success w2"
    using client_frames.encodes [of Leave] client_frames.encodes [of "Chat ''hi''"] wf by auto
  then have "map encode_client_frame [Leave, Chat ''hi''] = map Success [w1, w2]" by simp
  with stream_of_messages [OF wf this] show ?thesis by blast
qed

section \<open>Recipients\<close>

lemma deliver_ios:
  "encode_server_frame msg = Success w \<Longrightarrow>
     ios (deliver msg s out) t = (if t = s then post_task (PostWrite w) (ios out t) else ios out t)"
  by (simp add: deliver_def)

lemma deliver_other: "t \<noteq> s \<Longrightarrow> ios (deliver msg s out) t = ios out t"
  by (simp add: deliver_def split: result.split)

lemma deliver_all_ios:
  "encode_server_frame msg = Success w \<Longrightarrow> distinct members \<Longrightarrow>
     ios (deliver_all members msg out) t =
       (if t \<in> set members then post_task (PostWrite w) (ios out t) else ios out t)"
  unfolding deliver_all_def by (induction members arbitrary: out) (auto simp: deliver_ios)

lemma deliver_all_other: "t \<notin> set members \<Longrightarrow> ios (deliver_all members msg out) t = ios out t"
  unfolding deliver_all_def by (induction members arbitrary: out) (auto simp: deliver_other)

lemma other_effects_ios [simp]:
  "ios (on_ui f out) = ios out" "ios (log_write b line out) = ios out" "ios (store r out) = ios out"
  "ios (tick out) = ios out" "ios (store_message E rid n m out) = ios out"
  by (simp_all add: on_ui_def log_write_def store_def tick_def store_message_def next_message_timestamp_def Let_def)

lemma deliver_ios_cong: "ios a = ios b \<Longrightarrow> ios (deliver msg s a) = ios (deliver msg s b)"
  by (simp add: deliver_def split: result.split)

lemma deliver_all_ios_cong: "ios a = ios b \<Longrightarrow> ios (deliver_all ms msg a) = ios (deliver_all ms msg b)"
  unfolding deliver_all_def
proof (induction ms arbitrary: a b)
  case (Cons m ms)
  show ?case using Cons.IH [OF deliver_ios_cong [OF Cons.prems, of msg m]] by simp
qed simp

lemma broadcast_room_ios:
  assumes "map_find (rooms st) rid = Some room"
  shows "ios (effects (broadcast_room E rid msg n st)) =
    ios (deliver_all (rm_members room) (RoomText rid msg) (effects st))"
  using assms deliver_all_ios_cong [of "on_ui (push_message msg) (effects st)" "effects st"]
  by (simp add: broadcast_room_def Let_def)

text \<open>The text of a chat line is a valid room text that fits in a frame.\<close>

definition clock_text :: "string \<Rightarrow> bool" where
  "clock_text t \<longleftrightarrow> length t \<le> 15 \<and> plain_text t"

lemma plain_simps [simp]: "plain_text []" "plain_text (c # s) \<longleftrightarrow> \<not> iscntrl c \<and> plain_text s"
  by (simp_all add: plain_text_def)

lemma plain_append [simp]: "plain_text (a @ b) \<longleftrightarrow> plain_text a \<and> plain_text b"
  by (simp add: plain_text_def)

lemma nickname_plain: "is_valid_nickname n \<Longrightarrow> plain_text n \<and> length n \<le> 31"
  by (auto simp: is_valid_nickname_def plain_text_def list_all_iff list_ex_iff split: if_splits)

lemma valid_text_append:
  assumes "plain_text a" "a \<noteq> []" "is_valid_text b MAX_CHAT_LENGTH" "length a + MAX_CHAT_LENGTH \<le> n"
  shows "is_valid_text (a @ b) n"
  using assms by (auto simp: is_valid_text_def plain_text_def list_all_iff list_ex_iff split: if_splits)

lemma chat_line_deliverable:
  assumes "clock_text t" "is_valid_nickname n" "is_valid_text body MAX_CHAT_LENGTH" "rid \<noteq> 0"
  shows "deliverable (RoomText rid (''['' @ t @ ''] '' @ n @ '': '' @ body))"
proof -
  let ?head = "''['' @ t @ ''] '' @ n @ '': ''"
  have head: "plain_text ?head" "length ?head \<le> 51" "?head \<noteq> []"
    using assms(1) nickname_plain [OF assms(2)] by (simp_all add: clock_text_def iscntrl_def byte_def)
  have "is_valid_text (?head @ body) MAX_FRAME_LENGTH"
    using head assms(3) by (intro valid_text_append) (simp_all add: protocol_limits)
  moreover have "length (?head @ body) \<le> 1051"
    using head(2) assms(3) by (auto simp: is_valid_text_def protocol_limits split: if_splits)
  ultimately show ?thesis
    using assms(4) length_word_to_string [of rid] by (simp add: deliverable_def max_payload_length_eq)
qed

lemma quota_keeps:
  assumes "consume_message_quota E s st = (b, st')"
  shows "rooms st' = rooms st" "ios (effects st') = ios (effects st)"
    "active_room_id (sess st' t) = active_room_id (sess st t)" "nickname (sess st' t) = nickname (sess st t)"
    "storage_requests (effects st') = storage_requests (effects st)" "local_nickname st' = local_nickname st"
    "calls (effects st') = Suc (calls (effects st))" "local_room_id st' = local_room_id st"
  using assms by (auto simp: consume_message_quota_def Let_def update_session_def tick_def split: prod.splits)

text \<open>
  C19: A chat message reaches exactly the members of its room. When a joined session sends a
  valid message within its quota, one frame is queued for every member of its active room,
  the sender included, and nothing for anyone else; the frame decodes to the line with the
  time, the sender's nickname and the body. Hypothesis on the C library: the formatted time is
  short and printable, as \<open>strftime\<close> gives it for \<open>%H:%M:%S\<close>.
\<close>

theorem chat_reaches_room:
  assumes "reachable E st" "map_find (rooms st) (active_room_id (sess st s)) = Some room"
    and "nickname (sess st s) \<noteq> []" "is_valid_chat_message body" "fst (consume_message_quota E s st)"
    and "\<forall>n. clock_text (timestamp E n)"
  shows "\<exists>w. decode_server_frame w = Success (RoomText (active_room_id (sess st s))
      (''['' @ timestamp E (Suc (calls (effects st))) @ ''] '' @ nickname (sess st s) @ '': '' @ body)) \<and>
    (\<forall>t. ios (effects (handle_chat E s body st)) t =
       (if t \<in> set (rm_members room) then post_task (PostWrite w) (ios (effects st) t) else ios (effects st) t))"
proof -
  note inv = reachable_inv [OF assms(1)]
  let ?rid = "active_room_id (sess st s)"
  let ?line = "''['' @ timestamp E (Suc (calls (effects st))) @ ''] '' @ nickname (sess st s) @ '': '' @ body"
  obtain st1 where quota: "consume_message_quota E s st = (True, st1)"
    using assms(5) by (cases "consume_message_quota E s st") auto
  note keep = quota_keeps [OF quota]
  have room: "(?rid, room) \<in> set (rooms st)" using assms(2) by (rule map_of_SomeD)
  have valid: "is_valid_nickname (nickname (sess st s))" "?rid \<noteq> 0" "distinct (rm_members room)"
    using server_invD(4) [OF inv, of s] assms(3) rooms_invD(4) [OF server_invD(1) [OF inv] room]
      ascending_distinct [OF members_invD(1) [OF server_invD(2) [OF inv] room]]
    by (auto simp: session_inv_def admitted_def)
  have "deliverable (RoomText ?rid ?line)"
    using chat_line_deliverable valid assms(4,6) by (simp add: is_valid_chat_message_eq)
  then obtain w where w: "encode_server_frame (RoomText ?rid ?line) = Success w"
      "decode_server_frame w = Success (RoomText ?rid ?line)"
    using server_frames.encodes server_frames.roundtrip by fastforce
  have "ios (effects (handle_chat E s body st)) t =
      ios (deliver_all (rm_members room) (RoomText ?rid ?line) (tick (effects st1))) t" for t
    using assms(2-4) quota keep by (simp add: handle_chat_def Let_def broadcast_room_ios)
  then have "ios (effects (handle_chat E s body st)) t =
      (if t \<in> set (rm_members room) then post_task (PostWrite w) (ios (effects st) t) else ios (effects st) t)" for t
    using deliver_all_ios [OF w(1) valid(3)] keep(2) by simp
  with w(2) show ?thesis by blast
qed

theorem chat_reaches_room_witness:
  "\<exists>w. decode_server_frame w = Success (RoomText 1 ''[12:00:00] ann: hi'') \<and>
     ios (effects (handle_chat demo_env 0 ''hi'' joined)) 0 = post_task (PostWrite w) (ios (effects joined) 0) \<and>
     ios (effects (handle_chat demo_env 0 ''hi'' joined)) 1 = ios (effects joined) 1"
proof -
  have "fst (consume_message_quota demo_env 0 joined)"
    by (simp add: consume_message_quota_def Let_def quota_step_def joined_fields RATE_LIMIT_MESSAGES_def)
  moreover have "is_valid_chat_message ''hi''" by code_simp
  moreover have "clock_text ''12:00:00''" by code_simp
  ultimately show ?thesis
    using chat_reaches_room [OF reachable_joined, of 0 _ "''hi''"]
    by (fastforce simp: joined_fields demo_env_def)
qed

lemma last_member_named: "last_member_named nick r st = Some m \<Longrightarrow> nickname (sess st m) = nick"
  by (auto simp: last_member_named_def dest: find_SomeD)

lemma deliver_text_other [simp]: "m \<noteq> t \<Longrightarrow> ios (deliver_text l m out) t = ios out t"
  by (simp add: deliver_text_def deliver_other)

lemma deliver_stores [simp]:
  "storage_requests (deliver msg m out) = storage_requests out"
  "storage_requests (deliver_text l m out) = storage_requests out"
  by (simp_all add: deliver_text_def deliver_def split: result.split)

lemma small_effects_store [simp]:
  "storage_requests (on_ui f out) = storage_requests out"
  "storage_requests (log_write b line out) = storage_requests out"
  "storage_requests (tick out) = storage_requests out"
  by (simp_all add: on_ui_def log_write_def tick_def)

lemma private_quiet:
  assumes "nickname (sess st t) \<noteq> target" "nickname (sess st t) \<noteq> nickname (sess st sender)"
    and st': "st' = snd (send_private_in_room E (nickname (sess st sender)) target body rid False st)"
  shows "ios (effects st') t = ios (effects st) t"
    and "storage_requests (effects st') = storage_requests (effects st)" and "rooms st' = rooms st"
proof -
  consider "map_find (rooms st) rid = None" | room where "map_find (rooms st) rid = Some room"
    by (cases "map_find (rooms st) rid") auto
  then have "ios (effects st') t = ios (effects st) t \<and>
      storage_requests (effects st') = storage_requests (effects st) \<and> rooms st' = rooms st"
  proof cases
    case (2 room)
    have "m \<noteq> t" if "last_member_named n room st = Some m" "n = target \<or> n = nickname (sess st sender)" for m n
      using last_member_named [OF that(1)] that(2) assms(1,2) by auto
    with 2 show ?thesis
      unfolding st'
      by (cases "last_member_named target room st"; cases "last_member_named (nickname (sess st sender)) room st")
        (simp_all add: send_private_in_room_def Let_def)
  qed (simp add: st' send_private_in_room_def)
  then show "ios (effects st') t = ios (effects st) t"
    "storage_requests (effects st') = storage_requests (effects st)" "rooms st' = rooms st" by blast+
qed

text \<open>
  C22: A whisper is private. Whatever a session whispers, nothing is queued for any session
  other than those with the target's or the sender's nickname, no room keeps it in its
  history, and nothing is stored.
\<close>

theorem whisper_private:
  assumes "nickname (sess st t) \<noteq> target" "nickname (sess st t) \<noteq> nickname (sess st s)"
  shows "ios (effects (handle_whisper E s target body st)) t = ios (effects st) t \<and>
    rooms (handle_whisper E s target body st) = rooms st \<and>
    storage_requests (effects (handle_whisper E s target body st)) = storage_requests (effects st)"
proof -
  have not_s: "t \<noteq> s" using assms(2) by auto
  have reply: "ios (effects (reply s msg st')) t = ios (effects st') t"
    "storage_requests (effects (reply s msg st')) = storage_requests (effects st')" for msg st'
    using not_s by (simp_all add: reply_def deliver_def split: result.split)
  obtain allowed st1 where quota: "consume_message_quota E s st = (allowed, st1)"
    by (cases "consume_message_quota E s st")
  note keep = quota_keeps [OF quota]
  have "nickname (sess st1 t) \<noteq> target" "nickname (sess st1 t) \<noteq> nickname (sess st1 s)"
    using assms keep(4) by simp_all
  note after = private_quiet [OF this refl, of E body]
  show ?thesis
    using reply after keep quota by (cases allowed) (simp_all add: handle_whisper_def send_private_from_def)
qed

theorem whisper_private_witness:
  "ios (effects (handle_whisper demo_env 0 ''bob'' ''hi'' joined)) 1 = ios (effects joined) 1"
  using whisper_private [of joined 1 "''bob''" 0 demo_env "''hi''"] by (simp add: joined_fields other_session fresh_session_def del: One_nat_def)

end
