(* ===== verification/Server_Authority.thy ===== *)
theory Server_Authority
  imports Server_Delivery
begin

text \<open>
  Who may change what: topics and kicks belong to a room's creator, a session that has not
  passed the handshake and the password changes nothing, and a disconnected or banned session
  is gone.
\<close>

section \<open>Names, topics and owners of rooms\<close>

definition label :: "chat_server \<Rightarrow> room_id \<Rightarrow> (string \<times> string \<times> string) option" where
  "label st rid = map_option (\<lambda>r. (rm_name r, rm_topic r, rm_owner r)) (map_find (rooms st) rid)"

lemma label_modify:
  "(\<And>r. rm_name (f r) = rm_name r \<and> rm_topic (f r) = rm_topic r \<and> rm_owner (f r) = rm_owner r) \<Longrightarrow>
     label (st\<lparr>rooms := map_modify k f (rooms st)\<rparr>) = label st"
  by (auto simp: label_def fun_eq_iff option.map_comp comp_def)

lemma label_rooms: "rooms st' = rooms st \<Longrightarrow> label st' = label st"
  by (simp add: label_def fun_eq_iff)

lemma label_broadcast_room [simp]: "label (broadcast_room E rid msg n st) = label st"
  by (auto simp: label_def fun_eq_iff option.map_comp comp_def)

lemma label_base [simp]:
  "label (effects_update g st) = label st" "label (broadcast_users rid st) = label st"
  "label (broadcast_room_lists st) = label st" "label (persist_room E rid st) = label st"
  "label (sessions_update p st) = label st" "label (local_room_id_update l st) = label st"
  "label (banned_nicks_update b st) = label st" "label (reply s answer st) = label st"
  "label (update_session s f st) = label st" "label (stop_reading s st) = label st"
  "label (set_active_room_id s a st) = label st"
  by (rule label_rooms; simp add: update_session_def stop_reading_def)+

lemma label_members [simp]:
  "label (erase_member rid s st) = label st" "label (insert_member rid s st) = label st"
  unfolding erase_member_def insert_member_def by (rule label_modify; simp)+

lemma label_moves [simp]:
  "label (disconnect E s announce st) = label st"
  "label (move_session_to_room E s target announce st) = label st"
  "label (hang_up E s st) = label st"
  by (simp_all add: disconnect_def move_session_to_room_def hang_up_def Let_def split: option.split)

lemma label_kick [simp]: "label (snd (kick_user_in_room E rid nick reason st)) = label st"
  by (simp add: kick_user_in_room_def Let_def split: option.split)

lemma label_kickD: "kick_user_in_room E rid nick reason st = (b, st') \<Longrightarrow> label st' = label st"
  using label_kick [of E rid nick reason st] by simp

lemma label_private: "label (snd (send_private_in_room E a b m rid mirror st)) = label st"
  by (simp add: send_private_in_room_def Let_def split: option.split)

text \<open>A new room leaves the others as they are.\<close>

lemma label_add_room:
  assumes "server_inv st" "check_new_room name st = None" "label st rid \<noteq> None"
  shows "label (add_room name owner st) rid = label st rid"
proof -
  have "map_find (rooms st) (next_room_id st) = None"
    using next_room_id_fresh(1) [OF server_invD(1) [OF assms(1)]] assms(2) by (auto simp: check_new_room_None)
  with assms(3) rooms_invD(1) [OF server_invD(1) [OF assms(1)]] show ?thesis
    by (auto simp: label_def add_room_def Let_def map_emplace_def)
qed

lemma label_create_room:
  assumes "server_inv st" "create_room E s name st = Inr st'" "label st rid \<noteq> None"
  shows "label st' rid = label st rid"
  using assms label_add_room [OF assms(1) _ assms(3)]
  by (auto simp: create_room_def Let_def split: option.splits)

lemma label_set_topic:
  assumes "set_topic_for_room E rid actor False topic st = Inr st'"
  shows "\<exists>r. map_find (rooms st) rid = Some r \<and> rm_owner r = actor \<and>
    label st' = (label st)(rid \<mapsto> (rm_name r, topic, rm_owner r))"
proof -
  obtain r where r: "map_find (rooms st) rid = Some r" "rm_owner r = actor"
    using assms by (auto simp: set_topic_for_room_def Let_def split: if_splits option.splits)
  have "label (st\<lparr>rooms := map_modify rid (\<lambda>r. r\<lparr>rm_topic := topic\<rparr>) (rooms st)\<rparr>) =
      (label st)(rid \<mapsto> (rm_name r, topic, rm_owner r))"
    using r(1) by (auto simp: label_def fun_eq_iff)
  with assms r show ?thesis
    by (auto simp: set_topic_for_room_def Let_def split: if_splits)
qed

lemma label_quota: "consume_message_quota E s st = (b, st') \<Longrightarrow> label st' = label st"
  by (rule label_rooms) (rule quota_keeps)

lemma label_bind: "bind_identity nick key st = (b, st') \<Longrightarrow> label st' = label st"
  by (rule label_rooms) (use bind_identity_frame(3) [of nick key st] in simp)

lemma label_results:
  "join_room E s name st = Inr st' \<Longrightarrow> label st' = label st"
  "leave_room E s st = Inr st' \<Longrightarrow> label st' = label st"
  by (auto simp: join_room_def leave_room_def split: option.splits if_splits)

lemma label_kick_from: "kick_from E s nick reason st = Inr st' \<Longrightarrow> label st' = label st"
  by (auto simp: kick_from_def Let_def dest: label_kickD split: option.splits if_splits prod.splits)

lemma label_or_error:
  "(\<And>st'. r = Inr st' \<Longrightarrow> label st' rid = label st rid) \<Longrightarrow> label (or_error s r st) rid = label st rid"
  by (cases r) (simp_all add: or_error_def)

lemma label_handle_proof: "label (handle_proof E s g st) = label st"
  by (auto simp: handle_proof_def Let_def admit_to_default_room_def dest: label_bind split: prod.split bool.split)

lemma label_handlers:
  "label (handle_hello s v st) = label st" "label (handle_authenticate E s pw st) = label st"
  "label (handle_identify E s nick key st) = label st" "label (handle_leave E s st) rid = label st rid"
  "label (handle_disconnect E s st) = label st" "label (handle_list_rooms s st) = label st"
  "label (handle_join_room E s name st) rid = label st rid" "label (handle_kick E s nick reason st) rid = label st rid"
  by (auto simp: handle_hello_def handle_authenticate_def handle_identify_def handle_leave_def
      handle_disconnect_def handle_list_rooms_def send_room_list_def handle_join_room_def handle_kick_def Let_def
      intro!: label_or_error dest: label_results label_kick_from split: option.split)

lemma label_messages:
  "label (handle_chat E s body st) = label st" "label (handle_whisper E s target body st) = label st"
  by (auto simp: handle_chat_def handle_whisper_def send_private_from_def label_private Let_def
      dest: label_quota split: prod.split bool.split)

lemma label_handle_create:
  "server_inv st \<Longrightarrow> label st rid \<noteq> None \<Longrightarrow> label (handle_create E s name st) rid = label st rid"
  by (auto simp: handle_create_def intro!: label_or_error label_create_room)

lemma label_message:
  assumes "server_inv st" "label st rid \<noteq> None" "\<And>t. m \<noteq> TopicRequest (Some t)"
  shows "label (handle_message E s m st) rid = label st rid"
  using assms
  by (cases m) (auto simp: handle_message_def handle_authorised_def label_handlers label_messages label_handle_proof
      label_handle_create handle_topic_def send_topic_def split: option.split)

lemma label_handle_topic:
  assumes "label (handle_topic E s (Some t) st) rid \<noteq> label st rid"
  shows "rid = active_room_id (sess st s) \<and> nickname (sess st s) \<noteq> [] \<and>
    (\<exists>r. map_find (rooms st) rid = Some r \<and> rm_owner r = nickname (sess st s) \<and>
       label (handle_topic E s (Some t) st) rid = Some (rm_name r, t, rm_owner r))"
proof -
  have nick: "nickname (sess st s) \<noteq> []" using assms by (auto simp: handle_topic_def)
  with assms obtain st' where st': "set_topic E s t st = Inr st'" "handle_topic E s (Some t) st = st'"
    by (cases "set_topic E s t st") (auto simp: handle_topic_def or_error_def)
  from label_set_topic [OF st'(1) [unfolded set_topic_def]] st'(2) assms nick show ?thesis
    by (auto split: if_splits)
qed

text \<open>
  Only a room's creator can change its topic from the network. When a frame from a session
  changes the name, topic or owner of an existing room in any way, the frame is a topic request,
  the room is the session's active room, the session's nickname is the room's owner, and the
  change is the topic it asked for; the name and the owner stay.
\<close>

theorem topic_owner_only:
  assumes "reachable E st" "label st rid \<noteq> None" "label (server_step E (Line s line) st) rid \<noteq> label st rid"
  shows "\<exists>t r. decode_client_frame line = Success (TopicRequest (Some t)) \<and>
    rid = active_room_id (sess st s) \<and> map_find (rooms st) rid = Some r \<and>
    nickname (sess st s) \<noteq> [] \<and> rm_owner r = nickname (sess st s) \<and>
    label (server_step E (Line s line) st) rid = Some (rm_name r, t, rm_owner r)"
proof -
  obtain m where m: "decode_client_frame line = Success m"
    and changed: "label (handle_message E s m st) rid \<noteq> label st rid"
    using assms(3) by (cases "decode_client_frame line") (auto simp: handle_line_def Let_def split: if_splits)
  obtain t where t: "m = TopicRequest (Some t)"
    using label_message [OF reachable_inv [OF assms(1)] assms(2)] changed by metis
  with changed have "label (handle_topic E s (Some t) st) rid \<noteq> label st rid"
    and step: "handle_message E s m st = handle_topic E s (Some t) st"
    by (auto simp: handle_message_def handle_authorised_def split: if_splits)
  from label_handle_topic [OF this(1)] step m t show ?thesis by (auto simp: handle_line_def)
qed

theorem topic_owner_only_witness:
  "\<exists>line. decode_client_frame line = Success (TopicRequest (Some ''plans'')) \<and>
     label (server_step demo_env (Line 0 line) created) 2 = Some (''dev'', ''plans'', ''ann'')"
proof -
  have topic: "is_valid_room_topic ''plans''"
    by (simp add: is_valid_room_topic_def protocol_limits ctype_defs byte_def)
  obtain line where line: "decode_client_frame line = Success (TopicRequest (Some ''plans''))"
    "server_step demo_env (Line 0 line) created = handle_message demo_env 0 (TopicRequest (Some ''plans'')) created"
    using message_line [of "TopicRequest (Some ''plans'')" demo_env 0 created] topic by auto
  obtain st' where st': "set_topic demo_env 0 ''plans'' created = Inr st'"
    using topic by (simp add: set_topic_def set_topic_for_room_def created_fields Let_def)
  then have step: "server_step demo_env (Line 0 line) created = st'"
    using line(2) by (simp add: handle_message_def handle_authorised_def handle_topic_def has_password_def
        created_fields or_error_def)
  from label_set_topic [OF st' [unfolded set_topic_def]] have "label st' 2 \<noteq> label created 2"
    by (auto simp: created_fields label_def)
  with topic_owner_only [OF reachable_created, of 2 0 line] line(1) step show ?thesis
    by (auto simp: created_fields label_def)
qed

section \<open>Who is connected\<close>

lemma sessions_disconnect [simp]: "sessions (disconnect E s announce st) = set_erase s (sessions st)"
  by (simp add: disconnect_def Let_def)

lemma banned_disconnect: "banned_nicks (disconnect E s announce st) = banned_nicks st"
  by (simp add: disconnect_def Let_def erase_member_def set_active_room_id_def)

lemma sessions_simps [simp]:
  "sessions (update_session s f st) = sessions st" "sessions (stop_reading s st) = sessions st"
  "sessions (add_room name owner st) = sessions st"
  by (simp_all add: update_session_def stop_reading_def add_room_def Let_def)

lemma sessions_hang_up [simp]: "sessions (hang_up E s st) = set_erase s (sessions st)"
  by (simp add: hang_up_def)

lemma sessions_move [simp]: "sessions (move_session_to_room E s target announce st) = sessions st"
  by (simp add: move_session_to_room_def Let_def split: option.split)

lemma sessions_private [simp]: "sessions (snd (send_private_in_room E a b m rid mirror st)) = sessions st"
  by (simp add: send_private_in_room_def Let_def split: option.split)

lemma sessions_results:
  "join_room E s name st = Inr st' \<Longrightarrow> sessions st' = sessions st"
  "leave_room E s st = Inr st' \<Longrightarrow> sessions st' = sessions st"
  "create_room E s name st = Inr st' \<Longrightarrow> sessions st' = sessions st"
  "set_topic_for_room E rid actor priv topic st = Inr st' \<Longrightarrow> sessions st' = sessions st"
  "consume_message_quota E s st = (b, st') \<Longrightarrow> sessions st' = sessions st"
  "bind_identity nick key st = (b, st') \<Longrightarrow> sessions st' = sessions st"
  by (auto simp: join_room_def leave_room_def create_room_def set_topic_for_room_def consume_message_quota_def
      bind_identity_def save_identities_def Let_def split: option.splits if_splits prod.splits)

lemma sessions_or_error:
  "(\<And>st'. r = Inr st' \<Longrightarrow> sessions st' = sessions st) \<Longrightarrow> sessions (or_error s r st) = sessions st"
  by (cases r) (simp_all add: or_error_def)

lemma sessions_handle_proof: "t \<noteq> s \<Longrightarrow> t \<in> set (sessions st) \<Longrightarrow> t \<in> set (sessions (handle_proof E s g st))"
  by (auto simp: handle_proof_def Let_def admit_to_default_room_def dest: sessions_results split: prod.split bool.split)

lemma sessions_handle_early:
  assumes "t \<noteq> s" "t \<in> set (sessions st)"
  shows "t \<in> set (sessions (handle_hello s v st))" "t \<in> set (sessions (handle_authenticate E s pw st))"
    "t \<in> set (sessions (handle_identify E s nick key st))" "t \<in> set (sessions (handle_disconnect E s st))"
  using assms
  by (auto simp: handle_hello_def handle_authenticate_def handle_identify_def handle_disconnect_def Let_def
      split: option.split)

lemma sessions_handle_rooms:
  "sessions (handle_leave E s st) = sessions st" "sessions (handle_create E s name st) = sessions st"
  "sessions (handle_join_room E s name st) = sessions st" "sessions (handle_topic E s topic st) = sessions st"
  "sessions (handle_list_rooms s st) = sessions st"
  by (auto simp: handle_leave_def handle_create_def handle_join_room_def handle_topic_def set_topic_def send_topic_def
      handle_list_rooms_def send_room_list_def intro!: sessions_or_error dest: sessions_results split: option.split)

lemma sessions_handle_text:
  "sessions (handle_chat E s body st) = sessions st" "sessions (handle_whisper E s target body st) = sessions st"
  by (auto simp: handle_chat_def handle_whisper_def send_private_from_def Let_def dest: sessions_results
      split: prod.split bool.split)

lemma sessions_message:
  assumes "t \<noteq> s" "t \<in> set (sessions st)" "\<And>nick reason. m \<noteq> KickRequest nick reason"
  shows "t \<in> set (sessions (handle_message E s m st))"
  using assms
  by (cases m) (auto simp: handle_message_def handle_authorised_def sessions_handle_proof sessions_handle_early
      sessions_handle_rooms sessions_handle_text)

lemma kick_from_removes:
  assumes "kick_from E s nick reason st = Inr st'" "t \<in> set (sessions st)" "t \<notin> set (sessions st')"
  shows "\<exists>r. map_find (rooms st) (active_room_id (sess st s)) = Some r \<and> rm_owner r = nickname (sess st s) \<and>
    t \<in> set (rm_members r) \<and> nickname (sess st t) = nick \<and> nick \<noteq> nickname (sess st s)"
proof -
  obtain r st1 where r: "map_find (rooms st) (active_room_id (sess st s)) = Some r"
      "rm_owner r = nickname (sess st s)" "nick \<noteq> nickname (sess st s)"
    and kick: "kick_user_in_room E (active_room_id (sess st s)) nick reason st = (True, st')"
    using assms(1) by (auto simp: kick_from_def Let_def split: option.splits if_splits prod.splits)
  obtain target where target: "find (\<lambda>m. nickname (sess st m) = nick) (rm_members r) = Some target"
    using kick r(1) by (auto simp: kick_user_in_room_def split: option.splits)
  with kick r(1) have "sessions st' = set_erase target (sessions st)"
    by (auto simp: kick_user_in_room_def Let_def)
  with assms(2,3) have "t = target" by auto
  with find_SomeD [OF target] r show ?thesis by auto
qed

text \<open>
  C21: Only a room's creator can kick from the network. When a frame from one session makes
  another session disappear from the connected sessions, the frame is a kick request, the
  requester has a nickname and owns its active room, and the removed session is a member of
  that very room with the nickname given, which is not the requester's own.
\<close>

theorem kick_owner_only:
  assumes "reachable E st" "t \<noteq> s" "t \<in> set (sessions st)"
    and "t \<notin> set (sessions (server_step E (Line s line) st))"
  shows "\<exists>nick reason r. decode_client_frame line = Success (KickRequest nick reason) \<and>
    nickname (sess st s) \<noteq> [] \<and> map_find (rooms st) (active_room_id (sess st s)) = Some r \<and>
    rm_owner r = nickname (sess st s) \<and> t \<in> set (rm_members r) \<and>
    nickname (sess st t) = nick \<and> nick \<noteq> nickname (sess st s)"
proof -
  obtain m where m: "decode_client_frame line = Success m" "t \<notin> set (sessions (handle_message E s m st))"
    using assms(2-4) by (cases "decode_client_frame line") (auto simp: handle_line_def Let_def split: if_splits)
  obtain nick reason where kick: "m = KickRequest nick reason"
    using sessions_message [OF assms(2,3)] m(2) by metis
  with m(2) assms(2,3) have gone: "t \<notin> set (sessions (handle_kick E s nick reason st))"
    by (auto simp: handle_message_def handle_authorised_def split: if_splits)
  then have nick: "nickname (sess st s) \<noteq> []" using assms(3) by (auto simp: handle_kick_def)
  with gone assms(3) obtain st' where "kick_from E s nick reason st = Inr st'" "t \<notin> set (sessions st')"
    by (cases "kick_from E s nick reason st") (auto simp: handle_kick_def or_error_def)
  from kick_from_removes [OF this(1) assms(3) this(2)] m(1) kick nick show ?thesis by auto
qed

theorem kick_owner_only_witness:
  "\<exists>line. decode_client_frame line = Success (KickRequest ''bob'' []) \<and>
     1 \<in> set (sessions bob_in_dev) \<and> 1 \<notin> set (sessions (server_step demo_env (Line 0 line) bob_in_dev)) \<and>
     nickname (sess bob_in_dev 1) = ''bob''"
proof -
  obtain line where line: "decode_client_frame line = Success (KickRequest ''bob'' [])"
    "server_step demo_env (Line 0 line) bob_in_dev = handle_message demo_env 0 (KickRequest ''bob'' []) bob_in_dev"
    using message_line [of "KickRequest ''bob'' []" demo_env 0 bob_in_dev] bob_valid by auto
  obtain lobby dev where rooms: "rooms bob_in_dev = [(1, lobby), (2, dev)]" "rm_members dev = [0, 1]"
      "rm_owner dev = ''ann''"
    using bob_in_dev_fields(8) by (auto simp: map_eq_Cons_conv)
  have "sessions (handle_message demo_env 0 (KickRequest ''bob'' []) bob_in_dev) = [0]"
    using rooms
    by (simp add: handle_message_def has_password_def handle_authorised_def handle_kick_def or_error_def kick_from_def
        kick_user_in_room_def bob_in_dev_fields(1-7) Let_def set_erase_def del: One_nat_def)
  then have gone: "1 \<notin> set (sessions (server_step demo_env (Line 0 line) bob_in_dev))" using line(2) by simp
  have here: "1 \<in> set (sessions bob_in_dev)" by (simp add: bob_in_dev_fields)
  from kick_owner_only [OF reachable_bob_in_dev _ here gone] line(1) here gone show ?thesis by auto
qed

text \<open>
  Disconnecting is complete. After \<open>disconnect\<close>, the session is not connected, has no
  active room and is a member of no room, while every other session keeps its place in
  \<open>sessions\<close> and its room.
\<close>

theorem disconnect_complete:
  assumes "reachable E st"
  shows "s \<notin> set (sessions (disconnect E s announce st)) \<and>
    active_room_id (sess (disconnect E s announce st) s) = 0 \<and>
    (\<forall>(rid, r) \<in> set (rooms (disconnect E s announce st)). s \<notin> set (rm_members r)) \<and>
    (\<forall>t. t \<noteq> s \<longrightarrow> sess (disconnect E s announce st) t = sess st t \<and>
       (t \<in> set (sessions (disconnect E s announce st)) \<longleftrightarrow> t \<in> set (sessions st)))"
proof -
  let ?st = "disconnect E s announce st"
  note inv = reachable_inv [OF assms]
  have sess: "sess ?st = (sess st)(s := (sess st s)\<lparr>active_room_id := 0\<rparr>)"
    by (simp add: disconnect_def Let_def set_active_room_id_def)
  have "server_inv ?st"
  proof (cases "s < next_session st")
    case False
    then have fresh: "sess st s = fresh_session" using server_invD(5) [OF inv] by simp
    then have "sess ?st = sess st" unfolding sess by (auto simp: fresh_session_def fun_eq_iff)
    with fresh have "?st = st\<lparr>sessions := set_erase s (sessions st)\<rparr>"
      by (simp add: disconnect_def Let_def set_active_room_id_def fresh_session_def)
    then show ?thesis using server_inv_sessions_erase [OF inv] by simp
  qed (rule server_inv_disconnect [OF inv])
  note inv' = server_invD(1,2) [OF this]
  have zero: "active_room_id (sess ?st s) = 0" by (simp add: sess)
  have gone: "s \<notin> set (rm_members r)" if room: "(rid, r) \<in> set (rooms ?st)" for rid r
  proof
    assume "s \<in> set (rm_members r)"
    then have "active_room_id (sess ?st s) = rid" by (rule members_invD(2) [OF inv'(2) room])
    with zero rooms_invD(4) [OF inv'(1) room] show False by auto
  qed
  from gone have all: "\<forall>(rid, r) \<in> set (rooms (disconnect E s announce st)). s \<notin> set (rm_members r)" by blast
  show ?thesis unfolding sess using all by auto
qed

theorem disconnect_complete_witness:
  "0 \<notin> set (sessions (disconnect demo_env 0 True bob_in_dev)) \<and>
     active_room_id (sess (disconnect demo_env 0 True bob_in_dev) 0) = 0"
  using disconnect_complete [OF reachable_bob_in_dev, of 0 True] by blast

lemma nicknames_invD:
  assumes "nicknames_inv p l ss" "s \<in> set p" "t \<in> set p" "nickname (ss s) = nickname (ss t)" "nickname (ss s) \<noteq> []"
  shows "s = t"
  using assms unfolding nicknames_inv_def by blast

text \<open>
  A ban takes effect at once. After \<open>ban_user\<close> the nickname is banned, so no proof admits it,
  and no connected session has it any more.
\<close>

theorem ban_effective:
  assumes "reachable E st" "nick \<noteq> []"
  shows "is_banned nick (ban_user E nick reason st) \<and>
    (\<forall>s \<in> set (sessions (ban_user E nick reason st)). nickname (sess (ban_user E nick reason st) s) \<noteq> nick)"
proof -
  let ?st = "ban_user E nick reason st"
  have banned: "banned_nicks ?st = set_insert nick (banned_nicks st)"
    by (simp add: ban_user_def Let_def save_bans_def banned_disconnect split: option.split)
  have view: "auth_view ?st = auth_view st"
    using host_step_auth [of "BanUser nick reason" E st] by simp
  have same: "nickname (sess ?st s) = nickname (sess st s)" for s using auth_viewD(2) [OF view] .
  have left: "sessions ?st = (case first_session_named nick st of None \<Rightarrow> sessions st | Some t \<Rightarrow> set_erase t (sessions st))"
    by (simp add: ban_user_def Let_def save_bans_def first_session_named_def split: option.split)
  have "nickname (sess ?st s) \<noteq> nick" if s: "s \<in> set (sessions ?st)" for s
  proof (cases "first_session_named nick st")
    case None
    with s left have "s \<in> set (sessions st)" by simp
    with None same show ?thesis by (auto simp: first_session_named_def find_None_iff)
  next
    case (Some t)
    then have t: "t \<in> set (sessions st)" "nickname (sess st t) = nick"
      by (auto simp: first_session_named_def dest: find_SomeD)
    show ?thesis
    proof
      assume "nickname (sess ?st s) = nick"
      then have "nickname (sess st s) = nickname (sess st t)" using same [of s] t(2) by simp
      moreover have "s \<in> set (sessions st)" "s \<noteq> t" using s Some left by auto
      ultimately show False
        using nicknames_invD [OF server_invD(3) [OF reachable_inv [OF assms(1)]], of s t] t assms(2) by simp
    qed
  qed
  with banned show ?thesis by (simp add: is_banned_def set_count_def)
qed

theorem ban_effective_witness:
  "is_banned ''bob'' (ban_user demo_env ''bob'' [] bob_in_dev) \<and>
     1 \<notin> set (sessions (ban_user demo_env ''bob'' [] bob_in_dev))"
proof -
  have "auth_view (ban_user demo_env ''bob'' [] bob_in_dev) = auth_view bob_in_dev"
    using host_step_auth [of "BanUser ''bob'' []" demo_env bob_in_dev] by simp
  from auth_viewD(2) [OF this, of 1] have "nickname (sess (ban_user demo_env ''bob'' [] bob_in_dev) 1) = ''bob''"
    using bob_in_dev_fields(7) by simp
  with ban_effective [OF reachable_bob_in_dev, of "''bob''" "[]"] show ?thesis by blast
qed

section \<open>Before admission\<close>

lemma outsider_not_member:
  "server_inv st \<Longrightarrow> nickname (sess st s) = [] \<Longrightarrow> (rid, r) \<in> set (rooms st) \<Longrightarrow> s \<notin> set (rm_members r)"
  using members_invD(3) [OF server_invD(2)] by blast

lemma erase_absent: "x \<notin> set xs \<Longrightarrow> set_erase x xs = xs"
  by (auto simp: set_erase_def filter_id_conv)

lemma erase_outsider:
  assumes "\<And>rid r. (rid, r) \<in> set rms \<Longrightarrow> s \<notin> set (rm_members r)"
  shows "map_modify k (\<lambda>r. r\<lparr>rm_members := set_erase s (rm_members r)\<rparr>) rms = rms"
  unfolding map_modify_def using assms by (intro map_idI) (auto simp: erase_absent)

text \<open>Disconnecting a session that is in no room only affects that session.\<close>

lemma disconnect_outsider:
  assumes "server_inv st" "nickname (sess st s) = []"
  shows "rooms (disconnect E s announce st) = rooms st" "effects (disconnect E s announce st) = effects st"
    "identities (disconnect E s announce st) = identities st"
    "next_room_id (disconnect E s announce st) = next_room_id st" "local_room_id (disconnect E s announce st) = local_room_id st"
    "t \<noteq> s \<Longrightarrow> sess (disconnect E s announce st) t = sess st t"
proof -
  note out = outsider_not_member [OF assms]
  have not_member: "\<not> is_member k s (set_active_room_id s a (st\<lparr>sessions := p\<rparr>))" for k a p
    using out by (auto simp: is_member_def set_active_room_id_def set_count_def dest: map_of_SomeD split: option.split)
  have keep: "map_modify k (\<lambda>r. r\<lparr>rm_members := set_erase s (rm_members r)\<rparr>) (rooms st) = rooms st" for k
    by (rule erase_outsider) (rule out)
  show "rooms (disconnect E s announce st) = rooms st" "effects (disconnect E s announce st) = effects st"
    "identities (disconnect E s announce st) = identities st"
    "next_room_id (disconnect E s announce st) = next_room_id st" "local_room_id (disconnect E s announce st) = local_room_id st"
    "t \<noteq> s \<Longrightarrow> sess (disconnect E s announce st) t = sess st t"
    using not_member keep by (simp_all add: disconnect_def Let_def erase_member_def set_active_room_id_def)
qed

definition untouched :: "session_id \<Rightarrow> chat_server \<Rightarrow> chat_server \<Rightarrow> bool" where
  "untouched s st st' \<longleftrightarrow> rooms st' = rooms st \<and> identities st' = identities st \<and> banned_nicks st' = banned_nicks st \<and>
     next_room_id st' = next_room_id st \<and> next_session st' = next_session st \<and> local_room_id st' = local_room_id st \<and>
     storage_requests (effects st') = storage_requests (effects st) \<and> log_lines (effects st') = log_lines (effects st) \<and>
     ui (effects st') = ui (effects st) \<and> files (effects st') = files (effects st) \<and>
     (\<forall>t. t \<noteq> s \<longrightarrow> sess st' t = sess st t \<and> ios (effects st') t = ios (effects st) t \<and>
        (t \<in> set (sessions st') \<longleftrightarrow> t \<in> set (sessions st)))"

lemma untouched_refl: "untouched s st st"
  by (simp add: untouched_def)

lemma deliver_effects [simp]:
  "storage_requests (deliver msg s out) = storage_requests out" "log_lines (deliver msg s out) = log_lines out"
  "ui (deliver msg s out) = ui out" "files (deliver msg s out) = files out"
  by (simp_all add: deliver_def split: result.split)

lemma untouched_reply: "untouched s st (reply s msg st)"
  by (simp add: untouched_def reply_def deliver_other)

lemma untouched_update: "untouched s st st' \<Longrightarrow> untouched s st (update_session s f st')"
  by (simp add: untouched_def update_session_def)

lemma untouched_then_reply: "untouched s st st' \<Longrightarrow> untouched s st (reply s msg st')"
  by (simp add: untouched_def reply_def deliver_other)

lemma untouched_hang_up:
  assumes "server_inv st" "nickname (sess st s) = []"
  shows "untouched s st (hang_up E s (reply s msg st))"
proof -
  let ?st = "effects_update (close_session s) (reply s msg st)"
  have "server_inv ?st" "nickname (sess ?st s) = []" using assms by simp_all
  note d = disconnect_outsider [OF this, where E = E and announce = False]
  show ?thesis
    using d by (simp add: untouched_def hang_up_def stop_reading_def update_session_def banned_disconnect
        close_session_def reply_def deliver_other)
qed

text \<open>
  C20: A session that has not completed the handshake, or has not given the password of a server
  that has one, can change nothing but itself. Whatever line it sends in a reachable state, the
  rooms, their members and histories, the identities and the bans stay as they are, nothing is stored, logged, written to a
  file or shown to the host, and no other session is changed, disconnected, or sent anything.
\<close>

theorem unauthorised_session_is_harmless:
  assumes "reachable E st"
    and "\<not> protocol_negotiated (sess st s) \<or> (has_password st \<and> \<not> authenticated (sess st s))"
  shows "untouched s st (server_step E (Line s line) st)"
proof -
  note inv = reachable_inv [OF assms(1)]
  have nick: "nickname (sess st s) = []"
    using server_invD(4) [OF inv, of s] assms(2) by (auto simp: session_inv_def admitted_def has_password_def)
  note hang = untouched_hang_up [OF inv nick]
  show ?thesis
  proof (cases "decode_client_frame line")
    case (Failure e d)
    then show ?thesis by (simp add: handle_line_def Let_def hang untouched_reply)
  next
    case (Success m)
    have "untouched s st (handle_message E s m st)"
      using assms(2) hang
      by (cases m) (auto simp: handle_message_def handle_hello_def handle_authenticate_def Let_def
          intro!: untouched_then_reply untouched_update untouched_refl)
    with Success show ?thesis by (simp add: handle_line_def)
  qed
qed

theorem unauthorised_session_is_harmless_witness:
  "untouched 0 connected (server_step demo_env (Line 0 ''Sk9JTnxkZXY='') connected)"
  by (rule unauthorised_session_is_harmless [OF reachable_connected])
    (simp add: connected_fields fresh_session_def)

end
