(* ===== verification/Chat_Client.thy ===== *)
theory Chat_Client
  imports App_State Identity_Utils
begin

text \<open>
  The client side of a connection, \<open>chat/chat_client.h\<close>: the phases of connecting with their
  deadlines and cancellation, the write queue, and the handling of every server message. The
  asynchronous operations that are under way are part of the state; an event is the completion
  of one of them, a call of the front end, or a task posted to the executor. Every handler
  runs to its end before the next one starts, as on the single thread that runs the
  \<open>io_context\<close>. The answers of the network, of OpenSSL and of \<open>verify_peer\<close> are parameters
  of the events.

  Shown: an attempt to connect ends exactly once and cannot hang, with TLS nothing is sent
  before the certificate was accepted, and the first frame of a connection is the greeting.
\<close>

section \<open>The state\<close>

datatype connection_failure =
  NoFailure | DnsFailure | Refused | TimeoutFailure | TlsFailure | Cancelled | NetworkFailure

text \<open>Operations of an attempt to connect that have not completed yet.\<close>

datatype connect_op = Resolving | ConnectingTcp | Negotiating | Deadline nat

datatype client_task = SendWire string | CloseStream

text \<open>
  \<open>attempt_lifetime_\<close> is the number of the attempt it was made for, and a handler's weak
  pointer to it has expired when that is no longer the current one. The callback
  \<open>connect_completed_\<close> is the number of the attempt it was given with; \<open>cl_completions\<close> lists
  its calls.
\<close>

record chat_client =
  cl_tls_enabled :: bool
  cl_attempts :: nat
  cl_lifetime :: "nat option"
  cl_outstanding :: "(nat \<times> connect_op) list"
  cl_generation :: nat
  cl_connecting :: bool
  cl_failure :: connection_failure
  cl_connect_error :: string
  cl_phase :: string
  cl_callback :: "nat option"
  cl_completions :: "(nat \<times> bool) list"
  cl_connected :: bool
  cl_closing :: bool
  cl_disconnect_reason :: string
  cl_auth_required :: bool
  cl_auth_resolved :: bool
  cl_auth_ok :: bool
  cl_join_resolved :: bool
  cl_kicked :: bool
  cl_banned :: bool
  cl_nickname_taken :: bool
  cl_join_failed :: bool
  cl_negotiated :: bool
  cl_room_list_requested :: bool
  cl_identity :: "client_identity option"
  cl_kick_reason :: string
  cl_join_failure_reason :: string
  cl_posted :: "client_task list"
  cl_write_queue :: "string list"
  cl_in_flight :: bool
  cl_stream_open :: bool
  cl_written :: "string list"
  cl_reading :: bool
  cl_app :: app_state

definition new_chat_client :: "bool \<Rightarrow> chat_client" where
  "new_chat_client tls = \<lparr>cl_tls_enabled = tls, cl_attempts = 0, cl_lifetime = None, cl_outstanding = [],
     cl_generation = 0, cl_connecting = False, cl_failure = NoFailure, cl_connect_error = [], cl_phase = [],
     cl_callback = None, cl_completions = [], cl_connected = False, cl_closing = False,
     cl_disconnect_reason = [], cl_auth_required = False, cl_auth_resolved = False, cl_auth_ok = False,
     cl_join_resolved = False, cl_kicked = False, cl_banned = False, cl_nickname_taken = False,
     cl_join_failed = False, cl_negotiated = False, cl_room_list_requested = False, cl_identity = None,
     cl_kick_reason = [], cl_join_failure_reason = [], cl_posted = [], cl_write_queue = [],
     cl_in_flight = False, cl_stream_open = True, cl_written = [], cl_reading = False,
     cl_app = initial_app_state\<rparr>"

definition cl_push :: "string \<Rightarrow> chat_client \<Rightarrow> chat_client" where
  "cl_push line c = c\<lparr>cl_app := push_message line (cl_app c)\<rparr>"

section \<open>Sending and closing\<close>

definition client_send :: "client_message \<Rightarrow> chat_client \<Rightarrow> chat_client" where
  "client_send msg c =
     (if \<not> cl_connected c \<or> cl_closing c then c
      else case encode_client_frame msg of
             Failure e detail \<Rightarrow> cl_push (''[system] Could not encode message: '' @ detail) c
           | Success wire \<Rightarrow> c\<lparr>cl_posted := cl_posted c @ [SendWire wire]\<rparr>)"

definition client_write_next :: "chat_client \<Rightarrow> chat_client" where
  "client_write_next c = c\<lparr>cl_in_flight := True\<rparr>"

fun run_client_task :: "client_task \<Rightarrow> chat_client \<Rightarrow> chat_client" where
  "run_client_task (SendWire wire) c =
     (if \<not> cl_connected c \<or> cl_closing c then c
      else let writing = cl_write_queue c \<noteq> []; c = c\<lparr>cl_write_queue := cl_write_queue c @ [wire]\<rparr>
           in if \<not> writing then client_write_next c else c)"
| "run_client_task CloseStream c = c\<lparr>cl_connected := False, cl_stream_open := False\<rparr>"

definition run_client_posted :: "chat_client \<Rightarrow> chat_client" where
  "run_client_posted c =
     (case cl_posted c of [] \<Rightarrow> c | t # ts \<Rightarrow> run_client_task t (c\<lparr>cl_posted := ts\<rparr>))"

text \<open>The write completed, or failed with a message; \<open>aborted\<close>: the error is \<open>operation_aborted\<close>.\<close>

definition client_write_done :: "chat_client \<Rightarrow> chat_client" where
  "client_write_done c =
     (let c = c\<lparr>cl_in_flight := False, cl_written := cl_written c @ take 1 (cl_write_queue c),
                cl_write_queue := tl (cl_write_queue c)\<rparr>
      in if cl_write_queue c \<noteq> [] then client_write_next c else c)"

definition client_write_failed :: "string \<Rightarrow> bool \<Rightarrow> chat_client \<Rightarrow> chat_client" where
  "client_write_failed message aborted c =
     (let c = c\<lparr>cl_in_flight := False, cl_disconnect_reason := message, cl_connected := False,
                cl_stream_open := False\<rparr>
      in if \<not> aborted \<and> \<not> cl_closing c
         then cl_push (''[system] Send failed: '' @ message @ ''. Delivery may be uncertain.'') c else c)"

definition client_close :: "chat_client \<Rightarrow> chat_client" where
  "client_close c = c\<lparr>cl_closing := True, cl_posted := cl_posted c @ [CloseStream]\<rparr>"

definition set_identity :: "client_identity \<Rightarrow> chat_client \<Rightarrow> chat_client" where
  "set_identity ident c = c\<lparr>cl_identity := Some ident\<rparr>"

definition fail_join :: "string \<Rightarrow> chat_client \<Rightarrow> chat_client" where
  "fail_join reason c = c\<lparr>cl_join_failed := True, cl_join_failure_reason := reason, cl_join_resolved := True\<rparr>"

definition client_identify :: "string \<Rightarrow> chat_client \<Rightarrow> chat_client" where
  "client_identify nick c =
     (case cl_identity c of
        None \<Rightarrow> fail_join ''No local identity key loaded'' c
      | Some ident \<Rightarrow> client_send (Identify nick (public_key_hex ident)) c)"

definition request_rooms :: "chat_client \<Rightarrow> chat_client" where
  "request_rooms c = client_send ListRooms (c\<lparr>cl_room_list_requested := True\<rparr>)"

section \<open>Connecting\<close>

definition arm_deadline :: "chat_client \<Rightarrow> chat_client" where
  "arm_deadline c =
     (let generation = cl_generation c + 1
      in c\<lparr>cl_generation := generation,
           cl_outstanding := cl_outstanding c @ (case cl_lifetime c of None \<Rightarrow> [] | Some a \<Rightarrow> [(a, Deadline generation)])\<rparr>)"

definition finish_connect :: "connection_failure \<Rightarrow> string \<Rightarrow> chat_client \<Rightarrow> chat_client" where
  "finish_connect failure error c =
     (if \<not> cl_connecting c then c
      else let c = c\<lparr>cl_connecting := False, cl_lifetime := None, cl_failure := failure, cl_connect_error := error\<rparr>;
               c = (if failure \<noteq> NoFailure then c\<lparr>cl_stream_open := False\<rparr>
                    else let c = client_send (Hello VERSION) (c\<lparr>cl_connected := True\<rparr>) in c\<lparr>cl_reading := True\<rparr>)
           in c\<lparr>cl_callback := None,
                cl_completions := cl_completions c
                  @ (case cl_callback c of None \<Rightarrow> [] | Some a \<Rightarrow> [(a, failure = NoFailure)])\<rparr>)"

definition start_op :: "nat \<Rightarrow> connect_op \<Rightarrow> chat_client \<Rightarrow> chat_client" where
  "start_op a op c = c\<lparr>cl_outstanding := cl_outstanding c @ [(a, op)]\<rparr>"

definition async_connect :: "chat_client \<Rightarrow> chat_client" where
  "async_connect c =
     (let a = cl_attempts c + 1;
          c = c\<lparr>cl_attempts := a, cl_lifetime := Some a, cl_connect_error := [], cl_failure := NoFailure,
                cl_callback := Some a, cl_connecting := True, cl_phase := ''Resolving address''\<rparr>
      in start_op a Resolving (arm_deadline c))"

text \<open>A handler of attempt \<open>a\<close> does nothing once the attempt is over.\<close>

definition expired :: "nat \<Rightarrow> chat_client \<Rightarrow> bool" where
  "expired a c \<longleftrightarrow> cl_lifetime c \<noteq> Some a"

definition on_resolved :: "nat \<Rightarrow> string option \<Rightarrow> chat_client \<Rightarrow> chat_client" where
  "on_resolved a ec c =
     (if expired a c \<or> \<not> cl_connecting c then c
      else case ec of
        Some message \<Rightarrow> finish_connect DnsFailure message c
      | None \<Rightarrow> start_op a ConnectingTcp (arm_deadline (c\<lparr>cl_phase := ''Connecting TCP''\<rparr>)))"

text \<open>The error carries whether it is \<open>connection_refused\<close>; \<open>thrown\<close> is what \<open>set_server_name\<close> threw.\<close>

definition on_tcp_connected :: "nat \<Rightarrow> (bool \<times> string) option \<Rightarrow> string option \<Rightarrow> chat_client \<Rightarrow> chat_client" where
  "on_tcp_connected a ec thrown c =
     (if expired a c \<or> \<not> cl_connecting c then c
      else case ec of
        Some (refused, message) \<Rightarrow> finish_connect (if refused then Refused else NetworkFailure) message c
      | None \<Rightarrow>
          if \<not> cl_tls_enabled c then finish_connect NoFailure [] c
          else let c = arm_deadline (c\<lparr>cl_phase := ''Negotiating TLS''\<rparr>) in
          case thrown of
            Some message \<Rightarrow> finish_connect TlsFailure message c
          | None \<Rightarrow> start_op a Negotiating c)"

text \<open>\<open>verdict\<close> is the answer of \<open>verify_peer\<close>: the error, or the notice.\<close>

definition on_handshake :: "nat \<Rightarrow> string option \<Rightarrow> string + string \<Rightarrow> chat_client \<Rightarrow> chat_client" where
  "on_handshake a ec verdict c =
     (if expired a c \<or> \<not> cl_connecting c then c
      else case ec of
        Some message \<Rightarrow> finish_connect TlsFailure message c
      | None \<Rightarrow>
          (case verdict of
             Inl error \<Rightarrow> finish_connect TlsFailure error c
           | Inr notice \<Rightarrow>
               let c = (if notice \<noteq> [] then cl_push (''[security] '' @ notice) c else c)
               in finish_connect NoFailure [] c))"

definition on_deadline :: "nat \<Rightarrow> nat \<Rightarrow> bool \<Rightarrow> chat_client \<Rightarrow> chat_client" where
  "on_deadline a generation aborted c =
     (if \<not> expired a c \<and> \<not> aborted \<and> cl_connecting c \<and> generation = cl_generation c
      then finish_connect TimeoutFailure (cl_phase c @ '' timed out.'') c else c)"

definition cancel_connect :: "chat_client \<Rightarrow> chat_client" where
  "cancel_connect c =
     (if cl_connecting c then finish_connect Cancelled ''Connection cancelled.'' c else c)"

section \<open>Receiving\<close>

definition give_up :: "string \<Rightarrow> chat_client \<Rightarrow> chat_client" where
  "give_up reason c = fail_join reason (c\<lparr>cl_auth_ok := False, cl_auth_resolved := True\<rparr>)"

definition client_read_failed :: "string \<Rightarrow> chat_client \<Rightarrow> chat_client" where
  "client_read_failed message c =
     (let c = c\<lparr>cl_reading := False, cl_disconnect_reason := message, cl_connected := False, cl_stream_open := False\<rparr>;
          c = (if \<not> cl_closing c \<and> \<not> cl_auth_resolved c
               then give_up ''Connection closed during protocol handshake'' c else c)
      in if \<not> cl_closing c \<and> \<not> cl_kicked c \<and> \<not> cl_banned c \<and> cl_auth_ok c
         then cl_push ''[system] disconnected'' c else c)"

definition show_rooms :: "room_summary list \<Rightarrow> chat_client \<Rightarrow> chat_client" where
  "show_rooms rooms c =
     (let current = app_active_room_id (cl_app c) in
      fold (\<lambda>room. cl_push (''[system]   '' @ (if summary_id room = current then ''* '' else ''- '')
              @ summary_name room @ '' ('' @ word_to_string (summary_user_count room) @ '')''))
        rooms (cl_push ''[system] Available rooms:'' c))"

text \<open>The branches for the messages that follow the handshake.\<close>

definition client_message_handler :: "sodium \<Rightarrow> server_message \<Rightarrow> chat_client \<Rightarrow> chat_client" where
  "client_message_handler S message c = (case message of
       ServerHello version \<Rightarrow> c
     | AuthRequired \<Rightarrow> c\<lparr>cl_auth_required := True\<rparr>
     | AuthAccepted \<Rightarrow> c\<lparr>cl_auth_ok := True, cl_auth_resolved := True\<rparr>
     | AuthRejected \<Rightarrow> cl_push ''[system] Wrong password - disconnected''
         (c\<lparr>cl_auth_ok := False, cl_auth_resolved := True\<rparr>)
     | JoinAccepted \<Rightarrow> c\<lparr>cl_join_resolved := True\<rparr>
     | Challenge challenge_hex \<Rightarrow>
         (case cl_identity c of
            Some ident \<Rightarrow> client_send (IdentityProof (sign_identity_challenge S ident challenge_hex)) c
          | None \<Rightarrow> fail_join ''Identity challenge could not be answered'' c)
     | IdentityAccepted fingerprint \<Rightarrow> cl_push (''[system] Identity verified: '' @ fingerprint) c
     | Banned \<Rightarrow> cl_push ''[system] You are banned from this server''
         (c\<lparr>cl_banned := True, cl_join_resolved := True\<rparr>)
     | NicknameTaken \<Rightarrow> cl_push ''[system] Nickname is already in use''
         (c\<lparr>cl_nickname_taken := True, cl_join_resolved := True\<rparr>)
     | JoinRejected reason \<Rightarrow> cl_push (''[system] Join failed: '' @ reason) (fail_join reason c)
     | Kick nick reason \<Rightarrow>
         let c = c\<lparr>cl_kicked := True, cl_kick_reason := reason\<rparr>;
             c = cl_push (''[system] You have been kicked'' @ (if reason = [] then [] else '': '' @ reason)) c
         in c\<lparr>cl_app := mark_kicked (cl_app c)\<rparr>
     | UserList room_id nicknames \<Rightarrow> c\<lparr>cl_app := update_room_users room_id nicknames (cl_app c)\<rparr>
     | RoomList rooms \<Rightarrow>
         let requested = cl_room_list_requested c;
             c = c\<lparr>cl_app := update_room_list rooms (cl_app c), cl_room_list_requested := False\<rparr>
         in if requested then show_rooms rooms c else c
     | RoomJoined room_id name topic \<Rightarrow>
         cl_push (''[system] Entered #'' @ name @ (if topic = [] then [] else '' - '' @ topic))
           (c\<lparr>cl_app := activate_room room_id name topic (cl_app c)\<rparr>)
     | RoomTopic room_id topic \<Rightarrow>
         let c = c\<lparr>cl_app := update_room_topic room_id topic (cl_app c)\<rparr>
         in if room_id = app_active_room_id (cl_app c)
            then cl_push (''[system] Topic: '' @ (if topic = [] then ''(none)'' else topic)) c else c
     | RoomText room_id body \<Rightarrow> if room_id = app_active_room_id (cl_app c) then cl_push body c else c
     | Text body \<Rightarrow> cl_push body c
     | ServerError reason \<Rightarrow> cl_push (''[system] '' @ reason) c)"

text \<open>One line of the read loop; \<open>cl_reading\<close> is false when it is not entered again.\<close>

definition client_line :: "sodium \<Rightarrow> string \<Rightarrow> chat_client \<Rightarrow> chat_client" where
  "client_line S line c =
     (case decode_server_frame line of
        Failure e detail \<Rightarrow>
          let c = cl_push (''[system] Ignored invalid server frame: '' @ detail) c in
          if e = UnsupportedVersion then client_close (give_up detail (c\<lparr>cl_reading := False\<rparr>)) else c
      | Success message \<Rightarrow>
          (case message of
             ServerHello version \<Rightarrow> c\<lparr>cl_negotiated := (version = VERSION)\<rparr>
           | _ \<Rightarrow>
               if \<not> cl_negotiated c
               then let reason = ''Server did not complete the protocol handshake''
                    in client_close (cl_push (''[system] '' @ reason) (give_up reason (c\<lparr>cl_reading := False\<rparr>)))
               else client_message_handler S message c))"

section \<open>Events\<close>

datatype client_event =
    Connect
  | Resolved nat "string option"
  | TcpConnected nat "(bool \<times> string) option" "string option"
  | TlsHandshaked nat "string option" "string + string"
  | DeadlineFired nat nat bool
  | CancelConnect
  | SetIdentity client_identity
  | IdentifyAs string
  | SendMessage client_message
  | RequestRooms
  | CloseClient
  | RunPosted
  | ClientWriteDone
  | ClientWriteFailed string bool
  | ClientLine string
  | ClientReadFailed string

definition complete_op :: "nat \<Rightarrow> connect_op \<Rightarrow> chat_client \<Rightarrow> chat_client" where
  "complete_op a op c = c\<lparr>cl_outstanding := remove1 (a, op) (cl_outstanding c)\<rparr>"

definition client_step :: "sodium \<Rightarrow> client_event \<Rightarrow> chat_client \<Rightarrow> chat_client" where
  "client_step S ev c = (case ev of
       Connect \<Rightarrow> async_connect c
     | Resolved a ec \<Rightarrow> on_resolved a ec (complete_op a Resolving c)
     | TcpConnected a ec thrown \<Rightarrow> on_tcp_connected a ec thrown (complete_op a ConnectingTcp c)
     | TlsHandshaked a ec verdict \<Rightarrow> on_handshake a ec verdict (complete_op a Negotiating c)
     | DeadlineFired a g aborted \<Rightarrow> on_deadline a g aborted (complete_op a (Deadline g) c)
     | CancelConnect \<Rightarrow> cancel_connect c
     | SetIdentity ident \<Rightarrow> set_identity ident c
     | IdentifyAs nick \<Rightarrow> client_identify nick c
     | SendMessage m \<Rightarrow> client_send m c
     | RequestRooms \<Rightarrow> request_rooms c
     | CloseClient \<Rightarrow> client_close c
     | RunPosted \<Rightarrow> run_client_posted c
     | ClientWriteDone \<Rightarrow> client_write_done c
     | ClientWriteFailed message aborted \<Rightarrow> client_write_failed message aborted c
     | ClientLine line \<Rightarrow> client_line S line c
     | ClientReadFailed message \<Rightarrow> client_read_failed message c)"

text \<open>
  When an event can happen: only an operation that is under way completes, and a deadline is
  reported as aborted only when it was cancelled, that is after a newer one was armed or the
  attempt ended. The front end makes one attempt per client object.
\<close>

definition client_enabled :: "client_event \<Rightarrow> chat_client \<Rightarrow> bool" where
  "client_enabled ev c = (case ev of
       Connect \<Rightarrow> cl_attempts c = 0
     | Resolved a ec \<Rightarrow> (a, Resolving) \<in> set (cl_outstanding c)
     | TcpConnected a ec thrown \<Rightarrow> (a, ConnectingTcp) \<in> set (cl_outstanding c)
     | TlsHandshaked a ec verdict \<Rightarrow> (a, Negotiating) \<in> set (cl_outstanding c)
     | DeadlineFired a g aborted \<Rightarrow> (a, Deadline g) \<in> set (cl_outstanding c) \<and>
         (aborted \<longrightarrow> g \<noteq> cl_generation c \<or> \<not> cl_connecting c)
     | RunPosted \<Rightarrow> cl_posted c \<noteq> []
     | ClientWriteDone \<Rightarrow> cl_in_flight c
     | ClientWriteFailed message aborted \<Rightarrow> cl_in_flight c
     | ClientLine line \<Rightarrow> cl_reading c
     | ClientReadFailed message \<Rightarrow> cl_reading c
     | _ \<Rightarrow> True)"

section \<open>The invariant\<close>

definition wires :: "client_task list \<Rightarrow> string list" where
  "wires ts = concat (map (\<lambda>t. case t of SendWire w \<Rightarrow> [w] | CloseStream \<Rightarrow> []) ts)"

text \<open>All frames the client has queued, from the first written to the last posted.\<close>

definition client_frames :: "chat_client \<Rightarrow> string list" where
  "client_frames c = cl_written c @ cl_write_queue c @ wires (cl_posted c)"

text \<open>What an attempt to connect depends on.\<close>

definition connect_core :: "chat_client \<Rightarrow> bool" where
  "connect_core c \<longleftrightarrow>
     (if cl_connecting c
      then cl_lifetime c = Some (cl_attempts c) \<and> cl_callback c = Some (cl_attempts c) \<and>
           cl_attempts c = 1 \<and> cl_completions c = [] \<and> \<not> cl_connected c
      else cl_lifetime c = None \<and> cl_callback c = None \<and> length (cl_completions c) = cl_attempts c) \<and>
     cl_attempts c \<le> 1"

text \<open>While connecting, the newest deadline is still to come.\<close>

definition connect_inv :: "chat_client \<Rightarrow> bool" where
  "connect_inv c \<longleftrightarrow> connect_core c \<and>
     (cl_connecting c \<longrightarrow> (cl_attempts c, Deadline (cl_generation c)) \<in> set (cl_outstanding c))"

definition on_wire :: "chat_client \<Rightarrow> string list" where
  "on_wire c = cl_written c @ cl_write_queue c"

definition hello_wire :: string where
  "hello_wire = encode_loop (serialize_client (Hello VERSION)) @ [CHR 0x0A]"

text \<open>What is sent starts with the greeting, and before the connection is made nothing is queued.\<close>

definition greeting_inv :: "chat_client \<Rightarrow> bool" where
  "greeting_inv c \<longleftrightarrow> (on_wire c \<noteq> [] \<longrightarrow> hd (on_wire c) = hello_wire) \<and>
     (cl_connected c \<and> \<not> cl_closing c \<longrightarrow> client_frames c \<noteq> [] \<and> hd (client_frames c) = hello_wire) \<and>
     (cl_attempts c = 0 \<or> cl_connecting c \<longrightarrow> client_frames c = [] \<and> \<not> cl_connected c)"

definition client_inv :: "chat_client \<Rightarrow> bool" where
  "client_inv c \<longleftrightarrow> connect_inv c \<and> greeting_inv c"

text \<open>The parts of the state these depend on.\<close>

definition kview where
  "kview c = (cl_attempts c, cl_lifetime c, cl_outstanding c, cl_generation c, cl_connecting c, cl_callback c, cl_completions c)"

definition fview where
  "fview c = (cl_connected c, cl_closing c, cl_posted c, cl_write_queue c, cl_written c)"

lemma kviewD:
  assumes "kview c' = kview c"
  shows "cl_attempts c' = cl_attempts c" "cl_lifetime c' = cl_lifetime c" "cl_outstanding c' = cl_outstanding c"
    "cl_generation c' = cl_generation c" "cl_connecting c' = cl_connecting c" "cl_callback c' = cl_callback c"
    "cl_completions c' = cl_completions c"
  using assms by (simp_all add: kview_def)

lemma fviewD:
  assumes "fview c' = fview c"
  shows "cl_connected c' = cl_connected c" "cl_closing c' = cl_closing c" "client_frames c' = client_frames c" "on_wire c' = on_wire c"
  using assms by (simp_all add: fview_def client_frames_def on_wire_def)

lemma connect_inv_mono:
  assumes "kview c' = kview c" "cl_connected c' \<longrightarrow> cl_connected c" "connect_inv c"
  shows "connect_inv c'"
  using assms(2,3) unfolding connect_inv_def connect_core_def kviewD [OF assms(1)] by (cases "cl_connecting c") auto

lemma greeting_inv_cong:
  assumes "kview c' = kview c" "fview c' = fview c"
  shows "greeting_inv c' = greeting_inv c"
  using kviewD [OF assms(1)] fviewD [OF assms(2)] unfolding greeting_inv_def by simp

lemma client_inv_cong:
  assumes "kview c' = kview c" "fview c' = fview c" "client_inv c"
  shows "client_inv c'"
  using assms connect_inv_mono [OF assms(1)] fviewD [OF assms(2)] greeting_inv_cong [OF assms(1,2)]
  by (simp add: client_inv_def)

lemma wires_simps [simp]:
  "wires [] = []" "wires (SendWire w # ts) = w # wires ts" "wires (CloseStream # ts) = wires ts"
  "wires (ts @ us) = wires ts @ wires us"
  by (simp_all add: wires_def)

lemma hello_encodes: "encode_client_frame (Hello VERSION) = Success hello_wire"
proof -
  have wf: "wf_client (Hello VERSION)" by (simp add: wf_simps)
  show ?thesis
    unfolding encode_client_frame_wf [OF wf] encode_frame_fits [OF client_payload_fits [OF wf]] hello_wire_def ..
qed

lemma view_simps [simp]:
  "kview (cl_push l c) = kview c" "kview (fail_join r c) = kview c" "kview (give_up r c) = kview c"
  "fview (cl_push l c) = fview c" "fview (fail_join r c) = fview c" "fview (give_up r c) = fview c"
  by (simp_all add: kview_def fview_def cl_push_def fail_join_def give_up_def)

lemma kview_ops [simp]:
  "kview (client_send m c) = kview c" "kview (client_close c) = kview c" "kview (client_write_next c) = kview c"
  by (simp_all add: client_send_def client_close_def client_write_next_def split: result.split)
    (simp_all add: kview_def)

lemma client_send_frames:
  "fview (client_send m c) = fview c \<or> cl_connected c \<and> \<not> cl_closing c \<and>
     (\<exists>w. client_send m c = c\<lparr>cl_posted := cl_posted c @ [SendWire w]\<rparr>)"
  by (auto simp: client_send_def split: result.split)

lemma client_invI:
  assumes "client_inv c" "kview c' = kview c" "cl_connected c' \<longrightarrow> cl_connected c" "greeting_inv c'"
  shows "client_inv c'"
  using assms connect_inv_mono [OF assms(2,3)] by (simp add: client_inv_def)

lemmas greeting_defs = greeting_inv_def on_wire_def client_frames_def

lemma client_inv_send:
  assumes "client_inv c"
  shows "client_inv (client_send m c)"
proof (cases "fview (client_send m c) = fview c")
  case True
  then show ?thesis using assms client_inv_cong [of "client_send m c" c] by simp
next
  case False
  then obtain w where send: "client_send m c = c\<lparr>cl_posted := cl_posted c @ [SendWire w]\<rparr>" "cl_connected c"
    using client_send_frames by blast
  have "greeting_inv (client_send m c)"
    using assms send by (auto simp: client_inv_def greeting_defs hd_append)
  then show ?thesis by (intro client_invI [OF assms]) (simp_all add: send kview_def)
qed

lemma client_inv_close: "client_inv c \<Longrightarrow> client_inv (client_close c)"
  by (rule client_invI [of c]) (simp_all add: client_close_def client_inv_def greeting_defs kview_def)

text \<open>A client that is no longer connected: nothing new can be queued.\<close>

lemma client_inv_disconnect:
  assumes "client_inv c" "kview c' = kview c" "\<not> cl_connected c'" "cl_written c' = cl_written c" "cl_write_queue c' = cl_write_queue c"
    "cl_posted c' = cl_posted c"
  shows "client_inv c'"
  using assms kviewD [OF assms(2)] by (intro client_invI [OF assms(1,2)]) (simp_all add: client_inv_def greeting_defs)

lemma client_inv_posted:
  assumes "client_inv c"
  shows "client_inv (run_client_posted c)"
proof (cases "cl_posted c")
  case (Cons t ts)
  show ?thesis
  proof (cases t)
    case (SendWire w)
    with Cons assms show ?thesis
      by (intro client_invI [OF assms])
        (auto simp: run_client_posted_def client_write_next_def kview_def client_inv_def greeting_defs Let_def
          hd_append split: if_splits)
  next
    case CloseStream
    with Cons assms show ?thesis
      by (intro client_invI [OF assms]) (simp_all add: run_client_posted_def kview_def client_inv_def greeting_defs)
  qed
qed (use assms in \<open>simp add: run_client_posted_def\<close>)

lemma client_inv_write_done:
  assumes "client_inv c"
  shows "client_inv (client_write_done c)"
proof -
  have "on_wire (client_write_done c) = on_wire c" "client_frames (client_write_done c) = client_frames c"
    by (cases "cl_write_queue c"; simp add: client_write_done_def client_write_next_def on_wire_def client_frames_def Let_def)+
  then show ?thesis
    using assms by (intro client_invI [OF assms])
      (simp_all add: client_inv_def greeting_inv_def client_write_done_def client_write_next_def kview_def Let_def)
qed

lemma client_inv_failures:
  assumes "client_inv c"
  shows "client_inv (client_write_failed e b c)" "client_inv (client_read_failed e c)"
  by (rule client_inv_disconnect [OF assms];
      simp add: client_write_failed_def client_read_failed_def kview_def cl_push_def give_up_def fail_join_def Let_def)+

subsection \<open>Messages\<close>

lemma show_rooms_view [simp]: "kview (show_rooms rs c) = kview c" "fview (show_rooms rs c) = fview c"
proof -
  have "kview (fold (\<lambda>r. cl_push (f r)) rs c) = kview c \<and> fview (fold (\<lambda>r. cl_push (f r)) rs c) = fview c" for f c
    by (induction rs arbitrary: c) simp_all
  then show "kview (show_rooms rs c) = kview c" "fview (show_rooms rs c) = fview c"
    by (simp_all add: show_rooms_def)
qed

lemma kview_update [simp]:
  "kview (c\<lparr>cl_auth_required := a\<rparr>) = kview c" "kview (c\<lparr>cl_auth_ok := a\<rparr>) = kview c" "kview (c\<lparr>cl_auth_resolved := a\<rparr>) = kview c"
  "kview (c\<lparr>cl_join_resolved := a\<rparr>) = kview c" "kview (c\<lparr>cl_banned := a\<rparr>) = kview c" "kview (c\<lparr>cl_nickname_taken := a\<rparr>) = kview c"
  "kview (c\<lparr>cl_kicked := a\<rparr>) = kview c" "kview (c\<lparr>cl_kick_reason := r\<rparr>) = kview c" "kview (c\<lparr>cl_app := ap\<rparr>) = kview c"
  "kview (c\<lparr>cl_room_list_requested := a\<rparr>) = kview c" "kview (c\<lparr>cl_negotiated := a\<rparr>) = kview c" "kview (c\<lparr>cl_reading := a\<rparr>) = kview c"
  "kview (c\<lparr>cl_identity := i\<rparr>) = kview c" "kview (c\<lparr>cl_phase := r\<rparr>) = kview c"
  by (simp_all add: kview_def)

lemma fview_update [simp]:
  "fview (c\<lparr>cl_auth_required := a\<rparr>) = fview c" "fview (c\<lparr>cl_auth_ok := a\<rparr>) = fview c" "fview (c\<lparr>cl_auth_resolved := a\<rparr>) = fview c"
  "fview (c\<lparr>cl_join_resolved := a\<rparr>) = fview c" "fview (c\<lparr>cl_banned := a\<rparr>) = fview c" "fview (c\<lparr>cl_nickname_taken := a\<rparr>) = fview c"
  "fview (c\<lparr>cl_kicked := a\<rparr>) = fview c" "fview (c\<lparr>cl_kick_reason := r\<rparr>) = fview c" "fview (c\<lparr>cl_app := ap\<rparr>) = fview c"
  "fview (c\<lparr>cl_room_list_requested := a\<rparr>) = fview c" "fview (c\<lparr>cl_negotiated := a\<rparr>) = fview c" "fview (c\<lparr>cl_reading := a\<rparr>) = fview c"
  "fview (c\<lparr>cl_identity := i\<rparr>) = fview c" "fview (c\<lparr>cl_phase := r\<rparr>) = fview c"
  by (simp_all add: fview_def)

text \<open>Only a challenge makes the client send something.\<close>

lemma message_handler_view:
  assumes "\<not> (\<exists>h. m = Challenge h)"
  shows "kview (client_message_handler S m c) = kview c \<and> fview (client_message_handler S m c) = fview c"
  using assms by (cases m) (simp_all add: client_message_handler_def Let_def)

lemma client_inv_handler:
  assumes "client_inv c"
  shows "client_inv (client_message_handler S m c)"
proof (cases "\<exists>h. m = Challenge h")
  case True
  then show ?thesis
    using assms client_inv_cong [OF _ _ assms, of "fail_join r c" for r]
    by (auto simp: client_message_handler_def client_inv_send split: option.split)
next
  case False
  then show ?thesis using client_inv_cong [OF _ _ assms] message_handler_view by blast
qed

lemma client_inv_line:
  assumes "client_inv c"
  shows "client_inv (client_line S line c)"
proof -
  have close: "client_inv (client_close c')" if "kview c' = kview c" "fview c' = fview c" for c'
    using client_inv_close [OF client_inv_cong [OF that assms]] .
  note keep = client_inv_cong [OF _ _ assms]
  show ?thesis
  proof (cases "decode_server_frame line")
    case (Failure e d)
    then show ?thesis by (simp add: client_line_def Let_def close keep)
  next
    case (Success m)
    then show ?thesis
      using client_inv_handler [OF assms, of S m]
      by (cases "cl_negotiated c"; cases m) (simp_all add: client_line_def Let_def close keep)
  qed
qed

subsection \<open>Connecting\<close>

lemma client_inv_finish:
  assumes "connect_core c" "greeting_inv c"
  shows "client_inv (finish_connect f e c)"
proof (cases "cl_connecting c")
  case True
  with assms have c: "cl_lifetime c = Some (cl_attempts c)" "cl_callback c = Some (cl_attempts c)"
    "cl_attempts c = 1" "cl_completions c = []" "\<not> cl_connected c"
    "cl_written c = []" "cl_write_queue c = []" "wires (cl_posted c) = []"
    by (simp_all add: connect_core_def greeting_defs)
  show ?thesis
  proof (cases "f = NoFailure")
    case success: True
    show ?thesis
      using True c by (cases "cl_closing c")
        (simp_all add: success finish_connect_def client_send_def hello_encodes client_inv_def connect_inv_def connect_core_def greeting_defs Let_def)
  next
    case False
    with True c show ?thesis
      by (simp add: finish_connect_def client_inv_def connect_inv_def connect_core_def greeting_defs Let_def)
  qed
next
  case False
  with assms show ?thesis by (simp add: finish_connect_def client_inv_def connect_inv_def)
qed

lemma client_inv_connect: "client_inv c \<Longrightarrow> cl_attempts c = 0 \<Longrightarrow> client_inv (async_connect c)"
  by (simp add: async_connect_def start_op_def arm_deadline_def client_inv_def connect_inv_def connect_core_def greeting_defs Let_def
      split: if_splits)

lemma core_simps [simp]:
  "connect_core (complete_op a op c) = connect_core c" "greeting_inv (complete_op a op c) = greeting_inv c"
  "connect_core (start_op a op c) = connect_core c" "greeting_inv (start_op a op c) = greeting_inv c"
  "connect_core (arm_deadline c) = connect_core c" "greeting_inv (arm_deadline c) = greeting_inv c"
  "connect_core (cl_push l c) = connect_core c" "greeting_inv (cl_push l c) = greeting_inv c"
  "connect_core (c\<lparr>cl_phase := r\<rparr>) = connect_core c" "greeting_inv (c\<lparr>cl_phase := r\<rparr>) = greeting_inv c"
  by (simp_all add: complete_op_def start_op_def arm_deadline_def cl_push_def connect_core_def greeting_defs Let_def)

lemma client_inv_core: "client_inv c \<Longrightarrow> connect_core c" "client_inv c \<Longrightarrow> greeting_inv c"
  by (simp_all add: client_inv_def connect_inv_def)

lemma complete_op_fields [simp]:
  "cl_connecting (complete_op a op c) = cl_connecting c" "cl_lifetime (complete_op a op c) = cl_lifetime c"
  "cl_generation (complete_op a op c) = cl_generation c" "cl_attempts (complete_op a op c) = cl_attempts c"
  "cl_outstanding (complete_op a op c) = remove1 (a, op) (cl_outstanding c)"
  "cl_connected (complete_op a op c) = cl_connected c" "cl_tls_enabled (complete_op a op c) = cl_tls_enabled c"
  by (simp_all add: complete_op_def)

lemma client_inv_complete:
  assumes "client_inv c" "\<not> (\<exists>g. op = Deadline g)"
  shows "client_inv (complete_op a op c)"
  using assms by (auto simp: client_inv_def connect_inv_def intro!: in_set_remove1 [THEN iffD2])

lemma client_inv_start: "client_inv c \<Longrightarrow> client_inv (start_op a op c)"
  by (auto simp: client_inv_def connect_inv_def) (auto simp: start_op_def)

lemma client_inv_arm: "connect_core c \<Longrightarrow> greeting_inv c \<Longrightarrow> client_inv (arm_deadline c)"
  by (auto simp: client_inv_def connect_inv_def) (auto simp: arm_deadline_def connect_core_def Let_def)

lemma client_inv_handlers:
  assumes "client_inv c"
  shows "client_inv (on_resolved a ec c)" "client_inv (on_tcp_connected a tc thrown c)" "client_inv (on_handshake a ec verdict c)"
    "client_inv (cancel_connect c)"
  using client_inv_core [OF assms] assms
  by (auto simp: on_resolved_def on_tcp_connected_def on_handshake_def cancel_connect_def Let_def
      intro!: client_inv_finish client_inv_start client_inv_arm split: option.split sum.split)

lemma client_inv_deadline:
  assumes "client_inv c" "aborted \<longrightarrow> g \<noteq> cl_generation c \<or> \<not> cl_connecting c"
  shows "client_inv (on_deadline a g aborted (complete_op a (Deadline g) c))"
proof (cases "cl_connecting c \<and> cl_lifetime c = Some a \<and> g = cl_generation c")
  case True
  with assms(2) client_inv_core [OF assms(1)] show ?thesis
    by (auto simp: on_deadline_def expired_def intro!: client_inv_finish)
next
  case False
  then have "on_deadline a g aborted (complete_op a (Deadline g) c) = complete_op a (Deadline g) c"
    by (auto simp: on_deadline_def expired_def)
  moreover have "(cl_attempts c, Deadline (cl_generation c)) \<noteq> (a, Deadline g)" if "cl_connecting c"
    using False that client_inv_core(1) [OF assms(1)] by (auto simp: connect_core_def)
  ultimately show ?thesis
    using assms(1) by (auto simp: client_inv_def connect_inv_def intro!: in_set_remove1 [THEN iffD2])
qed

lemma client_inv_step:
  assumes "client_inv c" "client_enabled ev c"
  shows "client_inv (client_step S ev c)"
proof (cases ev)
  case (IdentifyAs nick)
  then show ?thesis
    using assms client_inv_cong [OF _ _ assms(1), of "fail_join r c" for r]
    by (auto simp: client_step_def client_identify_def client_inv_send split: option.split)
next
  case RequestRooms
  then show ?thesis
    using client_inv_send [OF client_inv_cong [OF _ _ assms(1), of "c\<lparr>cl_room_list_requested := True\<rparr>"]]
    by (simp add: client_step_def request_rooms_def)
next
  case (SetIdentity i)
  then show ?thesis
    using client_inv_cong [OF _ _ assms(1), of "c\<lparr>cl_identity := Some i\<rparr>"] by (simp add: client_step_def set_identity_def)
qed (use assms in \<open>simp_all add: client_step_def client_enabled_def client_inv_connect client_inv_handlers
      client_inv_complete client_inv_deadline client_inv_send client_inv_close client_inv_posted
      client_inv_write_done client_inv_failures client_inv_line\<close>)

interpretation client: invariant_machine "client_step S" client_inv client_enabled for S
  by unfold_locales (rule client_inv_step)

lemma client_inv_new: "client_inv (new_chat_client tls)"
  by (simp add: new_chat_client_def client_inv_def connect_inv_def connect_core_def greeting_defs)

section \<open>Runs\<close>

inductive client_trace :: "sodium \<Rightarrow> bool \<Rightarrow> client_event list \<Rightarrow> chat_client \<Rightarrow> bool" for S tls where
  new: "client_trace S tls [] (new_chat_client tls)"
| event: "client_trace S tls evs c \<Longrightarrow> client_enabled ev c \<Longrightarrow> client_trace S tls (evs @ [ev]) (client_step S ev c)"

lemma client_trace_inv: "client_trace S tls evs c \<Longrightarrow> client_inv c"
  by (induction rule: client_trace.induct) (auto intro: client_inv_new client_inv_step)

subsection \<open>An attempt ends once\<close>

lemma attempts_kept [simp]:
  "cl_attempts (client_send m c) = cl_attempts c" "cl_attempts (client_close c) = cl_attempts c"
  "cl_attempts (finish_connect f e c) = cl_attempts c" "cl_attempts (arm_deadline c) = cl_attempts c"
  "cl_attempts (start_op a op c) = cl_attempts c" "cl_attempts (cl_push l c) = cl_attempts c"
  "cl_attempts (fail_join r c) = cl_attempts c"
  by (simp_all add: client_send_def client_close_def finish_connect_def arm_deadline_def start_op_def cl_push_def fail_join_def Let_def
      split: result.split option.split)

lemma kview_line: "kview (client_line S l c) = kview c"
proof (cases "decode_server_frame l")
  case (Success m)
  have "kview (client_message_handler S m c) = kview c"
    by (cases "\<exists>h. m = Challenge h") (auto simp: message_handler_view, auto simp: client_message_handler_def split: option.split)
  with Success show ?thesis by (cases "cl_negotiated c"; cases m) (simp_all add: client_line_def Let_def)
qed (simp add: client_line_def Let_def)

lemma kview_io:
  "kview (run_client_posted c) = kview c" "kview (client_write_done c) = kview c"
  "kview (client_write_failed e b c) = kview c" "kview (client_read_failed e c) = kview c"
proof -
  show "kview (run_client_posted c) = kview c"
  proof (cases "cl_posted c")
    case (Cons t ts)
    then show ?thesis by (cases t) (simp_all add: run_client_posted_def client_write_next_def kview_def Let_def)
  qed (simp add: run_client_posted_def)
qed (simp_all add: client_write_done_def client_write_next_def client_write_failed_def client_read_failed_def
      cl_push_def give_up_def fail_join_def kview_def Let_def)

lemma attempts_step: "cl_attempts (client_step S ev c) = cl_attempts c + (if ev = Connect then 1 else 0)"
  by (cases ev) (simp_all add: client_step_def kviewD(1) [OF kview_line] kviewD(1) [OF kview_io(1)] kviewD(1) [OF kview_io(2)]
      kviewD(1) [OF kview_io(3)] kviewD(1) [OF kview_io(4)] async_connect_def on_resolved_def on_tcp_connected_def
      on_handshake_def on_deadline_def cancel_connect_def client_identify_def request_rooms_def set_identity_def Let_def
      split: option.split sum.split)

lemma attempts_trace: "client_trace S tls evs c \<Longrightarrow> cl_attempts c = count_list evs Connect"
  by (induction rule: client_trace.induct) (simp_all add: new_chat_client_def attempts_step)

text \<open>
  C8: An attempt to connect ends exactly once and cannot hang. In every run of a client the
  callback of the attempt has been called at most once, and it has been called as soon as the
  client is not connecting any more; while it is connecting, the deadline of the current phase
  is still to fire, and when it fires the attempt ends as a timeout, whatever phase it is in.
\<close>

theorem connect_ends_once:
  assumes "client_trace S tls evs c" "Connect \<in> set evs"
  shows "length (cl_completions c) = (if cl_connecting c then 0 else 1) \<and>
    (cl_connecting c \<longrightarrow>
       client_enabled (DeadlineFired 1 (cl_generation c) False) c \<and>
       cl_completions (client_step S (DeadlineFired 1 (cl_generation c) False) c) = [(1, False)] \<and>
       cl_failure (client_step S (DeadlineFired 1 (cl_generation c) False) c) = TimeoutFailure)"
proof -
  from client_trace_inv [OF assms(1)] have inv: "connect_inv c" by (simp add: client_inv_def)
  have "cl_attempts c \<noteq> 0"
    using attempts_trace [OF assms(1)] assms(2) by (simp add: count_list_0_iff)
  with inv have "cl_attempts c = 1" by (auto simp: connect_inv_def connect_core_def split: if_splits)
  with inv show ?thesis
    by (auto simp: connect_inv_def connect_core_def client_enabled_def client_step_def on_deadline_def expired_def
        finish_connect_def complete_op_def Let_def split: if_splits)
qed

theorem connect_ends_once_witness:
  "cl_completions (client_step plain_sodium (DeadlineFired 1 1 False) (async_connect (new_chat_client True))) = [(1, False)]"
proof -
  let ?c = "client_step plain_sodium Connect (new_chat_client True)"
  have "client_trace plain_sodium True ([] @ [Connect]) ?c"
    by (intro client_trace.event client_trace.new) (simp add: client_enabled_def new_chat_client_def)
  moreover have "?c = async_connect (new_chat_client True)" "cl_connecting ?c" "cl_generation ?c = 1"
    by (simp_all add: client_step_def async_connect_def start_op_def arm_deadline_def new_chat_client_def Let_def)
  ultimately show ?thesis using connect_ends_once [of plain_sodium True "[] @ [Connect]" ?c] by simp
qed

subsection \<open>Security before traffic\<close>

lemma connected_kept [simp]:
  "cl_connected (client_send m c) = cl_connected c" "cl_connected (client_close c) = cl_connected c"
  "cl_connected (cl_push l c) = cl_connected c" "cl_connected (fail_join r c) = cl_connected c"
  "cl_connected (arm_deadline c) = cl_connected c" "cl_connected (start_op a op c) = cl_connected c"
  by (simp_all add: client_send_def client_close_def cl_push_def fail_join_def arm_deadline_def start_op_def Let_def
      split: result.split)

lemma client_frames_kept [simp]:
  "client_frames (client_close c) = client_frames c" "client_frames (cl_push l c) = client_frames c"
  "client_frames (fail_join r c) = client_frames c" "client_frames (arm_deadline c) = client_frames c"
  "client_frames (start_op a op c) = client_frames c" "client_frames (complete_op a op c) = client_frames c"
  "client_frames (async_connect c) = client_frames c" "cl_connected (async_connect c) = cl_connected c"
  "client_frames (c\<lparr>cl_phase := r\<rparr>) = client_frames c" "\<not> cl_connected c \<Longrightarrow> client_send m c = c"
  by (simp_all add: client_frames_def client_close_def cl_push_def fail_join_def arm_deadline_def start_op_def complete_op_def
      async_connect_def client_send_def Let_def)

lemma offline_line: "\<not> cl_connected c \<Longrightarrow> \<not> cl_connected (client_line S l c) \<and> client_frames (client_line S l c) = client_frames c"
proof (cases "decode_server_frame l")
  case (Success m)
  assume off: "\<not> cl_connected c"
  have "fview (client_message_handler S m c) = fview c"
    using off by (cases "\<exists>h. m = Challenge h")
      (auto simp: message_handler_view, auto simp: client_message_handler_def split: option.split)
  note handler = fviewD(1,3) [OF this]
  have other: "cl_connected (client_close (cl_push a (give_up b (c\<lparr>cl_reading := False\<rparr>)))) = cl_connected c"
    "client_frames (client_close (cl_push a (give_up b (c\<lparr>cl_reading := False\<rparr>)))) = client_frames c"
    "client_frames (c\<lparr>cl_negotiated := n\<rparr>) = client_frames c" for a b n
    by (simp_all add: give_up_def) (simp_all add: client_frames_def fail_join_def)
  from Success off handler other show ?thesis
    by (cases "cl_negotiated c"; cases m) (simp_all add: client_line_def Let_def)
qed (simp add: client_line_def Let_def give_up_def, simp add: client_frames_def fail_join_def cl_push_def)

lemma finish_failure [simp]:
  "f \<noteq> NoFailure \<Longrightarrow> cl_connected (finish_connect f e c) = cl_connected c"
  "f \<noteq> NoFailure \<Longrightarrow> client_frames (finish_connect f e c) = client_frames c"
  by (simp_all add: finish_connect_def client_frames_def Let_def)

lemma offline_io:
  assumes "\<not> cl_connected c" "client_frames c = []"
  shows "\<not> cl_connected (run_client_posted c) \<and> client_frames (run_client_posted c) = []"
    "\<not> cl_connected (client_write_done c) \<and> client_frames (client_write_done c) = []"
    "\<not> cl_connected (client_write_failed e b c) \<and> client_frames (client_write_failed e b c) = []"
    "\<not> cl_connected (client_read_failed e c) \<and> client_frames (client_read_failed e c) = []"
proof -
  show "\<not> cl_connected (run_client_posted c) \<and> client_frames (run_client_posted c) = []"
  proof (cases "cl_posted c")
    case (Cons t ts)
    with assms show ?thesis by (cases t) (simp_all add: run_client_posted_def client_frames_def)
  qed (use assms in \<open>simp add: run_client_posted_def\<close>)
qed (use assms in \<open>simp_all add: client_write_done_def client_write_next_def client_write_failed_def client_read_failed_def
      cl_push_def give_up_def fail_join_def client_frames_def Let_def\<close>)

definition certificate_accepted :: "client_event \<Rightarrow> bool" where
  "certificate_accepted ev \<longleftrightarrow> (\<exists>a notice. ev = TlsHandshaked a None (Inr notice))"

lemma offline_step:
  assumes "cl_tls_enabled c" "\<not> cl_connected c" "client_frames c = []" "\<not> certificate_accepted ev"
  shows "\<not> cl_connected (client_step S ev c) \<and> client_frames (client_step S ev c) = []"
proof (cases ev)
  case (Resolved a ec)
  with assms show ?thesis
    by (simp add: client_step_def on_resolved_def split: option.split)
next
  case (TcpConnected a ec thrown)
  with assms show ?thesis
    by (auto simp: client_step_def on_tcp_connected_def Let_def split: option.split)
next
  case (TlsHandshaked a ec verdict)
  with assms show ?thesis
    by (auto simp: client_step_def on_handshake_def certificate_accepted_def split: option.split sum.split)
next
  case (DeadlineFired a g aborted)
  with assms show ?thesis by (simp add: client_step_def on_deadline_def)
next
  case (SetIdentity i)
  with assms show ?thesis by (simp add: client_step_def set_identity_def client_frames_def)
next
  case (IdentifyAs n)
  with assms show ?thesis by (simp add: client_step_def client_identify_def split: option.split)
next
  case RequestRooms
  with assms show ?thesis by (simp add: client_step_def request_rooms_def) (simp add: client_frames_def)
qed (use assms offline_line [of c S] offline_io [OF assms(2,3)] in \<open>simp_all add: client_step_def cancel_connect_def\<close>)

lemma tls_kept_messages [simp]:
  "cl_tls_enabled (client_send m c) = cl_tls_enabled c" "cl_tls_enabled (client_close c) = cl_tls_enabled c"
  "cl_tls_enabled (cl_push l c) = cl_tls_enabled c" "cl_tls_enabled (fail_join r c) = cl_tls_enabled c"
  "cl_tls_enabled (arm_deadline c) = cl_tls_enabled c" "cl_tls_enabled (start_op a op c) = cl_tls_enabled c"
  "cl_tls_enabled (finish_connect f e c) = cl_tls_enabled c" "cl_tls_enabled (give_up r c) = cl_tls_enabled c"
  by (simp_all add: client_send_def client_close_def cl_push_def fail_join_def arm_deadline_def start_op_def finish_connect_def
      give_up_def Let_def split: result.split)

lemma tls_show_rooms [simp]: "cl_tls_enabled (show_rooms rs c) = cl_tls_enabled c"
proof -
  have "cl_tls_enabled (fold (\<lambda>r. cl_push (f r)) rs c) = cl_tls_enabled c" for f c
    by (induction rs arbitrary: c) simp_all
  then show ?thesis by (simp add: show_rooms_def)
qed

lemma tls_kept_io [simp]:
  "cl_tls_enabled (client_line S l c) = cl_tls_enabled c" "cl_tls_enabled (run_client_posted c) = cl_tls_enabled c"
  "cl_tls_enabled (client_write_done c) = cl_tls_enabled c" "cl_tls_enabled (client_write_failed e b c) = cl_tls_enabled c"
  "cl_tls_enabled (client_read_failed e c) = cl_tls_enabled c"
proof -
  have "cl_tls_enabled (client_message_handler S m c) = cl_tls_enabled c" for m
    by (cases m) (simp_all add: client_message_handler_def Let_def split: option.split)
  then show "cl_tls_enabled (client_line S l c) = cl_tls_enabled c"
    by (simp add: client_line_def Let_def split: result.split server_message.split)
  have "cl_tls_enabled (run_client_task t c) = cl_tls_enabled c" for t c
    by (cases t) (simp_all add: client_write_next_def Let_def)
  then show "cl_tls_enabled (run_client_posted c) = cl_tls_enabled c"
    by (simp add: run_client_posted_def split: list.split)
qed (simp_all add: client_write_done_def client_write_next_def client_write_failed_def client_read_failed_def Let_def)

lemma tls_kept: "cl_tls_enabled (client_step S ev c) = cl_tls_enabled c"
  by (cases ev) (simp_all add: client_step_def async_connect_def on_resolved_def on_tcp_connected_def on_handshake_def
      on_deadline_def cancel_connect_def client_identify_def request_rooms_def set_identity_def Let_def split: option.split sum.split)

text \<open>
  C9: With TLS nothing is sent before the certificate is accepted. In every run of a client with
  TLS, as long as no handshake has ended with a certificate that \<open>verify_peer\<close> accepted, the
  client is not connected and has queued no frame - no greeting, no password, no message.
\<close>

theorem no_traffic_before_certificate:
  assumes "client_trace S True evs c" "\<not> list_ex certificate_accepted evs"
  shows "\<not> cl_connected c \<and> client_frames c = []"
proof -
  have "cl_tls_enabled c \<and> (\<not> list_ex certificate_accepted evs \<longrightarrow> \<not> cl_connected c \<and> client_frames c = [])"
    using assms(1)
    by (induction rule: client_trace.induct)
      (auto simp: tls_kept offline_step, simp_all add: new_chat_client_def client_frames_def)
  with assms(2) show ?thesis by blast
qed

theorem no_traffic_before_certificate_witness:
  "client_frames (client_step plain_sodium (SendMessage (Chat ''hi'')) (async_connect (new_chat_client True))) = []"
proof -
  have "client_trace plain_sodium True (([] @ [Connect]) @ [SendMessage (Chat ''hi'')])
      (client_step plain_sodium (SendMessage (Chat ''hi'')) (client_step plain_sodium Connect (new_chat_client True)))"
    by (intro client_trace.event client_trace.new) (simp_all add: client_enabled_def new_chat_client_def)
  from no_traffic_before_certificate [OF this] show ?thesis
    by (simp add: certificate_accepted_def client_step_def) (simp add: client_frames_def new_chat_client_def)
qed

text \<open>
  The first thing a client sends is the greeting. In every run, whatever has been put on the
  wire starts with the frame of \<open>HELLO\<close> with the protocol version, which the server decodes as
  such.
\<close>

theorem greeting_first:
  assumes "client_trace S tls evs c" "on_wire c \<noteq> []"
  shows "decode_client_frame (hd (on_wire c)) = Success (Hello VERSION)"
proof -
  have "hd (on_wire c) = hello_wire"
    using client_trace_inv [OF assms(1)] assms(2) by (simp add: client_inv_def greeting_inv_def)
  moreover have "wf_client (Hello VERSION)" by (simp add: wf_simps)
  ultimately show ?thesis
    using decode_client_frame_encoded [of "Hello VERSION" hello_wire] hello_encodes by simp
qed

text \<open>A plaintext client after connecting, with its greeting on the wire.\<close>

definition demo_client :: chat_client where
  "demo_client = fold (client_step plain_sodium)
     [Connect, Resolved 1 None, TcpConnected 1 None None, RunPosted] (new_chat_client False)"

lemma demo_client_steps:
  "client_trace plain_sodium False [Connect, Resolved 1 None, TcpConnected 1 None None, RunPosted] demo_client"
  "on_wire demo_client = [hello_wire]"
proof -
  note steps = client_step_def client_enabled_def async_connect_def on_resolved_def on_tcp_connected_def expired_def finish_connect_def
    arm_deadline_def start_op_def complete_op_def client_send_def hello_encodes run_client_posted_def client_write_next_def
    new_chat_client_def Let_def
  have "client_trace plain_sodium False (((([] @ [Connect]) @ [Resolved 1 None]) @ [TcpConnected 1 None None]) @ [RunPosted]) demo_client"
    unfolding demo_client_def fold_simps id_apply comp_apply
    by (intro client_trace.event client_trace.new) (simp_all add: steps)
  then show "client_trace plain_sodium False [Connect, Resolved 1 None, TcpConnected 1 None None, RunPosted] demo_client" by simp
  show "on_wire demo_client = [hello_wire]" by (simp add: demo_client_def steps on_wire_def)
qed

theorem greeting_first_witness: "decode_client_frame (hd (on_wire demo_client)) = Success (Hello VERSION)"
  by (rule greeting_first [OF demo_client_steps(1)]) (simp add: demo_client_steps(2))

end
