(* ===== verification/Login.thy ===== *)
theory Login
  imports Server_Authority Chat_Client
begin

text \<open>
  Both ends together: the client of \<open>Chat_Client\<close> logs in at the server of \<open>Chat_Server\<close>. The
  two exchange only bytes: each side's lines are the frames the other side queued.
\<close>

text \<open>\<open>randombytes_buf\<close> fills the buffer it is given.\<close>

definition random_laws :: "sodium \<Rightarrow> bool" where
  "random_laws S \<longleftrightarrow> (\<forall>call n. length (randombytes_buf S call n) = n)"

lemma encode_client_line:
  assumes "wf_client m"
  shows "\<exists>l. encode_client_frame m = Success (l @ [CHR 0x0A]) \<and> decode_client_frame l = Success m"
  using decode_frame_encoded(2) [OF client_payload_fits [OF assms]] assms
  by (simp add: encode_client_frame_wf encode_frame_fits client_payload_fits decode_client_frame_def
      decode_message_frame_def parse_serialize_client)

lemma deliver_line:
  assumes "deliverable m"
  shows "\<exists>l. decode_server_frame l = Success m \<and>
    (\<forall>s out. ios (deliver m s out) s = post_task (PostWrite (l @ [CHR 0x0A])) (ios out s))"
proof -
  have fits: "payload_fits (serialize_server m)"
    using assms serialize_server_not_Nil [of m] by (simp add: deliverable_def payload_fits_def)
  from decode_frame_encoded(2) [OF this] assms
  have "decode_server_frame (encode_loop (serialize_server m)) = Success m"
    by (simp add: decode_server_frame_def decode_message_frame_def parse_serialize_server deliverable_def)
  moreover have "encode_server_frame m = Success (encode_loop (serialize_server m) @ [CHR 0x0A])"
    using assms by (simp add: encode_server_frame_wf encode_frame_fits [OF fits] deliverable_def)
  ultimately show ?thesis by (auto simp: deliver_def)
qed

text \<open>The client's two steps of a login.\<close>

lemma client_identifies:
  assumes "cl_connected c" "\<not> cl_closing c" "cl_identity c = Some i" "wf_client (Identify nick (public_key_hex i))"
  shows "\<exists>l. client_identify nick c = c\<lparr>cl_posted := cl_posted c @ [SendWire (l @ [CHR 0x0A])]\<rparr> \<and>
    decode_client_frame l = Success (Identify nick (public_key_hex i))"
  using encode_client_line [OF assms(4)] assms(1-3) by (auto simp: client_identify_def client_send_def)

lemma client_proves:
  assumes "cl_connected c" "\<not> cl_closing c" "cl_negotiated c" "cl_identity c = Some i"
    and "decode_server_frame l = Success (Challenge h)" "wf_client (IdentityProof (sign_identity_challenge S i h))"
  shows "\<exists>l'. client_line S l c = c\<lparr>cl_posted := cl_posted c @ [SendWire (l' @ [CHR 0x0A])]\<rparr> \<and>
    decode_client_frame l' = Success (IdentityProof (sign_identity_challenge S i h))"
  using encode_client_line [OF assms(6)] assms(1-5) by (auto simp: client_line_def client_message_handler_def client_send_def)

text \<open>The server's two steps.\<close>

definition may_join :: "string \<Rightarrow> string \<Rightarrow> session_id \<Rightarrow> chat_server \<Rightarrow> bool" where
  "may_join nick key s st \<longleftrightarrow> protocol_negotiated (sess st s) \<and> \<not> (has_password st \<and> \<not> authenticated (sess st s)) \<and>
     nickname (sess st s) = [] \<and> identity_available_for nick key st = None \<and> \<not> is_banned nick st \<and> \<not> nickname_taken nick st"

lemma identify_accepted:
  assumes "may_join nick key s st" "decode_client_frame l = Success (Identify nick key)"
    and "h = random_hex (crypto E) (calls (effects st)) IDENTITY_CHALLENGE_BYTES"
  shows "server_step E (Line s l) st = reply s (Challenge h) (update_session s (\<lambda>c. c\<lparr>pending_nickname := nick,
      pending_public_key_hex := key, pending_challenge := h\<rparr>) (effects_update tick st))"
  using assms by (auto simp: may_join_def handle_line_def handle_message_def handle_authorised_def handle_identify_def Let_def)

lemma may_join_pending:
  assumes "\<And>c. nickname (f c) = nickname c" "\<And>c. protocol_negotiated (f c) = protocol_negotiated c"
    and "\<And>c. authenticated (f c) = authenticated c"
  shows "may_join nick key s (reply s m (update_session s f (effects_update tick st))) = may_join nick key s st"
proof -
  have "nickname (sess (update_session s f st) t) = nickname (sess st t)" for t
    using assms(1) by (simp add: update_session_def)
  then show ?thesis
    using assms by (simp add: may_join_def has_password_def identity_available_for_def is_banned_def nickname_taken_def
        update_session_def cong: if_cong)
qed

lemma bind_available: "identity_available_for nick key st = None \<Longrightarrow> \<exists>st'. bind_identity nick key st = (True, st')"
  by (auto simp: identity_available_for_def bind_identity_def Let_def split: option.splits if_splits)

lemma move_active:
  assumes "map_find (rooms st) rid \<noteq> None"
  shows "active_room_id (sess (move_session_to_room E s rid announce st) s) = rid"
  using assms by (auto simp: move_session_to_room_def Let_def set_active_room_id_def)

lemma proof_accepted:
  assumes "server_inv st" "may_join nick key s st" "pending_nickname (sess st s) = nick" "pending_public_key_hex (sess st s) = key"
    and "pending_challenge (sess st s) = h" "h \<noteq> []" "verify_identity_signature (crypto E) key h g"
    and "decode_client_frame l = Success (IdentityProof g)"
  shows "nickname (sess (server_step E (Line s l) st) s) = nick \<and>
    active_room_id (sess (server_step E (Line s l) st) s) = DEFAULT_ROOM_ID"
proof -
  have available: "identity_available_for nick key st = None" using assms(2) by (simp add: may_join_def)
  then obtain st1 where bind: "bind_identity nick key st = (True, st1)" using bind_available by blast
  have "nick \<noteq> []" "key \<noteq> []"
    using available by (auto simp: identity_available_for_def utils_is_valid_nickname_def is_hex_of_len_def sodium_sizes split: if_splits)
  define st2 where "st2 = reply s JoinAccepted (reply s (IdentityAccepted (identity_fingerprint key))
      (update_session s (\<lambda>c. c\<lparr>nickname := nick, pending_nickname := [], pending_public_key_hex := [], pending_challenge := []\<rparr>) st1))"
  have step: "server_step E (Line s l) st = move_session_to_room E s DEFAULT_ROOM_ID False st2"
    using assms \<open>nick \<noteq> []\<close> \<open>key \<noteq> []\<close> bind
    by (auto simp: may_join_def handle_line_def handle_message_def handle_authorised_def handle_proof_def
        admit_to_default_room_def st2_def Let_def)
  have "map_find (rooms st2) DEFAULT_ROOM_ID \<noteq> None"
    using rooms_invD(2) [OF server_invD(1) [OF assms(1)]] bind_identity_frame(3) [of nick key st] bind
    by (auto simp: st2_def update_session_def map_of_eq_None_iff)
  moreover have "nickname (sess st2 s) = nick" by (simp add: st2_def update_session_def)
  ultimately show ?thesis
    unfolding step using move_active auth_viewD(2) [OF auth_view_moves(2), of E s DEFAULT_ROOM_ID False st2 s] by simp
qed

text \<open>
  C7: An honest client gets in. Let a client with an identity made by \<open>crypto_sign_keypair\<close> be
  connected and past the greeting, and let the server have no objection: the session is past
  the greeting and, with a password, authenticated, the nickname is valid, free, not banned, and
  unbound or bound to this key. Then \<open>identify\<close> queues a line for which the server queues a
  challenge, for which the client queues a line, after which the session has the nickname and
  is in the lobby. Hypotheses: the documented behaviour of libsodium.
\<close>

theorem honest_client_admitted:
  assumes "reachable E st"
    and "hex_laws (crypto E)" "keypair_laws (crypto E)" "signature_laws (crypto E)" "random_laws (crypto E)"
    and "crypto_sign_keypair (crypto E) call = (pk, sk)"
    and "i = \<lparr>public_key = pk, secret_key = sk, public_key_hex = bytes_to_hex (crypto E) pk\<rparr>"
    and "cl_connected c" "\<not> cl_closing c" "cl_negotiated c" "cl_identity c = Some i"
    and "reading (sess st s)" "may_join nick (public_key_hex i) s st"
  shows "\<exists>l1 l2 l3.
    client_identify nick c = c\<lparr>cl_posted := cl_posted c @ [SendWire (l1 @ [CHR 0x0A])]\<rparr> \<and>
    ios (effects (server_step E (Line s l1) st)) s = post_task (PostWrite (l2 @ [CHR 0x0A])) (ios (effects st) s) \<and>
    cl_posted (client_line (crypto E) l2 (client_identify nick c)) =
      cl_posted c @ [SendWire (l1 @ [CHR 0x0A]), SendWire (l3 @ [CHR 0x0A])] \<and>
    nickname (sess (server_step E (Line s l3) (server_step E (Line s l1) st)) s) = nick \<and>
    active_room_id (sess (server_step E (Line s l3) (server_step E (Line s l1) st)) s) = DEFAULT_ROOM_ID"
proof -
  let ?S = "crypto E" and ?key = "public_key_hex i"
  define h where "h = random_hex ?S (calls (effects st)) IDENTITY_CHALLENGE_BYTES"
  define g where "g = sign_identity_challenge ?S i h"
  have key: "is_valid_nickname nick" "is_hex ?key 64"
    using assms(13) by (auto simp: may_join_def identity_available_for_def utils_is_valid_nickname_eq is_hex_of_len_eq sodium_sizes
        split: if_splits)
  obtain l1 where l1: "client_identify nick c = c\<lparr>cl_posted := cl_posted c @ [SendWire (l1 @ [CHR 0x0A])]\<rparr>"
    "decode_client_frame l1 = Success (Identify nick ?key)"
    using client_identifies [OF assms(8,9,11), of nick] key by (auto simp: wf_simps)
  note step1 = identify_accepted [OF assms(13) l1(2) h_def]
  have hex: "is_hex (bytes_to_hex ?S d) (length d * 2)" for d
    using assms(2) by (simp add: hex_laws_def bytes_to_hex_def is_hex_def)
  have h: "is_hex h 64" "h \<noteq> []"
    using hex [of "randombytes_buf ?S (calls (effects st)) 32"] assms(5)
    by (auto simp: h_def random_hex_def IDENTITY_CHALLENGE_BYTES_def random_laws_def is_hex_def)
  then have "deliverable (Challenge h)" by (simp add: deliverable_def wf_simps max_payload_length_eq is_hex_def)
  then obtain l2 where l2: "decode_server_frame l2 = Success (Challenge h)"
    "\<And>out. ios (deliver (Challenge h) s out) s = post_task (PostWrite (l2 @ [CHR 0x0A])) (ios out s)"
    using deliver_line by blast
  have g: "verify_identity_signature ?S ?key h g"
    using verify_signed [OF assms(2-4,6)] by (simp add: g_def sign_identity_challenge_def assms(7))
  then have "wf_client (IdentityProof g)"
    by (auto simp: verify_identity_signature_def is_hex_of_len_eq sodium_sizes wf_simps split: if_splits)
  then obtain l3 where l3: "client_line ?S l2 (client_identify nick c) =
      (client_identify nick c)\<lparr>cl_posted := cl_posted (client_identify nick c) @ [SendWire (l3 @ [CHR 0x0A])]\<rparr>"
    "decode_client_frame l3 = Success (IdentityProof g)"
    using client_proves [of "client_identify nick c" i l2 h ?S] l2(1) assms(8-11) l1(1) by (auto simp: g_def)
  let ?st1 = "server_step E (Line s l1) st"
  have "reachable E ?st1" using assms(1,12) by (intro reachable.step) simp_all
  note inv = reachable_inv [OF this]
  have "may_join nick ?key s ?st1" "pending_nickname (sess ?st1 s) = nick" "pending_public_key_hex (sess ?st1 s) = ?key"
    "pending_challenge (sess ?st1 s) = h"
    unfolding step1 using assms(13) by (simp_all add: may_join_pending) (simp_all add: update_session_def)
  moreover have out: "ios (effects ?st1) s = post_task (PostWrite (l2 @ [CHR 0x0A])) (ios (effects st) s)"
    unfolding step1 using l2(2) by (simp add: reply_def update_session_def tick_def)
  ultimately show ?thesis
    using proof_accepted [OF inv _ _ _ _ h(2) g l3(2)] l1(1) l3(1)
    by (intro exI [of _ l1] exI [of _ l2] exI [of _ l3]) (simp add: out)
qed

definition ann_identity :: client_identity where
  "ann_identity = \<lparr>public_key = replicate 32 CHR ''p'', secret_key = replicate 64 CHR ''s'', public_key_hex = ann_key\<rparr>"

definition ann_client :: chat_client where
  "ann_client = demo_client\<lparr>cl_negotiated := True, cl_identity := Some ann_identity\<rparr>"

lemma demo_client_open: "cl_connected demo_client" "\<not> cl_closing demo_client"
  by (simp_all add: demo_client_def client_step_def async_connect_def on_resolved_def on_tcp_connected_def expired_def finish_connect_def
    arm_deadline_def start_op_def complete_op_def client_send_def hello_encodes run_client_posted_def client_write_next_def
    new_chat_client_def Let_def)

theorem honest_client_admitted_witness:
  "\<exists>l1 l3. nickname (sess (server_step demo_env (Line 0 l3) (server_step demo_env (Line 0 l1) negotiated)) 0) = ''ann''"
proof -
  have crypto: "crypto demo_env = plain_sodium" by (simp add: demo_env_def)
  have reach: "reachable demo_env negotiated"
    unfolding negotiated_def by (rule reachable_message [OF reachable_connected]) (simp_all add: connected_fields)
  have laws: "random_laws plain_sodium" "crypto_sign_keypair plain_sodium 0 = (replicate 32 CHR ''p'', replicate 64 CHR ''s'')"
    by (simp_all add: random_laws_def plain_sodium_def)
  have "may_join ''ann'' (public_key_hex ann_identity) 0 negotiated"
    by (simp add: may_join_def negotiated_fields fresh_session_def has_password_def identity_available_for_def utils_is_valid_nickname_eq
        ann_valid ann_key_valid ann_identity_def is_banned_def nickname_taken_def)
  with honest_client_admitted [OF reach, of 0 "replicate 32 CHR ''p''" "replicate 64 CHR ''s''" ann_identity ann_client 0 "''ann''"]
  show ?thesis
    using plain_sodium_laws laws demo_client_open
    unfolding crypto by (auto simp: ann_identity_def ann_key_def ann_client_def negotiated_fields)
qed

end
