(* ===== verification/Line_Editor.thy ===== *)
theory Line_Editor
  imports Chatbox_Prelude
begin

text \<open>
  The input line of the terminal front end, \<open>ui/terminal_model.cpp\<close>: \<open>LineEditor\<close>, which
  keeps a byte cursor in UTF-8 text, and \<open>InputHistory\<close>. The abstract editor has the
  characters before and after the cursor; every operation of the byte editor is the evident
  operation on characters, so no operation can cut one in two. The history keeps the last 100
  entries, and stepping back and forth restores the draft.
\<close>

section \<open>The byte editor\<close>

definition continuation :: "char \<Rightarrow> bool" where
  "continuation c \<longleftrightarrow> byte c AND 0xc0 = 0x80"

fun skip_back :: "string \<Rightarrow> nat \<Rightarrow> nat" where
  "skip_back s at = (if at \<noteq> 0 \<and> continuation (s ! at) then skip_back s (at - 1) else at)"

declare skip_back.simps [simp del]

definition previous_char :: "string \<Rightarrow> nat \<Rightarrow> nat" where
  "previous_char s at = (if at = 0 then 0 else skip_back s (at - 1))"

function skip_forward :: "string \<Rightarrow> nat \<Rightarrow> nat" where
  "skip_forward s at = (if at < length s \<and> continuation (s ! at) then skip_forward s (at + 1) else at)"
  by pat_completeness auto
termination
  by (relation "measure (\<lambda>(s, at). length s - at)") auto

declare skip_forward.simps [simp del]

definition next_char :: "string \<Rightarrow> nat \<Rightarrow> nat" where
  "next_char s at = (if at \<ge> length s then length s else skip_forward s (at + 1))"

text \<open>\<open>s.erase(start, n)\<close>\<close>

definition str_erase :: "string \<Rightarrow> nat \<Rightarrow> nat \<Rightarrow> string" where
  "str_erase s start n = take start s @ drop (start + n) s"

record line_editor =
  ed_text :: string
  ed_cursor :: nat

definition ed_set :: "string \<Rightarrow> line_editor \<Rightarrow> line_editor" where
  "ed_set value e = e\<lparr>ed_text := value, ed_cursor := length value\<rparr>"

definition ed_left :: "line_editor \<Rightarrow> line_editor" where
  "ed_left e = e\<lparr>ed_cursor := previous_char (ed_text e) (ed_cursor e)\<rparr>"

definition ed_right :: "line_editor \<Rightarrow> line_editor" where
  "ed_right e = e\<lparr>ed_cursor := next_char (ed_text e) (ed_cursor e)\<rparr>"

definition backspace :: "line_editor \<Rightarrow> line_editor" where
  "backspace e =
     (let start = previous_char (ed_text e) (ed_cursor e)
      in e\<lparr>ed_text := str_erase (ed_text e) start (ed_cursor e - start), ed_cursor := start\<rparr>)"

definition erase_forward :: "line_editor \<Rightarrow> line_editor" where
  "erase_forward e =
     e\<lparr>ed_text := str_erase (ed_text e) (ed_cursor e) (next_char (ed_text e) (ed_cursor e) - ed_cursor e)\<rparr>"

lemma skip_back_le: "skip_back s at \<le> at"
proof (induction s at rule: skip_back.induct)
  case (1 s at)
  then show ?case using diff_le_self [of at 1] by (auto simp: skip_back.simps [of s at] intro: order_trans)
qed

lemma previous_char_less: "0 < at \<Longrightarrow> previous_char s at < at"
  using skip_back_le [of s "at - 1"] by (simp add: previous_char_def)

lemma cursor_backspace: "0 < ed_cursor e \<Longrightarrow> ed_cursor (backspace e) < ed_cursor e"
  by (simp add: backspace_def Let_def previous_char_less)

text \<open>The two loops of \<open>erase_word\<close>: backspace while the byte before the cursor satisfies \<open>P\<close>.\<close>

function backspace_while :: "(char \<Rightarrow> bool) \<Rightarrow> line_editor \<Rightarrow> line_editor" where
  "backspace_while P e =
     (if ed_cursor e \<noteq> 0 \<and> P (ed_text e ! (ed_cursor e - 1)) then backspace_while P (backspace e) else e)"
  by pat_completeness auto
termination
  by (relation "measure (\<lambda>(P, e). ed_cursor e)") (auto simp: cursor_backspace)

declare backspace_while.simps [simp del]

definition erase_word :: "line_editor \<Rightarrow> line_editor" where
  "erase_word e =
     backspace_while (\<lambda>c. c \<noteq> CHR '' '') (backspace_while (\<lambda>c. c = CHR '' '') e)"

definition ed_insert :: "string \<Rightarrow> nat \<Rightarrow> line_editor \<Rightarrow> bool \<times> line_editor" where
  "ed_insert value limit e =
     (if length (ed_text e) + length value > limit then (False, e)
      else (True, e\<lparr>ed_text := take (ed_cursor e) (ed_text e) @ value @ drop (ed_cursor e) (ed_text e),
                    ed_cursor := ed_cursor e + length value\<rparr>))"

section \<open>Characters\<close>

lemma length_dropWhile_Suc [termination_simp]: "length (dropWhile P xs) < Suc (length xs)"
  by (simp add: length_dropWhile_le less_Suc_eq_le)

fun chars :: "string \<Rightarrow> string list" where
  "chars [] = []"
| "chars (c # cs) = (c # takeWhile continuation cs) # chars (dropWhile continuation cs)"

definition clean :: "string \<Rightarrow> bool" where
  "clean s \<longleftrightarrow> s = [] \<or> \<not> continuation (hd s)"

lemma concat_chars [simp]: "concat (chars s) = s"
  by (induction s rule: chars.induct) auto

lemma clean_dropWhile [simp]: "clean (dropWhile continuation s)"
  by (induction s) (auto simp: clean_def)

lemma clean_Nil [simp]: "clean []"
  by (simp add: clean_def)

lemma chars_append: "clean b \<Longrightarrow> chars (a @ b) = chars a @ chars b"
proof (induction a rule: chars.induct)
  case (2 c cs)
  have "takeWhile continuation (cs @ b) = takeWhile continuation cs \<and>
      dropWhile continuation (cs @ b) = dropWhile continuation cs @ b"
    using "2.prems" by (induction cs) (cases b; auto simp: clean_def)+
  with 2 show ?case by simp
qed simp

text \<open>A character: a byte that starts one, and its continuation bytes.\<close>

definition one_char :: "string \<Rightarrow> bool" where
  "one_char x \<longleftrightarrow> x \<noteq> [] \<and> \<not> continuation (hd x) \<and> list_all continuation (tl x)"

lemma chars_one_char: "one_char x \<Longrightarrow> chars x = [x]"
  by (cases x) (auto simp: one_char_def list_all_iff dropWhile_eq_Nil_conv [THEN iffD2] takeWhile_eq_all_conv)

lemma clean_one_char: "clean s \<Longrightarrow> x \<in> set (chars s) \<Longrightarrow> one_char x"
  by (induction s rule: chars.induct)
    (auto simp: one_char_def list_all_iff clean_def [of "_ # _"] dest: set_takeWhileD)

lemma clean_appendI: "clean a \<Longrightarrow> clean b \<Longrightarrow> clean (a @ b)"
  by (cases a) (auto simp: clean_def)

lemma clean_concat: "(\<And>x. x \<in> set xs \<Longrightarrow> one_char x) \<Longrightarrow> clean (concat xs) \<and> chars (concat xs) = xs"
proof (induction xs)
  case (Cons x xs)
  then have "one_char x" "clean (concat xs)" "chars (concat xs) = xs" by auto
  moreover from this(1) have "clean x" by (simp add: one_char_def clean_def)
  ultimately show ?case by (simp add: chars_append chars_one_char clean_appendI)
qed simp

section \<open>The editor over characters\<close>

type_synonym zipper = "string list \<times> string list"

datatype edit = Set_text string | Left | Right | Backspace | EraseForward | EraseWord | Insert_text string nat

definition edit_step :: "edit \<Rightarrow> line_editor \<Rightarrow> line_editor" where
  "edit_step a e = (case a of
       Set_text v \<Rightarrow> ed_set v e | Left \<Rightarrow> ed_left e | Right \<Rightarrow> ed_right e | Backspace \<Rightarrow> backspace e
     | EraseForward \<Rightarrow> erase_forward e | EraseWord \<Rightarrow> erase_word e
     | Insert_text v limit \<Rightarrow> snd (ed_insert v limit e))"

text \<open>Removing trailing elements that satisfy \<open>P\<close>.\<close>

definition strip_while :: "('a \<Rightarrow> bool) \<Rightarrow> 'a list \<Rightarrow> 'a list" where
  "strip_while P xs = rev (dropWhile P (rev xs))"

definition zip_step :: "edit \<Rightarrow> zipper \<Rightarrow> zipper" where
  "zip_step a z = (case z of (l, r) \<Rightarrow> case a of
       Set_text v \<Rightarrow> (chars v, [])
     | Left \<Rightarrow> if l = [] then (l, r) else (butlast l, last l # r)
     | Right \<Rightarrow> if r = [] then (l, r) else (l @ [hd r], tl r)
     | Backspace \<Rightarrow> (butlast l, r)
     | EraseForward \<Rightarrow> (l, tl r)
     | EraseWord \<Rightarrow> (strip_while (\<lambda>x. x \<noteq> '' '') (strip_while (\<lambda>x. x = '' '') l), r)
     | Insert_text v limit \<Rightarrow>
         if length (concat l) + length (concat r) + length v > limit then (l, r) else (l @ chars v, r))"

definition ed_zip :: "line_editor \<Rightarrow> zipper" where
  "ed_zip e = (chars (take (ed_cursor e) (ed_text e)), chars (drop (ed_cursor e) (ed_text e)))"

definition ed_ok :: "line_editor \<Rightarrow> bool" where
  "ed_ok e \<longleftrightarrow> ed_cursor e \<le> length (ed_text e) \<and> clean (ed_text e) \<and> clean (drop (ed_cursor e) (ed_text e))"

definition edit_ok :: "edit \<Rightarrow> bool" where
  "edit_ok a \<longleftrightarrow> (case a of Set_text v \<Rightarrow> clean v | Insert_text v limit \<Rightarrow> clean v | _ \<Rightarrow> True)"

text \<open>The editor state that shows the characters \<open>l\<close> before and \<open>r\<close> after the cursor.\<close>

definition shows_chars :: "line_editor \<Rightarrow> string list \<Rightarrow> string list \<Rightarrow> bool" where
  "shows_chars e l r \<longleftrightarrow> ed_text e = concat l @ concat r \<and> ed_cursor e = length (concat l) \<and>
     list_all one_char l \<and> list_all one_char r"

lemma clean_all_chars: "clean s \<Longrightarrow> list_all one_char (chars s)"
  by (auto simp: list_all_iff clean_one_char)

lemma shows_charsD:
  assumes "shows_chars e l r"
  shows "ed_ok e" "ed_zip e = (l, r)"
  using assms clean_concat [of l] clean_concat [of r]
  by (auto simp: shows_chars_def ed_ok_def ed_zip_def list_all_iff clean_appendI)

lemma ed_okE:
  assumes "ed_ok e"
  obtains l r where "shows_chars e l r" "ed_zip e = (l, r)"
proof
  have "clean (take (ed_cursor e) (ed_text e))"
    using assms by (cases "ed_text e"; cases "ed_cursor e") (auto simp: ed_ok_def clean_def)
  with assms show "shows_chars e (fst (ed_zip e)) (snd (ed_zip e))"
    by (simp add: shows_chars_def ed_zip_def ed_ok_def clean_all_chars)
qed simp

subsection \<open>Moving over one character\<close>

lemma skip_back_char:
  "\<not> continuation c \<Longrightarrow> list_all continuation ks \<Longrightarrow> skip_back (a @ c # ks @ b) (length a + length ks) = length a"
proof (induction ks arbitrary: b rule: rev_induct)
  case Nil
  then show ?case by (subst skip_back.simps) simp
next
  case (snoc k ks)
  have "(a @ c # ks @ k # b) ! (length a + length (ks @ [k])) = k"
    by (simp add: nth_append)
  with snoc show ?case by (subst skip_back.simps) simp
qed

lemma previous_char_over:
  assumes "one_char x"
  shows "previous_char (a @ x @ b) (length a + length x) = length a"
proof -
  obtain c ks where "x = c # ks" "\<not> continuation c" "list_all continuation ks"
    using assms by (cases x) (auto simp: one_char_def)
  with skip_back_char [of c ks a b] show ?thesis by (simp add: previous_char_def)
qed

lemma skip_forward_char:
  "list_all continuation ks \<Longrightarrow> clean b \<Longrightarrow> skip_forward (a @ ks @ b) (length a) = length a + length ks"
proof (induction ks arbitrary: a)
  case Nil
  then show ?case by (subst skip_forward.simps) (cases b; simp add: clean_def)
next
  case (Cons k ks)
  from Cons.IH [of "a @ [k]"] Cons.prems show ?case
    by (subst skip_forward.simps) simp
qed

lemma next_char_over:
  assumes "one_char x" "clean b"
  shows "next_char (a @ x @ b) (length a) = length a + length x"
proof -
  obtain c ks where "x = c # ks" "list_all continuation ks"
    using assms(1) by (cases x) (auto simp: one_char_def)
  with skip_forward_char [of ks b "a @ [c]"] assms(2) show ?thesis by (simp add: next_char_def)
qed

lemma one_char_last_space: "one_char x \<Longrightarrow> last x = CHR '' '' \<longleftrightarrow> x = '' ''"
proof -
  have "\<not> continuation CHR '' ''" by code_simp
  then show "one_char x \<Longrightarrow> ?thesis"
    by (cases x) (auto simp: one_char_def list_all_iff, metis last_in_set)
qed

subsection \<open>The operations\<close>

lemma shows_clean: "list_all one_char r \<Longrightarrow> clean (concat r)"
  using clean_concat by (auto simp: list_all_iff)

lemma shows_backspace:
  assumes "shows_chars e l r"
  shows "shows_chars (backspace e) (butlast l) r"
proof (cases l rule: rev_cases)
  case (snoc l' x)
  with assms previous_char_over [of x "concat l'" "concat r"] show ?thesis
    by (auto simp: shows_chars_def backspace_def str_erase_def Let_def)
qed (use assms in \<open>auto simp: shows_chars_def backspace_def str_erase_def previous_char_def Let_def\<close>)

lemma shows_left:
  assumes "shows_chars e l r"
  shows "shows_chars (ed_left e) (butlast l) (if l = [] then r else last l # r)"
proof (cases l rule: rev_cases)
  case (snoc l' x)
  with assms previous_char_over [of x "concat l'" "concat r"] show ?thesis
    by (auto simp: shows_chars_def ed_left_def)
qed (use assms in \<open>auto simp: shows_chars_def ed_left_def previous_char_def\<close>)

lemma next_char_end: "next_char s (length s) = length s"
  by (simp add: next_char_def)

lemma shows_right:
  assumes "shows_chars e l r"
  shows "shows_chars (ed_right e) (if r = [] then l else l @ [hd r]) (tl r)"
proof (cases r)
  case (Cons x r')
  with assms next_char_over [of x "concat r'" "concat l"] shows_clean show ?thesis
    by (auto simp: shows_chars_def ed_right_def)
qed (use assms in \<open>auto simp: shows_chars_def ed_right_def next_char_end\<close>)

lemma shows_erase_forward:
  assumes "shows_chars e l r"
  shows "shows_chars (erase_forward e) l (tl r)"
proof (cases r)
  case (Cons x r')
  with assms next_char_over [of x "concat r'" "concat l"] shows_clean show ?thesis
    by (auto simp: shows_chars_def erase_forward_def str_erase_def)
qed (use assms in \<open>auto simp: shows_chars_def erase_forward_def str_erase_def next_char_end\<close>)

lemma shows_backspace_while:
  assumes "shows_chars e l r" "\<And>x. one_char x \<Longrightarrow> P (last x) \<longleftrightarrow> Q x"
  shows "shows_chars (backspace_while P e) (strip_while Q l) r"
  using assms(1)
proof (induction l arbitrary: e rule: rev_induct)
  case Nil
  then show ?case by (subst backspace_while.simps) (simp add: shows_chars_def strip_while_def)
next
  case (snoc x l)
  from snoc.prems have x: "one_char x" by (simp add: shows_chars_def)
  then have "x \<noteq> []" by (simp add: one_char_def)
  with snoc.prems have "ed_cursor e \<noteq> 0" "ed_text e ! (ed_cursor e - 1) = last x"
    by (cases x rule: rev_cases; auto simp: shows_chars_def nth_append)+
  with snoc.IH [OF shows_backspace [OF snoc.prems, simplified]] snoc.prems assms(2) [OF x] show ?case
    by (subst backspace_while.simps) (auto simp: strip_while_def)
qed

lemma shows_erase_word:
  assumes "shows_chars e l r"
  shows "shows_chars (erase_word e) (strip_while (\<lambda>x. x \<noteq> '' '') (strip_while (\<lambda>x. x = '' '') l)) r"
  unfolding erase_word_def using one_char_last_space
  by (intro shows_backspace_while assms) auto

lemma shows_insert:
  assumes "shows_chars e l r" "clean v"
  shows "shows_chars (snd (ed_insert v limit e))
    (if length (concat l) + length (concat r) + length v > limit then l else l @ chars v) r"
  using assms clean_all_chars [of v] by (auto simp: shows_chars_def ed_insert_def)

lemma edit_step_shows:
  assumes "shows_chars e l r" "edit_ok a"
  shows "shows_chars (edit_step a e) (fst (zip_step a (l, r))) (snd (zip_step a (l, r)))"
proof (cases a)
  case (Set_text v)
  with assms(2) clean_all_chars [of v] show ?thesis
    by (simp add: edit_step_def zip_step_def edit_ok_def shows_chars_def ed_set_def)
next
  case (Insert_text v limit)
  with assms(2) shows_insert [OF assms(1), of v limit] show ?thesis
    by (auto simp: edit_step_def zip_step_def edit_ok_def)
qed (use shows_left [OF assms(1)] shows_right [OF assms(1)] shows_backspace [OF assms(1)]
      shows_erase_forward [OF assms(1)] shows_erase_word [OF assms(1)] in
      \<open>auto simp: edit_step_def zip_step_def\<close>)

interpretation editor: simulation edit_step zip_step ed_zip ed_ok edit_ok
proof
  fix e a assume "ed_ok e" "edit_ok a"
  then obtain l r where e: "shows_chars e l r" "ed_zip e = (l, r)" by (elim ed_okE)
  from edit_step_shows [OF e(1) \<open>edit_ok a\<close>] e(2)
  show "ed_ok (edit_step a e)" "ed_zip (edit_step a e) = zip_step a (ed_zip e)"
    by (auto dest: shows_charsD)
qed

text \<open>
  The byte editor is an editor of characters. Whatever sequence of edits is made to a line
  whose cursor is between characters, inserting only text that starts with a character, the
  characters before and after the cursor are those of the simple editor over lists of
  characters, and the cursor is between characters again: no edit splits one or moves the
  cursor out of the line.
\<close>

theorem editor_refines_zipper:
  assumes "ed_ok e" "list_all edit_ok edits"
  shows "ed_zip (fold edit_step edits e) = fold zip_step edits (ed_zip e) \<and> ed_ok (fold edit_step edits e)"
  using editor.run_simulates [OF assms] by simp

theorem editor_refines_zipper_witness:
  "ed_zip (fold edit_step [Insert_text [CHR ''a'', CHR 0xC3, CHR 0xA9] 40, Left, Left, EraseForward, EraseForward]
     \<lparr>ed_text = [], ed_cursor = 0\<rparr>) = ([], [])"
proof -
  let ?edits = "[Insert_text [CHR ''a'', CHR 0xC3, CHR 0xA9] 40, Left, Left, EraseForward, EraseForward]"
  have "ed_ok \<lparr>ed_text = [], ed_cursor = 0\<rparr>" "list_all edit_ok ?edits" by code_simp+
  from editor_refines_zipper [OF this]
  have "ed_zip (fold edit_step ?edits \<lparr>ed_text = [], ed_cursor = 0\<rparr>) = fold zip_step ?edits ([], [])"
    by (simp add: ed_zip_def)
  also have "\<dots> = ([], [])" by code_simp
  finally show ?thesis .
qed

section \<open>The history of sent lines\<close>

record input_history =
  hist_entries :: "string list"
  hist_position :: nat
  hist_draft :: string

definition hist_reset :: "input_history \<Rightarrow> input_history" where
  "hist_reset h = h\<lparr>hist_position := length (hist_entries h), hist_draft := []\<rparr>"

definition remember :: "string \<Rightarrow> input_history \<Rightarrow> input_history" where
  "remember s h =
     (let h = (if s \<noteq> [] \<and> (hist_entries h = [] \<or> last (hist_entries h) \<noteq> s)
               then h\<lparr>hist_entries := hist_entries h @ [s]\<rparr> else h);
          h = (if length (hist_entries h) > 100 then h\<lparr>hist_entries := tl (hist_entries h)\<rparr> else h)
      in hist_reset h)"

definition hist_previous :: "input_history \<times> line_editor \<Rightarrow> input_history \<times> line_editor" where
  "hist_previous = (\<lambda>(h, e).
     let h = (if hist_position h = length (hist_entries h) then h\<lparr>hist_draft := ed_text e\<rparr> else h)
     in if hist_position h \<noteq> 0
        then let p = hist_position h - 1 in (h\<lparr>hist_position := p\<rparr>, ed_set (hist_entries h ! p) e)
        else (h, e))"

definition hist_next :: "input_history \<times> line_editor \<Rightarrow> input_history \<times> line_editor" where
  "hist_next = (\<lambda>(h, e).
     if hist_position h < length (hist_entries h)
     then let p = hist_position h + 1
          in (h\<lparr>hist_position := p\<rparr>,
              ed_set (if p = length (hist_entries h) then hist_draft h else hist_entries h ! p) e)
     else (h, e))"

text \<open>
  What the history keeps: at most 100 entries, none empty, no two equal ones in a row, and the
  position within or just after them.
\<close>

definition history_ok :: "input_history \<Rightarrow> bool" where
  "history_ok h \<longleftrightarrow> length (hist_entries h) \<le> 100 \<and> [] \<notin> set (hist_entries h) \<and>
     distinct_adj (hist_entries h) \<and> hist_position h \<le> length (hist_entries h)"

lemma distinct_adj_tl: "distinct_adj xs \<Longrightarrow> distinct_adj (tl xs)"
  by (cases xs rule: list.exhaust) (auto simp: distinct_adj_Cons)

lemma set_tl: "x \<in> set (tl xs) \<Longrightarrow> x \<in> set xs"
  by (cases xs) auto

lemma history_ok_remember: "history_ok h \<Longrightarrow> history_ok (remember s h)"
  by (auto simp: history_ok_def remember_def hist_reset_def Let_def distinct_adj_append_iff dest: set_tl
      intro!: distinct_adj_tl)

lemma history_ok_move:
  "history_ok h \<Longrightarrow> history_ok (fst (hist_previous (h, e)))" "history_ok h \<Longrightarrow> history_ok (fst (hist_next (h, e)))"
  by (auto simp: history_ok_def hist_previous_def hist_next_def Let_def)

datatype hist_event = Sent string | Older | Newer

definition hist_step :: "hist_event \<Rightarrow> input_history \<times> line_editor \<Rightarrow> input_history \<times> line_editor" where
  "hist_step ev he = (case ev of Sent s \<Rightarrow> (remember s (fst he), snd he) | Older \<Rightarrow> hist_previous he | Newer \<Rightarrow> hist_next he)"

interpretation history: invariant_machine hist_step "\<lambda>he. history_ok (fst he)" "\<lambda>_ _. True"
proof
  fix he :: "input_history \<times> line_editor" and ev assume "history_ok (fst he)"
  then show "history_ok (fst (hist_step ev he))"
    using history_ok_move [of "fst he" "snd he"] history_ok_remember [of "fst he"]
    by (cases ev) (simp_all add: hist_step_def)
qed

lemma previous_steps:
  assumes "hist_position h = length (hist_entries h)" "j < length (hist_entries h)"
  shows "(hist_previous ^^ Suc j) (h, e) =
    (h\<lparr>hist_position := length (hist_entries h) - Suc j, hist_draft := ed_text e\<rparr>,
     ed_set (hist_entries h ! (length (hist_entries h) - Suc j)) e)"
  using assms(2)
proof (induction j)
  case 0
  with assms(1) show ?case by (simp add: hist_previous_def Let_def)
next
  case (Suc j)
  then have "length (hist_entries h) - Suc j \<noteq> length (hist_entries h)" by simp
  with Suc show ?case
    by (simp add: hist_previous_def ed_set_def Let_def Suc_diff_Suc)
qed

lemma next_steps:
  assumes "hist_position h + i \<le> length (hist_entries h)" "0 < i"
  shows "(hist_next ^^ i) (h, e) = (h\<lparr>hist_position := hist_position h + i\<rparr>,
    ed_set (if hist_position h + i = length (hist_entries h) then hist_draft h else hist_entries h ! (hist_position h + i)) e)"
  using assms(2,1)
proof (induction i rule: nat_induct_non_zero)
  case 1
  then show ?case by (simp add: hist_next_def Let_def)
next
  case (Suc i)
  then show ?case by (simp add: hist_next_def ed_set_def Let_def)
qed

text \<open>
  Browsing the history loses nothing. From the newest position, \<open>j\<close> steps back show the
  \<open>j\<close>-th last sent line, and \<open>j\<close> steps forward again bring back the draft that was being typed
  and the history as it was, but for the draft it keeps.
\<close>

theorem history_browsing:
  assumes "hist_position h = length (hist_entries h)" "0 < j" "j \<le> length (hist_entries h)"
  shows "ed_text (snd ((hist_previous ^^ j) (h, e))) = hist_entries h ! (length (hist_entries h) - j) \<and>
    ed_text (snd ((hist_next ^^ j) ((hist_previous ^^ j) (h, e)))) = ed_text e \<and>
    fst ((hist_next ^^ j) ((hist_previous ^^ j) (h, e))) = h\<lparr>hist_draft := ed_text e\<rparr>"
proof -
  let ?n = "length (hist_entries h)"
  obtain i where j: "j = Suc i" using assms(2) by (cases j) auto
  with previous_steps [OF assms(1), of i e] assms(3)
  have older: "(hist_previous ^^ j) (h, e) = (h\<lparr>hist_position := ?n - j, hist_draft := ed_text e\<rparr>, ed_set (hist_entries h ! (?n - j)) e)"
    by simp
  have "(hist_next ^^ j) ((hist_previous ^^ j) (h, e)) =
      (h\<lparr>hist_position := ?n, hist_draft := ed_text e\<rparr>, ed_set (ed_text e) (ed_set (hist_entries h ! (?n - j)) e))"
    unfolding older using assms(2,3) by (subst next_steps) simp_all
  with older assms(1) show ?thesis by (simp add: ed_set_def)
qed

theorem history_browsing_witness:
  "ed_text (snd (hist_next (hist_previous (remember ''one'' \<lparr>hist_entries = [], hist_position = 0, hist_draft = []\<rparr>,
     \<lparr>ed_text = ''dra'', ed_cursor = 3\<rparr>)))) = ''dra''"
proof -
  let ?h = "remember ''one'' \<lparr>hist_entries = [], hist_position = 0, hist_draft = []\<rparr>"
  have "hist_position ?h = length (hist_entries ?h)" "1 \<le> length (hist_entries ?h)" by code_simp+
  from history_browsing [OF this(1) _ this(2), of "\<lparr>ed_text = ''dra'', ed_cursor = 3\<rparr>"] show ?thesis by simp
qed

end
