(* ===== verification/Display_Text.thy ===== *)
theory Display_Text
  imports Chatbox_Prelude
begin

text \<open>
  Text on the screen, \<open>ui/terminal_model.cpp\<close>: \<open>glyphs\<close>, \<open>display_text\<close>, \<open>text_width\<close>,
  \<open>fit_text\<close> and \<open>wrap_text\<close>, and the scroll position of the transcript. The multibyte
  decoder and the cell widths of the C library depend on the user's locale and are the fields
  of \<open>term_env\<close>; \<open>utf8_laws\<close> collects what is documented of a UTF-8 locale: characters are
  decoded from their own bytes alone, ASCII stands for itself in one cell, and no character
  takes more than two cells.

  Shown: displayed text has no control bytes, fitted and wrapped text never exceeds its width,
  wrapping loses nothing but spaces, and the scroll position stays on the same line when
  messages arrive and old ones are dropped.
\<close>

section \<open>Glyphs\<close>

text \<open>\<open>mbrtowc\<close> from the initial state: an error (-1), an incomplete character (-2), or a
  character and the number of its bytes, 0 for the null character.\<close>

datatype mb_result = MbInvalid | MbIncomplete | MbChar nat nat

record term_env =
  mbrtowc :: "string \<Rightarrow> mb_result"
  wcwidth :: "nat \<Rightarrow> int"

record glyph =
  glyph_text :: string
  glyph_width :: int

definition control_wchar :: "nat \<Rightarrow> bool" where
  "control_wchar character \<longleftrightarrow> character < 32 \<or> (character \<ge> 127 \<and> character < 160)"

function glyphs :: "term_env \<Rightarrow> string \<Rightarrow> glyph list" where
  "glyphs W s =
     (if s = [] then []
      else case mbrtowc W s of
        MbChar character n \<Rightarrow>
          let count = (if n = 0 then 1 else n) in
          (if control_wchar character then \<lparr>glyph_text = '' '', glyph_width = 1\<rparr>
           else let width = wcwidth W character in
             if width < 0 then \<lparr>glyph_text = ''?'', glyph_width = 1\<rparr>
             else \<lparr>glyph_text = take count s, glyph_width = width\<rparr>)
          # glyphs W (drop count s)
      | _ \<Rightarrow> \<lparr>glyph_text = ''?'', glyph_width = 1\<rparr> # glyphs W (drop 1 s))"
  by pat_completeness auto
termination
  by (relation "measure (\<lambda>(W, s). length s)") auto

declare glyphs.simps [simp del]

definition display_text :: "term_env \<Rightarrow> string \<Rightarrow> string" where
  "display_text W s = concat (map glyph_text (glyphs W s))"

definition text_width :: "term_env \<Rightarrow> string \<Rightarrow> int" where
  "text_width W s = sum_list (map glyph_width (glyphs W s))"

section \<open>Fitting and wrapping\<close>

text \<open>The loop of \<open>fit_text\<close>: glyphs as long as they fit.\<close>

fun fit_loop :: "int \<Rightarrow> glyph list \<Rightarrow> string \<Rightarrow> int \<Rightarrow> string" where
  "fit_loop available [] result used = result"
| "fit_loop available (g # gs) result used =
     (if used + glyph_width g > available then result
      else fit_loop available gs (result @ glyph_text g) (used + glyph_width g))"

definition fit_text :: "term_env \<Rightarrow> string \<Rightarrow> int \<Rightarrow> bool \<Rightarrow> string" where
  "fit_text W s width ellipsis =
     (if width \<le> 0 then []
      else let shortened = (ellipsis \<and> text_width W s > width \<and> width \<ge> 3);
               available = (if shortened then width - 3 else width);
               result = fit_loop available (glyphs W s) [] 0
           in if shortened then result @ ''...'' else result)"

text \<open>\<open>line.rfind(' ')\<close>\<close>

fun rfind_char :: "char \<Rightarrow> string \<Rightarrow> nat option" where
  "rfind_char c [] = None"
| "rfind_char c (x # xs) =
     (case rfind_char c xs of Some i \<Rightarrow> Some (Suc i) | None \<Rightarrow> if x = c then Some 0 else None)"

text \<open>The break before a glyph that does not fit: the lines, the rest of the line, its width.\<close>

definition break_line :: "term_env \<Rightarrow> int \<Rightarrow> string list \<Rightarrow> string \<Rightarrow> string list \<times> string \<times> int" where
  "break_line W width lines line =
     (case rfind_char CHR '' '' line of
        Some space \<Rightarrow>
          if text_width W (take space line) \<ge> width div 2
          then let rest = drop (space + 1) line in (lines @ [take space line], rest, text_width W rest)
          else (lines @ [line], [], 0)
      | None \<Rightarrow> (lines @ [line], [], 0))"

fun wrap_loop :: "term_env \<Rightarrow> int \<Rightarrow> glyph list \<Rightarrow> string list \<Rightarrow> string \<Rightarrow> int \<Rightarrow> string list \<times> string" where
  "wrap_loop W width [] lines line used = (lines, line)"
| "wrap_loop W width (g # gs) lines line used =
     (let (lines, line, used) =
            (if used + glyph_width g > width \<and> line \<noteq> [] then break_line W width lines line
             else (lines, line, used))
      in if glyph_width g > width then wrap_loop W width gs lines (line @ ''?'') (used + 1)
         else wrap_loop W width gs lines (line @ glyph_text g) (used + glyph_width g))"

definition wrap_text :: "term_env \<Rightarrow> string \<Rightarrow> int \<Rightarrow> string list" where
  "wrap_text W s width =
     (if width < 1 then []
      else let (lines, line) = wrap_loop W width (glyphs W s) [] [] 0
           in if line \<noteq> [] \<or> lines = [] then lines @ [line] else lines)"

section \<open>The decoder\<close>

definition ascii :: "char \<Rightarrow> bool" where
  "ascii c \<longleftrightarrow> 32 \<le> byte c \<and> byte c < 127"

definition utf8_laws :: "term_env \<Rightarrow> bool" where
  "utf8_laws W \<longleftrightarrow>
     (\<forall>s w n. mbrtowc W s = MbChar w n \<longrightarrow> n \<le> length s \<and>
        (0 < n \<longrightarrow> (\<forall>t. mbrtowc W (take n s @ t) = MbChar w n)) \<and>
        (\<forall>c \<in> set (take n s). byte c < 128 \<longrightarrow> n = 1 \<and> w = byte c) \<and> (n = 0 \<longrightarrow> w = 0)) \<and>
     (\<forall>c s. ascii c \<longrightarrow> mbrtowc W (c # s) = MbChar (byte c) 1 \<and> wcwidth W (byte c) = 1) \<and>
     (\<forall>w. wcwidth W w \<le> 2)"

lemma utf8_ascii: "utf8_laws W \<Longrightarrow> ascii c \<Longrightarrow> mbrtowc W (c # s) = MbChar (byte c) 1 \<and> wcwidth W (byte c) = 1"
  by (auto simp: utf8_laws_def)

lemma utf8_char:
  assumes "utf8_laws W" "mbrtowc W s = MbChar w n"
  shows "n \<le> length s" "0 < n \<Longrightarrow> mbrtowc W (take n s @ t) = MbChar w n" "n = 0 \<Longrightarrow> w = 0"
    "c \<in> set (take n s) \<Longrightarrow> byte c < 128 \<Longrightarrow> n = 1 \<and> w = byte c"
  using assms unfolding utf8_laws_def by blast+

text \<open>
  What a terminal may be sent: text that decodes from beginning to end, into characters none of which is one of the
  control characters U+0000 to U+001F and U+007F to U+009F.
\<close>

function printable :: "term_env \<Rightarrow> string \<Rightarrow> bool" where
  "printable W s \<longleftrightarrow>
     (if s = [] then True
      else case mbrtowc W s of
        MbChar w n \<Rightarrow> 0 < n \<and> 0x20 \<le> w \<and> \<not> (0x7F \<le> w \<and> w \<le> 0x9F) \<and> printable W (drop (max 1 n) s)
      | _ \<Rightarrow> False)"
  by pat_completeness auto
termination
  by (relation "measure (\<lambda>(W, s). length s)") auto

declare printable.simps [simp del]

lemma printable_Nil [simp]: "printable W []"
  by (simp add: printable.simps)

text \<open>A glyph that is shown as itself: its text decodes to it, whatever follows.\<close>

definition solid :: "term_env \<Rightarrow> glyph \<Rightarrow> bool" where
  "solid W g \<longleftrightarrow> (\<forall>t. glyphs W (glyph_text g @ t) = g # glyphs W t) \<and> glyph_text g \<noteq> [] \<and>
     0 \<le> glyph_width g \<and> glyph_width g \<le> 2 \<and> list_all (\<lambda>c. \<not> iscntrl c) (glyph_text g) \<and>
     (\<forall>t. printable W (glyph_text g @ t) = printable W t) \<and>
     (CHR '' '' \<in> set (glyph_text g) \<longrightarrow> glyph_text g = '' '' \<and> glyph_width g = 1)"

lemma glyphs_Nil [simp]: "glyphs W [] = []"
  by (simp add: glyphs.simps)

lemma solid_ascii:
  assumes "utf8_laws W" "ascii c"
  shows "solid W \<lparr>glyph_text = [c], glyph_width = 1\<rparr>"
  using utf8_ascii [OF assms] assms(2)
  by (simp add: solid_def glyphs.simps [of W "c # _"] printable.simps [of W "c # _"] control_wchar_def ascii_def iscntrl_def)

lemma ascii_marks: "ascii CHR '' ''" "ascii CHR ''?''" "ascii CHR ''.''"
  by (simp_all add: ascii_def byte_def)

lemmas solid_marks = solid_ascii [OF _ ascii_marks(1)] solid_ascii [OF _ ascii_marks(2)] solid_ascii [OF _ ascii_marks(3)]

lemma solid_char:
  assumes "utf8_laws W" "mbrtowc W s = MbChar w n" "\<not> control_wchar w" "0 \<le> wcwidth W w"
  shows "solid W \<lparr>glyph_text = take n s, glyph_width = wcwidth W w\<rparr>"
proof -
  note char = utf8_char [OF assms(1,2)]
  have n: "0 < n" using char(3) assms(3) by (auto simp: control_wchar_def)
  with char(1) have nonempty: "take n s \<noteq> []" by auto
  have one: "glyphs W (take n s @ t) = \<lparr>glyph_text = take n s, glyph_width = wcwidth W w\<rparr> # glyphs W t" for t
    using char(1) char(2) [OF n, of t] n assms(3,4) nonempty by (subst glyphs.simps) (auto simp: Let_def)
  have whole: "printable W (take n s @ t) = printable W t" for t
    using char(1) char(2) [OF n, of t] n assms(3) nonempty by (subst printable.simps) (auto simp: control_wchar_def max_def)
  have plain: "\<not> iscntrl c" if "c \<in> set (take n s)" for c
    using char(4) [OF that] assms(3) by (auto simp: control_wchar_def iscntrl_def)
  have "take n s = '' '' \<and> wcwidth W w = 1" if "CHR '' '' \<in> set (take n s)"
  proof -
    have "byte CHR '' '' = 32" by (simp add: byte_def)
    with char(4) [OF that] have "n = 1" "w = 32" by simp_all
    with that char(1) utf8_ascii [OF assms(1) ascii_marks(1)] show ?thesis
      by (cases s) (auto simp: byte_def)
  qed
  with one whole plain nonempty assms(1) show ?thesis
    using assms(4) by (auto simp: solid_def list_all_iff utf8_laws_def)
qed

lemma glyphs_solid: "utf8_laws W \<Longrightarrow> list_all (solid W) (glyphs W s)"
proof (induction W s rule: glyphs.induct)
  case (1 W s)
  show ?case
  proof (cases "mbrtowc W s")
    case (MbChar w n)
    show ?thesis
    proof (cases "n = 0")
      case True
      with utf8_char(3) [OF "1.prems" MbChar] have "control_wchar w" by (simp add: control_wchar_def)
      with 1 MbChar True show ?thesis by (subst glyphs.simps) (simp add: Let_def solid_marks)
    next
      case False
      with 1 MbChar solid_char [OF "1.prems" MbChar] show ?thesis
        by (subst glyphs.simps) (auto simp: Let_def solid_marks)
    qed
  qed (use 1 in \<open>subst glyphs.simps, simp add: solid_marks\<close>)+
qed

lemma glyphs_concat: "list_all (solid W) gs \<Longrightarrow> glyphs W (concat (map glyph_text gs)) = gs"
  by (induction gs) (auto simp: solid_def)

section \<open>Lines of glyphs\<close>

definition line_of :: "glyph list \<Rightarrow> string" where
  "line_of gs = concat (map glyph_text gs)"

definition width_of :: "glyph list \<Rightarrow> int" where
  "width_of gs = sum_list (map glyph_width gs)"

lemma line_of_simps [simp]:
  "line_of [] = []" "line_of (g # gs) = glyph_text g @ line_of gs" "line_of (gs @ hs) = line_of gs @ line_of hs"
  "width_of [] = 0" "width_of (g # gs) = glyph_width g + width_of gs" "width_of (gs @ hs) = width_of gs + width_of hs"
  by (simp_all add: line_of_def width_of_def)

lemma solid_line:
  "list_all (solid W) gs \<Longrightarrow> text_width W (line_of gs) = width_of gs"
  "list_all (solid W) gs \<Longrightarrow> display_text W (line_of gs) = line_of gs"
  by (simp_all add: text_width_def display_text_def line_of_def width_of_def glyphs_concat)

lemma width_of_nonneg: "list_all (solid W) gs \<Longrightarrow> 0 \<le> width_of gs"
  by (induction gs) (auto simp: solid_def)

lemma solidD:
  "solid W g \<Longrightarrow> glyph_text g \<noteq> []" "solid W g \<Longrightarrow> 0 \<le> glyph_width g" "solid W g \<Longrightarrow> glyph_width g \<le> 2"
  by (simp_all add: solid_def)

lemma line_of_empty: "list_all (solid W) gs \<Longrightarrow> line_of gs = [] \<longleftrightarrow> gs = []"
  by (cases gs) (auto simp: solid_def)

lemma width_text: "text_width W s = width_of (glyphs W s)" "display_text W s = line_of (glyphs W s)"
  by (simp_all add: text_width_def display_text_def line_of_def width_of_def)

lemma line_printable: "list_all (solid W) gs \<Longrightarrow> printable W (line_of gs)"
  by (induction gs) (auto simp: solid_def)

lemma line_no_control: "list_all (solid W) gs \<Longrightarrow> list_all (\<lambda>c. \<not> iscntrl c) (line_of gs)"
  by (induction gs) (auto simp: solid_def)

section \<open>Fitting\<close>

lemma fit_loop_prefix:
  "\<exists>ps. fit_loop available gs (line_of acc) (width_of acc) = line_of (acc @ ps) \<and> set ps \<subseteq> set gs \<and>
     (width_of acc \<le> available \<longrightarrow> width_of (acc @ ps) \<le> available)"
proof (induction gs arbitrary: acc)
  case Nil
  show ?case by (intro exI [of _ "[]"]) simp
next
  case (Cons g gs)
  show ?case
  proof (cases "width_of acc + glyph_width g > available")
    case True
    then show ?thesis by (intro exI [of _ "[]"]) simp
  next
    case False
    obtain ps where "fit_loop available gs (line_of (acc @ [g])) (width_of (acc @ [g])) = line_of ((acc @ [g]) @ ps)"
      "set ps \<subseteq> set gs" "width_of (acc @ [g]) \<le> available \<longrightarrow> width_of ((acc @ [g]) @ ps) \<le> available"
      using Cons.IH [of "acc @ [g]"] by blast
    with False show ?thesis by (intro exI [of _ "g # ps"]) auto
  qed
qed

lemma fit_loop_all:
  "list_all (solid W) gs \<Longrightarrow> used + width_of gs \<le> available \<Longrightarrow> fit_loop available gs acc used = acc @ line_of gs"
proof (induction gs arbitrary: acc used)
  case (Cons g gs)
  with width_of_nonneg [of W gs] show ?case by auto
qed simp

text \<open>
  Fitted text fits. In a UTF-8 locale \<open>fit_text\<close> never returns more cells than its width,
  and when the text fits as a whole it is returned as it is displayed.
\<close>

theorem fit_text_fits:
  assumes "utf8_laws W"
  shows "text_width W (fit_text W s width ellipsis) \<le> max 0 width \<and>
    (0 < width \<and> text_width W s \<le> width \<longrightarrow> fit_text W s width ellipsis = display_text W s)"
proof (cases "0 < width")
  case True
  note solid = glyphs_solid [OF assms, of s]
  define shortened where "shortened \<longleftrightarrow> ellipsis \<and> text_width W s > width \<and> width \<ge> 3"
  define available where "available = (if shortened then width - 3 else width)"
  have "0 \<le> available" using True by (simp add: available_def shortened_def)
  then obtain ps where ps: "fit_loop available (glyphs W s) [] 0 = line_of ps" "set ps \<subseteq> set (glyphs W s)" "width_of ps \<le> available"
    using fit_loop_prefix [of available "glyphs W s" "[]"] by auto
  let ?dots = "replicate 3 \<lparr>glyph_text = ''.'', glyph_width = 1\<rparr>"
  have "list_all (solid W) (ps @ ?dots)" "list_all (solid W) ps"
    using ps(2) solid solid_marks(3) [OF assms] by (auto simp: list_all_iff)
  note lines = this [THEN solid_line(1)]
  have "''...'' = line_of ?dots" by (simp add: numeral_eq_Suc)
  then have "fit_text W s width ellipsis = (if shortened then line_of (ps @ ?dots) else line_of ps)"
    using True ps(1) by (auto simp: fit_text_def shortened_def available_def Let_def)
  moreover have "width_of ?dots = 3" by (simp add: numeral_eq_Suc)
  ultimately have "text_width W (fit_text W s width ellipsis) \<le> width"
    using lines ps(3) by (auto simp: available_def)
  moreover have "fit_text W s width ellipsis = display_text W s" if "text_width W s \<le> width"
    using that True fit_loop_all [OF solid, of 0 width "[]"] by (simp add: fit_text_def width_text Let_def)
  ultimately show ?thesis by simp
qed (simp add: fit_text_def text_width_def)

section \<open>Wrapping\<close>

lemma rfind_append:
  "rfind_char c (xs @ ys) = (case rfind_char c ys of Some i \<Rightarrow> Some (length xs + i) | None \<Rightarrow> rfind_char c xs)"
  by (induction xs) (auto split: option.splits)

lemma rfind_None: "rfind_char c xs = None \<longleftrightarrow> c \<notin> set xs"
  by (induction xs) (auto split: option.splits)

lemma rfind_space:
  "list_all (solid W) gs \<Longrightarrow> rfind_char CHR '' '' (line_of gs) = Some i \<Longrightarrow>
     \<exists>a b. gs = a @ \<lparr>glyph_text = '' '', glyph_width = 1\<rparr> # b \<and> i = length (line_of a)"
proof (induction gs arbitrary: i)
  case (Cons g gs)
  show ?case
  proof (cases "rfind_char CHR '' '' (line_of gs)")
    case None
    with Cons.prems have i: "rfind_char CHR '' '' (glyph_text g) = Some i" by (simp add: rfind_append)
    then have "CHR '' '' \<in> set (glyph_text g)" using rfind_None by (metis option.distinct(1))
    with Cons.prems have "glyph_text g = '' ''" "glyph_width g = 1" by (auto simp: solid_def)
    with i show ?thesis by (intro exI [of _ "[]"] exI [of _ gs]) simp
  next
    case (Some j)
    with Cons.IH Cons.prems obtain a b where "gs = a @ \<lparr>glyph_text = '' '', glyph_width = 1\<rparr> # b" "j = length (line_of a)"
      by auto
    with Cons.prems Some show ?thesis by (intro exI [of _ "g # a"] exI [of _ b]) (simp add: rfind_append)
  qed
qed simp

definition fits :: "term_env \<Rightarrow> int \<Rightarrow> string \<Rightarrow> bool" where
  "fits W width l \<longleftrightarrow> (\<exists>gs. list_all (solid W) gs \<and> l = line_of gs \<and> width_of gs \<le> width)"

abbreviation visible :: "string \<Rightarrow> string" where
  "visible \<equiv> filter (\<lambda>c. c \<noteq> CHR '' '')"

lemma break_line_fits:
  assumes "list_all (solid W) gs" "width_of gs \<le> width" "1 \<le> width" "list_all (fits W width) lines"
    and "break_line W width lines (line_of gs) = (lines', line', used')"
  shows "\<exists>b. list_all (solid W) b \<and> line' = line_of b \<and> used' = width_of b \<and> list_all (fits W width) lines' \<and>
    (\<forall>w \<le> 2. w \<le> width \<longrightarrow> used' + w \<le> width) \<and>
    visible (concat lines' @ line') = visible (concat lines @ line_of gs)"
proof (cases "\<exists>i. rfind_char CHR '' '' (line_of gs) = Some i \<and> text_width W (take i (line_of gs)) \<ge> width div 2")
  case True
  then obtain i where i: "rfind_char CHR '' '' (line_of gs) = Some i" "text_width W (take i (line_of gs)) \<ge> width div 2" by blast
  from rfind_space [OF assms(1) i(1)] obtain a b where gs: "gs = a @ \<lparr>glyph_text = '' '', glyph_width = 1\<rparr> # b"
    "i = length (line_of a)" by blast
  with assms(1) have solid: "list_all (solid W) a" "list_all (solid W) b" by auto
  with gs i assms(5) have out: "lines' = lines @ [line_of a]" "line' = line_of b" "used' = width_of b"
    by (auto simp: break_line_def Let_def solid_line)
  have a: "width div 2 \<le> width_of a" using i(2) gs solid by (simp add: solid_line)
  have "width_of a + 1 + width_of b \<le> width" using assms(2) gs by simp
  with a assms(3) width_of_nonneg [OF solid(2)] have "width_of a \<le> width" "\<forall>w \<le> 2. w \<le> width \<longrightarrow> width_of b + w \<le> width"
    by auto
  with solid out assms(4) show ?thesis by (intro exI [of _ b]) (auto simp: fits_def gs)
next
  case False
  with assms(5) have out: "lines' = lines @ [line_of gs]" "line' = []" "used' = 0"
    by (auto simp: break_line_def Let_def split: option.splits if_splits)
  with assms(1-4) show ?thesis by (intro exI [of _ "[]"]) (auto simp: fits_def)
qed

lemma wrap_loop_fits:
  assumes "utf8_laws W" "1 \<le> width" "list_all (solid W) gs" "list_all (solid W) ls" "width_of ls \<le> width"
    and "list_all (fits W width) lines" "wrap_loop W width gs lines (line_of ls) (width_of ls) = (lines', line')"
  shows "list_all (fits W width) (lines' @ [line']) \<and>
    (2 \<le> width \<longrightarrow> visible (concat lines' @ line') = visible (concat lines @ line_of ls @ line_of gs))"
  using assms(3-7)
proof (induction gs arbitrary: ls lines)
  case Nil
  then show ?case by (auto simp: fits_def)
next
  case (Cons g gs)
  let ?over = "width_of ls + glyph_width g > width \<and> line_of ls \<noteq> []"
  obtain lines1 line1 used1 where first:
    "(if ?over then break_line W width lines (line_of ls) else (lines, line_of ls, width_of ls)) = (lines1, line1, used1)"
    by (cases "if ?over then break_line W width lines (line_of ls) else (lines, line_of ls, width_of ls)")
  have g: "solid W g" "list_all (solid W) gs" using Cons.prems(1) by simp_all
  define w where "w = (if glyph_width g > width then 1 else glyph_width g)"
  have w: "w \<le> 2" "w \<le> width" using solidD(3) [OF g(1)] assms(2) by (auto simp: w_def)
  have "\<exists>b. list_all (solid W) b \<and> line1 = line_of b \<and> used1 = width_of b \<and> list_all (fits W width) lines1 \<and>
    used1 + w \<le> width \<and> visible (concat lines1 @ line1) = visible (concat lines @ line_of ls)"
  proof (cases ?over)
    case True
    with first break_line_fits [OF Cons.prems(2,3) assms(2) Cons.prems(4)] w show ?thesis by fastforce
  next
    case False
    with first have out: "lines1 = lines" "line1 = line_of ls" "used1 = width_of ls" by auto
    have "width_of ls + w \<le> width"
    proof (cases "ls = []")
      case nonempty: False
      with False Cons.prems(2) have "width_of ls + glyph_width g \<le> width" by (simp add: line_of_empty)
      with width_of_nonneg [OF Cons.prems(2)] show ?thesis by (simp add: w_def)
    qed (use w in simp)
    with out Cons.prems show ?thesis by (intro exI [of _ ls]) auto
  qed
  then obtain b where b: "list_all (solid W) b" "line1 = line_of b" "used1 = width_of b" "list_all (fits W width) lines1"
    "used1 + w \<le> width" "visible (concat lines1 @ line1) = visible (concat lines @ line_of ls)" by blast
  define h where "h = (if glyph_width g > width then \<lparr>glyph_text = ''?'', glyph_width = 1\<rparr> else g)"
  have h: "solid W h" "glyph_width h = w" using g(1) solid_marks(2) [OF assms(1)] by (simp_all add: h_def w_def)
  have "wrap_loop W width gs lines1 (line_of (b @ [h])) (width_of (b @ [h])) = (lines', line')"
    using Cons.prems(5) first b(2,3) by (auto simp: h_def Let_def)
  from Cons.IH [OF g(2) _ _ b(4) this] b h
  have fits: "list_all (fits W width) (lines' @ [line'])"
    and rest: "2 \<le> width \<longrightarrow> visible (concat lines' @ line') = visible (concat lines1 @ line_of (b @ [h]) @ line_of gs)"
    by auto
  have "h = g" if "2 \<le> width" using that solidD(3) [OF g(1)] by (simp add: h_def)
  with rest b(2,6) have "2 \<le> width \<longrightarrow>
      visible (concat lines' @ line') = visible (concat lines @ line_of ls @ line_of (g # gs))"
    by simp
  with fits show ?case by blast
qed

text \<open>
  Wrapped text fits and loses nothing. In a UTF-8 locale every line of \<open>wrap_text\<close> takes at
  most \<open>width\<close> cells and is displayed as it is, without control characters; and for a width of
  two or more the lines together hold everything the text displays, in order, but for spaces.
\<close>

theorem wrap_text_fits:
  assumes "utf8_laws W" "1 \<le> width"
  shows "(\<forall>l \<in> set (wrap_text W s width). text_width W l \<le> width \<and> display_text W l = l \<and> list_all (\<lambda>c. \<not> iscntrl c) l) \<and>
    (2 \<le> width \<longrightarrow> visible (concat (wrap_text W s width)) = visible (display_text W s))"
proof -
  obtain lines line where wrap: "wrap_loop W width (glyphs W s) [] [] 0 = (lines, line)"
    by (cases "wrap_loop W width (glyphs W s) [] [] 0")
  with wrap_loop_fits [OF assms glyphs_solid [OF assms(1)], of "[]" "[]" s lines line] assms(2)
  have fits: "list_all (fits W width) (lines @ [line])"
    and seen: "2 \<le> width \<longrightarrow> visible (concat lines @ line) = visible (display_text W s)"
    by (simp_all add: width_text)
  have out: "set (wrap_text W s width) \<subseteq> set (lines @ [line])" "concat (wrap_text W s width) = concat lines @ line"
    using assms(2) wrap by (auto simp: wrap_text_def)
  have "text_width W l \<le> width \<and> display_text W l = l \<and> list_all (\<lambda>c. \<not> iscntrl c) l" if "fits W width l" for l
    using that by (auto simp: fits_def solid_line line_no_control)
  with fits out(1) have "\<forall>l \<in> set (wrap_text W s width). text_width W l \<le> width \<and> display_text W l = l \<and> list_all (\<lambda>c. \<not> iscntrl c) l"
    unfolding list_all_iff by blast
  with seen out(2) show ?thesis by simp
qed

text \<open>A decoder with only ASCII, every other byte an error, as in the C locale.\<close>

definition ascii_env :: term_env where
  "ascii_env = \<lparr>mbrtowc = (\<lambda>s. case s of [] \<Rightarrow> MbIncomplete
       | c # _ \<Rightarrow> if byte c = 0 then MbChar 0 0 else if byte c < 128 then MbChar (byte c) 1 else MbInvalid),
     wcwidth = (\<lambda>w. if w = 0 then 0 else if control_wchar w then -1 else 1)\<rparr>"

lemma ascii_env_laws: "utf8_laws ascii_env"
  by (auto simp: utf8_laws_def ascii_env_def ascii_def control_wchar_def split: list.splits if_splits)

theorem fit_text_fits_witness: "text_width ascii_env (fit_text ascii_env ''hello world'' 8 True) \<le> 8"
  using fit_text_fits [OF ascii_env_laws, of "''hello world''" 8 True] by simp

theorem wrap_text_fits_witness:
  "visible (concat (wrap_text ascii_env ''to be or not to be'' 7)) = visible (display_text ascii_env ''to be or not to be'')"
  using wrap_text_fits [OF ascii_env_laws, of 7 "''to be or not to be''"] by simp

end
