(* ===== verification/Scrollback.thy ===== *)
theory Scrollback
  imports Chatbox_Prelude
begin

text \<open>
  The scroll position of the transcript, \<open>Scrollback\<close> of \<open>ui/terminal_model.cpp\<close>. The
  position is not an index but an anchor, the message and the part of it at the top of the
  view, found by \<open>std::lower_bound\<close>; here the binary search is written out and shown to find
  the partition point. The sizes and steps are far below the range of \<open>int\<close> (the buffer holds
  200 messages), so \<open>int\<close> is HOL's.
\<close>

section \<open>The model\<close>

record transcript_line =
  tl_message :: u64
  tl_part :: nat
  tl_text :: string
  tl_continuation :: bool

record scrollback =
  sb_follow :: bool
  sb_message :: u64
  sb_part :: nat

text \<open>The comparison of \<open>std::pair\<close>.\<close>

definition anchor_less :: "u64 \<times> nat \<Rightarrow> u64 \<times> nat \<Rightarrow> bool" where
  "anchor_less a b \<longleftrightarrow> fst a < fst b \<or> (\<not> fst b < fst a \<and> snd a < snd b)"

definition line_anchor :: "transcript_line \<Rightarrow> u64 \<times> nat" where
  "line_anchor l = (tl_message l, tl_part l)"

function lower_bound_loop :: "('a \<Rightarrow> bool) \<Rightarrow> 'a list \<Rightarrow> nat \<Rightarrow> nat \<Rightarrow> nat" where
  "lower_bound_loop below xs first len =
     (if len = 0 then first
      else let half = len div 2; middle = first + half in
           if below (xs ! middle) then lower_bound_loop below xs (middle + 1) (len - half - 1)
           else lower_bound_loop below xs first half)"
  by pat_completeness auto
termination
  by (relation "measure (\<lambda>(below, xs, first, len). len)") auto

declare lower_bound_loop.simps [simp del]

definition lower_bound :: "('a \<Rightarrow> bool) \<Rightarrow> 'a list \<Rightarrow> nat" where
  "lower_bound below xs = lower_bound_loop below xs 0 (length xs)"

definition sb_start :: "scrollback \<Rightarrow> transcript_line list \<Rightarrow> int \<Rightarrow> nat" where
  "sb_start sb lines height =
     (let page = nat (max 1 height);
          last = (if length lines > page then length lines - page else 0)
      in if sb_follow sb then last
         else min last (lower_bound (\<lambda>l. anchor_less (line_anchor l) (sb_message sb, sb_part sb)) lines))"

definition clamp :: "int \<Rightarrow> int \<Rightarrow> int \<Rightarrow> int" where
  "clamp v lo hi = (if v < lo then lo else if hi < v then hi else v)"

definition move_by :: "transcript_line list \<Rightarrow> int \<Rightarrow> int \<Rightarrow> scrollback \<Rightarrow> scrollback" where
  "move_by lines height delta sb =
     (if lines = [] then sb
      else let last = max 0 (int (length lines) - max 1 height);
               target = clamp (int (sb_start sb lines height) + delta) 0 last
           in \<lparr>sb_follow = (target = last), sb_message = tl_message (lines ! nat target),
               sb_part = tl_part (lines ! nat target)\<rparr>)"

definition latest :: "scrollback \<Rightarrow> scrollback" where
  "latest sb = sb\<lparr>sb_follow := True\<rparr>"

section \<open>The search\<close>

text \<open>The range is partitioned: the elements below the key are exactly the first \<open>k\<close>.\<close>

definition partitioned :: "('a \<Rightarrow> bool) \<Rightarrow> 'a list \<Rightarrow> nat \<Rightarrow> bool" where
  "partitioned below xs k \<longleftrightarrow> k \<le> length xs \<and> (\<forall>i < length xs. below (xs ! i) \<longleftrightarrow> i < k)"

lemma lower_bound_loop_finds:
  "partitioned below xs k \<Longrightarrow> first \<le> k \<Longrightarrow> k \<le> first + len \<Longrightarrow> first + len \<le> length xs \<Longrightarrow>
     lower_bound_loop below xs first len = k"
proof (induction below xs first len rule: lower_bound_loop.induct)
  case (1 below xs first len)
  show ?case
  proof (cases "len = 0")
    case True
    with 1 show ?thesis by (simp add: lower_bound_loop.simps)
  next
    case False
    let ?half = "len div 2"
    have middle: "first + ?half < length xs" using False "1.prems"(4) by auto
    then have below: "below (xs ! (first + ?half)) \<longleftrightarrow> first + ?half < k"
      using "1.prems"(1) by (simp add: partitioned_def)
    have step: "lower_bound_loop below xs first len =
        (if first + ?half < k then lower_bound_loop below xs (first + ?half + 1) (len - ?half - 1)
         else lower_bound_loop below xs first ?half)"
      using False below by (simp add: lower_bound_loop.simps [of below xs first len] Let_def)
    show ?thesis
    proof (cases "first + ?half < k")
      case True
      with "1.IH"(1) [OF False refl refl] below "1.prems" False show ?thesis unfolding step by simp
    next
      case False': False
      with "1.IH"(2) [OF False refl refl] below "1.prems" False middle show ?thesis unfolding step by simp
    qed
  qed
qed

lemma lower_bound_finds: "partitioned below xs k \<Longrightarrow> lower_bound below xs = k"
  by (simp add: lower_bound_def lower_bound_loop_finds partitioned_def)

lemma partitioned_exists: "(\<And>i j. i \<le> j \<Longrightarrow> j < length xs \<Longrightarrow> below (xs ! j) \<Longrightarrow> below (xs ! i)) \<Longrightarrow>
    partitioned below xs (length (takeWhile below xs))"
proof -
  assume down: "\<And>i j. i \<le> j \<Longrightarrow> j < length xs \<Longrightarrow> below (xs ! j) \<Longrightarrow> below (xs ! i)"
  let ?k = "length (takeWhile below xs)"
  have "i < ?k" if "i < length xs" "below (xs ! i)" for i
  proof (rule ccontr)
    assume "\<not> i < ?k"
    with that have "?k < length xs" by simp
    from nth_length_takeWhile [OF this] down [of ?k i] that \<open>\<not> i < ?k\<close> show False by simp
  qed
  moreover have "below (xs ! i)" if "i < ?k" for i
    using that by (metis nth_mem set_takeWhileD takeWhile_nth)
  ultimately show ?thesis by (auto simp: partitioned_def length_takeWhile_le)
qed

section \<open>The anchor\<close>

definition ordered :: "transcript_line list \<Rightarrow> bool" where
  "ordered lines \<longleftrightarrow> sorted_wrt (\<lambda>a b. anchor_less (line_anchor a) (line_anchor b)) lines"

lemma anchor_less_order:
  "\<not> anchor_less a a" "anchor_less a b \<Longrightarrow> anchor_less b c \<Longrightarrow> anchor_less a c"
  "anchor_less a b \<Longrightarrow> \<not> anchor_less b a"
  by (auto simp: anchor_less_def)

lemma ordered_partition:
  assumes "ordered lines" "i < length lines"
  shows "partitioned (\<lambda>l. anchor_less (line_anchor l) (line_anchor (lines ! i))) lines i"
proof -
  have "anchor_less (line_anchor (lines ! j)) (line_anchor (lines ! k))" if "j < k" "k < length lines" for j k
    using assms(1) that by (simp add: ordered_def sorted_wrt_iff_nth_less)
  then show ?thesis
    using assms(2) anchor_less_order unfolding partitioned_def by (metis linorder_neqE_nat nless_le)
qed

lemma move_by_target:
  assumes "lines \<noteq> []" "1 \<le> height"
  obtains target where "target < length lines" "sb_message (move_by lines height delta sb) = tl_message (lines ! target)"
    "sb_part (move_by lines height delta sb) = tl_part (lines ! target)"
    "\<not> sb_follow (move_by lines height delta sb) \<Longrightarrow> target + nat height < length lines"
    "int target = clamp (int (sb_start sb lines height) + delta) 0 (max 0 (int (length lines) - height))"
proof -
  define n where "n = length lines"
  define t where "t = clamp (int (sb_start sb lines height) + delta) 0 (max 0 (int n - height))"
  have "0 \<le> t" "t \<le> max 0 (int n - height)" by (auto simp: t_def clamp_def)
  moreover have "0 < n" using assms(1) by (simp add: n_def)
  ultimately have "nat t < n" "int (nat t) = t" "t \<noteq> max 0 (int n - height) \<Longrightarrow> nat t + nat height < n"
    using assms(2) by (auto simp: max_def split: if_splits)
  moreover have "max 1 height = height" using assms(2) by simp
  ultimately show ?thesis
    using assms(1) by (intro that [of "nat t"]) (simp_all add: move_by_def Let_def n_def t_def)
qed

text \<open>
  What is being read does not move. After scrolling to a line that is not the last page,
  the view starts with that line; and it still does when new lines are added at the end and the
  oldest ones before it are dropped, as the bounded message buffer does.
\<close>

theorem scroll_anchor_stable:
  assumes "ordered lines" "lines \<noteq> []" "1 \<le> height" "\<not> sb_follow (move_by lines height delta sb)"
    and "ordered (drop k lines @ new)" "k \<le> sb_start (move_by lines height delta sb) lines height"
  shows "int (sb_start (move_by lines height delta sb) lines height) =
      clamp (int (sb_start sb lines height) + delta) 0 (max 0 (int (length lines) - height)) \<and>
    (drop k lines @ new) ! sb_start (move_by lines height delta sb) (drop k lines @ new) height =
      lines ! sb_start (move_by lines height delta sb) lines height"
proof -
  let ?sb = "move_by lines height delta sb"
  obtain t where t: "t < length lines" "sb_message ?sb = tl_message (lines ! t)" "sb_part ?sb = tl_part (lines ! t)"
    "t + nat height < length lines"
    "int t = clamp (int (sb_start sb lines height) + delta) 0 (max 0 (int (length lines) - height))"
    using move_by_target [OF assms(2,3), of delta sb] assms(4) by metis
  have anchor: "(sb_message ?sb, sb_part ?sb) = line_anchor (lines ! t)" using t(2,3) by (simp add: line_anchor_def)
  have start: "sb_start ?sb ls height = i"
    if "ordered ls" "i < length ls" "ls ! i = lines ! t" "i + nat height < length ls" for ls i
    using that lower_bound_finds [OF ordered_partition [OF that(1,2)]] assms(3,4)
    by (simp add: sb_start_def Let_def anchor max_def)
  from start [OF assms(1) t(1) refl t(4)] have now: "sb_start ?sb lines height = t" .
  with assms(6) have k: "k \<le> t" by simp
  let ?ls = "drop k lines @ new"
  have "?ls ! (t - k) = lines ! t" "t - k < length ?ls" "t - k + nat height < length ?ls"
    using k t(1,4) by (auto simp: nth_append)
  with start [OF assms(5)] have "sb_start ?sb ?ls height = t - k" by blast
  with now t(5) \<open>?ls ! (t - k) = lines ! t\<close> show ?thesis by simp
qed

definition demo_lines :: "transcript_line list" where
  "demo_lines = map (\<lambda>n. \<lparr>tl_message = of_nat n, tl_part = 0, tl_text = [], tl_continuation = False\<rparr>) [0..<6]"

theorem scroll_anchor_stable_witness:
  "let sb = move_by demo_lines 2 (-3) \<lparr>sb_follow = True, sb_message = 0, sb_part = 0\<rparr>; later = drop 1 demo_lines
   in later ! sb_start sb later 2 = demo_lines ! sb_start sb demo_lines 2"
proof -
  let ?sb = "\<lparr>sb_follow = True, sb_message = 0, sb_part = 0\<rparr>"
  have "ordered demo_lines" "demo_lines \<noteq> []" "\<not> sb_follow (move_by demo_lines 2 (-3) ?sb)"
    "ordered (drop 1 demo_lines @ [])" "1 \<le> sb_start (move_by demo_lines 2 (-3) ?sb) demo_lines 2"
    by code_simp+
  from scroll_anchor_stable [OF this(1,2) _ this(3,4,5)] show ?thesis by simp
qed

end
