(* ===== verification/Curses_Input.thy ===== *)
theory Curses_Input
  imports Line_Editor Display_Text Scrollback
begin

text \<open>
  The input side of \<open>ui/curses_ui.cpp\<close>: what a key does to a line of text, the menu, the form and
  the notice, each a loop that draws and waits for a key. A keystroke is what \<open>getch\<close> returns with the
  size of the terminal afterwards; a loop is given the keystrokes to come and returns its result with the
  keystrokes it did not read, or \<open>None\<close> if it is still waiting after all of them. Drawing does not change the
  state of these loops; the pages are in \<open>Setup_Screens\<close>.

  Shown: a menu returns the index of one of its items or -1, and every item can be chosen; a form
  that is submitted has all its fields valid and within their limits; typing key by key edits characters.
\<close>

section \<open>Keys\<close>

text \<open>Function keys of curses are not bytes.\<close>

datatype key = Byte char | KEY_LEFT | KEY_RIGHT | KEY_UP | KEY_DOWN | KEY_HOME | KEY_END | KEY_BACKSPACE
  | KEY_DC | KEY_ENTER | KEY_BTAB | KEY_PPAGE | KEY_NPAGE | KEY_RESIZE | KEY_F nat | ERR | KEY_OTHER

record keystroke =
  ks_key :: key
  ks_lines :: int
  ks_cols :: int

definition is_byte :: "nat \<Rightarrow> key \<Rightarrow> bool" where
  "is_byte n k \<longleftrightarrow> (case k of Byte c \<Rightarrow> byte c = n | _ \<Rightarrow> False)"

text \<open>\<open>ch == '\n' || ch == '\r' || ch == KEY_ENTER\<close>\<close>

definition is_enter :: "key \<Rightarrow> bool" where
  "is_enter k \<longleftrightarrow> is_byte 10 k \<or> is_byte 13 k \<or> k = KEY_ENTER"

definition small_screen :: "keystroke \<Rightarrow> bool" where
  "small_screen k \<longleftrightarrow> ks_lines k < 12 \<or> ks_cols k < 40"

definition edit_key :: "key \<Rightarrow> nat \<Rightarrow> line_editor \<Rightarrow> line_editor" where
  "edit_key ch limit e =
     (if ch = KEY_LEFT then ed_left e
      else if ch = KEY_RIGHT then ed_right e
      else if ch = KEY_HOME \<or> is_byte 1 ch then e\<lparr>ed_cursor := 0\<rparr>
      else if ch = KEY_END \<or> is_byte 5 ch then e\<lparr>ed_cursor := length (ed_text e)\<rparr>
      else if ch = KEY_BACKSPACE \<or> is_byte 127 ch \<or> is_byte 8 ch then backspace e
      else if ch = KEY_DC \<or> is_byte 4 ch then erase_forward e
      else if is_byte 23 ch then erase_word e
      else if is_byte 21 ch then e\<lparr>ed_text := str_erase (ed_text e) 0 (ed_cursor e), ed_cursor := 0\<rparr>
      else if is_byte 11 ch then e\<lparr>ed_text := take (ed_cursor e) (ed_text e)\<rparr>
      else case ch of Byte c \<Rightarrow> if byte c \<ge> 32 \<and> byte c \<noteq> 127 then snd (ed_insert [c] limit e) else e
           | _ \<Rightarrow> e)"

section \<open>Notices\<close>

text \<open>
  The scroll offset after a turn: a notice that is drawn clamps it to its range, one on a screen
  that is too small has an empty range.
\<close>

definition notice_offset :: "bool \<Rightarrow> int \<Rightarrow> key \<Rightarrow> int \<Rightarrow> int" where
  "notice_offset drawn extent ch offset =
     (let max_offset = (if drawn then extent else 0);
          offset = (if drawn then clamp offset 0 max_offset else offset);
          offset = (if ch = KEY_DOWN \<or> ch = KEY_NPAGE then min max_offset (offset + 1) else offset)
      in if ch = KEY_UP \<or> ch = KEY_PPAGE then max 0 (offset - 1) else offset)"

fun show_curses_notice :: "keystroke list \<Rightarrow> keystroke list option" where
  "show_curses_notice [] = None"
| "show_curses_notice (k # ks) = (if is_enter (ks_key k) \<or> is_byte 27 (ks_key k) then Some ks else show_curses_notice ks)"

lemma show_curses_notice_shorter: "show_curses_notice ks = Some ks' \<Longrightarrow> length ks' < length ks"
  by (induction ks) (auto split: if_splits)

section \<open>Menus\<close>

record menu_item =
  mi_shortcut :: "char option"
  mi_title :: string
  mi_description :: string

datatype menu_step = MenuStay nat | MenuReturn int | MenuDetails

fun find_shortcut :: "char \<Rightarrow> nat \<Rightarrow> menu_item list \<Rightarrow> nat option" where
  "find_shortcut ch i [] = None"
| "find_shortcut ch i (item # items) =
     (if mi_shortcut item = Some (tolower ch) then Some i else find_shortcut ch (Suc i) items)"

definition menu_key :: "menu_item list \<Rightarrow> nat \<Rightarrow> keystroke \<Rightarrow> menu_step" where
  "menu_key items selected k =
     (let ch = ks_key k in
      if ch = KEY_F 4 then MenuDetails
      else if is_byte 27 ch then MenuReturn (- 1)
      else if small_screen k then MenuStay selected
      else if ch = KEY_UP then MenuStay ((selected + length items - 1) mod length items)
      else if ch = KEY_DOWN \<or> is_byte 9 ch then MenuStay ((selected + 1) mod length items)
      else if ch = KEY_HOME then MenuStay 0
      else if ch = KEY_END then MenuStay (length items - 1)
      else if is_enter ch then MenuReturn (int selected)
      else case ch of
             Byte c \<Rightarrow> (case find_shortcut c 0 items of Some i \<Rightarrow> MenuReturn (int i) | None \<Rightarrow> MenuStay selected)
           | _ \<Rightarrow> MenuStay selected)"

function menu_loop :: "menu_item list \<Rightarrow> nat \<Rightarrow> keystroke list \<Rightarrow> (int \<times> keystroke list) option" where
  "menu_loop items selected [] = None"
| "menu_loop items selected (k # ks) =
     (case menu_key items selected k of
        MenuReturn choice \<Rightarrow> Some (choice, ks)
      | MenuStay selected \<Rightarrow> menu_loop items selected ks
      | MenuDetails \<Rightarrow> (case show_curses_notice ks of None \<Rightarrow> None | Some ks' \<Rightarrow> menu_loop items selected ks'))"
  by pat_completeness auto
termination
  by (relation "measure (\<lambda>(items, selected, ks). length ks)") (auto dest: show_curses_notice_shorter)

definition choose_curses_menu :: "menu_item list \<Rightarrow> keystroke list \<Rightarrow> (int \<times> keystroke list) option" where
  "choose_curses_menu items ks = (if items = [] then Some (- 1, ks) else menu_loop items 0 ks)"

section \<open>Forms\<close>

record curses_field =
  cf_label :: string
  cf_value :: string
  cf_limit :: nat
  cf_secret :: bool
  cf_toggle :: bool
  cf_validate :: "(string \<Rightarrow> string) option"

record form_state =
  fs_fields :: "curses_field list"
  fs_selected :: nat
  fs_editor :: line_editor
  fs_error :: string

datatype form_step = FormStay form_state | FormDetails form_state | FormDone "curses_field list" | FormCancelled

text \<open>\<open>if (field.validate) error = field.validate(value)\<close>, after \<open>error.clear()\<close>.\<close>

definition field_error :: "curses_field \<Rightarrow> string" where
  "field_error f = (case cf_validate f of None \<Rightarrow> [] | Some validate \<Rightarrow> validate (cf_value f))"

fun first_error :: "nat \<Rightarrow> curses_field list \<Rightarrow> (nat \<times> curses_field) option" where
  "first_error i [] = None"
| "first_error i (f # fs) = (if field_error f \<noteq> [] then Some (i, f) else first_error (Suc i) fs)"

definition select_field :: "nat \<Rightarrow> form_state \<Rightarrow> form_state" where
  "select_field i s = s\<lparr>fs_selected := i, fs_editor := ed_set (cf_value (fs_fields s ! i)) (fs_editor s)\<rparr>"

text \<open>\<open>fields[selected].value = editor.text\<close>\<close>

definition keep_value :: "form_state \<Rightarrow> form_state" where
  "keep_value s =
     s\<lparr>fs_fields := (fs_fields s)[fs_selected s := (fs_fields s ! fs_selected s)\<lparr>cf_value := ed_text (fs_editor s)\<rparr>]\<rparr>"

definition move_in_form :: "bool \<Rightarrow> form_state \<Rightarrow> form_state" where
  "move_in_form back s =
     (let n = length (fs_fields s)
      in select_field (if back then (fs_selected s + n - 1) mod n else (fs_selected s + 1) mod n) s)"

definition submit_form :: "form_state \<Rightarrow> form_step" where
  "submit_form s =
     (let error = field_error (fs_fields s ! fs_selected s) in
      if error \<noteq> [] then FormStay (s\<lparr>fs_error := error\<rparr>)
      else if fs_selected s = length (fs_fields s) - 1
      then (case first_error 0 (fs_fields s) of
              None \<Rightarrow> FormDone (fs_fields s)
            | Some (i, f) \<Rightarrow> FormStay (select_field i (s\<lparr>fs_error := field_error f\<rparr>)))
      else FormStay (move_in_form False s))"

definition toggle_key :: "key \<Rightarrow> line_editor \<Rightarrow> line_editor" where
  "toggle_key ch e =
     (if ch = KEY_LEFT \<or> ch = KEY_RIGHT \<or> ch = Byte (CHR '' '')
      then ed_set (if ed_text e = ''yes'' then ''no'' else ''yes'') e
      else if ch = Byte (CHR ''y'') \<or> ch = Byte (CHR ''Y'') then ed_set ''yes'' e
      else if ch = Byte (CHR ''n'') \<or> ch = Byte (CHR ''N'') then ed_set ''no'' e
      else e)"

text \<open>One turn of the loop: the value is kept before drawing, then a key is read.\<close>

definition form_key :: "keystroke \<Rightarrow> form_state \<Rightarrow> form_step" where
  "form_key k s0 =
     (let s = keep_value s0; ch = ks_key k;
          submit = is_enter ch;
          back = (ch = KEY_BTAB \<or> ch = KEY_UP);
          forward = (is_byte 9 ch \<or> ch = KEY_DOWN \<or> submit);
          field = fs_fields s ! fs_selected s
      in if ch = KEY_F 4 then FormDetails s
         else if is_byte 27 ch then FormCancelled
         else if small_screen k then FormStay s
         else if back \<or> forward
         then let s = (keep_value s)\<lparr>fs_error := []\<rparr>
              in if submit then submit_form s else FormStay (move_in_form back s)
         else if cf_toggle field then FormStay (s\<lparr>fs_editor := toggle_key ch (fs_editor s)\<rparr>)
         else FormStay (s\<lparr>fs_editor := edit_key ch (cf_limit field) (fs_editor s),
                         fs_error := (if ch \<noteq> ERR \<and> ch \<noteq> KEY_RESIZE then [] else fs_error s)\<rparr>))"

text \<open>The result of a form: the fields, or \<open>None\<close> for \<open>CursesFormCancelled\<close>.\<close>

function form_loop :: "form_state \<Rightarrow> keystroke list \<Rightarrow> (curses_field list option \<times> keystroke list) option" where
  "form_loop s [] = None"
| "form_loop s (k # ks) =
     (case form_key k s of
        FormDone result \<Rightarrow> Some (Some result, ks)
      | FormCancelled \<Rightarrow> Some (None, ks)
      | FormStay s \<Rightarrow> form_loop s ks
      | FormDetails s \<Rightarrow> (case show_curses_notice ks of None \<Rightarrow> None | Some ks' \<Rightarrow> form_loop s ks'))"
  by pat_completeness auto
termination
  by (relation "measure (\<lambda>(s, ks). length ks)") (auto dest: show_curses_notice_shorter)

definition edit_curses_form ::
  "curses_field list \<Rightarrow> keystroke list \<Rightarrow> (curses_field list option \<times> keystroke list) option" where
  "edit_curses_form form ks =
     (if form = [] then Some (Some form, ks)
      else form_loop \<lparr>fs_fields = form, fs_selected = 0,
             fs_editor = ed_set (cf_value (form ! 0)) \<lparr>ed_text = [], ed_cursor = 0\<rparr>, fs_error = []\<rparr> ks)"

definition PASS_MAX_LEN :: nat where "PASS_MAX_LEN = 63"

definition field_default :: curses_field where
  "field_default = \<lparr>cf_label = [], cf_value = [], cf_limit = 255, cf_secret = False, cf_toggle = False, cf_validate = None\<rparr>"

definition prompt_curses_password :: "string \<Rightarrow> keystroke list \<Rightarrow> (string option \<times> keystroke list) option" where
  "prompt_curses_password label ks =
     map_option (apfst (map_option (\<lambda>form. cf_value (form ! 0))))
       (edit_curses_form [field_default\<lparr>cf_label := label, cf_limit := PASS_MAX_LEN, cf_secret := True\<rparr>] ks)"

definition prompt_curses_yes_no :: "string \<Rightarrow> bool \<Rightarrow> keystroke list \<Rightarrow> (bool option \<times> keystroke list) option" where
  "prompt_curses_yes_no label default_yes ks =
     map_option (apfst (map_option (\<lambda>form. cf_value (form ! 0) = ''yes'')))
       (edit_curses_form [field_default\<lparr>cf_label := label, cf_value := (if default_yes then ''yes'' else ''no''),
          cf_limit := 3, cf_toggle := True\<rparr>] ks)"

section \<open>Editing within a limit\<close>

text \<open>The cursor is in the text and the text within the limit.\<close>

definition ed_within :: "nat \<Rightarrow> line_editor \<Rightarrow> bool" where
  "ed_within limit e \<longleftrightarrow> ed_cursor e \<le> length (ed_text e) \<and> length (ed_text e) \<le> limit"

lemma previous_char_le: "previous_char s at \<le> at"
  using previous_char_less [of at s] by (cases "at = 0") (simp_all add: previous_char_def)

lemma skip_forward_bounds: "at \<le> length s \<Longrightarrow> at \<le> skip_forward s at \<and> skip_forward s at \<le> length s"
proof (induction s at rule: skip_forward.induct)
  case (1 s at)
  then show ?case by (auto simp: skip_forward.simps [of s at])
qed

lemma next_char_bounds: "at \<le> length s \<Longrightarrow> at \<le> next_char s at \<and> next_char s at \<le> length s"
  using skip_forward_bounds [of "at + 1" s] by (auto simp: next_char_def)

lemma ed_within_backspace: "ed_within limit e \<Longrightarrow> ed_within limit (backspace e)"
  using previous_char_le [of "ed_text e" "ed_cursor e"]
  by (auto simp: ed_within_def backspace_def Let_def str_erase_def)

lemma ed_within_backspace_while: "ed_within limit e \<Longrightarrow> ed_within limit (backspace_while P e)"
proof (induction P e rule: backspace_while.induct)
  case (1 P e)
  then show ?case by (simp add: backspace_while.simps [of P e] ed_within_backspace)
qed

lemma ed_within_ops:
  assumes "ed_within limit e"
  shows "ed_within limit (ed_left e)" "ed_within limit (ed_right e)" "ed_within limit (erase_forward e)"
    "ed_within limit (snd (ed_insert v limit e))" "ed_within limit (e\<lparr>ed_cursor := 0\<rparr>)"
    "ed_within limit (e\<lparr>ed_cursor := length (ed_text e)\<rparr>)"
    "ed_within limit (e\<lparr>ed_text := str_erase (ed_text e) 0 (ed_cursor e), ed_cursor := 0\<rparr>)"
    "ed_within limit (e\<lparr>ed_text := take (ed_cursor e) (ed_text e)\<rparr>)"
  using assms previous_char_le [of "ed_text e" "ed_cursor e"] next_char_bounds [of "ed_cursor e" "ed_text e"]
  by (auto simp: ed_within_def ed_left_def ed_right_def erase_forward_def str_erase_def ed_insert_def)

lemma ed_within_erase_word: "ed_within limit e \<Longrightarrow> ed_within limit (erase_word e)"
  by (simp add: erase_word_def ed_within_backspace_while)

lemma ed_within_if:
  "ed_within limit x \<Longrightarrow> ed_within limit y \<Longrightarrow> ed_within limit (if c then x else y)"
  by simp

lemma ed_within_edit_key:
  assumes "ed_within limit e"
  shows "ed_within limit (edit_key ch limit e)"
  unfolding edit_key_def
  by (intro ed_within_if ed_within_ops ed_within_backspace ed_within_erase_word assms)
    (cases ch; simp add: assms ed_within_ops)

lemma ed_within_set [simp]: "ed_within limit (ed_set v e) \<longleftrightarrow> length v \<le> limit"
  by (simp add: ed_within_def ed_set_def)

section \<open>Menus choose items\<close>

lemma find_shortcut_bound: "find_shortcut ch i items = Some j \<Longrightarrow> i \<le> j \<and> j < i + length items"
  by (induction ch i items rule: find_shortcut.induct) (auto split: if_splits)

lemma show_curses_notice_suffix: "show_curses_notice ks = Some ks' \<Longrightarrow> \<exists>used. ks = used @ ks'"
  by (induction ks) (auto split: if_splits intro: exI [of _ "_ # _"])

lemma menu_key_bound:
  assumes "selected < length items"
  shows "case menu_key items selected k of
      MenuStay s \<Rightarrow> s < length items
    | MenuReturn choice \<Rightarrow> choice = - 1 \<or> (0 \<le> choice \<and> choice < int (length items))
    | MenuDetails \<Rightarrow> True"
proof -
  have "items \<noteq> []" using assms by auto
  then show ?thesis
    using assms find_shortcut_bound [of _ 0 items]
    by (auto simp: menu_key_def Let_def split: key.split option.split)
qed

lemma menu_loop_result:
  "menu_loop items selected ks = Some (choice, rest) \<Longrightarrow> selected < length items \<Longrightarrow>
     (choice = - 1 \<or> (0 \<le> choice \<and> choice < int (length items))) \<and> (\<exists>used. ks = used @ rest)"
proof (induction items selected ks rule: menu_loop.induct)
  case (2 items selected k ks)
  note bound = menu_key_bound [OF "2.prems"(2), of k]
  show ?case
  proof (cases "menu_key items selected k")
    case (MenuStay s)
    with 2 bound show ?thesis by (auto intro: exI [of _ "k # _"])
  next
    case (MenuReturn r)
    with 2 bound show ?thesis by (auto intro: exI [of _ "[k]"])
  next
    case MenuDetails
    with "2.prems" obtain ks' where ks': "show_curses_notice ks = Some ks'" "menu_loop items selected ks' = Some (choice, rest)"
      by (auto split: option.splits)
    with "2.IH"(2) MenuDetails "2.prems"(2) obtain used where "ks' = used @ rest"
      "choice = - 1 \<or> (0 \<le> choice \<and> choice < int (length items))" by blast
    with show_curses_notice_suffix [OF ks'(1)] show ?thesis by (metis append.assoc append_Cons)
  qed
qed simp

definition press :: "key \<Rightarrow> keystroke" where
  "press k = \<lparr>ks_key = k, ks_lines = 24, ks_cols = 80\<rparr>"

lemma menu_key_press:
  "menu_key items selected (press KEY_DOWN) = MenuStay ((selected + 1) mod length items)"
  "menu_key items selected (press KEY_ENTER) = MenuReturn (int selected)"
  by (simp_all add: menu_key_def press_def small_screen_def is_byte_def is_enter_def)

lemma menu_loop_down:
  "selected + n < length items \<Longrightarrow>
     menu_loop items selected (replicate n (press KEY_DOWN) @ press KEY_ENTER # rest) = Some (int (selected + n), rest)"
  by (induction n arbitrary: selected) (simp_all add: menu_key_press)

section \<open>Forms\<close>

definition value_ok :: "curses_field \<Rightarrow> string \<Rightarrow> bool" where
  "value_ok f v \<longleftrightarrow> (if cf_toggle f then v = ''yes'' \<or> v = ''no'' else length v \<le> cf_limit f)"

text \<open>The fields differ from those of the form at most in their values, which are in order.\<close>

definition filled :: "curses_field list \<Rightarrow> curses_field list \<Rightarrow> bool" where
  "filled form fs \<longleftrightarrow> list_all2 (\<lambda>f g. g = f\<lparr>cf_value := cf_value g\<rparr> \<and> value_ok f (cf_value g)) form fs"

definition form_inv :: "curses_field list \<Rightarrow> form_state \<Rightarrow> bool" where
  "form_inv form s \<longleftrightarrow> filled form (fs_fields s) \<and> fs_selected s < length form \<and>
     value_ok (form ! fs_selected s) (ed_text (fs_editor s)) \<and>
     ed_cursor (fs_editor s) \<le> length (ed_text (fs_editor s))"

lemma filled_length: "filled form fs \<Longrightarrow> length fs = length form"
  by (auto simp: filled_def dest: list_all2_lengthD)

lemma filled_nth:
  "filled form fs \<Longrightarrow> i < length form \<Longrightarrow> fs ! i = (form ! i)\<lparr>cf_value := cf_value (fs ! i)\<rparr> \<and> value_ok (form ! i) (cf_value (fs ! i))"
  by (auto simp: filled_def dest: list_all2_nthD)

lemma form_inv_keep: "form_inv form s \<Longrightarrow> form_inv form (keep_value s)"
proof -
  assume s: "form_inv form s"
  then have f: "filled form (fs_fields s)" "fs_selected s < length form" by (auto simp: form_inv_def)
  have "(fs_fields s ! fs_selected s)\<lparr>cf_value := v\<rparr> = (form ! fs_selected s)\<lparr>cf_value := v\<rparr>" for v
    using filled_nth [OF f] by (metis curses_field.surjective curses_field.update_convs(2))
  with s f show ?thesis
    by (auto simp: form_inv_def keep_value_def filled_def list_all2_conv_all_nth nth_list_update)
qed

lemma form_inv_select:
  assumes "form_inv form s" "i < length form"
  shows "form_inv form (select_field i s)" "form_inv form (s\<lparr>fs_error := m\<rparr>)"
  using assms filled_nth [of form "fs_fields s" i]
  by (auto simp: form_inv_def select_field_def ed_set_def)

lemma form_inv_move: "form_inv form s \<Longrightarrow> form_inv form (move_in_form back s)"
  unfolding move_in_form_def Let_def
  by (rule form_inv_select(1)) (auto simp: form_inv_def filled_length intro!: mod_less_divisor)

lemma first_error_Some: "first_error i fs = Some (j, f) \<Longrightarrow> i \<le> j \<and> j < i + length fs"
  by (induction i fs rule: first_error.induct) (auto split: if_splits)

lemma first_error_None: "first_error i fs = None \<longleftrightarrow> list_all (\<lambda>f. field_error f = []) fs"
  by (induction i fs rule: first_error.induct) auto

fun step_ok :: "curses_field list \<Rightarrow> form_step \<Rightarrow> bool" where
  "step_ok form (FormStay s) \<longleftrightarrow> form_inv form s"
| "step_ok form (FormDetails s) \<longleftrightarrow> form_inv form s"
| "step_ok form (FormDone fs) \<longleftrightarrow> filled form fs \<and> list_all (\<lambda>f. field_error f = []) fs"
| "step_ok form FormCancelled \<longleftrightarrow> True"

lemma submit_form_ok: "form_inv form s \<Longrightarrow> step_ok form (submit_form s)"
proof -
  assume s: "form_inv form s"
  then have "length (fs_fields s) = length form" "filled form (fs_fields s)" "fs_selected s < length form"
    by (auto simp: form_inv_def filled_length)
  with s show ?thesis
    by (auto simp: submit_form_def Let_def first_error_None form_inv_move split: option.split
        intro!: form_inv_select dest: first_error_Some)
qed

lemma form_key_ok: "form_inv form s \<Longrightarrow> step_ok form (form_key k s)"
proof -
  assume "form_inv form s"
  then have s: "form_inv form (keep_value s)" by (rule form_inv_keep)
  let ?s = "keep_value s" and ?i = "fs_selected (keep_value s)"
  have i: "?i < length form" "filled form (fs_fields ?s)" using s by (auto simp: form_inv_def)
  have same: "cf_toggle (fs_fields ?s ! ?i) = cf_toggle (form ! ?i)" "cf_limit (fs_fields ?s ! ?i) = cf_limit (form ! ?i)"
    using filled_nth [OF i(2,1)] by (metis curses_field.select_convs(3,5) curses_field.surjective curses_field.update_convs(2))+
  have kept: "form_inv form ((keep_value ?s)\<lparr>fs_error := []\<rparr>)"
    using form_inv_keep [OF s] by (simp add: form_inv_def)
  have toggled: "form_inv form (?s\<lparr>fs_editor := toggle_key ch (fs_editor ?s)\<rparr>)" if "cf_toggle (form ! ?i)" for ch
    using s that by (auto simp: form_inv_def value_ok_def toggle_key_def ed_set_def)
  have edited: "form_inv form (?s\<lparr>fs_editor := edit_key ch (cf_limit (form ! ?i)) (fs_editor ?s), fs_error := m\<rparr>)"
    if "\<not> cf_toggle (form ! ?i)" for ch m
    using s that ed_within_edit_key [of "cf_limit (form ! ?i)" "fs_editor ?s" ch]
    by (auto simp: form_inv_def value_ok_def ed_within_def)
  show ?thesis
    using s kept toggled edited by (simp add: form_key_def Let_def same submit_form_ok form_inv_move)
qed

lemma form_loop_ok:
  "form_loop s ks = Some (Some fs, rest) \<Longrightarrow> form_inv form s \<Longrightarrow> filled form fs \<and> list_all (\<lambda>f. field_error f = []) fs"
proof (induction s ks rule: form_loop.induct)
  case (2 s k ks)
  from form_key_ok [OF "2.prems"(2), of k] 2 show ?case
    by (auto split: form_step.splits option.splits)
qed simp

lemma form_inv_start:
  "form \<noteq> [] \<Longrightarrow> list_all (\<lambda>f. value_ok f (cf_value f)) form \<Longrightarrow>
     form_inv form \<lparr>fs_fields = form, fs_selected = 0, fs_editor = ed_set (cf_value (form ! 0)) e, fs_error = m\<rparr>"
  by (auto simp: form_inv_def filled_def list_all2_same list_all_iff ed_set_def)

text \<open>Enter on every field of a form whose values are valid submits it as it is.\<close>

definition at_field :: "curses_field list \<Rightarrow> nat \<Rightarrow> form_state \<Rightarrow> bool" where
  "at_field form i s \<longleftrightarrow> fs_fields s = form \<and> fs_selected s = i \<and> ed_text (fs_editor s) = cf_value (form ! i)"

lemma keep_value_same: "at_field form i s \<Longrightarrow> i < length form \<Longrightarrow> keep_value s = s"
  by (cases s) (auto simp: at_field_def keep_value_def list_update_same_conv)

lemma form_key_enter:
  assumes "at_field form i s" "i < length form" "list_all (\<lambda>f. field_error f = []) form"
  shows "i + 1 = length form \<Longrightarrow> form_key (press KEY_ENTER) s = FormDone form"
    "i + 1 < length form \<Longrightarrow> \<exists>s'. form_key (press KEY_ENTER) s = FormStay s' \<and> at_field form (i + 1) s'"
proof -
  have "field_error (form ! i) = []" "first_error 0 form = None"
    using assms by (auto simp: list_all_length first_error_None)
  moreover have "form_key (press KEY_ENTER) s = submit_form (s\<lparr>fs_error := []\<rparr>)"
    using keep_value_same [OF assms(1,2)]
    by (simp add: form_key_def press_def small_screen_def is_byte_def is_enter_def)
  ultimately show "i + 1 = length form \<Longrightarrow> form_key (press KEY_ENTER) s = FormDone form"
    "i + 1 < length form \<Longrightarrow> \<exists>s'. form_key (press KEY_ENTER) s = FormStay s' \<and> at_field form (i + 1) s'"
    using assms(1) by (auto simp: submit_form_def at_field_def move_in_form_def select_field_def ed_set_def)
qed

lemma form_loop_enter:
  "at_field form i s \<Longrightarrow> i < length form \<Longrightarrow> list_all (\<lambda>f. field_error f = []) form \<Longrightarrow>
     form_loop s (replicate (length form - i) (press KEY_ENTER) @ rest) = Some (Some form, rest)"
proof (induction "length form - i" arbitrary: i s)
  case (Suc n)
  have keys: "replicate (length form - i) (press KEY_ENTER) = press KEY_ENTER # replicate (length form - (i + 1)) (press KEY_ENTER)"
    using Suc.prems(2) by (simp flip: replicate_Suc)
  show ?case
  proof (cases "i + 1 = length form")
    case True
    with form_key_enter(1) [OF Suc.prems] show ?thesis unfolding keys by simp
  next
    case False
    with Suc.prems form_key_enter(2) [OF Suc.prems] obtain s' where
      "form_key (press KEY_ENTER) s = FormStay s'" "at_field form (i + 1) s'" by auto
    with Suc.hyps(1) [of "i + 1" s'] Suc.hyps(2) Suc.prems False show ?thesis unfolding keys by simp
  qed
qed simp

text \<open>Typing the bytes of a text one after the other inserts the text, as long as it fits.\<close>

lemma typed_bytes:
  "list_all (\<lambda>c. 32 \<le> byte c \<and> byte c \<noteq> 127) x \<Longrightarrow> ed_cursor e \<le> length (ed_text e) \<Longrightarrow>
   length (ed_text e) + length x \<le> limit \<Longrightarrow>
     fold (\<lambda>c. edit_key (Byte c) limit) x e = snd (ed_insert x limit e)"
proof (induction x arbitrary: e)
  case (Cons c x)
  then have "edit_key (Byte c) limit e = snd (ed_insert [c] limit e)"
    by (simp add: edit_key_def is_byte_def)
  with Cons.IH [of "snd (ed_insert [c] limit e)"] Cons.prems show ?case
    by (auto simp: ed_insert_def)
qed (simp add: ed_insert_def)

text \<open>
  At the limit a character can be cut: of a character of two bytes for which one byte of room is
  left, the first byte is inserted and the second is not.
\<close>

lemma typed_character_cut:
  assumes "length t + 1 = limit"
  shows "ed_text (fold (\<lambda>c. edit_key (Byte c) limit) [CHR 0xC3, CHR 0xA9] \<lparr>ed_text = t, ed_cursor = length t\<rparr>) = t @ [CHR 0xC3]"
proof -
  let ?e = "\<lparr>ed_text = t, ed_cursor = length t\<rparr>"
  have "edit_key (Byte CHR 0xC3) limit ?e = \<lparr>ed_text = t @ [CHR 0xC3], ed_cursor = length t + 1\<rparr>"
    using assms by (simp add: edit_key_def is_byte_def byte_def ed_insert_def)
  moreover have "edit_key (Byte CHR 0xA9) limit \<lparr>ed_text = t @ [CHR 0xC3], ed_cursor = length t + 1\<rparr> =
      \<lparr>ed_text = t @ [CHR 0xC3], ed_cursor = length t + 1\<rparr>"
    using assms by (simp add: edit_key_def is_byte_def byte_def ed_insert_def)
  ultimately show ?thesis by simp
qed

section \<open>Typing\<close>

text \<open>
  What a user does to a line: typing a character, whose bytes arrive as keys of their own, or pressing a key that is none. A limit that is reached
  in the middle of a character leaves its first bytes.
\<close>

datatype stroke = Typed string | Pressed key

definition stroke_ok :: "stroke \<Rightarrow> bool" where
  "stroke_ok k = (case k of
       Typed x \<Rightarrow> one_char x \<and> 32 \<le> byte (hd x) \<and> byte (hd x) \<noteq> 127
     | Pressed (Byte c) \<Rightarrow> byte c < 32 \<or> byte c = 127
     | Pressed _ \<Rightarrow> True)"

definition stroke_keys :: "stroke \<Rightarrow> key list" where
  "stroke_keys k = (case k of Typed x \<Rightarrow> map Byte x | Pressed ch \<Rightarrow> [ch])"

definition type_stroke :: "nat \<Rightarrow> stroke \<Rightarrow> line_editor \<Rightarrow> line_editor" where
  "type_stroke limit k = fold (\<lambda>ch. edit_key ch limit) (stroke_keys k)"

definition zip_stroke :: "nat \<Rightarrow> stroke \<Rightarrow> zipper \<Rightarrow> zipper" where
  "zip_stroke limit k = (\<lambda>(l, r). case k of
       Typed x \<Rightarrow> (l @ (if length (concat (l @ r)) < limit then [take (limit - length (concat (l @ r))) x] else []), r)
     | Pressed ch \<Rightarrow>
         if ch = KEY_LEFT then zip_step Left (l, r)
         else if ch = KEY_RIGHT then zip_step Right (l, r)
         else if ch = KEY_HOME \<or> is_byte 1 ch then ([], l @ r)
         else if ch = KEY_END \<or> is_byte 5 ch then (l @ r, [])
         else if ch = KEY_BACKSPACE \<or> is_byte 127 ch \<or> is_byte 8 ch then (butlast l, r)
         else if ch = KEY_DC \<or> is_byte 4 ch then (l, tl r)
         else if is_byte 23 ch then zip_step EraseWord (l, r)
         else if is_byte 21 ch then ([], r)
         else if is_byte 11 ch then (l, [])
         else (l, r))"

lemma byte_after_last:
  assumes "shows_chars e (l @ [x]) r" "continuation c"
  shows "shows_chars (snd (ed_insert [c] limit e)) (l @ [if length (ed_text e) < limit then x @ [c] else x]) r"
  using assms by (auto simp: shows_chars_def ed_insert_def one_char_def list_all_iff hd_append tl_append split: list.splits)

lemma continuation_byte: "continuation c \<Longrightarrow> 128 \<le> byte c"
proof (rule ccontr)
  assume "continuation c" "\<not> 128 \<le> byte c"
  then have "\<not> bit (byte c) 7" by (simp add: bit_iff_odd)
  moreover from \<open>continuation c\<close> have "bit (byte c AND 0xc0) 7 = bit (0x80 :: nat) 7" by (simp add: continuation_def)
  moreover have "bit (0x80 :: nat) 7" by (simp add: bit_iff_odd)
  ultimately show False by (simp add: bit_and_iff)
qed

lemma edit_key_text: "32 \<le> byte c \<Longrightarrow> byte c \<noteq> 127 \<Longrightarrow> edit_key (Byte c) limit e = snd (ed_insert [c] limit e)"
  by (simp add: edit_key_def is_byte_def)

lemma typed_rest:
  assumes "list_all continuation cs" "shows_chars e (l @ [x]) r"
  shows "shows_chars (fold (\<lambda>ch. edit_key ch limit) (map Byte cs) e) (l @ [x @ take (limit - length (ed_text e)) cs]) r"
  using assms
proof (induction cs arbitrary: x e)
  case (Cons c cs)
  let ?e = "edit_key (Byte c) limit e"
  from Cons.prems continuation_byte [of c] have key: "?e = snd (ed_insert [c] limit e)" by (intro edit_key_text) auto
  with byte_after_last [OF Cons.prems(2), of c limit] Cons.prems(1)
  have "shows_chars ?e (l @ [if length (ed_text e) < limit then x @ [c] else x]) r" by simp
  from Cons.IH [OF _ this] Cons.prems have
    "shows_chars (fold (\<lambda>ch. edit_key ch limit) (map Byte cs) ?e)
      (l @ [(if length (ed_text e) < limit then x @ [c] else x) @ take (limit - length (ed_text ?e)) cs]) r" by simp
  moreover have "length (ed_text ?e) = (if length (ed_text e) < limit then length (ed_text e) + 1 else length (ed_text e))"
    using Cons.prems(2) by (auto simp: key ed_insert_def shows_chars_def)
  ultimately show ?case by (auto simp: take_Cons' split: if_splits)
qed simp

lemma typed_shows:
  assumes "shows_chars e l r" "one_char x" "32 \<le> byte (hd x)" "byte (hd x) \<noteq> 127"
  shows "shows_chars (type_stroke limit (Typed x) e) (fst (zip_stroke limit (Typed x) (l, r))) r"
proof -
  obtain c cs where x: "x = c # cs" "list_all continuation cs" "\<not> continuation c"
    using assms(2) by (cases x) (auto simp: one_char_def)
  let ?n = "length (concat (l @ r))"
  have n: "length (ed_text e) = ?n" using assms(1) by (simp add: shows_chars_def)
  have first: "edit_key (Byte c) limit e = snd (ed_insert [c] limit e)" using assms(3,4) x by (intro edit_key_text) auto
  have c: "chars [c] = [[c]]" "clean [c]" using x(3) by (simp_all add: clean_def)
  show ?thesis
  proof (cases "?n < limit")
    case True
    have start: "shows_chars (edit_key (Byte c) limit e) (l @ [[c]]) r"
      using shows_insert [OF assms(1) c(2), of limit] True c(1) by (simp add: first)
    moreover from this have "length (ed_text (edit_key (Byte c) limit e)) = ?n + 1" by (simp add: shows_chars_def)
    ultimately show ?thesis
      using typed_rest [OF x(2) start, of limit] True by (simp add: type_stroke_def stroke_keys_def zip_stroke_def x(1) take_Cons')
  next
    case False
    have stuck: "fold (\<lambda>ch. edit_key ch limit) (map Byte cs) e = e" if "list_all continuation cs" for cs
      using that
    proof (induction cs)
      case (Cons c cs)
      then have "edit_key (Byte c) limit e = snd (ed_insert [c] limit e)" using continuation_byte [of c] by (intro edit_key_text) auto
      then have "edit_key (Byte c) limit e = e" using False n by (simp add: ed_insert_def)
      with Cons show ?case by simp
    qed simp
    have "edit_key (Byte c) limit e = e" using False n first by (simp add: ed_insert_def)
    with stuck [OF x(2)] False assms(1) show ?thesis by (simp add: type_stroke_def stroke_keys_def zip_stroke_def x(1))
  qed
qed

lemma pressed_shows:
  assumes "shows_chars e l r" "stroke_ok (Pressed ch)"
  shows "shows_chars (type_stroke limit (Pressed ch) e) (fst (zip_stroke limit (Pressed ch) (l, r))) (snd (zip_stroke limit (Pressed ch) (l, r)))"
proof -
  have jumps: "shows_chars (e\<lparr>ed_cursor := 0\<rparr>) [] (l @ r)" "shows_chars (e\<lparr>ed_cursor := length (ed_text e)\<rparr>) (l @ r) []"
    and cuts: "shows_chars (e\<lparr>ed_text := str_erase (ed_text e) 0 (ed_cursor e), ed_cursor := 0\<rparr>) [] r"
      "shows_chars (e\<lparr>ed_text := take (ed_cursor e) (ed_text e)\<rparr>) l []"
    using assms(1) by (simp_all add: shows_chars_def str_erase_def)
  have other: "edit_key ch limit e = e" if "\<not> (case ch of Byte c \<Rightarrow> byte c \<in> {1, 4, 5, 8, 11, 21, 23, 127} | _ \<Rightarrow> False)"
      "ch \<notin> {KEY_LEFT, KEY_RIGHT, KEY_HOME, KEY_END, KEY_BACKSPACE, KEY_DC}"
    using that assms(2) by (cases ch) (auto simp: edit_key_def is_byte_def stroke_ok_def)
  show ?thesis
    using shows_left [OF assms(1)] shows_right [OF assms(1)] shows_backspace [OF assms(1)] shows_erase_forward [OF assms(1)]
      shows_erase_word [OF assms(1)] jumps cuts assms other
    by (cases ch) (auto simp: type_stroke_def stroke_keys_def zip_stroke_def zip_step_def edit_key_def is_byte_def stroke_ok_def)
qed

interpretation typing: simulation "type_stroke limit" "zip_stroke limit" ed_zip ed_ok stroke_ok for limit
proof
  fix e k assume "ed_ok e" "stroke_ok k"
  then obtain l r where e: "shows_chars e l r" "ed_zip e = (l, r)" by (elim ed_okE)
  have "shows_chars (type_stroke limit k e) (fst (zip_stroke limit k (l, r))) (snd (zip_stroke limit k (l, r)))"
  proof (cases k)
    case (Typed x)
    with typed_shows [OF e(1), of x limit] \<open>stroke_ok k\<close> show ?thesis by (simp add: stroke_ok_def zip_stroke_def)
  next
    case (Pressed ch)
    with pressed_shows [OF e(1)] \<open>stroke_ok k\<close> show ?thesis by simp
  qed
  with e(2) show "ed_ok (type_stroke limit k e)" "ed_zip (type_stroke limit k e) = zip_stroke limit k (ed_zip e)"
    by (auto dest: shows_charsD)
qed

text \<open>
  C25: Typing edits characters. Whatever characters are typed into a line whose cursor is between characters, their bytes arriving one by one, and whatever
  other keys are pressed between them (moving, erasing a character, a word or a part of the line): the
  characters before and after the cursor are those of the simple editor over lists of characters, and the cursor is between characters
  again. The one place where a character can be cut is the limit: of a character for which too little room is left, the bytes that
  fit are inserted; no other key ever splits a character.
\<close>

theorem typing_refines_zipper:
  assumes "ed_ok e" "list_all stroke_ok strokes"
  shows "ed_zip (fold (\<lambda>ch. edit_key ch limit) (concat (map stroke_keys strokes)) e) = fold (zip_stroke limit) strokes (ed_zip e) \<and>
    ed_ok (fold (\<lambda>ch. edit_key ch limit) (concat (map stroke_keys strokes)) e)"
proof -
  have "fold (\<lambda>ch. edit_key ch limit) (concat (map stroke_keys strokes)) e = fold (type_stroke limit) strokes e" for e
    by (induction strokes arbitrary: e) (simp_all add: type_stroke_def)
  with typing.run_simulates [OF assms, of limit] show ?thesis by simp
qed

theorem typing_refines_zipper_witness:
  "ed_zip (fold (\<lambda>ch. edit_key ch 40) [Byte CHR ''a'', Byte CHR 0xC3, Byte CHR 0xA9, KEY_LEFT, KEY_LEFT, KEY_DC, KEY_DC]
     \<lparr>ed_text = [], ed_cursor = 0\<rparr>) = ([], [])"
proof -
  let ?strokes = "[Typed ''a'', Typed [CHR 0xC3, CHR 0xA9], Pressed KEY_LEFT, Pressed KEY_LEFT, Pressed KEY_DC, Pressed KEY_DC]"
  have "ed_ok \<lparr>ed_text = [], ed_cursor = 0\<rparr>" "list_all stroke_ok ?strokes" by code_simp+
  from typing_refines_zipper [OF this, of 40] show ?thesis
    by (simp add: stroke_keys_def ed_zip_def zip_stroke_def zip_step_def is_byte_def)
qed

section \<open>What a form can contain\<close>

text \<open>The printable bytes among the keys.\<close>

definition typed_chars :: "keystroke list \<Rightarrow> char set" where
  "typed_chars ks = {c. Byte c \<in> ks_key ` set ks \<and> 32 \<le> byte c \<and> byte c \<noteq> 127}"

lemma set_str_erase: "set (str_erase s i n) \<subseteq> set s"
  by (auto simp: str_erase_def dest: in_set_takeD in_set_dropD)

lemma set_backspace: "set (ed_text (backspace e)) \<subseteq> set (ed_text e)"
  using set_str_erase by (auto simp: backspace_def Let_def)

lemma set_backspace_while: "set (ed_text (backspace_while P e)) \<subseteq> set (ed_text e)"
proof (induction P e rule: backspace_while.induct)
  case (1 P e)
  then show ?case using set_backspace [of e] by (subst backspace_while.simps) auto
qed

lemma set_edit_key:
  assumes "set (ed_text e) \<subseteq> A" "\<And>c. ch = Byte c \<Longrightarrow> 32 \<le> byte c \<Longrightarrow> byte c \<noteq> 127 \<Longrightarrow> c \<in> A"
  shows "set (ed_text (edit_key ch limit e)) \<subseteq> A"
proof -
  have ins: "set (ed_text (snd (ed_insert [c] limit e))) \<subseteq> A" if "c \<in> A" for c
    using assms(1) that by (auto simp: ed_insert_def dest: in_set_takeD in_set_dropD)
  have word: "set (ed_text (erase_word e)) \<subseteq> set (ed_text e)"
    unfolding erase_word_def by (meson set_backspace_while subset_trans)
  have "set (ed_text (edit_key ch limit e)) \<subseteq> set (ed_text e) \<or> set (ed_text (edit_key ch limit e)) \<subseteq> A"
    unfolding edit_key_def using ins assms(2) word set_backspace [of e] set_str_erase [of "ed_text e"]
    by (auto simp: ed_left_def ed_right_def erase_forward_def set_take_subset split: key.split)
  with assms(1) show ?thesis by blast
qed

definition form_chars :: "char set \<Rightarrow> form_state \<Rightarrow> bool" where
  "form_chars A s \<longleftrightarrow> (\<forall>f \<in> set (fs_fields s). set (cf_value f) \<subseteq> A) \<and> set (ed_text (fs_editor s)) \<subseteq> A \<and>
     fs_selected s < length (fs_fields s)"

lemma form_chars_keep: "form_chars A s \<Longrightarrow> form_chars A (keep_value s)"
  by (auto simp: form_chars_def keep_value_def dest!: set_update_subset_insert [THEN subsetD])

lemma form_chars_select: "form_chars A s \<Longrightarrow> i < length (fs_fields s) \<Longrightarrow> form_chars A (select_field i s)"
  by (auto simp: form_chars_def select_field_def ed_set_def)

lemma form_chars_move: "form_chars A s \<Longrightarrow> form_chars A (move_in_form back s)"
  unfolding move_in_form_def Let_def by (rule form_chars_select) (auto simp: form_chars_def intro!: mod_less_divisor)

lemma form_chars_error [simp]: "form_chars A (s\<lparr>fs_error := m\<rparr>) = form_chars A s"
  by (simp add: form_chars_def)

fun step_chars :: "char set \<Rightarrow> form_step \<Rightarrow> bool" where
  "step_chars A (FormStay s) \<longleftrightarrow> form_chars A s"
| "step_chars A (FormDetails s) \<longleftrightarrow> form_chars A s"
| "step_chars A (FormDone fs) \<longleftrightarrow> (\<forall>f \<in> set fs. set (cf_value f) \<subseteq> A)"
| "step_chars A FormCancelled \<longleftrightarrow> True"

lemma submit_form_chars: "form_chars A s \<Longrightarrow> step_chars A (submit_form s)"
  by (auto simp: submit_form_def Let_def form_chars_move split: option.split intro!: form_chars_select dest!: first_error_Some)
    (auto simp: form_chars_def)

lemma form_key_chars:
  assumes "form_chars A s" "set ''yesno'' \<subseteq> A" "typed_chars [k] \<subseteq> A"
  shows "step_chars A (form_key k s)"
proof -
  let ?s = "keep_value s"
  note kept = form_chars_keep [OF assms(1)]
  have toggled: "form_chars A (?s\<lparr>fs_editor := toggle_key ch (fs_editor ?s)\<rparr>)" for ch
    using kept assms(2) by (auto simp: form_chars_def toggle_key_def ed_set_def)
  have "set (ed_text (edit_key (ks_key k) limit (fs_editor ?s))) \<subseteq> A" for limit
    using kept assms(3) by (intro set_edit_key) (auto simp: form_chars_def typed_chars_def)
  then have edited: "form_chars A (?s\<lparr>fs_editor := edit_key (ks_key k) limit (fs_editor ?s), fs_error := m\<rparr>)" for limit m
    using kept by (simp add: form_chars_def)
  show ?thesis
    using kept toggled edited form_chars_keep [OF kept]
    by (simp add: form_key_def Let_def submit_form_chars form_chars_move)
qed

lemma typed_chars_mono: "set ks \<subseteq> set ks' \<Longrightarrow> typed_chars ks \<subseteq> typed_chars ks'"
  by (auto simp: typed_chars_def)

lemma form_loop_chars:
  "form_loop s ks = Some (Some fs, rest) \<Longrightarrow> form_chars A s \<Longrightarrow> set ''yesno'' \<subseteq> A \<Longrightarrow> typed_chars ks \<subseteq> A \<Longrightarrow>
     \<forall>f \<in> set fs. set (cf_value f) \<subseteq> A"
proof (induction s ks rule: form_loop.induct)
  case (2 s k ks)
  have "typed_chars [k] \<subseteq> A" "typed_chars ks \<subseteq> A"
    using "2.prems"(4) typed_chars_mono [of "[k]" "k # ks"] typed_chars_mono [of ks "k # ks"] by auto
  note step = form_key_chars [OF "2.prems"(2,3) this(1)]
  have later: "typed_chars ks' \<subseteq> A" if "show_curses_notice ks = Some ks'" for ks'
  proof -
    from show_curses_notice_suffix [OF that] have "set ks' \<subseteq> set ks" by auto
    from typed_chars_mono [OF this] \<open>typed_chars ks \<subseteq> A\<close> show ?thesis by (rule subset_trans)
  qed
  show ?case
    using step 2 \<open>typed_chars ks \<subseteq> A\<close> later by (auto split: form_step.splits option.splits)
qed simp

lemma submitted_chars:
  assumes "edit_curses_form form ks = Some (Some fs, rest)" "f \<in> set fs"
  shows "set (cf_value f) \<subseteq> (\<Union>g \<in> set form. set (cf_value g)) \<union> set ''yesno'' \<union> typed_chars ks"
proof (cases "form = []")
  case False
  let ?A = "(\<Union>g \<in> set form. set (cf_value g)) \<union> set ''yesno'' \<union> typed_chars ks"
  have "form_chars ?A \<lparr>fs_fields = form, fs_selected = 0,
      fs_editor = ed_set (cf_value (form ! 0)) \<lparr>ed_text = [], ed_cursor = 0\<rparr>, fs_error = []\<rparr>"
    using False by (auto simp: form_chars_def ed_set_def intro!: bexI [of _ "form ! 0"])
  moreover have "form_loop \<lparr>fs_fields = form, fs_selected = 0,
      fs_editor = ed_set (cf_value (form ! 0)) \<lparr>ed_text = [], ed_cursor = 0\<rparr>, fs_error = []\<rparr> ks = Some (Some fs, rest)"
    using assms(1) False by (simp add: edit_curses_form_def)
  ultimately have "\<forall>g \<in> set fs. set (cf_value g) \<subseteq> ?A" by (intro form_loop_chars) auto
  with assms(2) show ?thesis by blast
qed (use assms in \<open>auto simp: edit_curses_form_def\<close>)

lemma submitted_filled:
  assumes "edit_curses_form form ks = Some (Some fs, rest)" "form \<noteq> []" "list_all (\<lambda>f. value_ok f (cf_value f)) form"
  shows "filled form fs" "list_all (\<lambda>f. field_error f = []) fs"
  using form_loop_ok [OF _ form_inv_start [OF assms(2,3)]] assms(1,2) by (auto simp: edit_curses_form_def)

section \<open>What users can rely on\<close>

text \<open>
  A menu with items returns the index of one of them, or -1 when it is left with Escape; it reads
  no key after that; and every item can be chosen, the one at position \<open>i\<close> by \<open>i\<close> times Down and Enter.
\<close>

theorem menu_choices:
  assumes "items \<noteq> []"
  shows "(\<forall>choice rest. choose_curses_menu items ks = Some (choice, rest) \<longrightarrow>
      (choice = - 1 \<or> (0 \<le> choice \<and> choice < int (length items))) \<and> (\<exists>used. ks = used @ rest)) \<and>
    (\<forall>i < length items. choose_curses_menu items (replicate i (press KEY_DOWN) @ press KEY_ENTER # ks) = Some (int i, ks))"
  using assms menu_loop_result [of items 0 ks] menu_loop_down [of 0 _ items ks]
  by (auto simp: choose_curses_menu_def)

theorem menu_choices_witness:
  "choose_curses_menu [\<lparr>mi_shortcut = None, mi_title = ''a'', mi_description = []\<rparr>,
     \<lparr>mi_shortcut = None, mi_title = ''b'', mi_description = []\<rparr>] [press KEY_DOWN, press KEY_ENTER] = Some (1, [])"
  using menu_choices [of "[\<lparr>mi_shortcut = None, mi_title = ''a'', mi_description = []\<rparr>,
     \<lparr>mi_shortcut = None, mi_title = ''b'', mi_description = []\<rparr>]" "[]"]
  by (auto dest!: conjunct2 spec [of _ 1])

text \<open>
  A form that is submitted is in order. If the values it starts with are, then whatever keys are
  pressed, a submitted form has the fields it started with, changed at most in their values;
  every toggle says yes or no, every other value is within its limit, and every validator accepts
  its field. And a form whose values are already valid is submitted by Enter on each field.
\<close>

theorem submitted_form_valid:
  assumes "form \<noteq> []" "list_all (\<lambda>f. value_ok f (cf_value f)) form"
  shows "(\<forall>fs rest. edit_curses_form form ks = Some (Some fs, rest) \<longrightarrow> length fs = length form \<and>
      (\<forall>i < length form. fs ! i = (form ! i)\<lparr>cf_value := cf_value (fs ! i)\<rparr> \<and> value_ok (form ! i) (cf_value (fs ! i)) \<and>
         (\<forall>validate. cf_validate (form ! i) = Some validate \<longrightarrow> validate (cf_value (fs ! i)) = []))) \<and>
    (list_all (\<lambda>f. field_error f = []) form \<longrightarrow>
      edit_curses_form form (replicate (length form) (press KEY_ENTER) @ ks) = Some (Some form, ks))"
proof (intro conjI allI impI)
  fix fs rest
  assume "edit_curses_form form ks = Some (Some fs, rest)"
  then have ok: "filled form fs" "list_all (\<lambda>f. field_error f = []) fs"
    using submitted_filled [OF _ assms] by blast+
  then show len: "length fs = length form" by (simp add: filled_length)
  fix i
  assume i: "i < length form"
  with filled_nth [OF ok(1)] show same: "fs ! i = (form ! i)\<lparr>cf_value := cf_value (fs ! i)\<rparr>"
    and "value_ok (form ! i) (cf_value (fs ! i))" by auto
  fix validate
  assume v: "cf_validate (form ! i) = Some validate"
  from arg_cong [OF same, of cf_validate] have "cf_validate (fs ! i) = cf_validate (form ! i)" by simp
  with v ok(2) i len show "validate (cf_value (fs ! i)) = []" by (auto simp: list_all_length field_error_def)
next
  assume "list_all (\<lambda>f. field_error f = []) form"
  with assms(1) show "edit_curses_form form (replicate (length form) (press KEY_ENTER) @ ks) = Some (Some form, ks)"
    using form_loop_enter [of form 0 "\<lparr>fs_fields = form, fs_selected = 0,
        fs_editor = ed_set (cf_value (form ! 0)) \<lparr>ed_text = [], ed_cursor = 0\<rparr>, fs_error = []\<rparr>" ks]
    by (simp add: edit_curses_form_def at_field_def ed_set_def)
qed

definition demo_form :: "curses_field list" where
  "demo_form = [field_default\<lparr>cf_label := ''Nickname'', cf_value := ''ann'', cf_limit := 31\<rparr>,
     field_default\<lparr>cf_label := ''Remember'', cf_value := ''no'', cf_limit := 3, cf_toggle := True\<rparr>]"

theorem submitted_form_valid_witness:
  "edit_curses_form demo_form (replicate 2 (press KEY_ENTER)) = Some (Some demo_form, [])"
proof -
  have "demo_form \<noteq> []" "list_all (\<lambda>f. value_ok f (cf_value f)) demo_form" "list_all (\<lambda>f. field_error f = []) demo_form"
    "length demo_form = 2"
    by (simp_all add: demo_form_def value_ok_def field_default_def field_error_def)
  with submitted_form_valid [of demo_form "[]"] show ?thesis by simp
qed

end
