(* ===== verification/Completion.thy ===== *)
theory Completion
  imports Line_Editor Display_Text App_State Identity_Utils "HOL-Library.Sublist"
begin

text \<open>
  Completion of commands, rooms and nicknames in the input line, \<open>complete\<close> of
  \<open>ui/curses_ui.cpp\<close>. Shown: the word before the cursor becomes the longest text that all
  candidates start with and that does not cut one of their characters, and the line stays within
  the limit.
\<close>

section \<open>The model\<close>

definition command_names :: "string list" where
  "command_names = [''/help'', ''/rooms'', ''/create'', ''/join'', ''/leave'', ''/topic'', ''/users'',
     ''/whisper'', ''/kick'', ''/clear'', ''/time'', ''/exit'']"

definition host_command_names :: "string list" where
  "host_command_names = [''/ban'', ''/unban'', ''/bans'']"

text \<open>Where the word before the cursor starts.\<close>

definition word_start :: "line_editor \<Rightarrow> nat" where
  "word_start e =
     (if ed_cursor e = 0 then 0
      else case rfind_char CHR '' '' (take (ed_cursor e) (ed_text e)) of None \<Rightarrow> 0 | Some space \<Rightarrow> space + 1)"

definition typed_word :: "line_editor \<Rightarrow> string" where
  "typed_word e = take (ed_cursor e - word_start e) (drop (word_start e) (ed_text e))"

definition all_candidates :: "bool \<Rightarrow> line_editor \<Rightarrow> chat_state_snapshot \<Rightarrow> string list" where
  "all_candidates host e state =
     (if word_start e = 0 \<and> prefix ''/'' (typed_word e)
      then command_names @ (if host then host_command_names else [])
      else if prefix ''/join '' (ed_text e) then map summary_name (snap_rooms state)
      else snap_users state)"

definition candidates :: "bool \<Rightarrow> line_editor \<Rightarrow> chat_state_snapshot \<Rightarrow> string list" where
  "candidates host e state = sort (filter (prefix (typed_word e)) (all_candidates host e state))"

text \<open>\<open>while (!candidate.starts_with(common)) common.pop_back();\<close>\<close>

lemma butlast_shorter: "\<not> prefix q c \<Longrightarrow> length (butlast q) < length q"
  by (cases q) auto

function shrink_common :: "string \<Rightarrow> string \<Rightarrow> string" where
  "shrink_common candidate common =
     (if prefix common candidate then common else shrink_common candidate (butlast common))"
  by pat_completeness auto
termination
  by (relation "measure (\<lambda>(candidate, common). length common)") (auto simp: butlast_shorter simp del: length_butlast)

declare shrink_common.simps [simp del]

text \<open>A shared prefix of bytes can end inside a character.\<close>

function trim_common :: "string \<Rightarrow> string \<Rightarrow> string" where
  "trim_common front common =
     (if common \<noteq> [] \<and> length common < length front \<and> continuation (front ! length common)
      then trim_common front (butlast common) else common)"
  by pat_completeness auto
termination
  by (relation "measure (\<lambda>(front, common). length common)") auto

declare trim_common.simps [simp del]

definition common_start :: "string list \<Rightarrow> string" where
  "common_start cs = trim_common (hd cs) (fold shrink_common cs (hd cs))"

text \<open>The hint and the editor after Tab.\<close>

definition complete :: "bool \<Rightarrow> chat_state_snapshot \<Rightarrow> line_editor \<Rightarrow> string \<times> line_editor" where
  "complete host state e =
     (let cs = candidates host e state; start = word_start e; typed = typed_word e in
      if cs = [] then (''No completions'', e)
      else let replacement = common_start cs @ (if length cs = 1 then '' '' else []);
               e' = (if length (ed_text e) - length typed + length replacement \<le> MAX_CHAT_MESSAGE_LEN
                     then e\<lparr>ed_text := take start (ed_text e) @ replacement @ drop (start + length typed) (ed_text e),
                            ed_cursor := start + length replacement\<rparr>
                     else e)
           in (if length cs > 1 then concat (map (\<lambda>c. c @ ''  '') cs) else [], e'))"

section \<open>The common start\<close>

lemma rfind_char_less: "rfind_char c s = Some i \<Longrightarrow> i < length s"
  by (induction s arbitrary: i) (auto split: option.splits if_splits)

lemma shrink_common_prefix:
  "prefix (shrink_common c q) c \<and> prefix (shrink_common c q) q \<and>
     (\<forall>p. prefix p c \<longrightarrow> prefix p q \<longrightarrow> prefix p (shrink_common c q))"
proof (induction c q rule: shrink_common.induct)
  case (1 c q)
  show ?case
  proof (cases "prefix q c")
    case True
    then show ?thesis by (simp add: shrink_common.simps [of c q])
  next
    case False
    then have "shrink_common c q = shrink_common c (butlast q)" by (simp add: shrink_common.simps [of c q])
    moreover have "prefix (butlast q) q" by (metis append_butlast_last_id butlast.simps(1) prefixI prefix_order.refl)
    moreover have "prefix p (butlast q)" if "prefix p c" "prefix p q" for p
    proof -
      have "p \<noteq> q" using that False by auto
      then show ?thesis using that(2) by (metis append_butlast_last_id butlast.simps(1) prefix_snoc)
    qed
    ultimately show ?thesis using 1 [OF False] by (metis prefix_order.trans)
  qed
qed

lemma fold_shrink_common:
  "prefix (fold shrink_common cs q) q \<and> (\<forall>c \<in> set cs. prefix (fold shrink_common cs q) c) \<and>
     (\<forall>p. prefix p q \<longrightarrow> (\<forall>c \<in> set cs. prefix p c) \<longrightarrow> prefix p (fold shrink_common cs q))"
proof (induction cs arbitrary: q)
  case (Cons c cs)
  let ?q = "shrink_common c q"
  from Cons [of ?q] shrink_common_prefix [of c q] show ?case by (auto intro: prefix_order.trans)
qed simp

lemma shrink_common_longest:
  assumes "cs \<noteq> []"
  shows "fold shrink_common cs (hd cs) = Longest_common_prefix (set cs)"
proof -
  let ?q = "fold shrink_common cs (hd cs)"
  note q = fold_shrink_common [of cs "hd cs"]
  have "set cs \<noteq> {}" using assms by simp
  moreover from this have "prefix (Longest_common_prefix (set cs)) ?q"
    using q assms Longest_common_prefix_prefix by (metis hd_in_set)
  moreover have "prefix ?q (Longest_common_prefix (set cs))"
    using q \<open>set cs \<noteq> {}\<close> by (intro Longest_common_prefix_max_prefix) auto
  ultimately show ?thesis by (metis prefix_order.antisym)
qed

text \<open>A start of the first candidate that does not cut one of its characters.\<close>

definition at_boundary :: "string \<Rightarrow> string \<Rightarrow> bool" where
  "at_boundary front p \<longleftrightarrow> p = [] \<or> length front \<le> length p \<or> \<not> continuation (front ! length p)"

lemma trim_common_boundary:
  "at_boundary front (trim_common front q) \<and> prefix (trim_common front q) q \<and>
     (\<forall>p. prefix p q \<longrightarrow> at_boundary front p \<longrightarrow> prefix p (trim_common front q))"
proof (induction front q rule: trim_common.induct)
  case (1 front q)
  show ?case
  proof (cases "q \<noteq> [] \<and> length q < length front \<and> continuation (front ! length q)")
    case False
    then show ?thesis by (auto simp: trim_common.simps [of front q] at_boundary_def)
  next
    case True
    then have "trim_common front q = trim_common front (butlast q)" by (simp add: trim_common.simps [of front q])
    moreover have "prefix (butlast q) q" by (metis append_butlast_last_id butlast.simps(1) prefixI prefix_order.refl)
    moreover have "prefix p (butlast q)" if "prefix p q" "at_boundary front p" for p
    proof -
      have "p \<noteq> q" using that(2) True by (auto simp: at_boundary_def)
      then show ?thesis using that(1) by (metis append_butlast_last_id butlast.simps(1) prefix_snoc)
    qed
    ultimately show ?thesis using 1 [OF True] by (metis prefix_order.trans)
  qed
qed

section \<open>What users can rely on\<close>

lemma complete_word:
  fixes host state
  assumes "ed_cursor e \<le> length (ed_text e)" "length (ed_text e) \<le> MAX_CHAT_MESSAGE_LEN"
  defines "cs \<equiv> candidates host e state"
  defines "word \<equiv> common_start cs"
  defines "e' \<equiv> snd (complete host state e)"
  shows "length (ed_text e') \<le> MAX_CHAT_MESSAGE_LEN \<and>
    (cs \<noteq> [] \<longrightarrow>
      e' = (let line = take (word_start e) (ed_text e) @ word @ (if length cs = 1 then '' '' else []) @ drop (ed_cursor e) (ed_text e)
            in if length line \<le> MAX_CHAT_MESSAGE_LEN
               then \<lparr>ed_text = line, ed_cursor = word_start e + length word + (if length cs = 1 then 1 else 0)\<rparr> else e) \<and>
      at_boundary (hd cs) word \<and> prefix word (Longest_common_prefix (set cs)) \<and>
      (\<forall>p. prefix p (Longest_common_prefix (set cs)) \<and> at_boundary (hd cs) p \<longrightarrow> prefix p word) \<and>
      (at_boundary (hd cs) (typed_word e) \<longrightarrow> prefix (typed_word e) word))"
proof -
  have start: "word_start e \<le> ed_cursor e"
    using rfind_char_less [of "CHR '' ''" "take (ed_cursor e) (ed_text e)"]
    by (auto simp: word_start_def split: option.split)
  have typed: "length (typed_word e) = ed_cursor e - word_start e"
    using start assms(1) by (simp add: typed_word_def)
  have bound: "length (ed_text e') \<le> MAX_CHAT_MESSAGE_LEN"
    using assms(1,2) start typed by (auto simp: e'_def complete_def Let_def)
  have word: "at_boundary (hd cs) word \<and> prefix word (Longest_common_prefix (set cs)) \<and>
      (\<forall>p. prefix p (Longest_common_prefix (set cs)) \<and> at_boundary (hd cs) p \<longrightarrow> prefix p word)" if "cs \<noteq> []"
    using trim_common_boundary [of "hd cs" "Longest_common_prefix (set cs)"] shrink_common_longest [OF that]
    by (simp add: word_def common_start_def)
  have "prefix (typed_word e) (Longest_common_prefix (set cs))" if "cs \<noteq> []"
  proof (rule Longest_common_prefix_max_prefix)
    show "set cs \<noteq> {}" using that by simp
    show "\<forall>c \<in> set cs. prefix (typed_word e) c" by (simp add: cs_def candidates_def)
  qed
  with word have "at_boundary (hd cs) (typed_word e) \<longrightarrow> prefix (typed_word e) word" if "cs \<noteq> []"
    using that by blast
  moreover have "e' = (let line = take (word_start e) (ed_text e) @ word @ (if length cs = 1 then '' '' else []) @ drop (ed_cursor e) (ed_text e)
            in if length line \<le> MAX_CHAT_MESSAGE_LEN
               then \<lparr>ed_text = line, ed_cursor = word_start e + length word + (if length cs = 1 then 1 else 0)\<rparr> else e)" if "cs \<noteq> []"
    using that start typed assms(1) by (auto simp: e'_def complete_def Let_def cs_def [symmetric] word_def [symmetric])
  ultimately show ?thesis using bound word by blast
qed

text \<open>
  C29: Completion writes what the candidates share. When there are candidates and the line does
  not get too long, the word before the cursor is replaced by the longest of the texts that every
  candidate starts with and that end between two characters of the first one; a space follows if there
  is just one candidate; the rest of the line stays, and the cursor is behind the new word. If
  the typed word ends between two characters, the new word starts with it. In no case does the line
  exceed the limit.
\<close>

theorem completion_common_start:
  assumes "ed_cursor e \<le> length (ed_text e)" "length (ed_text e) \<le> MAX_CHAT_MESSAGE_LEN"
  shows "let cs = candidates host e state; word = common_start cs; e' = snd (complete host state e) in
    length (ed_text e') \<le> MAX_CHAT_MESSAGE_LEN \<and>
    (cs \<noteq> [] \<longrightarrow>
      e' = (let line = take (word_start e) (ed_text e) @ word @ (if length cs = 1 then '' '' else []) @ drop (ed_cursor e) (ed_text e)
            in if length line \<le> MAX_CHAT_MESSAGE_LEN
               then \<lparr>ed_text = line, ed_cursor = word_start e + length word + (if length cs = 1 then 1 else 0)\<rparr> else e) \<and>
      at_boundary (hd cs) word \<and> prefix word (Longest_common_prefix (set cs)) \<and>
      (\<forall>p. prefix p (Longest_common_prefix (set cs)) \<and> at_boundary (hd cs) p \<longrightarrow> prefix p word) \<and>
      (at_boundary (hd cs) (typed_word e) \<longrightarrow> prefix (typed_word e) word))"
  using complete_word [OF assms, of host state] unfolding Let_def .

theorem completion_common_start_witness:
  "prefix ''/wh'' (common_start (candidates False \<lparr>ed_text = ''/wh'', ed_cursor = 3\<rparr> (chat_state_snapshot initial_app_state)))"
proof -
  let ?e = "\<lparr>ed_text = ''/wh'', ed_cursor = 3\<rparr>"
  have "candidates False ?e (chat_state_snapshot initial_app_state) = [''/whisper'']"
    "typed_word ?e = ''/wh''" "at_boundary ''/whisper'' ''/wh''"
    by code_simp+
  with completion_common_start [of ?e False "chat_state_snapshot initial_app_state"] show ?thesis
    by (simp add: MAX_CHAT_MESSAGE_LEN_def protocol_limits Let_def)
qed

end
