(* ===== verification/Chat_Screen.thy ===== *)
theory Chat_Screen
  imports Curses_Input Completion
begin

text \<open>
  Drawing the chat, \<open>put\<close>, \<open>draw_editor\<close> and \<open>render_chat\<close> of \<open>ui/curses_ui.cpp\<close>. What is drawn is a
  list of texts, lines and a cursor position with their places on a screen of \<open>L\<close> lines and \<open>C\<close>
  columns; the second result of \<open>render_chat\<close> is the view with the transcript it has
  computed. Colours are names, whether or not the terminal has them.

  Shown: whatever text has arrived from the network, everything drawn is inside the screen and free
  of control characters; and the rows of the transcript are the wrapped messages.
\<close>

section \<open>Drawing\<close>

datatype palette = Plain | Accent | Muted | Good | Warning | Selected | Bar

text \<open>A colour, and whether it is bold.\<close>

type_synonym attributes = "palette \<times> bool"

datatype draw = Text int int string attributes | HLine int int int | VLine int int int | Cursor int int

definition put :: "term_env \<Rightarrow> int \<Rightarrow> int \<Rightarrow> int \<Rightarrow> int \<Rightarrow> string \<Rightarrow> int \<Rightarrow> attributes \<Rightarrow> draw list" where
  "put W L C y x s width a =
     (if y < 0 \<or> y \<ge> L \<or> x < 0 \<or> x \<ge> C then []
      else [Text y x (fit_text W s (min width (C - x - 1)) False) a])"

definition hrule :: "int \<Rightarrow> int \<Rightarrow> int \<Rightarrow> int \<Rightarrow> int \<Rightarrow> draw list" where
  "hrule L C y x width =
     (if y < 0 \<or> y \<ge> L \<or> x < 0 \<or> x \<ge> C \<or> width < 1 then [] else [HLine y x (min width (C - x - 1))])"

definition too_small :: "term_env \<Rightarrow> int \<Rightarrow> int \<Rightarrow> draw list option" where
  "too_small W L C =
     (if L \<ge> 12 \<and> C \<ge> 40 then None
      else Some (put W L C 0 1 ''chatbox'' (C - 2) (Accent, True) @
                 put W L C 2 1 ''Resize to at least 40 x 12'' (C - 2) (Plain, False) @
                 put W L C 3 1 ''Your draft is preserved.'' (C - 2) (Muted, False) @
                 put W L C (L - 1) 1 ''Esc  Back'' (C - 2) (Muted, False)))"

text \<open>
  \<open>substr(start, cursor - start)\<close>: the difference of two \<open>size_t\<close> is huge when it would be negative.
\<close>

definition shown_before :: "string \<Rightarrow> nat \<Rightarrow> nat \<Rightarrow> string" where
  "shown_before s cursor start = (if start \<le> cursor then take (cursor - start) (drop start s) else drop start s)"

lemma skip_forward_ge: "at \<le> skip_forward s at"
proof (induction s at rule: skip_forward.induct)
  case (1 s at)
  then show ?case by (auto simp: skip_forward.simps [of s at])
qed

function editor_start :: "term_env \<Rightarrow> string \<Rightarrow> nat \<Rightarrow> int \<Rightarrow> nat \<Rightarrow> nat" where
  "editor_start W s cursor width start =
     (if start < cursor \<and> text_width W (shown_before s cursor start) \<ge> width - 1
      then editor_start W s cursor width (skip_forward s (start + 1)) else start)"
  by pat_completeness auto
termination
proof (relation "measure (\<lambda>(W, s, cursor, width, start). cursor - start)")
  fix W s and cursor start :: nat and width :: int
  assume "start < cursor \<and> text_width W (shown_before s cursor start) \<ge> width - 1"
  then show "((W, s, cursor, width, skip_forward s (start + 1)), W, s, cursor, width, start)
      \<in> measure (\<lambda>(W, s, cursor, width, start). cursor - start)"
    using skip_forward_ge [of "start + 1" s] by auto
qed simp

declare editor_start.simps [simp del]

definition draw_editor :: "term_env \<Rightarrow> int \<Rightarrow> int \<Rightarrow> line_editor \<Rightarrow> int \<Rightarrow> int \<Rightarrow> int \<Rightarrow> bool \<Rightarrow> draw list" where
  "draw_editor W L C e y x width secret =
     (let s = (if secret then replicate (length (ed_text e)) (CHR ''*'') else ed_text e);
          start = editor_start W s (ed_cursor e) width 0;
          cursor_x = x + text_width W (shown_before s (ed_cursor e) start)
      in put W L C y x (drop start s) width (Plain, False) @ [Cursor y (min (C - 2) cursor_x)])"

section \<open>The chat\<close>

record chat_view =
  cv_editor :: line_editor
  cv_history :: input_history
  cv_scroll :: scrollback
  cv_lines :: "transcript_line list"
  cv_height :: int
  cv_nickname :: string
  cv_hint :: string
  cv_host :: bool
  cv_help :: bool
  cv_leaving :: bool
  cv_room :: room_id

definition draw_header :: "term_env \<Rightarrow> int \<Rightarrow> int \<Rightarrow> int \<Rightarrow> int \<Rightarrow> chat_view \<Rightarrow> chat_state_snapshot \<Rightarrow> draw list" where
  "draw_header W L C x width view state =
     (let identity = cv_nickname view @ (if cv_host view then '' / host'' else [])
      in put W L C 1 3 ''chatbox'' 20 (Accent, True) @
         put W L C 1 (max 16 (C - text_width W identity - 3)) identity (C - 19) (Muted, False) @
         hrule L C 2 3 (C - 6) @
         put W L C 3 x (''# '' @ (if snap_active_room_name state = [] then ''lobby'' else snap_active_room_name state))
           width (Accent, True) @
         put W L C 4 x (if snap_active_room_topic state = [] then ''Make yourself at home. Say hello.''
           else snap_active_room_topic state) width (Muted, False))"

text \<open>The index of the active room, the last one with its identifier, or 0.\<close>

definition active_index :: "chat_state_snapshot \<Rightarrow> nat" where
  "active_index state =
     fold (\<lambda>(i, r) active. if summary_id r = snap_active_room_id state then i else active)
       (zip [0..<length (snap_rooms state)] (snap_rooms state)) 0"

fun draw_rooms :: "term_env \<Rightarrow> int \<Rightarrow> int \<Rightarrow> room_id \<Rightarrow> int \<Rightarrow> room_summary list \<Rightarrow> int \<Rightarrow> int \<times> draw list" where
  "draw_rooms W L C active slots [] y = (y, [])"
| "draw_rooms W L C active slots (room # rooms) y =
     (if y < 5 + slots
      then let selected = (summary_id room = active);
               label = fit_text W ((if selected then ''> '' else ''  '') @ summary_name room) 16 True;
               label = label @ replicate (nat (max 0 (17 - text_width W label))) CHR '' '' @ word_to_string (summary_user_count room);
               (y', rest) = draw_rooms W L C active slots rooms (y + 1)
           in (y', put W L C y 3 label 20 (if selected then (Selected, True) else (Plain, False)) @ rest)
      else (y, []))"

fun draw_users :: "term_env \<Rightarrow> int \<Rightarrow> int \<Rightarrow> string \<Rightarrow> string list \<Rightarrow> int \<Rightarrow> draw list" where
  "draw_users W L C nick [] y = []"
| "draw_users W L C nick (user # users) y =
     (if y < L - 6
      then if y = L - 7 \<and> users \<noteq> []
           then put W L C y 3 (''+ '' @ nat_to_string (length (user # users)) @ '' more  /users'') 20 (Muted, False)
           else put W L C y 3 (''  '' @ user @ (if user = nick then '' (you)'' else [])) 20
                  (if user = nick then Good else Plain, False) @
                draw_users W L C nick users (y + 1)
      else [])"

definition draw_sidebar :: "term_env \<Rightarrow> int \<Rightarrow> int \<Rightarrow> int \<Rightarrow> chat_view \<Rightarrow> chat_state_snapshot \<Rightarrow> draw list" where
  "draw_sidebar W L C side_width view state =
     (let slots = max 1 ((L - 12) div 2);
          active = active_index state;
          first = (if active \<ge> nat slots then active - nat slots + 1 else 0);
          (y, rooms) = draw_rooms W L C (snap_active_room_id state) slots (drop first (snap_rooms state)) 5;
          (y, none) = (if snap_rooms state = [] then (y + 1, put W L C y 3 ''  # lobby'' 20 (Selected, False)) else (y, []))
      in [VLine 3 side_width (L - 8)] @
         put W L C 3 3 (''ROOMS  '' @ nat_to_string (length (snap_rooms state))) 20 (Muted, True) @
         rooms @ none @
         put W L C y 3 ''F2  Switch room'' 20 (Muted, False) @
         put W L C (y + 2) 3 (''PEOPLE  '' @ nat_to_string (length (snap_users state))) 20 (Muted, True) @
         draw_users W L C (cv_nickname view) (snap_users state) (y + 4))"

text \<open>The lines of message \<open>i\<close>, and of all messages.\<close>

definition message_lines :: "term_env \<Rightarrow> int \<Rightarrow> chat_state_snapshot \<Rightarrow> nat \<Rightarrow> transcript_line list" where
  "message_lines W width state i =
     (let wrapped = wrap_text W (snap_messages state ! i) (width - 2)
      in map (\<lambda>part. \<lparr>tl_message = snap_message_sequence state - of_nat (length (snap_messages state)) + of_nat i,
           tl_part = part, tl_text = wrapped ! part, tl_continuation = (part \<noteq> 0)\<rparr>) [0..<length wrapped])"

definition transcript :: "term_env \<Rightarrow> int \<Rightarrow> chat_state_snapshot \<Rightarrow> transcript_line list" where
  "transcript W width state = concat (map (message_lines W width state) [0..<length (snap_messages state)])"

text \<open>\<open>s.find(pattern, from)\<close>\<close>

fun find_text :: "string \<Rightarrow> string \<Rightarrow> nat option" where
  "find_text pattern [] = (if pattern = [] then Some 0 else None)"
| "find_text pattern (c # s) =
     (if prefix pattern (c # s) then Some 0 else map_option Suc (find_text pattern s))"

definition find_text_from :: "string \<Rightarrow> string \<Rightarrow> nat \<Rightarrow> nat option" where
  "find_text_from pattern s from = map_option (\<lambda>i. i + from) (find_text pattern (drop from s))"

definition message_palette :: "string \<Rightarrow> palette" where
  "message_palette original =
     (if prefix ''[system]'' original then Muted
      else if prefix ''[security]'' original then Warning
      else if find_text ''[whisper'' original \<noteq> None then Accent
      else Plain)"

text \<open>The index into the messages is a difference of 64-bit numbers.\<close>

definition message_index :: "chat_state_snapshot \<Rightarrow> transcript_line \<Rightarrow> nat" where
  "message_index state line =
     unat (tl_message line - (snap_message_sequence state - of_nat (length (snap_messages state))))"

definition draw_row :: "term_env \<Rightarrow> int \<Rightarrow> int \<Rightarrow> int \<Rightarrow> int \<Rightarrow> chat_state_snapshot \<Rightarrow> int \<Rightarrow> transcript_line \<Rightarrow> draw list" where
  "draw_row W L C x width state y line =
     (let original = snap_messages state ! message_index state line;
          attributes = message_palette original;
          indent = (if tl_continuation line then 2 else 0);
          text = tl_text line
      in put W L C y (x + indent) text (width - indent) (attributes, False) @
         (if \<not> tl_continuation line \<and> attributes = Plain \<and> prefix ''['' text
          then let stamp = find_text ''] '' text;
                   name = find_text_from '': '' text (case stamp of None \<Rightarrow> 0 | Some i \<Rightarrow> i + 2)
               in case (stamp, name) of
                    (Some stamp, Some name) \<Rightarrow>
                      put W L C y x (take (stamp + 1) text) width (Muted, False) @
                      put W L C y (x + text_width W (take (stamp + 2) text)) (take (name - stamp) (drop (stamp + 2) text))
                        (width - int stamp - 2) (Accent, True)
                  | _ \<Rightarrow> []
          else []))"

definition draw_transcript :: "term_env \<Rightarrow> int \<Rightarrow> int \<Rightarrow> int \<Rightarrow> int \<Rightarrow> chat_state_snapshot \<Rightarrow> transcript_line list \<Rightarrow> draw list" where
  "draw_transcript W L C x width state shown =
     concat (map (\<lambda>(row, line). draw_row W L C x width state (6 + int row) line) (zip [0..<length shown] shown))"

definition draw_input :: "term_env \<Rightarrow> int \<Rightarrow> int \<Rightarrow> chat_view \<Rightarrow> chat_state_snapshot \<Rightarrow> nat \<Rightarrow> draw list" where
  "draw_input W L C view state start =
     (let following = sb_follow (cv_scroll view); n = length (cv_lines view);
          status = (if following then cv_hint view
                    else ''Reading history  /  '' @ nat_to_string (n - min n (start + nat (cv_height view))) @
                         '' lines below  /  Ctrl+G to latest'');
          status = (if \<not> following \<and> C < 88 then ''History: Ctrl+G latest'' else status);
          status = (if status = [] then ''MESSAGE  #'' @ snap_active_room_name state else status)
      in hrule L C (L - 5) 3 (C - 6) @
         put W L C (L - 4) 3 status (C - 18) (Muted, False) @
         put W L C (L - 4) (C - 13) (nat_to_string (length (ed_text (cv_editor view))) @ ''/'' @ nat_to_string MAX_CHAT_MESSAGE_LEN)
           10 (Muted, False) @
         put W L C (L - 3) 3 ''>'' 2 (Accent, True) @
         (if ed_text (cv_editor view) = [] then put W L C (L - 3) 5 ''Write a message or /command'' (C - 8) (Muted, False) else []) @
         put W L C (L - 1) 3 (if C \<ge> 88
           then ''Enter Send   Tab Complete   PgUp/PgDn History   F2 Rooms   F3 Invite   Esc Leave''
           else ''F2 Rooms F3 Info Esc Leave'') (C - 6) (Muted, False) @
         draw_editor W L C (cv_editor view) (L - 3) 5 (C - 8) False)"

definition help_lines :: "string list" where
  "help_lines = [''Keyboard shortcuts'', '''', ''Enter        Send message'', ''Left / Right Move cursor'',
     ''Home / End   Start / end of input'', ''Up / Down    Sent-message history'',
     ''Tab          Complete command, room or nickname'', ''PgUp / PgDn  Read earlier / later messages'',
     ''Ctrl+G       Jump to latest messages'', ''Ctrl+W       Delete previous word'',
     ''Ctrl+U / K   Delete before / after cursor'', ''F2           Switch rooms'',
     ''/help        Show chat commands'', '''', ''F1 or Esc    Close this panel'']"

definition leave_lines :: "string list" where
  "leave_lines = [''Leave this chat?'', '''', ''Enter  Leave chat'', ''Esc    Keep chatting'']"

definition draw_panel :: "term_env \<Rightarrow> int \<Rightarrow> int \<Rightarrow> chat_view \<Rightarrow> draw list" where
  "draw_panel W L C view =
     (if \<not> cv_help view \<and> \<not> cv_leaving view then []
      else let panel_width = min 66 (C - 6);
               left = (C - panel_width) div 2;
               content = (if cv_leaving view then leave_lines else help_lines);
               count = min (int (length content)) (L - 4);
               panel_top = (L - count - 2) div 2
           in concat (map (\<lambda>y. put W L C y left (replicate (nat panel_width) CHR '' '') panel_width (Bar, False))
                [panel_top..panel_top + count + 1]) @
              concat (map (\<lambda>i. put W L C (panel_top + 1 + int i) (left + 2) (content ! i) (panel_width - 4) (Bar, i = 0))
                [0..<nat count]) @
              (if count < int (length content)
               then put W L C (panel_top + count) (left + 2) ''Esc Close  /help All commands'' (panel_width - 4) (Bar, False)
               else []))"

text \<open>The rows of the transcript that are on the screen.\<close>

definition visible_lines :: "chat_view \<Rightarrow> transcript_line list" where
  "visible_lines view =
     take (nat (cv_height view)) (drop (sb_start (cv_scroll view) (cv_lines view) (cv_height view)) (cv_lines view))"

definition side_width :: "int \<Rightarrow> int" where
  "side_width C = (if C \<ge> 88 then 25 else 0)"

definition chat_width :: "int \<Rightarrow> int" where
  "chat_width C = C - (side_width C + 3) - 3"

definition update_view :: "term_env \<Rightarrow> int \<Rightarrow> int \<Rightarrow> chat_state_snapshot \<Rightarrow> chat_view \<Rightarrow> chat_view" where
  "update_view W L C state view =
     view\<lparr>cv_scroll := (if cv_room view \<noteq> snap_active_room_id state \<or> snap_messages state = []
             then latest (cv_scroll view) else cv_scroll view),
          cv_room := snap_active_room_id state,
          cv_height := max 1 (L - 6 - 5),
          cv_lines := transcript W (chat_width C) state\<rparr>"

definition render_chat :: "term_env \<Rightarrow> int \<Rightarrow> int \<Rightarrow> app_state \<Rightarrow> chat_view \<Rightarrow> draw list \<times> chat_view" where
  "render_chat W L C app view0 =
     (case too_small W L C of
        Some draws \<Rightarrow> (draws, view0)
      | None \<Rightarrow>
          let state = chat_state_snapshot app;
              x = side_width C + 3; width = chat_width C;
              view = update_view W L C state view0
          in (draw_header W L C x width view state @
              (if C \<ge> 88 then draw_sidebar W L C (side_width C) view state else []) @
              (if cv_lines view = []
               then put W L C 7 x ''A fresh conversation'' width (Plain, True) @
                    put W L C 9 x ''Alone? Share an invite (F3) or switch rooms (F2).'' width (Muted, False)
               else []) @
              draw_transcript W L C x width state (visible_lines view) @
              draw_input W L C view state (sb_start (cv_scroll view) (cv_lines view) (cv_height view)) @
              draw_panel W L C view,
              view))"

section \<open>Everything is on the screen\<close>

fun on_screen :: "term_env \<Rightarrow> int \<Rightarrow> int \<Rightarrow> draw \<Rightarrow> bool" where
  "on_screen W L C (Text y x s a) \<longleftrightarrow> 0 \<le> y \<and> y < L \<and> 0 \<le> x \<and> x + text_width W s < C \<and> list_all (\<lambda>c. \<not> iscntrl c) s \<and> printable W s"
| "on_screen W L C (HLine y x n) \<longleftrightarrow> 0 \<le> y \<and> y < L \<and> 0 \<le> x \<and> x + n < C"
| "on_screen W L C (VLine y x n) \<longleftrightarrow> 0 \<le> y \<and> y + n \<le> L \<and> 0 \<le> x \<and> x < C"
| "on_screen W L C (Cursor y x) \<longleftrightarrow> 0 \<le> y \<and> y < L \<and> 0 \<le> x \<and> x < C"

abbreviation drawn_ok :: "term_env \<Rightarrow> int \<Rightarrow> int \<Rightarrow> draw list \<Rightarrow> bool" where
  "drawn_ok W L C \<equiv> list_all (on_screen W L C)"

lemma fit_text_clipped:
  assumes "utf8_laws W"
  shows "fits W (max 0 width) (fit_text W s width False)"
proof (cases "0 < width")
  case True
  then obtain ps where "fit_loop width (glyphs W s) [] 0 = line_of ps" "set ps \<subseteq> set (glyphs W s)" "width_of ps \<le> width"
    using fit_loop_prefix [of width "glyphs W s" "[]"] by auto
  with True glyphs_solid [OF assms, of s] show ?thesis
    by (auto simp: fits_def fit_text_def list_all_iff intro!: exI [of _ ps])
qed (auto simp: fits_def fit_text_def intro!: exI [of _ "[]"])

lemma fitsD: "fits W width s \<Longrightarrow> text_width W s \<le> width \<and> list_all (\<lambda>c. \<not> iscntrl c) s \<and> printable W s"
  by (auto simp: fits_def solid_line line_no_control line_printable)

lemma text_width_nonneg: "utf8_laws W \<Longrightarrow> 0 \<le> text_width W s"
  using width_of_nonneg [OF glyphs_solid] by (simp add: width_text)

lemma put_on_screen: "utf8_laws W \<Longrightarrow> drawn_ok W L C (put W L C y x s width a)"
  using fitsD [OF fit_text_clipped [of W "min width (C - x - 1)" s]] by (auto simp: put_def)

lemma hrule_on_screen: "drawn_ok W L C (hrule L C y x width)"
  by (auto simp: hrule_def)

lemma drawn_concat: "(\<And>x. x \<in> set xs \<Longrightarrow> drawn_ok W L C (f x)) \<Longrightarrow> drawn_ok W L C (concat (map f xs))"
  by (auto simp: list_all_iff)

lemmas drawn_intros = put_on_screen hrule_on_screen

lemma draw_rooms_on_screen: "utf8_laws W \<Longrightarrow> drawn_ok W L C (snd (draw_rooms W L C active slots rooms y))"
  by (induction W L C active slots rooms y rule: draw_rooms.induct)
    (auto simp: Let_def put_on_screen split: prod.splits)

lemma draw_users_on_screen: "utf8_laws W \<Longrightarrow> drawn_ok W L C (draw_users W L C nick users y)"
  by (induction W L C nick users y rule: draw_users.induct) (auto simp: put_on_screen)

lemma draw_sidebar_on_screen:
  assumes "utf8_laws W" "12 \<le> L" "0 \<le> side" "side < C"
  shows "drawn_ok W L C (draw_sidebar W L C side view state)"
proof -
  let ?slots = "max 1 ((L - 12) div 2)"
  let ?first = "if active_index state \<ge> nat ?slots then active_index state - nat ?slots + 1 else 0"
  obtain y rooms where "draw_rooms W L C (snap_active_room_id state) ?slots (drop ?first (snap_rooms state)) 5 = (y, rooms)"
    by fastforce
  moreover from draw_rooms_on_screen [OF assms(1)] this have "drawn_ok W L C rooms" by (metis snd_conv)
  ultimately show ?thesis
    using assms by (simp add: draw_sidebar_def Let_def put_on_screen draw_users_on_screen)
qed

lemma draw_row_on_screen: "utf8_laws W \<Longrightarrow> drawn_ok W L C (draw_row W L C x width state y line)"
  by (simp add: draw_row_def Let_def put_on_screen split: option.split)

lemma draw_editor_on_screen:
  "utf8_laws W \<Longrightarrow> 0 \<le> y \<Longrightarrow> y < L \<Longrightarrow> 0 \<le> x \<Longrightarrow> 2 \<le> C \<Longrightarrow> drawn_ok W L C (draw_editor W L C e y x width secret)"
  by (auto simp: draw_editor_def Let_def put_on_screen text_width_nonneg)

lemma draw_transcript_on_screen: "utf8_laws W \<Longrightarrow> drawn_ok W L C (draw_transcript W L C x width state shown)"
  unfolding draw_transcript_def by (rule drawn_concat) (auto simp: draw_row_on_screen)

lemma draw_panel_on_screen: "utf8_laws W \<Longrightarrow> drawn_ok W L C (draw_panel W L C view)"
  by (simp add: draw_panel_def Let_def put_on_screen drawn_concat)

lemma draw_input_on_screen:
  "utf8_laws W \<Longrightarrow> 12 \<le> L \<Longrightarrow> 40 \<le> C \<Longrightarrow> drawn_ok W L C (draw_input W L C view state start)"
  by (simp add: draw_input_def Let_def drawn_intros draw_editor_on_screen)

lemma draw_header_on_screen: "utf8_laws W \<Longrightarrow> drawn_ok W L C (draw_header W L C x width view state)"
  by (simp add: draw_header_def Let_def drawn_intros)

definition demo_view :: chat_view where
  "demo_view = \<lparr>cv_editor = \<lparr>ed_text = ''hi'', ed_cursor = 2\<rparr>, cv_history = \<lparr>hist_entries = [], hist_position = 0, hist_draft = []\<rparr>,
     cv_scroll = \<lparr>sb_follow = True, sb_message = 0, sb_part = 0\<rparr>, cv_lines = [], cv_height = 1, cv_nickname = ''ann'',
     cv_hint = [], cv_host = False, cv_help = False, cv_leaving = False, cv_room = 0\<rparr>"

text \<open>
  C26: Whatever the network sends is drawn safely. In a UTF-8 locale and for every size of the
  terminal, everything \<open>render_chat\<close> draws (messages, nicknames, rooms and topics from other people
  included) is inside the screen, and every text that reaches the terminal decodes completely, into characters none of which is a control
  character: no byte below 32 and no byte 127, and no character from U+0080 to U+009F, which some terminals take for
  escape sequences too.
\<close>

theorem screen_safe:
  assumes "utf8_laws W"
  shows "list_all (on_screen W L C) (fst (render_chat W L C app view))"
proof (cases "12 \<le> L \<and> 40 \<le> C")
  case True
  then show ?thesis
    using assms
    by (simp add: render_chat_def too_small_def Let_def put_on_screen draw_header_on_screen draw_sidebar_on_screen
        draw_transcript_on_screen draw_input_on_screen draw_panel_on_screen side_width_def)
next
  case False
  with assms show ?thesis by (auto simp: render_chat_def too_small_def put_on_screen)
qed

theorem screen_safe_witness:
  "list_all (on_screen ascii_env 24 80) (fst (render_chat ascii_env 24 80
     (push_message (CHR 0x1B # ''[2Jgotcha'') initial_app_state) demo_view))"
  by (rule screen_safe [OF ascii_env_laws])

section \<open>The transcript\<close>

lemma unat_of_nat_u64: "n < 2 ^ 64 \<Longrightarrow> unat (of_nat n :: u64) = n"
  by (simp add: unsigned_of_nat take_bit_nat_eq_self)

lemma message_lines_props:
  assumes "line \<in> set (message_lines W width state i)" "i < length (snap_messages state)" "length (snap_messages state) \<le> 200"
  shows "message_index state line = i" "tl_part line < length (wrap_text W (snap_messages state ! i) (width - 2))"
    "tl_text line = wrap_text W (snap_messages state ! i) (width - 2) ! tl_part line"
proof -
  have "unat (of_nat i :: u64) = i" using assms(2,3) by (intro unat_of_nat_u64) simp
  with assms(1) show "message_index state line = i" "tl_part line < length (wrap_text W (snap_messages state ! i) (width - 2))"
    "tl_text line = wrap_text W (snap_messages state ! i) (width - 2) ! tl_part line"
    by (auto simp: message_lines_def Let_def message_index_def)
qed

lemma ordered_append:
  "ordered (xs @ ys) \<longleftrightarrow> ordered xs \<and> ordered ys \<and> (\<forall>a \<in> set xs. \<forall>b \<in> set ys. anchor_less (line_anchor a) (line_anchor b))"
  by (simp add: ordered_def sorted_wrt_append)

lemma sequence_number:
  assumes "i < n" "n \<le> unat (seq :: u64)"
  shows "unat (seq - of_nat n + of_nat i) = unat seq - n + i"
proof -
  have small: "unat seq < 2 ^ 64" using unsigned_less [of seq] by simp
  with assms have n: "unat (of_nat n :: u64) = n" by (intro unat_of_nat_u64) simp
  with assms(2) have "unat (seq - of_nat n) = unat seq - n" by (simp add: unat_sub word_le_nat_alt)
  moreover have "unat (of_nat i :: u64) = i" using assms small by (intro unat_of_nat_u64) simp
  ultimately show ?thesis using assms small by (subst unat_add_lem [THEN iffD1]) simp_all
qed

lemma ordered_transcript_upto:
  assumes "length (snap_messages state) \<le> unat (snap_message_sequence state)" "m \<le> length (snap_messages state)"
  shows "ordered (concat (map (message_lines W width state) [0..<m]))"
  using assms(2)
proof (induction m)
  case (Suc m)
  let ?n = "length (snap_messages state)" and ?seq = "snap_message_sequence state"
  have less: "?seq - of_nat ?n + of_nat i < ?seq - of_nat ?n + of_nat m" if "i < m" for i
    using that Suc.prems assms(1) sequence_number [of i ?n ?seq] sequence_number [of m ?n ?seq]
    by (simp add: word_less_nat_alt)
  have "ordered (message_lines W width state m)"
    by (simp add: ordered_def message_lines_def Let_def sorted_wrt_map anchor_less_def line_anchor_def)
  moreover have "anchor_less (line_anchor a) (line_anchor b)"
    if "a \<in> set (message_lines W width state i)" "i < m" "b \<in> set (message_lines W width state m)" for a b i
    using that less [of i] by (auto simp: message_lines_def Let_def anchor_less_def line_anchor_def)
  ultimately show ?case using Suc by (auto simp: ordered_append)
qed (simp add: ordered_def)

lemma following_shows_tail:
  assumes "sb_follow (cv_scroll view)" "1 \<le> cv_height view"
  shows "visible_lines view = last_n (nat (cv_height view)) (cv_lines view)"
  using assms by (auto simp: visible_lines_def sb_start_def Let_def last_n_def max_def)

lemma transcript_texts:
  "map tl_text (transcript W width state) = concat (map (\<lambda>m. wrap_text W m (width - 2)) (snap_messages state))"
proof -
  have "map tl_text (message_lines W width state i) = wrap_text W (snap_messages state ! i) (width - 2)" for i
    by (simp add: message_lines_def Let_def comp_def map_nth)
  then have "map tl_text (transcript W width state) =
      concat (map (\<lambda>m. wrap_text W m (width - 2)) (map ((!) (snap_messages state)) [0..<length (snap_messages state)]))"
    by (simp add: transcript_def map_concat comp_def)
  then show ?thesis by (simp only: map_nth)
qed

lemma draw_transcript_rows:
  "i < length shown \<Longrightarrow> set (draw_row W L C x width state (6 + int i) (shown ! i)) \<subseteq> set (draw_transcript W L C x width state shown)"
  by (force simp: draw_transcript_def in_set_zip)

text \<open>
  The screen shows the messages. On a terminal that is large enough, the lines of the transcript are the
  wrapped texts of all the messages that are held, in their order; each line belongs to one of
  them (so the lookup of its message is in range) and shows that part of its wrapped text; the lines are
  in the order the scroll position relies on; each row that is visible is drawn below the one before;
  and while the view follows the conversation, the rows are the last lines of the transcript, as many as fit.
\<close>

theorem transcript_shows_messages:
  fixes app
  assumes "12 \<le> L" "40 \<le> C" "length (g_messages app) \<le> MAX_MESSAGES" "length (g_messages app) \<le> unat (g_message_sequence app)"
  shows "let view' = snd (render_chat W L C app view); state = chat_state_snapshot app in
    map tl_text (cv_lines view') = concat (map (\<lambda>m. wrap_text W m (chat_width C - 2)) (g_messages app)) \<and>
    (\<forall>i < length (visible_lines view').
       set (draw_row W L C (side_width C + 3) (chat_width C) state (6 + int i) (visible_lines view' ! i))
         \<subseteq> set (fst (render_chat W L C app view))) \<and>
    (\<forall>line \<in> set (cv_lines view'). message_index state line < length (g_messages app) \<and>
       (let wrapped = wrap_text W (g_messages app ! message_index state line) (chat_width C - 2)
        in tl_part line < length wrapped \<and> tl_text line = wrapped ! tl_part line)) \<and>
    ordered (cv_lines view') \<and>
    (sb_follow (cv_scroll view') \<longrightarrow> visible_lines view' = last_n (nat (L - 11)) (cv_lines view'))"
proof -
  let ?state = "chat_state_snapshot app"
  have state: "snap_messages ?state = g_messages app" "snap_message_sequence ?state = g_message_sequence app"
    by (simp_all add: chat_state_snapshot_def)
  have view: "snd (render_chat W L C app view) = update_view W L C ?state view"
    using assms(1,2) by (simp add: render_chat_def too_small_def Let_def)
  have height: "cv_height (update_view W L C ?state view) = L - 11" using assms(1) by (simp add: update_view_def)
  have "message_index ?state line < length (g_messages app) \<and>
       (let wrapped = wrap_text W (g_messages app ! message_index ?state line) (chat_width C - 2)
        in tl_part line < length wrapped \<and> tl_text line = wrapped ! tl_part line)"
    if "line \<in> set (transcript W (chat_width C) ?state)" for line
    using that message_lines_props [of line W "chat_width C" ?state] assms(3)
    by (auto simp: transcript_def state Let_def MAX_MESSAGES_def)
  moreover have "ordered (transcript W (chat_width C) ?state)"
    unfolding transcript_def using assms(4) by (intro ordered_transcript_upto) (simp_all add: state)
  moreover
  have "set (draw_transcript W L C (side_width C + 3) (chat_width C) ?state (visible_lines (update_view W L C ?state view)))
      \<subseteq> set (fst (render_chat W L C app view))"
    using assms(1,2) by (simp add: render_chat_def too_small_def Let_def) blast
  then have "\<forall>i < length (visible_lines (update_view W L C ?state view)).
      set (draw_row W L C (side_width C + 3) (chat_width C) ?state (6 + int i) (visible_lines (update_view W L C ?state view) ! i))
        \<subseteq> set (fst (render_chat W L C app view))"
    using draw_transcript_rows by blast
  ultimately show ?thesis
    unfolding view Let_def
    using assms(1) height following_shows_tail [of "update_view W L C ?state view"]
    by (simp add: update_view_def Let_def transcript_texts state)
qed

theorem transcript_shows_messages_witness:
  "let app = push_message ''[12:00] bob: hello'' initial_app_state; view = snd (render_chat ascii_env 24 80 app demo_view)
   in ordered (cv_lines view) \<and> visible_lines view = last_n 13 (cv_lines view)"
proof -
  let ?app = "push_message ''[12:00] bob: hello'' initial_app_state"
  have "length (g_messages ?app) \<le> MAX_MESSAGES" "length (g_messages ?app) \<le> unat (g_message_sequence ?app)"
    by (simp_all add: push_message_def initial_app_state_def MAX_MESSAGES_def)
  from transcript_shows_messages [OF _ _ this, of 24 80 ascii_env demo_view]
  have "ordered (cv_lines (snd (render_chat ascii_env 24 80 ?app demo_view)))"
    "sb_follow (cv_scroll (snd (render_chat ascii_env 24 80 ?app demo_view))) \<longrightarrow>
      visible_lines (snd (render_chat ascii_env 24 80 ?app demo_view)) = last_n 13 (cv_lines (snd (render_chat ascii_env 24 80 ?app demo_view)))"
    by (simp_all add: Let_def)
  moreover have "sb_follow (cv_scroll (snd (render_chat ascii_env 24 80 ?app demo_view)))"
    by (simp add: render_chat_def too_small_def Let_def update_view_def demo_view_def latest_def)
  ultimately show ?thesis by (simp add: Let_def)
qed

section \<open>The cursor\<close>

text \<open>The cursor of the input line is inside its field, if it is between two characters.\<close>

lemma skip_forward_to: "at \<le> k \<Longrightarrow> k \<le> length s \<Longrightarrow> clean (drop k s) \<Longrightarrow> skip_forward s at \<le> k"
proof (induction s at rule: skip_forward.induct)
  case (1 s at)
  show ?case
  proof (cases "at < length s \<and> continuation (s ! at)")
    case True
    with "1.prems" have "at \<noteq> k" by (auto simp: clean_def hd_drop_conv_nth)
    with 1 True show ?thesis by (simp add: skip_forward.simps [of s at])
  next
    case False
    with "1.prems" show ?thesis by (auto simp: skip_forward.simps [of s at])
  qed
qed

lemma cursor_in_field:
  assumes "utf8_laws W" "cursor \<le> length s" "clean (drop cursor s)" "start \<le> cursor" "2 \<le> width"
  shows "text_width W (shown_before s cursor (editor_start W s cursor width start)) < width - 1"
  using assms
proof (induction W s cursor width start rule: editor_start.induct)
  case (1 W s cursor width start)
  show ?case
  proof (cases "start < cursor \<and> text_width W (shown_before s cursor start) \<ge> width - 1")
    case True
    with "1.prems" have "skip_forward s (start + 1) \<le> cursor" by (intro skip_forward_to) auto
    with 1 True show ?thesis by (subst editor_start.simps) simp
  next
    case False
    with "1.prems" show ?thesis by (subst editor_start.simps) (auto simp: shown_before_def text_width_def)
  qed
qed

end
