(* ===== verification/Setup_Screens.thy ===== *)
theory Setup_Screens
  imports Chat_Screen
begin

text \<open>
  What the menus, forms and notices of \<open>ui/curses_ui.cpp\<close> draw: \<open>page\<close> and the drawing parts of
  \<open>choose_curses_menu\<close>, \<open>edit_curses_form\<close> and \<open>show_curses_notice\<close>, whose loops are in
  \<open>Curses_Input\<close>. Each page is the list of what is drawn for a state of its loop.

  Shown: everything is inside the screen and free of control characters; a password is only ever drawn as
  stars; the selected entry is always on the page, apart from the other parts of it; and every line of a long
  notice comes into view by scrolling.
\<close>

section \<open>The model\<close>

definition page :: "term_env \<Rightarrow> int \<Rightarrow> int \<Rightarrow> string \<Rightarrow> string \<Rightarrow> string \<Rightarrow> draw list" where
  "page W L C title subtitle footer =
     put W L C 1 3 ''chatbox'' (C - 6) (Accent, True) @
     hrule L C 3 3 (C - 6) @
     put W L C 5 3 title (C - 6) (Plain, True) @
     put W L C 6 3 subtitle (C - 6) (Muted, False) @
     put W L C (L - 2) 3 footer (C - 6) (Muted, False)"

subsection \<open>Menus\<close>

definition menu_top :: "int \<Rightarrow> int" where
  "menu_top L = (if L \<ge> 20 then 8 else 7)"

definition menu_stride :: "int \<Rightarrow> int" where
  "menu_stride L = (if L \<ge> 20 then 3 else 1)"

definition menu_slots :: "int \<Rightarrow> nat" where
  "menu_slots L = nat (max 1 ((L - menu_top L - 3) div menu_stride L))"

definition menu_label :: "term_env \<Rightarrow> int \<Rightarrow> bool \<Rightarrow> menu_item \<Rightarrow> string" where
  "menu_label W C chosen item =
     (let label = (if chosen then '' > '' else ''   '') @
            (case mi_shortcut item of None \<Rightarrow> [] | Some c \<Rightarrow> toupper c # ''  '') @ mi_title item;
          label = fit_text W label (C - 8) False
      in label @ replicate (nat (max 0 (min 64 (C - 8) - text_width W label))) CHR '' '')"

definition draw_item :: "term_env \<Rightarrow> int \<Rightarrow> int \<Rightarrow> nat \<Rightarrow> nat \<Rightarrow> nat \<Rightarrow> menu_item \<Rightarrow> draw list" where
  "draw_item W L C selected first i item =
     (let y = menu_top L + int (i - first) * menu_stride L in
      put W L C y 3 (menu_label W C (i = selected) item) (C - 6) (if i = selected then (Selected, True) else (Plain, False)) @
      (if L \<ge> 20 then put W L C (y + 1) 8 (mi_description item) (C - 12) (Muted, False) else []))"

definition menu_page :: "term_env \<Rightarrow> int \<Rightarrow> int \<Rightarrow> string \<Rightarrow> string \<Rightarrow> menu_item list \<Rightarrow> nat \<Rightarrow> draw list" where
  "menu_page W L C title subtitle items selected =
     (case too_small W L C of
        Some draws \<Rightarrow> draws
      | None \<Rightarrow>
          let slots = menu_slots L; first = (selected div slots) * slots
          in page W L C title subtitle ''Up/Down Enter Esc Back F4 Details'' @
             concat (map (\<lambda>i. draw_item W L C selected first i (items ! i)) [first..<min (length items) (first + slots)]))"

subsection \<open>Forms\<close>

text \<open>A secret value is a star for each of its bytes.\<close>

definition shown_value :: "curses_field \<Rightarrow> string" where
  "shown_value f = (if cf_secret f then replicate (length (cf_value f)) (CHR ''*'') else cf_value f)"

definition form_slots :: "int \<Rightarrow> nat" where
  "form_slots L = nat (max 1 ((L - 11) div 3))"

definition field_row :: "int \<Rightarrow> nat \<Rightarrow> nat \<Rightarrow> int" where
  "field_row L first i = (if L < 15 then 7 else 8 + int (i - first) * 3)"

definition draw_field :: "term_env \<Rightarrow> int \<Rightarrow> int \<Rightarrow> nat \<Rightarrow> nat \<Rightarrow> nat \<Rightarrow> curses_field \<Rightarrow> draw list" where
  "draw_field W L C selected first i f =
     (let y = field_row L first i in
      put W L C y 3 (cf_label f @ (if cf_toggle f then ''  [Left/Right to change]'' else [])) (C - 6)
        (if i = selected then (Accent, True) else (Muted, False)) @
      (if i = selected then [] else put W L C (y + 1) 5 (shown_value f) (C - 8) (Plain, False)))"

text \<open>The page of a form whose value in the line has been kept.\<close>

definition form_page :: "term_env \<Rightarrow> int \<Rightarrow> int \<Rightarrow> string \<Rightarrow> string \<Rightarrow> form_state \<Rightarrow> draw list" where
  "form_page W L C title subtitle s =
     (case too_small W L C of
        Some draws \<Rightarrow> draws
      | None \<Rightarrow>
          let slots = form_slots L; selected = fs_selected s; fields = fs_fields s; field = fields ! selected;
              first = (selected div slots) * slots;
              y = (if selected < length fields then field_row L first selected + 1 else 9)
          in page W L C title subtitle ''Tab Next Enter Done Esc Back F4 Help'' @
             concat (map (\<lambda>i. draw_field W L C selected first i (fields ! i)) [first..<min (length fields) (first + slots)]) @
             put W L C (L - 3) 3
               (if fs_error s = [] then ''Field '' @ nat_to_string (selected + 1) @ '' of '' @ nat_to_string (length fields) else fs_error s)
               (C - 6) (if fs_error s = [] then Muted else Warning, False) @
             put W L C y 3 ''>'' 2 (Accent, False) @
             (if cf_toggle field
              then put W L C y 5 (if ed_text (fs_editor s) = ''yes'' then ''Yes'' else ''No'') (C - 8) (Plain, True)
              else draw_editor W L C (fs_editor s) y 5 (C - 8) (cf_secret field)))"

subsection \<open>Notices\<close>

definition notice_rows :: "int \<Rightarrow> int" where
  "notice_rows L = max 1 (L - 6 - 3)"

text \<open>How far a notice can be scrolled, \<open>max_offset\<close>.\<close>

definition notice_extent :: "int \<Rightarrow> string list \<Rightarrow> int" where
  "notice_extent L lines = max 0 (int (length lines) - notice_rows L)"

definition notice_shown :: "int \<Rightarrow> string list \<Rightarrow> int \<Rightarrow> string list" where
  "notice_shown L lines offset = take (nat (notice_rows L)) (drop (nat (clamp offset 0 (notice_extent L lines))) lines)"

definition notice_page :: "term_env \<Rightarrow> int \<Rightarrow> int \<Rightarrow> string \<Rightarrow> string \<Rightarrow> bool \<Rightarrow> int \<Rightarrow> draw list" where
  "notice_page W L C title detail wait offset =
     (case too_small W L C of
        Some draws \<Rightarrow> draws
      | None \<Rightarrow>
          let lines = wrap_text W detail (C - 6); shown = notice_shown L lines offset
          in page W L C title []
               (if \<not> wait then ''Please wait...''
                else if notice_extent L lines > 0 then ''Up/Down: scroll | Enter/Esc: back'' else ''Enter Continue   Esc Back'') @
             concat (map (\<lambda>row. put W L C (6 + int row) 3 (shown ! row) (C - 6) (Plain, False)) [0..<length shown]))"

section \<open>Everything is on the screen\<close>

lemma too_small_cases:
  assumes "utf8_laws W"
  obtains draws where "too_small W L C = Some draws" "drawn_ok W L C draws"
    | "too_small W L C = None" "12 \<le> L" "40 \<le> C"
  using assms put_on_screen by (cases "12 \<le> L \<and> 40 \<le> C") (auto simp: too_small_def)

lemma page_on_screen: "utf8_laws W \<Longrightarrow> drawn_ok W L C (page W L C title subtitle footer)"
  by (simp add: page_def drawn_intros)

lemma draw_item_on_screen: "utf8_laws W \<Longrightarrow> drawn_ok W L C (draw_item W L C selected first i item)"
  by (simp add: draw_item_def Let_def drawn_intros)

lemma draw_field_on_screen: "utf8_laws W \<Longrightarrow> drawn_ok W L C (draw_field W L C selected first i f)"
  by (simp add: draw_field_def Let_def drawn_intros)

lemma field_row_bounds:
  assumes "12 \<le> L" "i < first + form_slots L" "first \<le> i"
  shows "7 \<le> field_row L first i" "field_row L first i + 1 < L - 3"
proof -
  have "int (i - first) < (L - 11) div 3" if "15 \<le> L"
    using assms(2,3) that by (auto simp: form_slots_def)
  then show "7 \<le> field_row L first i" "field_row L first i + 1 < L - 3"
    using assms by (auto simp: field_row_def)
qed

lemma page_of_selected:
  fixes selected slots :: nat
  assumes "0 < slots"
  shows "(selected div slots) * slots \<le> selected" "selected < (selected div slots) * slots + slots"
  using assms div_times_less_eq_dividend [of selected slots] mod_less_divisor [OF assms, of selected]
    div_mult_mod_eq [of selected slots] by linarith+

lemma slots_pos: "0 < menu_slots L" "0 < form_slots L"
  by (simp_all add: menu_slots_def form_slots_def)

lemma form_page_on_screen:
  assumes "utf8_laws W"
  shows "drawn_ok W L C (form_page W L C title subtitle s)"
proof (cases rule: too_small_cases [OF assms, of L C])
  case 2
  let ?first = "(fs_selected s div form_slots L) * form_slots L"
  have "0 \<le> field_row L ?first (fs_selected s) + 1 \<and> field_row L ?first (fs_selected s) + 1 < L"
    using field_row_bounds [OF 2(2), of "fs_selected s" ?first] page_of_selected [OF slots_pos(2), of "fs_selected s" L] by auto
  with 2 assms show ?thesis
    by (simp add: form_page_def Let_def drawn_intros page_on_screen draw_field_on_screen drawn_concat draw_editor_on_screen)
qed (simp add: form_page_def)

lemma menu_page_on_screen: "utf8_laws W \<Longrightarrow> drawn_ok W L C (menu_page W L C title subtitle items selected)"
  by (rule too_small_cases [of W L C])
    (simp_all add: menu_page_def Let_def page_on_screen draw_item_on_screen drawn_concat)

lemma notice_page_on_screen: "utf8_laws W \<Longrightarrow> drawn_ok W L C (notice_page W L C title detail wait offset)"
  by (rule too_small_cases [of W L C])
    (simp_all add: notice_page_def Let_def page_on_screen put_on_screen drawn_concat)

text \<open>
  Menus, forms and notices are drawn safely. In a UTF-8 locale, for every size of the terminal, whatever the titles, entries,
  values and details are (names of servers from a directory and reasons from a server among them), everything drawn is
  inside the screen and no text contains a control character.
\<close>

theorem pages_safe:
  assumes "utf8_laws W"
  shows "list_all (on_screen W L C) (menu_page W L C title subtitle items selected) \<and>
    list_all (on_screen W L C) (form_page W L C title subtitle s) \<and>
    list_all (on_screen W L C) (notice_page W L C title detail wait offset)"
  using assms by (simp add: menu_page_on_screen form_page_on_screen notice_page_on_screen)

theorem pages_safe_witness:
  "list_all (on_screen ascii_env 24 80) (notice_page ascii_env 24 80 ''Session ended'' (CHR 0x1B # ''[2Jgotcha'') True 0)"
  using pages_safe [OF ascii_env_laws] by blast

section \<open>Passwords\<close>

text \<open>A form as someone looking at the screen may know it: secrets are replaced by stars.\<close>

definition conceal :: "form_state \<Rightarrow> form_state" where
  "conceal s = s\<lparr>fs_fields := map (\<lambda>f. f\<lparr>cf_value := shown_value f\<rparr>) (fs_fields s),
     fs_editor := (if cf_secret (fs_fields s ! fs_selected s)
       then (fs_editor s)\<lparr>ed_text := replicate (length (ed_text (fs_editor s))) (CHR ''*'')\<rparr> else fs_editor s)\<rparr>"

lemma draw_field_conceal: "draw_field W L C selected first i (f\<lparr>cf_value := shown_value f\<rparr>) = draw_field W L C selected first i f"
  by (simp add: draw_field_def shown_value_def Let_def)

lemma draw_editor_conceal:
  "draw_editor W L C (e\<lparr>ed_text := replicate (length (ed_text e)) (CHR ''*'')\<rparr>) y x width True = draw_editor W L C e y x width True"
  by (simp add: draw_editor_def)

lemma form_page_conceal:
  assumes "fs_selected s < length (fs_fields s)" "\<not> (cf_secret (fs_fields s ! fs_selected s) \<and> cf_toggle (fs_fields s ! fs_selected s))"
  shows "form_page W L C title subtitle (conceal s) = form_page W L C title subtitle s"
proof -
  have fields: "map (\<lambda>i. draw_field W L C selected first i (map (\<lambda>f. f\<lparr>cf_value := shown_value f\<rparr>) (fs_fields s) ! i)) [first..<min (length (fs_fields s)) n] =
      map (\<lambda>i. draw_field W L C selected first i (fs_fields s ! i)) [first..<min (length (fs_fields s)) n]" for selected first n
    by (rule map_cong) (auto simp: draw_field_conceal)
  from assms show ?thesis
    by (cases "cf_secret (fs_fields s ! fs_selected s)")
      (simp_all add: form_page_def conceal_def Let_def draw_editor_conceal fields cong: if_cong split del: if_split split: option.split)
qed

lemma conceal_same:
  assumes "conceal s = conceal s'" "fs_selected s < length (fs_fields s)"
    and "\<not> (cf_secret (fs_fields s ! fs_selected s) \<and> cf_toggle (fs_fields s ! fs_selected s))"
  shows "form_page W L C title subtitle s = form_page W L C title subtitle s'"
proof -
  from assms(1) have same: "map (\<lambda>f. f\<lparr>cf_value := shown_value f\<rparr>) (fs_fields s) = map (\<lambda>f. f\<lparr>cf_value := shown_value f\<rparr>) (fs_fields s')"
    "fs_selected s = fs_selected s'"
    by (auto simp: conceal_def dest: arg_cong [of _ _ fs_fields] arg_cong [of _ _ fs_selected])
  from arg_cong [OF same(1), of length] have len: "length (fs_fields s) = length (fs_fields s')" by simp
  from arg_cong [OF same(1), of "\<lambda>l. l ! fs_selected s"] assms(2) len same(2)
  have "(fs_fields s ! fs_selected s)\<lparr>cf_value := shown_value (fs_fields s ! fs_selected s)\<rparr> =
      (fs_fields s' ! fs_selected s')\<lparr>cf_value := shown_value (fs_fields s' ! fs_selected s')\<rparr>" (is "?f = ?f'") by simp
  from arg_cong [OF this, of cf_secret] arg_cong [OF this, of cf_toggle]
  have "cf_secret (fs_fields s' ! fs_selected s') = cf_secret (fs_fields s ! fs_selected s)"
    "cf_toggle (fs_fields s' ! fs_selected s') = cf_toggle (fs_fields s ! fs_selected s)" by simp_all
  with assms same(2) len show ?thesis by (metis form_page_conceal)
qed

text \<open>
  Two forms that differ in nothing but the values of secret fields and, while a secret field is being edited, the text in
  its line, with the same lengths.
\<close>

definition differ_in_secrets :: "form_state \<Rightarrow> form_state \<Rightarrow> bool" where
  "differ_in_secrets s s' \<longleftrightarrow> fs_selected s' = fs_selected s \<and> fs_error s' = fs_error s \<and>
     list_all2 (\<lambda>f f'. f' = f\<lparr>cf_value := cf_value f'\<rparr> \<and>
       (if cf_secret f then length (cf_value f') = length (cf_value f) else cf_value f' = cf_value f)) (fs_fields s) (fs_fields s') \<and>
     ed_cursor (fs_editor s') = ed_cursor (fs_editor s) \<and>
     (if cf_secret (fs_fields s ! fs_selected s) then length (ed_text (fs_editor s')) = length (ed_text (fs_editor s))
      else ed_text (fs_editor s') = ed_text (fs_editor s))"

lemma concealed_field:
  assumes "f' = f\<lparr>cf_value := cf_value f'\<rparr>" "if cf_secret f then length (cf_value f') = length (cf_value f) else cf_value f' = cf_value f"
  shows "f'\<lparr>cf_value := shown_value f'\<rparr> = f\<lparr>cf_value := shown_value f\<rparr> \<and> cf_secret f' = cf_secret f"
  using assms by (cases f; cases f') (auto simp: shown_value_def)

lemma differ_conceal:
  assumes "differ_in_secrets s s'" "fs_selected s < length (fs_fields s)"
  shows "conceal s = conceal s'"
proof -
  have all: "list_all2 (\<lambda>f f'. f'\<lparr>cf_value := shown_value f'\<rparr> = f\<lparr>cf_value := shown_value f\<rparr> \<and> cf_secret f' = cf_secret f) (fs_fields s) (fs_fields s')"
    by (rule list_all2_mono [OF assms(1) [unfolded differ_in_secrets_def, THEN conjunct2, THEN conjunct2, THEN conjunct1]])
      (use concealed_field in blast)
  then have fields: "map (\<lambda>f. f\<lparr>cf_value := shown_value f\<rparr>) (fs_fields s') = map (\<lambda>f. f\<lparr>cf_value := shown_value f\<rparr>) (fs_fields s)"
    by (induction rule: list_all2_induct) simp_all
  have "cf_secret (fs_fields s' ! fs_selected s) = cf_secret (fs_fields s ! fs_selected s)"
    using list_all2_nthD [OF all assms(2)] by simp
  moreover have "fs_selected s' = fs_selected s" "fs_error s' = fs_error s" "ed_cursor (fs_editor s') = ed_cursor (fs_editor s)"
    "if cf_secret (fs_fields s ! fs_selected s) then length (ed_text (fs_editor s')) = length (ed_text (fs_editor s))
     else ed_text (fs_editor s') = ed_text (fs_editor s)"
    using assms(1) unfolding differ_in_secrets_def by blast+
  ultimately show ?thesis using fields
    by (cases s; cases s'; cases "fs_editor s"; cases "fs_editor s'") (auto simp: conceal_def split: if_splits)
qed

text \<open>
  C34: Passwords are not shown. Two forms that differ in nothing but the values of their secret fields, with the same
  lengths, are drawn in exactly the same way, whether the secret field is being edited or not: nothing but
  its length can be read off the screen.
\<close>

theorem password_not_drawn:
  assumes "differ_in_secrets s s'" "fs_selected s < length (fs_fields s)"
    and "\<not> (cf_secret (fs_fields s ! fs_selected s) \<and> cf_toggle (fs_fields s ! fs_selected s))"
  shows "form_page W L C title subtitle s = form_page W L C title subtitle s'"
  using conceal_same [OF differ_conceal [OF assms(1,2)] assms(2,3)] .

definition password_prompt :: "string \<Rightarrow> form_state" where
  "password_prompt s = \<lparr>fs_fields = [field_default\<lparr>cf_label := ''Password'', cf_value := s, cf_secret := True\<rparr>],
     fs_selected = 0, fs_editor = \<lparr>ed_text = s, ed_cursor = length s\<rparr>, fs_error = []\<rparr>"

definition port_and_password :: "string \<Rightarrow> form_state" where
  "port_and_password s = (password_prompt [])\<lparr>fs_fields := [field_default\<lparr>cf_label := ''Port'', cf_value := ''7777''\<rparr>,
     field_default\<lparr>cf_label := ''Password'', cf_value := s, cf_secret := True\<rparr>]\<rparr>"

text \<open>A password in a form where another field is being edited, and one in a prompt.\<close>

theorem password_not_drawn_witness:
  "form_page ascii_env 24 80 ''Server password'' [] (password_prompt ''hunter2'') =
   form_page ascii_env 24 80 ''Server password'' [] (password_prompt ''letmein'') \<and>
   form_page ascii_env 24 80 ''Host'' [] (port_and_password ''hunter2'') = form_page ascii_env 24 80 ''Host'' [] (port_and_password ''letmein'')"
  using password_not_drawn [of "password_prompt ''hunter2''" "password_prompt ''letmein''" ascii_env 24 80 "''Server password''" "[]"]
    password_not_drawn [of "port_and_password ''hunter2''" "port_and_password ''letmein''" ascii_env 24 80 "''Host''" "[]"]
  by (simp add: differ_in_secrets_def password_prompt_def port_and_password_def field_default_def)

section \<open>The selection\<close>

lemma menu_row_bounds:
  assumes "12 \<le> L" "i < first + menu_slots L" "first \<le> i"
  shows "7 \<le> menu_top L + int (i - first) * menu_stride L" "menu_top L + int (i - first) * menu_stride L + 1 < L - 2"
proof -
  have "int (i - first) < max 1 ((L - menu_top L - 3) div menu_stride L)"
    using assms(2,3) by (simp add: menu_slots_def)
  with assms(1) show "7 \<le> menu_top L + int (i - first) * menu_stride L" "menu_top L + int (i - first) * menu_stride L + 1 < L - 2"
    by (auto simp: menu_top_def menu_stride_def)
qed

lemma menu_shows_item:
  assumes "12 \<le> L" "40 \<le> C" "selected < length items"
  shows "set (draw_item W L C selected ((selected div menu_slots L) * menu_slots L) selected (items ! selected))
    \<subseteq> set (menu_page W L C title subtitle items selected)"
  using assms page_of_selected [OF slots_pos(1), of selected L]
  by (force simp: menu_page_def too_small_def Let_def)

text \<open>
  The selection is on the page. On a terminal that is large enough, the selected entry of a menu of any length is drawn,
  marked, below the titles and above the line with the keys; and in a form of any length the field
  being edited has its line below the titles and above the line for errors, and its cursor in that line.
\<close>

theorem selection_visible:
  assumes "12 \<le> L" "40 \<le> C" "selected < length items" "fs_selected s < length (fs_fields s)"
  shows "(\<exists>y. 7 \<le> y \<and> y < L - 2 \<and> Text y 3 (fit_text W (menu_label W C True (items ! selected)) (C - 6) False) (Selected, True)
      \<in> set (menu_page W L C title subtitle items selected)) \<and>
    (\<exists>y. 7 < y \<and> y < L - 3 \<and> (\<not> cf_toggle (fs_fields s ! fs_selected s) \<longrightarrow>
      set (draw_editor W L C (fs_editor s) y 5 (C - 8) (cf_secret (fs_fields s ! fs_selected s)))
        \<subseteq> set (form_page W L C title subtitle s)))"
proof
  let ?first = "(selected div menu_slots L) * menu_slots L"
  let ?y = "menu_top L + int (selected - ?first) * menu_stride L"
  have bounds: "7 \<le> ?y" "?y + 1 < L - 2"
    using menu_row_bounds [OF assms(1)] page_of_selected [OF slots_pos(1), of selected L] by blast+
  with assms have "Text ?y 3 (fit_text W (menu_label W C True (items ! selected)) (C - 6) False) (Selected, True)
      \<in> set (draw_item W L C selected ?first selected (items ! selected))"
    by (simp add: draw_item_def put_def Let_def min_def)
  with menu_shows_item [OF assms(1-3)] bounds
  show "\<exists>y. 7 \<le> y \<and> y < L - 2 \<and> Text y 3 (fit_text W (menu_label W C True (items ! selected)) (C - 6) False) (Selected, True)
      \<in> set (menu_page W L C title subtitle items selected)"
    by (intro exI [of _ ?y]) auto
next
  let ?first = "(fs_selected s div form_slots L) * form_slots L"
  let ?y = "field_row L ?first (fs_selected s) + 1"
  have "7 < ?y \<and> ?y < L - 3"
    using field_row_bounds [OF assms(1), of "fs_selected s" ?first] page_of_selected [OF slots_pos(2), of "fs_selected s" L] by auto
  with assms show "\<exists>y. 7 < y \<and> y < L - 3 \<and> (\<not> cf_toggle (fs_fields s ! fs_selected s) \<longrightarrow>
      set (draw_editor W L C (fs_editor s) y 5 (C - 8) (cf_secret (fs_fields s ! fs_selected s)))
        \<subseteq> set (form_page W L C title subtitle s))"
    by (intro exI [of _ ?y]) (auto simp: form_page_def too_small_def Let_def)
qed

theorem selection_visible_witness:
  "\<exists>y. 7 \<le> y \<and> y < 22 \<and> Text y 3 (fit_text ascii_env (menu_label ascii_env 80 True \<lparr>mi_shortcut = None, mi_title = ''z'', mi_description = []\<rparr>) 74 False)
     (Selected, True) \<in> set (menu_page ascii_env 24 80 ''Rooms'' [] (replicate 30 \<lparr>mi_shortcut = None, mi_title = ''z'', mi_description = []\<rparr>) 29)"
  using selection_visible [of 24 80 29 "replicate 30 \<lparr>mi_shortcut = None, mi_title = ''z'', mi_description = []\<rparr>" "password_prompt []"
      ascii_env "''Rooms''" "[]"]
  by (simp add: password_prompt_def)

section \<open>Scrolling a notice\<close>

lemma notice_offset_down:
  assumes "0 \<le> extent"
  shows "(notice_offset True extent KEY_DOWN ^^ n) 0 = min extent (int n)"
  using assms by (induction n) (auto simp: notice_offset_def clamp_def Let_def)

text \<open>
  Everything in a notice can be read. However long it is, for each of its lines there is a number of presses of the down key
  after which the line is among those shown, in its place.
\<close>

theorem notice_readable:
  assumes "i < length (wrap_text W detail (C - 6))"
  shows "\<exists>n. let lines = wrap_text W detail (C - 6);
               offset = (notice_offset True (notice_extent L lines) KEY_DOWN ^^ n) 0
           in nat offset \<le> i \<and> i - nat offset < length (notice_shown L lines offset) \<and>
              notice_shown L lines offset ! (i - nat offset) = lines ! i"
proof -
  let ?lines = "wrap_text W detail (C - 6)"
  let ?m = "notice_extent L ?lines"
  have m: "0 \<le> ?m" "int (length ?lines) \<le> ?m + notice_rows L" "1 \<le> notice_rows L"
    by (auto simp: notice_extent_def notice_rows_def)
  let ?o = "min ?m (int i)"
  have "nat ?o \<le> i" "i - nat ?o < nat (notice_rows L)" "clamp ?o 0 ?m = ?o"
    using m assms by (auto simp: clamp_def min_def nat_less_iff)
  then show ?thesis
    using assms by (intro exI [of _ i]) (simp add: notice_offset_down [OF m(1)] Let_def notice_shown_def diff_less_mono)
qed

theorem notice_readable_witness:
  "\<exists>n. let lines = wrap_text ascii_env ''Server: example'' 34; offset = (notice_offset True (notice_extent 12 lines) KEY_DOWN ^^ n) 0
       in nat offset \<le> 0 \<and> notice_shown 12 lines offset ! (0 - nat offset) = lines ! 0"
proof -
  have "0 < length (wrap_text ascii_env ''Server: example'' (40 - 6))" by code_simp
  from notice_readable [OF this, of 12] show ?thesis by (auto simp: Let_def)
qed

end
