(* ===== verification/Network_Task.thy ===== *)
theory Network_Task
  imports Chatbox_Prelude
begin

text \<open>
  \<open>run_network_task\<close> of \<open>ui/network_task.h\<close>: a worker thread talks to a server while the terminal thread polls the keyboard;
  when the worker has to know whether a certificate is to be trusted, it hands the question to the terminal thread
  and waits on a condition variable for the answer. Every access of one thread to the shared state is a step, and the steps
  of the two threads interleave freely, except that the mutex is held by one of them at a time. What the work is, what the user
  answers, and when Escape is pressed or the deadline passes, is left to the steps that are taken.

  Shown: in every interleaving the worker is told yes only if the user was asked that question and said yes and nothing had been cancelled,
  the question of a waiting worker is never lost, and the answer always wakes it. The wake-up
  of a cancelled task can be lost.
\<close>

section \<open>The model\<close>

text \<open>Address, fingerprint and previously trusted fingerprint.\<close>

datatype question = Question (asked_address: string) (asked_fingerprint: string) (asked_previous: string)

text \<open>
  The worker: in its work, in \<open>confirm_certificate\<close> before it looks at the condition, with the mutex and about to
  block, blocked, notified and waiting for the mutex, or at its end.
\<close>

datatype worker = Working | Testing question | AboutToBlock question | Blocked question | Notified question | Finished

text \<open>How the call of \<open>run_network_task\<close> ends: a result or none, or an exception.\<close>

datatype 'r task_end = NoResult | TaskResult "'r option" | TaskFailed string

datatype 'r terminal = AtLoop | Asking question | AtKeyboard | Cancelling | Ended "'r task_end"

record 'r network_task =
  nt_cancelled :: bool
  nt_done :: bool
  nt_decision :: "question option"
  nt_answer :: "bool option"
  nt_result :: "'r option"
  nt_error :: string
  nt_worker :: worker
  nt_terminal :: "'r terminal"
  nt_asked :: "(question \<times> bool) list"
  nt_told :: "(question \<times> bool) list"

definition new_task :: "'r network_task" where
  "new_task = \<lparr>nt_cancelled = False, nt_done = False, nt_decision = None, nt_answer = None, nt_result = None, nt_error = [],
     nt_worker = Working, nt_terminal = AtLoop, nt_asked = [], nt_told = []\<rparr>"

text \<open>The worker holds the mutex.\<close>

fun holds_mutex :: "worker \<Rightarrow> bool" where
  "holds_mutex (Testing q) = True"
| "holds_mutex (AboutToBlock q) = True"
| "holds_mutex w = False"

fun notified :: "worker \<Rightarrow> worker" where
  "notified (Blocked q) = Notified q"
| "notified w = w"

text \<open>
  The steps. Of the worker: it calls \<open>confirm_certificate\<close>, tests the condition, blocks, gets the mutex again after a notification, wakes without one,
  or ends its work. Of the terminal thread: the head of its loop, the answer of the user, a key or the deadline,
  and the notification after cancelling.
\<close>

datatype 'r task_event =
    Confirm question | TestCondition | Block | Reacquire | SpuriousWake | WorkReturns 'r | WorkThrows string
  | LoopHead | UserAnswers bool | Poll bool | NotifyCancelled

fun task_enabled :: "'r task_event \<Rightarrow> 'r network_task \<Rightarrow> bool" where
  "task_enabled (Confirm q) s \<longleftrightarrow> nt_worker s = Working"
| "task_enabled TestCondition s \<longleftrightarrow> (\<exists>q. nt_worker s = Testing q)"
| "task_enabled Block s \<longleftrightarrow> (\<exists>q. nt_worker s = AboutToBlock q)"
| "task_enabled Reacquire s \<longleftrightarrow> (\<exists>q. nt_worker s = Notified q)"
| "task_enabled SpuriousWake s \<longleftrightarrow> (\<exists>q. nt_worker s = Blocked q)"
| "task_enabled (WorkReturns r) s \<longleftrightarrow> nt_worker s = Working"
| "task_enabled (WorkThrows e) s \<longleftrightarrow> nt_worker s = Working"
| "task_enabled LoopHead s \<longleftrightarrow> nt_terminal s = AtLoop \<and> (nt_done s \<or> \<not> holds_mutex (nt_worker s))"
| "task_enabled (UserAnswers b) s \<longleftrightarrow> (\<exists>q. nt_terminal s = Asking q) \<and> \<not> holds_mutex (nt_worker s)"
| "task_enabled (Poll stop) s \<longleftrightarrow> nt_terminal s = AtKeyboard"
| "task_enabled NotifyCancelled s \<longleftrightarrow> nt_terminal s = Cancelling"

definition test_condition :: "question \<Rightarrow> 'r network_task \<Rightarrow> 'r network_task" where
  "test_condition q s =
     (if nt_answer s \<noteq> None \<or> nt_cancelled s
      then s\<lparr>nt_answer := None, nt_worker := Working, nt_told := nt_told s @ [(q, \<not> nt_cancelled s \<and> nt_answer s = Some True)]\<rparr>
      else s\<lparr>nt_worker := AboutToBlock q\<rparr>)"

definition loop_head :: "'r network_task \<Rightarrow> 'r network_task" where
  "loop_head s =
     (if nt_done s
      then s\<lparr>nt_terminal := Ended (if nt_error s \<noteq> [] then TaskFailed (nt_error s) else TaskResult (nt_result s))\<rparr>
      else case nt_decision s of
             None \<Rightarrow> s\<lparr>nt_terminal := AtKeyboard\<rparr>
           | Some q \<Rightarrow> s\<lparr>nt_decision := None, nt_terminal := Asking q\<rparr>)"

fun task_step :: "'r task_event \<Rightarrow> 'r network_task \<Rightarrow> 'r network_task" where
  "task_step (Confirm q) s =
     (if nt_cancelled s then s\<lparr>nt_told := nt_told s @ [(q, False)]\<rparr>
      else s\<lparr>nt_decision := Some q, nt_worker := Testing q\<rparr>)"
| "task_step TestCondition s = (case nt_worker s of Testing q \<Rightarrow> test_condition q s | _ \<Rightarrow> s)"
| "task_step Block s = (case nt_worker s of AboutToBlock q \<Rightarrow> s\<lparr>nt_worker := Blocked q\<rparr> | _ \<Rightarrow> s)"
| "task_step Reacquire s = (case nt_worker s of Notified q \<Rightarrow> s\<lparr>nt_worker := Testing q\<rparr> | _ \<Rightarrow> s)"
| "task_step SpuriousWake s = s\<lparr>nt_worker := notified (nt_worker s)\<rparr>"
| "task_step (WorkReturns r) s = s\<lparr>nt_result := Some r, nt_done := True, nt_worker := Finished\<rparr>"
| "task_step (WorkThrows e) s = s\<lparr>nt_error := e, nt_done := True, nt_worker := Finished\<rparr>"
| "task_step LoopHead s = loop_head s"
| "task_step (UserAnswers b) s =
     (case nt_terminal s of
        Asking q \<Rightarrow> s\<lparr>nt_answer := Some b, nt_worker := notified (nt_worker s), nt_terminal := AtKeyboard, nt_asked := nt_asked s @ [(q, b)]\<rparr>
      | _ \<Rightarrow> s)"
| "task_step (Poll stop) s =
     (if stop then s\<lparr>nt_cancelled := True, nt_terminal := Cancelling\<rparr> else s\<lparr>nt_terminal := AtLoop\<rparr>)"
| "task_step NotifyCancelled s = s\<lparr>nt_worker := notified (nt_worker s), nt_terminal := Ended NoResult\<rparr>"

section \<open>The invariant\<close>

text \<open>The question the worker is waiting for.\<close>

fun pending :: "worker \<Rightarrow> question option" where
  "pending (Testing q) = Some q"
| "pending (AboutToBlock q) = Some q"
| "pending (Blocked q) = Some q"
| "pending (Notified q) = Some q"
| "pending w = None"

definition terminal_ok :: "'r network_task \<Rightarrow> bool" where
  "terminal_ok s \<longleftrightarrow>
     (case nt_terminal s of
        Asking q \<Rightarrow> \<not> nt_cancelled s \<and> pending (nt_worker s) = Some q \<and> nt_decision s = None \<and> nt_answer s = None
      | Cancelling \<Rightarrow> nt_cancelled s
      | Ended NoResult \<Rightarrow> nt_cancelled s
      | Ended (TaskResult r) \<Rightarrow> \<not> nt_cancelled s \<and> nt_done s \<and> nt_error s = [] \<and> nt_result s = r
      | Ended (TaskFailed e) \<Rightarrow> \<not> nt_cancelled s \<and> nt_done s \<and> nt_error s = e \<and> e \<noteq> []
      | _ \<Rightarrow> \<not> nt_cancelled s)"

definition answer_ok :: "'r network_task \<Rightarrow> bool" where
  "answer_ok s \<longleftrightarrow>
     (case nt_answer s of None \<Rightarrow> True
      | Some b \<Rightarrow> nt_decision s = None \<and>
          (case nt_worker s of Testing q \<Rightarrow> (q, b) \<in> set (nt_asked s) | Notified q \<Rightarrow> (q, b) \<in> set (nt_asked s) | _ \<Rightarrow> False))"

definition question_ok :: "'r network_task \<Rightarrow> bool" where
  "question_ok s \<longleftrightarrow> (\<not> nt_cancelled s \<longrightarrow>
     (case pending (nt_worker s) of None \<Rightarrow> nt_decision s = None
      | Some q \<Rightarrow> (nt_decision s = None \<or> nt_decision s = Some q) \<and> (nt_decision s = Some q \<or> nt_terminal s = Asking q \<or> nt_answer s \<noteq> None)))"

definition task_inv :: "'r network_task \<Rightarrow> bool" where
  "task_inv s \<longleftrightarrow> terminal_ok s \<and> answer_ok s \<and> question_ok s \<and> (nt_done s \<longleftrightarrow> nt_worker s = Finished) \<and>
     (\<forall>q. (q, True) \<in> set (nt_told s) \<longrightarrow> (q, True) \<in> set (nt_asked s))"

lemmas task_inv_defs = task_inv_def terminal_ok_def answer_ok_def question_ok_def

lemma pending_notified [simp]: "pending (notified w) = pending w" "holds_mutex (notified w) = holds_mutex w" "notified w = Finished \<longleftrightarrow> w = Finished"
  by (cases w; simp)+

lemma notified_not_blocked [simp]: "notified w \<noteq> Blocked q" "notified w = AboutToBlock q \<longleftrightarrow> w = AboutToBlock q"
  by (cases w; simp)+

lemma test_condition_inv:
  assumes "task_inv s" "nt_worker s = Testing q"
  shows "task_inv (test_condition q s)"
  using assms
  by (cases "nt_answer s"; cases "nt_cancelled s")
    (auto simp: task_inv_defs test_condition_def split: terminal.splits task_end.splits)

lemma loop_head_inv: "task_inv s \<Longrightarrow> nt_terminal s = AtLoop \<Longrightarrow> task_inv (loop_head s)"
  by (cases "nt_decision s"; cases "nt_worker s") (auto simp: task_inv_defs loop_head_def split: option.splits)

lemma user_answers_inv:
  "task_inv s \<Longrightarrow> task_enabled (UserAnswers b) s \<Longrightarrow> task_inv (task_step (UserAnswers b) s)"
  by (cases "nt_worker s") (auto simp: task_inv_defs)

lemma worker_step_inv:
  assumes "task_inv s"
  shows "nt_worker s = Working \<Longrightarrow> task_inv (task_step (Confirm q) s)"
    and "nt_worker s = AboutToBlock q \<Longrightarrow> task_inv (s\<lparr>nt_worker := Blocked q\<rparr>)"
    and "nt_worker s = Notified q \<Longrightarrow> task_inv (s\<lparr>nt_worker := Testing q\<rparr>)"
    and "nt_worker s = Blocked q \<Longrightarrow> task_inv (s\<lparr>nt_worker := Notified q\<rparr>)"
    and "nt_worker s = Working \<Longrightarrow> task_inv (task_step (WorkReturns r) s)"
    and "nt_worker s = Working \<Longrightarrow> task_inv (task_step (WorkThrows e) s)"
  using assms by (auto simp: task_inv_defs split: terminal.splits task_end.splits option.splits)

lemma poll_inv:
  assumes "task_inv s"
  shows "nt_terminal s = AtKeyboard \<Longrightarrow> task_inv (task_step (Poll stop) s)"
    and "nt_terminal s = Cancelling \<Longrightarrow> task_inv (task_step NotifyCancelled s)"
  using assms by (cases "nt_worker s"; auto simp: task_inv_defs split: option.splits)+

lemma task_step_inv: "task_inv s \<Longrightarrow> task_enabled e s \<Longrightarrow> task_inv (task_step e s)"
  by (cases e) (auto simp: test_condition_inv loop_head_inv worker_step_inv [unfolded task_step.simps] poll_inv [unfolded task_step.simps] user_answers_inv [unfolded task_step.simps])

interpretation task_machine: invariant_machine task_step task_inv task_enabled
  by unfold_locales (rule task_step_inv)

lemma task_run_inv: "task_machine.run new_task s \<Longrightarrow> task_inv s"
  by (erule task_machine.run_inv) (simp add: task_inv_defs new_task_def)

section \<open>What holds in every interleaving\<close>

text \<open>
  C38: A certificate is confirmed by the user only. In every interleaving of the two threads: the worker is told yes only about a question
  that the terminal thread has put to the user and that was answered yes; a result or an exception of the work is returned
  only after the work has ended with it and nothing was cancelled; and the caller gets no result only after cancelling.
\<close>

theorem task_answers_true:
  assumes "task_machine.run new_task s"
  shows "(\<forall>q. (q, True) \<in> set (nt_told s) \<longrightarrow> (q, True) \<in> set (nt_asked s)) \<and>
    (\<forall>outcome. nt_terminal s = Ended outcome \<longrightarrow>
      (case outcome of
         NoResult \<Rightarrow> nt_cancelled s
       | TaskResult r \<Rightarrow> \<not> nt_cancelled s \<and> nt_worker s = Finished \<and> nt_result s = r \<and> nt_error s = []
       | TaskFailed e \<Rightarrow> \<not> nt_cancelled s \<and> nt_worker s = Finished \<and> nt_error s = e \<and> e \<noteq> []))"
  using task_run_inv [OF assms] by (auto simp: task_inv_defs split: task_end.split)

abbreviation demo_question :: question where
  "demo_question \<equiv> Question ''chat.example:7777'' ''AB'' []"

text \<open>A run in which the user confirms a certificate and the work returns.\<close>

abbreviation confirmed_steps :: "nat task_event list" where
  "confirmed_steps \<equiv> [Confirm demo_question, TestCondition, Block, LoopHead, UserAnswers True, Reacquire, TestCondition, WorkReturns 1,
     Poll False, LoopHead]"

lemma confirmed_run: "task_machine.run new_task (fold task_step confirmed_steps new_task)"
  by (rule task_machine.possible_run [OF task_machine.run.start]) (simp add: new_task_def test_condition_def loop_head_def)

theorem task_answers_true_witness:
  "\<exists>s :: nat network_task. task_machine.run new_task s \<and> nt_told s = [(demo_question, True)] \<and>
     (demo_question, True) \<in> set (nt_asked s) \<and> nt_terminal s = Ended (TaskResult (Some 1))"
proof -
  have "nt_told (fold task_step confirmed_steps new_task) = [(demo_question, True)]"
    "nt_terminal (fold task_step confirmed_steps new_task) = Ended (TaskResult (Some 1))"
    by (simp_all add: new_task_def test_condition_def loop_head_def)
  with confirmed_run obtain s :: "nat network_task"
    where s: "task_machine.run new_task s" "nt_told s = [(demo_question, True)]" "nt_terminal s = Ended (TaskResult (Some 1))"
    by blast
  with task_answers_true [OF s(1)] show ?thesis by auto
qed

text \<open>
  Nobody waits in vain. In every interleaving, as long as nothing was cancelled: the question of a waiting worker has
  not yet been seen by the terminal thread, is being put to the user, or has its answer; once there is an
  answer the worker is not blocked; and some step other than a spurious wake-up can be taken until both threads have ended.
\<close>

theorem task_progress:
  assumes "task_machine.run new_task s" "\<not> nt_cancelled s"
  shows "(\<forall>q. pending (nt_worker s) = Some q \<longrightarrow>
      nt_decision s = Some q \<or> nt_terminal s = Asking q \<or> (nt_answer s \<noteq> None \<and> nt_worker s \<in> {Testing q, Notified q})) \<and>
    (nt_worker s \<noteq> Finished \<or> (\<forall>outcome. nt_terminal s \<noteq> Ended outcome) \<longrightarrow> (\<exists>e. e \<noteq> SpuriousWake \<and> task_enabled e s))"
proof -
  note inv = task_run_inv [OF assms(1)]
  have "pending (nt_worker s) = Some q \<longrightarrow>
      nt_decision s = Some q \<or> nt_terminal s = Asking q \<or> (nt_answer s \<noteq> None \<and> nt_worker s \<in> {Testing q, Notified q})" for q
    using inv assms(2) by (cases "nt_worker s") (auto simp: task_inv_defs split: option.splits)
  moreover have "\<exists>e. e \<noteq> SpuriousWake \<and> task_enabled e s" if "nt_worker s \<noteq> Finished \<or> (\<forall>outcome. nt_terminal s \<noteq> Ended outcome)"
  proof (cases "nt_worker s")
    case Working
    then show ?thesis by (intro exI [of _ "WorkThrows []"]) simp
  next
    case (Testing q)
    then show ?thesis by (intro exI [of _ TestCondition]) simp
  next
    case (AboutToBlock q)
    then show ?thesis by (intro exI [of _ Block]) simp
  next
    case (Notified q)
    then show ?thesis by (intro exI [of _ Reacquire]) simp
  next
    case (Blocked q)
    with inv assms(2) have "nt_terminal s = AtLoop \<or> nt_terminal s = AtKeyboard \<or> (\<exists>q. nt_terminal s = Asking q)"
      by (cases "nt_terminal s") (auto simp: task_inv_defs split: task_end.splits)
    with Blocked show ?thesis
      by (elim disjE) (auto intro: exI [of _ LoopHead] exI [of _ "Poll True"] exI [of _ "UserAnswers True"])
  next
    case Finished
    with that inv assms(2) have "nt_terminal s = AtLoop \<or> nt_terminal s = AtKeyboard"
      by (cases "nt_terminal s") (auto simp: task_inv_defs)
    with Finished inv show ?thesis
      by (elim disjE) (auto simp: task_inv_def intro: exI [of _ LoopHead] exI [of _ "Poll True"])
  qed
  ultimately show ?thesis by blast
qed

theorem task_progress_witness:
  "\<exists>s :: nat network_task. task_machine.run new_task s \<and> nt_worker s = Blocked demo_question \<and> nt_decision s = Some demo_question"
proof -
  let ?s = "fold task_step [Confirm demo_question, TestCondition, Block] (new_task :: nat network_task)"
  have "task_machine.run new_task ?s"
    by (rule task_machine.possible_run [OF task_machine.run.start]) (simp add: new_task_def test_condition_def)
  moreover have "nt_worker ?s = Blocked demo_question" "\<not> nt_cancelled ?s" "nt_terminal ?s = AtLoop"
    by (simp_all add: new_task_def test_condition_def)
  ultimately obtain s :: "nat network_task" where s: "task_machine.run new_task s" "nt_worker s = Blocked demo_question"
    "\<not> nt_cancelled s" "nt_terminal s = AtLoop" by blast
  with task_progress [OF s(1,3)] show ?thesis by auto
qed

text \<open>
  The wake-up of a cancelled task can be lost. Cancelling is not done under the mutex: if it falls between the worker's test of the condition and its
  blocking, the notification finds nobody, and the worker blocks for good although the task is cancelled; nothing but a
  spurious wake-up can happen any more.
\<close>

theorem cancel_can_be_lost:
  "\<exists>s :: nat network_task. task_machine.run new_task s \<and> nt_cancelled s \<and> nt_terminal s = Ended NoResult \<and>
     nt_worker s = Blocked demo_question \<and> {e. task_enabled e s} = {SpuriousWake}"
proof -
  let ?s = "fold task_step [LoopHead, Confirm demo_question, TestCondition, Poll True, NotifyCancelled, Block] (new_task :: nat network_task)"
  have run: "task_machine.run new_task ?s"
    by (rule task_machine.possible_run [OF task_machine.run.start]) (simp add: new_task_def test_condition_def loop_head_def)
  have "nt_cancelled ?s" "nt_terminal ?s = Ended NoResult" "nt_worker ?s = Blocked demo_question"
    by (simp_all add: new_task_def test_condition_def loop_head_def)
  with run obtain s :: "nat network_task" where s: "task_machine.run new_task s" "nt_cancelled s" "nt_terminal s = Ended NoResult"
    "nt_worker s = Blocked demo_question" by blast
  then have "task_enabled e s \<longleftrightarrow> e = SpuriousWake" for e by (cases e) simp_all
  with s show ?thesis by auto
qed

end
