(* ===== verification/Commands.thy ===== *)
theory Commands
  imports Server_Authority Chat_Client
begin

text \<open>
  \<open>app/commands.cpp\<close>: what a line typed into the chat does. The context of the code holds a
  pointer to a server, when this program hosts, or to a client; the application always sets
  exactly one of them, so it is the datatype \<open>chat_peer\<close>. \<open>now\<close> is what \<open>timestamp()\<close> returns.

  Shown: whatever the host types is a sequence of steps of the server, so everything proved of
  the reachable states holds with the interface in front; and what a user types into a client
  arrives at the server as the message that was meant.
\<close>

section \<open>Parsing\<close>

record command =
  cmd_name :: string
  cmd_args :: "string list"

definition parse_command :: "string \<Rightarrow> command option" where
  "parse_command input =
     (if input = [] \<or> input ! 0 \<noteq> CHR ''/'' then None
      else let parts = split (drop 1 input) CHR '' '' in
        if parts = [] then None
        else Some \<lparr>cmd_name = parts ! 0, cmd_args = filter (\<lambda>p. p \<noteq> []) (drop 1 parts)\<rparr>)"

text \<open>\<open>std::string::find_first_not_of\<close>.\<close>

definition find_first_not_of :: "char \<Rightarrow> string \<Rightarrow> nat \<Rightarrow> nat option" where
  "find_first_not_of c s pos =
     (if dropWhile ((=) c) (drop pos s) = [] then None
      else Some (pos + length (takeWhile ((=) c) (drop pos s))))"

definition extract_whisper :: "string \<Rightarrow> (string \<times> string) option" where
  "extract_whisper input =
     (case find_from CHR '' '' input 0 of
        None \<Rightarrow> None
      | Some command_end \<Rightarrow>
     (case find_first_not_of CHR '' '' input command_end of
        None \<Rightarrow> None
      | Some target_start \<Rightarrow>
     (case find_from CHR '' '' input target_start of
        None \<Rightarrow> None
      | Some target_end \<Rightarrow>
     (case find_first_not_of CHR '' '' input target_end of
        None \<Rightarrow> None
      | Some message_start \<Rightarrow>
          let target = take (target_end - target_start) (drop target_start input);
              message = drop message_start input
          in if target \<noteq> [] \<and> message \<noteq> [] then Some (target, message) else None))))"

section \<open>Running\<close>

datatype chat_peer = Hosting chat_server | Joined chat_client

datatype chat_input_result = Continue | Exit

definition on_app :: "app_event \<Rightarrow> chat_peer \<Rightarrow> chat_peer" where
  "on_app a peer =
     (case peer of
        Hosting st \<Rightarrow> Hosting (effects_update (on_ui (app_step a)) st)
      | Joined c \<Rightarrow> Joined (c\<lparr>cl_app := app_step a (cl_app c)\<rparr>))"

definition app_of :: "chat_peer \<Rightarrow> app_state" where
  "app_of peer = (case peer of Hosting st \<Rightarrow> ui (effects st) | Joined c \<Rightarrow> cl_app c)"

definition notice :: "string \<Rightarrow> chat_peer \<Rightarrow> chat_peer" where
  "notice line = on_app (PushMessage (''[system] '' @ line))"

definition notices :: "string list \<Rightarrow> chat_peer \<Rightarrow> chat_peer" where
  "notices lines = fold notice lines"

definition show_command_help :: "chat_peer \<Rightarrow> chat_peer" where
  "show_command_help = notices
     [''=== Rooms: /create music, /join music ==='',
      ''/help                    - Show this help message'',
      ''/rooms                   - List available rooms'',
      ''/create <name>           - Create and enter a room'',
      ''/join <name>             - Switch to a room'',
      ''/leave                   - Return to the lobby'',
      ''/topic [text]            - View or set the room topic'',
      ''=== People: /whisper alex hello ==='',
      ''/users                   - List users in this room'',
      ''/clear                   - Clear message history'',
      ''/time                    - Show current time'',
      ''/whisper <nick> <msg>    - Whisper within this room'',
      ''/kick <nick> [reason]    - Kick a room member (room creator/host)'',
      ''/exit                    - Return to server selection'',
      ''=== End Help ==='']"

definition show_host_command_help :: "chat_peer \<Rightarrow> chat_peer" where
  "show_host_command_help = notices
     [''/ban  <nick> [reason] - Ban a user server-wide (host only)'',
      ''/unban <nick>         - Unban a user (host only)'',
      ''/bans                 - List server-wide bans'']"

text \<open>A server operation that may fail, with its error shown.\<close>

definition attempt :: "chat_server \<Rightarrow> string + chat_server \<Rightarrow> chat_peer" where
  "attempt st r = (case r of Inl error \<Rightarrow> notice error (Hosting st) | Inr st' \<Rightarrow> Hosting st')"

definition send_via :: "client_message \<Rightarrow> chat_client \<Rightarrow> chat_peer" where
  "send_via msg c = Joined (client_send msg c)"

definition run_say :: "environment \<Rightarrow> string \<Rightarrow> string \<Rightarrow> string \<Rightarrow> chat_peer \<Rightarrow> chat_peer" where
  "run_say E now nick input peer =
     (case peer of
        Hosting st \<Rightarrow> Hosting (broadcast E (''['' @ now @ ''] '' @ nick @ '': '' @ input) st)
      | Joined c \<Rightarrow> send_via (Chat input) c)"

definition run_users :: "chat_peer \<Rightarrow> chat_peer" where
  "run_users peer =
     (let peer = notice (''Users in #'' @ app_active_room_name (app_of peer) @ '':'') peer
      in notices (map (\<lambda>user. ''  - '' @ user) (user_snapshot (app_of peer))) peer)"

definition run_rooms :: "chat_peer \<Rightarrow> chat_peer" where
  "run_rooms peer =
     (case peer of Hosting st \<Rightarrow> Hosting (show_room_list_local st) | Joined c \<Rightarrow> Joined (request_rooms c))"

definition run_create :: "environment \<Rightarrow> string list \<Rightarrow> chat_peer \<Rightarrow> chat_peer" where
  "run_create E args peer =
     (if length args \<noteq> 1 then notice ''Usage: /create <name>'' peer
      else case peer of
        Hosting st \<Rightarrow> attempt st (create_local_room E (args ! 0) st)
      | Joined c \<Rightarrow> send_via (CreateRoom (args ! 0)) c)"

definition run_join :: "environment \<Rightarrow> string list \<Rightarrow> chat_peer \<Rightarrow> chat_peer" where
  "run_join E args peer =
     (if length args \<noteq> 1 then notice ''Usage: /join <name>'' peer
      else case peer of
        Hosting st \<Rightarrow> attempt st (join_local_room E (args ! 0) st)
      | Joined c \<Rightarrow> send_via (JoinRoom (args ! 0)) c)"

definition run_leave :: "environment \<Rightarrow> string list \<Rightarrow> chat_peer \<Rightarrow> chat_peer" where
  "run_leave E args peer =
     (if args \<noteq> [] then notice ''Usage: /leave'' peer
      else case peer of
        Hosting st \<Rightarrow> attempt st (leave_local_room E st)
      | Joined c \<Rightarrow> send_via Leave c)"

definition run_topic :: "environment \<Rightarrow> string list \<Rightarrow> chat_peer \<Rightarrow> chat_peer" where
  "run_topic E args peer =
     (if args = []
      then case peer of
        Hosting st \<Rightarrow>
          (let topic = app_active_room_topic (app_of peer)
           in notice (''Topic: '' @ (if topic = [] then ''(none)'' else topic)) peer)
      | Joined c \<Rightarrow> send_via (TopicRequest None) c
      else let topic = join_fields args 0 CHR '' '' in
        case peer of
          Hosting st \<Rightarrow> attempt st (set_local_topic E topic st)
        | Joined c \<Rightarrow> send_via (TopicRequest (Some topic)) c)"

definition run_whisper :: "environment \<Rightarrow> string \<Rightarrow> string \<Rightarrow> chat_peer \<Rightarrow> chat_peer" where
  "run_whisper E nick input peer =
     (case extract_whisper input of
        None \<Rightarrow> notice ''Usage: /whisper <nick> <message>'' peer
      | Some (target, message) \<Rightarrow>
          (case peer of
             Hosting st \<Rightarrow> Hosting (snd (send_private E nick target message True st))
           | Joined c \<Rightarrow> send_via (Whisper target message) c))"

definition run_kick :: "environment \<Rightarrow> bool \<Rightarrow> string list \<Rightarrow> chat_peer \<Rightarrow> chat_peer" where
  "run_kick E host_commands_enabled args peer =
     (if args = [] then notice ''Usage: /kick <nick> [reason]'' peer
      else let nick = args ! 0; reason = join_fields args 1 CHR '' '' in
        case peer of
          Hosting st \<Rightarrow>
            if host_commands_enabled
            then let (kicked, st) = kick_user E nick reason st
                 in if kicked then Hosting st
                    else notice (''User '' @ [CHR 0x27] @ nick @ [CHR 0x27] @ '' is not in this room'') (Hosting st)
            else peer
        | Joined c \<Rightarrow> send_via (KickRequest nick reason) c)"

definition run_ban :: "environment \<Rightarrow> string list \<Rightarrow> chat_server \<Rightarrow> chat_peer" where
  "run_ban E args st =
     notice (args ! 0 @ '' has been banned server-wide'') (Hosting (ban_user E (args ! 0) (join_fields args 1 CHR '' '') st))"

definition run_unban :: "string list \<Rightarrow> chat_server \<Rightarrow> chat_peer" where
  "run_unban args st =
     (let nick = args ! 0; (removed, st) = unban_user nick st
      in if removed then notice (nick @ '' has been unbanned'') (Hosting st)
         else notice ([CHR 0x27] @ nick @ [CHR 0x27] @ '' is not on the ban list'') (Hosting st))"

definition run_bans :: "chat_server \<Rightarrow> chat_peer" where
  "run_bans st =
     (let bans = ban_list st in
      if bans = [] then notice ''Ban list is empty'' (Hosting st)
      else notices (map (\<lambda>banned. ''  - '' @ banned) bans) (notice ''Banned users:'' (Hosting st)))"

definition unknown_command :: "string \<Rightarrow> chat_peer \<Rightarrow> chat_peer" where
  "unknown_command name = notice (''Unknown command: '' @ name @ ''. Type /help.'')"

text \<open>\<open>/ban\<close>, \<open>/unban\<close> and \<open>/bans\<close> exist for a host with host commands only.\<close>

definition run_host_command :: "environment \<Rightarrow> bool \<Rightarrow> command \<Rightarrow> chat_peer \<Rightarrow> chat_peer" where
  "run_host_command E host_commands_enabled cmd peer =
     (case peer of
        Joined c \<Rightarrow> unknown_command (cmd_name cmd) peer
      | Hosting st \<Rightarrow>
          if \<not> host_commands_enabled then unknown_command (cmd_name cmd) peer
          else if cmd_name cmd = ''ban'' \<and> length (cmd_args cmd) \<ge> 1 then run_ban E (cmd_args cmd) st
          else if cmd_name cmd = ''unban'' \<and> length (cmd_args cmd) \<ge> 1 then run_unban (cmd_args cmd) st
          else if cmd_name cmd = ''bans'' then run_bans st
          else unknown_command (cmd_name cmd) peer)"

definition handle_chat_input ::
  "environment \<Rightarrow> string \<Rightarrow> string \<Rightarrow> bool \<Rightarrow> string \<Rightarrow> chat_peer \<Rightarrow> chat_input_result \<times> chat_peer" where
  "handle_chat_input E now nick host_commands_enabled input peer =
     (if input = [] then (Continue, peer)
      else case parse_command input of
        None \<Rightarrow> (Continue, run_say E now nick input peer)
      | Some cmd \<Rightarrow>
          if cmd_name cmd = ''help''
          then (Continue, (if host_commands_enabled then show_host_command_help else id) (show_command_help peer))
          else if cmd_name cmd = ''users'' then (Continue, run_users peer)
          else if cmd_name cmd = ''rooms'' then (Continue, run_rooms peer)
          else if cmd_name cmd = ''create'' then (Continue, run_create E (cmd_args cmd) peer)
          else if cmd_name cmd = ''join'' then (Continue, run_join E (cmd_args cmd) peer)
          else if cmd_name cmd = ''leave'' then (Continue, run_leave E (cmd_args cmd) peer)
          else if cmd_name cmd = ''topic'' then (Continue, run_topic E (cmd_args cmd) peer)
          else if cmd_name cmd = ''clear'' then (Continue, notice ''Message history cleared'' (on_app ClearMessages peer))
          else if cmd_name cmd = ''time'' then (Continue, notice (''Current time: '' @ now) peer)
          else if cmd_name cmd = ''whisper'' then (Continue, run_whisper E nick input peer)
          else if cmd_name cmd = ''kick'' then (Continue, run_kick E host_commands_enabled (cmd_args cmd) peer)
          else if cmd_name cmd = ''exit'' then (Exit, peer)
          else (Continue, run_host_command E host_commands_enabled cmd peer))"

section \<open>The host's input\<close>

definition hosted :: "environment \<Rightarrow> string \<Rightarrow> chat_peer \<Rightarrow> bool" where
  "hosted E nick peer \<longleftrightarrow> (\<exists>st. peer = Hosting st \<and> reachable E st \<and> local_nickname st = nick)"

lemma hosted_step:
  assumes "reachable E st" "local_nickname st = nick" "\<forall>n k. h \<noteq> RegisterLocal n k"
  shows "hosted E nick (Hosting (host_step E h st))"
proof -
  have "reachable E (server_step E (Host h) st)" using assms(1) by (intro reachable.step) simp_all
  moreover have "auth_view (host_step E h st) = auth_view st" using assms(3) by (intro host_step_auth) auto
  ultimately show ?thesis using assms(2) by (simp add: hosted_def auth_view_def)
qed

lemma hosted_on_app: "hosted E nick peer \<Longrightarrow> hosted E nick (on_app a peer)"
  using hosted_step [of E _ nick "Display a"] by (auto simp: hosted_def on_app_def)

lemma hosted_notice: "hosted E nick peer \<Longrightarrow> hosted E nick (notice line peer)"
  by (simp add: notice_def hosted_on_app)

lemma hosted_notices: "hosted E nick peer \<Longrightarrow> hosted E nick (notices lines peer)"
  unfolding notices_def by (induction lines arbitrary: peer) (simp_all add: hosted_notice)

lemma hosted_attempt:
  assumes "hosted E nick (Hosting st)" "hosted E nick (Hosting (keep_on_error st r))"
  shows "hosted E nick (attempt st r)"
  using assms by (auto simp: attempt_def keep_on_error_def hosted_notice split: sum.splits)

lemmas hosted_shown = hosted_notice hosted_notices hosted_on_app

text \<open>The commands, each as the step of the server it is.\<close>

lemma hosted_event:
  "hosted E nick (Hosting st) \<Longrightarrow> \<forall>n k. h \<noteq> RegisterLocal n k \<Longrightarrow> hosted E nick (Hosting (host_step E h st))"
  using hosted_step [of E st nick h] by (auto simp: hosted_def)

lemma hosted_commands:
  assumes "hosted E nick (Hosting st)"
  shows "hosted E nick (run_say E now nick input (Hosting st))"
    and "hosted E nick (run_users (Hosting st))"
    and "hosted E nick (run_rooms (Hosting st))"
    and "hosted E nick (run_create E args (Hosting st))"
    and "hosted E nick (run_join E args (Hosting st))"
    and "hosted E nick (run_leave E args (Hosting st))"
    and "hosted E nick (run_topic E args (Hosting st))"
  using assms hosted_event [OF assms, of "LocalSay (''['' @ now @ ''] '' @ nick @ '': '' @ input)"]
    hosted_event [OF assms, of LocalRooms] hosted_event [OF assms, of "LocalCreate (args ! 0)"]
    hosted_event [OF assms, of "LocalJoin (args ! 0)"] hosted_event [OF assms, of LocalLeave]
    hosted_event [OF assms, of "LocalTopic (join_fields args 0 CHR '' '')"]
  by (auto simp: run_say_def run_users_def run_rooms_def run_create_def run_join_def run_leave_def run_topic_def
      Let_def hosted_shown hosted_attempt)

lemma hosted_whisper:
  assumes "hosted E nick (Hosting st)"
  shows "hosted E nick (run_whisper E nick input (Hosting st))"
proof -
  have "local_nickname st = nick" using assms by (simp add: hosted_def)
  then have "hosted E nick (Hosting (snd (send_private E nick target body True st)))" for target body
    using hosted_event [OF assms, of "LocalWhisper target body"] by simp
  with assms show ?thesis by (auto simp: run_whisper_def hosted_shown split: option.split)
qed

lemma hosted_kick:
  assumes "hosted E nick (Hosting st)"
  shows "hosted E nick (run_kick E host args (Hosting st))"
proof -
  have "hosted E nick (Hosting (snd (kick_user E target reason st)))" for target reason
    using hosted_event [OF assms, of "KickUser target reason"] by simp
  then show ?thesis using assms by (auto simp: run_kick_def Let_def case_prod_unfold hosted_shown)
qed

lemma hosted_host_command:
  assumes "hosted E nick (Hosting st)"
  shows "hosted E nick (run_host_command E host cmd (Hosting st))"
proof -
  have "hosted E nick (Hosting (ban_user E target reason st))" "hosted E nick (Hosting (snd (unban_user target st)))" for target reason
    using hosted_event [OF assms, of "BanUser target reason"] hosted_event [OF assms, of "UnbanUser target"] by simp_all
  with assms show ?thesis
    by (auto simp: run_host_command_def run_ban_def run_unban_def run_bans_def unknown_command_def Let_def case_prod_unfold hosted_shown)
qed

lemma hosted_input:
  assumes "hosted E nick peer"
  shows "hosted E nick (snd (handle_chat_input E now nick host input peer))"
proof -
  from assms obtain st where peer: "peer = Hosting st" by (auto simp: hosted_def)
  note at = assms [unfolded peer]
  show ?thesis
    using hosted_commands [OF at] hosted_whisper [OF at] hosted_kick [OF at] hosted_host_command [OF at] at
    by (auto simp: handle_chat_input_def peer show_command_help_def show_host_command_help_def hosted_shown split: option.split)
qed

interpretation host_input: invariant_machine
    "\<lambda>(now, host, input) peer. snd (handle_chat_input E now nick host input peer)" "hosted E nick" "\<lambda>_ _. True" for E nick
  by unfold_locales (auto simp: hosted_input)

text \<open>
  Whatever the host types, the server stays in a reachable state. For any sequence of input
  lines, with or without host commands, what \<open>handle_chat_input\<close> does to a hosted server are steps
  of that server, and the host keeps its nickname; so every property of the reachable states holds
  with the interface in front of the server.
\<close>

theorem host_input_is_server_steps:
  assumes "reachable E st" "local_nickname st = nick"
  shows "\<exists>st'. fold (\<lambda>(now, host, input) peer. snd (handle_chat_input E now nick host input peer)) inputs (Hosting st)
      = Hosting st' \<and> reachable E st' \<and> local_nickname st' = nick"
proof -
  have "hosted E nick (fold (\<lambda>(now, host, input) peer. snd (handle_chat_input E now nick host input peer)) inputs (Hosting st))"
    using assms by (induction inputs rule: rev_induct) (auto simp: hosted_def [of E nick "Hosting st"] hosted_input)
  then show ?thesis by (simp add: hosted_def)
qed

theorem host_input_is_server_steps_witness:
  "\<exists>st'. snd (handle_chat_input demo_env ''12:00'' [] True ''/ban bob'' (Hosting started)) = Hosting st' \<and> reachable demo_env st'"
  using host_input_is_server_steps [of demo_env started "[]" "[(''12:00'', True, ''/ban bob'')]"] reachable.start [of demo_env "[]" False "[]" 100, folded started_def]
  by (auto simp: started_fields)

section \<open>A client's input\<close>

definition is_word :: "string \<Rightarrow> bool" where
  "is_word w \<longleftrightarrow> w \<noteq> [] \<and> CHR '' '' \<notin> set w"

lemma parse_words:
  assumes "is_word name" "list_all is_word ws"
  shows "parse_command (CHR ''/'' # join_with CHR '' '' (name # ws)) = Some \<lparr>cmd_name = name, cmd_args = ws\<rparr>"
proof -
  have "split (join_with CHR '' '' (name # ws)) CHR '' '' = name # ws"
    using assms by (intro split_join_last) (auto simp: is_word_def list_all_iff)
  moreover have "filter (\<lambda>p. p \<noteq> []) ws = ws" using assms(2) by (simp add: filter_id_conv list_all_iff is_word_def)
  ultimately show ?thesis by (simp add: parse_command_def Let_def del: join_with.simps)
qed

text \<open>Text that consists of words with one space between them.\<close>

definition words_text :: "string \<Rightarrow> bool" where
  "words_text t \<longleftrightarrow> list_all is_word (split_on CHR '' '' t)"

text \<open>How a user types a message, and the messages that can be typed.\<close>

fun typed :: "client_message \<Rightarrow> string" where
  "typed (Chat body) = body"
| "typed (Whisper target body) = ''/whisper '' @ target @ '' '' @ body"
| "typed (CreateRoom name) = ''/create '' @ name"
| "typed (JoinRoom name) = ''/join '' @ name"
| "typed Leave = ''/leave''"
| "typed ListRooms = ''/rooms''"
| "typed (TopicRequest None) = ''/topic''"
| "typed (TopicRequest (Some topic)) = ''/topic '' @ topic"
| "typed (KickRequest nick reason) = ''/kick '' @ nick @ (if reason = [] then [] else '' '' @ reason)"
| "typed _ = []"

fun typeable :: "client_message \<Rightarrow> bool" where
  "typeable (Chat body) \<longleftrightarrow> hd body \<noteq> CHR ''/''"
| "typeable (Whisper target body) \<longleftrightarrow> hd body \<noteq> CHR '' ''"
| "typeable (CreateRoom name) \<longleftrightarrow> True"
| "typeable (JoinRoom name) \<longleftrightarrow> True"
| "typeable Leave \<longleftrightarrow> True"
| "typeable ListRooms \<longleftrightarrow> True"
| "typeable (TopicRequest None) \<longleftrightarrow> True"
| "typeable (TopicRequest (Some topic)) \<longleftrightarrow> words_text topic"
| "typeable (KickRequest nick reason) \<longleftrightarrow> reason = [] \<or> words_text reason"
| "typeable _ \<longleftrightarrow> False"

lemma command_words [simp]:
  "is_word ''whisper''" "is_word ''create''" "is_word ''join''" "is_word ''leave''" "is_word ''rooms''" "is_word ''topic''" "is_word ''kick''"
  by (simp_all add: is_word_def)

lemma room_name_word: "is_valid_room_name n \<Longrightarrow> is_word n"
proof -
  assume n: "is_valid_room_name n"
  have "\<not> isalnum CHR '' ''" by (simp add: ctype_defs byte_def)
  with n room_name_char [of n "CHR '' ''"] show ?thesis by (auto simp: is_word_def is_valid_room_name_def)
qed

lemma nickname_word: "is_valid_nickname n \<Longrightarrow> is_word n"
proof -
  assume n: "is_valid_nickname n"
  have "isspace CHR '' ''" by (simp add: isspace_def byte_def)
  with n show ?thesis by (auto simp: is_valid_nickname_def is_word_def list_ex_iff split: if_splits)
qed

lemma find_first_not_of_space:
  "s \<noteq> [] \<Longrightarrow> hd s \<noteq> d \<Longrightarrow> find_first_not_of d (a @ d # s) (length a) = Some (Suc (length a))"
  by (cases s) (simp_all add: find_first_not_of_def)

lemma extract_words:
  assumes "is_word name" "is_word target" "body \<noteq> []" "hd body \<noteq> CHR '' ''"
  shows "extract_whisper (name @ CHR '' '' # target @ CHR '' '' # body) = Some (target, body)"
proof -
  let ?input = "name @ CHR '' '' # target @ CHR '' '' # body" and ?a = "name @ CHR '' '' # target"
  have words: "CHR '' '' \<notin> set name" "CHR '' '' \<notin> set target" "target \<noteq> []" "hd target \<noteq> CHR '' ''"
    using assms(1,2) by (cases target; auto simp: is_word_def)+
  have "find_from CHR '' '' ?input 0 = Some (length name)"
    using words(1) by (simp add: find_from_def)
  moreover have "find_first_not_of CHR '' '' ?input (length name) = Some (Suc (length name))"
    using words(3,4) by (intro find_first_not_of_space) auto
  moreover have "find_from CHR '' '' ?input (Suc (length name)) = Some (length ?a)"
    using words(2) by (simp add: find_from_def)
  moreover have "find_first_not_of CHR '' '' ?input (length ?a) = Some (Suc (length ?a))"
    using find_first_not_of_space [OF assms(3,4), of ?a] by simp
  ultimately show ?thesis using words(3) assms(3) by (simp add: extract_whisper_def)
qed

text \<open>What a posted message is when it arrives.\<close>

definition posts :: "client_message \<Rightarrow> chat_client \<Rightarrow> chat_client \<Rightarrow> bool" where
  "posts msg c c' \<longleftrightarrow> (\<exists>w. cl_posted c' = cl_posted c @ [SendWire w] \<and> decode_client_frame w = Success msg)"

lemma client_send_posts:
  assumes "wf_client msg" "cl_connected c" "\<not> cl_closing c"
  shows "posts msg c (client_send msg c)"
proof -
  obtain w where "encode_client_frame msg = Success w"
    using assms(1) by (auto simp: encode_client_frame_wf encode_frame_fits client_payload_fits)
  with assms show ?thesis by (simp add: client_send_def posts_def decode_client_frame_encoded)
qed

lemma parse_typed:
  "is_word n \<Longrightarrow> parse_command (''/create '' @ n) = Some \<lparr>cmd_name = ''create'', cmd_args = [n]\<rparr>"
  "is_word n \<Longrightarrow> parse_command (''/join '' @ n) = Some \<lparr>cmd_name = ''join'', cmd_args = [n]\<rparr>"
  "parse_command ''/leave'' = Some \<lparr>cmd_name = ''leave'', cmd_args = []\<rparr>"
  "parse_command ''/rooms'' = Some \<lparr>cmd_name = ''rooms'', cmd_args = []\<rparr>"
  "parse_command ''/topic'' = Some \<lparr>cmd_name = ''topic'', cmd_args = []\<rparr>"
  "is_word n \<Longrightarrow> parse_command (''/kick '' @ n) = Some \<lparr>cmd_name = ''kick'', cmd_args = [n]\<rparr>"
  using parse_words [of "''create''" "[n]"] parse_words [of "''join''" "[n]"] parse_words [of "''leave''" "[]"]
    parse_words [of "''rooms''" "[]"] parse_words [of "''topic''" "[]"] parse_words [of "''kick''" "[n]"]
  by simp_all

lemma parse_typed_topic:
  assumes "words_text t"
  shows "parse_command (''/topic '' @ t) = Some \<lparr>cmd_name = ''topic'', cmd_args = split_on CHR '' '' t\<rparr>"
proof -
  have "join_with CHR '' '' (''topic'' # split_on CHR '' '' t) = ''topic '' @ t"
    by (cases "split_on CHR '' '' t") (use join_split [of "CHR '' ''" t] in auto)
  with parse_words [of "''topic''" "split_on CHR '' '' t"] assms show ?thesis by (simp add: words_text_def)
qed

lemma parse_typed_kick:
  assumes "is_word n" "words_text t"
  shows "parse_command (''/kick '' @ n @ '' '' @ t) = Some \<lparr>cmd_name = ''kick'', cmd_args = n # split_on CHR '' '' t\<rparr>"
proof -
  have "join_with CHR '' '' (''kick'' # n # split_on CHR '' '' t) = ''kick '' @ n @ '' '' @ t"
    by (cases "split_on CHR '' '' t") (use join_split [of "CHR '' ''" t] in auto)
  with parse_words [of "''kick''" "n # split_on CHR '' '' t"] assms show ?thesis by (simp add: words_text_def)
qed

lemma typed_whisper_command:
  assumes "is_word target" "body \<noteq> []"
  shows "\<exists>args. parse_command (typed (Whisper target body)) = Some \<lparr>cmd_name = ''whisper'', cmd_args = args\<rparr>"
proof -
  have "split (''whisper'' @ CHR '' '' # target @ CHR '' '' # body) CHR '' '' = ''whisper'' # split (target @ CHR '' '' # body) CHR '' ''"
    by (subst split.simps) simp
  then show ?thesis by (simp add: parse_command_def Let_def)
qed

text \<open>
  C10: What is typed is what arrives, if it is well-formed. Every well-formed message that can be typed (a chat line, a whisper, a room
  to create, join or leave, a topic, a kick, with valid nicknames, room names and texts) is, typed into a connected client, posted as exactly
  one frame, and the server decodes that frame to the message. A nickname with a vertical bar is not valid: a whisper
  to one is not well-formed, but it is sent all the same and arrives as another message.
\<close>

theorem typed_message_arrives:
  assumes "wf_client msg" "typeable msg" "cl_connected c" "\<not> cl_closing c"
  shows "\<exists>c'. handle_chat_input E now nick host (typed msg) (Joined c) = (Continue, Joined c') \<and> posts msg c c'"
proof (cases msg)
  case (Chat body)
  with assms have "parse_command body = None" "body \<noteq> []"
    by (auto simp: parse_command_def hd_conv_nth is_valid_text_def)
  with assms client_send_posts [of msg c] show ?thesis
    by (simp add: Chat handle_chat_input_def run_say_def send_via_def)
next
  case (Whisper target body)
  with assms have w: "is_word target" "body \<noteq> []" "hd body \<noteq> CHR '' ''"
    by (auto simp: nickname_word is_valid_text_def)
  obtain args where "parse_command (typed msg) = Some \<lparr>cmd_name = ''whisper'', cmd_args = args\<rparr>"
    using typed_whisper_command [OF w(1,2)] Whisper by auto
  moreover have "extract_whisper (typed msg) = Some (target, body)"
    using extract_words [of "''/whisper''" target body] w by (simp add: Whisper is_word_def)
  ultimately show ?thesis using assms client_send_posts [of msg c]
    by (simp add: handle_chat_input_def run_whisper_def send_via_def) (simp add: Whisper)
next
  case (TopicRequest topic)
  with assms client_send_posts [of msg c] show ?thesis
    by (cases topic) (auto simp: handle_chat_input_def run_topic_def send_via_def parse_typed parse_typed_topic [simplified]
        join_fields_drop Let_def)
next
  case (KickRequest target reason)
  with assms client_send_posts [of msg c] nickname_word [of target] show ?thesis
    by (cases "reason = []") (auto simp: handle_chat_input_def run_kick_def send_via_def parse_typed [simplified]
        parse_typed_kick [simplified] join_fields_drop Let_def)
next
  case ListRooms
  have "posts msg c (request_rooms c)"
    using assms client_send_posts [of msg "c\<lparr>cl_room_list_requested := True\<rparr>"] by (simp add: ListRooms request_rooms_def posts_def)
  then show ?thesis by (simp add: ListRooms handle_chat_input_def parse_typed run_rooms_def)
qed (use assms client_send_posts [of msg c] room_name_word in
    \<open>auto simp: handle_chat_input_def run_create_def run_join_def run_leave_def send_via_def parse_typed [simplified]\<close>)

theorem typed_message_arrives_witness:
  "\<exists>c'. handle_chat_input demo_env ''12:00'' ''ann'' False ''/whisper bob hi  there'' (Joined ((new_chat_client False)\<lparr>cl_connected := True\<rparr>))
     = (Continue, Joined c') \<and> posts (Whisper ''bob'' ''hi  there'') ((new_chat_client False)\<lparr>cl_connected := True\<rparr>) c'"
proof -
  have "wf_client (Whisper ''bob'' ''hi  there'')"
    by (simp add: is_valid_nickname_def is_valid_text_def protocol_limits ctype_defs byte_def)
  then show ?thesis
    using typed_message_arrives [of "Whisper ''bob'' ''hi  there''" "(new_chat_client False)\<lparr>cl_connected := True\<rparr>" demo_env "''12:00''" "''ann''" False]
    by (simp add: new_chat_client_def)
qed

end
