(* ===== verification/Chat_Loop.thy ===== *)
theory Chat_Loop
  imports Chat_Screen Commands
begin

text \<open>
  The chat itself, \<open>run_curses_chat_loop\<close> of \<open>ui/curses_ui.cpp\<close>: draw, wait for a key, act on it, until the
  user leaves or the connection ends. A turn of the loop is given what the other threads did to the client or
  server before it, the size of the terminal it draws on, the time, and the key. Menus and notices read keys of
  the following turns.

  Shown: only Enter and the choice of a room act on the chat, and what Enter hands over is the line as it
  stands; the line never exceeds its limit; leaving takes a confirmation; a host's screen
  performs only steps of the server.
\<close>

section \<open>The model\<close>

record turn =
  tn_others :: "chat_peer \<Rightarrow> chat_peer"
  tn_lines :: int
  tn_cols :: int
  tn_now :: string
  tn_key :: keystroke

record chat_context =
  cc_nickname :: string
  cc_host_commands :: bool
  cc_details :: string

datatype chat_exit = ChatLeft | ChatDisconnected

datatype chat_step = Stay chat_view chat_peer | Leave chat_view chat_peer | ShowDetails chat_view | ChooseRoom chat_view

definition hand_over :: "environment \<Rightarrow> chat_context \<Rightarrow> string \<Rightarrow> string \<Rightarrow> chat_peer \<Rightarrow> chat_input_result \<times> chat_peer" where
  "hand_over E ctx now input peer = handle_chat_input E now (cc_nickname ctx) (cc_host_commands ctx) input peer"

definition enter_key :: "environment \<Rightarrow> chat_context \<Rightarrow> string \<Rightarrow> chat_view \<Rightarrow> chat_peer \<Rightarrow> chat_step" where
  "enter_key E ctx now view peer =
     (let input = ed_text (cv_editor view) in
      if input = [] then Stay view peer
      else case hand_over E ctx now input peer of
        (Exit, peer') \<Rightarrow> Leave (view\<lparr>cv_editor := ed_set [] (cv_editor view)\<rparr>) peer'
      | (Continue, peer') \<Rightarrow>
          Stay (view\<lparr>cv_history := remember input (cv_history view), cv_editor := ed_set [] (cv_editor view),
                 cv_scroll := latest (cv_scroll view)\<rparr>) peer')"

definition on_history :: "(input_history \<times> line_editor \<Rightarrow> input_history \<times> line_editor) \<Rightarrow> chat_view \<Rightarrow> chat_view" where
  "on_history f view = (let (h, e) = f (cv_history view, cv_editor view) in view\<lparr>cv_history := h, cv_editor := e\<rparr>)"

definition scroll_page :: "int \<Rightarrow> chat_view \<Rightarrow> chat_view" where
  "scroll_page direction view =
     view\<lparr>cv_scroll := move_by (cv_lines view) (cv_height view) (direction * max 1 (cv_height view - 1)) (cv_scroll view)\<rparr>"

definition tab_key :: "chat_state_snapshot \<Rightarrow> chat_view \<Rightarrow> chat_view" where
  "tab_key state view = (let (hint, e) = complete (cv_host view) state (cv_editor view) in view\<lparr>cv_hint := hint, cv_editor := e\<rparr>)"

definition chat_key :: "environment \<Rightarrow> chat_context \<Rightarrow> string \<Rightarrow> keystroke \<Rightarrow> chat_view \<Rightarrow> chat_peer \<Rightarrow> chat_step" where
  "chat_key E ctx now k view0 peer =
     (let ch = ks_key k; view = view0\<lparr>cv_hint := []\<rparr> in
      if ch = ERR \<or> ch = KEY_RESIZE then Stay view0 peer
      else if cv_leaving view0
      then if is_enter ch then Leave view0 peer
           else if is_byte 27 ch then Stay (view0\<lparr>cv_leaving := False\<rparr>) peer
           else Stay view0 peer
      else if cv_help view0
      then Stay (if is_byte 27 ch \<or> ch = KEY_F 1 then view0\<lparr>cv_help := False\<rparr> else view0) peer
      else if is_byte 27 ch then Stay (view0\<lparr>cv_leaving := True\<rparr>) peer
      else if small_screen k then Stay view0 peer
      else if ch = KEY_F 3 then ShowDetails view
      else if ch = KEY_F 2 then ChooseRoom view
      else if is_enter ch then enter_key E ctx now view peer
      else if ch = KEY_UP then Stay (on_history hist_previous view) peer
      else if ch = KEY_DOWN then Stay (on_history hist_next view) peer
      else if ch = KEY_PPAGE then Stay (scroll_page (- 1) view) peer
      else if ch = KEY_NPAGE then Stay (scroll_page 1 view) peer
      else if is_byte 7 ch then Stay (view\<lparr>cv_scroll := latest (cv_scroll view)\<rparr>) peer
      else if is_byte 9 ch then Stay (tab_key (chat_state_snapshot (app_of peer)) view) peer
      else if is_byte 12 ch then Stay view peer
      else Stay (view\<lparr>cv_editor := edit_key ch MAX_CHAT_MESSAGE_LEN (cv_editor view)\<rparr>) peer)"

text \<open>Turns whose keys a menu or notice has read, of which \<open>rest\<close> are left.\<close>

definition others_meanwhile :: "turn list \<Rightarrow> nat \<Rightarrow> chat_peer \<Rightarrow> chat_peer" where
  "others_meanwhile turns rest peer = fold tn_others (take (length turns - rest) turns) peer"

definition room_items :: "chat_state_snapshot \<Rightarrow> menu_item list" where
  "room_items state = map (\<lambda>room. \<lparr>mi_shortcut = None, mi_title = ''# '' @ summary_name room,
     mi_description = word_to_string (summary_user_count room) @ '' people''\<rparr>) (snap_rooms state)"

definition connection_ended :: "chat_peer \<Rightarrow> bool" where
  "connection_ended peer = (case peer of Hosting st \<Rightarrow> False
     | Joined c \<Rightarrow> \<not> cl_connected c \<or> was_kicked (app_of peer))"

definition disconnect_notice :: "chat_peer \<Rightarrow> string" where
  "disconnect_notice peer = (case peer of Hosting st \<Rightarrow> [] | Joined c \<Rightarrow> ''[system] Connection ended: '' @ cl_disconnect_reason c)"

type_synonym chat_result = "(chat_exit \<times> string \<times> chat_peer \<times> turn list) option"

text \<open>
  The loop: how it ended, the draft, the client or server, and the turns left; \<open>None\<close> if it is still running
  after all turns.
\<close>

function chat_loop :: "environment \<Rightarrow> term_env \<Rightarrow> chat_context \<Rightarrow> chat_view \<Rightarrow> chat_peer \<Rightarrow> turn list \<Rightarrow> chat_result" where
  "chat_loop E W ctx view peer [] = None"
| "chat_loop E W ctx view peer (t # ts) =
     (let peer = tn_others t peer;
          view = snd (render_chat W (tn_lines t) (tn_cols t) (app_of peer) view);
          draft = ed_text (cv_editor view)
      in if connection_ended peer
         then if was_kicked (app_of peer)
              then case show_curses_notice (map tn_key (t # ts)) of
                     None \<Rightarrow> None
                   | Some ks \<Rightarrow> Some (ChatDisconnected, draft, others_meanwhile ts (length ks) peer, drop (length ts - length ks) ts)
              else Some (ChatDisconnected, draft, on_app (PushMessage (disconnect_notice peer)) peer, t # ts)
         else case chat_key E ctx (tn_now t) (tn_key t) view peer of
           Stay view peer \<Rightarrow> chat_loop E W ctx view peer ts
         | Leave view peer \<Rightarrow> Some (ChatLeft, ed_text (cv_editor view), peer, ts)
         | ShowDetails view \<Rightarrow>
             (case show_curses_notice (map tn_key ts) of
                None \<Rightarrow> None
              | Some ks \<Rightarrow> chat_loop E W ctx view (others_meanwhile ts (length ks) peer) (drop (length ts - length ks) ts))
         | ChooseRoom view \<Rightarrow>
             (let rooms = snap_rooms (chat_state_snapshot (app_of peer)) in
              case choose_curses_menu (room_items (chat_state_snapshot (app_of peer))) (map tn_key ts) of
                None \<Rightarrow> None
              | Some (choice, ks) \<Rightarrow>
                  let peer = others_meanwhile ts (length ks) peer;
                      peer = (if choice \<ge> 0
                              then snd (hand_over E ctx (tn_now t) (''/join '' @ summary_name (rooms ! nat choice)) peer) else peer)
                  in chat_loop E W ctx view peer (drop (length ts - length ks) ts)))"
  by pat_completeness auto
termination
  by (relation "measure (\<lambda>(E, W, ctx, view, peer, ts). length ts)") auto

definition run_curses_chat_loop :: "environment \<Rightarrow> term_env \<Rightarrow> chat_context \<Rightarrow> string \<Rightarrow> chat_peer \<Rightarrow> turn list \<Rightarrow> chat_result" where
  "run_curses_chat_loop E W ctx draft peer ts =
     chat_loop E W ctx \<lparr>cv_editor = ed_set draft \<lparr>ed_text = [], ed_cursor = 0\<rparr>,
       cv_history = \<lparr>hist_entries = [], hist_position = 0, hist_draft = []\<rparr>,
       cv_scroll = \<lparr>sb_follow = True, sb_message = 0, sb_part = 0\<rparr>, cv_lines = [], cv_height = 1,
       cv_nickname = cc_nickname ctx, cv_hint = [], cv_host = cc_host_commands ctx, cv_help = False,
       cv_leaving = False, cv_room = 0\<rparr> peer ts"

section \<open>The view\<close>

text \<open>
  The line, its draft and all lines sent are within the limit, and the help panel is closed: no key
  opens it.
\<close>

definition view_ok :: "chat_view \<Rightarrow> bool" where
  "view_ok view \<longleftrightarrow> ed_within MAX_CHAT_MESSAGE_LEN (cv_editor view) \<and>
     list_all (\<lambda>s. length s \<le> MAX_CHAT_MESSAGE_LEN) (hist_entries (cv_history view)) \<and>
     length (hist_draft (cv_history view)) \<le> MAX_CHAT_MESSAGE_LEN \<and>
     hist_position (cv_history view) \<le> length (hist_entries (cv_history view)) \<and> \<not> cv_help view"

lemma view_okD: "view_ok view \<Longrightarrow> ed_within MAX_CHAT_MESSAGE_LEN (cv_editor view)" "view_ok view \<Longrightarrow> \<not> cv_help view"
  by (simp_all add: view_ok_def)

lemma view_ok_simps [simp]:
  "view_ok (view\<lparr>cv_hint := h\<rparr>) = view_ok view" "view_ok (view\<lparr>cv_leaving := b\<rparr>) = view_ok view"
  "view_ok (view\<lparr>cv_scroll := s\<rparr>) = view_ok view"
  by (simp_all add: view_ok_def)

lemma view_ok_editor: "view_ok view \<Longrightarrow> ed_within MAX_CHAT_MESSAGE_LEN e \<Longrightarrow> view_ok (view\<lparr>cv_editor := e\<rparr>)"
  by (simp add: view_ok_def)

lemma view_ok_render: "view_ok (snd (render_chat W L C app view)) = view_ok view"
  "cv_editor (snd (render_chat W L C app view)) = cv_editor view"
  by (simp_all add: render_chat_def update_view_def view_ok_def Let_def split: option.split)

lemma remember_within:
  assumes "list_all (\<lambda>s. length s \<le> n) (hist_entries h)" "length x \<le> n"
  shows "list_all (\<lambda>s. length s \<le> n) (hist_entries (remember x h))" "hist_draft (remember x h) = []"
    "hist_position (remember x h) = length (hist_entries (remember x h))"
  using assms set_tl [of _ "hist_entries h @ [x]"] set_tl [of _ "hist_entries h"]
  by (auto simp: remember_def hist_reset_def Let_def list_all_iff)

lemma view_ok_history:
  assumes "view_ok view"
  shows "view_ok (on_history hist_previous view)" "view_ok (on_history hist_next view)"
  using assms
  by (auto simp: on_history_def hist_previous_def hist_next_def Let_def view_ok_def ed_within_def ed_set_def
      list_all_length)

lemma complete_within:
  assumes "ed_within MAX_CHAT_MESSAGE_LEN e"
  shows "ed_within MAX_CHAT_MESSAGE_LEN (snd (complete host state e))"
proof -
  have "ed_cursor e \<le> length (ed_text e)" "length (ed_text e) \<le> MAX_CHAT_MESSAGE_LEN"
    using assms by (simp_all add: ed_within_def)
  note word = complete_word [OF this, of host state]
  have "word_start e \<le> length (ed_text e)"
    using assms rfind_char_less [of "CHR '' ''" "take (ed_cursor e) (ed_text e)"]
    by (fastforce simp: ed_within_def word_start_def split: option.split)
  with word assms show ?thesis
    by (cases "candidates host e state = []") (auto simp: ed_within_def complete_def Let_def)
qed

lemma view_ok_enter:
  assumes "view_ok view" "hand_over E ctx now (ed_text (cv_editor view)) peer = (r, peer')"
  shows "view_ok (view\<lparr>cv_history := remember (ed_text (cv_editor view)) (cv_history view),
      cv_editor := ed_set [] (cv_editor view), cv_scroll := s\<rparr>)"
    "view_ok (view\<lparr>cv_editor := ed_set [] (cv_editor view)\<rparr>)"
  using assms(1) remember_within [of MAX_CHAT_MESSAGE_LEN "cv_history view" "ed_text (cv_editor view)"]
  by (auto simp: view_ok_def ed_within_def ed_set_def)

text \<open>What a key may do to the view and to the client or server.\<close>

fun chat_step_ok :: "environment \<Rightarrow> chat_context \<Rightarrow> string \<Rightarrow> keystroke \<Rightarrow> chat_view \<Rightarrow> chat_peer \<Rightarrow> chat_step \<Rightarrow> bool" where
  "chat_step_ok E ctx now k view peer (Stay view' peer') \<longleftrightarrow> view_ok view' \<and>
     (peer' = peer \<or>
      is_enter (ks_key k) \<and> ed_text (cv_editor view) \<noteq> [] \<and> length (ed_text (cv_editor view)) \<le> MAX_CHAT_MESSAGE_LEN \<and>
      hand_over E ctx now (ed_text (cv_editor view)) peer = (Continue, peer') \<and> ed_text (cv_editor view') = [])"
| "chat_step_ok E ctx now k view peer (Leave view' peer') \<longleftrightarrow> view_ok view' \<and> is_enter (ks_key k) \<and>
     (cv_leaving view \<and> view' = view \<and> peer' = peer \<or>
      \<not> cv_leaving view \<and> hand_over E ctx now (ed_text (cv_editor view)) peer = (Exit, peer'))"
| "chat_step_ok E ctx now k view peer (ShowDetails view') \<longleftrightarrow> view_ok view' \<and> ks_key k = KEY_F 3"
| "chat_step_ok E ctx now k view peer (ChooseRoom view') \<longleftrightarrow> view_ok view' \<and> ks_key k = KEY_F 2"

lemma enter_key_ok:
  assumes "view_ok view" "is_enter (ks_key k)" "\<not> cv_leaving view"
  shows "chat_step_ok E ctx now k view peer (enter_key E ctx now (view\<lparr>cv_hint := []\<rparr>) peer)"
proof (cases "ed_text (cv_editor view) = []")
  case False
  obtain r peer' where h: "hand_over E ctx now (ed_text (cv_editor view)) peer = (r, peer')" by fastforce
  have "length (ed_text (cv_editor view)) \<le> MAX_CHAT_MESSAGE_LEN" using assms(1) by (simp add: view_ok_def ed_within_def)
  with False h assms view_ok_enter [of "view\<lparr>cv_hint := []\<rparr>" E ctx now peer r peer'] show ?thesis
    by (cases r) (simp_all add: enter_key_def ed_set_def)
qed (use assms in \<open>simp add: enter_key_def\<close>)

lemma chat_step_ok_if:
  "(c \<Longrightarrow> chat_step_ok E ctx now k view peer x) \<Longrightarrow> (\<not> c \<Longrightarrow> chat_step_ok E ctx now k view peer y) \<Longrightarrow>
     chat_step_ok E ctx now k view peer (if c then x else y)"
  by simp

lemma chat_key_ok:
  assumes "view_ok view"
  shows "chat_step_ok E ctx now k view peer (chat_key E ctx now k view peer)"
  unfolding chat_key_def Let_def
proof (intro chat_step_ok_if)
  assume "is_enter (ks_key k)" "\<not> cv_leaving view"
  then show "chat_step_ok E ctx now k view peer (enter_key E ctx now (view\<lparr>cv_hint := []\<rparr>) peer)"
    using assms by (rule enter_key_ok [rotated])
qed (use assms view_ok_history [of "view\<lparr>cv_hint := []\<rparr>"] view_okD [of view] in
    \<open>auto simp: scroll_page_def tab_key_def case_prod_unfold Let_def intro!: view_ok_editor ed_within_edit_key complete_within\<close>)

lemma is_enter_others:
  assumes "is_enter ch"
  shows "ch \<noteq> ERR" "ch \<noteq> KEY_RESIZE" "\<not> is_byte 27 ch" "ch \<noteq> KEY_F n"
  using assms by (auto simp: is_enter_def is_byte_def split: key.splits)

lemma chat_key_enter:
  assumes "is_enter (ks_key k)" "\<not> cv_leaving view" "\<not> cv_help view" "\<not> small_screen k"
  shows "chat_key E ctx now k view peer = enter_key E ctx now (view\<lparr>cv_hint := []\<rparr>) peer"
  using assms is_enter_others [OF assms(1)] by (simp add: chat_key_def)

section \<open>What users can rely on\<close>

text \<open>
  What a key does. In a view as the loop keeps it, every key leaves the line and the history
  within their limits and the help panel closed. The client or server is changed by Enter only, and then
  by handing over exactly the line as it stands, of 1 to 1000 bytes, once, and the line is cleared; on a terminal that is
  large enough, Enter on a line that is not empty always does so and remembers the line. The chat is
  left only by Enter on the question whether to leave or by a command to exit; and only F2 and F3 open the
  list of rooms and the connection details.
\<close>

theorem key_effects:
  assumes "view_ok view"
  shows "(case chat_key E ctx now k view peer of
      Stay view' peer' \<Rightarrow> view_ok view' \<and>
        (peer' = peer \<or>
         is_enter (ks_key k) \<and> ed_text (cv_editor view) \<noteq> [] \<and> length (ed_text (cv_editor view)) \<le> MAX_CHAT_MESSAGE_LEN \<and>
         hand_over E ctx now (ed_text (cv_editor view)) peer = (Continue, peer') \<and> ed_text (cv_editor view') = [])
    | Leave view' peer' \<Rightarrow> view_ok view' \<and> is_enter (ks_key k) \<and>
        (cv_leaving view \<and> view' = view \<and> peer' = peer \<or>
         \<not> cv_leaving view \<and> hand_over E ctx now (ed_text (cv_editor view)) peer = (Exit, peer'))
    | ShowDetails view' \<Rightarrow> view_ok view' \<and> ks_key k = KEY_F 3
    | ChooseRoom view' \<Rightarrow> view_ok view' \<and> ks_key k = KEY_F 2) \<and>
    (is_enter (ks_key k) \<and> \<not> cv_leaving view \<and> \<not> small_screen k \<and> ed_text (cv_editor view) \<noteq> [] \<longrightarrow>
      (case hand_over E ctx now (ed_text (cv_editor view)) peer of
         (Continue, peer') \<Rightarrow> \<exists>view'. chat_key E ctx now k view peer = Stay view' peer' \<and> ed_text (cv_editor view') = [] \<and>
           cv_history view' = remember (ed_text (cv_editor view)) (cv_history view)
       | (Exit, peer') \<Rightarrow> \<exists>view'. chat_key E ctx now k view peer = Leave view' peer' \<and> ed_text (cv_editor view') = []))"
proof (intro conjI impI, goal_cases)
  case 1
  from chat_key_ok [OF assms, of E ctx now k peer] show ?case by (auto split: chat_step.split)
next
  case 2
  with assms have "chat_key E ctx now k view peer = enter_key E ctx now (view\<lparr>cv_hint := []\<rparr>) peer"
    by (auto intro!: chat_key_enter simp: view_ok_def)
  with 2 show ?case by (auto simp: enter_key_def Let_def ed_set_def split: chat_input_result.split prod.split)
qed

theorem key_effects_witness:
  "case chat_key demo_env \<lparr>cc_nickname = [], cc_host_commands = True, cc_details = []\<rparr> ''12:00'' (press (Byte CHR ''x''))
       demo_view (Hosting started) of
     Stay view' peer' \<Rightarrow> view_ok view' \<and> peer' = Hosting started | _ \<Rightarrow> False"
proof -
  have "view_ok demo_view" by (simp add: view_ok_def demo_view_def ed_within_def MAX_CHAT_MESSAGE_LEN_def protocol_limits)
  from key_effects [OF this, where E = demo_env and ctx = "\<lparr>cc_nickname = [], cc_host_commands = True, cc_details = []\<rparr>"
      and now = "''12:00''" and k = "press (Byte CHR ''x'')" and peer = "Hosting started"]
  show ?thesis
    by (simp add: chat_key_def press_def is_byte_def is_enter_def small_screen_def byte_def demo_view_def)
qed

lemma hosted_hand_over:
  "hosted E (cc_nickname ctx) peer \<Longrightarrow> hosted E (cc_nickname ctx) (snd (hand_over E ctx now input peer))"
  unfolding hand_over_def by (rule hosted_input)

lemma hosted_meanwhile:
  "(\<And>t p. t \<in> set ts \<Longrightarrow> hosted E nick p \<Longrightarrow> hosted E nick (tn_others t p)) \<Longrightarrow> hosted E nick peer \<Longrightarrow>
     hosted E nick (others_meanwhile ts n peer)"
proof -
  have "hosted E nick (fold tn_others us peer)"
    if "\<And>t p. t \<in> set us \<Longrightarrow> hosted E nick p \<Longrightarrow> hosted E nick (tn_others t p)" "hosted E nick peer" for us
    using that by (induction us arbitrary: peer) auto
  then show "(\<And>t p. t \<in> set ts \<Longrightarrow> hosted E nick p \<Longrightarrow> hosted E nick (tn_others t p)) \<Longrightarrow> hosted E nick peer \<Longrightarrow>
     hosted E nick (others_meanwhile ts n peer)"
    unfolding others_meanwhile_def by (metis in_set_takeD)
qed

lemma hosted_not_ended: "hosted E nick peer \<Longrightarrow> \<not> connection_ended peer"
  by (auto simp: hosted_def connection_ended_def)

lemma chat_loop_hosted:
  "chat_loop E W ctx view peer ts = Some (e, draft, peer', rest) \<Longrightarrow> hosted E (cc_nickname ctx) peer \<Longrightarrow> view_ok view \<Longrightarrow>
   (\<And>t p. t \<in> set ts \<Longrightarrow> hosted E (cc_nickname ctx) p \<Longrightarrow> hosted E (cc_nickname ctx) (tn_others t p)) \<Longrightarrow>
     hosted E (cc_nickname ctx) peer' \<and> e = ChatLeft \<and> length draft \<le> MAX_CHAT_MESSAGE_LEN"
proof (induction E W ctx view peer ts rule: chat_loop.induct)
  case (2 E W ctx view peer t ts)
  let ?peer = "tn_others t peer"
  let ?view = "snd (render_chat W (tn_lines t) (tn_cols t) (app_of ?peer) view)"
  have peer: "hosted E (cc_nickname ctx) ?peer" using "2.prems" by simp
  have view: "view_ok ?view" using "2.prems"(3) by (simp add: view_ok_render)
  note step = chat_key_ok [OF view, of E ctx "tn_now t" "tn_key t" ?peer]
  have more: "\<And>u p. u \<in> set (drop n ts) \<Longrightarrow> hosted E (cc_nickname ctx) p \<Longrightarrow> hosted E (cc_nickname ctx) (tn_others u p)" for n
    using "2.prems"(4) by (metis in_set_dropD list.set_intros(2))
  have meanwhile: "hosted E (cc_nickname ctx) (others_meanwhile ts n ?peer)" for n
    using peer "2.prems"(4) by (intro hosted_meanwhile) auto
  show ?case
  proof (cases "chat_key E ctx (tn_now t) (tn_key t) ?view ?peer")
    case (Stay view' peer1)
    with step have "view_ok view'" "peer1 = ?peer \<or> peer1 = snd (hand_over E ctx (tn_now t) (ed_text (cv_editor ?view)) ?peer)"
      by auto
    then show ?thesis
      using "2.IH"(1) [OF refl refl refl hosted_not_ended [OF peer] Stay] "2.prems" peer more [of _ 0] hosted_not_ended [OF peer]
      by (auto simp: Stay Let_def hosted_hand_over)
  next
    case (Leave view' peer1)
    with step have "view_ok view'" "peer1 = ?peer \<or> peer1 = snd (hand_over E ctx (tn_now t) (ed_text (cv_editor ?view)) ?peer)"
      by auto
    then show ?thesis
      using "2.prems"(1) peer hosted_not_ended [OF peer]
      by (auto simp: Leave Let_def hosted_hand_over view_ok_def ed_within_def)
  next
    case (ShowDetails view')
    with step have "view_ok view'" by simp
    then show ?thesis
      using "2.IH"(2) [OF refl refl refl hosted_not_ended [OF peer] ShowDetails] "2.prems"(1) more meanwhile hosted_not_ended [OF peer]
      by (auto simp: ShowDetails Let_def split: option.splits)
  next
    case (ChooseRoom view')
    with step have "view_ok view'" by simp
    then show ?thesis
      using "2.IH"(3) [OF refl refl refl hosted_not_ended [OF peer] ChooseRoom refl] "2.prems"(1) more meanwhile hosted_not_ended [OF peer]
      by (auto simp: ChooseRoom Let_def hosted_hand_over split: option.splits prod.splits if_splits)
  qed
qed simp

text \<open>
  A host's screen works on the server through its steps only. If the server is in a reachable state and
  other threads keep it in one, then after any keys, menus and notices included, a chat that is left has left the
  server in a reachable state with the same local nickname; the chat of a host ends by leaving, never by a lost
  connection; and the draft that is kept is within the limit.
\<close>

theorem host_screen_safe:
  assumes "reachable E st" "local_nickname st = cc_nickname ctx" "length draft \<le> MAX_CHAT_MESSAGE_LEN"
    and "\<forall>t \<in> set turns. \<forall>p. hosted E (cc_nickname ctx) p \<longrightarrow> hosted E (cc_nickname ctx) (tn_others t p)"
    and "run_curses_chat_loop E W ctx draft (Hosting st) turns = Some (exit, draft', peer', rest)"
  shows "exit = ChatLeft \<and> length draft' \<le> MAX_CHAT_MESSAGE_LEN \<and>
    (\<exists>st'. peer' = Hosting st' \<and> reachable E st' \<and> local_nickname st' = cc_nickname ctx)"
proof -
  have "hosted E (cc_nickname ctx) peer' \<and> exit = ChatLeft \<and> length draft' \<le> MAX_CHAT_MESSAGE_LEN"
    using assms
    by (intro chat_loop_hosted [OF assms(5) [unfolded run_curses_chat_loop_def]])
      (auto simp: hosted_def view_ok_def)
  then show ?thesis by (auto simp: hosted_def)
qed

definition demo_turn :: "key \<Rightarrow> turn" where
  "demo_turn k = \<lparr>tn_others = id, tn_lines = 5, tn_cols = 20, tn_now = ''12:00'', tn_key = press k\<rparr>"

definition demo_context :: chat_context where
  "demo_context = \<lparr>cc_nickname = [], cc_host_commands = True, cc_details = []\<rparr>"

theorem host_screen_safe_witness:
  "\<exists>st'. run_curses_chat_loop demo_env ascii_env demo_context ''hi'' (Hosting started)
       [demo_turn (Byte CHR 0x1B), demo_turn KEY_ENTER] = Some (ChatLeft, ''hi'', Hosting st', []) \<and> reachable demo_env st'"
proof -
  have run: "run_curses_chat_loop demo_env ascii_env demo_context ''hi'' (Hosting started)
       [demo_turn (Byte CHR 0x1B), demo_turn KEY_ENTER] = Some (ChatLeft, ''hi'', Hosting started, [])"
    by (simp add: run_curses_chat_loop_def demo_turn_def demo_context_def render_chat_def too_small_def connection_ended_def
        chat_key_def press_def is_byte_def is_enter_def byte_def Let_def ed_set_def)
  have "reachable demo_env started" "local_nickname started = cc_nickname demo_context"
    by (simp_all add: started_def reachable.start demo_context_def started_fields [unfolded started_def])
  from host_screen_safe [OF this _ _ run] run show ?thesis
    by (simp add: demo_turn_def MAX_CHAT_MESSAGE_LEN_def protocol_limits)
qed

end
