(* ===== verification/Storage.thy ===== *)
theory Storage
  imports Chat_Server "HOL-Library.Product_Lexorder"
begin

text \<open>
  \<open>storage/storage.cpp\<close>: the server's database. A table is the list of its rows; a definition
  per SQL statement of the file says what the statement does to them, the constraints of the
  schema included: \<open>None\<close> is an exception, and a transaction that throws leaves the database as it
  was. SQLite itself (files, locks, errors of the disk) is the environment: whether a transaction
  commits is an argument of the steps of the writer.

  Shown: paging through a room's history with the cursors gives every message once, newest
  first, and ends; the queue of writes loses nothing and reorders nothing as long as its
  transactions commit; importing the old files twice imports them once.
\<close>

section \<open>The schema\<close>

record database =
  db_version :: nat
  db_rooms :: "stored_room list"
  db_identities :: "(string \<times> string \<times> int) list"
  db_bans :: "stored_ban list"
  db_messages :: "stored_message list"
  db_imports :: "(string \<times> int) list"

definition SCHEMA_VERSION :: nat where "SCHEMA_VERSION = 3"
definition MAX_PENDING_WRITES :: nat where "MAX_PENDING_WRITES = 4096"
definition MAX_HISTORY_PAGE :: nat where "MAX_HISTORY_PAGE = 500"

text \<open>A database file without tables has version 0.\<close>

definition empty_database :: database where
  "empty_database = \<lparr>db_version = 0, db_rooms = [], db_identities = [], db_bans = [], db_messages = [], db_imports = []\<rparr>"

text \<open>The steps of \<open>migrate\<close>. The column added by the second one has the default \<open>''\<close>.\<close>

definition create_tables :: "int \<Rightarrow> database \<Rightarrow> database" where
  "create_tables now db = db\<lparr>db_version := 1, db_identities := [], db_bans := [], db_messages := [],
     db_rooms := [\<lparr>sr_id = 1, sr_name = ''lobby'', sr_topic = ''Welcome to the lobby'', sr_owner = [], sr_created_at = now\<rparr>]\<rparr>"

definition add_owner_column :: "database \<Rightarrow> database" where
  "add_owner_column db = db\<lparr>db_version := 2, db_rooms := map (sr_owner_update (\<lambda>_. [])) (db_rooms db)\<rparr>"

definition create_imports_table :: "database \<Rightarrow> database" where
  "create_imports_table db = db\<lparr>db_version := 3, db_imports := []\<rparr>"

definition migrate :: "int \<Rightarrow> database \<Rightarrow> database option" where
  "migrate now db =
     (if db_version db > SCHEMA_VERSION then None
      else let db = (if db_version db < 1 then create_tables now db else db);
               db = (if db_version db < 2 then add_owner_column db else db);
               db = (if db_version db < 3 then create_imports_table db else db)
           in Some db)"

section \<open>Writing\<close>

text \<open>\<open>UNIQUE\<close> with \<open>COLLATE NOCASE\<close>: no other room has the name up to the case of its letters.\<close>

definition name_clash :: "stored_room \<Rightarrow> database \<Rightarrow> bool" where
  "name_clash item db \<longleftrightarrow> list_ex (\<lambda>r. sr_id r \<noteq> sr_id item \<and>
     normalized_room_name (sr_name r) = normalized_room_name (sr_name item)) (db_rooms db)"

definition upsert_room :: "stored_room \<Rightarrow> database \<Rightarrow> database option" where
  "upsert_room item db =
     (if name_clash item db then None
      else if list_ex (\<lambda>r. sr_id r = sr_id item) (db_rooms db)
      then Some (db\<lparr>db_rooms := map (\<lambda>r. if sr_id r = sr_id item
             then r\<lparr>sr_name := sr_name item, sr_topic := sr_topic item, sr_owner := sr_owner item\<rparr> else r) (db_rooms db)\<rparr>)
      else Some (db\<lparr>db_rooms := db_rooms db @ [item]\<rparr>))"

definition update_topic_row :: "room_id \<Rightarrow> string \<Rightarrow> database \<Rightarrow> database" where
  "update_topic_row rid topic db =
     db\<lparr>db_rooms := map (\<lambda>r. if sr_id r = rid then r\<lparr>sr_topic := topic\<rparr> else r) (db_rooms db)\<rparr>"

definition upsert_identity :: "int \<Rightarrow> string \<Rightarrow> string \<Rightarrow> database \<Rightarrow> database" where
  "upsert_identity now nick key db =
     (if list_ex (\<lambda>(n, k, t). n = nick) (db_identities db)
      then db\<lparr>db_identities := map (\<lambda>(n, k, t). if n = nick then (n, key, t) else (n, k, t)) (db_identities db)\<rparr>
      else db\<lparr>db_identities := db_identities db @ [(nick, key, now)]\<rparr>)"

definition upsert_ban :: "stored_ban \<Rightarrow> database \<Rightarrow> database" where
  "upsert_ban ban db =
     (if list_ex (\<lambda>b. sb_nickname b = sb_nickname ban) (db_bans db)
      then db\<lparr>db_bans := map (\<lambda>b. if sb_nickname b = sb_nickname ban then ban else b) (db_bans db)\<rparr>
      else db\<lparr>db_bans := db_bans db @ [ban]\<rparr>)"

definition delete_ban :: "string \<Rightarrow> database \<Rightarrow> database" where
  "delete_ban nick db = db\<lparr>db_bans := filter (\<lambda>b. sb_nickname b \<noteq> nick) (db_bans db)\<rparr>"

text \<open>\<open>INSERT OR IGNORE\<close> passes over a message with a known id; a missing room is an error.\<close>

definition insert_message :: "stored_message \<Rightarrow> database \<Rightarrow> database option" where
  "insert_message m db =
     (if list_ex (\<lambda>m'. sm_id m' = sm_id m) (db_messages db) then Some db
      else if \<not> list_ex (\<lambda>r. sr_id r = sm_room_id m) (db_rooms db) then None
      else Some (db\<lparr>db_messages := db_messages db @ [m]\<rparr>))"

text \<open>\<open>Flush\<close> is the one request that is not a write: it waits.\<close>

fun execute_write :: "int \<Rightarrow> storage_request \<Rightarrow> database \<Rightarrow> database option" where
  "execute_write now (StoreRoom item) db = upsert_room item db"
| "execute_write now (UpdateTopic rid topic) db = Some (update_topic_row rid topic db)"
| "execute_write now (StoreIdentity nick key) db = Some (upsert_identity now nick key db)"
| "execute_write now (StoreBan ban) db = Some (upsert_ban ban db)"
| "execute_write now (RemoveBan nick) db = Some (delete_ban nick db)"
| "execute_write now (StoreMessage m) db = insert_message m db"
| "execute_write now Flush db = Some db"

text \<open>\<open>clock\<close>: what \<open>unix_seconds()\<close> returns at each write.\<close>

fun execute_writes :: "(nat \<Rightarrow> int) \<Rightarrow> storage_request list \<Rightarrow> database \<Rightarrow> database option" where
  "execute_writes clock [] db = Some db"
| "execute_writes clock (w # ws) db =
     (case execute_write (clock 0) w db of None \<Rightarrow> None | Some db \<Rightarrow> execute_writes (\<lambda>i. clock (Suc i)) ws db)"

section \<open>The queue of writes\<close>

record writer =
  wr_queue :: "storage_request list"
  wr_batch :: "storage_request list"
  wr_writing :: bool
  wr_stopping :: bool
  wr_error :: string
  wr_db :: database

definition enqueue :: "storage_request \<Rightarrow> writer \<Rightarrow> bool \<times> writer" where
  "enqueue write w =
     (if wr_stopping w \<or> length (wr_queue w) \<ge> MAX_PENDING_WRITES
      then (False, w\<lparr>wr_error := ''SQLite write queue is full''\<rparr>)
      else (True, w\<lparr>wr_queue := wr_queue w @ [write]\<rparr>))"

text \<open>The two halves of the loop of \<open>run\<close>: taking a batch, and its transaction.\<close>

definition take_batch :: "writer \<Rightarrow> writer" where
  "take_batch w =
     (let count = min (length (wr_queue w)) 64
      in w\<lparr>wr_writing := True, wr_batch := take count (wr_queue w), wr_queue := drop count (wr_queue w)\<rparr>)"

text \<open>\<open>disk\<close>: the error SQLite reports, if it reports one that the constraints do not explain.\<close>

definition run_batch :: "(nat \<Rightarrow> int) \<Rightarrow> string option \<Rightarrow> string \<Rightarrow> writer \<Rightarrow> writer" where
  "run_batch clock disk violation w =
     (let w' = w\<lparr>wr_writing := False, wr_batch := []\<rparr> in
      case disk of
        Some detail \<Rightarrow> w'\<lparr>wr_error := detail\<rparr>
      | None \<Rightarrow>
          (case execute_writes clock (wr_batch w) (wr_db w) of
             None \<Rightarrow> w'\<lparr>wr_error := violation\<rparr>
           | Some db \<Rightarrow> w'\<lparr>wr_db := db\<rparr>))"

text \<open>The condition \<open>flush\<close> waits for.\<close>

definition drained :: "writer \<Rightarrow> bool" where
  "drained w \<longleftrightarrow> wr_queue w = [] \<and> \<not> wr_writing w"

definition new_writer :: "database \<Rightarrow> writer" where
  "new_writer db = \<lparr>wr_queue = [], wr_batch = [], wr_writing = False, wr_stopping = False, wr_error = [], wr_db = db\<rparr>"

definition stop_writer :: "writer \<Rightarrow> writer" where
  "stop_writer w = w\<lparr>wr_stopping := True\<rparr>"

section \<open>Reading\<close>

text \<open>\<open>column_text\<close> ends at the first zero byte.\<close>

definition column_text :: "string \<Rightarrow> string" where
  "column_text s = takeWhile (\<lambda>c. c \<noteq> CHR 0x00) s"

definition no_nul :: "string \<Rightarrow> bool" where
  "no_nul s \<longleftrightarrow> CHR 0x00 \<notin> set s"

definition db_load_rooms :: "database \<Rightarrow> stored_room list" where
  "db_load_rooms db = map (\<lambda>r. r\<lparr>sr_name := column_text (sr_name r), sr_topic := column_text (sr_topic r),
     sr_owner := column_text (sr_owner r)\<rparr>) (sort_key (\<lambda>r. sint (sr_id r)) (db_rooms db))"

definition db_load_identities :: "database \<Rightarrow> (string \<times> string) list" where
  "db_load_identities db = map (\<lambda>(n, k, t). (column_text n, column_text k)) (sort_key fst (db_identities db))"

definition expire_bans :: "int \<Rightarrow> database \<Rightarrow> database" where
  "expire_bans now db =
     db\<lparr>db_bans := filter (\<lambda>b. \<not> (case sb_expires_at b of None \<Rightarrow> False | Some t \<Rightarrow> t \<le> now)) (db_bans db)\<rparr>"

definition db_load_bans :: "int \<Rightarrow> database \<Rightarrow> stored_ban list \<times> database" where
  "db_load_bans now db =
     (let db = expire_bans now db
      in (map (\<lambda>b. b\<lparr>sb_nickname := column_text (sb_nickname b), sb_reason := column_text (sb_reason b)\<rparr>)
            (sort_key sb_nickname (db_bans db)), db))"

type_synonym history_cursor = "int \<times> string"

record history_page =
  hp_messages :: "stored_message list"
  hp_next :: "history_cursor option"

definition message_key :: "stored_message \<Rightarrow> history_cursor" where
  "message_key m = (sm_sent_at m, sm_id m)"

definition message_text :: "stored_message \<Rightarrow> stored_message" where
  "message_text m = m\<lparr>sm_id := column_text (sm_id m), sm_nickname := column_text (sm_nickname m), sm_body := column_text (sm_body m)\<rparr>"

text \<open>\<open>WHERE room_id=? [AND before the cursor] ORDER BY sent_at DESC, id DESC\<close>.\<close>

definition select_history :: "room_id \<Rightarrow> history_cursor option \<Rightarrow> database \<Rightarrow> stored_message list" where
  "select_history rid before db =
     rev (sort_key message_key (filter (\<lambda>m. sm_room_id m = rid \<and>
       (case before of None \<Rightarrow> True
        | Some (t, i) \<Rightarrow> sm_sent_at m < t \<or> (sm_sent_at m = t \<and> sm_id m < i))) (db_messages db)))"

definition page_limit :: "nat \<Rightarrow> nat" where
  "page_limit limit = max 1 (min limit MAX_HISTORY_PAGE)"

definition db_load_history :: "room_id \<Rightarrow> nat \<Rightarrow> history_cursor option \<Rightarrow> database \<Rightarrow> history_page" where
  "db_load_history rid limit before db =
     (let limit = page_limit limit;
          messages = map message_text (take (limit + 1) (select_history rid before db))
      in if length messages > limit
         then let messages = butlast messages
              in \<lparr>hp_messages = messages, hp_next = Some (message_key (last messages))\<rparr>
         else \<lparr>hp_messages = messages, hp_next = None\<rparr>)"

section \<open>Importing the old files\<close>

text \<open>
  One transaction. Every line of a file reads the clock when its row is inserted, and once
  more when the import is marked as finished.
\<close>

record import_result =
  ir_bans :: nat
  ir_identities :: nat
  ir_bans_already :: bool
  ir_identities_already :: bool

definition insert_ban_ignore :: "int \<Rightarrow> string \<Rightarrow> nat \<times> database \<Rightarrow> nat \<times> database" where
  "insert_ban_ignore now nick nd =
     (let (n, db) = nd in
      if \<not> utils_is_valid_nickname nick then (n, db)
      else if list_ex (\<lambda>b. sb_nickname b = nick) (db_bans db) then (n, db)
      else (Suc n, db\<lparr>db_bans := db_bans db @ [\<lparr>sb_nickname = nick, sb_reason = [], sb_created_at = now, sb_expires_at = None\<rparr>]\<rparr>))"

definition insert_identity_ignore :: "int \<Rightarrow> string \<Rightarrow> nat \<times> database \<Rightarrow> nat \<times> database" where
  "insert_identity_ignore now line nd =
     (let (n, db) = nd in
      case identity_line line of
        None \<Rightarrow> (n, db)
      | Some (nick, key) \<Rightarrow>
          if list_ex (\<lambda>(n, k, t). n = nick) (db_identities db) then (n, db)
          else (Suc n, db\<lparr>db_identities := db_identities db @ [(nick, key, now)]\<rparr>))"

definition was_imported :: "string \<Rightarrow> database \<Rightarrow> bool" where
  "was_imported kind db \<longleftrightarrow> list_ex (\<lambda>(k, t). k = kind) (db_imports db)"

definition mark_imported :: "string \<Rightarrow> int \<Rightarrow> database \<Rightarrow> database" where
  "mark_imported kind now db = db\<lparr>db_imports := db_imports db @ [(kind, now)]\<rparr>"

definition import_bans :: "(nat \<Rightarrow> int) \<Rightarrow> (string \<Rightarrow> string option) \<Rightarrow> string \<Rightarrow> import_result \<times> database \<Rightarrow> import_result \<times> database" where
  "import_bans clock fs path rd =
     (let (result, db) = rd in
      if path = [] then (result, db)
      else if was_imported ''bans'' db then (result\<lparr>ir_bans_already := True\<rparr>, db)
      else case fs path of
        None \<Rightarrow> (result, db)
      | Some body \<Rightarrow>
          let lines = split body CHR 0x0A;
              (n, db) = fold (\<lambda>(i, nick). insert_ban_ignore (clock i) nick) (enumerate 0 lines) (ir_bans result, db)
          in (result\<lparr>ir_bans := n\<rparr>, mark_imported ''bans'' (clock (length lines)) db))"

definition import_identities :: "(nat \<Rightarrow> int) \<Rightarrow> (string \<Rightarrow> string option) \<Rightarrow> string \<Rightarrow> import_result \<times> database \<Rightarrow> import_result \<times> database" where
  "import_identities clock fs path rd =
     (let (result, db) = rd in
      if path = [] then (result, db)
      else if was_imported ''identities'' db then (result\<lparr>ir_identities_already := True\<rparr>, db)
      else case fs path of
        None \<Rightarrow> (result, db)
      | Some body \<Rightarrow>
          let lines = split body CHR 0x0A;
              (n, db) = fold (\<lambda>(i, line). insert_identity_ignore (clock i) line) (enumerate 0 lines) (ir_identities result, db)
          in (result\<lparr>ir_identities := n\<rparr>, mark_imported ''identities'' (clock (length lines)) db))"

definition db_import_legacy_files ::
  "(nat \<Rightarrow> int) \<Rightarrow> (nat \<Rightarrow> int) \<Rightarrow> (string \<Rightarrow> string option) \<Rightarrow> string \<Rightarrow> string \<Rightarrow> database \<Rightarrow> import_result \<times> database" where
  "db_import_legacy_files clock clock' fs bans_path identities_path db =
     import_identities clock' fs identities_path (import_bans clock fs bans_path
       (\<lparr>ir_bans = 0, ir_identities = 0, ir_bans_already = False, ir_identities_already = False\<rparr>, db))"

section \<open>Paging\<close>

text \<open>Following the cursors for at most a number of pages; \<open>None\<close> when that is not enough.\<close>

fun history_pages :: "nat \<Rightarrow> room_id \<Rightarrow> nat \<Rightarrow> history_cursor option \<Rightarrow> database \<Rightarrow> stored_message list option" where
  "history_pages 0 rid limit before db = None"
| "history_pages (Suc n) rid limit before db =
     (let page = db_load_history rid limit before db in
      case hp_next page of
        None \<Rightarrow> Some (hp_messages page)
      | Some cursor \<Rightarrow> map_option ((@) (hp_messages page)) (history_pages n rid limit (Some cursor) db))"

text \<open>The primary key of the messages, and ids that are text.\<close>

definition wf_messages :: "database \<Rightarrow> bool" where
  "wf_messages db \<longleftrightarrow> distinct (map sm_id (db_messages db)) \<and>
     list_all (\<lambda>m. CHR 0x00 \<notin> set (sm_id m)) (db_messages db)"

lemma column_text_id [simp]: "CHR 0x00 \<notin> set s \<Longrightarrow> column_text s = s"
  by (auto simp: column_text_def takeWhile_eq_all_conv)

lemma column_text_plain [simp]: "no_nul s \<Longrightarrow> column_text s = s"
  by (simp add: no_nul_def)

lemma nul_cntrl [simp]: "iscntrl CHR 0x00"
  by (simp add: iscntrl_def byte_def)

lemma nickname_no_nul:
  assumes "is_valid_nickname n"
  shows "no_nul n"
proof -
  from assms have "\<not> list_ex iscntrl n"
    by (simp add: is_valid_nickname_def list_ex_iff split: if_splits)
  with nul_cntrl show ?thesis unfolding no_nul_def list_ex_iff by blast
qed

lemma desc_filter:
  assumes "sorted_wrt (\<lambda>a b. key b < (key a :: 'k::linorder)) S" "i < length S"
  shows "filter (\<lambda>m. key m < key (S ! i)) S = drop (Suc i) S"
proof -
  have "key (S ! i) \<le> key m" if "m \<in> set (take (Suc i) S)" for m
  proof -
    from that obtain j where "j \<le> i" "m = S ! j" using assms(2) by (auto simp: in_set_conv_nth less_Suc_eq_le)
    then show ?thesis using sorted_wrt_nth_less [OF assms(1), of j i] assms(2) by (cases "j = i") auto
  qed
  then have "filter (\<lambda>m. key m < key (S ! i)) (take (Suc i) S) = []" by (auto simp: filter_empty_conv not_less)
  moreover have "key m < key (S ! i)" if "m \<in> set (drop (Suc i) S)" for m
  proof -
    from that obtain j where "j < length S - Suc i" "m = S ! (Suc i + j)" by (auto simp: in_set_conv_nth)
    then show ?thesis using sorted_wrt_nth_less [OF assms(1), of i "Suc i + j"] by simp
  qed
  then have "filter (\<lambda>m. key m < key (S ! i)) (drop (Suc i) S) = drop (Suc i) S" by (simp add: filter_id_conv)
  ultimately show ?thesis by (metis append_take_drop_id filter_append append_Nil)
qed

lemma select_before: "select_history rid (Some k) db = filter (\<lambda>m. message_key m < k) (select_history rid None db)"
proof -
  have "filter (\<lambda>m. message_key m < k) (sort_key message_key xs) = sort_key message_key (filter (\<lambda>m. message_key m < k) xs)" for xs
    by (rule filter_sort)
  then show ?thesis
    by (cases k) (auto simp: select_history_def rev_filter [symmetric] message_key_def
        intro!: arg_cong [where f = "sort_key message_key"] filter_cong)
qed

lemma select_descending:
  assumes "wf_messages db"
  shows "sorted_wrt (\<lambda>a b. message_key b < message_key a) (select_history rid None db)"
proof -
  have "distinct (map message_key (db_messages db))"
    using assms by (auto simp: wf_messages_def message_key_def distinct_map inj_on_def)
  then have "distinct (map message_key (sort_key message_key (filter (\<lambda>m. sm_room_id m = rid) (db_messages db))))"
    by (simp add: distinct_map inj_on_def)
  then have "sorted_wrt (<) (map message_key (sort_key message_key (filter (\<lambda>m. sm_room_id m = rid) (db_messages db))))"
    by (simp add: strict_sorted_iff)
  then show ?thesis by (simp add: select_history_def sorted_wrt_rev sorted_wrt_map)
qed

lemma select_ids: "wf_messages db \<Longrightarrow> m \<in> set (select_history rid None db) \<Longrightarrow> CHR 0x00 \<notin> set (sm_id m)"
  by (auto simp: wf_messages_def select_history_def list_all_iff)

lemma next_page:
  fixes limit
  assumes "wf_messages db" "select_history rid before db = drop j (select_history rid None db)"
  defines "S \<equiv> select_history rid None db" and "l \<equiv> page_limit limit"
  shows "db_load_history rid limit before db =
    (if length S \<le> j + l then \<lparr>hp_messages = map message_text (drop j S), hp_next = None\<rparr>
     else \<lparr>hp_messages = map message_text (take l (drop j S)), hp_next = Some (message_key (S ! (j + l - 1)))\<rparr>)"
proof (cases "length S \<le> j + l")
  case True
  then show ?thesis using assms(2) by (simp add: db_load_history_def Let_def flip: S_def l_def)
next
  case False
  have l: "0 < l" by (simp add: l_def page_limit_def)
  with False have at: "last (take l (drop j S)) = S ! (j + l - 1)"
    by (subst last_conv_nth) (auto simp: min_def)
  then have "CHR 0x00 \<notin> set (sm_id (last (take l (drop j S))))"
    using select_ids [OF assms(1), of "S ! (j + l - 1)" rid] False l by (simp add: S_def)
  then have "message_key (last (map message_text (take l (drop j S)))) = message_key (S ! (j + l - 1))"
    using False l at by (simp add: last_map message_key_def message_text_def)
  moreover have "butlast (take (Suc l) (drop j S)) = take l (drop j S)" using False by (simp add: butlast_take)
  ultimately show ?thesis
    using False assms(2) by (simp add: db_load_history_def Let_def map_butlast [symmetric] flip: S_def l_def)
qed

lemma history_pages_from:
  assumes "wf_messages db" "select_history rid before db = drop j (select_history rid None db)"
    and "length (select_history rid None db) - j < n"
  shows "history_pages n rid limit before db = Some (map message_text (drop j (select_history rid None db)))"
  using assms(2,3)
proof (induction n arbitrary: before j)
  case (Suc n)
  let ?S = "select_history rid None db" and ?l = "page_limit limit"
  have l: "0 < ?l" by (simp add: page_limit_def)
  show ?case
  proof (cases "length ?S \<le> j + ?l")
    case True
    then show ?thesis using next_page [OF assms(1) Suc.prems(1), of limit] by simp
  next
    case False
    let ?c = "message_key (?S ! (j + ?l - 1))"
    have "select_history rid (Some ?c) db = drop (j + ?l) ?S"
      using desc_filter [OF select_descending [OF assms(1)], of "j + ?l - 1" rid] False l by (simp add: select_before)
    then have "history_pages n rid limit (Some ?c) db = Some (map message_text (drop (j + ?l) ?S))"
      using Suc.prems(2) False l by (intro Suc.IH) auto
    then show ?thesis
      using next_page [OF assms(1) Suc.prems(1), of limit] False
      by (simp add: map_append [symmetric] take_drop drop_drop add.commute del: map_append)
        (metis append_take_drop_id drop_drop take_drop add.commute)
  qed
qed simp

text \<open>
  C11: Paging gives the whole history. Following the cursors from the newest page, whatever the
  page size asked for, ends after at most one page per message and gives every message of the
  room exactly once, newest first.
\<close>

theorem history_paging_complete:
  assumes "wf_messages db" "length (select_history rid None db) < pages"
  shows "history_pages pages rid limit None db = Some (map message_text (select_history rid None db)) \<and>
    sorted_wrt (\<lambda>a b. message_key b < message_key a) (select_history rid None db) \<and>
    set (select_history rid None db) = {m \<in> set (db_messages db). sm_room_id m = rid}"
  using assms history_pages_from [OF assms(1), of rid None 0 pages limit] select_descending [OF assms(1), of rid]
  by (simp add: select_history_def)

theorem history_paging_complete_witness:
  "\<exists>db. history_pages 3 7 1 None db = Some (map message_text (select_history 7 None db)) \<and> length (db_messages db) = 2"
proof -
  let ?m = "\<lambda>i t. \<lparr>sm_id = i, sm_room_id = 7, sm_nickname = ''ann'', sm_body = ''hi'', sm_sent_at = t\<rparr>"
  let ?db = "empty_database\<lparr>db_messages := [?m ''a'' 5, ?m ''b'' 5]\<rparr>"
  have "wf_messages ?db" by (simp add: wf_messages_def empty_database_def)
  moreover have "length (select_history 7 None ?db) < 3" by (simp add: select_history_def empty_database_def)
  ultimately show ?thesis
    using history_paging_complete [of ?db 7 3 1] by (intro exI [of _ ?db]) (simp add: empty_database_def)
qed

section \<open>The order of the writes\<close>

text \<open>
  The runs of the writer, with the writes that were accepted and the batches whose transactions have ended, each with whether it
  was committed: that is so unless SQLite reports an error or one of its writes violates a constraint.
\<close>

inductive writer_run :: "database \<Rightarrow> storage_request list \<Rightarrow> (bool \<times> storage_request list) list \<Rightarrow> writer \<Rightarrow> bool" for db0 :: database where
  start: "writer_run db0 [] [] (new_writer db0)"
| accepted: "writer_run db0 acc batches w \<Longrightarrow> enqueue r w = (True, w') \<Longrightarrow> writer_run db0 (acc @ [r]) batches w'"
| rejected: "writer_run db0 acc batches w \<Longrightarrow> enqueue r w = (False, w') \<Longrightarrow> writer_run db0 acc batches w'"
| batch: "writer_run db0 acc batches w \<Longrightarrow> \<not> wr_writing w \<Longrightarrow> wr_queue w \<noteq> [] \<Longrightarrow> writer_run db0 acc batches (take_batch w)"
| transaction: "writer_run db0 acc batches w \<Longrightarrow> wr_writing w \<Longrightarrow>
    writer_run db0 acc (batches @ [(disk = None \<and> execute_writes clock (wr_batch w) (wr_db w) \<noteq> None, wr_batch w)])
      (run_batch clock disk violation w)"
| stopping: "writer_run db0 acc batches w \<Longrightarrow> writer_run db0 acc batches (stop_writer w)"

lemma execute_writes_append:
  "execute_writes c xs db = Some db1 \<Longrightarrow> execute_writes d ys db1 = Some db2 \<Longrightarrow>
     \<exists>e. execute_writes e (xs @ ys) db = Some db2"
proof (induction xs arbitrary: c db)
  case (Cons x xs)
  then obtain db' where x: "execute_write (c 0) x db = Some db'" "execute_writes (\<lambda>i. c (Suc i)) xs db' = Some db1"
    by (auto split: option.splits)
  from Cons.IH [OF x(2) Cons.prems(2)] obtain e where "execute_writes e (xs @ ys) db' = Some db2" by blast
  with x(1) show ?case by (intro exI [of _ "case_nat (c 0) e"]) simp
qed auto

definition writer_inv :: "database \<Rightarrow> storage_request list \<Rightarrow> (bool \<times> storage_request list) list \<Rightarrow> writer \<Rightarrow> bool" where
  "writer_inv db0 acc batches w \<longleftrightarrow> (if wr_writing w then wr_batch w \<noteq> [] \<and> length (wr_batch w) \<le> 64 else wr_batch w = []) \<and>
     length (wr_queue w) \<le> MAX_PENDING_WRITES \<and> acc = concat (map snd batches) @ wr_batch w @ wr_queue w \<and>
     list_all (\<lambda>b. snd b \<noteq> [] \<and> length (snd b) \<le> 64) batches \<and>
     (\<exists>clock. execute_writes clock (concat (map snd (filter fst batches))) db0 = Some (wr_db w))"

lemma writer_run_inv: "writer_run db0 acc batches w \<Longrightarrow> writer_inv db0 acc batches w"
proof (induction rule: writer_run.induct)
  case (transaction acc batches w disk clock violation)
  let ?committed = "concat (map snd (filter fst batches))"
  from transaction.IH obtain c where c: "execute_writes c ?committed db0 = Some (wr_db w)" by (auto simp: writer_inv_def)
  show ?case
  proof (cases "disk = None \<and> execute_writes clock (wr_batch w) (wr_db w) \<noteq> None")
    case True
    then obtain db where db: "execute_writes clock (wr_batch w) (wr_db w) = Some db" by auto
    from execute_writes_append [OF c db] obtain e where "execute_writes e (?committed @ wr_batch w) db0 = Some db" by blast
    with True db transaction show ?thesis by (auto simp: writer_inv_def run_batch_def Let_def)
  next
    case False
    show ?thesis using False transaction c by (auto simp: writer_inv_def run_batch_def Let_def split: option.splits)
  qed
qed (auto simp: writer_inv_def new_writer_def enqueue_def take_batch_def stop_writer_def Let_def min_def split: if_splits)

text \<open>
  C12: Accepted writes are executed in order, and lost only with their batch. However the writes arrive between and during the batches and
  whichever transactions fail, the batches cut the accepted writes into consecutive pieces of 1 to 64, the database is what executing the committed
  batches in the order of arrival makes of it, and a failed batch leaves no trace. When the queue is drained, every accepted write is in one
  of the batches; if none has failed, the database is what all of them make of it. The queue never grows past its limit.
\<close>

theorem writes_in_order:
  assumes "writer_run db0 acc batches w"
  shows "length (wr_queue w) \<le> MAX_PENDING_WRITES \<and> acc = concat (map snd batches) @ wr_batch w @ wr_queue w \<and>
    (\<forall>(committed, writes) \<in> set batches. writes \<noteq> [] \<and> length writes \<le> 64) \<and>
    (\<exists>clock. execute_writes clock (concat (map snd (filter fst batches))) db0 = Some (wr_db w)) \<and>
    (drained w \<longrightarrow> acc = concat (map snd batches) \<and>
      (list_all fst batches \<longrightarrow> (\<exists>clock. execute_writes clock acc db0 = Some (wr_db w))))"
proof -
  from writer_run_inv [OF assms] obtain clock where
    inv: "if wr_writing w then wr_batch w \<noteq> [] \<and> length (wr_batch w) \<le> 64 else wr_batch w = []" "length (wr_queue w) \<le> MAX_PENDING_WRITES"
      "acc = concat (map snd batches) @ wr_batch w @ wr_queue w" "list_all (\<lambda>b. snd b \<noteq> [] \<and> length (snd b) \<le> 64) batches"
    and db: "execute_writes clock (concat (map snd (filter fst batches))) db0 = Some (wr_db w)"
    by (auto simp: writer_inv_def)
  have "acc = concat (map snd batches)" if "drained w" using that inv(1,3) by (simp add: drained_def)
  moreover have "filter fst batches = batches" if "list_all fst batches" using that by (simp add: list_all_iff filter_id_conv)
  moreover have "\<forall>(committed, writes) \<in> set batches. writes \<noteq> [] \<and> length writes \<le> 64" using inv(4) by (auto simp: list_all_iff)
  ultimately show ?thesis using inv(2,3) db by (intro conjI impI exI [of _ clock]) simp_all
qed

text \<open>A batch that fails and one that is committed.\<close>

theorem writes_in_order_witness:
  "\<exists>w clock. writer_run empty_database [RemoveBan ''ann'', RemoveBan ''bob''] [(False, [RemoveBan ''ann'']), (True, [RemoveBan ''bob''])] w \<and>
     drained w \<and> execute_writes clock [RemoveBan ''bob''] empty_database = Some (wr_db w)"
proof -
  let ?w1 = "snd (enqueue (RemoveBan ''ann'') (new_writer empty_database))"
  let ?w2 = "run_batch (\<lambda>_. 0) (Some ''disk full'') [] (take_batch ?w1)"
  let ?w3 = "snd (enqueue (RemoveBan ''bob'') ?w2)"
  let ?w4 = "run_batch (\<lambda>_. 0) None [] (take_batch ?w3)"
  note defs = enqueue_def new_writer_def MAX_PENDING_WRITES_def take_batch_def run_batch_def Let_def
  have "writer_run empty_database [RemoveBan ''ann''] [] ?w1"
    using writer_run.accepted [OF writer_run.start, of "RemoveBan ''ann''" empty_database ?w1] by (simp add: defs)
  then have "writer_run empty_database [RemoveBan ''ann''] [] (take_batch ?w1)"
    by (rule writer_run.batch) (simp_all add: defs)
  from writer_run.transaction [OF this, of "Some ''disk full''" "\<lambda>_. 0" "[]"]
  have "writer_run empty_database [RemoveBan ''ann''] [(False, [RemoveBan ''ann''])] ?w2" by (simp add: defs)
  from writer_run.accepted [OF this, of "RemoveBan ''bob''" ?w3]
  have "writer_run empty_database [RemoveBan ''ann'', RemoveBan ''bob''] [(False, [RemoveBan ''ann''])] ?w3" by (simp add: defs)
  then have "writer_run empty_database [RemoveBan ''ann'', RemoveBan ''bob''] [(False, [RemoveBan ''ann''])] (take_batch ?w3)"
    by (rule writer_run.batch) (simp_all add: defs)
  from writer_run.transaction [OF this, of None "\<lambda>_. 0" "[]"]
  have run: "writer_run empty_database [RemoveBan ''ann'', RemoveBan ''bob''] [(False, [RemoveBan ''ann'']), (True, [RemoveBan ''bob''])] ?w4"
    by (simp add: defs)
  from writes_in_order [OF this] have "\<exists>clock. execute_writes clock [RemoveBan ''bob''] empty_database = Some (wr_db ?w4)" by simp
  moreover have "drained ?w4" by (simp add: drained_def defs split: option.split)
  ultimately show ?thesis using run by blast
qed

text \<open>
  Flushing ends. Without new writes, the loop of the writer empties the queue: after as many
  rounds as there were writes, whether their transactions commit or not, the condition \<open>flush\<close>
  waits for holds.
\<close>

theorem flush_ends:
  assumes "\<not> wr_writing w"
  shows "drained (((\<lambda>w. run_batch clock disk violation (take_batch w)) ^^ length (wr_queue w)) w)"
proof -
  have shrink: "length (wr_queue (run_batch clock disk violation (take_batch w))) = length (wr_queue w) - 64"
    "\<not> wr_writing (run_batch clock disk violation (take_batch w))" for w
    by (auto simp: run_batch_def take_batch_def Let_def split: option.split)
  have "length (wr_queue w) \<le> n \<Longrightarrow> \<not> wr_writing w \<Longrightarrow>
      drained (((\<lambda>w. run_batch clock disk violation (take_batch w)) ^^ n) w)" for n
  proof (induction n arbitrary: w)
    case (Suc n)
    then show ?case using shrink [of w] by (simp add: funpow_Suc_right del: funpow.simps)
  qed (simp add: drained_def)
  then show ?thesis using assms by simp
qed

theorem flush_ends_witness:
  "drained (((\<lambda>w. run_batch (\<lambda>_. 0) (Some ''disk full'') [] (take_batch w)) ^^ 2)
     ((new_writer empty_database)\<lparr>wr_queue := [RemoveBan ''ann'', RemoveBan ''bob'']\<rparr>))"
  using flush_ends [of "(new_writer empty_database)\<lparr>wr_queue := [RemoveBan ''ann'', RemoveBan ''bob'']\<rparr>" "\<lambda>_. 0" "Some ''disk full''" "[]"]
  by (simp add: new_writer_def numeral_2_eq_2)

section \<open>Importing\<close>

lemma insert_imports:
  "db_imports (snd (fold (\<lambda>(i, nick). insert_ban_ignore (clock i) nick) xs nd)) = db_imports (snd nd)"
  "db_imports (snd (fold (\<lambda>(i, line). insert_identity_ignore (clock i) line) xs nd)) = db_imports (snd nd)"
  by (induction xs arbitrary: nd)
    (auto simp: insert_ban_ignore_def insert_identity_ignore_def split: option.split)

lemma import_marks:
  assumes "path \<noteq> []" "fs path \<noteq> None"
  shows "was_imported ''bans'' (snd (import_bans clock fs path rd))"
    "was_imported ''identities'' (snd (import_identities clock fs path rd))"
    "was_imported kind (snd rd) \<Longrightarrow> was_imported kind (snd (import_identities clock fs path rd))"
  using assms insert_imports [of clock]
  by (auto simp: import_bans_def import_identities_def was_imported_def mark_imported_def Let_def case_prod_unfold split: option.splits)

text \<open>
  The old files are imported once. When both files could be read, importing again, from
  whatever files, changes nothing and says so.
\<close>

theorem legacy_import_once:
  assumes "bans_path \<noteq> []" "fs bans_path \<noteq> None" "identities_path \<noteq> []" "fs identities_path \<noteq> None"
    and "db_import_legacy_files c1 c2 fs bans_path identities_path db = (result, db1)"
  shows "db_import_legacy_files c3 c4 fs' bans_path identities_path db1 =
    (\<lparr>ir_bans = 0, ir_identities = 0, ir_bans_already = True, ir_identities_already = True\<rparr>, db1)"
proof -
  have "db1 = snd (db_import_legacy_files c1 c2 fs bans_path identities_path db)" using assms(5) by simp
  then have "was_imported ''bans'' db1" "was_imported ''identities'' db1"
    using assms(1-4) by (simp_all add: db_import_legacy_files_def import_marks)
  then show ?thesis using assms(1,3) by (simp add: db_import_legacy_files_def import_bans_def import_identities_def)
qed

theorem legacy_import_once_witness:
  "\<exists>db. db_import_legacy_files (\<lambda>_. 1) (\<lambda>_. 2) (\<lambda>_. None) ''bans.txt'' ''identities.txt'' db =
     (\<lparr>ir_bans = 0, ir_identities = 0, ir_bans_already = True, ir_identities_already = True\<rparr>, db)"
proof -
  have "db_import_legacy_files (\<lambda>_. 0) (\<lambda>_. 0) (\<lambda>_. Some ''bob'') ''bans.txt'' ''identities.txt'' empty_database =
      (fst (db_import_legacy_files (\<lambda>_. 0) (\<lambda>_. 0) (\<lambda>_. Some ''bob'') ''bans.txt'' ''identities.txt'' empty_database),
       snd (db_import_legacy_files (\<lambda>_. 0) (\<lambda>_. 0) (\<lambda>_. Some ''bob'') ''bans.txt'' ''identities.txt'' empty_database))"
    by simp
  from legacy_import_once [OF _ _ _ _ this] show ?thesis by blast
qed

end
