(* ===== verification/Preferences.thy ===== *)
theory Preferences
  imports Storage "HOL-Library.Sublist"
begin

text \<open>
  \<open>storage/preferences.cpp\<close>: the settings a user's client keeps between runs, in a small SQLite
  file. A file is its three tables, a table that was never created is \<open>None\<close>, and a column of
  text may be null. Opening the file, and whether the transaction of \<open>save_preferences\<close> commits, are
  the environment; \<open>None\<close> is an exception.

  Shown: what is saved is what is loaded; a user who does not want to be remembered leaves
  nothing behind; and the list of recent servers is the ten servers joined last, the most
  recent first.
\<close>

section \<open>The model\<close>

record recent_server =
  rs_name :: string
  rs_host :: string
  rs_port :: u16
  rs_tls :: bool
  rs_ca_path :: string
  rs_fingerprint :: string

record preferences =
  pf_remember :: bool
  pf_nickname :: string
  pf_options :: "(string \<times> string) list"
  pf_recent :: "recent_server list"

definition no_preferences :: preferences where
  "no_preferences = \<lparr>pf_remember = False, pf_nickname = [], pf_options = [], pf_recent = []\<rparr>"

fun same_server :: "recent_server \<Rightarrow> recent_server \<Rightarrow> bool" where
  "same_server a b \<longleftrightarrow> rs_host a = rs_host b \<and> rs_port a = rs_port b \<and> rs_tls a = rs_tls b"

text \<open>The loop over \<open>recent_servers\<close>: the first entry for the server is erased and gives its name.\<close>

fun take_over_name :: "recent_server \<Rightarrow> recent_server list \<Rightarrow> recent_server \<times> recent_server list" where
  "take_over_name server [] = (server, [])"
| "take_over_name server (it # rest) =
     (if same_server it server then (server\<lparr>rs_name := rs_name it\<rparr>, rest)
      else let (server', rest') = take_over_name server rest in (server', it # rest'))"

definition remember_server :: "recent_server \<Rightarrow> preferences \<Rightarrow> preferences" where
  "remember_server server p =
     (let (server, others) = take_over_name server (pf_recent p);
          servers = server # others
      in p\<lparr>pf_recent := (if length servers > 10 then take 10 servers else servers)\<rparr>)"

text \<open>The tables, in the order of their rows.\<close>

record recent_row =
  rr_position :: int
  rr_name :: "string option"
  rr_host :: "string option"
  rr_port :: int
  rr_tls :: int

record preferences_db =
  pt_settings :: "(int \<times> string option) list option"
  pt_recent :: "recent_row list option"
  pt_options :: "(string option \<times> string option) list option"

definition empty_preferences_db :: preferences_db where
  "empty_preferences_db = \<lparr>pt_settings = None, pt_recent = None, pt_options = None\<rparr>"

text \<open>\<open>text\<close> of a column, and \<open>sqlite3_column_int\<close>, which keeps the lower 32 bits.\<close>

definition row_text :: "string option \<Rightarrow> string" where
  "row_text v = (case v of None \<Rightarrow> [] | Some s \<Rightarrow> column_text s)"

definition column_int :: "int \<Rightarrow> int" where
  "column_int i = sint (word_of_int i :: 32 word)"

definition option_or_empty :: "string \<Rightarrow> (string \<times> string) list \<Rightarrow> string" where
  "option_or_empty name options = (case map_find options name of None \<Rightarrow> [] | Some v \<Rightarrow> v)"

definition load_recent_row :: "recent_row \<Rightarrow> recent_server option" where
  "load_recent_row r =
     (let port = column_int (rr_port r); host = row_text (rr_host r)
      in if port < 1 \<or> port > 65535 \<or> host = [] \<or> length host > HOST_MAX_LEN then None
         else Some \<lparr>rs_name = row_text (rr_name r), rs_host = host, rs_port = word_of_int port,
           rs_tls = (column_int (rr_tls r) = 1), rs_ca_path = [], rs_fingerprint = []\<rparr>)"

text \<open>
  \<open>operator[]\<close> on the options inserts an empty value for a name that is missing, and returns
  the value.
\<close>

definition option_ref :: "string \<Rightarrow> (string \<times> string) list \<Rightarrow> string \<times> (string \<times> string) list" where
  "option_ref name options = (option_or_empty name options, map_emplace name [] options)"

definition recent_ca :: "nat \<Rightarrow> string" where
  "recent_ca i = ''recent.ca.'' @ nat_to_string i"

definition recent_pin :: "nat \<Rightarrow> string" where
  "recent_pin i = ''recent.pin.'' @ nat_to_string i"

fun load_trust_options ::
  "nat \<Rightarrow> recent_server list \<Rightarrow> (string \<times> string) list \<Rightarrow> recent_server list \<times> (string \<times> string) list" where
  "load_trust_options i [] options = ([], options)"
| "load_trust_options i (s # rest) options =
     (let (ca, options) = option_ref (recent_ca i) options;
          (pin, options) = option_ref (recent_pin i) options;
          (rest, options) = load_trust_options (Suc i) rest options
      in (s\<lparr>rs_ca_path := ca, rs_fingerprint := pin\<rparr> # rest, options))"

definition load_preferences :: "bool \<Rightarrow> preferences_db option \<Rightarrow> preferences option" where
  "load_preferences opens file =
     (case file of None \<Rightarrow> Some no_preferences
      | Some db \<Rightarrow>
          if \<not> opens then None
          else case pt_settings db of None \<Rightarrow> None
          | Some settings \<Rightarrow>
              let result = (case settings of [] \<Rightarrow> no_preferences
                    | (remember, nick) # _ \<Rightarrow>
                        let nick = row_text nick
                        in no_preferences\<lparr>pf_remember := (column_int remember = 1),
                             pf_nickname := (if utils_is_valid_nickname nick then nick else [])\<rparr>)
              in if \<not> pf_remember result then Some (result\<lparr>pf_nickname := []\<rparr>)
                 else case pt_recent db of None \<Rightarrow> None
                 | Some rows \<Rightarrow>
                     let servers = List.map_filter load_recent_row (take 10 (sort_key rr_position rows))
                     in case pt_options db of
                          None \<Rightarrow> Some (result\<lparr>pf_recent := servers\<rparr>)
                        | Some options \<Rightarrow>
                            let loaded = fold (\<lambda>(n, v). map_assign (row_text n) (row_text v)) options [];
                                (servers, loaded) = load_trust_options 0 servers loaded
                            in Some (result\<lparr>pf_recent := servers, pf_options := loaded\<rparr>))"

text \<open>
  \<open>bind_text\<close> passes a C string, which ends at the first zero byte. The rows of \<open>options\<close> have
  distinct names.
\<close>

definition bound_text :: "string \<Rightarrow> string option" where
  "bound_text s = Some (column_text s)"

fun recent_rows :: "nat \<Rightarrow> recent_server list \<Rightarrow> recent_row list" where
  "recent_rows index [] = []"
| "recent_rows index (entry # rest) =
     (if index = 10 then []
      else \<lparr>rr_position = int index, rr_name = bound_text (rs_name entry), rr_host = bound_text (rs_host entry),
             rr_port = uint (rs_port entry), rr_tls = (if rs_tls entry then 1 else 0)\<rparr>
           # recent_rows (Suc index) rest)"

fun set_trust_options :: "nat \<Rightarrow> recent_server list \<Rightarrow> (string \<times> string) list \<Rightarrow> (string \<times> string) list" where
  "set_trust_options i [] options = options"
| "set_trust_options i (s # rest) options =
     set_trust_options (Suc i) rest
       (map_assign (recent_pin i) (rs_fingerprint s)
         (map_assign (recent_ca i) (rs_ca_path s) options))"

definition saved_options :: "preferences \<Rightarrow> (string \<times> string) list" where
  "saved_options p =
     set_trust_options 0 (pf_recent p)
       (filter (\<lambda>(name, value). \<not> prefix ''recent.'' name) (pf_options p))"

fun insert_options ::
  "(string \<times> string) list \<Rightarrow> (string option \<times> string option) list \<Rightarrow> (string option \<times> string option) list option" where
  "insert_options [] rows = Some rows"
| "insert_options ((name, value) # rest) rows =
     (if bound_text name \<in> fst ` set rows then None
      else insert_options rest (rows @ [(bound_text name, bound_text value)]))"

definition saved_tables :: "preferences \<Rightarrow> preferences_db option" where
  "saved_tables p =
     (if \<not> pf_remember p
      then Some \<lparr>pt_settings = Some [(0, bound_text [])], pt_recent = Some [], pt_options = Some []\<rparr>
      else map_option (\<lambda>options. \<lparr>pt_settings = Some [(1, bound_text (pf_nickname p))],
             pt_recent = Some (recent_rows 0 (pf_recent p)), pt_options = Some options\<rparr>)
             (insert_options (saved_options p) []))"

text \<open>
  What SQLite does with the transaction: the file cannot be opened, a statement or the commit
  fails and the transaction is rolled back when the connection closes, or all is well. Opening
  creates the file. The result says whether the call returned.
\<close>

datatype transaction = OpenFails | StatementFails | Commits

definition save_preferences ::
  "transaction \<Rightarrow> preferences \<Rightarrow> preferences_db option \<Rightarrow> bool \<times> preferences_db option" where
  "save_preferences t p file =
     (case t of OpenFails \<Rightarrow> (False, file)
      | StatementFails \<Rightarrow> (False, Some (case file of None \<Rightarrow> empty_preferences_db | Some db \<Rightarrow> db))
      | Commits \<Rightarrow>
          (case saved_tables p of
             None \<Rightarrow> (False, Some (case file of None \<Rightarrow> empty_preferences_db | Some db \<Rightarrow> db))
           | Some db \<Rightarrow> (True, Some db)))"

section \<open>Recent servers\<close>

text \<open>What identifies a server in the list.\<close>

definition server_key :: "recent_server \<Rightarrow> string \<times> u16 \<times> bool" where
  "server_key s = (rs_host s, rs_port s, rs_tls s)"

lemma same_server_key [simp]: "same_server a b \<longleftrightarrow> server_key a = server_key b"
  by (auto simp: server_key_def)

declare same_server.simps [simp del]

lemma server_key_name [simp]: "server_key (s\<lparr>rs_name := n\<rparr>) = server_key s"
  by (simp add: server_key_def)

lemma take_over_name_keys:
  "take_over_name s l = (s', l') \<Longrightarrow>
     server_key s' = server_key s \<and> map server_key l' = remove1 (server_key s) (map server_key l)"
  by (induction l arbitrary: s' l') (auto split: if_splits prod.splits)

lemma remember_server_keys:
  "map server_key (pf_recent (remember_server s p)) =
     take 10 (server_key s # remove1 (server_key s) (map server_key (pf_recent p)))"
proof -
  obtain s' l' where t: "take_over_name s (pf_recent p) = (s', l')" by fastforce
  then have "pf_recent (remember_server s p) = take 10 (s' # l')"
    by (simp add: remember_server_def Let_def)
  then show ?thesis using take_over_name_keys [OF t] by (simp add: take_map [symmetric])
qed

lemma remdups_snoc: "remdups (xs @ [x]) = filter (\<lambda>y. y \<noteq> x) (remdups xs) @ [x]"
  by (induction xs) auto

lemma take_filter_one:
  assumes "distinct xs"
  shows "take n (filter (\<lambda>y. y \<noteq> x) (take (Suc n) xs)) = take n (filter (\<lambda>y. y \<noteq> x) xs)"
  using assms
proof (induction xs arbitrary: n)
  case (Cons a xs)
  show ?case
  proof (cases "a = x")
    case True
    with Cons.prems have "filter (\<lambda>y. y \<noteq> x) ys = ys" if "set ys \<subseteq> set xs" for ys
      using that by (auto intro!: filter_True)
    with True show ?thesis by (simp add: set_take_subset)
  next
    case False
    with Cons show ?thesis by (cases n) auto
  qed
qed simp

lemma remember_servers_keys:
  assumes "map server_key (pf_recent p) = take 10 (rev (remdups js))"
  shows "map server_key (pf_recent (fold remember_server ss p)) =
    take 10 (rev (remdups (js @ map server_key ss)))"
  using assms
proof (induction ss arbitrary: p js)
  case (Cons s ss)
  let ?k = "server_key s"
  have "map server_key (pf_recent (remember_server s p)) =
      take 10 (?k # filter (\<lambda>y. y \<noteq> ?k) (take 10 (rev (remdups js))))"
    by (simp add: remember_server_keys Cons.prems distinct_remove1_removeAll removeAll_filter_not_eq
        eq_commute [of "server_key s"])
  also have "\<dots> = take 10 (rev (remdups (js @ [?k])))"
    using take_filter_one [of "rev (remdups js)" 9 ?k] by (simp add: remdups_snoc rev_filter)
  finally show ?case using Cons.IH [of "remember_server s p" "js @ [?k]"] by simp
qed simp

section \<open>Saving and loading\<close>

definition storable_server :: "recent_server \<Rightarrow> bool" where
  "storable_server s \<longleftrightarrow> rs_host s \<noteq> [] \<and> length (rs_host s) \<le> 63 \<and> rs_port s \<noteq> 0 \<and>
     no_nul (rs_name s) \<and> no_nul (rs_host s) \<and> no_nul (rs_ca_path s) \<and> no_nul (rs_fingerprint s)"

definition storable_preferences :: "preferences \<Rightarrow> bool" where
  "storable_preferences p \<longleftrightarrow> is_valid_nickname (pf_nickname p) \<and> length (pf_recent p) \<le> 10 \<and>
     list_all storable_server (pf_recent p) \<and> ascending (map fst (pf_options p)) \<and>
     list_all (\<lambda>(n, v). no_nul n \<and> no_nul v) (pf_options p)"

lemma no_nul_trust_name [simp]: "no_nul (recent_ca i)" "no_nul (recent_pin i)"
  by (simp_all add: recent_ca_def recent_pin_def no_nul_def nat_to_string_no_char isdigit_def byte_def)

lemma nat_to_string_inject [simp]: "nat_to_string i = nat_to_string j \<longleftrightarrow> i = j"
  by (metis dec_value_nat_to_string)

lemma recent_names [simp]:
  "recent_ca i = recent_ca j \<longleftrightarrow> i = j" "recent_pin i = recent_pin j \<longleftrightarrow> i = j"
  "recent_ca i \<noteq> recent_pin j" "recent_pin i \<noteq> recent_ca j"
  by (simp_all add: recent_ca_def recent_pin_def)

lemma column_int_small: "0 \<le> i \<Longrightarrow> i < 65536 \<Longrightarrow> column_int i = i"
  by (simp add: column_int_def sint_uint signed_take_bit_int_eq_self take_bit_int_eq_self uint_word_of_int_eq)

lemma ascending_set_trust_options:
  "ascending (map fst m) \<Longrightarrow> ascending (map fst (set_trust_options i l m))"
  by (induction l arbitrary: i m) auto

lemma find_set_trust_options:
  "ascending (map fst m) \<Longrightarrow>
   (\<And>j. j < length l \<Longrightarrow> n \<noteq> recent_ca (i + j)) \<Longrightarrow>
   (\<And>j. j < length l \<Longrightarrow> n \<noteq> recent_pin (i + j)) \<Longrightarrow>
     map_find (set_trust_options i l m) n = map_find m n"
proof (induction l arbitrary: i m)
  case (Cons s l)
  from Cons.prems(2,3) [of 0] have "n \<noteq> recent_ca i" "n \<noteq> recent_pin i"
    by auto
  moreover from Cons.prems(2,3) [of "Suc j" for j]
  have "n \<noteq> recent_ca (Suc i + j)" "n \<noteq> recent_pin (Suc i + j)"
    if "j < length l" for j
    using that by auto
  ultimately show ?case using Cons.prems(1) by (simp add: Cons.IH ascending_assign)
qed simp

lemma find_trust_options:
  "ascending (map fst m) \<Longrightarrow> j < length l \<Longrightarrow>
     map_find (set_trust_options i l m) (recent_ca (i + j)) = Some (rs_ca_path (l ! j)) \<and>
     map_find (set_trust_options i l m) (recent_pin (i + j)) = Some (rs_fingerprint (l ! j))"
proof (induction l arbitrary: i j m)
  case (Cons s l)
  show ?case
  proof (cases j)
    case 0
    with Cons.prems show ?thesis by (simp add: find_set_trust_options ascending_assign)
  next
    case (Suc j')
    with Cons.IH [of _ j' "Suc i"] Cons.prems show ?thesis by (simp add: ascending_assign)
  qed
qed simp

lemma load_trust_options_found:
  "(\<And>j. j < length l \<Longrightarrow>
      map_find m (recent_ca (i + j)) = Some (rs_ca_path (l ! j)) \<and>
      map_find m (recent_pin (i + j)) = Some (rs_fingerprint (l ! j))) \<Longrightarrow>
   load_trust_options i (map (\<lambda>s. s\<lparr>rs_ca_path := [], rs_fingerprint := []\<rparr>) l) m = (l, m)"
proof (induction l arbitrary: i)
  case (Cons s l)
  have "load_trust_options (Suc i) (map (\<lambda>s. s\<lparr>rs_ca_path := [], rs_fingerprint := []\<rparr>) l) m = (l, m)"
    using Cons.prems [of "Suc j" for j] by (intro Cons.IH) auto
  with Cons.prems [of 0] show ?case by (simp add: option_ref_def option_or_empty_def map_emplace_def)
qed simp

lemma saved_options_plain:
  assumes "storable_preferences p"
  shows "ascending (map fst (saved_options p))" "list_all (\<lambda>(n, v). no_nul n \<and> no_nul v) (saved_options p)"
proof -
  let ?m = "filter (\<lambda>(name, value). \<not> prefix ''recent.'' name) (pf_options p)"
  have m: "ascending (map fst ?m)" "list_all (\<lambda>(n, v). no_nul n \<and> no_nul v) ?m"
    using assms by (auto simp: storable_preferences_def list_all_iff sorted_wrt_map sorted_wrt_filter)
  then show "ascending (map fst (saved_options p))"
    by (simp add: saved_options_def ascending_set_trust_options)
  have "list_all (\<lambda>(n, v). no_nul n \<and> no_nul v) (set_trust_options i l m)"
    if "list_all storable_server l" "list_all (\<lambda>(n, v). no_nul n \<and> no_nul v) m" for i l m
    using that
  proof (induction l arbitrary: i m)
    case (Cons s l)
    have "set (map_assign k v m) \<subseteq> insert (k, v) (set m)" for k v and m :: "(string \<times> string) list"
      by (induction m) (auto split: if_splits)
    then have "list_all (\<lambda>(n, v). no_nul n \<and> no_nul v) (map_assign k v m)"
      if "no_nul k" "no_nul v" "list_all (\<lambda>(n, v). no_nul n \<and> no_nul v) m" for k v m
      using that by (fastforce simp: list_all_iff)
    with Cons show ?case by (simp add: storable_server_def)
  qed simp
  with m(2) assms show "list_all (\<lambda>(n, v). no_nul n \<and> no_nul v) (saved_options p)"
    by (simp add: saved_options_def storable_preferences_def)
qed

lemma insert_options_plain:
  "list_all (\<lambda>(n, v). no_nul n \<and> no_nul v) opts \<Longrightarrow> distinct (map fst opts) \<Longrightarrow>
   Some ` fst ` set opts \<inter> fst ` set rows = {} \<Longrightarrow>
     insert_options opts rows = Some (rows @ map (\<lambda>(n, v). (Some n, Some v)) opts)"
  by (induction opts rows rule: insert_options.induct) (auto simp: bound_text_def image_iff)

lemma load_recent_rows:
  assumes "length l \<le> 10 - i" "list_all storable_server l"
  shows "List.map_filter load_recent_row (take 10 (sort_key rr_position (recent_rows i l))) =
    map (\<lambda>s. s\<lparr>rs_ca_path := [], rs_fingerprint := []\<rparr>) l"
proof -
  have pos: "map rr_position (recent_rows i l) = map int [i..<i + length l]" if "length l \<le> 10 - i"
    using that
    by (induction l arbitrary: i) (auto simp: upt_conv_Cons simp del: upt_Suc)
  then have "length (recent_rows i l) = length l" "sorted (map rr_position (recent_rows i l))"
    using assms(1) by (simp_all add: sorted_map) (metis length_map length_upt add_diff_cancel_left')
  moreover have "List.map_filter load_recent_row (recent_rows i l) =
      map (\<lambda>s. s\<lparr>rs_ca_path := [], rs_fingerprint := []\<rparr>) l"
    using assms
  proof (induction l arbitrary: i)
    case (Cons s l)
    have "uint (rs_port s) < 65536" using uint_bounded [of "rs_port s"] by simp
    moreover have "uint (rs_port s) \<noteq> 0" using Cons.prems by (simp add: storable_server_def uint_0_iff)
    then have "1 \<le> uint (rs_port s)" using uint_ge_0 [of "rs_port s"] by linarith
    ultimately have "load_recent_row \<lparr>rr_position = int i, rr_name = bound_text (rs_name s),
        rr_host = bound_text (rs_host s), rr_port = uint (rs_port s), rr_tls = (if rs_tls s then 1 else 0)\<rparr> =
        Some (s\<lparr>rs_ca_path := [], rs_fingerprint := []\<rparr>)"
      using Cons.prems
      by (simp add: load_recent_row_def column_int_small row_text_def bound_text_def storable_server_def HOST_MAX_LEN_def)
    with Cons show ?case by (simp add: map_filter_simps)
  qed (simp add: map_filter_simps)
  ultimately show ?thesis using assms(1) by (simp add: sort_key_id_if_sorted)
qed

lemma map_find_filter: "P n \<Longrightarrow> map_find (filter (\<lambda>(name, value). P name) m) n = map_find m n"
  by (induction m) auto

lemma saved_tables_plain:
  assumes "storable_preferences p" "pf_remember p"
  shows "saved_tables p = Some \<lparr>pt_settings = Some [(1, Some (pf_nickname p))],
    pt_recent = Some (recent_rows 0 (pf_recent p)),
    pt_options = Some (map (\<lambda>(n, v). (Some n, Some v)) (saved_options p))\<rparr>"
  using assms insert_options_plain [of "saved_options p" "[]"] saved_options_plain [OF assms(1)]
  by (simp add: saved_tables_def bound_text_def keys_distinct nickname_no_nul storable_preferences_def)

lemma row_text_Some [simp]: "row_text (Some s) = column_text s"
  by (simp add: row_text_def)

lemma load_saved_options:
  assumes "list_all (\<lambda>(n, v). no_nul n \<and> no_nul v) opts" "ascending (map fst opts)"
  shows "fold (\<lambda>(n, v). map_assign (row_text n) (row_text v)) (map (\<lambda>(n, v). (Some n, Some v)) opts) [] = opts"
proof -
  have "fold (\<lambda>(n, v). map_assign (row_text n) (row_text v)) (map (\<lambda>(n, v). (Some n, Some v)) opts) m =
      fold (\<lambda>(n, v). map_assign n v) opts m" for m
    using assms(1) by (induction opts arbitrary: m) auto
  with fold_map_assign [of "[]" opts] assms(2) show ?thesis by simp
qed

lemma load_saved:
  assumes "storable_preferences p" "pf_remember p" "saved_tables p = Some db"
  shows "load_preferences True (Some db) = Some (p\<lparr>pf_options := saved_options p\<rparr>)"
proof -
  have options: "ascending (map fst (filter (\<lambda>(name, value). \<not> prefix ''recent.'' name) (pf_options p)))"
    using assms(1) by (simp add: storable_preferences_def sorted_wrt_map sorted_wrt_filter)
  have "load_trust_options 0 (map (\<lambda>s. s\<lparr>rs_ca_path := [], rs_fingerprint := []\<rparr>) (pf_recent p)) (saved_options p) =
      (pf_recent p, saved_options p)"
    using find_trust_options [OF options, of _ "pf_recent p" 0]
    by (intro load_trust_options_found) (simp add: saved_options_def)
  moreover have "column_int 1 = 1" by (simp add: column_int_small)
  moreover have "db = \<lparr>pt_settings = Some [(1, Some (pf_nickname p))],
      pt_recent = Some (recent_rows 0 (pf_recent p)),
      pt_options = Some (map (\<lambda>(n, v). (Some n, Some v)) (saved_options p))\<rparr>"
    using assms(3) by (simp add: saved_tables_plain assms(1,2))
  ultimately show ?thesis
    using assms(1,2) saved_options_plain [OF assms(1)] load_recent_rows [of "pf_recent p" 0]
    by (cases p) (simp add: load_preferences_def load_saved_options nickname_no_nul
        storable_preferences_def utils_is_valid_nickname_eq no_preferences_def Let_def)
qed

section \<open>What users can rely on\<close>

text \<open>
  Saved preferences are the loaded ones. If the user wants to be remembered, a committed save
  stores, whatever the file held before, and the next load gives the same nickname, the same
  recent servers in the same order with their certificates and fingerprints, and the same value
  for every other option.
\<close>

theorem preferences_roundtrip:
  assumes "storable_preferences p" "pf_remember p"
  shows "\<exists>db p'. save_preferences Commits p file = (True, Some db) \<and> load_preferences True (Some db) = Some p' \<and>
    pf_remember p' \<and> pf_nickname p' = pf_nickname p \<and> pf_recent p' = pf_recent p \<and>
    (\<forall>name. \<not> prefix ''recent.'' name \<longrightarrow> map_find (pf_options p') name = map_find (pf_options p) name)"
proof -
  let ?m = "filter (\<lambda>(name, value). \<not> prefix ''recent.'' name) (pf_options p)"
  have asc: "ascending (map fst ?m)"
    using assms(1) by (simp add: storable_preferences_def sorted_wrt_map sorted_wrt_filter)
  have "map_find (saved_options p) name = map_find (pf_options p) name" if "\<not> prefix ''recent.'' name" for name
  proof -
    from that have "map_find (saved_options p) name = map_find ?m name"
      unfolding saved_options_def
      by (intro find_set_trust_options asc) (auto simp: recent_ca_def recent_pin_def)
    also have "\<dots> = map_find (pf_options p) name"
      using that by (rule map_find_filter)
    finally show ?thesis .
  qed
  with assms show ?thesis
    using saved_tables_plain [OF assms] load_saved [OF assms] by (simp add: save_preferences_def)
qed

definition demo_preferences :: preferences where
  "demo_preferences = \<lparr>pf_remember = True, pf_nickname = ''ann'', pf_options = [(''join.ca'', ''/ca.pem'')],
     pf_recent = [\<lparr>rs_name = ''Home'', rs_host = ''chat.example'', rs_port = 7777, rs_tls = True,
       rs_ca_path = [], rs_fingerprint = ''AB''\<rparr>]\<rparr>"

theorem preferences_roundtrip_witness:
  "\<exists>db p'. save_preferences Commits demo_preferences None = (True, Some db) \<and>
    load_preferences True (Some db) = Some p' \<and> pf_nickname p' = ''ann'' \<and>
    pf_recent p' = pf_recent demo_preferences \<and> map_find (pf_options p') ''join.ca'' = Some ''/ca.pem''"
proof -
  have "storable_preferences demo_preferences"
    by (simp add: storable_preferences_def demo_preferences_def storable_server_def no_nul_def
        is_valid_nickname_def ctype_defs byte_def)
  moreover have "pf_remember demo_preferences" by (simp add: demo_preferences_def)
  ultimately obtain db p' where "save_preferences Commits demo_preferences None = (True, Some db)"
    "load_preferences True (Some db) = Some p'" "pf_nickname p' = pf_nickname demo_preferences"
    "pf_recent p' = pf_recent demo_preferences"
    "\<forall>name. \<not> prefix ''recent.'' name \<longrightarrow> map_find (pf_options p') name = map_find (pf_options demo_preferences) name"
    using preferences_roundtrip [of demo_preferences None] by blast
  moreover have "\<not> prefix ''recent.'' ''join.ca''" by simp
  ultimately have "map_find (pf_options p') ''join.ca'' = Some ''/ca.pem''" "pf_nickname p' = ''ann''"
    by (simp_all add: demo_preferences_def)
  with \<open>save_preferences Commits demo_preferences None = (True, Some db)\<close>
    \<open>load_preferences True (Some db) = Some p'\<close> \<open>pf_recent p' = pf_recent demo_preferences\<close>
  show ?thesis by blast
qed

text \<open>
  A user who does not want to be remembered leaves nothing behind. A committed save without
  \<open>remember\<close> always succeeds and leaves one and the same file, whatever the preferences are and
  whatever the file held before; loading it gives the defaults.
\<close>

theorem forgotten_without_trace:
  "\<exists>db. load_preferences True (Some db) = Some no_preferences \<and>
     (\<forall>p file. \<not> pf_remember p \<longrightarrow> save_preferences Commits p file = (True, Some db))"
proof -
  have "column_int 0 \<noteq> 1" by (simp add: column_int_small)
  then show ?thesis
    by (intro exI [of _ "\<lparr>pt_settings = Some [(0, bound_text [])], pt_recent = Some [], pt_options = Some []\<rparr>"])
      (simp add: save_preferences_def saved_tables_def load_preferences_def no_preferences_def Let_def)
qed

theorem forgotten_without_trace_witness:
  "snd (save_preferences Commits (demo_preferences\<lparr>pf_remember := False\<rparr>) None) =
   snd (save_preferences Commits no_preferences (Some empty_preferences_db))"
proof -
  obtain db where "\<forall>p file. \<not> pf_remember p \<longrightarrow> save_preferences Commits p file = (True, Some db)"
    using forgotten_without_trace by blast
  then show ?thesis by (simp add: no_preferences_def)
qed

text \<open>
  The recent servers are the ten joined last. Starting from a list without duplicates, any
  sequence of joins gives the servers of the list and the joins, the most recent first, each
  once, cut after the tenth: the insertion that moves a known server to the front computes the
  same list as sorting all joins by time and removing repetitions.
\<close>

theorem recent_servers_mru:
  assumes "distinct (map server_key (pf_recent p))" "length (pf_recent p) \<le> 10"
  shows "map server_key (pf_recent (fold remember_server joins p)) =
    take 10 (rev (remdups (rev (map server_key (pf_recent p)) @ map server_key joins)))"
  using assms by (intro remember_servers_keys) (simp add: distinct_remdups_id)

theorem recent_servers_mru_witness:
  "map server_key (pf_recent (fold remember_server (pf_recent demo_preferences @ pf_recent demo_preferences) demo_preferences)) =
    [(''chat.example'', 7777, True)]"
  using recent_servers_mru [of demo_preferences "pf_recent demo_preferences @ pf_recent demo_preferences"]
  by (simp add: demo_preferences_def server_key_def)

end
