(* ===== verification/Trust_Store.thy ===== *)
theory Trust_Store
  imports Identity_Utils Ordered_Containers
begin

text \<open>
  The client's decision about a server's TLS certificate, \<open>network/tls.cpp\<close>: fingerprints
  and their normal form, the file of trusted fingerprints, and \<open>verify_peer\<close> with its two
  critical sections. OpenSSL is the record \<open>tls_peer\<close>: whether the server presented a
  certificate, its digest, the result of the chain verification and of the host name checks.
  What other threads and processes do to the files while the user reviews a certificate is
  the argument \<open>meanwhile\<close>.

  Shown: the file reads back as it was written, an accepted certificate is pinned, stored,
  verified or confirmed, a changed certificate is never accepted silently, and a certificate
  trusted on first use is recognised the next time.
\<close>

section \<open>Fingerprints\<close>

definition SHA256_DIGEST_LENGTH :: nat where "SHA256_DIGEST_LENGTH = 32"

fun normalize_loop :: "string \<Rightarrow> string \<Rightarrow> string option" where
  "normalize_loop [] normalized = Some normalized"
| "normalize_loop (ch # rest) normalized =
     (if isxdigit ch then normalize_loop rest (normalized @ [toupper ch])
      else if ch \<noteq> CHR '':'' \<and> ch \<noteq> CHR ''-'' \<and> \<not> isspace ch then None
      else normalize_loop rest normalized)"

definition normalize_fingerprint :: "string \<Rightarrow> string" where
  "normalize_fingerprint fingerprint =
     (case normalize_loop fingerprint [] of
        None \<Rightarrow> []
      | Some normalized \<Rightarrow> if length normalized \<noteq> SHA256_DIGEST_LENGTH * 2 then [] else normalized)"

definition upper_hex_digit :: "nat \<Rightarrow> char" where
  "upper_hex_digit d = char_of (if d < 10 then 48 + d else 55 + d)"

text \<open>The output of the digest with \<open>std::uppercase\<close>, \<open>std::hex\<close> and two places per byte.\<close>

definition upper_hex :: "string \<Rightarrow> string" where
  "upper_hex digest = concat (map (\<lambda>c. [upper_hex_digit (byte c div 16), upper_hex_digit (byte c mod 16)]) digest)"

text \<open>
  What OpenSSL says of the connection. \<open>cert_digest\<close> is \<open>None\<close> when \<open>X509_digest\<close> fails.
\<close>

record tls_peer =
  presented :: bool
  cert_digest :: "string option"
  verify_result :: int
  check_ip_asc :: "string \<Rightarrow> bool"
  check_host :: "string \<Rightarrow> bool"
  cert_error_string :: "int \<Rightarrow> string"

definition X509_V_OK :: int where "X509_V_OK = 0"

definition peer_sha256_fingerprint :: "tls_peer \<Rightarrow> string" where
  "peer_sha256_fingerprint P =
     (if \<not> presented P then [] else case cert_digest P of None \<Rightarrow> [] | Some digest \<Rightarrow> upper_hex digest)"

definition certificate_matches_host :: "tls_peer \<Rightarrow> string \<Rightarrow> bool" where
  "certificate_matches_host P host =
     (if host = [] then False else if check_ip_asc P host then True else check_host P host)"

section \<open>The file of trusted fingerprints\<close>

text \<open>
  Around the files: the per-user data directory, what \<open>create_directories\<close> on the parent of a
  path throws, whether a write that does not fit is noticed before \<open>close\<close>, and what
  \<open>rename\<close> reports. A function returns or throws.
\<close>

record trust_env =
  data_directory :: string
  create_parent_error :: "string \<Rightarrow> string option"
  early_write_error :: "string \<Rightarrow> bool"
  rename_error :: "string \<Rightarrow> string \<Rightarrow> string option"

datatype 'a outcome = Threw string | Returned 'a

type_synonym trust_entries = "(string \<times> string) list"

definition default_trust_store_path :: "trust_env \<Rightarrow> string" where
  "default_trust_store_path V =
     (if data_directory V \<noteq> [] \<and> last (data_directory V) = CHR ''/'' then data_directory V
      else data_directory V @ ''/'') @ ''trusted_fingerprints.txt''"

definition address_key :: "string \<Rightarrow> u16 \<Rightarrow> string" where
  "address_key host port = host @ '':'' @ nat_to_string (unat port)"

definition read_trust_line :: "string \<Rightarrow> trust_entries \<Rightarrow> trust_entries" where
  "read_trust_line line entries =
     (case find_char CHR ''|'' line of
        None \<Rightarrow> entries
      | Some separator \<Rightarrow>
          let address = take separator line;
              fingerprint = normalize_fingerprint (drop (separator + 1) line)
          in if address \<noteq> [] \<and> fingerprint \<noteq> [] then map_assign address fingerprint entries else entries)"

definition read_trust_store :: "filesystem \<Rightarrow> string \<Rightarrow> trust_entries" where
  "read_trust_store fs path =
     (case contents fs path of None \<Rightarrow> [] | Some text \<Rightarrow> fold read_trust_line (split text CHR 0x0A) [])"

definition trust_text :: "trust_entries \<Rightarrow> string" where
  "trust_text entries =
     concat (map (\<lambda>(address, fingerprint). address @ ''|'' @ fingerprint @ [CHR 0x0A]) entries)"

text \<open>The value is \<open>None\<close> for \<open>true\<close>, the error text for \<open>false\<close>.\<close>

definition write_trust_store ::
  "trust_env \<Rightarrow> string \<Rightarrow> trust_entries \<Rightarrow> filesystem \<Rightarrow> string option outcome \<times> filesystem" where
  "write_trust_store V path entries fs =
     (case create_parent_error V path of
        Some thrown \<Rightarrow> (Threw thrown, fs)
      | None \<Rightarrow>
          let temporary = path @ ''.tmp''; q = [CHR 0x27] in
          if \<not> openable fs temporary
          then (Returned (Some (''Could not write TLS trust store '' @ q @ path @ q)), fs)
          else let text = trust_text entries;
                   room = (case capacity fs temporary of None \<Rightarrow> length text | Some n \<Rightarrow> n);
                   fs = fs\<lparr>contents := (contents fs)(temporary \<mapsto> take room text)\<rparr>
               in if length text > room
                  then (Returned (Some (if early_write_error V path
                          then ''Could not finish writing TLS trust store '' @ q @ path @ q
                          else ''Could not close TLS trust store'')), fs)
                  else case rename_error V temporary path of
                         Some message \<Rightarrow>
                           (Returned (Some (''Could not replace TLS trust store: '' @ message)), fs)
                       | None \<Rightarrow>
                           (Returned None, fs\<lparr>contents := (contents fs)(path \<mapsto> text, temporary := None)\<rparr>))"

definition forget_certificate ::
  "trust_env \<Rightarrow> string \<Rightarrow> u16 \<Rightarrow> string \<Rightarrow> filesystem \<Rightarrow> unit outcome \<times> filesystem" where
  "forget_certificate V host port path fs =
     (let entries = map_erase (address_key host port) (read_trust_store fs path) in
      case write_trust_store V path entries fs of
        (Threw e, fs) \<Rightarrow> (Threw e, fs)
      | (Returned (Some error), fs) \<Rightarrow> (Threw error, fs)
      | (Returned None, fs) \<Rightarrow> (Returned (), fs))"

section \<open>The decision\<close>

record client_config =
  enabled :: bool
  ca_path :: string
  expected_fingerprint :: string
  trust_store_path :: string
  trust_on_first_use :: bool
  confirm_certificate :: "(string \<Rightarrow> string \<Rightarrow> string \<Rightarrow> bool) option"

text \<open>
  The first critical section: the entries of the store, with those of the old file in the
  working directory merged in when the store is the per-user one.
\<close>

definition load_trust ::
  "trust_env \<Rightarrow> string \<Rightarrow> filesystem \<Rightarrow> (string + trust_entries) outcome \<times> filesystem" where
  "load_trust V path fs =
     (let entries = read_trust_store fs path in
      if path = default_trust_store_path V \<and> path \<noteq> ''trusted_fingerprints.txt''
      then let legacy = read_trust_store fs ''trusted_fingerprints.txt'';
               merged = fold (\<lambda>(address, fingerprint). map_emplace address fingerprint) legacy entries;
               changed = list_ex (\<lambda>(address, fingerprint). map_find entries address = None) legacy
           in if changed
              then case write_trust_store V path merged fs of
                     (Threw e, fs) \<Rightarrow> (Threw e, fs)
                   | (Returned (Some error), fs) \<Rightarrow> (Returned (Inl error), fs)
                   | (Returned None, fs) \<Rightarrow> (Returned (Inr merged), fs)
              else (Returned (Inr merged), fs)
      else (Returned (Inr entries), fs))"

datatype verdict = Accepted string | Rejected string | Remember

definition judge :: "tls_peer \<Rightarrow> client_config \<Rightarrow> string \<Rightarrow> string \<Rightarrow> string \<Rightarrow> bool \<Rightarrow> verdict" where
  "judge P config key fingerprint previous host_matches =
     (if expected_fingerprint config \<noteq> [] \<and>
         (let expected = normalize_fingerprint (expected_fingerprint config)
          in expected = [] \<or> expected \<noteq> fingerprint)
      then Rejected (''TLS certificate fingerprint mismatch for '' @ key @ ''; expected ''
             @ expected_fingerprint config @ '' but received '' @ fingerprint)
      else let changed = (previous \<noteq> [] \<and> previous \<noteq> fingerprint) in
      if \<not> changed \<and> (previous = fingerprint \<or> expected_fingerprint config \<noteq> []
           \<or> (verify_result P = X509_V_OK \<and> host_matches))
      then Accepted (''Verified TLS certificate SHA-256 '' @ fingerprint)
      else case confirm_certificate config of
        Some confirm \<Rightarrow>
          if \<not> confirm key fingerprint previous
          then Rejected (''TLS certificate rejected for '' @ key @ ''; received '' @ fingerprint)
          else Remember
      | None \<Rightarrow>
          if changed
          then Rejected (''BLOCKED: TLS certificate for '' @ key @ '' changed. Previously trusted ''
                 @ previous @ '', received '' @ fingerprint
                 @ ''. Review with the host before resetting trust.'')
          else if \<not> trust_on_first_use config \<or> trust_store_path config = []
          then Rejected (''TLS certificate validation failed for '' @ key @ '': ''
                 @ cert_error_string P (verify_result P)
                 @ ''. Verify the hostname, configure a trusted CA or compare the SHA-256 fingerprint: ''
                 @ fingerprint)
          else Remember)"

text \<open>The second critical section: the entry is checked again, then stored.\<close>

definition remember_trust ::
  "trust_env \<Rightarrow> string \<Rightarrow> string \<Rightarrow> string \<Rightarrow> string \<Rightarrow> filesystem \<Rightarrow> (string + string) outcome \<times> filesystem" where
  "remember_trust V path key fingerprint previous fs =
     (let entries = read_trust_store fs path in
      if (case map_find entries key of None \<Rightarrow> False | Some f \<Rightarrow> f \<noteq> previous \<and> f \<noteq> fingerprint)
      then (Returned (Inl ''Trust changed during review. Retry the connection.''), fs)
      else case write_trust_store V path (map_assign key fingerprint entries) fs of
             (Threw e, fs) \<Rightarrow> (Threw e, fs)
           | (Returned (Some error), fs) \<Rightarrow> (Returned (Inl error), fs)
           | (Returned None, fs) \<Rightarrow> (Returned (Inr (''Saved trusted TLS certificate: '' @ fingerprint)), fs))"

text \<open>The value is \<open>Inr\<close> the notice for \<open>true\<close>, \<open>Inl\<close> the error for \<open>false\<close>.\<close>

definition verify_peer ::
  "trust_env \<Rightarrow> tls_peer \<Rightarrow> string \<Rightarrow> u16 \<Rightarrow> client_config \<Rightarrow> (filesystem \<Rightarrow> filesystem) \<Rightarrow>
     filesystem \<Rightarrow> (string + string) outcome \<times> filesystem" where
  "verify_peer V P host port config meanwhile fs =
     (if \<not> presented P then (Returned (Inl ''TLS server did not present a certificate''), fs)
      else let fingerprint = peer_sha256_fingerprint P;
               host_matches = certificate_matches_host P host in
      if fingerprint = []
      then (Returned (Inl ''Could not calculate the TLS certificate SHA-256 fingerprint''), fs)
      else let key = address_key host port in
      case load_trust V (trust_store_path config) fs of
        (Threw e, fs) \<Rightarrow> (Threw e, fs)
      | (Returned (Inl error), fs) \<Rightarrow> (Returned (Inl error), fs)
      | (Returned (Inr entries), fs) \<Rightarrow>
          let previous = (case map_find entries key of None \<Rightarrow> [] | Some f \<Rightarrow> f) in
          case judge P config key fingerprint previous host_matches of
            Accepted notice \<Rightarrow> (Returned (Inr notice), fs)
          | Rejected error \<Rightarrow> (Returned (Inl error), fs)
          | Remember \<Rightarrow>
              remember_trust V (trust_store_path config) key fingerprint previous (meanwhile fs))"

section \<open>Fingerprints and lines\<close>

definition normal_fingerprint :: "string \<Rightarrow> bool" where
  "normal_fingerprint f \<longleftrightarrow> length f = 64 \<and> list_all (\<lambda>c. isxdigit c \<and> toupper c = c) f"

definition wf_trust :: "trust_entries \<Rightarrow> bool" where
  "wf_trust entries \<longleftrightarrow> ascending (map fst entries) \<and>
     list_all (\<lambda>(a, f). a \<noteq> [] \<and> CHR ''|'' \<notin> set a \<and> CHR 0x0A \<notin> set a \<and> normal_fingerprint f) entries"

lemma isxdigit_toupper [simp]: "isxdigit c \<Longrightarrow> isxdigit (toupper c)" "toupper (toupper c) = toupper c"
  by (auto simp: toupper_def isxdigit_def isdigit_def islower_def)

lemma normalize_loop_digits:
  "normalize_loop s acc = Some n \<Longrightarrow> list_all (\<lambda>c. isxdigit c \<and> toupper c = c) acc \<Longrightarrow>
     list_all (\<lambda>c. isxdigit c \<and> toupper c = c) n"
  by (induction s acc rule: normalize_loop.induct) (auto split: if_splits)

lemma normalize_loop_normal:
  "list_all (\<lambda>c. isxdigit c \<and> toupper c = c) s \<Longrightarrow> normalize_loop s acc = Some (acc @ s)"
  by (induction s acc rule: normalize_loop.induct) auto

lemma normalize_normal [simp]: "normal_fingerprint f \<Longrightarrow> normalize_fingerprint f = f"
  by (simp add: normal_fingerprint_def normalize_fingerprint_def normalize_loop_normal SHA256_DIGEST_LENGTH_def)

lemma normalize_result: "normalize_fingerprint s \<noteq> [] \<Longrightarrow> normal_fingerprint (normalize_fingerprint s)"
  using normalize_loop_digits [of s "[]"]
  by (auto simp: normal_fingerprint_def normalize_fingerprint_def SHA256_DIGEST_LENGTH_def split: option.splits if_splits)

lemma upper_hex_digit: "d < 16 \<Longrightarrow> isxdigit (upper_hex_digit d) \<and> toupper (upper_hex_digit d) = upper_hex_digit d"
  by (simp add: upper_hex_digit_def isxdigit_def isdigit_def toupper_def islower_def)

lemma upper_hex_normal: "length d = 32 \<Longrightarrow> normal_fingerprint (upper_hex d)"
proof -
  have "length (upper_hex d) = 2 * length d \<and> list_all (\<lambda>c. isxdigit c \<and> toupper c = c) (upper_hex d)"
    by (induction d) (simp_all add: upper_hex_def upper_hex_digit byte_halves)
  then show "length d = 32 \<Longrightarrow> ?thesis" by (simp add: normal_fingerprint_def)
qed

lemma normal_no_newline: "normal_fingerprint f \<Longrightarrow> CHR 0x0A \<notin> set f \<and> CHR ''|'' \<notin> set f \<and> f \<noteq> []"
  by (auto simp: normal_fingerprint_def list_all_iff isxdigit_def isdigit_def byte_def)


section \<open>The file reads back as it was written\<close>

lemma wf_trust_assign:
  assumes "wf_trust entries" "a \<noteq> []" "CHR ''|'' \<notin> set a" "CHR 0x0A \<notin> set a" "normal_fingerprint f"
  shows "wf_trust (map_assign a f entries)"
proof -
  have "set (map_assign a f entries) \<subseteq> insert (a, f) (set entries)"
    by (induction entries) (auto split: if_splits)
  with assms show ?thesis unfolding wf_trust_def list_all_iff by blast
qed

lemma wf_trust_line:
  assumes "wf_trust entries" "CHR 0x0A \<notin> set line"
  shows "wf_trust (read_trust_line line entries)"
proof (cases "find_char CHR ''|'' line")
  case (Some i)
  then obtain a b where "line = a @ CHR ''|'' # b" "CHR ''|'' \<notin> set a" "i = length a" by (rule find_char_SomeE)
  with Some assms show ?thesis
    by (auto simp: read_trust_line_def Let_def intro!: wf_trust_assign normalize_result)
qed (use assms in \<open>simp add: read_trust_line_def\<close>)

lemma wf_read_trust_store: "wf_trust (read_trust_store fs path)"
proof -
  have "wf_trust (fold read_trust_line ls entries)" if "wf_trust entries" "\<And>l. l \<in> set ls \<Longrightarrow> CHR 0x0A \<notin> set l" for ls entries
    using that by (induction ls arbitrary: entries) (auto intro: wf_trust_line)
  moreover have "wf_trust []" by (simp add: wf_trust_def)
  ultimately show ?thesis
    by (auto simp: read_trust_store_def dest: split_no_delim split: option.split)
qed

lemma read_trust_text:
  assumes "wf_trust entries"
  shows "fold read_trust_line (split (trust_text entries) CHR 0x0A) [] = entries"
proof -
  let ?line = "\<lambda>(a, f). a @ CHR ''|'' # f"
  have body: "trust_text entries = concat (map (\<lambda>l. l @ [CHR 0x0A]) (map ?line entries))"
    by (simp add: trust_text_def comp_def case_prod_unfold)
  have lines: "split (trust_text entries) CHR 0x0A = map ?line entries"
    unfolding body using assms normal_no_newline
    by (intro split_lines) (fastforce simp: wf_trust_def list_all_iff)
  have "fold read_trust_line (map ?line es) m = fold (\<lambda>(k, v). map_assign k v) es m" if "set es \<subseteq> set entries" for es m
    using that assms normal_no_newline
    by (induction es arbitrary: m) (auto simp: read_trust_line_def wf_trust_def list_all_iff)
  with fold_map_assign [of "[]" entries] assms show ?thesis
    unfolding lines by (simp add: wf_trust_def)
qed

lemma write_trust_store_cases:
  assumes "write_trust_store V path entries fs = (r, fs')"
  shows "contents fs' path = (if r = Returned None then Some (trust_text entries) else contents fs path)"
  using assms by (auto simp: write_trust_store_def Let_def split: option.splits if_splits)

lemma read_after_write:
  assumes "wf_trust entries" "write_trust_store V path entries fs = (r, fs')"
  shows "read_trust_store fs' path = (if r = Returned None then entries else read_trust_store fs path)"
  using write_trust_store_cases [OF assms(2)] read_trust_text [OF assms(1)]
  by (simp add: read_trust_store_def)

text \<open>
  The file of trusted fingerprints is replaced atomically and reads back as it was written.
  After \<open>write_trust_store\<close> on entries with usable addresses and normal fingerprints the store
  reads as exactly these entries when the call succeeded, and as before when it failed or
  threw, whatever the point of failure.
\<close>

theorem trust_store_atomic:
  assumes "wf_trust entries" "write_trust_store V path entries fs = (r, fs')"
  shows "read_trust_store fs' path = (if r = Returned None then entries else read_trust_store fs path)"
  using read_after_write [OF assms] .

definition demo_files :: filesystem where
  "demo_files = \<lparr>contents = (\<lambda>_. None), openable = (\<lambda>_. True), capacity = (\<lambda>_. None)\<rparr>"

definition demo_trust_env :: trust_env where
  "demo_trust_env = \<lparr>data_directory = ''/data'', create_parent_error = (\<lambda>_. None),
     early_write_error = (\<lambda>_. False), rename_error = (\<lambda>_ _. None)\<rparr>"

definition demo_fingerprint :: string where
  "demo_fingerprint = upper_hex (replicate 32 CHR 0xAA)"

lemma demo_fingerprint_normal [simp]: "normal_fingerprint demo_fingerprint"
  unfolding demo_fingerprint_def by (rule upper_hex_normal) simp

lemma demo_write: "fst (write_trust_store demo_trust_env path entries demo_files) = Returned None"
  by (simp add: write_trust_store_def demo_trust_env_def demo_files_def Let_def)

theorem trust_store_atomic_witness:
  "read_trust_store (snd (write_trust_store demo_trust_env ''t'' [(''h:1'', demo_fingerprint)] demo_files)) ''t''
     = [(''h:1'', demo_fingerprint)]"
proof -
  have "wf_trust [(''h:1'', demo_fingerprint)]" by (simp add: wf_trust_def)
  then show ?thesis
    using demo_write trust_store_atomic [OF _ prod.collapse [symmetric], of "[(''h:1'', demo_fingerprint)]" demo_trust_env "''t''" demo_files]
    by simp
qed

section \<open>Accepted certificates\<close>

text \<open>The fingerprint trusted for an address: the store's, else that of the old file.\<close>

definition trusted :: "trust_env \<Rightarrow> string \<Rightarrow> string \<Rightarrow> filesystem \<Rightarrow> string" where
  "trusted V path key fs =
     (case map_find (read_trust_store fs path) key of
        Some f \<Rightarrow> f
      | None \<Rightarrow>
          if path = default_trust_store_path V
          then (case map_find (read_trust_store fs ''trusted_fingerprints.txt'') key of None \<Rightarrow> [] | Some f \<Rightarrow> f)
          else [])"

lemma load_trust_entries:
  assumes "load_trust V path fs = (Returned (Inr entries), fs')"
  shows "(case map_find entries key of None \<Rightarrow> [] | Some f \<Rightarrow> f) = trusted V path key fs"
proof -
  have asc: "ascending (map fst (read_trust_store fs p))" for p
    using wf_read_trust_store [of fs p] by (simp add: wf_trust_def)
  show ?thesis
    using assms fold_emplace_find [OF asc keys_distinct [OF asc]]
    by (auto simp: load_trust_def trusted_def Let_def split: if_splits outcome.splits option.splits prod.splits)
qed

text \<open>
  C24: An accepted certificate was trusted for a reason. When \<open>verify_peer\<close> accepts, the
  certificate has a fingerprint, an explicit pin is the one it has, and: the fingerprint is the
  one stored for the address; or no other is stored and the certificate is pinned or verified
  by the chain and the host name; or the user confirmed it, seeing the one stored before; or it
  is the first one for the address and trusting on first use is on.
\<close>

theorem accepted_peer_is_trusted:
  assumes "verify_peer V P host port config meanwhile fs = (Returned (Inr notice), fs')"
  defines "f \<equiv> peer_sha256_fingerprint P" and "key \<equiv> address_key host port"
  defines "old \<equiv> trusted V (trust_store_path config) key fs"
  shows "f \<noteq> [] \<and> (expected_fingerprint config \<noteq> [] \<longrightarrow> normalize_fingerprint (expected_fingerprint config) = f) \<and>
    (old = f
     \<or> old = [] \<and> (expected_fingerprint config \<noteq> [] \<or> verify_result P = X509_V_OK \<and> certificate_matches_host P host)
     \<or> (\<exists>confirm. confirm_certificate config = Some confirm \<and> confirm key f old)
     \<or> confirm_certificate config = None \<and> old = [] \<and> trust_on_first_use config \<and> trust_store_path config \<noteq> [])"
proof -
  from assms(1) obtain entries fs1 where load: "load_trust V (trust_store_path config) fs = (Returned (Inr entries), fs1)"
    and f: "f \<noteq> []"
    by (auto simp: verify_peer_def f_def Let_def split: if_splits outcome.splits sum.splits prod.splits)
  from load_trust_entries [OF load, of key] have old: "(case map_find entries key of None \<Rightarrow> [] | Some f \<Rightarrow> f) = old"
    by (simp add: old_def)
  have "\<not> (\<exists>e. judge P config key f old (certificate_matches_host P host) = Rejected e)"
    using assms(1) load old f by (auto simp: verify_peer_def f_def key_def Let_def split: if_splits)
  with f show ?thesis by (auto simp: judge_def Let_def split: if_splits option.splits)
qed

definition demo_peer :: tls_peer where
  "demo_peer = \<lparr>presented = True, cert_digest = Some (replicate 32 CHR 0xAA), verify_result = 18,
     check_ip_asc = (\<lambda>_. False), check_host = (\<lambda>_. False), cert_error_string = (\<lambda>_. ''self-signed certificate'')\<rparr>"

definition demo_config :: client_config where
  "demo_config = \<lparr>enabled = True, ca_path = [], expected_fingerprint = [], trust_store_path = ''t'',
     trust_on_first_use = True, confirm_certificate = None\<rparr>"

lemma demo_peer_fingerprint [simp]: "peer_sha256_fingerprint demo_peer = demo_fingerprint"
  by (simp add: peer_sha256_fingerprint_def demo_peer_def demo_fingerprint_def)

lemma demo_peer_fields [simp]: "presented demo_peer" "verify_result demo_peer = 18" "\<not> certificate_matches_host demo_peer h"
  by (simp_all add: demo_peer_def certificate_matches_host_def)

lemma demo_config_fields [simp]:
  "expected_fingerprint demo_config = []" "trust_store_path demo_config = ''t''"
  "trust_on_first_use demo_config" "confirm_certificate demo_config = None"
  by (simp_all add: demo_config_def)

lemma demo_fingerprint_not_Nil [simp]: "demo_fingerprint \<noteq> []"
  using normal_no_newline [OF demo_fingerprint_normal] by simp

lemma demo_store [simp]: "read_trust_store demo_files p = []"
  by (simp add: read_trust_store_def demo_files_def)

lemma demo_load: "load_trust demo_trust_env ''t'' demo_files = (Returned (Inr []), demo_files)"
  by (simp add: load_trust_def)

lemma demo_accepted:
  "fst (verify_peer demo_trust_env demo_peer ''h'' 1 demo_config (\<lambda>fs. fs) demo_files)
     = Returned (Inr (''Saved trusted TLS certificate: '' @ demo_fingerprint))"
proof -
  obtain fs' where "write_trust_store demo_trust_env ''t'' [(address_key ''h'' 1, demo_fingerprint)] demo_files = (Returned None, fs')"
    using demo_write by (metis prod.collapse)
  then show ?thesis
    by (simp add: verify_peer_def demo_load judge_def X509_V_OK_def remember_trust_def Let_def
        demo_fingerprint_not_Nil [symmetric])
qed

theorem accepted_peer_is_trusted_witness:
  "trusted demo_trust_env ''t'' (address_key ''h'' 1) demo_files = demo_fingerprint \<or>
     trusted demo_trust_env ''t'' (address_key ''h'' 1) demo_files = [] \<and> trust_on_first_use demo_config"
proof -
  obtain fs' where "verify_peer demo_trust_env demo_peer ''h'' 1 demo_config (\<lambda>fs. fs) demo_files
      = (Returned (Inr (''Saved trusted TLS certificate: '' @ demo_fingerprint)), fs')"
    using demo_accepted by (metis prod.collapse)
  from accepted_peer_is_trusted [OF this] show ?thesis by auto
qed

section \<open>Changed certificates\<close>

lemma wf_merge: "wf_trust l \<Longrightarrow> wf_trust m \<Longrightarrow> wf_trust (fold (\<lambda>(k, v). map_emplace k v) l m)"
proof (induction l arbitrary: m)
  case (Cons a l)
  obtain k v where a: "a = (k, v)" by (cases a)
  from Cons.prems have "wf_trust l" "k \<noteq> []" "CHR ''|'' \<notin> set k" "CHR 0x0A \<notin> set k" "normal_fingerprint v"
    by (auto simp: wf_trust_def a)
  with Cons a show ?case by (auto simp: map_emplace_def intro: wf_trust_assign)
qed simp

lemma write_keeps_others:
  assumes "write_trust_store V path entries fs = (r, fs')" "p \<noteq> path" "p \<noteq> path @ ''.tmp''"
  shows "read_trust_store fs' p = read_trust_store fs p"
  using assms by (auto simp: write_trust_store_def read_trust_store_def Let_def split: option.splits if_splits)

lemma not_temporary: "''trusted_fingerprints.txt'' \<noteq> path @ ''.tmp''"
proof
  assume "''trusted_fingerprints.txt'' = path @ ''.tmp''"
  from arg_cong [OF this, of last] show False by simp
qed

text \<open>Loading, with its merge, does not change what is trusted.\<close>

lemma load_trust_keeps:
  assumes "load_trust V path fs = (r, fs')"
  shows "trusted V path key fs' = trusted V path key fs"
proof (cases "fs' = fs")
  case False
  let ?old = "''trusted_fingerprints.txt''"
  define merged where "merged = fold (\<lambda>(k, v). map_emplace k v) (read_trust_store fs ?old) (read_trust_store fs path)"
  from assms False obtain w where path: "path \<noteq> ?old" "path = default_trust_store_path V"
    and wr: "write_trust_store V path merged fs = (w, fs')"
    by (auto simp: load_trust_def Let_def merged_def split: if_splits prod.splits outcome.splits option.splits)
  have "wf_trust merged" by (simp add: merged_def wf_merge wf_read_trust_store)
  note after = read_after_write [OF this wr] write_keeps_others [OF wr path(1) [symmetric] not_temporary]
  have asc: "ascending (map fst (read_trust_store fs p))" for p
    using wf_read_trust_store [of fs p] by (simp add: wf_trust_def)
  have "map_find merged key = (case map_find (read_trust_store fs path) key of Some v \<Rightarrow> Some v
      | None \<Rightarrow> map_find (read_trust_store fs ?old) key)"
    unfolding merged_def by (rule fold_emplace_find [OF asc keys_distinct [OF asc]])
  with after path show ?thesis by (auto simp: trusted_def split: option.splits)
qed simp

text \<open>
  A changed certificate is never accepted silently. When another fingerprint is trusted for
  the address and there is no user to ask, \<open>verify_peer\<close> does not accept - even a certificate
  with a valid chain or with the expected pin - and what is trusted for the address stays.
\<close>

theorem changed_certificate_blocked:
  assumes "trusted V (trust_store_path config) (address_key host port) fs \<notin> {[], peer_sha256_fingerprint P}"
    and "confirm_certificate config = None"
  shows "(\<nexists>notice. fst (verify_peer V P host port config meanwhile fs) = Returned (Inr notice)) \<and>
    trusted V (trust_store_path config) (address_key host port) (snd (verify_peer V P host port config meanwhile fs))
      = trusted V (trust_store_path config) (address_key host port) fs"
proof -
  let ?path = "trust_store_path config" and ?key = "address_key host port"
  obtain r fs1 where load: "load_trust V ?path fs = (r, fs1)" by (cases "load_trust V ?path fs")
  note keeps = load_trust_keeps [OF load]
  have reject: "\<exists>e. judge P config ?key (peer_sha256_fingerprint P) (trusted V ?path ?key fs) hm = Rejected e" for hm
    using assms by (auto simp: judge_def Let_def)
  show ?thesis
  proof (cases "\<exists>entries. r = Returned (Inr entries)")
    case True
    then obtain entries where r: "r = Returned (Inr entries)" by blast
    obtain e where "judge P config ?key (peer_sha256_fingerprint P) (trusted V ?path ?key fs)
        (certificate_matches_host P host) = Rejected e" using reject by blast
    then show ?thesis
      using load keeps by (simp add: r verify_peer_def Let_def load_trust_entries [OF load [unfolded r]])
  next
    case False
    with load keeps show ?thesis
      by (cases r) (auto simp: verify_peer_def Let_def split: sum.splits)
  qed
qed

definition other_fingerprint :: string where
  "other_fingerprint = upper_hex (replicate 32 CHR 0xBB)"

definition changed_files :: filesystem where
  "changed_files = demo_files\<lparr>contents := [''t'' \<mapsto> trust_text [(address_key ''h'' 1, other_fingerprint)]]\<rparr>"

lemma other_fingerprint: "normal_fingerprint other_fingerprint" "other_fingerprint \<noteq> demo_fingerprint"
proof -
  show "normal_fingerprint other_fingerprint" unfolding other_fingerprint_def by (rule upper_hex_normal) simp
  have "hd (upper_hex (replicate (Suc n) c)) = upper_hex_digit (byte c div 16)" for n c by (simp add: upper_hex_def)
  from this [of 31] have "hd other_fingerprint = upper_hex_digit (byte CHR 0xBB div 16)"
    "hd demo_fingerprint = upper_hex_digit (byte CHR 0xAA div 16)"
    by (simp_all add: other_fingerprint_def demo_fingerprint_def)
  moreover have "upper_hex_digit (byte CHR 0xBB div 16) \<noteq> upper_hex_digit (byte CHR 0xAA div 16)" by code_simp
  ultimately show "other_fingerprint \<noteq> demo_fingerprint" by auto
qed

definition plain_address :: "string \<Rightarrow> bool" where
  "plain_address host \<longleftrightarrow> CHR ''|'' \<notin> set host \<and> CHR 0x0A \<notin> set host"

lemma address_key_usable:
  "plain_address host \<Longrightarrow> address_key host port \<noteq> [] \<and> CHR ''|'' \<notin> set (address_key host port) \<and>
     CHR 0x0A \<notin> set (address_key host port)"
  by (auto simp: plain_address_def address_key_def isdigit_def byte_def dest!: nat_to_string_digits)

lemma changed_trusted: "trusted demo_trust_env ''t'' (address_key ''h'' 1) changed_files = other_fingerprint"
proof -
  have "wf_trust [(address_key ''h'' 1, other_fingerprint)]"
    using address_key_usable [of "''h''" 1] other_fingerprint by (simp add: wf_trust_def plain_address_def)
  from read_trust_text [OF this] show ?thesis
    by (simp add: trusted_def read_trust_store_def changed_files_def)
qed

theorem changed_certificate_blocked_witness:
  "fst (verify_peer demo_trust_env demo_peer ''h'' 1 demo_config (\<lambda>fs. fs) changed_files) \<noteq>
     Returned (Inr (''Verified TLS certificate SHA-256 '' @ demo_fingerprint))"
proof -
  have "trusted demo_trust_env (trust_store_path demo_config) (address_key ''h'' 1) changed_files
      \<notin> {[], peer_sha256_fingerprint demo_peer}"
    using other_fingerprint normal_no_newline by (simp add: changed_trusted)
  from changed_certificate_blocked [OF this] show ?thesis by simp
qed

section \<open>Remembered certificates\<close>

lemma remember_trust_accepted:
  assumes "remember_trust V path key f previous fs = (Returned (Inr notice), fs')"
    and "key \<noteq> []" "CHR ''|'' \<notin> set key" "CHR 0x0A \<notin> set key" "normal_fingerprint f"
  shows "read_trust_store fs' path = map_assign key f (read_trust_store fs path)"
    "map_find (read_trust_store fs path) key \<in> {None, Some previous, Some f}"
proof -
  have wf: "wf_trust (map_assign key f (read_trust_store fs path))"
    using assms(2-) by (intro wf_trust_assign wf_read_trust_store)
  from assms(1) have "write_trust_store V path (map_assign key f (read_trust_store fs path)) fs = (Returned None, fs')"
    by (auto simp: remember_trust_def Let_def split: if_splits prod.splits outcome.splits option.splits)
  from read_after_write [OF wf this] show "read_trust_store fs' path = map_assign key f (read_trust_store fs path)" by simp
  from assms(1) show "map_find (read_trust_store fs path) key \<in> {None, Some previous, Some f}"
    by (auto simp: remember_trust_def Let_def split: if_splits option.splits)
qed

lemma trusted_certificate_accepted:
  assumes "presented P" "peer_sha256_fingerprint P \<noteq> []" "expected_fingerprint config = []"
    and "trusted V (trust_store_path config) (address_key host port) fs = peer_sha256_fingerprint P"
    and "load_trust V (trust_store_path config) fs = (Returned (Inr entries), fs')"
  shows "verify_peer V P host port config meanwhile fs =
    (Returned (Inr (''Verified TLS certificate SHA-256 '' @ peer_sha256_fingerprint P)), fs')"
  using assms load_trust_entries [OF assms(5), of "address_key host port"]
  by (simp add: verify_peer_def judge_def Let_def)

text \<open>
  A certificate that was not trusted before and is accepted after review or on first use is
  remembered. The store then has its fingerprint for the address; the decision did not replace
  one that another process stored during the review; the entries of the other addresses are
  those found there; and the next connection to the address, when the store can be loaded, is
  accepted with this certificate and without asking. Hypotheses: the digest has the length of
  SHA-256, and the host name has no bar or newline.
\<close>

theorem remembered_certificate_recognised:
  assumes "verify_peer V P host port config meanwhile fs = (Returned (Inr notice), fs')"
    and "load_trust V path fs = (Returned (Inr entries), fs1)" "path = trust_store_path config"
    and "trusted V path key fs \<noteq> f" "expected_fingerprint config = []"
    and "verify_result P \<noteq> X509_V_OK \<or> \<not> certificate_matches_host P host"
    and "cert_digest P = Some digest" "length digest = 32" "plain_address host"
    and "f = peer_sha256_fingerprint P" "key = address_key host port"
  shows "trusted V path key fs' = f \<and>
    map_find (read_trust_store (meanwhile fs1) path) key \<in> {None, Some (trusted V path key fs), Some f} \<and>
    (\<forall>a. a \<noteq> key \<longrightarrow> map_find (read_trust_store fs' path) a = map_find (read_trust_store (meanwhile fs1) path) a) \<and>
    (\<forall>config' meanwhile' entries' fs2. trust_store_path config' = path \<and> expected_fingerprint config' = [] \<and>
       load_trust V path fs' = (Returned (Inr entries'), fs2) \<longrightarrow>
       verify_peer V P host port config' meanwhile' fs'
         = (Returned (Inr (''Verified TLS certificate SHA-256 '' @ f)), fs2))"
proof -
  have presented: "presented P" using assms(1) by (auto simp: verify_peer_def split: if_splits)
  then have normal: "normal_fingerprint f" using assms(7,8,10) by (simp add: peer_sha256_fingerprint_def upper_hex_normal)
  then have f: "f \<noteq> []" using normal_no_newline by blast
  let ?old = "trusted V path key fs"
  note old = load_trust_entries [OF assms(2), of key]
  have "judge P config key f ?old (certificate_matches_host P host) \<noteq> Accepted n" for n
    using assms(4-6) f by (auto simp: judge_def Let_def split: option.split)
  with assms(1,2) old f presented
  have "remember_trust V path key f ?old (meanwhile fs1) = (Returned (Inr notice), fs')"
    by (auto simp: verify_peer_def Let_def assms(3,10,11) split: if_splits verdict.splits)
  note stored = remember_trust_accepted [OF this _ _ _ normal]
  have asc: "ascending (map fst (read_trust_store (meanwhile fs1) path))"
    using wf_read_trust_store by (simp add: wf_trust_def)
  note key = address_key_usable [OF assms(9), of port, folded assms(11)]
  have trust: "trusted V path key fs' = f"
    using stored(1) key asc by (simp add: trusted_def)
  have again: "verify_peer V P host port config' meanwhile' fs'
        = (Returned (Inr (''Verified TLS certificate SHA-256 '' @ f)), fs2)"
    if "trust_store_path config' = path" "expected_fingerprint config' = []"
      "load_trust V path fs' = (Returned (Inr entries'), fs2)" for config' meanwhile' entries' fs2
    using trusted_certificate_accepted [OF presented, of config' V host port fs' entries' fs2] that trust f
    by (simp add: assms(10,11))
  show ?thesis using trust stored key asc again by auto
qed

theorem remembered_certificate_recognised_witness:
  "trusted demo_trust_env ''t'' (address_key ''h'' 1)
     (snd (verify_peer demo_trust_env demo_peer ''h'' 1 demo_config (\<lambda>fs. fs) demo_files)) = demo_fingerprint"
proof -
  obtain fs' where accepted: "verify_peer demo_trust_env demo_peer ''h'' 1 demo_config (\<lambda>fs. fs) demo_files
      = (Returned (Inr (''Saved trusted TLS certificate: '' @ demo_fingerprint)), fs')"
    using demo_accepted by (metis prod.collapse)
  have "trusted demo_trust_env ''t'' (address_key ''h'' 1) demo_files \<noteq> demo_fingerprint"
    by (simp add: trusted_def demo_fingerprint_not_Nil [symmetric])
  moreover have "cert_digest demo_peer = Some (replicate 32 CHR 0xAA)" "plain_address ''h''"
    by (simp_all add: demo_peer_def plain_address_def)
  ultimately show ?thesis
    using remembered_certificate_recognised [OF accepted demo_load] by (simp add: accepted)
qed

end
