(* ===== verification/Invitations.thy ===== *)
theory Invitations
  imports Trust_Store
begin

text \<open>
  Invitations, \<open>network/invite.cpp\<close>: the one-line text a host shares, with the address, the
  port, the security settings and the certificate's fingerprint. An exception is \<open>Inl\<close> its
  text. Shown: an invitation that is made is parsed to itself, and whatever the parser accepts
  is a valid invitation that can be made again.
\<close>

section \<open>The model\<close>

record invite =
  invite_host :: string
  invite_port :: u16
  invite_tls :: bool
  invite_password_required :: bool
  invite_fingerprint :: string

definition host_char :: "char \<Rightarrow> bool" where
  "host_char c \<longleftrightarrow> c \<in> set (''abcdefghijklmnopqrstuvwxyzABCDEFGHIJKLMNOPQRSTUVWXYZ0123456789.-:_%'')"

definition validate :: "invite \<Rightarrow> string option" where
  "validate i =
     (if invite_host i = [] \<or> length (invite_host i) > HOST_MAX_LEN \<or> invite_port i = 0
         \<or> \<not> list_all host_char (invite_host i)
      then Some ''Invite contains an invalid address or port.''
      else if invite_fingerprint i \<noteq> [] \<and>
              (\<not> invite_tls i \<or> normalize_fingerprint (invite_fingerprint i) = [])
      then Some ''Invite contains an invalid TLS fingerprint.''
      else None)"

definition make_invite :: "invite \<Rightarrow> string + string" where
  "make_invite i =
     (case validate i of
        Some error \<Rightarrow> Inl error
      | None \<Rightarrow> Inr (''chatbox:1|'' @ invite_host i @ ''|'' @ nat_to_string (unat (invite_port i)) @ ''|''
          @ (if invite_tls i then ''1'' else ''0'') @ ''|''
          @ (if invite_password_required i then ''1'' else ''0'') @ ''|''
          @ normalize_fingerprint (invite_fingerprint i)))"

definition parse_invite :: "string \<Rightarrow> string + invite" where
  "parse_invite s =
     (let fs = split_on CHR ''|'' s in
      if length fs \<noteq> 6 \<or> fs ! 0 \<noteq> ''chatbox:1''
      then Inl ''Malformed or unsupported invite version.''
      else case from_chars (2 ^ 16) (fs ! 2) of
        Inl e \<Rightarrow> Inl ''Invalid invite settings.''
      | Inr (port, rest) \<Rightarrow>
          if rest \<noteq> [] \<or> (fs ! 3 \<noteq> ''0'' \<and> fs ! 3 \<noteq> ''1'') \<or> (fs ! 4 \<noteq> ''0'' \<and> fs ! 4 \<noteq> ''1'')
          then Inl ''Invalid invite settings.''
          else let i = \<lparr>invite_host = fs ! 1, invite_port = of_nat port, invite_tls = (fs ! 3 = ''1''),
                        invite_password_required = (fs ! 4 = ''1''), invite_fingerprint = fs ! 5\<rparr>
               in case validate i of
                    Some error \<Rightarrow> Inl error
                  | None \<Rightarrow> Inr (i\<lparr>invite_fingerprint := normalize_fingerprint (invite_fingerprint i)\<rparr>))"

section \<open>Making and parsing\<close>

definition valid_invite :: "invite \<Rightarrow> bool" where
  "valid_invite i \<longleftrightarrow> validate i = None \<and> normalize_fingerprint (invite_fingerprint i) = invite_fingerprint i"

lemma normalize_Nil [simp]: "normalize_fingerprint [] = []"
  by (simp add: normalize_fingerprint_def SHA256_DIGEST_LENGTH_def)

lemma normalize_idem [simp]: "normalize_fingerprint (normalize_fingerprint s) = normalize_fingerprint s"
  using normalize_result [of s] by (cases "normalize_fingerprint s = []") auto

lemma normalize_no_bar: "CHR ''|'' \<notin> set (normalize_fingerprint s)"
  using normalize_result [of s] normal_no_newline by (cases "normalize_fingerprint s = []") auto

lemma host_no_bar: "list_all host_char h \<Longrightarrow> CHR ''|'' \<notin> set h"
proof -
  have "\<not> host_char CHR ''|''" by code_simp
  then show "list_all host_char h \<Longrightarrow> ?thesis" by (auto simp: list_all_iff)
qed

lemma number_no_bar: "CHR ''|'' \<notin> set (nat_to_string n)"
  by (rule nat_to_string_no_char) (simp add: isdigit_def byte_def)

lemma validate_normalized:
  "validate (i\<lparr>invite_fingerprint := normalize_fingerprint (invite_fingerprint i)\<rparr>) = None" if "validate i = None"
  using that by (auto simp: validate_def split: if_splits)

lemma parse_made:
  assumes "validate i = None"
  shows "\<exists>s. make_invite i = Inr s \<and>
    parse_invite s = Inr (i\<lparr>invite_fingerprint := normalize_fingerprint (invite_fingerprint i)\<rparr>)"
proof -
  let ?fields = "[''chatbox:1'', invite_host i, nat_to_string (unat (invite_port i)),
      (if invite_tls i then ''1'' else ''0''), (if invite_password_required i then ''1'' else ''0''),
      normalize_fingerprint (invite_fingerprint i)]"
  have "make_invite i = Inr (join_with CHR ''|'' ?fields)"
    using assms by (simp add: make_invite_def)
  moreover have "split_on CHR ''|'' (join_with CHR ''|'' ?fields) = ?fields"
    using assms by (intro split_join)
      (auto simp: normalize_no_bar number_no_bar host_no_bar validate_def split: if_splits)
  moreover have "unat (invite_port i) < 2 ^ 16" using unat_less [of "invite_port i"] by simp
  moreover note validate_normalized [OF assms]
  ultimately show ?thesis
    by (cases i; cases "invite_tls i"; cases "invite_password_required i") (simp_all add: parse_invite_def Let_def)
qed

text \<open>Accepted text gives a valid invitation, whose fingerprint is in normal form.\<close>

lemma parse_invite_valid:
  assumes "parse_invite s = Inr i"
  shows "valid_invite i"
proof -
  obtain raw where "validate raw = None" "i = raw\<lparr>invite_fingerprint := normalize_fingerprint (invite_fingerprint raw)\<rparr>"
    using assms unfolding parse_invite_def Let_def
    by (auto simp del: invite.update_convs split: if_splits sum.splits prod.splits option.splits)
  then show ?thesis using validate_normalized by (auto simp: valid_invite_def)
qed

lemma parse_made_valid: "valid_invite i \<Longrightarrow> \<exists>s. make_invite i = Inr s \<and> parse_invite s = Inr i"
  using parse_made [of i] by (cases i) (simp add: valid_invite_def)

interpretation invite_text: codec "\<lambda>i. case make_invite i of Inl _ \<Rightarrow> None | Inr s \<Rightarrow> Some s"
    "\<lambda>s. case parse_invite s of Inl _ \<Rightarrow> None | Inr i \<Rightarrow> Some i" valid_invite
  by unfold_locales (auto dest!: parse_made_valid split: sum.splits)

text \<open>
  Invitations survive sharing. Every invitation whose settings are valid can be made into a
  text, and parsing that text gives the same settings, the fingerprint in normal form; two
  valid invitations in normal form with the same text are the same.
\<close>

theorem invite_roundtrip:
  assumes "validate i = None"
  shows "\<exists>s. make_invite i = Inr s \<and>
    parse_invite s = Inr (i\<lparr>invite_fingerprint := normalize_fingerprint (invite_fingerprint i)\<rparr>) \<and>
    (\<forall>j. valid_invite i \<and> valid_invite j \<and> make_invite j = Inr s \<longrightarrow> j = i)"
  using parse_made [OF assms] invite_text.encode_injective by fastforce

definition demo_invite :: invite where
  "demo_invite = \<lparr>invite_host = ''chat.example.org'', invite_port = 7777, invite_tls = True,
     invite_password_required = False, invite_fingerprint = []\<rparr>"

lemma demo_invite_valid: "validate demo_invite = None"
  by code_simp

theorem invite_roundtrip_witness:
  "\<exists>s. make_invite demo_invite = Inr s \<and> parse_invite s = Inr demo_invite"
  using invite_roundtrip [OF demo_invite_valid] by (auto simp: demo_invite_def)

text \<open>
  Whatever text the parser accepts - an invitation comes from a stranger - is a usable
  address and port, with a fingerprint only together with TLS and in normal form, and making
  an invitation of the result gives a text that parses to it again.
\<close>

theorem parse_invite_sound:
  assumes "parse_invite s = Inr i"
  shows "0 < length (invite_host i) \<and> length (invite_host i) \<le> 63 \<and> invite_port i \<noteq> 0 \<and>
    (invite_fingerprint i = [] \<or> invite_tls i \<and> normal_fingerprint (invite_fingerprint i)) \<and>
    (\<exists>s'. make_invite i = Inr s' \<and> parse_invite s' = Inr i)"
proof -
  note valid = parse_invite_valid [OF assms]
  then have "normalize_fingerprint (invite_fingerprint i) = invite_fingerprint i" "validate i = None"
    by (simp_all add: valid_invite_def)
  with parse_made_valid [OF valid] normalize_result [of "invite_fingerprint i"] show ?thesis
    by (auto simp: validate_def HOST_MAX_LEN_def split: if_splits)
qed

theorem parse_invite_sound_witness:
  "\<exists>i. parse_invite ''chatbox:1|h|07|0|1|'' = Inr i \<and> invite_port i \<noteq> 0 \<and> invite_fingerprint i = []"
proof -
  have fields: "split_on CHR ''|'' ''chatbox:1|h|07|0|1|'' = [''chatbox:1'', ''h'', ''07'', ''0'', ''1'', []]" by simp
  have "from_chars (2 ^ 16) ''07'' = Inr (7, [])" by (simp add: from_chars_def dec_value_def isdigit_def byte_def)
  moreover have "host_char CHR ''h''" by code_simp
  ultimately have "parse_invite ''chatbox:1|h|07|0|1|'' = Inr \<lparr>invite_host = ''h'', invite_port = 7, invite_tls = False,
      invite_password_required = True, invite_fingerprint = []\<rparr>"
    by (simp add: parse_invite_def fields validate_def HOST_MAX_LEN_def)
  from parse_invite_sound [OF this] this show ?thesis by auto
qed

end
