(* ===== verification/Server_Browser.thy ===== *)
theory Server_Browser
  imports Invitations Ordered_Containers
begin

text \<open>
  The directory of published servers, \<open>network/server_browser.h\<close> and \<open>.cpp\<close>: the registry with
  its \<open>REGISTER\<close>, \<open>UNREGISTER\<close> and \<open>LIST\<close> requests, the session that answers one request, and
  the client's requests and the parsing of its answers. The clock is an argument, in nanoseconds:
  one value for each call of \<open>system_clock::now()\<close> in the order of the calls. Connecting, its
  deadlines and TLS are the environment.

  Shown: whatever bytes a client sends, the registry holds only printable fields of bounded
  length under their keys; and a listing obtained over the wire is the registry.
\<close>

section \<open>Numbers\<close>

text \<open>
  \<open>std::stoi\<close>: white space, an optional sign, digits. \<open>None\<close> is an exception; otherwise the
  value and the number of characters read.
\<close>

definition stoi :: "string \<Rightarrow> (int \<times> nat) option" where
  "stoi s =
     (let ws = takeWhile isspace s; r = dropWhile isspace s;
          sign = (if r \<noteq> [] \<and> (hd r = CHR ''-'' \<or> hd r = CHR ''+'') then 1 else 0);
          ds = takeWhile isdigit (drop sign r);
          v = (if r \<noteq> [] \<and> hd r = CHR ''-'' then - int (dec_value ds) else int (dec_value ds))
      in if ds = [] then None
         else if v < - (2 ^ 31) \<or> 2 ^ 31 - 1 < v then None
         else Some (v, length ws + sign + length ds))"

text \<open>\<open>std::to_string\<close> of a signed number.\<close>

definition int_to_string :: "int \<Rightarrow> string" where
  "int_to_string i = (if i < 0 then CHR ''-'' # nat_to_string (nat (- i)) else nat_to_string (nat i))"

definition parse_u16_field :: "string \<Rightarrow> u16 option" where
  "parse_u16_field s =
     (case stoi s of
        None \<Rightarrow> None
      | Some (v, consumed) \<Rightarrow>
          if consumed \<noteq> length s \<or> v < 0 \<or> v > 65535 then None else Some (of_int v))"

text \<open>The number of users in a field: \<open>std::max(0, std::stoi(text))\<close>, 0 on an exception.\<close>

definition users_field :: "string \<Rightarrow> int" where
  "users_field s = (case stoi s of None \<Rightarrow> 0 | Some (v, consumed) \<Rightarrow> max 0 v)"

section \<open>The registry\<close>

record browser_entry =
  be_name :: string
  be_host :: string
  be_port :: u16
  be_has_password :: bool
  be_uses_tls :: bool
  be_users :: int
  be_updated_at :: int

type_synonym registry = "(string \<times> browser_entry) list"

definition BROWSER_NAME_MAX_LEN :: nat where "BROWSER_NAME_MAX_LEN = 48"
definition BROWSER_ENTRY_TTL_NANOS :: int where "BROWSER_ENTRY_TTL_NANOS = 180 * 1000000000"

fun sanitize_loop :: "string \<Rightarrow> nat \<Rightarrow> string \<Rightarrow> string" where
  "sanitize_loop [] max_len out = out"
| "sanitize_loop (ch # rest) max_len out =
     (if length out \<ge> max_len then out
      else if iscntrl ch \<or> ch = CHR ''|'' then sanitize_loop rest max_len out
      else sanitize_loop rest max_len (out @ [ch]))"

definition sanitize_browser_field :: "string \<Rightarrow> nat \<Rightarrow> string" where
  "sanitize_browser_field s max_len = sanitize_loop s max_len []"

definition browser_entry_key :: "string \<Rightarrow> u16 \<Rightarrow> string \<Rightarrow> string" where
  "browser_entry_key host port name = host @ ''|'' @ nat_to_string (unat port) @ ''|'' @ name"

definition fresh :: "int \<Rightarrow> browser_entry \<Rightarrow> bool" where
  "fresh now entry \<longleftrightarrow> now - be_updated_at entry \<le> BROWSER_ENTRY_TTL_NANOS"

definition remove_stale :: "int \<Rightarrow> registry \<Rightarrow> registry" where
  "remove_stale now entries = filter (\<lambda>(k, entry). fresh now entry) entries"

definition browser_entries :: "int \<Rightarrow> registry \<Rightarrow> browser_entry list" where
  "browser_entries now entries = filter (fresh now) (map snd entries)"

text \<open>\<open>duration_cast<seconds>\<close> truncates.\<close>

definition whole_seconds :: "int \<Rightarrow> int" where
  "whole_seconds d = (if d < 0 then - (- d div 1000000000) else d div 1000000000)"

definition flag :: "bool \<Rightarrow> string" where
  "flag b = (if b then ''1'' else ''0'')"

definition server_line :: "int \<Rightarrow> browser_entry \<Rightarrow> string" where
  "server_line now e = ''SERVER|'' @ be_name e @ ''|'' @ be_host e @ ''|'' @ nat_to_string (unat (be_port e))
     @ ''|'' @ flag (be_has_password e) @ ''|'' @ int_to_string (be_users e) @ ''|'' @ flag (be_uses_tls e)
     @ ''|'' @ int_to_string (whole_seconds (now - be_updated_at e))"

definition process_register :: "string list \<Rightarrow> int \<Rightarrow> int \<Rightarrow> registry \<Rightarrow> string list \<times> registry" where
  "process_register parts now1 now2 entries =
     (if length parts < 7
      then ([''ERROR|REGISTER requires name, host, port, password flag, users, and TLS flag''], entries)
      else let name = sanitize_browser_field (parts ! 1) BROWSER_NAME_MAX_LEN;
               host = sanitize_browser_field (parts ! 2) HOST_MAX_LEN;
               name = (if name = [] then ''chatbox room'' else name) in
      case (if host = [] then None else parse_u16_field (parts ! 3)) of
        None \<Rightarrow> ([''ERROR|Invalid host or port''], entries)
      | Some port \<Rightarrow>
          let entry = \<lparr>be_name = name, be_host = host, be_port = port, be_has_password = (parts ! 4 = ''1''),
                       be_uses_tls = (parts ! 6 = ''1''), be_users = users_field (parts ! 5), be_updated_at = now1\<rparr>
          in ([''OK''], map_assign (browser_entry_key host port name) entry (remove_stale now2 entries)))"

definition process_unregister :: "string list \<Rightarrow> registry \<Rightarrow> string list \<times> registry" where
  "process_unregister parts entries =
     (if length parts < 4 then ([''ERROR|UNREGISTER requires host, port, name''], entries)
      else case parse_u16_field (parts ! 2) of
        None \<Rightarrow> ([''ERROR|Invalid port''], entries)
      | Some port \<Rightarrow>
          ([''OK''], map_erase (browser_entry_key (sanitize_browser_field (parts ! 1) HOST_MAX_LEN) port
             (sanitize_browser_field (parts ! 3) BROWSER_NAME_MAX_LEN)) entries))"

definition process_list :: "int \<Rightarrow> int \<Rightarrow> registry \<Rightarrow> string list \<times> registry" where
  "process_list now1 now2 entries =
     (let entries = remove_stale now2 entries
      in (map (\<lambda>(k, entry). server_line now1 entry) entries @ [''END''], entries))"

definition process_request :: "string \<Rightarrow> int \<Rightarrow> int \<Rightarrow> registry \<Rightarrow> string list \<times> registry" where
  "process_request request now1 now2 entries =
     (let parts = split request CHR ''|'' in
      if parts = [] then ([''ERROR|Empty request''], entries)
      else if parts ! 0 = ''REGISTER'' then process_register parts now1 now2 entries
      else if parts ! 0 = ''UNREGISTER'' then process_unregister parts entries
      else if parts ! 0 = ''LIST'' then process_list now1 now2 entries
      else ([''ERROR|Unknown request''], entries))"

text \<open>
  \<open>Session::read_request\<close>: the first line of what arrives is answered, and everything written
  is one payload. Without a newline the read never completes.
\<close>

definition browser_session :: "string \<Rightarrow> int \<Rightarrow> int \<Rightarrow> registry \<Rightarrow> string \<times> registry" where
  "browser_session received now1 now2 entries =
     (case next_line received of
        None \<Rightarrow> ([], entries)
      | Some (line, rest) \<Rightarrow>
          let (responses, entries) =
            (case decode_frame line of
               Failure e d \<Rightarrow> ([''ERROR|Invalid framing''], entries)
             | Success request \<Rightarrow> process_request request now1 now2 entries)
          in (concat (map (\<lambda>r. case encode_frame r of Success w \<Rightarrow> w | Failure e d \<Rightarrow> []) responses), entries))"

text \<open>The directory over time: each connection with its bytes and the clock readings of its request.\<close>

definition browser_step :: "string \<times> int \<times> int \<Rightarrow> registry \<Rightarrow> registry" where
  "browser_step c entries = (let (received, now1, now2) = c in snd (browser_session received now1 now2 entries))"

section \<open>The client\<close>

definition register_request :: "browser_entry \<Rightarrow> string" where
  "register_request e = ''REGISTER|'' @ sanitize_browser_field (be_name e) BROWSER_NAME_MAX_LEN
     @ ''|'' @ sanitize_browser_field (be_host e) HOST_MAX_LEN
     @ ''|'' @ nat_to_string (unat (be_port e))
     @ ''|'' @ flag (be_has_password e)
     @ ''|'' @ int_to_string (max 0 (be_users e))
     @ ''|'' @ flag (be_uses_tls e)"

definition unregister_request :: "browser_entry \<Rightarrow> string" where
  "unregister_request e = ''UNREGISTER|'' @ sanitize_browser_field (be_host e) HOST_MAX_LEN
     @ ''|'' @ nat_to_string (unat (be_port e))
     @ ''|'' @ sanitize_browser_field (be_name e) BROWSER_NAME_MAX_LEN"

definition final_response :: "string \<Rightarrow> bool" where
  "final_response r \<longleftrightarrow> r = ''END'' \<or> r = ''OK'' \<or> take 6 r = ''ERROR|''"

text \<open>The loop that reads the answer, on the lines that arrive before the stream ends.\<close>

fun read_responses :: "string list \<Rightarrow> string list \<Rightarrow> string + string list" where
  "read_responses [] response =
     (if response = [] then Inl ''No response from browser server'' else Inr response)"
| "read_responses (line # rest) response =
     (if length response \<ge> 1000 then Inr response
      else case decode_frame line of
        Failure e d \<Rightarrow> Inl ''Invalid directory response''
      | Success r \<Rightarrow>
          let response = response @ [r] in
          if final_response r then Inr response else read_responses rest response)"

text \<open>
  \<open>send_request\<close> once the connection stands and the peer is verified: the request goes out, the
  directory answers, and the lines of the answer are read until its end.
\<close>

definition send_request :: "string \<Rightarrow> int \<Rightarrow> int \<Rightarrow> registry \<Rightarrow> (string + string list) \<times> registry" where
  "send_request request now1 now2 entries =
     (case encode_frame request of
        Failure e d \<Rightarrow> (Inl ''Invalid directory request'', entries)
      | Success payload \<Rightarrow>
          let (received, entries) = browser_session payload now1 now2 entries
          in (read_responses (fst (read_lines received)) [], entries))"

text \<open>\<open>register_server\<close>: \<open>None\<close> is success, otherwise the error.\<close>

definition register_server :: "browser_entry \<Rightarrow> int \<Rightarrow> int \<Rightarrow> registry \<Rightarrow> string option \<times> registry" where
  "register_server e now1 now2 entries =
     (let (r, entries) = send_request (register_request e) now1 now2 entries in
      (case r of
         Inl error \<Rightarrow> Some error
       | Inr response \<Rightarrow>
           if response \<noteq> [] \<and> hd response = ''OK'' then None
           else Some (if response = [] then ''No browser response'' else hd response), entries))"

definition unregister_server :: "browser_entry \<Rightarrow> int \<Rightarrow> int \<Rightarrow> registry \<Rightarrow> bool \<times> registry" where
  "unregister_server e now1 now2 entries =
     (let (r, entries) = send_request (unregister_request e) now1 now2 entries in
      (case r of Inl error \<Rightarrow> False | Inr response \<Rightarrow> True, entries))"

definition parse_server_line :: "int \<Rightarrow> string \<Rightarrow> browser_entry option" where
  "parse_server_line now line =
     (let parts = split line CHR ''|'' in
      if length parts < 8 \<or> parts ! 0 \<noteq> ''SERVER'' then None
      else case parse_u16_field (parts ! 3) of
        None \<Rightarrow> None
      | Some port \<Rightarrow>
          Some \<lparr>be_name = parts ! 1, be_host = parts ! 2, be_port = port, be_has_password = (parts ! 4 = ''1''),
                be_uses_tls = (parts ! 6 = ''1''), be_users = users_field (parts ! 5),
                be_updated_at = now - users_field (parts ! 7) * 1000000000\<rparr>)"

fun list_loop :: "int \<Rightarrow> string list \<Rightarrow> browser_entry list \<Rightarrow> string + browser_entry list" where
  "list_loop now [] entries = Inl ''Browser response did not include END''"
| "list_loop now (line # rest) entries =
     (if line = ''END'' then Inr entries
      else case parse_server_line now line of
             None \<Rightarrow> list_loop now rest entries
           | Some entry \<Rightarrow> list_loop now rest (entries @ [entry]))"

text \<open>\<open>list_servers\<close>, with the client's clock \<open>now'\<close>.\<close>

definition list_servers :: "int \<Rightarrow> int \<Rightarrow> int \<Rightarrow> registry \<Rightarrow> (string + browser_entry list) \<times> registry" where
  "list_servers now' now1 now2 entries =
     (let (r, entries) = send_request ''LIST'' now1 now2 entries in
      (case r of Inl error \<Rightarrow> Inl error | Inr response \<Rightarrow> list_loop now' response [], entries))"

section \<open>The publisher\<close>

record publisher =
  pub_entry :: browser_entry
  pub_started :: bool

definition publisher_start ::
  "int \<Rightarrow> int \<Rightarrow> int \<Rightarrow> publisher \<times> registry \<Rightarrow> string option \<times> publisher \<times> registry" where
  "publisher_start users now1 now2 ps =
     (let (p, entries) = ps in
      if pub_started p then (None, p, entries)
      else let p = p\<lparr>pub_entry := (pub_entry p)\<lparr>be_users := users\<rparr>\<rparr> in
        case register_server (pub_entry p) now1 now2 entries of
          (Some error, entries) \<Rightarrow> (Some error, p, entries)
        | (None, entries) \<Rightarrow> (None, p\<lparr>pub_started := True\<rparr>, entries))"

text \<open>One renewal of \<open>publish_loop\<close>: a copy of the entry with the users of the moment.\<close>

definition publisher_renew :: "int \<Rightarrow> int \<Rightarrow> int \<Rightarrow> publisher \<times> registry \<Rightarrow> publisher \<times> registry" where
  "publisher_renew users now1 now2 ps =
     (let (p, entries) = ps in (p, snd (register_server ((pub_entry p)\<lparr>be_users := users\<rparr>) now1 now2 entries)))"

definition publisher_stop :: "int \<Rightarrow> int \<Rightarrow> publisher \<times> registry \<Rightarrow> publisher \<times> registry" where
  "publisher_stop now1 now2 ps =
     (let (p, entries) = ps in
      if \<not> pub_started p then (p, entries)
      else (p\<lparr>pub_started := False\<rparr>, snd (unregister_server (pub_entry p) now1 now2 entries)))"

section \<open>Numbers and fields read back\<close>

lemma takeWhile_digits:
  assumes "\<And>c. c \<in> set s \<Longrightarrow> P c"
  shows "takeWhile P s = s" "dropWhile P s = []"
  using assms by (simp_all add: takeWhile_eq_all_conv dropWhile_eq_Nil_conv)

lemma digit_not_space: "isdigit c \<Longrightarrow> \<not> isspace c \<and> c \<noteq> CHR ''-'' \<and> c \<noteq> CHR ''+'' \<and> c \<noteq> CHR ''|'' \<and> \<not> iscntrl c"
  by (auto simp: isdigit_def isspace_def iscntrl_def byte_def)

lemma stoi_nat:
  assumes "n < 2 ^ 31"
  shows "stoi (nat_to_string n) = Some (int n, length (nat_to_string n))"
proof -
  let ?s = "nat_to_string n"
  obtain c cs where s: "?s = c # cs" by (cases ?s) auto
  then have c: "isdigit c" using nat_to_string_digits [of c n] by simp
  have "takeWhile isspace ?s = []" "dropWhile isspace ?s = ?s" using digit_not_space [OF c] by (simp_all add: s)
  moreover have tw: "takeWhile isdigit ?s = ?s" by (intro takeWhile_digits) (rule nat_to_string_digits)
  moreover have "hd ?s \<noteq> CHR ''-'' \<and> hd ?s \<noteq> CHR ''+''" using digit_not_space [OF c] by (simp add: s)
  moreover have "int n \<le> 2 ^ 31 - 1" using assms by simp
  ultimately show ?thesis unfolding stoi_def by (simp add: Let_def) (simp add: tw [simplified takeWhile_eq_all_conv] takeWhile_digits)
qed

lemma parse_u16_port [simp]: "parse_u16_field (nat_to_string (unat (p :: u16))) = Some p"
proof -
  have "unat p < 2 ^ 16" "uint p < 2 ^ 16" using unsigned_less [of p] uint_lt2p [of p] by simp_all
  then show ?thesis by (simp add: parse_u16_field_def stoi_nat)
qed

lemma users_field_int [simp]: "0 \<le> i \<Longrightarrow> i < 2 ^ 31 \<Longrightarrow> users_field (int_to_string i) = i"
  by (simp add: users_field_def int_to_string_def stoi_nat)

lemma users_field_range: "0 \<le> users_field s \<and> users_field s < 2 ^ 31"
  by (auto simp: users_field_def stoi_def Let_def split: option.splits if_splits)

lemma int_to_string_plain: "0 \<le> i \<Longrightarrow> c \<in> set (int_to_string i) \<Longrightarrow> isdigit c"
  by (auto simp: int_to_string_def dest: nat_to_string_digits)

section \<open>The registry invariant\<close>

definition plain_field :: "nat \<Rightarrow> string \<Rightarrow> bool" where
  "plain_field max_len s \<longleftrightarrow> s \<noteq> [] \<and> length s \<le> max_len \<and> list_all (\<lambda>c. \<not> iscntrl c \<and> c \<noteq> CHR ''|'') s"

definition wf_entry :: "browser_entry \<Rightarrow> bool" where
  "wf_entry e \<longleftrightarrow> plain_field BROWSER_NAME_MAX_LEN (be_name e) \<and> plain_field HOST_MAX_LEN (be_host e) \<and>
     0 \<le> be_users e \<and> be_users e < 2 ^ 31"

definition entry_key :: "browser_entry \<Rightarrow> string" where
  "entry_key e = browser_entry_key (be_host e) (be_port e) (be_name e)"

definition wf_registry :: "registry \<Rightarrow> bool" where
  "wf_registry entries \<longleftrightarrow> ascending (map fst entries) \<and> list_all (\<lambda>(k, e). k = entry_key e \<and> wf_entry e) entries"

lemma sanitize_loop_plain:
  "length out \<le> max_len \<Longrightarrow> list_all (\<lambda>c. \<not> iscntrl c \<and> c \<noteq> CHR ''|'') out \<Longrightarrow>
     length (sanitize_loop s max_len out) \<le> max_len \<and> list_all (\<lambda>c. \<not> iscntrl c \<and> c \<noteq> CHR ''|'') (sanitize_loop s max_len out)"
  by (induction s max_len out rule: sanitize_loop.induct) auto

lemma sanitize_plain: "sanitize_browser_field s n \<noteq> [] \<Longrightarrow> plain_field n (sanitize_browser_field s n)"
  using sanitize_loop_plain [of "[]" n s] by (simp add: sanitize_browser_field_def plain_field_def)

lemma sanitize_loop_id:
  "length out + length s \<le> max_len \<Longrightarrow> list_all (\<lambda>c. \<not> iscntrl c \<and> c \<noteq> CHR ''|'') s \<Longrightarrow> sanitize_loop s max_len out = out @ s"
  by (induction s max_len out rule: sanitize_loop.induct) auto

lemma sanitize_id [simp]: "plain_field n s \<Longrightarrow> sanitize_browser_field s n = s"
  by (simp add: plain_field_def sanitize_browser_field_def sanitize_loop_id)

lemma wf_registry_filter: "wf_registry entries \<Longrightarrow> wf_registry (filter P entries)"
  by (induction entries) (auto simp: wf_registry_def)

lemma wf_registry_assign:
  assumes "wf_registry entries" "wf_entry e"
  shows "wf_registry (map_assign (entry_key e) e entries)"
proof -
  have "set (map_assign (entry_key e) e entries) \<subseteq> insert (entry_key e, e) (set entries)"
    by (induction entries) (auto split: if_splits)
  with assms show ?thesis unfolding wf_registry_def list_all_iff by blast
qed

lemma default_name: "plain_field BROWSER_NAME_MAX_LEN ''chatbox room''"
  by code_simp

lemma wf_register:
  assumes "wf_registry entries"
  shows "wf_registry (snd (process_register parts now1 now2 entries))"
proof (cases "length parts < 7 \<or> sanitize_browser_field (parts ! 2) HOST_MAX_LEN = [] \<or> parse_u16_field (parts ! 3) = None")
  case False
  then obtain port where port: "parse_u16_field (parts ! 3) = Some port" by auto
  define e where "e = \<lparr>be_name = (if sanitize_browser_field (parts ! 1) BROWSER_NAME_MAX_LEN = [] then ''chatbox room''
        else sanitize_browser_field (parts ! 1) BROWSER_NAME_MAX_LEN),
      be_host = sanitize_browser_field (parts ! 2) HOST_MAX_LEN, be_port = port, be_has_password = (parts ! 4 = ''1''),
      be_uses_tls = (parts ! 6 = ''1''), be_users = users_field (parts ! 5), be_updated_at = now1\<rparr>"
  have "wf_entry e"
    using False users_field_range by (auto simp: wf_entry_def e_def sanitize_plain default_name)
  with assms have "wf_registry (map_assign (entry_key e) e (remove_stale now2 entries))"
    by (simp add: remove_stale_def wf_registry_assign wf_registry_filter)
  then show ?thesis using False port
    by (cases "sanitize_browser_field (parts ! 1) BROWSER_NAME_MAX_LEN = []")
      (simp_all add: process_register_def Let_def e_def entry_key_def)
qed (use assms in \<open>auto simp: process_register_def Let_def\<close>)

lemma wf_request: "wf_registry entries \<Longrightarrow> wf_registry (snd (process_request request now1 now2 entries))"
  by (auto simp: process_request_def process_unregister_def process_list_def remove_stale_def map_erase_def Let_def
      wf_register wf_registry_filter split: option.split)

lemma wf_session:
  "wf_registry entries \<Longrightarrow> wf_registry (snd (browser_session received now1 now2 entries))"
  using wf_request by (simp add: browser_session_def Let_def case_prod_unfold split: result.split option.split)

interpretation directory: invariant_machine browser_step wf_registry "\<lambda>_ _. True"
  by unfold_locales (auto simp: browser_step_def wf_session)

text \<open>
  C15: The directory keeps only what it can list. Whatever bytes the connections send, in whatever
  order and however the clock runs, every entry of the registry is stored once, under its key, with
  printable fields of bounded length, a nonempty name and host and a number of users that is a
  nonnegative \<open>int\<close>.
\<close>

theorem registry_invariant: "wf_registry (fold browser_step connections [])"
proof (induction connections rule: rev_induct)
  case (snoc c cs)
  then show ?case using directory.step_inv by simp
qed (simp add: wf_registry_def)

section \<open>Over the wire\<close>

lemma plain_no_bar: "plain_field n s \<Longrightarrow> CHR ''|'' \<notin> set s"
  by (auto simp: plain_field_def list_all_iff)

lemma number_no_bar_int: "0 \<le> i \<Longrightarrow> CHR ''|'' \<notin> set (int_to_string i)" "0 \<le> i \<Longrightarrow> int_to_string i \<noteq> []"
  using int_to_string_plain digit_not_space by (fastforce, simp add: int_to_string_def)

lemma flag_simps [simp]: "CHR ''|'' \<notin> set (flag b)" "flag b = ''1'' \<longleftrightarrow> b" "flag b \<noteq> []"
  by (simp_all add: flag_def)

lemma length_int_to_string: "0 \<le> i \<Longrightarrow> i < 2 ^ 31 \<Longrightarrow> length (int_to_string i) \<le> 10"
  by (simp add: int_to_string_def length_nat_to_string nat_less_iff)

lemma length_port: "length (nat_to_string (unat (p :: u16))) \<le> 5"
proof -
  have "unat p < 2 ^ 16" using unat_less [of p] by simp
  then show ?thesis by (intro length_nat_to_string) simp_all
qed

text \<open>The seconds since an entry was updated, as an answer reports them.\<close>

definition entry_age :: "int \<Rightarrow> browser_entry \<Rightarrow> int" where
  "entry_age now e = whole_seconds (now - be_updated_at e)"

definition listed :: "int \<Rightarrow> int \<Rightarrow> browser_entry \<Rightarrow> browser_entry" where
  "listed now now' e = e\<lparr>be_updated_at := now' - entry_age now e * 1000000000\<rparr>"

definition reportable :: "int \<Rightarrow> browser_entry \<Rightarrow> bool" where
  "reportable now e \<longleftrightarrow> wf_entry e \<and> 0 \<le> entry_age now e \<and> entry_age now e < 2 ^ 31"

lemma server_line_fields:
  "server_line now e = join_with CHR ''|'' [''SERVER'', be_name e, be_host e, nat_to_string (unat (be_port e)),
     flag (be_has_password e), int_to_string (be_users e), flag (be_uses_tls e), int_to_string (entry_age now e)]"
  by (simp add: server_line_def entry_age_def)

lemma parse_server_line_back:
  assumes "reportable now e"
  shows "parse_server_line now' (server_line now e) = Some (listed now now' e)"
proof -
  have "split (server_line now e) CHR ''|'' = [''SERVER'', be_name e, be_host e, nat_to_string (unat (be_port e)),
     flag (be_has_password e), int_to_string (be_users e), flag (be_uses_tls e), int_to_string (entry_age now e)]"
    unfolding server_line_fields using assms
    by (intro split_join_last) (auto simp: reportable_def wf_entry_def plain_no_bar number_no_bar number_no_bar_int)
  with assms show ?thesis
    by (cases e) (simp add: parse_server_line_def Let_def reportable_def wf_entry_def listed_def)
qed

lemma server_line_not_final: "\<not> final_response (server_line now e)"
  by (simp add: final_response_def server_line_def)

lemma server_line_fits: "reportable now e \<Longrightarrow> payload_fits (server_line now e)"
  using length_port [of "be_port e"] length_int_to_string [of "be_users e"] length_int_to_string [of "entry_age now e"]
  by (simp add: payload_fits_def server_line_fields max_payload_length_eq reportable_def wf_entry_def plain_field_def
      BROWSER_NAME_MAX_LEN_def HOST_MAX_LEN_def flag_def)

lemma read_frames:
  assumes "list_all payload_fits rs" "list_all (\<lambda>r. \<not> final_response r) rs" "length response + length rs < 1000"
    and "payload_fits r" "final_response r"
  shows "read_responses (map encode_loop (rs @ [r])) response = Inr (response @ rs @ [r])"
  using assms by (induction rs arbitrary: response) (auto simp: decode_frame_encoded Let_def)

lemma answer_payload:
  "list_all payload_fits rs \<Longrightarrow>
     concat (map (\<lambda>r. case encode_frame r of Success w \<Rightarrow> w | Failure e d \<Rightarrow> []) rs) =
     concat (map (\<lambda>p. encode_loop p @ [CHR 0x0A]) rs)"
  by (induction rs) (auto simp: encode_frame_fits)

text \<open>What a request brings back when its answer fits the client's limits.\<close>

lemma send_request_answered:
  assumes "payload_fits request" "process_request request now1 now2 entries = (rs @ [r], entries')"
    and "list_all payload_fits rs" "list_all (\<lambda>r. \<not> final_response r) rs" "length rs < 1000"
    and "payload_fits r" "final_response r"
  shows "send_request request now1 now2 entries = (Inr (rs @ [r]), entries')"
proof -
  have "next_line (encode_loop request @ [CHR 0x0A]) = Some (encode_loop request, [])"
    by (simp add: next_line_def)
  then have "browser_session (encode_loop request @ [CHR 0x0A]) now1 now2 entries =
      (concat (map (\<lambda>p. encode_loop p @ [CHR 0x0A]) (rs @ [r])), entries')"
    using assms answer_payload [of "rs @ [r]"] by (simp add: browser_session_def decode_frame_encoded)
  moreover have "read_responses (map encode_loop (rs @ [r])) [] = Inr (rs @ [r])"
    using read_frames [of rs "[]" r] assms by simp
  ultimately show ?thesis
    using assms(1) read_lines_frames [of "rs @ [r]"] by (simp add: send_request_def encode_frame_fits)
qed

lemma list_loop_lines:
  assumes "list_all (reportable now) es"
  shows "list_loop now' (map (server_line now) es @ [''END'']) acc = Inr (acc @ map (listed now now') es)"
  using assms
proof (induction es arbitrary: acc)
  case (Cons e es)
  have "server_line now e \<noteq> ''END''" using server_line_not_final [of now e] by (auto simp: final_response_def)
  with Cons show ?case by (simp add: parse_server_line_back)
qed simp

lemma list_request: "process_request ''LIST'' now1 now2 entries =
    (map (server_line now1) (browser_entries now2 entries) @ [''END''], remove_stale now2 entries)"
proof -
  have "split ''LIST'' CHR ''|'' = [''LIST'']" by code_simp
  moreover have "map (\<lambda>(k, e). server_line now1 e) (remove_stale now2 entries) = map (server_line now1) (browser_entries now2 entries)"
    by (induction entries) (auto simp: remove_stale_def browser_entries_def)
  ultimately show ?thesis by (simp add: process_request_def process_list_def Let_def)
qed

lemma reportable_fresh:
  assumes "wf_registry entries" "\<forall>(k, e) \<in> set entries. be_updated_at e \<le> now1" "now1 \<le> now2"
  shows "list_all (reportable now1) (browser_entries now2 entries)"
proof -
  have "reportable now1 e" if "e \<in> set (browser_entries now2 entries)" for e
  proof -
    from that obtain k where e: "(k, e) \<in> set entries" "fresh now2 e" by (auto simp: browser_entries_def)
    then have "0 \<le> now1 - be_updated_at e" "now1 - be_updated_at e \<le> 180 * 1000000000" "wf_entry e"
      using assms by (auto simp: fresh_def BROWSER_ENTRY_TTL_NANOS_def wf_registry_def list_all_iff)
    then show ?thesis by (auto simp: reportable_def entry_age_def whole_seconds_def)
  qed
  then show ?thesis by (simp add: list_all_iff)
qed

text \<open>
  C14: A listing is the registry. When a client asks for the list, over the wire and back, it
  gets exactly the entries of the registry that are not stale, in the order of their keys, with
  every field as it was registered and the age in whole seconds, as long as there are fewer
  than 1000 of them and the clock has not run backwards since they were registered.
\<close>

theorem listing_is_registry:
  assumes "wf_registry entries" "length (browser_entries now2 entries) < 1000"
    and "\<forall>(k, e) \<in> set entries. be_updated_at e \<le> now1" "now1 \<le> now2"
  shows "list_servers now' now1 now2 entries =
    (Inr (map (listed now1 now') (browser_entries now2 entries)), remove_stale now2 entries)"
proof -
  let ?es = "browser_entries now2 entries"
  have ok: "list_all (reportable now1) ?es" using reportable_fresh assms by blast
  have "send_request ''LIST'' now1 now2 entries = (Inr (map (server_line now1) ?es @ [''END'']), remove_stale now2 entries)"
  proof (rule send_request_answered)
    show "list_all payload_fits (map (server_line now1) ?es)" using ok server_line_fits by (auto simp: list_all_iff)
  qed (use assms(2) server_line_not_final in \<open>auto simp: list_request payload_fits_def max_payload_length_eq final_response_def list_all_iff\<close>)
  then show ?thesis using list_loop_lines [OF ok] by (simp add: list_servers_def)
qed

theorem listing_is_registry_witness:
  "\<exists>e. list_servers 9 7 8 [(entry_key e, e)] = (Inr [listed 7 9 e], [(entry_key e, e)]) \<and> be_host e = ''h''"
proof -
  define e where "e = \<lparr>be_name = ''n'', be_host = ''h'', be_port = 1, be_has_password = False, be_uses_tls = True, be_users = 0, be_updated_at = 5\<rparr>"
  have "plain_field BROWSER_NAME_MAX_LEN ''n''" "plain_field HOST_MAX_LEN ''h''" by code_simp+
  then have "wf_registry [(entry_key e, e)]" by (simp add: e_def wf_registry_def wf_entry_def)
  moreover have "browser_entries 8 [(entry_key e, e)] = [e]" "remove_stale 8 [(entry_key e, e)] = [(entry_key e, e)]"
    by (simp_all add: browser_entries_def remove_stale_def fresh_def BROWSER_ENTRY_TTL_NANOS_def e_def)
  ultimately have "list_servers 9 7 8 [(entry_key e, e)] = (Inr [listed 7 9 e], [(entry_key e, e)])"
    using listing_is_registry [of "[(entry_key e, e)]" 8 7 9] by (simp add: e_def)
  then show ?thesis by (auto simp: e_def)
qed

section \<open>Publishing\<close>

text \<open>The entry a registration leaves in the directory.\<close>

definition registered :: "int \<Rightarrow> browser_entry \<Rightarrow> browser_entry" where
  "registered now e = e\<lparr>be_name := sanitize_browser_field (be_name e) BROWSER_NAME_MAX_LEN,
     be_host := sanitize_browser_field (be_host e) HOST_MAX_LEN, be_users := max 0 (be_users e), be_updated_at := now\<rparr>"

definition publishable :: "browser_entry \<Rightarrow> bool" where
  "publishable e \<longleftrightarrow> sanitize_browser_field (be_name e) BROWSER_NAME_MAX_LEN \<noteq> [] \<and>
     sanitize_browser_field (be_host e) HOST_MAX_LEN \<noteq> [] \<and> be_users e < 2 ^ 31"

lemma wf_registered: "publishable e \<Longrightarrow> wf_entry (registered now e)"
  by (simp add: publishable_def registered_def wf_entry_def sanitize_plain)

lemma register_request_fields:
  "register_request e = join_with CHR ''|'' [''REGISTER'', be_name (registered now e), be_host (registered now e),
     nat_to_string (unat (be_port e)), flag (be_has_password e), int_to_string (be_users (registered now e)), flag (be_uses_tls e)]"
  by (simp add: register_request_def registered_def)

lemma split_register_request:
  "publishable e \<Longrightarrow> split (register_request e) CHR ''|'' = [''REGISTER'', be_name (registered now e), be_host (registered now e),
     nat_to_string (unat (be_port e)), flag (be_has_password e), int_to_string (be_users (registered now e)), flag (be_uses_tls e)]"
  unfolding register_request_fields [of e now] using wf_registered [of e now]
  by (intro split_join_last) (auto simp: wf_entry_def plain_no_bar number_no_bar number_no_bar_int)

lemma register_request_fits: "publishable e \<Longrightarrow> payload_fits (register_request e)"
  using wf_registered [of e 0] length_port [of "be_port e"] length_int_to_string [of "be_users (registered 0 e)"]
  by (simp add: payload_fits_def register_request_fields [of e 0] max_payload_length_eq wf_entry_def plain_field_def
      BROWSER_NAME_MAX_LEN_def HOST_MAX_LEN_def flag_def)

lemma ok_response: "payload_fits ''OK''" "final_response ''OK''"
  by (simp_all add: payload_fits_def max_payload_length_eq final_response_def)

lemma register_server_ok:
  assumes "publishable e"
  shows "register_server e now1 now2 entries =
    (None, map_assign (entry_key (registered now1 e)) (registered now1 e) (remove_stale now2 entries))"
proof -
  have "process_request (register_request e) now1 now2 entries =
      ([''OK''], map_assign (entry_key (registered now1 e)) (registered now1 e) (remove_stale now2 entries))"
    using wf_registered [OF assms, of now1]
    by (simp add: process_request_def split_register_request [OF assms, of now1] process_register_def Let_def wf_entry_def)
      (cases e, simp add: registered_def plain_field_def entry_key_def)
  then have "send_request (register_request e) now1 now2 entries =
      (Inr [''OK''], map_assign (entry_key (registered now1 e)) (registered now1 e) (remove_stale now2 entries))"
    using send_request_answered [of "register_request e" now1 now2 entries "[]" "''OK''"] register_request_fits [OF assms] ok_response
    by simp
  then show ?thesis by (simp add: register_server_def)
qed

lemma unregister_request_fields:
  "unregister_request e = join_with CHR ''|'' [''UNREGISTER'', be_host (registered now e),
     nat_to_string (unat (be_port e)), be_name (registered now e)]"
  by (simp add: unregister_request_def registered_def)

lemma unregister_request_fits: "publishable e \<Longrightarrow> payload_fits (unregister_request e)"
  using wf_registered [of e 0] length_port [of "be_port e"]
  by (simp add: payload_fits_def unregister_request_fields [of e 0] max_payload_length_eq wf_entry_def plain_field_def
      BROWSER_NAME_MAX_LEN_def HOST_MAX_LEN_def)

lemma unregister_server_ok:
  assumes "publishable e"
  shows "unregister_server e now1 now2 entries = (True, map_erase (entry_key (registered now1 e)) entries)"
proof -
  have "split (unregister_request e) CHR ''|'' =
      [''UNREGISTER'', be_host (registered now1 e), nat_to_string (unat (be_port e)), be_name (registered now1 e)]"
    unfolding unregister_request_fields [of e now1] using wf_registered [OF assms, of now1]
    by (intro split_join_last) (auto simp: wf_entry_def plain_no_bar number_no_bar plain_field_def)
  then have "process_request (unregister_request e) now1 now2 entries = ([''OK''], map_erase (entry_key (registered now1 e)) entries)"
    using wf_registered [OF assms, of now1]
    by (simp add: process_request_def process_unregister_def Let_def wf_entry_def, simp add: registered_def entry_key_def)
  then have "send_request (unregister_request e) now1 now2 entries = (Inr [''OK''], map_erase (entry_key (registered now1 e)) entries)"
    using send_request_answered [of "unregister_request e" now1 now2 entries "[]" "''OK''"] unregister_request_fits [OF assms] ok_response
    by simp
  then show ?thesis by (simp add: unregister_server_def)
qed

text \<open>
  A published server is listed until its publisher stops. Starting the publisher of an entry
  whose name and host have printable characters succeeds and stores that entry, renewing it
  keeps it under the same key with the users of the moment, and stopping removes exactly that
  key, whatever the directory holds by then.
\<close>

theorem published_until_stopped:
  fixes p entries later
  assumes "publishable (pub_entry p)" "\<not> pub_started p" "users < 2 ^ 31" "users' < 2 ^ 31"
  defines "e u \<equiv> (pub_entry p)\<lparr>be_users := u\<rparr>"
    and "key \<equiv> entry_key (registered 0 (pub_entry p))"
  shows "publisher_start users now1 now2 (p, entries) =
      (None, p\<lparr>pub_entry := e users, pub_started := True\<rparr>,
       map_assign key (registered now1 (e users)) (remove_stale now2 entries)) \<and>
    snd (publisher_renew users' now3 now4 (p\<lparr>pub_entry := e users, pub_started := True\<rparr>, later)) =
      map_assign key (registered now3 (e users')) (remove_stale now4 later) \<and>
    publisher_stop now5 now6 (p\<lparr>pub_entry := e users, pub_started := True\<rparr>, later) =
      (p\<lparr>pub_entry := e users, pub_started := False\<rparr>, map_erase key later)"
proof -
  have ok: "publishable (e u)" if "u < 2 ^ 31" for u using assms(1) that by (simp add: publishable_def e_def)
  have key: "entry_key (registered now (e u)) = key" for now u by (simp add: key_def e_def entry_key_def registered_def)
  have twice: "(e u)\<lparr>be_users := u'\<rparr> = e u'" for u u' by (simp add: e_def)
  show ?thesis using assms(2-4) register_server_ok [OF ok] unregister_server_ok [OF ok]
    by (simp add: publisher_start_def publisher_renew_def publisher_stop_def key twice) (simp add: e_def)
qed

theorem published_until_stopped_witness:
  "\<exists>p e. publisher_start 3 1 2 (p, []) = (None, p\<lparr>pub_entry := e, pub_started := True\<rparr>, [(''h|7|n'', registered 1 e)]) \<and>
     snd (publisher_stop 5 6 (p\<lparr>pub_entry := e, pub_started := True\<rparr>, [(''h|7|n'', registered 1 e)])) = []"
proof -
  define b where "b = \<lparr>be_name = ''n'', be_host = ''h'', be_port = 7, be_has_password = False, be_uses_tls = True, be_users = 0, be_updated_at = 0\<rparr>"
  define p where "p = \<lparr>pub_entry = b, pub_started = False\<rparr>"
  have fields: "sanitize_browser_field ''n'' BROWSER_NAME_MAX_LEN = ''n''" "sanitize_browser_field ''h'' HOST_MAX_LEN = ''h''"
    by code_simp+
  have "nat_to_string 7 = ''7''" by code_simp
  then have key: "entry_key (registered 0 b) = ''h|7|n''"
    by (simp add: entry_key_def registered_def browser_entry_key_def fields b_def)
  have "publishable (pub_entry p)" "\<not> pub_started p" by (simp_all add: publishable_def p_def b_def fields)
  from published_until_stopped [OF this, of 3 4 1 2 "[]" 3 4 "[(''h|7|n'', registered 1 (b\<lparr>be_users := 3\<rparr>))]" 5 6]
  show ?thesis
    by (intro exI [of _ p] exI [of _ "b\<lparr>be_users := 3\<rparr>"]) (simp add: p_def key remove_stale_def map_erase_def)
qed

text \<open>
  A name without printable characters is stored as the default name, but withdrawn under the empty
  one, whose field the directory's \<open>split\<close> drops: such an entry stays until it is stale.
\<close>

lemma unnamed_entry_stays:
  assumes "sanitize_browser_field (be_name e) BROWSER_NAME_MAX_LEN = []"
    and "plain_field HOST_MAX_LEN (sanitize_browser_field (be_host e) HOST_MAX_LEN)"
  shows "snd (process_request (unregister_request e) now1 now2 entries) = entries"
proof -
  have "split (unregister_request e) CHR ''|'' = [''UNREGISTER'', sanitize_browser_field (be_host e) HOST_MAX_LEN, nat_to_string (unat (be_port e))]"
    using assms plain_no_bar [OF assms(2)]
    by (simp add: unregister_request_def split_eq_split_on split_join [of "[_, _, _, []]" "CHR ''|''", simplified] number_no_bar)
  then show ?thesis by (simp add: process_request_def process_unregister_def Let_def)
qed

end
