(* ===== verification/Persistence.thy ===== *)
theory Persistence
  imports Server_Delivery Storage
begin

text \<open>
  The server and its database together. Rooms, identities and bans live twice: in the server's
  memory and, by way of the requests it makes on its storage, in the tables. Shown: the requests
  never violate a constraint of the schema, in whatever order clients and administrators act,
  the tables always say what the memory says, and so a server that is started again from its
  database has the rooms, topics, owners, identities and bans it had.
\<close>

section \<open>What the database mirrors\<close>

definition room_meta :: "(room_id \<times> room) list \<Rightarrow> (room_id \<times> string \<times> string \<times> string) list" where
  "room_meta rms = map (\<lambda>(rid, r). (rid, rm_name r, rm_topic r, rm_owner r)) rms"

definition row_meta :: "stored_room \<Rightarrow> room_id \<times> string \<times> string \<times> string" where
  "row_meta r = (sr_id r, sr_name r, sr_topic r, sr_owner r)"

definition identity_rows :: "database \<Rightarrow> (string \<times> string) list" where
  "identity_rows db = map (\<lambda>(n, k, t). (n, k)) (db_identities db)"

definition mirrors :: "chat_server \<Rightarrow> database \<Rightarrow> bool" where
  "mirrors st db \<longleftrightarrow>
     set (room_meta (rooms st)) = row_meta ` set (db_rooms db) \<and> distinct (map sr_id (db_rooms db)) \<and>
     map_of (identities st) = map_of (identity_rows db) \<and> distinct (map fst (identity_rows db)) \<and>
     set (banned_nicks st) = sb_nickname ` set (db_bans db) \<and> distinct (map sb_nickname (db_bans db)) \<and>
     (\<forall>b \<in> set (db_bans db). sb_expires_at b = None)"

text \<open>The database after the server's requests, on whatever clock the writer reads.\<close>

definition synced :: "database \<Rightarrow> chat_server \<Rightarrow> bool" where
  "synced db0 st \<longleftrightarrow> has_storage st \<and>
     (\<forall>clock. \<exists>db. execute_writes clock (storage_requests (effects st)) db0 = Some db \<and> mirrors st db)"

definition persist_view where
  "persist_view st = (has_storage st, storage_requests (effects st), room_meta (rooms st), identities st, banned_nicks st)"

lemma synced_cong: "persist_view st' = persist_view st \<Longrightarrow> synced db0 st' = synced db0 st"
  by (simp add: persist_view_def synced_def mirrors_def)

section \<open>Operations that persist nothing\<close>

lemma room_meta_modify:
  "(\<And>r. rm_name (f r) = rm_name r \<and> rm_topic (f r) = rm_topic r \<and> rm_owner (f r) = rm_owner r) \<Longrightarrow>
     room_meta (map_modify rid f rms) = room_meta rms"
  by (auto simp: room_meta_def map_modify_def)

lemma deliver_all_stores [simp]: "storage_requests (deliver_all ms msg out) = storage_requests out"
  unfolding deliver_all_def by (induction ms arbitrary: out) auto

lemma other_stores [simp]:
  "storage_requests (close_session s out) = storage_requests out"
  "storage_requests (abort_session s out) = storage_requests out"
  "storage_requests (send_room r s out) = storage_requests out"
proof -
  have "storage_requests (fold (\<lambda>m. deliver (RoomText rid m) s) ms out) = storage_requests out" for rid ms out
    by (induction ms arbitrary: out) auto
  then show "storage_requests (send_room r s out) = storage_requests out" by (simp add: send_room_def Let_def)
qed (simp_all add: close_session_def abort_session_def)

lemma synced_effects:
  "(\<And>out. storage_requests (g out) = storage_requests out) \<Longrightarrow> synced db0 (effects_update g st) = synced db0 st"
  by (rule synced_cong) (simp add: persist_view_def)

lemma synced_effects_comp:
  "(\<And>out. storage_requests (g out) = storage_requests out) \<Longrightarrow> synced db0 (effects_update (g \<circ> f) st) = synced db0 (effects_update f st)"
  by (rule synced_cong) (simp add: persist_view_def)

lemma synced_rooms:
  "room_meta (f (rooms st)) = room_meta (rooms st) \<Longrightarrow> synced db0 (rooms_update f st) = synced db0 st"
  by (rule synced_cong) (simp add: persist_view_def)

lemma synced_fields [simp]:
  "synced db0 (sessions_update f1 st) = synced db0 st"
  "synced db0 (sess_update f2 st) = synced db0 st"
  "synced db0 (next_session_update f3 st) = synced db0 st"
  "synced db0 (local_room_id_update f4 st) = synced db0 st"
  "synced db0 (next_room_id_update f5 st) = synced db0 st"
  "synced db0 (acceptor_open_update f6 st) = synced db0 st"
  by (rule synced_cong, simp add: persist_view_def)+

lemma synced_small [simp]:
  "synced db0 (reply s msg st) = synced db0 st"
  "synced db0 (update_session s f st) = synced db0 st"
  "synced db0 (stop_reading s st) = synced db0 st"
  "synced db0 (set_active_room_id s rid st) = synced db0 st"
  "synced db0 (erase_member rid s st) = synced db0 st"
  "synced db0 (insert_member rid s st) = synced db0 st"
  "synced db0 (broadcast_users rid st) = synced db0 st"
  "synced db0 (broadcast_room_lists st) = synced db0 st"
  "synced db0 (send_topic s st) = synced db0 st"
  "synced db0 (send_room_list s st) = synced db0 st"
  "synced db0 (show_room_list_local st) = synced db0 st"
  by (auto simp: reply_def update_session_def stop_reading_def set_active_room_id_def erase_member_def insert_member_def
      broadcast_users_def broadcast_room_lists_def send_topic_def send_room_list_def show_room_list_local_def Let_def
      synced_effects synced_rooms room_meta_modify split: option.split)

section \<open>Requests that keep the mirror\<close>

lemma store_requests [simp]: "storage_requests (store r out) = storage_requests out @ [r]"
  by (simp add: store_def)

lemma synced_request:
  assumes "synced db0 st" "has_storage st'" "storage_requests (effects st') = storage_requests (effects st) @ ws"
    and "\<And>db clock. mirrors st db \<Longrightarrow> \<exists>db'. execute_writes clock ws db = Some db' \<and> mirrors st' db'"
  shows "synced db0 st'"
proof -
  have append: "execute_writes clock (xs @ ws) db = (case execute_writes clock xs db of None \<Rightarrow> None
      | Some db' \<Rightarrow> execute_writes (\<lambda>i. clock (length xs + i)) ws db')" for clock xs db
    by (induction xs arbitrary: clock db) (auto split: option.split)
  show ?thesis
    unfolding synced_def
  proof (intro conjI allI)
    fix clock
    obtain db where db: "execute_writes clock (storage_requests (effects st)) db0 = Some db" "mirrors st db"
      using assms(1) by (auto simp: synced_def)
    show "\<exists>db. execute_writes clock (storage_requests (effects st')) db0 = Some db \<and> mirrors st' db"
      using assms(4) [OF db(2), of "\<lambda>i. clock (length (storage_requests (effects st)) + i)"] db(1)
      by (simp add: assms(3) append)
  qed (rule assms(2))
qed

lemma store_message_requests:
  "\<exists>m. storage_requests (store_message E rid n msg out) = storage_requests out @ [StoreMessage m] \<and> sm_room_id m = rid"
  by (auto simp: store_message_def store_def next_message_timestamp_def tick_def Let_def)

lemma broadcast_room_requests:
  assumes "map_find (rooms st) rid = Some room" "has_storage st"
  shows "\<exists>m. storage_requests (effects (broadcast_room E rid msg n st)) = storage_requests (effects st) @ [StoreMessage m] \<and>
    sm_room_id m = rid"
proof -
  have "\<exists>out. effects (broadcast_room E rid msg n st) = store_message E rid n msg out \<and>
      storage_requests out = storage_requests (effects st)"
    using assms by (fastforce simp: broadcast_room_def Let_def)
  with store_message_requests show ?thesis by metis
qed

lemma synced_broadcast [simp]:
  assumes "synced db0 st"
  shows "synced db0 (broadcast_room E rid msg n st)"
proof (cases "map_find (rooms st) rid")
  case (Some room)
  obtain m where m: "storage_requests (effects (broadcast_room E rid msg n st)) = storage_requests (effects st) @ [StoreMessage m]"
      "sm_room_id m = rid"
    using broadcast_room_requests [OF Some] assms by (metis synced_def)
  have "rid \<in> fst ` set (room_meta (rooms st))"
    using map_of_SomeD [OF Some] by (force simp: room_meta_def)
  then have "\<exists>db'. execute_writes clock [StoreMessage m] db = Some db' \<and> mirrors (broadcast_room E rid msg n st) db'"
    if "mirrors st db" for db clock
    using that m(2)
    by (auto simp: mirrors_def insert_message_def list_ex_iff room_meta_modify row_meta_def identity_rows_def)
  with assms m(1) show ?thesis by (intro synced_request [OF assms _ m(1)]) (auto simp: synced_def)
qed (use assms in \<open>simp add: broadcast_room_def\<close>)

lemma synced_fold_broadcast [simp]:
  "synced db0 st \<Longrightarrow> synced db0 (fold (\<lambda>rid. broadcast_room E rid msg []) rids st)"
  by (induction rids arbitrary: st) simp_all

lemma synced_moves [simp]:
  assumes "synced db0 st"
  shows "synced db0 (disconnect E s announce st)"
    and "synced db0 (move_session_to_room E s target announce st)"
    and "synced db0 (move_local_to_room E target announce st)"
  using assms
  by (auto simp: disconnect_def move_session_to_room_def move_local_to_room_def Let_def synced_effects split: option.split)

lemma synced_kick [simp]: "synced db0 st \<Longrightarrow> synced db0 (snd (kick_user_in_room E rid nick reason st))"
  by (auto simp: kick_user_in_room_def Let_def synced_effects split: option.split)

lemma synced_hang_up [simp]: "synced db0 st \<Longrightarrow> synced db0 (hang_up E s st)"
  by (simp add: hang_up_def synced_effects)

lemma synced_private [simp]: "synced db0 st \<Longrightarrow> synced db0 (snd (send_private_in_room E sender target msg rid mirror st))"
  by (auto simp: send_private_in_room_def Let_def synced_effects split: option.split)

text \<open>A new room: its row is new, by its number and by its name.\<close>

lemma room_meta_emplace:
  "map_find rms k = None \<Longrightarrow> set (room_meta (map_emplace k r rms)) = insert (k, rm_name r, rm_topic r, rm_owner r) (set (room_meta rms))"
  by (simp add: room_meta_def map_emplace_def set_assign_new)

lemma next_room_new:
  assumes "server_inv st"
  shows "map_find (rooms st) (next_room_id st) = None"
proof (rule ccontr)
  assume "map_find (rooms st) (next_room_id st) \<noteq> None"
  then obtain r where "(next_room_id st, r) \<in> set (rooms st)" by (auto dest: map_of_SomeD)
  then show False using rooms_invD(4) [OF server_invD(1) [OF assms]] by blast
qed

lemma synced_add_room:
  assumes "synced db0 st" "server_inv st" "check_new_room name st = None"
  shows "synced db0 (persist_room E (next_room_id st) (add_room name owner st))"
proof -
  let ?rid = "next_room_id st"
  have new: "map_find (rooms st) ?rid = None" by (rule next_room_new [OF assms(2)])
  have name: "normalized_room_name n \<noteq> normalized_room_name name" if "(rid, n, t, ow) \<in> set (room_meta (rooms st))" for rid n t ow
    using assms(3) that
    by (auto simp: check_new_room_def find_room_by_name_def find_None_iff room_meta_def split: if_splits)
  have ids: "rid \<noteq> ?rid" if "(rid, n, t, ow) \<in> set (room_meta (rooms st))" for rid n t ow
    using new that by (force simp: room_meta_def map_of_eq_None_iff)
  have found: "map_find (rooms (add_room name owner st)) ?rid = Some
      \<lparr>rm_id = ?rid, rm_name = name, rm_topic = [], rm_owner = owner, rm_recent = [], rm_members = []\<rparr>"
    using new rooms_invD(1) [OF server_invD(1) [OF assms(2)]] by (simp add: add_room_def map_find_emplace Let_def)
  define row where "row t = \<lparr>sr_id = ?rid, sr_name = name, sr_topic = [], sr_owner = owner, sr_created_at = t\<rparr>" for t
  have "has_storage st" using assms(1) by (simp add: synced_def)
  then obtain t where req: "storage_requests (effects (persist_room E ?rid (add_room name owner st))) =
      storage_requests (effects st) @ [StoreRoom (row t)]"
    using found by (auto simp: persist_room_def row_def add_room_def Let_def)
  show ?thesis
  proof (rule synced_request [OF assms(1) _ req])
    fix db clock assume m: "mirrors st db"
    have rows: "(sr_id r, sr_name r, sr_topic r, sr_owner r) \<in> set (room_meta (rooms st))" if "r \<in> set (db_rooms db)" for r
      using m that by (auto simp: mirrors_def row_meta_def)
    have upsert: "upsert_room (row t) db = Some (db\<lparr>db_rooms := db_rooms db @ [row t]\<rparr>)"
      using name [OF rows] ids [OF rows] by (auto simp: upsert_room_def name_clash_def list_ex_iff row_def)
    have fresh: "?rid \<notin> sr_id ` set (db_rooms db)" using ids [OF rows] by (metis imageE)
    have "set (room_meta (rooms (add_room name owner st))) = insert (row_meta (row t)) (set (room_meta (rooms st)))"
      using room_meta_emplace [OF new] by (simp add: add_room_def Let_def row_meta_def row_def)
    moreover have "identities (add_room name owner st) = identities st" "banned_nicks (add_room name owner st) = banned_nicks st"
      by (simp_all add: add_room_def Let_def)
    ultimately have "mirrors (persist_room E ?rid (add_room name owner st)) (db\<lparr>db_rooms := db_rooms db @ [row t]\<rparr>)"
      using m fresh by (simp add: mirrors_def identity_rows_def) (simp add: row_def)
    with upsert show "\<exists>db'. execute_writes clock [StoreRoom (row t)] db = Some db' \<and>
        mirrors (persist_room E ?rid (add_room name owner st)) db'" by simp
  qed (use \<open>has_storage st\<close> in \<open>simp add: add_room_def Let_def\<close>)
qed

lemma created_admin_found:
  assumes "server_inv st" "check_new_room name st = None"
  shows "\<exists>r. find_room_by_name name (add_room name owner st) = Some (next_room_id st, r) \<and> next_room_id st \<noteq> 0"
proof -
  let ?new = "\<lparr>rm_id = next_room_id st, rm_name = name, rm_topic = [], rm_owner = owner, rm_recent = [], rm_members = []\<rparr>"
  obtain lobby where "(DEFAULT_ROOM_ID, lobby) \<in> set (rooms st)"
    using rooms_invD(2) [OF server_invD(1) [OF assms(1)]] by auto
  then have "DEFAULT_ROOM_ID < next_room_id st" using rooms_invD(4) [OF server_invD(1) [OF assms(1)]] by blast
  then have nonzero: "next_room_id st \<noteq> 0" by auto
  have new: "map_find (rooms st) (next_room_id st) = None" by (rule next_room_new [OF assms(1)])
  have others: "normalized_room_name (rm_name r) \<noteq> normalized_room_name name" if "(k, r) \<in> set (rooms st)" for k r
    using assms(2) that by (auto simp: check_new_room_def find_room_by_name_def find_None_iff split: if_splits)
  have entries: "set (rooms (add_room name owner st)) = insert (next_room_id st, ?new) (set (rooms st))"
    using new by (simp add: add_room_def Let_def map_emplace_def set_assign_new)
  then have "(next_room_id st, ?new) \<in> set (rooms (add_room name owner st))" by simp
  then obtain x where "find_room_by_name name (add_room name owner st) = Some x"
    by (cases "find_room_by_name name (add_room name owner st)") (fastforce simp: find_room_by_name_def find_None_iff)+
  moreover from this have "x \<in> set (rooms (add_room name owner st))" "normalized_room_name (rm_name (snd x)) = normalized_room_name name"
    by (auto simp: find_room_by_name_def dest!: find_SomeD)
  ultimately show ?thesis using entries others nonzero by (cases x) auto
qed

lemma synced_rooms_created:
  assumes "synced db0 st" "server_inv st"
  shows "create_room E s name st = Inr st' \<Longrightarrow> synced db0 st'"
    and "create_local_room E name st = Inr st' \<Longrightarrow> synced db0 st'"
    and "create_admin_room E name st = Inr st' \<Longrightarrow> synced db0 st'"
proof -
  note add = synced_add_room [OF assms, of name E]
  show "synced db0 st'" if "create_room E s name st = Inr st'"
    using that add by (auto simp: create_room_def Let_def split: option.splits)
  show "synced db0 st'" if "create_local_room E name st = Inr st'"
    using that add by (auto simp: create_local_room_def Let_def split: option.splits if_splits)
  show "synced db0 st'" if "create_admin_room E name st = Inr st'"
  proof -
    have check: "check_new_room name st = None" using that by (auto simp: create_admin_room_def split: option.splits)
    then obtain r where "find_room_by_name name (add_room name [] st) = Some (next_room_id st, r)" "next_room_id st \<noteq> 0"
      using created_admin_found [OF assms(2) check] by blast
    with that add check show ?thesis by (auto simp: create_admin_room_def Let_def)
  qed
qed

text \<open>A topic, an identity, a ban and its removal.\<close>

lemma update_topic_row_frame [simp]:
  "db_identities (update_topic_row rid topic db) = db_identities db" "db_bans (update_topic_row rid topic db) = db_bans db"
  by (simp_all add: update_topic_row_def)

lemma synced_topic:
  assumes "synced db0 st" "set_topic_for_room E rid actor privileged topic st = Inr st'"
  shows "synced db0 st'"
proof -
  have storage: "has_storage st" using assms(1) by (simp add: synced_def)
  let ?st1 = "effects_update (store (UpdateTopic rid topic)) (st\<lparr>rooms := map_modify rid (\<lambda>r. r\<lparr>rm_topic := topic\<rparr>) (rooms st)\<rparr>)"
  have "synced db0 ?st1"
  proof (rule synced_request [OF assms(1)])
    fix db clock assume m: "mirrors st db"
    let ?f = "\<lambda>r. if sr_id r = rid then r\<lparr>sr_topic := topic\<rparr> else r"
    have "row_meta (?f r) = (\<lambda>(i, n, t, ow). (i, n, if i = rid then topic else t, ow)) (row_meta r)" for r
      by (simp add: row_meta_def)
    then have rows: "row_meta ` ?f ` set (db_rooms db) = (\<lambda>(i, n, t, ow). (i, n, if i = rid then topic else t, ow)) ` row_meta ` set (db_rooms db)"
      by (simp only: image_image)
    have "room_meta (rooms ?st1) = map (\<lambda>(i, n, t, ow). (i, n, if i = rid then topic else t, ow)) (room_meta (rooms st))"
      by (auto simp: room_meta_def map_modify_def)
    then have "set (room_meta (rooms ?st1)) = row_meta ` set (db_rooms (update_topic_row rid topic db))"
      using m rows [symmetric] by (simp only: mirrors_def set_map) (simp add: update_topic_row_def)
    moreover have "map sr_id (db_rooms (update_topic_row rid topic db)) = map sr_id (db_rooms db)"
      by (simp add: update_topic_row_def)
    ultimately have "mirrors ?st1 (update_topic_row rid topic db)"
      using m by (simp add: mirrors_def identity_rows_def)
    then show "\<exists>db'. execute_writes clock [UpdateTopic rid topic] db = Some db' \<and> mirrors ?st1 db'" by simp
  qed (use storage in \<open>simp_all add: store_def\<close>)
  with assms(2) storage show ?thesis
    by (auto simp: set_topic_for_room_def Let_def synced_effects synced_effects_comp split: if_splits option.splits)
qed

lemma synced_bind [simp]:
  assumes "synced db0 st" "server_inv st"
  shows "synced db0 (snd (bind_identity nick key st))"
proof (cases "map_find (identities st) nick")
  case None
  have storage: "has_storage st" using assms(1) by (simp add: synced_def)
  let ?st1 = "effects_update (store (StoreIdentity nick key)) (st\<lparr>identities := map_assign nick key (identities st)\<rparr>)"
  have "synced db0 ?st1"
  proof (rule synced_request [OF assms(1)])
    fix db and clock :: "nat \<Rightarrow> int" assume m: "mirrors st db"
    then have new: "nick \<notin> fst ` set (identity_rows db)"
      using None by (auto simp: mirrors_def map_of_eq_None_iff [symmetric])
    then have "upsert_identity (clock 0) nick key db = db\<lparr>db_identities := db_identities db @ [(nick, key, clock 0)]\<rparr>"
      by (force simp: upsert_identity_def list_ex_iff identity_rows_def)
    moreover have "map_of (identities ?st1) = map_of (identity_rows db @ [(nick, key)])"
    proof
      fix n
      have "map_of (identity_rows db) nick = None" using new by (simp add: map_of_eq_None_iff)
      then show "map_of (identities ?st1) n = map_of (identity_rows db @ [(nick, key)]) n"
        using m server_invD(7) [OF assms(2)] by (cases "n = nick") (simp_all add: mirrors_def map_add_def split: option.split)
    qed
    moreover have "identity_rows (db\<lparr>db_identities := db_identities db @ [(nick, key, clock 0)]\<rparr>) = identity_rows db @ [(nick, key)]"
      by (simp add: identity_rows_def)
    ultimately show "\<exists>db'. execute_writes clock [StoreIdentity nick key] db = Some db' \<and> mirrors ?st1 db'"
      using m new by (simp add: mirrors_def)
  qed (use storage in \<open>simp_all add: store_def\<close>)
  with None storage show ?thesis by (simp add: bind_identity_def Let_def synced_effects_comp)
qed (use assms in \<open>simp add: bind_identity_def\<close>)

lemma synced_ban_row:
  assumes "synced db0 st" "\<And>out. sb_nickname (ban out) = nick \<and> sb_expires_at (ban out) = None"
  shows "synced db0 (effects_update (\<lambda>out. store (StoreBan (ban out)) (tick out)) (st\<lparr>banned_nicks := set_insert nick (banned_nicks st)\<rparr>))"
    (is "synced db0 ?st1")
proof (rule synced_request [OF assms(1)])
  let ?ban = "ban (effects st)"
  show "storage_requests (effects ?st1) = storage_requests (effects st) @ [StoreBan ?ban]" by simp
  fix db clock assume m: "mirrors st db"
  have names: "map sb_nickname (db_bans (upsert_ban ?ban db)) =
      (if nick \<in> sb_nickname ` set (db_bans db) then map sb_nickname (db_bans db) else map sb_nickname (db_bans db) @ [nick])"
    using assms(2) by (auto simp: upsert_ban_def list_ex_iff)
  have "set (map sb_nickname (db_bans (upsert_ban ?ban db))) = insert nick (sb_nickname ` set (db_bans db))"
    unfolding names by auto
  moreover have "distinct (map sb_nickname (db_bans (upsert_ban ?ban db)))"
    unfolding names using m by (auto simp: mirrors_def)
  moreover have "\<forall>b \<in> set (db_bans (upsert_ban ?ban db)). sb_expires_at b = None"
    using m assms(2) by (auto simp: upsert_ban_def mirrors_def)
  moreover have "db_rooms (upsert_ban ?ban db) = db_rooms db" "identity_rows (upsert_ban ?ban db) = identity_rows db"
    by (simp_all add: upsert_ban_def identity_rows_def)
  ultimately have "mirrors ?st1 (upsert_ban ?ban db)" using m by (simp add: mirrors_def)
  then show "\<exists>db'. execute_writes clock [StoreBan ?ban] db = Some db' \<and> mirrors ?st1 db'" by simp
qed (use assms in \<open>simp add: synced_def\<close>)

lemma synced_ban [simp]:
  assumes "synced db0 st"
  shows "synced db0 (ban_user E nick reason st)"
proof -
  have "has_storage st" using assms by (simp add: synced_def)
  then show ?thesis
    using synced_ban_row [OF assms, of "\<lambda>out. \<lparr>sb_nickname = nick, sb_reason = reason,
      sb_created_at = current_unix_seconds E out, sb_expires_at = None\<rparr>" nick]
    by (auto simp: ban_user_def Let_def synced_effects synced_effects_comp split: option.split)
qed

lemma synced_unban [simp]:
  assumes "synced db0 st"
  shows "synced db0 (snd (unban_user nick st))"
proof (cases "nick \<in> set (banned_nicks st)")
  case True
  let ?st1 = "effects_update (store (RemoveBan nick)) (st\<lparr>banned_nicks := set_erase nick (banned_nicks st)\<rparr>)"
  have "synced db0 ?st1"
  proof (rule synced_request [OF assms])
    fix db clock assume m: "mirrors st db"
    then have "mirrors ?st1 (delete_ban nick db)"
      by (auto simp: mirrors_def delete_ban_def identity_rows_def distinct_map_filter)
    then show "\<exists>db'. execute_writes clock [RemoveBan nick] db = Some db' \<and> mirrors ?st1 db'" by simp
  qed (use assms in \<open>simp_all add: store_def synced_def\<close>)
  with True assms show ?thesis by (simp add: unban_user_def Let_def synced_effects_comp synced_def [of _ st])
next
  case False
  then have "set_erase nick (banned_nicks st) = banned_nicks st" by (auto simp: set_erase_def filter_id_conv)
  with False assms show ?thesis by (simp add: unban_user_def Let_def)
qed

section \<open>Every step keeps the mirror\<close>

lemma synced_results:
  assumes "synced db0 st" "server_inv st"
  shows "join_room E s name st = Inr st' \<Longrightarrow> synced db0 st'"
    and "leave_room E s st = Inr st' \<Longrightarrow> synced db0 st'"
    and "set_topic E s topic st = Inr st' \<Longrightarrow> synced db0 st'"
    and "kick_from E s nick reason st = Inr st' \<Longrightarrow> synced db0 st'"
    and "join_local_room E name st = Inr st' \<Longrightarrow> synced db0 st'"
    and "leave_local_room E st = Inr st' \<Longrightarrow> synced db0 st'"
    and "set_local_topic E topic st = Inr st' \<Longrightarrow> synced db0 st'"
    and "set_admin_topic E name topic st = Inr st' \<Longrightarrow> synced db0 st'"
    and "kick_user_in_named_room E name nick reason st = Inr st' \<Longrightarrow> synced db0 st'"
proof -
  have kick: "kick_user_in_room E rid nick reason st = (b, st') \<Longrightarrow> synced db0 st'" for rid b
    using synced_kick [OF assms(1), of E rid nick reason] by simp
  show "join_room E s name st = Inr st' \<Longrightarrow> synced db0 st'" "leave_room E s st = Inr st' \<Longrightarrow> synced db0 st'"
    "set_topic E s topic st = Inr st' \<Longrightarrow> synced db0 st'" "join_local_room E name st = Inr st' \<Longrightarrow> synced db0 st'"
    "leave_local_room E st = Inr st' \<Longrightarrow> synced db0 st'" "set_local_topic E topic st = Inr st' \<Longrightarrow> synced db0 st'"
    "set_admin_topic E name topic st = Inr st' \<Longrightarrow> synced db0 st'"
    using assms
    by (auto simp: join_room_def leave_room_def set_topic_def join_local_room_def leave_local_room_def set_local_topic_def
        set_admin_topic_def intro: synced_topic split: option.splits if_splits)
  show "kick_from E s nick reason st = Inr st' \<Longrightarrow> synced db0 st'"
    "kick_user_in_named_room E name nick reason st = Inr st' \<Longrightarrow> synced db0 st'"
    using kick by (auto simp: kick_from_def kick_user_in_named_room_def Let_def split: option.splits if_splits prod.splits)
qed

lemma synced_or_error:
  "synced db0 st \<Longrightarrow> (\<And>st'. r = Inr st' \<Longrightarrow> synced db0 st') \<Longrightarrow> synced db0 (or_error s r st)"
  by (auto simp: or_error_def split: sum.split)

lemma synced_keep_on_error:
  "synced db0 st \<Longrightarrow> (\<And>st'. r = Inr st' \<Longrightarrow> synced db0 st') \<Longrightarrow> synced db0 (keep_on_error st r)"
  by (auto simp: keep_on_error_def split: sum.split)

lemma synced_quota: "consume_message_quota E s st = (b, st') \<Longrightarrow> synced db0 st' = synced db0 st"
  by (auto simp: consume_message_quota_def Let_def synced_effects split: prod.splits)

lemma synced_proof:
  assumes "synced db0 st" "server_inv st"
  shows "synced db0 (handle_proof E s sig st)"
proof -
  have "synced db0 st'" if "bind_identity nick key st = (b, st')" for nick key b st'
    using synced_bind [OF assms, of nick key] that by simp
  with assms(1) show ?thesis
    by (auto simp: handle_proof_def Let_def admit_to_default_room_def split: prod.split bool.split)
qed

lemma synced_line:
  assumes "synced db0 st" "server_inv st"
  shows "synced db0 (handle_line E s line st)"
proof -
  note results = synced_results [OF assms] synced_rooms_created [OF assms]
  have "synced db0 (handle_authorised E s m st)" for m
    using assms results
    by (auto simp: handle_authorised_def synced_proof handle_identify_def handle_leave_def handle_disconnect_def
        handle_list_rooms_def handle_create_def handle_join_room_def handle_topic_def handle_chat_def handle_whisper_def
        handle_kick_def send_private_from_def Let_def synced_quota synced_effects
        intro!: synced_or_error split: client_message.split option.split prod.split bool.split)
  then show ?thesis
    using assms
    by (auto simp: handle_line_def handle_message_def handle_hello_def handle_authenticate_def Let_def
        split: result.split client_message.split)
qed

lemma synced_stop:
  assumes "synced db0 st"
  shows "synced db0 (stop st)"
proof (rule synced_request [OF assms])
  have stores: "storage_requests (fold abort_session old out) = storage_requests out" for old out
    by (induction old arbitrary: out) auto
  have view: "room_meta (rooms (stop st)) = room_meta (rooms st)" "identities (stop st) = identities st"
      "banned_nicks (stop st) = banned_nicks st" "has_storage (stop st) = has_storage st"
    by (auto simp: stop_def Let_def room_meta_def)
  then show "has_storage (stop st)" using assms by (simp add: synced_def)
  then show "storage_requests (effects (stop st)) = storage_requests (effects st) @ [Flush]"
    using view(4) stores by (simp add: stop_def Let_def)
  show "\<exists>db'. execute_writes clock [Flush] db = Some db' \<and> mirrors (stop st) db'" if "mirrors st db" for db clock
    using that view by (simp add: mirrors_def)
qed

lemma synced_host:
  assumes "synced db0 st" "server_inv st"
  shows "synced db0 (host_step E e st)"
proof (cases e)
  case StartLocalUser
  with assms show ?thesis by (auto simp: start_local_user_def Let_def synced_effects split: option.split)
next
  case StopServer
  with assms(1) show ?thesis by (simp add: synced_stop)
qed (use assms synced_results [OF assms] synced_rooms_created [OF assms] in \<open>auto simp: register_local_identity_def broadcast_def
      Let_def send_private_def kick_user_def broadcast_server_def synced_effects intro!: synced_keep_on_error\<close>)

lemma synced_step:
  assumes "synced db0 st" "server_inv st"
  shows "synced db0 (server_step E e st)"
proof (cases e)
  case Accept
  with assms show ?thesis by (simp add: accept_def Let_def join_def synced_effects)
next
  case (HandshakeDone s)
  with assms show ?thesis by (simp add: handshake_done_def)
next
  case (HandshakeFailed s)
  with assms show ?thesis by (simp add: handshake_failed_def synced_effects)
next
  case (ReadFailed s)
  with assms show ?thesis by (simp add: read_failed_def)
qed (use assms in \<open>simp_all add: synced_line synced_host synced_effects\<close>)

end
