(* ===== verification/Restart.thy ===== *)
theory Restart
  imports Persistence
begin

text \<open>
  Starting the server from a database, \<open>load_persistent_state\<close> of \<open>chat/chat_server.h\<close> on the
  queries of \<open>storage/storage.cpp\<close>, and the round trip: what a server had in memory when it
  stopped is what a server started from its database has.
\<close>

section \<open>Starting from the database\<close>

definition persisted_of :: "int \<Rightarrow> database \<Rightarrow> persisted" where
  "persisted_of now db = \<lparr>load_rooms = db_load_rooms db,
     load_history = (\<lambda>rid limit. hp_messages (db_load_history rid limit None db)),
     load_stored_identities = db_load_identities db, load_stored_bans = fst (db_load_bans now db)\<rparr>"

definition wf_row :: "stored_room \<Rightarrow> bool" where
  "wf_row r \<longleftrightarrow> sr_id r \<noteq> 0 \<and> unat (sr_id r) < 2 ^ 63 \<and> is_valid_room_name (sr_name r) \<and>
     is_valid_room_topic (sr_topic r) \<and> no_nul (sr_owner r)"

definition wf_database :: "database \<Rightarrow> bool" where
  "wf_database db \<longleftrightarrow>
     distinct (map sr_id (db_rooms db)) \<and> DEFAULT_ROOM_ID \<in> sr_id ` set (db_rooms db) \<and> length (db_rooms db) \<le> MAX_ROOMS \<and>
     distinct (map (\<lambda>r. normalized_room_name (sr_name r)) (db_rooms db)) \<and> list_all wf_row (db_rooms db) \<and>
     distinct (map fst (identity_rows db)) \<and> list_all (\<lambda>(n, k). no_nul n \<and> no_nul k) (identity_rows db) \<and>
     distinct (map sb_nickname (db_bans db)) \<and> list_all (\<lambda>b. no_nul (sb_nickname b) \<and> sb_expires_at b = None) (db_bans db)"

lemma valid_no_nul:
  "is_valid_room_name n \<Longrightarrow> no_nul n" "is_valid_room_topic t \<Longrightarrow> no_nul t"
proof -
  show "is_valid_room_topic t \<Longrightarrow> no_nul t"
    using nul_cntrl by (auto simp: is_valid_room_topic_def no_nul_def list_ex_iff split: if_splits)
  have "\<not> isalnum CHR 0x00" by (simp add: ctype_defs byte_def)
  then show "is_valid_room_name n \<Longrightarrow> no_nul n" using room_name_char [of n "CHR 0x00"] by (auto simp: no_nul_def)
qed

text \<open>Rows in the order of their keys.\<close>

lemma ascending_sort_key:
  fixes key :: "'a \<Rightarrow> 'k::linorder"
  assumes "distinct (map key xs)"
  shows "ascending (map key (sort_key key xs))"
proof -
  have "distinct (map key (sort_key key xs))" using assms by (simp add: distinct_map)
  then show ?thesis by (simp add: strict_sorted_iff)
qed

lemma sint_small:
  assumes "unat (w :: u64) < 2 ^ 63"
  shows "sint w = uint w"
proof -
  have "int (unat w) < int (2 ^ 63)" using assms by (simp only: of_nat_less_iff)
  then have "uint w < 2 ^ 63" by simp
  moreover have "- (2 ^ 63) \<le> uint w" by (rule order_trans [of _ 0]) simp_all
  ultimately have "signed_take_bit 63 (uint w) = uint w" by (intro signed_take_bit_int_eq_self)
  then show ?thesis by (simp add: sint_uint)
qed

lemma ascending_rows:
  assumes "wf_database db"
  shows "ascending (map sr_id (sort_key (\<lambda>r. sint (sr_id r)) (db_rooms db)))"
proof -
  have small: "sint (sr_id r) = uint (sr_id r)" if "r \<in> set (db_rooms db)" for r
    using assms that by (intro sint_small) (auto simp: wf_database_def list_all_iff wf_row_def)
  have "distinct (map (\<lambda>r. sint (sr_id r)) (db_rooms db))"
    using assms small by (auto simp: wf_database_def distinct_map inj_on_def dest: unsigned_word_eqI)
  then have "sorted_wrt (\<lambda>a b. sint (sr_id a) < sint (sr_id b)) (sort_key (\<lambda>r. sint (sr_id r)) (db_rooms db))"
    using ascending_sort_key by (simp add: sorted_wrt_map)
  then have "sorted_wrt (\<lambda>a b. sr_id a < sr_id b) (sort_key (\<lambda>r. sint (sr_id r)) (db_rooms db))"
    by (rule sorted_wrt_mono_rel [rotated]) (auto simp: small word_less_def)
  then show ?thesis by (simp add: sorted_wrt_map)
qed

lemma loaded_rooms:
  assumes "wf_database db"
  shows "db_load_rooms db = sort_key (\<lambda>r. sint (sr_id r)) (db_rooms db)"
proof -
  have "r\<lparr>sr_name := column_text (sr_name r), sr_topic := column_text (sr_topic r), sr_owner := column_text (sr_owner r)\<rparr> = r"
    if "r \<in> set (db_rooms db)" for r
    using assms that valid_no_nul by (auto simp: wf_database_def list_all_iff wf_row_def)
  then show ?thesis unfolding db_load_rooms_def by (intro map_idI) simp
qed

lemma map_of_same_set:
  assumes "distinct (map fst xs)" "distinct (map fst ys)" "set xs = set ys"
  shows "map_of xs = map_of ys"
  using assms by (intro map_of_inject_set [THEN iffD2]) auto

lemma loaded_identities:
  assumes "wf_database db"
  shows "ascending (map fst (db_load_identities db))" "map_of (db_load_identities db) = map_of (identity_rows db)"
proof -
  have nul: "list_all (\<lambda>(n, k). no_nul n \<and> no_nul k) (identity_rows db)" "distinct (map fst (db_identities db))"
    using assms by (simp_all add: wf_database_def identity_rows_def comp_def case_prod_unfold)
  have eq: "db_load_identities db = map (\<lambda>(n, k, t). (n, k)) (sort_key fst (db_identities db))"
    using nul(1) by (auto simp: db_load_identities_def identity_rows_def list_all_iff)
  then show asc: "ascending (map fst (db_load_identities db))"
    using ascending_sort_key [OF nul(2)] by (simp add: comp_def case_prod_unfold)
  show "map_of (db_load_identities db) = map_of (identity_rows db)"
  proof (rule map_of_same_set)
    show "distinct (map fst (db_load_identities db))" by (rule keys_distinct [OF asc])
    show "distinct (map fst (identity_rows db))" using assms by (simp add: wf_database_def)
    show "set (db_load_identities db) = set (identity_rows db)" by (simp add: eq identity_rows_def)
  qed
qed

lemma loaded_bans:
  assumes "wf_database db"
  shows "sb_nickname ` set (fst (db_load_bans now db)) = sb_nickname ` set (db_bans db)"
proof -
  have b: "no_nul (sb_nickname b) \<and> sb_expires_at b = None" if "b \<in> set (db_bans db)" for b
    using assms that by (auto simp: wf_database_def list_all_iff)
  then have "expire_bans now db = db" by (simp add: expire_bans_def filter_id_conv)
  then show ?thesis using b by (auto simp: db_load_bans_def Let_def image_image)
qed

text \<open>The server started from a database, with its rooms in the order of their numbers.\<close>

definition start_from :: "environment \<Rightarrow> string \<Rightarrow> bool \<Rightarrow> string \<Rightarrow> nat \<Rightarrow> int \<Rightarrow> database \<Rightarrow> chat_server" where
  "start_from E pw log nick limit now db = new_chat_server E pw log nick (Some (persisted_of now db)) limit"

lemma history_bounded: "length (hp_messages (db_load_history rid (max 1 limit) None db)) \<le> max 1 limit"
  by (auto simp: db_load_history_def page_limit_def Let_def)

lemma wf_persisted_of:
  assumes "wf_database db"
  shows "wf_persisted (persisted_of now db)"
proof -
  have "1 \<le> n \<Longrightarrow> length (load_history (persisted_of now db) rid n) \<le> n" for rid n
    using history_bounded [of rid n db] by (simp add: persisted_of_def max_def)
  then show ?thesis
    using assms ascending_rows [OF assms] loaded_identities(1) [OF assms]
    by (auto simp: wf_persisted_def persisted_of_def loaded_rooms wf_database_def list_all_iff wf_row_def distinct_map)
qed

lemma started_fields_of:
  assumes "wf_database db"
  shows "load_rooms (persisted_of now db) = sort_key (\<lambda>r. sint (sr_id r)) (db_rooms db)"
    "load_stored_identities (persisted_of now db) = db_load_identities db"
    "sb_nickname ` set (load_stored_bans (persisted_of now db)) = sb_nickname ` set (db_bans db)"
  using loaded_rooms [OF assms] loaded_bans [OF assms, of now] by (simp_all add: persisted_of_def)

lemma server_inv_start: "wf_database db \<Longrightarrow> server_inv (start_from E pw log nick limit now db)"
  by (simp add: start_from_def server_inv_stored wf_persisted_of)

lemma synced_start:
  assumes "wf_database db"
  shows "synced db (start_from E pw log nick limit now db)"
proof -
  let ?st = "start_from E pw log nick limit now db"
  note view = started_view [OF wf_persisted_of [OF assms, of now], of E pw log nick limit, folded start_from_def, unfolded started_fields_of [OF assms]]
  have "set (room_meta (rooms ?st)) = row_meta ` set (db_rooms db)"
    by (auto simp: room_meta_def view(1) room_of_row_def row_meta_def image_image)
  then have "mirrors ?st db"
    using view loaded_identities(2) [OF assms] assms by (simp add: mirrors_def wf_database_def list_all_iff)
  then show ?thesis using view by (simp add: synced_def)
qed

section \<open>The round trip\<close>

text \<open>The runs of a server with a database.\<close>

inductive stored_run :: "environment \<Rightarrow> database \<Rightarrow> chat_server \<Rightarrow> bool" for E :: environment and db0 :: database where
  start: "wf_database db0 \<Longrightarrow> stored_run E db0 (start_from E pw log nick limit now db0)"
| step: "stored_run E db0 st \<Longrightarrow> event_enabled e st \<Longrightarrow> stored_run E db0 (server_step E e st)"

lemma stored_run_inv: "stored_run E db0 st \<Longrightarrow> server_inv st \<and> synced db0 st"
  by (induction rule: stored_run.induct) (auto simp: server_inv_start synced_start server_inv_step synced_step)

lemma stored_run_reachable: "stored_run E db0 st \<Longrightarrow> reachable E st"
  by (induction rule: stored_run.induct) (auto simp: start_from_def wf_persisted_of intro: reachable.intros)

text \<open>What C strings can hold: no zero bytes in the texts of the server, and room numbers that are positive as signed ones.\<close>

definition storable :: "chat_server \<Rightarrow> bool" where
  "storable st \<longleftrightarrow> list_all (\<lambda>(rid, r). unat rid < 2 ^ 63 \<and> no_nul (rm_owner r)) (rooms st) \<and>
     list_all (\<lambda>(n, k). no_nul n \<and> no_nul k) (identities st) \<and> list_all no_nul (banned_nicks st)"

lemma mirror_wf:
  assumes "mirrors st db" "server_inv st" "storable st"
  shows "wf_database db"
proof -
  note inv = server_invD(1) [OF assms(2)]
  have meta: "row_meta ` set (db_rooms db) = set (room_meta (rooms st))" using assms(1) by (simp add: mirrors_def)
  have row: "\<exists>rm. (sr_id r, rm) \<in> set (rooms st) \<and> rm_name rm = sr_name r \<and> rm_topic rm = sr_topic r \<and> rm_owner rm = sr_owner r"
    if "r \<in> set (db_rooms db)" for r
  proof -
    have "row_meta r \<in> set (room_meta (rooms st))" using meta that by blast
    then show ?thesis by (auto simp: room_meta_def row_meta_def)
  qed
  have "wf_row r" if "r \<in> set (db_rooms db)" for r
    using row [OF that] rooms_invD(4) [OF inv] assms(3) by (fastforce simp: wf_row_def storable_def list_all_iff)
  moreover have "distinct (map (\<lambda>r. normalized_room_name (sr_name r)) (db_rooms db))"
  proof -
    have "r = r'" if r: "r \<in> set (db_rooms db)" "r' \<in> set (db_rooms db)" "normalized_room_name (sr_name r) = normalized_room_name (sr_name r')" for r r'
    proof -
      obtain rm rm' where "(sr_id r, rm) \<in> set (rooms st)" "rm_name rm = sr_name r" "(sr_id r', rm') \<in> set (rooms st)" "rm_name rm' = sr_name r'"
        using row r(1,2) by blast
      moreover have "inj_on (\<lambda>(rid, r). normalized_room_name (rm_name r)) (set (rooms st))"
        using inv by (simp add: rooms_inv_def distinct_map)
      ultimately have "(sr_id r, rm) = (sr_id r', rm')" using r(3)
        by (elim inj_onD) simp_all
      then have "sr_id r = sr_id r'" by simp
      then show ?thesis using assms(1) r(1,2) by (auto simp: mirrors_def distinct_map inj_on_def)
    qed
    then show ?thesis using assms(1) by (auto simp: mirrors_def distinct_map inj_on_def)
  qed
  moreover have ids: "sr_id ` set (db_rooms db) = fst ` set (rooms st)"
  proof -
    have "sr_id ` set (db_rooms db) = fst ` row_meta ` set (db_rooms db)" by (simp add: row_meta_def image_image)
    then show ?thesis by (simp add: meta room_meta_def image_image case_prod_unfold)
  qed
  moreover have "length (db_rooms db) = length (rooms st)"
    using ids assms(1) keys_distinct [OF rooms_invD(1) [OF inv]]
    by (metis distinct_card length_map list.set_map mirrors_def)
  moreover have "list_all (\<lambda>(n, k). no_nul n \<and> no_nul k) (identity_rows db)"
  proof -
    have "set (identity_rows db) = set (identities st)"
      using assms(1) keys_distinct [OF server_invD(7) [OF assms(2)]] map_of_inject_set [of "identities st" "identity_rows db"]
      by (simp add: mirrors_def)
    then show ?thesis using assms(3) by (simp add: storable_def list_all_iff)
  qed
  ultimately show ?thesis
    using assms(1,3) rooms_invD(2,3) [OF inv] by (auto simp: wf_database_def mirrors_def storable_def list_all_iff)
qed

lemma mirror_unique:
  assumes "mirrors st db" "mirrors st' db" "server_inv st" "server_inv st'"
  shows "room_meta (rooms st') = room_meta (rooms st)" "identities st' = identities st" "banned_nicks st' = banned_nicks st"
proof -
  have asc: "ascending (map fst (room_meta (rooms s)))" if "server_inv s" for s
    using rooms_invD(1) [OF server_invD(1) [OF that]] by (simp add: room_meta_def comp_def case_prod_unfold)
  have eq: "xs = ys" if "ascending (map fst xs)" "ascending (map fst ys)" "set xs = set ys"
    for xs ys :: "('k::linorder \<times> 'v) list"
  proof (rule map_sorted_distinct_set_unique [of fst])
    show "inj_on fst (set xs \<union> set ys)" using that(1,3) keys_distinct [of xs] by (simp add: distinct_map)
  qed (use that keys_distinct in \<open>auto simp: strict_sorted_iff\<close>)
  show "room_meta (rooms st') = room_meta (rooms st)"
    using assms by (intro eq asc) (simp_all add: mirrors_def)
  have "map_of (identities st') = map_of (identities st)" using assms(1,2) by (simp add: mirrors_def)
  then show "identities st' = identities st"
    using server_invD(7) [OF assms(3)] server_invD(7) [OF assms(4)] keys_distinct [of "identities st"] keys_distinct [of "identities st'"]
      map_of_inject_set [of "identities st'" "identities st"]
    by (intro eq) simp_all
  show "banned_nicks st' = banned_nicks st"
    using server_invD(8) [OF assms(3)] server_invD(8) [OF assms(4)] assms(1,2)
    by (intro sorted_distinct_set_unique) (auto simp: strict_sorted_iff mirrors_def)
qed


text \<open>A new database, after its migration.\<close>

definition new_database :: database where
  "new_database = the (migrate 0 empty_database)"

lemma new_database_eq: "new_database = \<lparr>db_version = 3, db_rooms = [\<lparr>sr_id = 1, sr_name = ''lobby'',
    sr_topic = ''Welcome to the lobby'', sr_owner = [], sr_created_at = 0\<rparr>], db_identities = [], db_bans = [], db_messages = [], db_imports = []\<rparr>"
  by (simp add: new_database_def migrate_def empty_database_def create_tables_def add_owner_column_def create_imports_table_def
      SCHEMA_VERSION_def Let_def)

lemma new_database_wf: "wf_database new_database"
proof -
  have "is_valid_room_name ''lobby''" "is_valid_room_topic ''Welcome to the lobby''"
    by (simp_all add: is_valid_room_name_def is_valid_room_topic_def protocol_limits ctype_defs byte_def)
  then show ?thesis
    by (simp add: wf_database_def new_database_eq wf_row_def no_nul_def identity_rows_def DEFAULT_ROOM_ID_def protocol_limits)
qed


end
