(* ===== verification/Dedicated_Server.thy ===== *)
theory Dedicated_Server
  imports Server_Browser Commands Trust_Store Restart
begin

text \<open>
  \<open>app/dedicated_server.cpp\<close>: the command line of the dedicated server, its start and its
  administrator's console, and the console of the directory. \<open>std::cout\<close> is the list of lines
  written. The database, the listening socket, UPnP and the addresses of the machine are the record
  \<open>startup_env\<close>; threads and the event loop are the environment.

  Shown: the server only runs without TLS when it was asked to, never with TLS but without a
  certificate and key, and always with a history limit the storage accepts; and whatever the
  administrator types, the server stays in a reachable state.
\<close>

section \<open>Configuration\<close>

record server_config =
  tls_enabled :: bool
  certificate_path :: string
  private_key_path :: string

record dedicated_config =
  dc_port :: u16
  dc_password :: string
  dc_logfile :: string
  dc_database :: string
  dc_bans_file :: string
  dc_identities_file :: string
  dc_browser_host :: string
  dc_browser_name :: string
  dc_browser_public_host :: string
  dc_history_limit :: nat
  dc_enable_logging :: bool
  dc_log_to_stdout_only :: bool
  dc_enable_upnp :: bool
  dc_publish_to_browser :: bool
  dc_tls :: server_config
  dc_browser_tls :: client_config

definition default_client_config :: "trust_env \<Rightarrow> client_config" where
  "default_client_config V = \<lparr>enabled = True, ca_path = [], expected_fingerprint = [],
     trust_store_path = default_trust_store_path V, trust_on_first_use = True, confirm_certificate = None\<rparr>"

definition default_dedicated_config :: "trust_env \<Rightarrow> dedicated_config" where
  "default_dedicated_config V = \<lparr>dc_port = 0, dc_password = [], dc_logfile = ''chatlog.txt'', dc_database = [],
     dc_bans_file = ''bans.txt'', dc_identities_file = ''identities.txt'', dc_browser_host = [],
     dc_browser_name = ''chatbox dedicated server'', dc_browser_public_host = [], dc_history_limit = SERVER_HISTORY_LIMIT,
     dc_enable_logging = True, dc_log_to_stdout_only = False, dc_enable_upnp = True, dc_publish_to_browser = False,
     dc_tls = \<lparr>tls_enabled = True, certificate_path = [], private_key_path = []\<rparr>,
     dc_browser_tls = default_client_config V\<rparr>"

section \<open>The command line\<close>

definition parse_port :: "string \<Rightarrow> u16 option" where
  "parse_port s =
     (case stoi s of
        None \<Rightarrow> None
      | Some (v, consumed) \<Rightarrow> if consumed \<noteq> length s \<or> v < 0 \<or> v > 65535 then None else Some (of_int v))"

definition parse_browser_address :: "string \<Rightarrow> string option" where
  "parse_browser_address s =
     (let host = sanitize_browser_field s HOST_MAX_LEN in
      if host = [] then None else if CHR '':'' \<in> set host then None else Some host)"

text \<open>\<open>std::stoul\<close>: what follows the digits is ignored, and a negative number wraps around.\<close>

definition stoul :: "string \<Rightarrow> nat option" where
  "stoul s =
     (let r = dropWhile isspace s;
          sign = (if r \<noteq> [] \<and> (hd r = CHR ''-'' \<or> hd r = CHR ''+'') then 1 else 0);
          ds = takeWhile isdigit (drop sign r);
          v = dec_value ds
      in if ds = [] \<or> v \<ge> 2 ^ 64 then None
         else Some (if r \<noteq> [] \<and> hd r = CHR ''-'' then (2 ^ 64 - v) mod 2 ^ 64 else v))"

text \<open>Options without a value.\<close>

definition switch_option :: "string \<Rightarrow> dedicated_config \<Rightarrow> dedicated_config option" where
  "switch_option arg c =
     (if arg = ''--no-upnp'' then Some (c\<lparr>dc_enable_upnp := False\<rparr>)
      else if arg = ''--no-log'' then Some (c\<lparr>dc_enable_logging := False\<rparr>)
      else if arg = ''--log-stdout'' then Some (c\<lparr>dc_enable_logging := True, dc_log_to_stdout_only := True\<rparr>)
      else if arg = ''--allow-plaintext'' then Some (c\<lparr>dc_tls := (dc_tls c)\<lparr>tls_enabled := False\<rparr>\<rparr>)
      else if arg = ''--require-tls'' then Some (c\<lparr>dc_tls := (dc_tls c)\<lparr>tls_enabled := True\<rparr>\<rparr>)
      else if arg = ''--browser-plaintext'' then Some (c\<lparr>dc_browser_tls := (dc_browser_tls c)\<lparr>enabled := False\<rparr>\<rparr>)
      else None)"

definition value_options :: "string list" where
  "value_options = [''--password'', ''--log'', ''--identities'', ''--database'', ''--tls-cert'', ''--tls-key'',
     ''--history-limit'', ''--import-bans'', ''--import-identities'', ''--browser-tls-ca'', ''--tls-ca'',
     ''--browser-trust-fingerprint'', ''--browser-trust-store'', ''--publish'', ''--name'', ''--public-host'']"

text \<open>Options with a value: the new configuration, or the error and whether the usage is shown with it.\<close>

definition set_option :: "string \<Rightarrow> string \<Rightarrow> dedicated_config \<Rightarrow> (string \<times> bool) + dedicated_config" where
  "set_option arg v c =
     (if arg = ''--password'' then Inr (c\<lparr>dc_password := v\<rparr>)
      else if arg = ''--log'' then Inr (c\<lparr>dc_logfile := v, dc_enable_logging := True, dc_log_to_stdout_only := False\<rparr>)
      else if arg = ''--database'' then Inr (c\<lparr>dc_database := v\<rparr>)
      else if arg = ''--history-limit''
      then (case stoul v of
              None \<Rightarrow> Inl (''--history-limit must be between 1 and 500'', False)
            | Some n \<Rightarrow> if n < 1 \<or> n > MAX_HISTORY_PAGE
                then Inl (''--history-limit must be between 1 and 500'', False) else Inr (c\<lparr>dc_history_limit := n\<rparr>))
      else if arg = ''--tls-cert''
      then Inr (c\<lparr>dc_tls := (dc_tls c)\<lparr>certificate_path := v, tls_enabled := True\<rparr>\<rparr>)
      else if arg = ''--tls-key''
      then Inr (c\<lparr>dc_tls := (dc_tls c)\<lparr>private_key_path := v, tls_enabled := True\<rparr>\<rparr>)
      else if arg = ''--import-bans'' then Inr (c\<lparr>dc_bans_file := v\<rparr>)
      else if arg = ''--import-identities'' then Inr (c\<lparr>dc_identities_file := v\<rparr>)
      else if arg = ''--identities'' then Inr (c\<lparr>dc_identities_file := v\<rparr>)
      else if arg = ''--browser-tls-ca'' \<or> arg = ''--tls-ca''
      then Inr (c\<lparr>dc_browser_tls := (dc_browser_tls c)\<lparr>ca_path := v\<rparr>\<rparr>)
      else if arg = ''--browser-trust-fingerprint''
      then Inr (c\<lparr>dc_browser_tls := (dc_browser_tls c)\<lparr>expected_fingerprint := v\<rparr>\<rparr>)
      else if arg = ''--browser-trust-store''
      then Inr (c\<lparr>dc_browser_tls := (dc_browser_tls c)\<lparr>trust_store_path := v\<rparr>\<rparr>)
      else if arg = ''--publish''
      then (case parse_browser_address v of
              None \<Rightarrow> Inl (''Invalid browser address'', True)
            | Some host \<Rightarrow> Inr (c\<lparr>dc_browser_host := host, dc_publish_to_browser := True\<rparr>))
      else if arg = ''--name''
      then (let name = sanitize_browser_field v BROWSER_NAME_MAX_LEN
            in Inr (c\<lparr>dc_browser_name := (if name = [] then ''chatbox dedicated server'' else name)\<rparr>))
      else Inr (c\<lparr>dc_browser_public_host := sanitize_browser_field v HOST_MAX_LEN\<rparr>))"

text \<open>\<open>ExitCode code error usage\<close>: the program ends; \<open>Run\<close>: it goes on to \<open>run_dedicated_server_config\<close>.\<close>

datatype parsed_args = ExitCode int string bool | Run dedicated_config

definition plain_argument ::
  "string \<Rightarrow> bool \<Rightarrow> bool \<Rightarrow> dedicated_config \<Rightarrow> string + bool \<times> bool \<times> dedicated_config" where
  "plain_argument arg password_set log_set c =
     (if take 2 arg = ''--'' then Inl (''Unknown option: '' @ arg)
      else if \<not> password_set then Inr (True, log_set, c\<lparr>dc_password := arg\<rparr>)
      else if \<not> log_set then Inr (password_set, True, c\<lparr>dc_logfile := arg\<rparr>)
      else Inl (''Unknown option: '' @ arg))"

fun parse_args :: "string list \<Rightarrow> bool \<Rightarrow> bool \<Rightarrow> dedicated_config \<Rightarrow> parsed_args" where
  "parse_args [] password_set log_set c = Run c"
| "parse_args (arg # rest) password_set log_set c =
     (case switch_option arg c of
        Some c \<Rightarrow> parse_args rest password_set log_set c
      | None \<Rightarrow>
          if arg \<in> set value_options
          then (case rest of
                  [] \<Rightarrow> ExitCode 1 (arg @ '' requires a value'') True
                | v # rest \<Rightarrow>
                    (case set_option arg v c of
                       Inl (error, usage) \<Rightarrow> ExitCode 1 error usage
                     | Inr c \<Rightarrow> parse_args rest (password_set \<or> arg = ''--password'') (log_set \<or> arg = ''--log'') c))
          else if arg = ''--help'' \<or> arg = ''-h'' then ExitCode 0 [] True
          else case plain_argument arg password_set log_set c of
                 Inl error \<Rightarrow> ExitCode 1 error True
               | Inr (password_set, log_set, c) \<Rightarrow> parse_args rest password_set log_set c)"

definition run_dedicated_server :: "trust_env \<Rightarrow> string list \<Rightarrow> parsed_args" where
  "run_dedicated_server V argv =
     (if length argv < 3 then ExitCode 1 [] True
      else case parse_port (argv ! 2) of
        None \<Rightarrow> ExitCode 1 (''Invalid port number: '' @ argv ! 2) False
      | Some port \<Rightarrow> parse_args (drop 3 argv) False False ((default_dedicated_config V)\<lparr>dc_port := port\<rparr>))"

section \<open>Starting\<close>

record startup_env =
  open_storage :: "string \<Rightarrow> string + persisted"
  listen_error :: "string option"
  upnp_address :: "string option"
  lan_addresses :: "string list"
  database_path :: string

text \<open>Where clients are told to connect: the configured host, the external address, a LAN address.\<close>

definition publish_host :: "startup_env \<Rightarrow> dedicated_config \<Rightarrow> string" where
  "publish_host S c =
     (let host = dc_browser_public_host c;
          host = (if dc_enable_upnp c
                  then (case upnp_address S of None \<Rightarrow> host | Some ip \<Rightarrow> if ip \<noteq> [] \<and> host = [] then ip else host)
                  else host);
          host = fold (\<lambda>addr host. if host = [] then addr else host) (lan_addresses S) host
      in if host = [] then ''127.0.0.1'' else host)"

definition published_entry :: "startup_env \<Rightarrow> dedicated_config \<Rightarrow> browser_entry" where
  "published_entry S c = \<lparr>be_name = dc_browser_name c, be_host = publish_host S c, be_port = dc_port c,
     be_has_password = (dc_password c \<noteq> []), be_uses_tls = tls_enabled (dc_tls c), be_users = 0, be_updated_at = 0\<rparr>"

definition run_dedicated_server_config ::
  "environment \<Rightarrow> startup_env \<Rightarrow> dedicated_config \<Rightarrow> string + chat_server \<times> publisher option" where
  "run_dedicated_server_config E S c =
     (if tls_enabled (dc_tls c) \<and> (certificate_path (dc_tls c) = [] \<or> private_key_path (dc_tls c) = [])
      then Inl ''TLS is required by default. Supply --tls-cert and --tls-key, or explicitly use --allow-plaintext.''
      else case open_storage S (if dc_database c = [] then database_path S else dc_database c) of
        Inl error \<Rightarrow> Inl (''Could not initialize server database: '' @ error)
      | Inr P \<Rightarrow>
          (case listen_error S of
             Some error \<Rightarrow> Inl (''Could not start server: '' @ error)
           | None \<Rightarrow>
               Inr (new_chat_server E (dc_password c) (dc_enable_logging c) [] (Some P) (dc_history_limit c),
                 if dc_publish_to_browser c
                 then Some \<lparr>pub_entry = published_entry S c, pub_started = False\<rparr> else None)))"

section \<open>The administrator's console\<close>

datatype console_exit = QuitRequested | InputClosed

definition join_args :: "string list \<Rightarrow> nat \<Rightarrow> string" where
  "join_args args start = join_fields args start CHR '' ''"

definition report :: "string \<Rightarrow> chat_server \<Rightarrow> string + chat_server \<Rightarrow> string list \<times> chat_server" where
  "report success st r = (case r of Inl error \<Rightarrow> ([error], st) | Inr st' \<Rightarrow> ([success], st'))"

definition dedicated_usage :: "string list" where
  "dedicated_usage =
    [''Usage:'',
     ''  chatbox --server <port> [password] [logfile] [options]'',
     ''  chatbox --dedicated <port> [password] [logfile] [options]'',
     ''  chatbox --browser'',
     ''  chatbox --browse <browser-host>'',
     [],
     ''Options:'',
     ''  --password <password>  - set the server password'',
     ''  --log <file>           - write logs to a file'',
     ''  --database <path>      - SQLite database (default: per-user Chatbox data folder)'',
     ''  --history-limit <n>    - in-memory/join history size (1-500)'',
     ''  --import-bans <file>   - one-time import from a legacy bans file'',
     ''  --import-identities <file> - one-time import from a legacy identity file'',
     ''  --tls-cert <path>      - PEM certificate chain'',
     ''  --tls-key <path>       - PEM certificate private key'',
     ''  --require-tls          - require TLS (the default)'',
     ''  --allow-plaintext      - explicitly run without TLS'',
     ''  --publish <host>       - publish to a browser server on port 2727'',
     ''  --browser-plaintext    - explicitly publish to a plaintext browser'',
     ''  --browser-tls-ca <path> - CA file for browser TLS'',
     ''  --browser-trust-fingerprint <sha256> - pin browser certificate'',
     ''  --browser-trust-store <path> - browser TOFU fingerprint file'',
     ''  --name <name>          - room name shown in the server browser'',
     ''  --public-host <host>   - host/address clients should connect to from browser results'',
     ''  --log-stdout           - print logs only to stdout'',
     ''  --no-log               - disable chat logging'',
     ''  --no-upnp              - skip UPnP port forwarding'',
     [],
     ''Dedicated server admin commands:'',
     ''  /rooms                 - list rooms and room-local user counts'',
     ''  /create <room>         - create a room'',
     ''  /users <room>          - list users in one room'',
     ''  /topic <room> <text>   - set a room topic'',
     ''  /kick <room> <nick> [reason] - kick a user from one room'',
     ''  /ban  <nick> [reason]  - ban a user server-wide and persist it'',
     ''  /unban <nick>          - remove a persisted ban'',
     ''  /bans                  - list banned nicknames'',
     ''  /broadcast <msg>       - announce to every room'',
     ''  /quit                  - shut down the server'',
     ''  /help                  - show this help'']"

text \<open>One line of the console: what it prints, and the server.\<close>

definition admin_command :: "environment \<Rightarrow> string list \<Rightarrow> chat_server \<Rightarrow> string list \<times> chat_server" where
  "admin_command E parts st =
     (let cmd = parts ! 0; n = length parts in
      if cmd = ''/help'' then (dedicated_usage, st)
      else if cmd = ''/rooms''
      then (map (\<lambda>r. ''  - '' @ summary_name r @ '' ('' @ word_to_string (summary_user_count r) @ '')'') (room_list st), st)
      else if cmd = ''/create'' \<and> n = 2 then report (''Created room: '' @ parts ! 1) st (create_admin_room E (parts ! 1) st)
      else if cmd = ''/users'' \<and> n = 2
      then (case users_in_room (parts ! 1) st of
              Inl error \<Rightarrow> ([error], st)
            | Inr users \<Rightarrow>
                (if users = [] then [''(no users in #'' @ parts ! 1 @ '')''] else map (\<lambda>user. ''  - '' @ user) users, st))
      else if cmd = ''/topic'' \<and> n \<ge> 3
      then report (''Updated topic for #'' @ parts ! 1) st (set_admin_topic E (parts ! 1) (join_args parts 2) st)
      else if cmd = ''/kick'' \<and> n \<ge> 3
      then report (''Kicked '' @ parts ! 2 @ '' from #'' @ parts ! 1) st
             (kick_user_in_named_room E (parts ! 1) (parts ! 2) (join_args parts 3) st)
      else if cmd = ''/ban'' \<and> n \<ge> 2
      then ([''Banned: '' @ parts ! 1], ban_user E (parts ! 1) (join_args parts 2) st)
      else if cmd = ''/unban'' \<and> n \<ge> 2
      then (let (removed, st) = unban_user (parts ! 1) st
            in ([(if removed then ''Unbanned: '' else ''Not in ban list: '') @ parts ! 1], st))
      else if cmd = ''/bans''
      then (if ban_list st = [] then [''(ban list is empty)''] else map (\<lambda>nick. ''  - '' @ nick) (ban_list st), st)
      else if cmd = ''/broadcast'' \<and> n \<ge> 2 then ([], broadcast_server E (join_args parts 1) st)
      else ([''Unknown command. Type /help for a list.''], st))"

fun admin_loop :: "environment \<Rightarrow> string list \<Rightarrow> string list \<times> chat_server \<Rightarrow> console_exit \<times> string list \<times> chat_server" where
  "admin_loop E [] (out, st) = (InputClosed, out, st)"
| "admin_loop E (line # rest) (out, st) =
     (let parts = split line CHR '' '' in
      if line = [] \<or> parts = [] then admin_loop E rest (out, st)
      else if parts ! 0 = ''/quit'' \<or> parts ! 0 = ''/exit'' then (QuitRequested, out, st)
      else let (lines, st) = admin_command E parts st in admin_loop E rest (out @ lines, st))"

definition admin_console :: "environment \<Rightarrow> string list \<Rightarrow> chat_server \<Rightarrow> console_exit \<times> string list \<times> chat_server" where
  "admin_console E input st = admin_loop E input (dedicated_usage, st)"

section \<open>The directory's console\<close>

definition browser_entry_summary :: "int \<Rightarrow> browser_entry \<Rightarrow> string" where
  "browser_entry_summary now e = be_name e @ '' | '' @ be_host e @ '':'' @ nat_to_string (unat (be_port e))
     @ '' | users '' @ int_to_string (be_users e)
     @ (if be_has_password e then '' | password'' else '' | open'')
     @ (if be_uses_tls e then '' | TLS'' else '' | plaintext'')
     @ '' | seen '' @ int_to_string (max 0 (whole_seconds (now - be_updated_at e))) @ ''s ago''"

definition browser_usage :: "string list" where
  "browser_usage = [''Server browser commands:'', ''  /servers               - list published servers'',
     ''  /quit                  - shut down the browser server'', ''  /help                  - show this help'']"

text \<open>Every line comes with the readings of the clock its command takes, and the registry at that moment.\<close>

fun browser_loop :: "(string \<times> int \<times> (nat \<Rightarrow> int) \<times> registry) list \<Rightarrow> string list \<Rightarrow> console_exit \<times> string list" where
  "browser_loop [] out = (InputClosed, out)"
| "browser_loop ((line, now, clock, entries) # rest) out =
     (if line = ''/quit'' \<or> line = ''/exit'' then (QuitRequested, out)
      else if line = ''/help'' then browser_loop rest (out @ browser_usage)
      else if line = ''/servers''
      then (let es = browser_entries now entries
            in browser_loop rest (out @ (if es = [] then [''(no servers published)'']
                 else map (\<lambda>(i, e). ''  - '' @ browser_entry_summary (clock i) e) (enumerate 0 es))))
      else if line \<noteq> [] then browser_loop rest (out @ [''Unknown command. Type /help for a list.''])
      else browser_loop rest out)"

definition browser_console :: "(string \<times> int \<times> (nat \<Rightarrow> int) \<times> registry) list \<Rightarrow> console_exit \<times> string list" where
  "browser_console input = browser_loop input browser_usage"

definition run_browser_list :: "(nat \<Rightarrow> int) \<Rightarrow> string + browser_entry list \<Rightarrow> string + string list" where
  "run_browser_list clock r =
     (case r of
        Inl error \<Rightarrow> Inl (''Could not query browser server: '' @ error)
      | Inr entries \<Rightarrow>
          Inr (if entries = [] then [''(no servers published)'']
               else map (\<lambda>(i, e). nat_to_string (i + 1) @ ''. '' @ browser_entry_summary (clock i) e) (enumerate 0 entries)))"

section \<open>What every accepted command line gives\<close>

definition config_ok :: "dedicated_config \<Rightarrow> bool" where
  "config_ok c \<longleftrightarrow> 1 \<le> dc_history_limit c \<and> dc_history_limit c \<le> MAX_HISTORY_PAGE \<and>
     plain_field BROWSER_NAME_MAX_LEN (dc_browser_name c) \<and>
     (dc_publish_to_browser c \<longrightarrow> plain_field HOST_MAX_LEN (dc_browser_host c) \<and> CHR '':'' \<notin> set (dc_browser_host c))"

lemma default_name_plain: "plain_field BROWSER_NAME_MAX_LEN ''chatbox dedicated server''"
  by code_simp

lemma parse_browser_address_plain:
  "parse_browser_address s = Some host \<Longrightarrow> plain_field HOST_MAX_LEN host \<and> CHR '':'' \<notin> set host"
  by (auto simp: parse_browser_address_def Let_def sanitize_plain split: if_splits)

lemma switch_option_ok:
  assumes "switch_option arg c = Some c'" "config_ok c"
  shows "config_ok c' \<and> (tls_enabled (dc_tls c) \<and> arg \<noteq> ''--allow-plaintext'' \<longrightarrow> tls_enabled (dc_tls c'))"
  using assms unfolding switch_option_def by (auto simp: config_ok_def split: if_splits)

lemma config_ok_updates:
  assumes "config_ok c"
  shows "stoul v = Some n \<Longrightarrow> \<not> (n < 1 \<or> n > MAX_HISTORY_PAGE) \<Longrightarrow> config_ok (c\<lparr>dc_history_limit := n\<rparr>)"
    and "parse_browser_address v = Some host \<Longrightarrow> config_ok (c\<lparr>dc_browser_host := host, dc_publish_to_browser := True\<rparr>)"
    and "config_ok (c\<lparr>dc_browser_name := (if sanitize_browser_field v BROWSER_NAME_MAX_LEN = [] then ''chatbox dedicated server''
      else sanitize_browser_field v BROWSER_NAME_MAX_LEN)\<rparr>)"
proof -
  show "parse_browser_address v = Some host \<Longrightarrow> config_ok (c\<lparr>dc_browser_host := host, dc_publish_to_browser := True\<rparr>)"
    using assms parse_browser_address_plain [of v host] by (simp add: config_ok_def)
  show "config_ok (c\<lparr>dc_browser_name := (if sanitize_browser_field v BROWSER_NAME_MAX_LEN = [] then ''chatbox dedicated server''
      else sanitize_browser_field v BROWSER_NAME_MAX_LEN)\<rparr>)"
    using assms default_name_plain sanitize_plain [of v BROWSER_NAME_MAX_LEN] by (simp add: config_ok_def)
qed (use assms in \<open>simp add: config_ok_def\<close>)

lemma config_ok_other:
  assumes "config_ok c" "dc_history_limit c' = dc_history_limit c" "dc_browser_name c' = dc_browser_name c"
    "dc_publish_to_browser c' = dc_publish_to_browser c" "dc_browser_host c' = dc_browser_host c"
  shows "config_ok c'"
  using assms by (simp add: config_ok_def)

definition keeps_ok :: "dedicated_config \<Rightarrow> (string \<times> bool) + dedicated_config \<Rightarrow> bool" where
  "keeps_ok c r \<longleftrightarrow> (case r of Inl _ \<Rightarrow> True
     | Inr c' \<Rightarrow> config_ok c \<longrightarrow> config_ok c' \<and> (tls_enabled (dc_tls c) \<longrightarrow> tls_enabled (dc_tls c')))"

lemma keeps_ok_if: "keeps_ok c r \<Longrightarrow> keeps_ok c r' \<Longrightarrow> keeps_ok c (if b then r else r')"
  by simp

lemma keeps_ok_other: "keeps_ok c (set_option arg v c)"
  unfolding set_option_def Let_def
  by (intro keeps_ok_if; simp add: keeps_ok_def config_ok_updates config_ok_other split: option.split)

lemma set_option_ok:
  assumes "set_option arg v c = Inr c'" "config_ok c"
  shows "config_ok c' \<and> (tls_enabled (dc_tls c) \<longrightarrow> tls_enabled (dc_tls c'))"
  using keeps_ok_other [of c arg v] assms by (simp add: keeps_ok_def)

lemma plain_argument_ok:
  "plain_argument arg p l c = Inr (p', l', c') \<Longrightarrow> config_ok c \<Longrightarrow> config_ok c' \<and> dc_tls c' = dc_tls c"
  by (auto simp: plain_argument_def config_ok_def split: if_splits)

lemma parse_args_ok:
  "parse_args args p l c = Run c' \<Longrightarrow> config_ok c \<Longrightarrow>
     config_ok c' \<and> (tls_enabled (dc_tls c) \<and> ''--allow-plaintext'' \<notin> set args \<longrightarrow> tls_enabled (dc_tls c'))"
proof (induction args p l c rule: parse_args.induct)
  case (2 arg rest p l c)
  show ?case
  proof (cases "switch_option arg c")
    case (Some c1)
    with 2 switch_option_ok [OF Some] show ?thesis by auto
  next
    case None
    show ?thesis
    proof (cases "arg \<in> set value_options")
      case True
      then obtain v rest' c1 where "rest = v # rest'" "set_option arg v c = Inr c1"
          "parse_args rest' (p \<or> arg = ''--password'') (l \<or> arg = ''--log'') c1 = Run c'"
        using None "2.prems"(1) by (auto split: list.splits sum.splits prod.splits)
      with "2.IH" None True set_option_ok [of arg v c c1] "2.prems"(2) show ?thesis by auto
    next
      case False
      then obtain p1 l1 c1 where "plain_argument arg p l c = Inr (p1, l1, c1)" "parse_args rest p1 l1 c1 = Run c'" "arg \<noteq> ''--help''" "arg \<noteq> ''-h''"
        using None "2.prems"(1) by (auto split: sum.splits prod.splits if_splits)
      with "2.IH" None False plain_argument_ok [of arg p l c p1 l1 c1] "2.prems"(2) show ?thesis by auto
    qed
  qed
qed simp

lemma default_config_ok: "config_ok ((default_dedicated_config V)\<lparr>dc_port := port\<rparr>)"
  using default_name_plain by (simp add: config_ok_def default_dedicated_config_def SERVER_HISTORY_LIMIT_def MAX_HISTORY_PAGE_def)

text \<open>
  C13: A dedicated server starts as it was told, and safely. When the command line is accepted and
  the server starts, it is in a reachable state with the password and history limit of the
  configuration, the limit lies between 1 and 500, without TLS only when \<open>--allow-plaintext\<close> was
  given, with TLS only with a certificate and a key; and the entry it publishes says truly whether
  it has a password and uses TLS. Assumed of the storage: what it loads is well-formed.
\<close>

theorem dedicated_start_safe:
  assumes "run_dedicated_server V argv = Run c" "run_dedicated_server_config E S c = Inr (st, pub)"
    and "\<forall>path P. open_storage S path = Inr P \<longrightarrow> wf_persisted P"
  shows "reachable E st \<and> password st = dc_password c \<and> history_limit st = dc_history_limit c \<and>
    1 \<le> dc_history_limit c \<and> dc_history_limit c \<le> 500 \<and>
    (if tls_enabled (dc_tls c) then certificate_path (dc_tls c) \<noteq> [] \<and> private_key_path (dc_tls c) \<noteq> []
     else ''--allow-plaintext'' \<in> set (drop 3 argv)) \<and>
    (case pub of None \<Rightarrow> \<not> dc_publish_to_browser c
     | Some p \<Rightarrow> be_uses_tls (pub_entry p) = tls_enabled (dc_tls c) \<and> be_has_password (pub_entry p) = has_password st)"
proof -
  obtain port where args: "parse_args (drop 3 argv) False False ((default_dedicated_config V)\<lparr>dc_port := port\<rparr>) = Run c"
    using assms(1) by (auto simp: run_dedicated_server_def split: if_splits option.splits)
  from parse_args_ok [OF args default_config_ok]
  have ok: "config_ok c" "\<not> tls_enabled (dc_tls c) \<Longrightarrow> ''--allow-plaintext'' \<in> set (drop 3 argv)"
    by (auto simp: default_dedicated_config_def)
  obtain P where P: "open_storage S (if dc_database c = [] then database_path S else dc_database c) = Inr P"
      "st = new_chat_server E (dc_password c) (dc_enable_logging c) [] (Some P) (dc_history_limit c)"
      "pub = (if dc_publish_to_browser c then Some \<lparr>pub_entry = published_entry S c, pub_started = False\<rparr> else None)"
      "tls_enabled (dc_tls c) \<Longrightarrow> certificate_path (dc_tls c) \<noteq> [] \<and> private_key_path (dc_tls c) \<noteq> []"
    using assms(2) unfolding run_dedicated_server_config_def by (auto split: if_splits sum.splits option.splits)
  have wf: "wf_persisted P" using assms(3) P(1) by blast
  have st: "reachable E st" "password st = dc_password c" "history_limit st = max 1 (dc_history_limit c)"
    unfolding P(2) using started_view [OF wf] reachable.stored [OF wf] by simp_all
  then show ?thesis
    using ok P(3,4) by (auto simp: config_ok_def MAX_HISTORY_PAGE_def published_entry_def has_password_def)
qed

theorem dedicated_start_safe_witness:
  "\<exists>V S c st pub. run_dedicated_server V [''chatbox'', ''--server'', ''4000'', ''secret'', ''--allow-plaintext''] = Run c \<and>
     run_dedicated_server_config demo_env S c = Inr (st, pub) \<and> reachable demo_env st \<and> password st = ''secret''"
proof -
  define V where "V = \<lparr>data_directory = ''/data'', create_parent_error = \<lambda>_. None, early_write_error = \<lambda>_. False, rename_error = \<lambda>_ _. None\<rparr>"
  define S where "S = \<lparr>open_storage = \<lambda>_. Inr (persisted_of 0 new_database), listen_error = None, upnp_address = None,
    lan_addresses = [], database_path = ''chat.db''\<rparr>"
  define c where "c = (default_dedicated_config V)\<lparr>dc_port := 4000, dc_password := ''secret'',
    dc_tls := \<lparr>tls_enabled = False, certificate_path = [], private_key_path = []\<rparr>\<rparr>"
  have "stoi ''4000'' = Some (4000, 4)" by code_simp
  then have "parse_port ''4000'' = Some 4000" by (simp add: parse_port_def)
  then have args: "run_dedicated_server V [''chatbox'', ''--server'', ''4000'', ''secret'', ''--allow-plaintext''] = Run c"
    by (simp add: run_dedicated_server_def switch_option_def value_options_def plain_argument_def c_def default_dedicated_config_def)
  obtain st where run: "run_dedicated_server_config demo_env S c = Inr (st, None)"
    by (simp add: run_dedicated_server_config_def S_def c_def default_dedicated_config_def)
  have "\<forall>path P. open_storage S path = Inr P \<longrightarrow> wf_persisted P"
    using wf_persisted_of [OF new_database_wf, of 0] by (simp add: S_def)
  from dedicated_start_safe [OF args run this] have "reachable demo_env st \<and> password st = ''secret''"
    by (simp add: c_def)
  with args run show ?thesis by blast
qed

section \<open>What the administrator types\<close>

lemma report_reachable:
  assumes "reachable E st" "reachable E (host_step E h st)" "host_step E h st = keep_on_error st r"
  shows "reachable E (snd (report success st r))"
  using assms by (auto simp: report_def keep_on_error_def split: sum.splits)

lemma admin_command_reachable:
  assumes "reachable E st"
  shows "reachable E (snd (admin_command E parts st))"
proof -
  have step: "reachable E (host_step E h st)" for h
    using reachable.step [OF assms, of "Host h"] by simp
  have "reachable E (snd (report t st (create_admin_room E a st)))" "reachable E (snd (report t st (set_admin_topic E a b st)))"
    "reachable E (snd (report t st (kick_user_in_named_room E a b c st)))" for t a b c
    using report_reachable [OF assms step] by (metis host_step.simps)+
  moreover have "reachable E (ban_user E a b st)" "reachable E (snd (unban_user a st))" "reachable E (broadcast_server E a st)" for a b
    using step [of "BanUser a b"] step [of "UnbanUser a"] step [of "ServerBroadcast a"] by simp_all
  ultimately show ?thesis
    using assms by (auto simp: admin_command_def Let_def case_prod_unfold split: sum.split)
qed

text \<open>
  The console cannot break the server. Whatever lines the administrator types, until
  \<open>/quit\<close> or the end of the input, the server is left in a reachable state.
\<close>

theorem admin_console_reachable:
  assumes "reachable E st" "admin_console E input st = (reason, out, st')"
  shows "reachable E st'"
proof -
  have "reachable E (snd (snd (admin_loop E input (out, st))))" if "reachable E st" for out st
    using that
  proof (induction input arbitrary: out st)
    case (Cons line rest)
    then show ?case
      using admin_command_reachable [of E st "split line CHR '' ''"] by (auto simp: Let_def case_prod_unfold)
  qed simp
  from this [OF assms(1), of dedicated_usage] assms(2) show ?thesis by (simp add: admin_console_def)
qed

theorem admin_console_reachable_witness:
  "reachable demo_env (snd (snd (admin_console demo_env [''/ban bob'', ''/quit''] started)))"
proof (cases "admin_console demo_env [''/ban bob'', ''/quit''] started")
  case (fields reason out st')
  then show ?thesis
    using admin_console_reachable [OF _ fields] reachable.start [of demo_env "[]" False "[]" 100, folded started_def] by simp
qed

end
