(* ===== verification/Interactive_App.thy ===== *)
theory Interactive_App
  imports Chat_Loop Preferences Dedicated_Server
begin

text \<open>
  \<open>ui/interactive_app.cpp\<close> and the forms of \<open>ui/setup_forms.h\<close>: what happens around a chat in the terminal. The
  fields with their validators, the question about a certificate, joining with its waits, the loop that
  connects and reconnects, the invitations and the entry of a host, and what each menu does to
  the preferences. Time, keys, what other threads do to the client while a loop waits, and what came of
  an attempt to connect are arguments.

  Shown: the forms give valid nicknames and ports, a changed certificate is accepted only with the word \<open>REPLACE\<close>,
  the program reconnects on its own at most three times and never after a refusal, and the preferences can always
  be saved and read back.
\<close>

section \<open>Fields\<close>

definition port_error :: "string \<Rightarrow> string" where
  "port_error value = (if parse_port value \<noteq> None then [] else ''Enter a port from 0 to 65535.'')"

definition port_field :: curses_field where
  "port_field = field_default\<lparr>cf_label := ''Port'', cf_value := ''7777'', cf_limit := 5, cf_validate := Some port_error\<rparr>"

definition required_error :: "string \<Rightarrow> string" where
  "required_error s = (if list_all (\<lambda>c. c = CHR '' '') s then ''This field is required.'' else [])"

definition required_field :: "string \<Rightarrow> string \<Rightarrow> nat \<Rightarrow> curses_field" where
  "required_field title value limit =
     field_default\<lparr>cf_label := title, cf_value := value, cf_limit := limit, cf_validate := Some required_error\<rparr>"

definition nickname_error :: "string \<Rightarrow> string" where
  "nickname_error value = (if utils_is_valid_nickname value then []
     else ''Use 1-31 characters without spaces, | or commas.'')"

definition nickname_form :: "string \<Rightarrow> bool \<Rightarrow> curses_field list" where
  "nickname_form nick remember_me =
     [field_default\<lparr>cf_label := ''Nickname'', cf_value := nick, cf_limit := NICK_MAX_LEN, cf_validate := Some nickname_error\<rparr>,
      field_default\<lparr>cf_label := ''Remember nickname and recent servers'', cf_value := (if remember_me then ''yes'' else ''no''),
        cf_limit := 3, cf_toggle := True\<rparr>]"

text \<open>The answers of a submitted nickname form, put into the preferences.\<close>

definition apply_nickname_form :: "curses_field list \<Rightarrow> preferences \<Rightarrow> preferences" where
  "apply_nickname_form fs p =
     (let p = p\<lparr>pf_remember := (cf_value (fs ! 1) = ''yes''), pf_nickname := cf_value (fs ! 0)\<rparr>
      in if \<not> pf_remember p then p\<lparr>pf_recent := [], pf_options := []\<rparr> else p)"

section \<open>The question about a certificate\<close>

definition certificate_menu :: "string \<Rightarrow> menu_item list" where
  "certificate_menu previous =
     [\<lparr>mi_shortcut = Some CHR ''r'', mi_title = ''Reject'', mi_description = ''Return without trusting this certificate.''\<rparr>,
      \<lparr>mi_shortcut = Some CHR ''a'', mi_title = (if previous = [] then ''Accept certificate'' else ''Review replacement''),
        mi_description = ''Save this fingerprint for this address.''\<rparr>]"

definition replace_form :: "curses_field list" where
  "replace_form = [field_default\<lparr>cf_label := ''Type REPLACE to reset trust'', cf_limit := 7\<rparr>]"

text \<open>A notice with the fingerprint, the menu, and for a changed certificate the form.\<close>

definition confirm_in_terminal :: "string \<Rightarrow> keystroke list \<Rightarrow> (bool \<times> keystroke list) option" where
  "confirm_in_terminal previous ks =
     (case show_curses_notice ks of None \<Rightarrow> None
      | Some ks \<Rightarrow>
          case choose_curses_menu (certificate_menu previous) ks of None \<Rightarrow> None
          | Some (choice, ks) \<Rightarrow>
              if choice \<noteq> 1 then Some (False, ks)
              else if previous = [] then Some (True, ks)
              else case edit_curses_form replace_form ks of None \<Rightarrow> None
                   | Some (None, ks) \<Rightarrow> Some (False, ks)
                   | Some (Some fs, ks) \<Rightarrow> Some (cf_value (fs ! 0) = ''REPLACE'', ks))"

section \<open>Joining\<close>

definition explain_connection_error :: "connection_failure \<Rightarrow> string" where
  "explain_connection_error failure =
     (case failure of
        DnsFailure \<Rightarrow> ''Could not find that server address. Check the spelling and your internet connection, then try again.''
      | Refused \<Rightarrow> ''The server refused the connection. Check the port and ask the host to confirm the server is running and reachable.''
      | TimeoutFailure \<Rightarrow> ''The server did not respond in time. Check the address and port, and make sure the host is online.''
      | TlsFailure \<Rightarrow> ''The secure connection could not be verified. Check that TLS is enabled only when the server supports it, and verify its certificate details.''
      | Cancelled \<Rightarrow> ''Cancelled. You can edit the details and retry.''
      | _ \<Rightarrow> ''Could not connect. Check the server address, port, and TLS setting, then try again.'')"

text \<open>
  A turn of a waiting loop: what the network thread did to the client before \<open>ready\<close> is called, the clock, the
  key, and what it did before \<open>ready\<close> is called a last time.
\<close>

record poll =
  po_others :: "chat_client \<Rightarrow> chat_client"
  po_now :: int
  po_key :: key
  po_after :: "chat_client \<Rightarrow> chat_client"

fun wait_for_session :: "(chat_client \<Rightarrow> bool) \<Rightarrow> int \<Rightarrow> chat_client \<Rightarrow> poll list \<Rightarrow> (bool \<times> chat_client \<times> poll list) option" where
  "wait_for_session ready deadline c [] = None"
| "wait_for_session ready deadline c (p # ps) =
     (let c = po_others p c in
      if \<not> ready c \<and> po_now p < deadline
      then if is_byte 27 (po_key p) then Some (False, c, ps) else wait_for_session ready deadline c ps
      else let c = po_after p c in Some (ready c, c, ps))"

text \<open>The times at which the waits begin, in nanoseconds, the keys of the password prompt, and what the network does meanwhile.\<close>

record join_env =
  je_start :: "nat \<Rightarrow> int"
  je_prompt :: "keystroke list"
  je_meanwhile :: "chat_client \<Rightarrow> chat_client"

abbreviation five_seconds :: int where
  "five_seconds \<equiv> 5000000000"

definition join_as :: "join_env \<Rightarrow> string \<Rightarrow> chat_client \<Rightarrow> poll list \<Rightarrow> (string option \<times> chat_client) option" where
  "join_as J nick c ps =
     (if \<not> cl_auth_ok c then Some (Some ''Server rejected authentication or the protocol handshake.'', c)
      else case wait_for_session cl_join_resolved (je_start J 2 + five_seconds) (client_identify nick c) ps of
        None \<Rightarrow> None
      | Some (False, c, ps) \<Rightarrow> Some (Some ''Joining timed out or was cancelled.'', c)
      | Some (True, c, ps) \<Rightarrow>
          Some (if cl_banned c then Some ''You are banned from this server.''
                else if cl_nickname_taken c then Some ''Nickname is already in use.''
                else if cl_join_failed c then Some (''Join failed: '' @ cl_join_failure_reason c)
                else None, c))"

definition join_client_session :: "join_env \<Rightarrow> string \<Rightarrow> chat_client \<Rightarrow> poll list \<Rightarrow> (string option \<times> chat_client) option" where
  "join_client_session J nick c ps =
     (case wait_for_session (\<lambda>c. cl_auth_required c \<or> cl_auth_resolved c) (je_start J 0 + five_seconds) c ps of
        None \<Rightarrow> None
      | Some (False, c, ps) \<Rightarrow> Some (Some ''Protocol handshake timed out or was cancelled.'', c)
      | Some (True, c, ps) \<Rightarrow>
          if \<not> cl_auth_required c then join_as J nick c ps
          else case prompt_curses_password ''Password'' (je_prompt J) of
            None \<Rightarrow> None
          | Some (None, ks) \<Rightarrow> Some (Some ''Joining was cancelled.'', c)
          | Some (Some pw, ks) \<Rightarrow>
              let c = client_send (Authenticate pw) (je_meanwhile J c) in
              case wait_for_session cl_auth_resolved (je_start J 1 + five_seconds) c ps of
                None \<Rightarrow> None
              | Some (False, c, ps) \<Rightarrow> Some (Some ''Authentication timed out or was cancelled.'', c)
              | Some (True, c, ps) \<Rightarrow>
                  if \<not> cl_auth_ok c then Some (Some ''Authentication failed. Wrong password.'', c)
                  else join_as J nick c ps)"

section \<open>Connecting and reconnecting\<close>

text \<open>
  What comes of one turn of the loop: whether the delay before it was waited for, why connecting failed, whether the user
  wants to retry then, why joining failed, how the chat ended, whether the server had kicked or banned the user, and the
  room at the end.
\<close>

record connect_attempt =
  at_delayed :: bool
  at_failure :: "connection_failure option"
  at_retry :: bool
  at_join_error :: "string option"
  at_exit :: chat_exit
  at_denied :: bool
  at_room :: string

datatype session_event =
    Waited nat | WaitCancelled nat | ConnectFailed connection_failure | Asked bool
  | Connected | JoinRefused string | Rejoined string | Chatted

fun connect_loop ::
  "recent_server \<Rightarrow> bool \<Rightarrow> nat \<Rightarrow> string \<Rightarrow> connect_attempt list \<Rightarrow> preferences \<Rightarrow> (session_event list \<times> preferences) option" where
  "connect_loop server reconnecting retries restore_room [] p = None"
| "connect_loop server reconnecting retries restore_room (a # as) p =
     (if reconnecting \<and> \<not> at_delayed a then Some ([WaitCancelled (retries + 1)], p)
      else let retries = (if reconnecting then retries + 1 else retries);
               before = (if reconnecting then [Waited retries] else [])
           in case at_failure a of
                Some failure \<Rightarrow>
                  if reconnecting \<and> retries < 3 \<and> failure \<noteq> TlsFailure \<and> failure \<noteq> Cancelled
                  then map_option (apfst (\<lambda>es. before @ [ConnectFailed failure] @ es))
                         (connect_loop server reconnecting retries restore_room as p)
                  else if failure = Cancelled then Some (before @ [ConnectFailed failure], p)
                  else if \<not> at_retry a then Some (before @ [ConnectFailed failure, Asked False], p)
                  else map_option (apfst (\<lambda>es. before @ [ConnectFailed failure, Asked True] @ es))
                         (connect_loop server False 0 restore_room as p)
              | None \<Rightarrow>
                  case at_join_error a of
                    Some error \<Rightarrow> Some (before @ [Connected, JoinRefused error], p)
                  | None \<Rightarrow>
                      let p = (if pf_remember p then remember_server server p else p);
                          events = before @ [Connected] @
                            (if restore_room \<noteq> [] \<and> restore_room \<noteq> ''lobby'' then [Rejoined restore_room] else []) @ [Chatted]
                      in if at_exit a = ChatLeft \<or> at_denied a then Some (events, p)
                         else map_option (apfst (\<lambda>es. events @ es)) (connect_loop server True 0 (at_room a) as p))"

text \<open>The entry for the list of recent servers.\<close>

definition joined_server :: "string \<Rightarrow> u16 \<Rightarrow> client_config \<Rightarrow> recent_server" where
  "joined_server host port config = \<lparr>rs_name = host, rs_host = host, rs_port = port, rs_tls = enabled config,
     rs_ca_path = ca_path config, rs_fingerprint = expected_fingerprint config\<rparr>"

section \<open>Hosting\<close>

text \<open>The invitations of the summary: local addresses, the public one if there is one, this computer.\<close>

definition invite_for :: "u16 \<Rightarrow> bool \<Rightarrow> string \<Rightarrow> string \<Rightarrow> string \<Rightarrow> invite" where
  "invite_for port tls room_password fingerprint address =
     \<lparr>invite_host = address, invite_port = port, invite_tls = tls, invite_password_required = (room_password \<noteq> []),
      invite_fingerprint = (if tls then fingerprint else [])\<rparr>"

definition hosting_addresses :: "string list \<Rightarrow> string \<Rightarrow> (string \<times> string) list" where
  "hosting_addresses local public =
     map (\<lambda>a. (a, ''LAN'')) local @
     (if public \<noteq> [] then [(public, ''Public/advertised (unverified)'')] else []) @
     [(''localhost'', ''This computer only'')]"

definition hosted_entry :: "string \<Rightarrow> string \<Rightarrow> string \<Rightarrow> u16 \<Rightarrow> string \<Rightarrow> bool \<Rightarrow> browser_entry" where
  "hosted_entry nick name public port room_password tls =
     \<lparr>be_name = (if name = [] then nick @ CHR 0x27 # ''s room'' else sanitize_browser_field name BROWSER_NAME_MAX_LEN),
      be_host = (if public = [] then ''127.0.0.1'' else public), be_port = port, be_has_password = (room_password \<noteq> []),
      be_uses_tls = tls, be_users = 0, be_updated_at = 0\<rparr>"

section \<open>Certificates\<close>

lemma menu_suffix:
  assumes "choose_curses_menu items ks = Some (choice, rest)" "items \<noteq> []"
  shows "\<exists>used. ks = used @ rest"
  using menu_loop_result [of items 0 ks choice rest] assms by (auto simp: choose_curses_menu_def)

lemma replace_form_typed:
  assumes "edit_curses_form replace_form ks = Some (Some fs, rest)" "cf_value (fs ! 0) = ''REPLACE''"
  shows "set ''REPLACE'' \<subseteq> typed_chars ks"
proof -
  have "filled replace_form fs"
    using submitted_filled [OF assms(1)] by (simp add: replace_form_def value_ok_def field_default_def)
  then have "length fs = length replace_form" by (rule filled_length)
  then have "fs ! 0 \<in> set fs" by (simp add: replace_form_def)
  from submitted_chars [OF assms(1) this] assms(2) show ?thesis
    by (simp add: replace_form_def field_default_def)
qed

text \<open>
  Accepting a changed certificate takes the word. When a different certificate was trusted before, the question is
  answered with yes only if all letters of \<open>REPLACE\<close> have been typed; and whether or not one was trusted before,
  closing the notice and pressing Enter on the menu rejects the certificate.
\<close>

theorem changed_certificate_needs_word:
  assumes "previous \<noteq> []"
  shows "(\<forall>rest. confirm_in_terminal previous ks = Some (True, rest) \<longrightarrow> set ''REPLACE'' \<subseteq> typed_chars ks) \<and>
    (\<forall>old. confirm_in_terminal old (press KEY_ENTER # press KEY_ENTER # ks) = Some (False, ks))"
proof (intro conjI allI impI)
  fix rest
  assume "confirm_in_terminal previous ks = Some (True, rest)"
  with assms obtain ks1 ks2 fs where notice: "show_curses_notice ks = Some ks1"
    and menu: "choose_curses_menu (certificate_menu previous) ks1 = Some (1, ks2)"
    and form: "edit_curses_form replace_form ks2 = Some (Some fs, rest)" "cf_value (fs ! 0) = ''REPLACE''"
    by (auto simp: confirm_in_terminal_def split: option.splits if_splits prod.splits)
  have "set ks2 \<subseteq> set ks"
    using show_curses_notice_suffix [OF notice] menu_suffix [OF menu] by (auto simp: certificate_menu_def)
  from replace_form_typed [OF form] typed_chars_mono [OF this] show "set ''REPLACE'' \<subseteq> typed_chars ks" by (rule subset_trans)
next
  fix old
  show "confirm_in_terminal old (press KEY_ENTER # press KEY_ENTER # ks) = Some (False, ks)"
    by (simp add: confirm_in_terminal_def choose_curses_menu_def certificate_menu_def menu_key_press)
      (simp add: press_def is_enter_def)
qed

theorem changed_certificate_needs_word_witness:
  "confirm_in_terminal ''AB'' [press KEY_ENTER, press KEY_ENTER] = Some (False, [])"
  using changed_certificate_needs_word [of "''AB''" "[]"] by simp

section \<open>Reconnecting\<close>

definition counted_after :: "session_event \<Rightarrow> nat \<Rightarrow> bool" where
  "counted_after a n \<longleftrightarrow> n = 1 \<and> a = Chatted \<or>
     (n = 2 \<or> n = 3) \<and> (\<exists>failure. a = ConnectFailed failure \<and> failure \<noteq> TlsFailure \<and> failure \<noteq> Cancelled)"

text \<open>Which events may follow each other.\<close>

definition may_follow :: "session_event \<Rightarrow> session_event \<Rightarrow> bool" where
  "may_follow a b \<longleftrightarrow> (case b of Waited n \<Rightarrow> counted_after a n | WaitCancelled n \<Rightarrow> counted_after a n | _ \<Rightarrow> True) \<and>
     (\<forall>error. a \<noteq> JoinRefused error) \<and> a \<noteq> Asked False \<and> a \<noteq> ConnectFailed Cancelled"

lemma may_follow_simps [simp]:
  "may_follow (Waited n) (ConnectFailed f)" "may_follow (Waited n) Connected" "may_follow Connected (JoinRefused e)"
  "may_follow Connected (Rejoined r)" "may_follow (Rejoined r) Chatted" "may_follow Connected Chatted"
  "may_follow (ConnectFailed f) (Asked b) \<longleftrightarrow> f \<noteq> Cancelled"
  by (auto simp: may_follow_def)

definition begins_with :: "bool \<Rightarrow> nat \<Rightarrow> session_event list \<Rightarrow> bool" where
  "begins_with reconnecting n es \<longleftrightarrow> es \<noteq> [] \<and>
     (if reconnecting then hd es = Waited n \<or> hd es = WaitCancelled n
      else hd es = Connected \<or> (\<exists>failure. hd es = ConnectFailed failure))"

lemma may_follow_begin:
  "begins_with True n es \<Longrightarrow> may_follow a (hd es) \<longleftrightarrow>
     counted_after a n \<and> (\<forall>error. a \<noteq> JoinRefused error) \<and> a \<noteq> Asked False \<and> a \<noteq> ConnectFailed Cancelled"
  "begins_with False n es \<Longrightarrow> may_follow (Asked True) (hd es)"
  by (auto simp: begins_with_def may_follow_def)

lemma connect_loop_discipline:
  "connect_loop server reconnecting retries room as p = Some (es, p') \<Longrightarrow> (reconnecting \<Longrightarrow> retries < 3) \<Longrightarrow>
     begins_with reconnecting (retries + 1) es \<and> successively may_follow es"
proof (induction server reconnecting retries room as p arbitrary: es p' rule: connect_loop.induct)
  case (2 server reconnecting retries room a as p)
  let ?retries = "if reconnecting then retries + 1 else retries"
  let ?before = "if reconnecting then [Waited ?retries] else []"
  show ?case
  proof (cases "reconnecting \<and> \<not> at_delayed a")
    case True
    with "2.prems" show ?thesis by (auto simp: begins_with_def)
  next
    case go: False
    show ?thesis
    proof (cases "at_failure a")
      case (Some failure)
      consider (auto) "reconnecting \<and> ?retries < 3 \<and> failure \<noteq> TlsFailure \<and> failure \<noteq> Cancelled"
        | (cancelled) "failure = Cancelled"
        | (asked) "\<not> (reconnecting \<and> ?retries < 3 \<and> failure \<noteq> TlsFailure \<and> failure \<noteq> Cancelled)" "failure \<noteq> Cancelled"
        by blast
      then show ?thesis
      proof cases
        case auto
        with "2.prems"(1) go Some obtain rest where rest: "connect_loop server True (retries + 1) room as p = Some (rest, p')"
          "es = [Waited (retries + 1), ConnectFailed failure] @ rest" by auto
        from "2.IH"(2) [OF go refl refl Some auto] rest(1) auto
        have "begins_with True (retries + 2) rest" "successively may_follow rest" by auto
        with rest(2) auto show ?thesis
          using "2.prems"(2) may_follow_begin(1) [of "retries + 2" rest "ConnectFailed failure"]
          by (auto simp: begins_with_def counted_after_def successively_append_iff successively_Cons)
      next
        case cancelled
        with "2.prems"(1) go Some show ?thesis by (auto simp: begins_with_def successively_append_iff split: if_splits)
      next
        case asked
        show ?thesis
        proof (cases "at_retry a")
          case True
          with "2.prems"(1) go Some asked obtain rest where rest: "connect_loop server False 0 room as p = Some (rest, p')"
            "es = ?before @ [ConnectFailed failure, Asked True] @ rest" by auto
          from "2.IH"(3) [OF go refl refl Some asked(1)] rest(1) True asked(2)
          have "begins_with False 1 rest" "successively may_follow rest" by auto
          with rest(2) asked(2) show ?thesis
            using may_follow_begin(2) [of 1 rest] by (auto simp: begins_with_def [of reconnecting] successively_append_iff successively_Cons)
        next
          case False
          with "2.prems"(1) go Some asked show ?thesis
            by (auto simp: begins_with_def successively_append_iff split: if_splits)
        qed
      qed
    next
      case None
      show ?thesis
      proof (cases "at_join_error a")
        case (Some error)
        with "2.prems"(1) go None show ?thesis by (auto simp: begins_with_def successively_append_iff split: if_splits)
      next
        case joined: None
        let ?p = "if pf_remember p then remember_server server p else p"
        let ?events = "?before @ [Connected] @ (if room \<noteq> [] \<and> room \<noteq> ''lobby'' then [Rejoined room] else []) @ [Chatted]"
        have events: "begins_with reconnecting (retries + 1) ?events" "successively may_follow ?events" "last ?events = Chatted"
          by (auto simp: begins_with_def successively_append_iff)
        show ?thesis
        proof (cases "at_exit a = ChatLeft \<or> at_denied a")
          case True
          with "2.prems"(1) go None joined have "es = ?events" by (auto simp: Let_def)
          with events show ?thesis by simp
        next
          case False
          with "2.prems"(1) go None joined obtain rest where
            rest: "connect_loop server True 0 (at_room a) as ?p = Some (rest, p')" "es = ?events @ rest" by (auto simp: Let_def)
          from "2.IH"(1) [OF go refl refl None joined refl refl False rest(1)]
          have "begins_with True 1 rest" "successively may_follow rest" by auto
          then have "successively may_follow (?events @ rest)"
            using events may_follow_begin(1) [of 1 rest Chatted]
            by (simp only: successively_append_iff events) (simp add: counted_after_def)
          with rest(2) events(1) show ?thesis by (simp add: begins_with_def)
        qed
      qed
    qed
  qed
qed simp

text \<open>How often the program has waited to try again since the last chat or question, starting from \<open>k\<close>, stays within three.\<close>

fun within_three :: "nat \<Rightarrow> session_event list \<Rightarrow> bool" where
  "within_three k [] \<longleftrightarrow> True"
| "within_three k (Waited n # es) \<longleftrightarrow> k < 3 \<and> within_three (k + 1) es"
| "within_three k (Chatted # es) \<longleftrightarrow> within_three 0 es"
| "within_three k (Asked b # es) \<longleftrightarrow> within_three 0 es"
| "within_three k (_ # es) \<longleftrightarrow> within_three k es"

definition is_waited :: "session_event \<Rightarrow> bool" where
  "is_waited e = (case e of Waited n \<Rightarrow> True | _ \<Rightarrow> False)"

lemma connect_loop_within_three:
  "connect_loop server reconnecting retries room as p = Some (es, p') \<Longrightarrow> (if reconnecting then retries = k else k = 0) \<Longrightarrow> k < 3 \<Longrightarrow>
     within_three k es"
proof (induction server reconnecting retries room as p arbitrary: es p' k rule: connect_loop.induct)
  case (2 server reconnecting retries room a as p)
  show ?case
  proof (cases "reconnecting \<and> \<not> at_delayed a")
    case go: False
    note IH = "2.IH" [OF go refl refl]
    show ?thesis
    proof (cases "at_failure a")
      case (Some failure)
      show ?thesis
      proof (cases "reconnecting \<and> retries + 1 < 3 \<and> failure \<noteq> TlsFailure \<and> failure \<noteq> Cancelled")
        case again: True
        with "2.prems"(1) go Some obtain rest where rest: "connect_loop server True (retries + 1) room as p = Some (rest, p')"
          "es = [Waited (retries + 1), ConnectFailed failure] @ rest" by (auto simp: Let_def)
        with IH(2) [OF Some, of rest p' "k + 1"] again "2.prems"(2) have "within_three (k + 1) rest" by auto
        with rest(2) "2.prems"(3) show ?thesis by simp
      next
        case asked: False
        show ?thesis
        proof (cases "failure = Cancelled \<or> \<not> at_retry a")
          case True
          with "2.prems" go Some asked show ?thesis by (auto simp: Let_def split: if_splits)
        next
          case False
          with "2.prems"(1) go Some asked obtain rest where rest: "connect_loop server False 0 room as p = Some (rest, p')"
            "es = (if reconnecting then [Waited (retries + 1)] else []) @ [ConnectFailed failure, Asked True] @ rest"
            by (auto simp: Let_def split: if_splits)
          with IH(3) [OF Some, of rest p' 0] False asked have "within_three 0 rest" by (auto split: if_splits)
          with rest(2) "2.prems"(3) show ?thesis by simp
        qed
      qed
    next
      case None
      show ?thesis
      proof (cases "at_join_error a")
        case (Some error)
        with "2.prems" go None show ?thesis by (auto simp: Let_def)
      next
        case joined: None
        show ?thesis
        proof (cases "at_exit a = ChatLeft \<or> at_denied a")
          case True
          with "2.prems" go None joined show ?thesis by (auto simp: Let_def)
        next
          case False
          let ?p = "if pf_remember p then remember_server server p else p"
          from False "2.prems"(1) go None joined obtain rest where rest: "connect_loop server True 0 (at_room a) as ?p = Some (rest, p')"
            "es = (if reconnecting then [Waited (retries + 1)] else []) @ [Connected] @
               (if room \<noteq> [] \<and> room \<noteq> ''lobby'' then [Rejoined room] else []) @ [Chatted] @ rest"
            by (auto simp: Let_def)
          from IH(1) [OF None joined refl refl False rest(1), of 0] have "within_three 0 rest" by simp
          with rest(2) "2.prems"(3) show ?thesis by simp
        qed
      qed
    qed
  qed (use 2 in auto)
qed simp

lemma within_three_segment:
  assumes "within_three k (before @ es @ later)" "k \<le> 3" "Chatted \<notin> set es" "\<And>b. Asked b \<notin> set es"
  shows "length (filter is_waited es) \<le> 3"
proof -
  have drop: "\<exists>k' \<le> 3. within_three k' rest" if "within_three k (xs @ rest)" "k \<le> 3" for k xs rest
    using that by (induction k xs rule: within_three.induct) auto
  from drop [OF assms(1,2)] obtain k' where k': "k' \<le> 3" "within_three k' (es @ later)" by blast
  have "k' + length (filter is_waited es) \<le> 3"
    using k' assms(3,4) by (induction k' es rule: within_three.induct) (auto simp: is_waited_def)
  then show ?thesis by simp
qed

lemma remember_front:
  "pf_recent (remember_server server p) \<noteq> []" "server_key (hd (pf_recent (remember_server server p))) = server_key server"
  using remember_server_keys [of server p] by (cases "pf_recent (remember_server server p)"; simp)+

definition remembered :: "recent_server \<Rightarrow> session_event list \<Rightarrow> preferences \<Rightarrow> preferences \<Rightarrow> bool" where
  "remembered server es p p' \<longleftrightarrow>
     (if pf_remember p \<and> Chatted \<in> set es
      then pf_remember p' \<and> pf_recent p' \<noteq> [] \<and> server_key (hd (pf_recent p')) = server_key server else p' = p)"

lemma remembered_chat:
  assumes "Chatted \<in> set events" "p1 = (if pf_remember p then remember_server server p else p)"
  shows "remembered server events p p1" "remembered server rest p1 p' \<Longrightarrow> remembered server (events @ rest) p p'"
proof -
  have "pf_remember (remember_server server p) = pf_remember p"
    by (simp add: remember_server_def Let_def case_prod_unfold)
  with assms remember_front [of server p] show "remembered server events p p1"
    "remembered server rest p1 p' \<Longrightarrow> remembered server (events @ rest) p p'"
    by (auto simp: remembered_def split: if_splits)
qed

lemma remembered_same [simp]: "Chatted \<notin> set es \<Longrightarrow> remembered server es p p"
  "Chatted \<notin> set es \<Longrightarrow> remembered server (es @ rest) p p' = remembered server rest p p'"
  by (simp_all add: remembered_def)

lemma connect_loop_remembers:
  "connect_loop server reconnecting retries room as p = Some (es, p') \<Longrightarrow> remembered server es p p'"
proof (induction server reconnecting retries room as p arbitrary: es p' rule: connect_loop.induct)
  case (2 server reconnecting retries room a as p)
  show ?case
  proof (cases "reconnecting \<and> \<not> at_delayed a")
    case True
    with "2.prems" show ?thesis by (auto simp: remembered_def)
  next
    case go: False
    note IH = "2.IH" [OF go refl refl]
    show ?thesis
    proof (cases "at_failure a")
      case (Some failure)
      then show ?thesis
        using "2.prems" go Some IH(2,3) [OF Some]
        by (auto simp: Let_def remembered_def split: if_splits)
    next
      case None
      show ?thesis
      proof (cases "at_join_error a")
        case (Some error)
        with "2.prems" go None show ?thesis by (auto simp: Let_def)
      next
        case joined: None
        let ?p = "if pf_remember p then remember_server server p else p"
        let ?events = "(if reconnecting then [Waited (if reconnecting then retries + 1 else retries)] else []) @ [Connected] @
          (if room \<noteq> [] \<and> room \<noteq> ''lobby'' then [Rejoined room] else []) @ [Chatted]"
        have chat: "Chatted \<in> set ?events" by simp
        show ?thesis
        proof (cases "at_exit a = ChatLeft \<or> at_denied a")
          case True
          with "2.prems" go None joined have "es = ?events" "p' = ?p" by (auto simp: Let_def)
          with remembered_chat(1) [OF chat refl] show ?thesis by simp
        next
          case False
          with "2.prems" go None joined obtain rest where
            rest: "connect_loop server True 0 (at_room a) as ?p = Some (rest, p')" "es = ?events @ rest" by (auto simp: Let_def)
          from remembered_chat(2) [OF chat refl IH(1) [OF None joined refl refl False rest(1)]] rest(2) show ?thesis by simp
        qed
      qed
    qed
  qed
qed simp

text \<open>
  C28: Reconnecting is disciplined. Whatever comes of the attempts: the first attempt is the user's; the
  program waits and tries again on its own only after a chat whose connection was lost and then
  only if connecting failed for another reason than the certificate or a cancellation; and without a chat or a question
  to the user in between it does so at most three times. After being refused, cancelling or declining
  to retry nothing more is tried. And the server is put in front of the recent servers exactly when a chat with it took
  place and the user wants that.
\<close>

theorem reconnect_discipline:
  assumes "connect_loop server False 0 [] attempts p = Some (events, p')"
  shows "successively (\<lambda>a b. (case b of
        Waited n \<Rightarrow> n = 1 \<and> a = Chatted \<or>
          (n = 2 \<or> n = 3) \<and> (\<exists>failure. a = ConnectFailed failure \<and> failure \<noteq> TlsFailure \<and> failure \<noteq> Cancelled)
      | _ \<Rightarrow> True) \<and> (\<forall>error. a \<noteq> JoinRefused error) \<and> a \<noteq> Asked False \<and> a \<noteq> ConnectFailed Cancelled) events \<and>
    (\<forall>before es later. events = before @ es @ later \<and> Chatted \<notin> set es \<and> (\<forall>b. Asked b \<notin> set es) \<longrightarrow>
      length (filter is_waited es) \<le> 3) \<and>
    events \<noteq> [] \<and> (\<forall>n. hd events \<noteq> Waited n) \<and>
    (if pf_remember p \<and> Chatted \<in> set events
     then pf_recent p' \<noteq> [] \<and> server_key (hd (pf_recent p')) = server_key server else p' = p)"
proof -
  have d: "begins_with False 1 events" "successively may_follow events"
    using connect_loop_discipline [OF assms] by auto
  have "successively (\<lambda>a b. (case b of
        Waited n \<Rightarrow> n = 1 \<and> a = Chatted \<or>
          (n = 2 \<or> n = 3) \<and> (\<exists>failure. a = ConnectFailed failure \<and> failure \<noteq> TlsFailure \<and> failure \<noteq> Cancelled)
      | _ \<Rightarrow> True) \<and> (\<forall>error. a \<noteq> JoinRefused error) \<and> a \<noteq> Asked False \<and> a \<noteq> ConnectFailed Cancelled) events"
    using d(2) by (rule successively_mono) (auto simp: may_follow_def counted_after_def split: session_event.splits)
  moreover have "within_three 0 events" using connect_loop_within_three [OF assms, of 0] by simp
  then have "length (filter is_waited es) \<le> 3"
    if "events = before @ es @ later \<and> Chatted \<notin> set es \<and> (\<forall>b. Asked b \<notin> set es)" for before es later
    using within_three_segment [of 0 before es later] that by auto
  ultimately show ?thesis using d(1) connect_loop_remembers [OF assms]
    by (auto simp: begins_with_def remembered_def split: if_splits)
qed

theorem reconnect_discipline_witness:
  "let lost = \<lparr>at_delayed = True, at_failure = None, at_retry = False, at_join_error = None, at_exit = ChatDisconnected,
         at_denied = False, at_room = ''dev''\<rparr>;
       server = hd (pf_recent demo_preferences)
   in \<exists>p'. connect_loop server False 0 [] [lost, lost\<lparr>at_failure := Some TlsFailure\<rparr>] demo_preferences =
        Some ([Connected, Chatted, Waited 1, ConnectFailed TlsFailure, Asked False], p') \<and> pf_recent p' \<noteq> []"
proof -
  let ?lost = "\<lparr>at_delayed = True, at_failure = None, at_retry = False, at_join_error = None, at_exit = ChatDisconnected,
         at_denied = False, at_room = ''dev''\<rparr>"
  let ?server = "hd (pf_recent demo_preferences)"
  have remember: "pf_remember demo_preferences" by (simp add: demo_preferences_def)
  have run: "connect_loop ?server False 0 [] [?lost, ?lost\<lparr>at_failure := Some TlsFailure\<rparr>] demo_preferences =
        Some ([Connected, Chatted, Waited 1, ConnectFailed TlsFailure, Asked False], remember_server ?server demo_preferences)"
    by (simp add: remember)
  from reconnect_discipline [OF this] have "pf_recent (remember_server ?server demo_preferences) \<noteq> []"
    by (simp add: remember)
  with run show ?thesis by (auto simp: Let_def)
qed

section \<open>Invitations of a host\<close>

text \<open>Every invitation in the summary of a host can be pasted by a guest and gives the host's settings.\<close>

lemma hosting_invites_parse:
  assumes "make_invite (invite_for port tls pw fingerprint address) = Inr s"
  shows "\<exists>i. parse_invite s = Inr i \<and> invite_host i = address \<and> invite_port i = port \<and> invite_tls i = tls \<and>
    invite_password_required i = (pw \<noteq> []) \<and> invite_fingerprint i = (if tls then normalize_fingerprint fingerprint else [])"
proof -
  from assms have valid: "validate (invite_for port tls pw fingerprint address) = None"
    by (auto simp: make_invite_def split: option.splits)
  from parse_made [OF this] assms show ?thesis by (auto simp: invite_for_def)
qed

section \<open>Preferences\<close>

text \<open>What the menus do to the preferences.\<close>

datatype preferences_event =
    NicknameSubmitted "curses_field list"
  | ServerJoined recent_server
  | ServerRenamed nat string
  | ServerRemoved nat
  | OptionSet string string

fun preferences_step :: "preferences_event \<Rightarrow> preferences \<Rightarrow> preferences" where
  "preferences_step (NicknameSubmitted fs) p = apply_nickname_form fs p"
| "preferences_step (ServerJoined server) p = (if pf_remember p then remember_server server p else p)"
| "preferences_step (ServerRenamed i name) p = p\<lparr>pf_recent := (pf_recent p)[i := (pf_recent p ! i)\<lparr>rs_name := name\<rparr>]\<rparr>"
| "preferences_step (ServerRemoved i) p = p\<lparr>pf_recent := take i (pf_recent p) @ drop (i + 1) (pf_recent p)\<rparr>"
| "preferences_step (OptionSet name value) p = p\<lparr>pf_options := map_assign name value (pf_options p)\<rparr>"

definition preferences_ok :: "preferences \<Rightarrow> bool" where
  "preferences_ok p \<longleftrightarrow> (pf_remember p \<longrightarrow> is_valid_nickname (pf_nickname p)) \<and> length (pf_recent p) \<le> 10 \<and>
     list_all storable_server (pf_recent p) \<and> ascending (map fst (pf_options p)) \<and>
     list_all (\<lambda>(n, v). no_nul n \<and> no_nul v) (pf_options p)"

text \<open>A form that was really submitted, a server that can be stored, an index of the menu, text without zero bytes.\<close>

fun preferences_allowed :: "preferences_event \<Rightarrow> preferences \<Rightarrow> bool" where
  "preferences_allowed (NicknameSubmitted fs) p \<longleftrightarrow>
     (\<exists>nick ks rest. length nick \<le> NICK_MAX_LEN \<and> edit_curses_form (nickname_form nick (pf_remember p)) ks = Some (Some fs, rest))"
| "preferences_allowed (ServerJoined server) p \<longleftrightarrow> storable_server server"
| "preferences_allowed (ServerRenamed i name) p \<longleftrightarrow> i < length (pf_recent p) \<and> no_nul name"
| "preferences_allowed (ServerRemoved i) p \<longleftrightarrow> i < length (pf_recent p)"
| "preferences_allowed (OptionSet name value) p \<longleftrightarrow> no_nul name \<and> no_nul value"

lemma nickname_form_submitted:
  assumes "edit_curses_form (nickname_form nick b) ks = Some (Some fs, rest)" "length nick \<le> NICK_MAX_LEN"
  shows "is_valid_nickname (cf_value (fs ! 0))"
proof -
  have form: "nickname_form nick b \<noteq> []" "list_all (\<lambda>f. value_ok f (cf_value f)) (nickname_form nick b)"
    using assms(2) by (simp_all add: nickname_form_def value_ok_def field_default_def)
  note filled = submitted_filled [OF assms(1) this]
  have len: "length fs = 2" using filled_length [OF filled(1)] by (simp add: nickname_form_def)
  have "cf_validate (fs ! 0) = cf_validate (nickname_form nick b ! 0)"
    using arg_cong [OF conjunct1 [OF filled_nth [OF filled(1), of 0]], of cf_validate] by (simp add: nickname_form_def)
  then have "cf_validate (fs ! 0) = Some nickname_error" by (simp add: nickname_form_def)
  moreover have "field_error (fs ! 0) = []" using filled(2) len by (simp add: list_all_length)
  ultimately show ?thesis
    by (simp add: field_error_def nickname_error_def utils_is_valid_nickname_eq split: if_splits)
qed

lemma storable_remember:
  assumes "list_all storable_server (pf_recent p)" "storable_server server"
  shows "list_all storable_server (pf_recent (remember_server server p))" "length (pf_recent (remember_server server p)) \<le> 10"
proof -
  have "storable_server (fst (take_over_name server l)) \<and> list_all storable_server (snd (take_over_name server l))"
    if "list_all storable_server l" for l
    using that assms(2) by (induction l) (auto simp: storable_server_def Let_def case_prod_unfold)
  with assms(1) show "list_all storable_server (pf_recent (remember_server server p))"
    by (auto simp: remember_server_def Let_def case_prod_unfold list_all_iff dest: in_set_takeD)
  show "length (pf_recent (remember_server server p)) \<le> 10"
    by (simp add: remember_server_def Let_def case_prod_unfold)
qed

lemma no_nul_assign:
  "list_all (\<lambda>(n, v). no_nul n \<and> no_nul v) m \<Longrightarrow> no_nul k \<Longrightarrow> no_nul v \<Longrightarrow>
     list_all (\<lambda>(n, v). no_nul n \<and> no_nul v) (map_assign k v m)"
  by (induction m) auto

lemma preferences_step_ok:
  assumes "preferences_ok p" "preferences_allowed e p"
  shows "preferences_ok (preferences_step e p)"
proof (cases e)
  case (NicknameSubmitted fs)
  with assms(2) have "is_valid_nickname (cf_value (fs ! 0))" by (auto dest: nickname_form_submitted)
  with assms(1) NicknameSubmitted show ?thesis by (simp add: preferences_ok_def apply_nickname_form_def Let_def)
next
  case (ServerJoined server)
  have "pf_remember (remember_server server p) = pf_remember p" "pf_nickname (remember_server server p) = pf_nickname p"
    "pf_options (remember_server server p) = pf_options p"
    by (simp_all add: remember_server_def Let_def case_prod_unfold)
  with assms ServerJoined storable_remember [of p server] show ?thesis by (simp add: preferences_ok_def)
next
  case (ServerRenamed i name)
  with assms show ?thesis
    by (auto simp: preferences_ok_def list_all_length nth_list_update storable_server_def)
next
  case (ServerRemoved i)
  with assms show ?thesis
    by (auto simp: preferences_ok_def list_all_iff dest: in_set_takeD in_set_dropD)
next
  case (OptionSet name v)
  with assms show ?thesis by (auto simp: preferences_ok_def no_nul_assign)
qed

interpretation preferences_machine: invariant_machine preferences_step preferences_ok preferences_allowed
  by unfold_locales (rule preferences_step_ok)

text \<open>
  The preferences can always be saved and read back. Starting without preferences, after any sequence of
  submitted nickname forms, joins, renamed and removed servers and changed settings, at every point where the user wants to
  be remembered a committed save is followed by a load that gives the same nickname and the same recent servers.
\<close>

theorem preferences_survive:
  assumes "preferences_machine.run no_preferences p" "pf_remember p"
  shows "\<exists>db p'. save_preferences Commits p file = (True, Some db) \<and> load_preferences True (Some db) = Some p' \<and>
    pf_remember p' \<and> pf_nickname p' = pf_nickname p \<and> pf_recent p' = pf_recent p"
proof -
  have "preferences_ok no_preferences" by (simp add: preferences_ok_def no_preferences_def)
  with assms(1) have "preferences_ok p" by (rule preferences_machine.run_inv)
  with assms(2) have "storable_preferences p" by (simp add: preferences_ok_def storable_preferences_def)
  with saved_tables_plain [OF this assms(2)] load_saved [OF this assms(2)] assms(2) show ?thesis
    by (simp add: save_preferences_def)
qed

theorem preferences_survive_witness:
  "\<exists>db p'. save_preferences Commits (apply_nickname_form (nickname_form ''ann'' True) no_preferences) None = (True, Some db) \<and>
     load_preferences True (Some db) = Some p' \<and> pf_nickname p' = ''ann''"
proof -
  let ?fs = "nickname_form ''ann'' True"
  have form: "edit_curses_form (nickname_form ''ann'' (pf_remember no_preferences)) [press KEY_ENTER, press (Byte CHR ''y''), press KEY_ENTER] =
      Some (Some ?fs, [])"
    by (simp add: edit_curses_form_def nickname_form_def form_key_def submit_form_def keep_value_def move_in_form_def
        select_field_def field_error_def nickname_error_def utils_is_valid_nickname_eq is_valid_nickname_def ctype_defs byte_def
        is_enter_def is_byte_def small_screen_def press_def field_default_def toggle_key_def ed_set_def no_preferences_def Let_def)
  then have "preferences_allowed (NicknameSubmitted ?fs) no_preferences"
    unfolding preferences_allowed.simps by (intro exI conjI) (auto simp: NICK_MAX_LEN_def)
  then have "preferences_machine.run no_preferences (preferences_step (NicknameSubmitted ?fs) no_preferences)"
    by (intro preferences_machine.run.more preferences_machine.run.start)
  moreover have "pf_remember (apply_nickname_form ?fs no_preferences)" "pf_nickname (apply_nickname_form ?fs no_preferences) = ''ann''"
    by (simp_all add: apply_nickname_form_def nickname_form_def Let_def no_preferences_def)
  ultimately show ?thesis using preferences_survive [of "apply_nickname_form ?fs no_preferences" None] by fastforce
qed

end
