(* ===== verification/Host_Files.thy ===== *)
theory Host_Files
  imports Dedicated_Server
begin

text \<open>
  The files a host needs: the certificate and key of \<open>ensure_host_certificate\<close> (\<open>network/tls.cpp\<close>) and the database
  of \<open>chatbox_database_path\<close> (\<open>common/utils.cpp\<close>). The files are their contents and whether only
  their owner may read them. OpenSSL is the record \<open>openssl\<close>: the key it generates, the certificate it makes of it,
  what it says of a pair of files, and the digest of a certificate; it also holds what the file system does and
  what other processes do to the files in between.

  Shown: an existing certificate, key or database is never overwritten, the private key is never in a file
  that others may read, a certificate that was created is used from then on, and the database of an older version
  is taken over.
\<close>

section \<open>The certificate\<close>

record host_files =
  hf_contents :: "string \<Rightarrow> string option"
  hf_private :: "string \<Rightarrow> bool"

text \<open>
  An error of OpenSSL is the text of its code, or \<open>None\<close> when it has none. \<open>others n\<close> is what other processes
  do to the files before the \<open>n\<close>-th file is created.
\<close>

record openssl =
  keygen :: "string option + string"
  new_certificate :: "string \<Rightarrow> string option + string"
  sign_certificate :: "string \<Rightarrow> string \<Rightarrow> string option + string"
  chain_error :: "string option \<Rightarrow> string option"
  key_error :: "string option \<Rightarrow> string option"
  key_mismatch :: "string option \<Rightarrow> string option \<Rightarrow> string option option"
  pem_digest :: "string \<Rightarrow> string option option"
  directory_error :: "string \<Rightarrow> string option"
  creatable :: "string \<Rightarrow> bool"
  permission_error :: "string \<Rightarrow> string option"
  free_space :: "string \<Rightarrow> nat option"
  others :: "nat \<Rightarrow> host_files \<Rightarrow> host_files"

definition openssl_error :: "string \<Rightarrow> string option \<Rightarrow> string" where
  "openssl_error message detail = (case detail of None \<Rightarrow> message | Some d \<Rightarrow> message @ '': '' @ d)"

definition in_directory :: "string \<Rightarrow> string \<Rightarrow> string" where
  "in_directory directory name =
     (if directory = [] then name else if last directory = CHR ''/'' then directory @ name else directory @ ''/'' @ name)"

definition host_config :: "string \<Rightarrow> server_config" where
  "host_config directory = \<lparr>tls_enabled = True, certificate_path = in_directory directory ''host-cert.pem'',
     private_key_path = in_directory directory ''host-key.pem''\<rparr>"

text \<open>\<open>None\<close>, or the exception.\<close>

definition configure_server_context :: "openssl \<Rightarrow> server_config \<Rightarrow> host_files \<Rightarrow> string option" where
  "configure_server_context S config fs =
     (let cert = hf_contents fs (certificate_path config); key = hf_contents fs (private_key_path config) in
      if \<not> tls_enabled config then None
      else if certificate_path config = [] \<or> private_key_path config = []
      then Some ''TLS requires both a certificate path and a private-key path''
      else case chain_error S cert of Some e \<Rightarrow> Some e
      | None \<Rightarrow> (case key_error S key of Some e \<Rightarrow> Some e
      | None \<Rightarrow> map_option (openssl_error ''TLS private key does not match the certificate'') (key_mismatch S cert key)))"

text \<open>The key and the signed certificate, as texts in PEM.\<close>

definition generate_pair :: "openssl \<Rightarrow> string + string \<times> string" where
  "generate_pair S =
     (case keygen S of
        Inl d \<Rightarrow> Inl (openssl_error ''Could not generate TLS key'' d)
      | Inr key \<Rightarrow> (case new_certificate S key of
          Inl d \<Rightarrow> Inl (openssl_error ''Could not create TLS certificate'' d)
        | Inr cert \<Rightarrow> (case sign_certificate S key cert of
            Inl d \<Rightarrow> Inl (openssl_error ''Could not sign TLS certificate'' d)
          | Inr cert \<Rightarrow> Inr (key, cert))))"

text \<open>\<open>fopen\<close> with mode \<open>wx\<close>: a new, empty file, which everyone may read; or nothing if there is one.\<close>

definition open_exclusive :: "openssl \<Rightarrow> string \<Rightarrow> host_files \<Rightarrow> host_files option" where
  "open_exclusive S path fs =
     (if hf_contents fs path \<noteq> None \<or> \<not> creatable S path then None
      else Some (fs\<lparr>hf_contents := (hf_contents fs)(path \<mapsto> []), hf_private := (hf_private fs)(path := False)\<rparr>))"

text \<open>Writing and flushing: whether it succeeded, and the files.\<close>

definition write_pem :: "openssl \<Rightarrow> string \<Rightarrow> string \<Rightarrow> host_files \<Rightarrow> bool \<times> host_files" where
  "write_pem S path s fs =
     (let room = (case free_space S path of None \<Rightarrow> length s | Some n \<Rightarrow> n)
      in (length s \<le> room, fs\<lparr>hf_contents := (hf_contents fs)(path \<mapsto> take room s)\<rparr>))"

definition save_certificate :: "openssl \<Rightarrow> server_config \<Rightarrow> string \<Rightarrow> host_files \<Rightarrow> server_config outcome \<times> host_files list" where
  "save_certificate S config cert fs =
     (case open_exclusive S (certificate_path config) fs of
        None \<Rightarrow> (Threw ''Could not save TLS certificate'', [])
      | Some opened \<Rightarrow>
          let (saved, written) = write_pem S (certificate_path config) cert opened in
          (if \<not> saved then Threw ''Could not save TLS certificate''
           else case configure_server_context S config written of Some e \<Rightarrow> Threw e | None \<Rightarrow> Returned config,
           [opened, written]))"

definition save_pair :: "openssl \<Rightarrow> server_config \<Rightarrow> string \<Rightarrow> string \<Rightarrow> host_files \<Rightarrow> server_config outcome \<times> host_files list" where
  "save_pair S config key cert fs =
     (case open_exclusive S (private_key_path config) fs of
        None \<Rightarrow> (Threw (''Could not create TLS key: '' @ private_key_path config), [])
      | Some opened \<Rightarrow>
          case permission_error S (private_key_path config) of
            Some e \<Rightarrow> (Threw e, [opened])
          | None \<Rightarrow>
              let restricted = opened\<lparr>hf_private := (hf_private opened)(private_key_path config := True)\<rparr>;
                  (saved, written) = write_pem S (private_key_path config) key restricted in
              if \<not> saved then (Threw ''Could not save TLS private key'', [opened, restricted, written])
              else let later = others S 1 written;
                       (result, rest) = save_certificate S config cert later
                   in (result, [opened, restricted, written, later] @ rest))"

text \<open>The result, and all the states of the files from the first to the last.\<close>

definition ensure_host_certificate :: "openssl \<Rightarrow> string \<Rightarrow> host_files \<Rightarrow> server_config outcome \<times> host_files list" where
  "ensure_host_certificate S directory fs =
     (let config = host_config directory in
      if hf_contents fs (certificate_path config) \<noteq> None \<or> hf_contents fs (private_key_path config) \<noteq> None
      then (case configure_server_context S config fs of Some e \<Rightarrow> Threw e | None \<Rightarrow> Returned config, [fs])
      else case directory_error S directory of
        Some e \<Rightarrow> (Threw e, [fs])
      | None \<Rightarrow>
          case generate_pair S of
            Inl e \<Rightarrow> (Threw e, [fs])
          | Inr (key, cert) \<Rightarrow>
              let later = others S 0 fs;
                  (result, states) = save_pair S config key cert later
              in (result, [fs, later] @ states))"

definition certificate_sha256_fingerprint :: "openssl \<Rightarrow> string \<Rightarrow> host_files \<Rightarrow> string" where
  "certificate_sha256_fingerprint S path fs =
     (case hf_contents fs path of None \<Rightarrow> []
      | Some text \<Rightarrow> (case pem_digest S text of None \<Rightarrow> [] | Some None \<Rightarrow> [] | Some (Some digest) \<Rightarrow> upper_hex digest))"

section \<open>The database\<close>

text \<open>
  What the file system refuses: to create the directory, to tell whether a path exists, to move a file.
\<close>

record disk =
  dk_no_directory :: bool
  dk_no_status :: "string \<Rightarrow> bool"
  dk_no_rename :: "string \<Rightarrow> string \<Rightarrow> bool"

definition dk_exists :: "disk \<Rightarrow> (string \<Rightarrow> string option) \<Rightarrow> string \<Rightarrow> bool" where
  "dk_exists D fs path \<longleftrightarrow> \<not> dk_no_status D path \<and> fs path \<noteq> None"

definition dk_rename :: "disk \<Rightarrow> string \<Rightarrow> string \<Rightarrow> (string \<Rightarrow> string option) \<Rightarrow> string \<Rightarrow> string option" where
  "dk_rename D source target fs =
     (if dk_no_rename D source target then fs else fs(target := fs source, source := None))"

text \<open>The files \<open>-wal\<close> and \<open>-shm\<close> beside the database.\<close>

definition move_sidecar :: "disk \<Rightarrow> string \<Rightarrow> string \<Rightarrow> (string \<Rightarrow> string option) \<Rightarrow> string \<Rightarrow> string option" where
  "move_sidecar D database suffix fs =
     (if dk_exists D fs (''chatbox.db'' @ suffix)
      then dk_rename D (''chatbox.db'' @ suffix) (database @ suffix) fs else fs)"

definition chatbox_database_path :: "disk \<Rightarrow> string \<Rightarrow> (string \<Rightarrow> string option) \<Rightarrow> string \<times> (string \<Rightarrow> string option)" where
  "chatbox_database_path D directory fs =
     (let database = in_directory directory ''chatbox.db'' in
      if dk_no_directory D then (''chatbox.db'', fs)
      else if \<not> dk_exists D fs database \<and> \<not> dk_no_status D database \<and> dk_exists D fs ''chatbox.db''
      then (database,
        if dk_no_rename D ''chatbox.db'' database then fs
        else move_sidecar D database ''-shm'' (move_sidecar D database ''-wal'' (dk_rename D ''chatbox.db'' database fs)))
      else (database, fs))"

section \<open>Certificates and keys are kept\<close>

definition keeps :: "host_files \<Rightarrow> host_files \<Rightarrow> bool" where
  "keeps fs fs' \<longleftrightarrow> (\<forall>path text. hf_contents fs path = Some text \<longrightarrow> hf_contents fs' path = Some text)"

text \<open>Other processes create files, but leave those that exist alone.\<close>

definition polite :: "openssl \<Rightarrow> bool" where
  "polite S \<longleftrightarrow> (\<forall>n fs path. hf_contents fs path \<noteq> None \<longrightarrow>
     hf_contents (others S n fs) path = hf_contents fs path \<and> hf_private (others S n fs) path = hf_private fs path)"

lemma keeps_refl [simp]: "keeps fs fs"
  by (simp add: keeps_def)

lemma keeps_trans: "keeps fs fs' \<Longrightarrow> keeps fs' fs'' \<Longrightarrow> keeps fs fs''"
  by (simp add: keeps_def)

lemma keeps_others: "polite S \<Longrightarrow> keeps fs (others S n fs)"
  by (auto simp: polite_def keeps_def)

lemma keeps_created:
  assumes "open_exclusive S path fs = Some opened"
  shows "keeps fs opened" "keeps fs (opened\<lparr>hf_private := p\<rparr>)" "keeps fs (snd (write_pem S path s (opened\<lparr>hf_private := p\<rparr>)))"
    "keeps fs (snd (write_pem S path s opened))"
  using assms by (auto simp: open_exclusive_def keeps_def write_pem_def Let_def split: if_splits)

lemma save_certificate_keeps: "\<forall>s \<in> set (snd (save_certificate S config cert fs)). keeps fs s"
proof (cases "open_exclusive S (certificate_path config) fs")
  case (Some opened)
  from keeps_created [OF Some] show ?thesis by (simp add: save_certificate_def Some case_prod_unfold Let_def)
qed (simp add: save_certificate_def)

lemma save_pair_keeps:
  assumes "polite S"
  shows "\<forall>s \<in> set (snd (save_pair S config key cert fs)). keeps fs s"
proof (cases "open_exclusive S (private_key_path config) fs")
  case (Some opened)
  note kept = keeps_created [OF Some]
  let ?written = "snd (write_pem S (private_key_path config) key (opened\<lparr>hf_private := (hf_private opened)(private_key_path config := True)\<rparr>))"
  have later: "keeps fs (others S 1 ?written)" using kept(3) keeps_others [OF assms] by (rule keeps_trans)
  have "keeps fs s" if "s \<in> set (snd (save_certificate S config cert (others S 1 ?written)))" for s
    using save_certificate_keeps that later keeps_trans by blast
  with kept later show ?thesis
    by (auto simp: save_pair_def Some case_prod_unfold Let_def split: option.splits if_splits)
qed (simp add: save_pair_def)

lemma ensure_cases:
  obtains (reuse) "hf_contents fs (certificate_path (host_config directory)) \<noteq> None \<or> hf_contents fs (private_key_path (host_config directory)) \<noteq> None"
      "ensure_host_certificate S directory fs =
        (case configure_server_context S (host_config directory) fs of Some e \<Rightarrow> Threw e | None \<Rightarrow> Returned (host_config directory), [fs])"
    | (early) e where "ensure_host_certificate S directory fs = (Threw e, [fs])"
    | (fresh) key cert result states where "save_pair S (host_config directory) key cert (others S 0 fs) = (result, states)"
      "ensure_host_certificate S directory fs = (result, [fs, others S 0 fs] @ states)" "generate_pair S = Inr (key, cert)"
proof (cases "hf_contents fs (certificate_path (host_config directory)) \<noteq> None \<or> hf_contents fs (private_key_path (host_config directory)) \<noteq> None")
  case True
  then show thesis by (intro reuse) (auto simp: ensure_host_certificate_def Let_def)
next
  case False
  show thesis
  proof (cases "directory_error S directory")
    case None
    show thesis
    proof (cases "generate_pair S")
      case (Inr pair)
      obtain result states where "save_pair S (host_config directory) (fst pair) (snd pair) (others S 0 fs) = (result, states)" by fastforce
      then show thesis using False None Inr
        by (intro fresh) (auto simp: ensure_host_certificate_def Let_def case_prod_unfold)
    qed (use False None in \<open>auto simp: ensure_host_certificate_def Let_def intro!: early\<close>)
  qed (use False in \<open>auto simp: ensure_host_certificate_def Let_def intro!: early\<close>)
qed

lemma ensure_reuse:
  assumes "hf_contents fs (certificate_path (host_config directory)) \<noteq> None \<or> hf_contents fs (private_key_path (host_config directory)) \<noteq> None"
    and "configure_server_context S (host_config directory) fs = None"
  shows "ensure_host_certificate S directory fs = (Returned (host_config directory), [fs])"
  using assms by (auto simp: ensure_host_certificate_def Let_def)

lemma ensure_keeps:
  assumes "polite S"
  shows "\<forall>s \<in> set (snd (ensure_host_certificate S directory fs)). keeps fs s"
proof (cases rule: ensure_cases [of fs directory S])
  case (fresh key cert result states)
  from save_pair_keeps [OF assms] fresh(1) have "\<forall>s \<in> set states. keeps (others S 0 fs) s" by (metis snd_conv)
  with fresh(2) keeps_others [OF assms, of fs 0] show ?thesis by (auto intro: keeps_trans)
qed simp_all

lemma save_certificate_returned:
  assumes "save_certificate S config cert fs = (Returned config', states)"
  shows "config' = config \<and> states \<noteq> [] \<and> configure_server_context S config (last states) = None \<and>
    hf_contents (last states) (certificate_path config) \<noteq> None"
  using assms
  by (auto simp: save_certificate_def write_pem_def Let_def split: option.splits if_splits)

lemma save_pair_returned:
  assumes "save_pair S config key cert fs = (Returned config', states)"
  shows "config' = config \<and> states \<noteq> [] \<and> configure_server_context S config (last states) = None \<and>
    hf_contents (last states) (certificate_path config) \<noteq> None"
proof -
  obtain later rest first where *: "save_certificate S config cert later = (Returned config', rest)" "states = first @ rest"
    using assms by (auto simp: save_pair_def Let_def split: option.splits if_splits prod.splits)
  from save_certificate_returned [OF *(1)] *(2) show ?thesis by auto
qed

lemma ensure_returned:
  assumes "ensure_host_certificate S directory fs = (Returned config, states)"
  shows "config = host_config directory" "configure_server_context S (host_config directory) (last states) = None"
    "hf_contents (last states) (certificate_path (host_config directory)) \<noteq> None \<or>
     hf_contents (last states) (private_key_path (host_config directory)) \<noteq> None"
proof -
  have "config = host_config directory \<and> configure_server_context S (host_config directory) (last states) = None \<and>
    (hf_contents (last states) (certificate_path (host_config directory)) \<noteq> None \<or>
     hf_contents (last states) (private_key_path (host_config directory)) \<noteq> None)"
  proof (cases rule: ensure_cases [of fs directory S])
    case (fresh key cert result' states')
    with assms show ?thesis using save_pair_returned [of S "host_config directory" key cert "others S 0 fs" config states'] by auto
  qed (use assms in \<open>auto split: option.splits\<close>)
  then show "config = host_config directory" "configure_server_context S (host_config directory) (last states) = None"
    "hf_contents (last states) (certificate_path (host_config directory)) \<noteq> None \<or>
     hf_contents (last states) (private_key_path (host_config directory)) \<noteq> None" by blast+
qed

lemma host_paths_differ: "private_key_path (host_config directory) \<noteq> certificate_path (host_config directory)"
  by (simp add: host_config_def in_directory_def)

text \<open>
  The states of the files if nothing stops the call: at first, after other processes, with the key file created, restricted and written, after
  other processes, with the certificate created and written. Where something stops it, the first of them.
\<close>

definition fresh_file :: "string \<Rightarrow> host_files \<Rightarrow> host_files" where
  "fresh_file path fs = fs\<lparr>hf_contents := (hf_contents fs)(path \<mapsto> []), hf_private := (hf_private fs)(path := False)\<rparr>"

definition pair_trace :: "openssl \<Rightarrow> server_config \<Rightarrow> string \<Rightarrow> string \<Rightarrow> host_files \<Rightarrow> host_files list" where
  "pair_trace S config key cert fs =
     (let a = others S 0 fs; o1 = fresh_file (private_key_path config) a;
          r = o1\<lparr>hf_private := (hf_private o1)(private_key_path config := True)\<rparr>;
          w = snd (write_pem S (private_key_path config) key r); b = others S 1 w; o2 = fresh_file (certificate_path config) b
      in [fs, a, o1, r, w, b, o2, snd (write_pem S (certificate_path config) cert o2)])"

lemma pair_trace_length [simp]: "length (pair_trace S config key cert fs) = 8"
  by (simp add: pair_trace_def Let_def)

lemma save_pair_trace:
  assumes "save_pair S config key cert (others S 0 fs) = (result, states)"
  shows "\<exists>n \<in> {2, 3, 5, 6, 8}. [fs, others S 0 fs] @ states = take n (pair_trace S config key cert fs) \<and>
    (n = 2 \<longleftrightarrow> open_exclusive S (private_key_path config) (others S 0 fs) = None) \<and>
    (6 \<le> n \<longrightarrow> (n = 8) = (open_exclusive S (certificate_path config) (pair_trace S config key cert fs ! 5) \<noteq> None)) \<and>
    (n \<noteq> 8 \<longrightarrow> (\<exists>e. result = Threw e))"
proof -
  show ?thesis
  proof (cases "open_exclusive S (private_key_path config) (others S 0 fs)")
    case None
    with assms show ?thesis by (intro bexI [of _ 2]) (auto simp: save_pair_def pair_trace_def Let_def)
  next
    case (Some o1)
    then have o1: "o1 = fresh_file (private_key_path config) (others S 0 fs)" by (auto simp: open_exclusive_def fresh_file_def split: if_splits)
    let ?r = "o1\<lparr>hf_private := (hf_private o1)(private_key_path config := True)\<rparr>"
    let ?w = "snd (write_pem S (private_key_path config) key ?r)"
    show ?thesis
    proof (cases "permission_error S (private_key_path config)")
      case (Some e)
      with \<open>open_exclusive _ _ _ = Some o1\<close> assms o1 show ?thesis
        by (intro bexI [of _ 3]) (auto simp: save_pair_def pair_trace_def Let_def)
    next
      case None
      note key = \<open>open_exclusive _ _ _ = Some o1\<close> None
      show ?thesis
      proof (cases "fst (write_pem S (private_key_path config) key ?r)")
        case False
        with key assms o1 show ?thesis
          by (intro bexI [of _ 5]) (auto simp: save_pair_def pair_trace_def Let_def case_prod_unfold)
      next
        case True
        show ?thesis
        proof (cases "open_exclusive S (certificate_path config) (others S 1 ?w)")
          case None
          with key True assms o1 show ?thesis
            by (intro bexI [of _ 6]) (auto simp: save_pair_def save_certificate_def pair_trace_def Let_def case_prod_unfold)
        next
          case (Some o2)
          then have "o2 = fresh_file (certificate_path config) (others S 1 ?w)" by (auto simp: open_exclusive_def fresh_file_def split: if_splits)
          with Some key True assms o1 show ?thesis
            by (intro bexI [of _ 8]) (auto simp: save_pair_def save_certificate_def pair_trace_def Let_def case_prod_unfold)
        qed
      qed
    qed
  qed
qed


text \<open>The call changes a file only after it has created it itself.\<close>

lemma trace_changes:
  assumes "polite S" "private_key_path config \<noteq> certificate_path config" "Suc i < 8"
    and "t = pair_trace S config key cert fs" "hf_contents (t ! i) path = Some text" "hf_contents (t ! Suc i) path \<noteq> Some text"
    and "i = 1 \<Longrightarrow> hf_contents (t ! 1) (private_key_path config) = None" "2 < i \<Longrightarrow> hf_contents (t ! 1) (private_key_path config) = None"
    and "5 \<le> i \<Longrightarrow> hf_contents (t ! 5) (certificate_path config) = None"
  shows "\<exists>j \<in> {2, 3, 4, 6}. j \<le> i \<and> hf_contents (t ! (j - 1)) path = None \<and> hf_contents (t ! j) path \<noteq> None"
proof -
  have kept: "hf_contents (others S n g) path = Some text" if "hf_contents g path = Some text" for n g
    using assms(1) that by (simp add: polite_def)
  from assms(3) have "i = 0 \<or> i = 1 \<or> i = 2 \<or> i = 3 \<or> i = 4 \<or> i = 5 \<or> i = 6" by arith
  then show ?thesis
  proof (elim disjE)
    assume "i = 3"
    with assms(4-8) have "path = private_key_path config" "hf_contents (t ! 1) path = None" "hf_contents (t ! 2) path \<noteq> None"
      by (auto simp: pair_trace_def fresh_file_def write_pem_def Let_def split: if_splits)
    with \<open>i = 3\<close> show ?thesis by (intro bexI [of _ 2]) auto
  next
    assume "i = 6"
    with assms(4-6,9) have "path = certificate_path config" "hf_contents (t ! 5) path = None" "hf_contents (t ! 6) path \<noteq> None"
      by (auto simp: pair_trace_def fresh_file_def write_pem_def Let_def split: if_splits)
    with \<open>i = 6\<close> show ?thesis by (intro bexI [of _ 6]) auto
  qed (use assms kept in \<open>auto simp: pair_trace_def fresh_file_def write_pem_def Let_def split: if_splits\<close>)
qed

text \<open>What the call writes: the key into a file that only its owner may read, and into the file of the certificate the certificate.\<close>

lemma trace_writes:
  assumes "private_key_path config \<noteq> certificate_path config" "t = pair_trace S config key cert fs" "i \<in> {2, 3, 4, 6, 7}" "path \<noteq> private_key_path config"
  shows "hf_contents (t ! i) path = hf_contents (t ! (i - 1)) path \<or>
    path = certificate_path config \<and> (\<exists>n. hf_contents (t ! i) path = Some (take n cert))"
proof -
  have "hf_contents (t ! i) path = hf_contents (t ! (i - 1)) path" if "i \<in> {2, 3, 4}"
    using that assms by (auto simp: pair_trace_def fresh_file_def write_pem_def Let_def)
  moreover have "\<exists>n. hf_contents (t ! i) path = Some (take n cert)" if "i \<in> {6, 7}" "path = certificate_path config"
    using that assms(2) by (auto simp: pair_trace_def fresh_file_def write_pem_def Let_def intro: exI [of _ 0])
  moreover have "hf_contents (t ! i) path = hf_contents (t ! (i - 1)) path" if "i \<in> {6, 7}" "path \<noteq> certificate_path config"
    using that assms(2) by (auto simp: pair_trace_def fresh_file_def write_pem_def Let_def)
  ultimately show ?thesis using assms(3) by blast
qed

lemma trace_sealed:
  assumes "polite S" "private_key_path config \<noteq> certificate_path config" "t = pair_trace S config key cert fs" "i < 8"
    and "hf_contents fs (private_key_path config) = None" "hf_contents (others S 0 fs) (private_key_path config) = None"
    and "hf_contents (t ! i) (private_key_path config) = Some text"
  shows "text = [] \<or> hf_private (t ! i) (private_key_path config)"
proof -
  have kept: "hf_private (others S n g) (private_key_path config) = hf_private g (private_key_path config)"
    if "hf_contents g (private_key_path config) \<noteq> None" for n g
    using assms(1) that by (auto simp: polite_def)
  from assms(4) have "i = 0 \<or> i = 1 \<or> i = 2 \<or> i = 3 \<or> i = 4 \<or> i = 5 \<or> i = 6 \<or> i = 7" by arith
  then show ?thesis
    by (elim disjE; use assms(2,3,5-7) in \<open>auto simp: pair_trace_def fresh_file_def write_pem_def Let_def kept\<close>)
qed

lemma save_pair_kept:
  assumes "polite S" "save_pair S (host_config directory) key cert (others S 0 fs) = (result, states')"
  defines "states \<equiv> [fs, others S 0 fs] @ states'" and "config \<equiv> host_config directory"
  shows "(\<forall>i path text. Suc i < length states \<and> hf_contents (states ! i) path = Some text \<and> hf_contents (states ! Suc i) path \<noteq> Some text \<longrightarrow>
      (\<exists>j \<in> {2, 3, 4, 6}. j \<le> i \<and> hf_contents (states ! (j - 1)) path = None \<and> hf_contents (states ! j) path \<noteq> None)) \<and>
    (1 < length states \<and> hf_contents (states ! 1) (private_key_path config) \<noteq> None \<longrightarrow> (\<exists>e. result = Threw e) \<and> last states = states ! 1) \<and>
    (5 < length states \<and> hf_contents (states ! 5) (certificate_path config) \<noteq> None \<longrightarrow> (\<exists>e. result = Threw e) \<and> last states = states ! 5)"
proof -
  let ?t = "pair_trace S config key cert fs"
  from save_pair_trace [OF assms(2), folded states_def config_def] obtain n where n: "n \<in> {2, 3, 5, 6, 8}" "states = take n ?t"
      "n = 2 \<longleftrightarrow> open_exclusive S (private_key_path config) (others S 0 fs) = None"
      "6 \<le> n \<longrightarrow> (n = 8) = (open_exclusive S (certificate_path config) (?t ! 5) \<noteq> None)" "n \<noteq> 8 \<longrightarrow> (\<exists>e. result = Threw e)"
    by (elim bexE conjE)
  have second: "?t ! 1 = others S 0 fs" by (simp add: pair_trace_def Let_def)
  have no_key: "hf_contents (?t ! 1) (private_key_path config) = None" if "2 < n"
    unfolding second using that n(3) by (auto simp: open_exclusive_def split: if_splits)
  have no_cert: "hf_contents (?t ! 5) (certificate_path config) = None" if "6 < n"
    using that n(1,4) by (auto simp: open_exclusive_def split: if_splits)
  have len: "length states = n" "\<And>i. i < n \<Longrightarrow> states ! i = ?t ! i" using n(1,2) by auto
  have changed: "\<exists>j \<in> {2, 3, 4, 6}. j \<le> i \<and> hf_contents (states ! (j - 1)) path = None \<and> hf_contents (states ! j) path \<noteq> None"
    if "Suc i < length states" "hf_contents (states ! i) path = Some v" "hf_contents (states ! Suc i) path \<noteq> Some v" for i path v
  proof -
    have "\<exists>j \<in> {2, 3, 4, 6}. j \<le> i \<and> hf_contents (?t ! (j - 1)) path = None \<and> hf_contents (?t ! j) path \<noteq> None"
      using that len n(1) no_key no_cert
      by (intro trace_changes [OF assms(1) host_paths_differ [of directory, folded config_def] _ refl, of i _ _ _ path v]) auto
    with that(1) len show ?thesis by fastforce
  qed
  have last: "last states = states ! (n - 1)" using len n(1) by (subst last_conv_nth) auto
  have early: "last states = states ! 1" "n \<noteq> 8" if "1 < length states" "hf_contents (states ! 1) (private_key_path config) \<noteq> None"
    using that len n(1) no_key by (auto simp: last)
  have late: "last states = states ! 5" "n \<noteq> 8" if "5 < length states" "hf_contents (states ! 5) (certificate_path config) \<noteq> None"
    using that len n(1) no_cert by (auto simp: last)
  from changed early late n(5) show ?thesis by blast
qed

text \<open>
  C36: A host's certificate is created once and never overwritten. As long as other processes leave existing files alone, no
  state of the files during \<open>ensure_host_certificate\<close> has lost or changed a file that was there before, failures included. Other processes may create
  files before the key file is created (the second state) and before that of the certificate (the sixth): the call changes no file but one that it has created itself, and a
  key or a certificate that has appeared makes it fail with the files as they were left. When the call returns,
  OpenSSL accepts the pair of files, and calling it again gives the same configuration and changes nothing.
\<close>

theorem host_certificate_kept:
  assumes "polite S" "ensure_host_certificate S directory fs = (result, states)"
  defines "config \<equiv> host_config directory"
  shows "(\<forall>s \<in> set states. \<forall>path text. hf_contents fs path = Some text \<longrightarrow> hf_contents s path = Some text) \<and>
    (\<forall>i path text. Suc i < length states \<and> hf_contents (states ! i) path = Some text \<and> hf_contents (states ! Suc i) path \<noteq> Some text \<longrightarrow>
      (\<exists>j \<in> {2, 3, 4, 6}. j \<le> i \<and> hf_contents (states ! (j - 1)) path = None \<and> hf_contents (states ! j) path \<noteq> None)) \<and>
    (1 < length states \<and> hf_contents (states ! 1) (private_key_path config) \<noteq> None \<longrightarrow> (\<exists>e. result = Threw e) \<and> last states = states ! 1) \<and>
    (5 < length states \<and> hf_contents (states ! 5) (certificate_path config) \<noteq> None \<longrightarrow> (\<exists>e. result = Threw e) \<and> last states = states ! 5) \<and>
    (\<forall>config'. result = Returned config' \<longrightarrow> config' = config \<and> configure_server_context S config (last states) = None \<and>
      ensure_host_certificate S directory (last states) = (Returned config, [last states]))"
proof -
  have "\<forall>s \<in> set states. \<forall>path text. hf_contents fs path = Some text \<longrightarrow> hf_contents s path = Some text"
    using ensure_keeps [OF assms(1), of directory fs] assms(2) by (simp add: keeps_def)
  moreover have "\<forall>config'. result = Returned config' \<longrightarrow> config' = config \<and> configure_server_context S config (last states) = None \<and>
      ensure_host_certificate S directory (last states) = (Returned config, [last states])"
    unfolding config_def using assms(2) ensure_returned [of S directory fs _ states] ensure_reuse by blast
  moreover have "(\<forall>i path text. Suc i < length states \<and> hf_contents (states ! i) path = Some text \<and> hf_contents (states ! Suc i) path \<noteq> Some text \<longrightarrow>
      (\<exists>j \<in> {2, 3, 4, 6}. j \<le> i \<and> hf_contents (states ! (j - 1)) path = None \<and> hf_contents (states ! j) path \<noteq> None)) \<and>
    (1 < length states \<and> hf_contents (states ! 1) (private_key_path config) \<noteq> None \<longrightarrow> (\<exists>e. result = Threw e) \<and> last states = states ! 1) \<and>
    (5 < length states \<and> hf_contents (states ! 5) (certificate_path config) \<noteq> None \<longrightarrow> (\<exists>e. result = Threw e) \<and> last states = states ! 5)"
  proof (cases rule: ensure_cases [of fs directory S])
    case (fresh key cert result' states')
    then show ?thesis using save_pair_kept [OF assms(1) fresh(1)] assms(2) by (simp add: config_def)
  qed (use assms(2) in auto)
  ultimately show ?thesis by blast
qed

definition demo_openssl :: openssl where
  "demo_openssl = \<lparr>keygen = Inr ''KEY'', new_certificate = (\<lambda>key. Inr ''CERT''), sign_certificate = (\<lambda>key cert. Inr (cert @ '' signed'')),
     chain_error = (\<lambda>c. if c = None then Some ''no such file'' else None), key_error = (\<lambda>k. if k = None then Some ''no such file'' else None),
     key_mismatch = (\<lambda>c k. None), pem_digest = (\<lambda>t. Some (Some t)), directory_error = (\<lambda>d. None), creatable = (\<lambda>p. True),
     permission_error = (\<lambda>p. None), free_space = (\<lambda>p. None), others = (\<lambda>n fs. fs)\<rparr>"

definition no_host_files :: host_files where
  "no_host_files = \<lparr>hf_contents = (\<lambda>p. None), hf_private = (\<lambda>p. False)\<rparr>"

lemma demo_openssl_polite: "polite demo_openssl"
  by (simp add: polite_def demo_openssl_def)

lemma demo_host_certificate: "\<exists>states. ensure_host_certificate demo_openssl ''tls'' no_host_files = (Returned (host_config ''tls''), states)"
  by (simp add: ensure_host_certificate_def save_pair_def save_certificate_def open_exclusive_def write_pem_def generate_pair_def
      configure_server_context_def host_config_def in_directory_def demo_openssl_def no_host_files_def Let_def)

theorem host_certificate_kept_witness:
  "\<exists>states. ensure_host_certificate demo_openssl ''tls'' no_host_files = (Returned (host_config ''tls''), states) \<and>
     ensure_host_certificate demo_openssl ''tls'' (last states) = (Returned (host_config ''tls''), [last states])"
  using demo_host_certificate host_certificate_kept [OF demo_openssl_polite] by blast

section \<open>The private key\<close>

text \<open>
  C37: The private key is never exposed. If there is no key at first and no other process creates one, then in every state of
  the files during \<open>ensure_host_certificate\<close>, whatever fails, a key file that is not empty is readable by
  its owner only; and no other file is ever given anything by the call (its own states are those but the first, and the second and sixth, which are left by other processes) except the file of the certificate, which is given nothing but a beginning of
  the certificate that OpenSSL has signed.
\<close>

theorem private_key_sealed:
  assumes "polite S" "hf_contents fs (private_key_path (host_config directory)) = None"
    and "hf_contents (others S 0 fs) (private_key_path (host_config directory)) = None"
    and "ensure_host_certificate S directory fs = (result, states)" "i < length states"
  shows "(\<forall>text. hf_contents (states ! i) (private_key_path (host_config directory)) = Some text \<longrightarrow>
      text = [] \<or> hf_private (states ! i) (private_key_path (host_config directory))) \<and>
    (\<forall>path. path \<noteq> private_key_path (host_config directory) \<and> i \<notin> {0, 1, 5} \<longrightarrow>
      hf_contents (states ! i) path = hf_contents (states ! (i - 1)) path \<or>
      path = certificate_path (host_config directory) \<and>
        (\<exists>key unsigned cert n. keygen S = Inr key \<and> new_certificate S key = Inr unsigned \<and> sign_certificate S key unsigned = Inr cert \<and>
           hf_contents (states ! i) path = Some (take n cert)))"
proof (cases rule: ensure_cases [of fs directory S])
  case (fresh key cert result' states')
  let ?t = "pair_trace S (host_config directory) key cert fs"
  obtain n where n: "states = take n ?t" "n \<in> {2, 3, 5, 6, 8}"
    using save_pair_trace [OF fresh(1)] fresh(2) assms(4) by (metis prod.inject)
  have at: "i < 8" "states ! i = ?t ! i" "states ! (i - 1) = ?t ! (i - 1)" using n assms(5) by auto
  from fresh(3) obtain unsigned where made: "keygen S = Inr key" "new_certificate S key = Inr unsigned" "sign_certificate S key unsigned = Inr cert"
    by (auto simp: generate_pair_def split: sum.splits)
  have "hf_contents (?t ! i) path = hf_contents (?t ! (i - 1)) path \<or>
      path = certificate_path (host_config directory) \<and> (\<exists>n. hf_contents (?t ! i) path = Some (take n cert))"
    if "path \<noteq> private_key_path (host_config directory)" "i \<notin> {0, 1, 5}" for path
    using that at(1) by (intro trace_writes [OF host_paths_differ refl]) auto
  with made trace_sealed [OF assms(1) host_paths_differ refl at(1) assms(2,3), of key cert] show ?thesis unfolding at(2,3) by blast
qed (use assms in auto)

theorem private_key_sealed_witness:
  "\<exists>states. ensure_host_certificate demo_openssl ''tls'' no_host_files = (Returned (host_config ''tls''), states) \<and>
     (\<forall>s \<in> set states. \<forall>text. hf_contents s ''tls/host-key.pem'' = Some text \<longrightarrow> text = [] \<or> hf_private s ''tls/host-key.pem'')"
proof -
  have "private_key_path (host_config ''tls'') = ''tls/host-key.pem''" by (simp add: host_config_def in_directory_def)
  moreover have "hf_contents no_host_files p = None" "hf_contents (others demo_openssl 0 no_host_files) p = None" for p
    by (simp_all add: no_host_files_def demo_openssl_def)
  moreover obtain states where "ensure_host_certificate demo_openssl ''tls'' no_host_files = (Returned (host_config ''tls''), states)"
    using demo_host_certificate by blast
  ultimately show ?thesis
    using private_key_sealed [OF demo_openssl_polite, of no_host_files "''tls''"] by (metis in_set_conv_nth)
qed

section \<open>The database of an older version\<close>

text \<open>Moving a file and two others beside it, for any six different paths.\<close>

lemma three_moved:
  fixes no_rename fs
  defines "move \<equiv> \<lambda>source target fs. if fs source \<noteq> None \<and> \<not> no_rename source target then fs(target := fs source, source := None) else fs"
  assumes "distinct [new, new1, new2, old, old1, old2]"
  defines "fs' \<equiv> move old2 new2 (move old1 new1 (fs(new := fs old, old := None)))"
  shows "fs' new = fs old \<and> fs' old = None \<and> (fs old1 \<noteq> None \<and> \<not> no_rename old1 new1 \<longrightarrow> fs' new1 = fs old1) \<and>
    (fs old2 \<noteq> None \<and> \<not> no_rename old2 new2 \<longrightarrow> fs' new2 = fs old2) \<and>
    (\<forall>p. p \<notin> {new, new1, new2, old, old1, old2} \<longrightarrow> fs' p = fs p)"
  using assms(2) by (auto simp: fs'_def move_def)

text \<open>
  The database is found. When the data directory can be created and there is a database in it, that database is used and no file is
  touched. When there is none but an older one in the working directory that can be moved, its contents are
  at the path that is returned, those of its two sidecars beside it as far as they can be moved, and no other file
  has changed. When moving is refused, the returned path has no database and the old one stays behind.
\<close>

theorem database_taken_over:
  assumes "\<not> dk_no_directory D" "\<And>p. \<not> dk_no_status D p"
    and "database = in_directory directory ''chatbox.db''" "directory \<noteq> []"
    and "chatbox_database_path D directory fs = (path, fs')"
  shows "path = database \<and>
    (fs database \<noteq> None \<or> fs ''chatbox.db'' = None \<or> dk_no_rename D ''chatbox.db'' database \<longrightarrow> fs' = fs) \<and>
    (fs database = None \<and> fs ''chatbox.db'' \<noteq> None \<and> \<not> dk_no_rename D ''chatbox.db'' database \<longrightarrow>
      fs' database = fs ''chatbox.db'' \<and> fs' ''chatbox.db'' = None \<and>
      (fs (''chatbox.db'' @ ''-wal'') \<noteq> None \<and> \<not> dk_no_rename D (''chatbox.db'' @ ''-wal'') (database @ ''-wal'') \<longrightarrow>
        fs' (database @ ''-wal'') = fs (''chatbox.db'' @ ''-wal'')) \<and>
      (fs (''chatbox.db'' @ ''-shm'') \<noteq> None \<and> \<not> dk_no_rename D (''chatbox.db'' @ ''-shm'') (database @ ''-shm'') \<longrightarrow>
        fs' (database @ ''-shm'') = fs (''chatbox.db'' @ ''-shm'')) \<and>
      (\<forall>p. p \<notin> {database, database @ ''-wal'', database @ ''-shm'', ''chatbox.db'', ''chatbox.db'' @ ''-wal'', ''chatbox.db'' @ ''-shm''} \<longrightarrow>
        fs' p = fs p))"
proof -
  let ?moves = "fs database = None \<and> fs ''chatbox.db'' \<noteq> None \<and> \<not> dk_no_rename D ''chatbox.db'' database"
  have run: "path = database"
    "fs' = (if ?moves then move_sidecar D database ''-shm'' (move_sidecar D database ''-wal'' (fs(database := fs ''chatbox.db'', ''chatbox.db'' := None))) else fs)"
    using assms(1-3,5) by (auto simp: chatbox_database_path_def dk_exists_def dk_rename_def Let_def split: if_splits)
  have "last database = CHR ''b''" "10 < length database" using assms(3,4) by (auto simp: in_directory_def)
  then have different: "distinct [database, database @ ''-wal'', database @ ''-shm'', ''chatbox.db'', ''chatbox.db'' @ ''-wal'', ''chatbox.db'' @ ''-shm'']"
    by (auto dest: arg_cong [of _ _ last] arg_cong [of _ _ length])
  have sidecar: "move_sidecar D database suffix fs =
      (if fs (''chatbox.db'' @ suffix) \<noteq> None \<and> \<not> dk_no_rename D (''chatbox.db'' @ suffix) (database @ suffix)
       then fs(database @ suffix := fs (''chatbox.db'' @ suffix), ''chatbox.db'' @ suffix := None) else fs)" for suffix fs
    using assms(2) by (simp add: move_sidecar_def dk_exists_def dk_rename_def)
  show ?thesis
  proof (cases ?moves)
    case True
    with run(2) have moved: "fs' = move_sidecar D database ''-shm'' (move_sidecar D database ''-wal'' (fs(database := fs ''chatbox.db'', ''chatbox.db'' := None)))"
      by (simp only: if_True simp_thms)
    from three_moved [OF different, of fs "dk_no_rename D", folded sidecar, folded moved] True run(1)
    show ?thesis by (intro conjI impI) (elim conjE disjE; simp only: simp_thms)+
  qed (use run in \<open>auto simp only: if_False\<close>)
qed

theorem database_taken_over_witness:
  "case chatbox_database_path \<lparr>dk_no_directory = False, dk_no_status = (\<lambda>p. False), dk_no_rename = (\<lambda>s t. False)\<rparr> ''/data'' [''chatbox.db'' \<mapsto> ''rows''] of
     (path, fs') \<Rightarrow> path = ''/data/chatbox.db'' \<and> fs' path = Some ''rows'' \<and> fs' ''chatbox.db'' = None"
proof -
  let ?D = "\<lparr>dk_no_directory = False, dk_no_status = (\<lambda>p. False), dk_no_rename = (\<lambda>s t. False)\<rparr>"
  have "in_directory ''/data'' ''chatbox.db'' = ''/data/chatbox.db''" by (simp add: in_directory_def)
  then show ?thesis
    using database_taken_over [of ?D "''/data/chatbox.db''" "''/data''" "[''chatbox.db'' \<mapsto> ''rows'']"]
    by (cases "chatbox_database_path ?D ''/data'' [''chatbox.db'' \<mapsto> ''rows'']") auto
qed

end
