(* ===== verification/Startup_Modes.thy ===== *)
theory Startup_Modes
  imports Dedicated_Server
begin

text \<open>
  \<open>app/chatbox.cpp\<close>: what the program does for its command line. The arguments are those after the name of
  the program. The programs that are started, the chat in the terminal, the dedicated server, the
  directory and its listing, are results here and components of their own.

  Shown: neither the directory nor its listing works without TLS unless the command line says so, and a directory with
  TLS has a certificate and a key.
\<close>

section \<open>The model\<close>

datatype launch =
    CursesApp
  | DedicatedServer "string list"
  | BrowserServer u16 server_config
  | BrowserList string u16 client_config
  | UsageShown int "string list"
  | ExitWith int string

fun browser_args :: "string list \<Rightarrow> server_config \<Rightarrow> string + server_config" where
  "browser_args [] config = Inr config"
| "browser_args (arg # rest) config =
     (if arg = ''--allow-plaintext'' then browser_args rest (config\<lparr>tls_enabled := False\<rparr>)
      else if arg = ''--require-tls'' then browser_args rest (config\<lparr>tls_enabled := True\<rparr>)
      else if arg = ''--tls-cert'' \<and> rest \<noteq> [] then browser_args (tl rest) (config\<lparr>certificate_path := hd rest\<rparr>)
      else if arg = ''--tls-key'' \<and> rest \<noteq> [] then browser_args (tl rest) (config\<lparr>private_key_path := hd rest\<rparr>)
      else Inl arg)"

fun browse_args :: "string list \<Rightarrow> client_config \<Rightarrow> string + client_config" where
  "browse_args [] config = Inr config"
| "browse_args (arg # rest) config =
     (if arg = ''--plaintext'' then browse_args rest (config\<lparr>enabled := False\<rparr>)
      else if arg = ''--tls-ca'' \<and> rest \<noteq> [] then browse_args (tl rest) (config\<lparr>ca_path := hd rest\<rparr>)
      else if arg = ''--trust-fingerprint'' \<and> rest \<noteq> [] then browse_args (tl rest) (config\<lparr>expected_fingerprint := hd rest\<rparr>)
      else if arg = ''--trust-store'' \<and> rest \<noteq> [] then browse_args (tl rest) (config\<lparr>trust_store_path := hd rest\<rparr>)
      else Inl arg)"

definition BROWSER_PORT :: u16 where "BROWSER_PORT = 2727"

definition app_usage :: "string list" where
  "app_usage = [''Usage:'', ''  chatbox                  - start the curses terminal UI'',
     ''  chatbox --curses|--tui   - start the curses terminal UI'', ''''] @ dedicated_usage"

definition browser_mode :: "string list \<Rightarrow> launch" where
  "browser_mode args =
     (case browser_args args \<lparr>tls_enabled = True, certificate_path = [], private_key_path = []\<rparr> of
        Inl arg \<Rightarrow> ExitWith 1 (''Unknown or incomplete browser option: '' @ arg)
      | Inr config \<Rightarrow>
          if tls_enabled config \<and> (certificate_path config = [] \<or> private_key_path config = [])
          then ExitWith 1 (''Browser TLS requires --tls-cert and --tls-key. '' @
                 ''Use --allow-plaintext only for an explicitly insecure browser.'')
          else BrowserServer BROWSER_PORT config)"

definition browse_mode :: "trust_env \<Rightarrow> string list \<Rightarrow> launch" where
  "browse_mode V args =
     (case args of [] \<Rightarrow> UsageShown 1 dedicated_usage
      | address # options \<Rightarrow>
          case parse_browser_address address of
            None \<Rightarrow> ExitWith 1 (''Invalid browser address. Use only the browser host/IP; port '' @
              nat_to_string (unat BROWSER_PORT) @ '' is fixed.'')
          | Some host \<Rightarrow>
              case browse_args options (default_client_config V) of
                Inl arg \<Rightarrow> ExitWith 1 (''Unknown or incomplete browse option: '' @ arg)
              | Inr config \<Rightarrow> BrowserList host BROWSER_PORT config)"

definition main :: "trust_env \<Rightarrow> bool \<Rightarrow> string list \<Rightarrow> launch" where
  "main V sodium_ready args =
     (if \<not> sodium_ready then ExitWith 1 ''Failed to initialize libsodium''
      else case args of [] \<Rightarrow> CursesApp
      | mode # rest \<Rightarrow>
          if mode = ''--curses'' \<or> mode = ''--tui'' then CursesApp
          else if mode = ''--server'' \<or> mode = ''--dedicated'' \<or> mode = ''-s'' then DedicatedServer args
          else if mode = ''--browser'' then browser_mode rest
          else if mode = ''--browse'' then browse_mode V rest
          else if mode = ''--help'' \<or> mode = ''-h'' then UsageShown 0 app_usage
          else UsageShown 1 ([''Unknown option: '' @ mode] @ app_usage))"

section \<open>Plaintext only on request\<close>

lemma browser_args_plaintext:
  "browser_args args config = Inr config' \<Longrightarrow> \<not> tls_enabled config' \<Longrightarrow> tls_enabled config \<Longrightarrow> ''--allow-plaintext'' \<in> set args"
  by (induction args config rule: browser_args.induct) (auto split: if_splits dest: list.set_sel(2))

lemma browse_args_plaintext:
  "browse_args args config = Inr config' \<Longrightarrow> \<not> enabled config' \<Longrightarrow> enabled config \<Longrightarrow> ''--plaintext'' \<in> set args"
  by (induction args config rule: browse_args.induct) (auto split: if_splits dest: list.set_sel(2))

fun launch_ok :: "string list \<Rightarrow> launch \<Rightarrow> bool" where
  "launch_ok args (BrowserServer port config) \<longleftrightarrow>
     (if tls_enabled config then certificate_path config \<noteq> [] \<and> private_key_path config \<noteq> []
      else ''--allow-plaintext'' \<in> set args)"
| "launch_ok args (BrowserList host port config) \<longleftrightarrow> enabled config \<or> ''--plaintext'' \<in> set args"
| "launch_ok args _ \<longleftrightarrow> True"

lemma browser_mode_ok: "launch_ok (mode # args) (browser_mode args)"
  using browser_args_plaintext [of args "\<lparr>tls_enabled = True, certificate_path = [], private_key_path = []\<rparr>"]
  by (simp add: browser_mode_def split: sum.split)

lemma browse_mode_ok: "launch_ok (mode # args) (browse_mode V args)"
proof (cases args)
  case (Cons address options)
  then show ?thesis
    using browse_args_plaintext [of options "default_client_config V"]
    by (auto simp: browse_mode_def default_client_config_def split: sum.split option.split)
qed (simp add: browse_mode_def)

lemma launch_ok_if: "launch_ok args x \<Longrightarrow> launch_ok args y \<Longrightarrow> launch_ok args (if c then x else y)"
  by simp

lemma main_ok: "launch_ok args (main V ready args)"
proof (cases args)
  case (Cons mode rest)
  then show ?thesis
    unfolding main_def by (simp only: list.case) (intro launch_ok_if browser_mode_ok browse_mode_ok; simp only: launch_ok.simps)
qed (simp add: main_def)

text \<open>
  Plaintext only on request. A directory that is started listens with TLS and a certificate and key,
  unless \<open>--allow-plaintext\<close> is on the command line; a listing is fetched with TLS unless \<open>--plaintext\<close> is.
  Whatever else the command line says.
\<close>

theorem plaintext_on_request:
  "case main V ready args of
      BrowserServer port config \<Rightarrow>
        (if tls_enabled config then certificate_path config \<noteq> [] \<and> private_key_path config \<noteq> []
         else ''--allow-plaintext'' \<in> set args)
    | BrowserList host port config \<Rightarrow> enabled config \<or> ''--plaintext'' \<in> set args
    | _ \<Rightarrow> True"
  using main_ok [of args V ready] by (cases "main V ready args") simp_all

end
