(* ===== verification/Setup_Menu.thy ===== *)
theory Setup_Menu
  imports Interactive_App Host_Files Startup_Modes
begin

text \<open>
  \<open>configure_tls\<close> and \<open>configure_publication\<close> of \<open>ui/setup_forms.h\<close>, and \<open>ui/startup_menu.cpp\<close>: the menu the program starts
  with, from which a dedicated server or a directory can be configured and started. A dialog ends with an answer, is given up
  (\<open>CursesFormCancelled\<close>), or fails with an exception; like the loops of \<open>Curses_Input\<close> it is given the keystrokes to
  come, and \<open>None\<close> says that it is still waiting.

  Shown: what the menu starts is fit to run, TLS included, and does without TLS only after a key
  that switches it off.
\<close>

section \<open>The model\<close>

datatype 'a dialog = Answer 'a | GivenUp | SetupFailed string

definition LOGFILE_MAX_LEN :: nat where "LOGFILE_MAX_LEN = 259"

definition toggle_field :: "string \<Rightarrow> bool \<Rightarrow> curses_field" where
  "toggle_field title on = field_default\<lparr>cf_label := title, cf_value := (if on then ''yes'' else ''no''), cf_limit := 3, cf_toggle := True\<rparr>"

definition text_field :: "string \<Rightarrow> string \<Rightarrow> nat \<Rightarrow> curses_field" where
  "text_field title v limit = field_default\<lparr>cf_label := title, cf_value := v, cf_limit := limit\<rparr>"

definition tls_menu :: "menu_item list" where
  "tls_menu =
     [\<lparr>mi_shortcut = Some CHR ''g'', mi_title = ''Generate or reuse a certificate'',
        mi_description = ''Store a private key and certificate in your Chatbox data folder.''\<rparr>,
      \<lparr>mi_shortcut = Some CHR ''e'', mi_title = ''Use existing certificate files'',
        mi_description = ''Choose a PEM certificate and matching private key.''\<rparr>]"

definition certificate_form :: "server_config \<Rightarrow> curses_field list" where
  "certificate_form config =
     [required_field ''Certificate chain path'' (certificate_path config) LOGFILE_MAX_LEN,
      required_field ''Private key path'' (private_key_path config) LOGFILE_MAX_LEN]"

text \<open>The configuration is changed in place, also when the dialog fails.\<close>

definition configure_tls :: "openssl \<Rightarrow> string \<Rightarrow> server_config \<Rightarrow> host_files \<Rightarrow> keystroke list \<Rightarrow>
    (unit dialog \<times> server_config \<times> host_files \<times> keystroke list) option" where
  "configure_tls S folder config fs ks =
     (if \<not> tls_enabled config then Some (Answer (), config, fs, ks)
      else case choose_curses_menu tls_menu ks of None \<Rightarrow> None
      | Some (choice, ks) \<Rightarrow>
          if choice < 0 then Some (GivenUp, config, fs, ks)
          else if choice = 0
          then (case ensure_host_certificate S (in_directory folder ''tls'') fs of
                  (Threw e, states) \<Rightarrow> Some (SetupFailed e, config, last states, ks)
                | (Returned config', states) \<Rightarrow>
                    map_option (\<lambda>ks. (Answer (), config', last states, ks))
                      (Option.bind (show_curses_notice ks) show_curses_notice))
          else case edit_curses_form (certificate_form config) ks of None \<Rightarrow> None
          | Some (None, ks) \<Rightarrow> Some (GivenUp, config, fs, ks)
          | Some (Some answers, ks) \<Rightarrow>
              let config = config\<lparr>certificate_path := cf_value (answers ! 0), private_key_path := cf_value (answers ! 1)\<rparr>
              in Some (case configure_server_context S config fs of Some e \<Rightarrow> SetupFailed e | None \<Rightarrow> Answer (), config, fs, ks))"

record publication =
  pb_host :: string
  pb_name :: string
  pb_public_host :: string
  pb_tls :: bool
  pb_ca_path :: string
  pb_fingerprint :: string

definition no_publication :: publication where
  "no_publication = \<lparr>pb_host = [], pb_name = [], pb_public_host = [], pb_tls = True, pb_ca_path = [], pb_fingerprint = []\<rparr>"

definition browser_host_error :: "string \<Rightarrow> string" where
  "browser_host_error v = (if parse_browser_address v \<noteq> None then [] else ''Enter a browser host/IP without a port.'')"

definition publication_form :: "publication \<Rightarrow> curses_field list" where
  "publication_form previous =
     [field_default\<lparr>cf_label := ''Browser host (without a port)'', cf_value := pb_host previous, cf_limit := HOST_MAX_LEN,
        cf_validate := Some browser_host_error\<rparr>,
      text_field ''Listing name (optional)'' (pb_name previous) HOST_MAX_LEN,
      text_field ''Public address (blank for automatic)'' (pb_public_host previous) HOST_MAX_LEN,
      toggle_field ''Directory TLS (no = insecure)'' (pb_tls previous),
      text_field ''Directory CA file (optional)'' (pb_ca_path previous) LOGFILE_MAX_LEN,
      text_field ''Directory SHA-256 (optional)'' (pb_fingerprint previous) 95]"

text \<open>\<open>parse_browser_address\<close> assigns the cleaned text also when it returns false.\<close>

definition configure_publication :: "publication \<Rightarrow> keystroke list \<Rightarrow> (publication dialog \<times> keystroke list) option" where
  "configure_publication previous ks =
     map_option (apfst (\<lambda>answer. case answer of None \<Rightarrow> GivenUp
       | Some answers \<Rightarrow> Answer \<lparr>pb_host = sanitize_browser_field (cf_value (answers ! 0)) HOST_MAX_LEN, pb_name = cf_value (answers ! 1),
           pb_public_host = cf_value (answers ! 2), pb_tls = (cf_value (answers ! 3) = ''yes''),
           pb_ca_path = cf_value (answers ! 4), pb_fingerprint = cf_value (answers ! 5)\<rparr>))
       (edit_curses_form (publication_form previous) ks)"

section \<open>The menu at the start\<close>

datatype startup = QuitStartup | StartChatting | StartDedicated dedicated_config | StartDirectory u16 server_config

definition startup_items :: "menu_item list" where
  "startup_items =
     [\<lparr>mi_shortcut = Some CHR ''c'', mi_title = ''Start chatting'', mi_description = ''Join, host, or discover a chat server''\<rparr>,
      \<lparr>mi_shortcut = Some CHR ''d'', mi_title = ''Run a dedicated server'', mi_description = ''Keep a community online from this machine''\<rparr>,
      \<lparr>mi_shortcut = Some CHR ''b'', mi_title = ''Run a server directory'', mi_description = ''Help others discover published servers''\<rparr>,
      \<lparr>mi_shortcut = Some CHR ''q'', mi_title = ''Quit'', mi_description = ''See you next time''\<rparr>]"

definition dedicated_form :: "curses_field list" where
  "dedicated_form =
     [port_field, (text_field ''Password (optional)'' [] PASS_MAX_LEN)\<lparr>cf_secret := True\<rparr>,
      toggle_field ''Automatic port forwarding (UPnP)'' True, toggle_field ''Use TLS'' True,
      text_field ''Log file (none / stdout / path)'' ''chatlog.txt'' LOGFILE_MAX_LEN,
      toggle_field ''Publish to a server directory'' False]"

text \<open>The configuration of the form, before TLS and publication.\<close>

definition form_config :: "trust_env \<Rightarrow> curses_field list \<Rightarrow> dedicated_config" where
  "form_config V answers =
     (let c = default_dedicated_config V; logfile = cf_value (answers ! 4);
          logging = (logfile \<noteq> ''none''); only_stdout = (logfile = ''stdout'') in
      c\<lparr>dc_port := (case parse_port (cf_value (answers ! 0)) of None \<Rightarrow> dc_port c | Some port \<Rightarrow> port),
        dc_password := cf_value (answers ! 1),
        dc_enable_upnp := (cf_value (answers ! 2) = ''yes''),
        dc_tls := (dc_tls c)\<lparr>tls_enabled := (cf_value (answers ! 3) = ''yes'')\<rparr>,
        dc_enable_logging := logging,
        dc_log_to_stdout_only := only_stdout,
        dc_logfile := (if logfile \<noteq> [] \<and> logging \<and> \<not> only_stdout then logfile else dc_logfile c),
        dc_publish_to_browser := (cf_value (answers ! 5) = ''yes'')\<rparr>)"

definition publish_as :: "publication \<Rightarrow> dedicated_config \<Rightarrow> dedicated_config" where
  "publish_as pb c =
     c\<lparr>dc_browser_host := pb_host pb,
       dc_browser_name := (if pb_name pb = [] then ''chatbox dedicated server'' else sanitize_browser_field (pb_name pb) BROWSER_NAME_MAX_LEN),
       dc_browser_public_host := sanitize_browser_field (pb_public_host pb) HOST_MAX_LEN\<rparr>"

text \<open>How a setup ends: an answer, given up, or failed; with the files and the keystrokes left.\<close>

type_synonym 'a setup_result = "('a dialog \<times> host_files \<times> keystroke list) option"

definition setup_dedicated :: "trust_env \<Rightarrow> openssl \<Rightarrow> host_files \<Rightarrow> keystroke list \<Rightarrow> startup setup_result" where
  "setup_dedicated V S fs ks =
     (case edit_curses_form dedicated_form ks of None \<Rightarrow> None
      | Some (None, ks) \<Rightarrow> Some (GivenUp, fs, ks)
      | Some (Some answers, ks) \<Rightarrow>
          let c = form_config V answers in
          case configure_tls S (data_directory V) (dc_tls c) fs ks of None \<Rightarrow> None
          | Some (GivenUp, tls, fs, ks) \<Rightarrow> Some (GivenUp, fs, ks)
          | Some (SetupFailed e, tls, fs, ks) \<Rightarrow> Some (SetupFailed e, fs, ks)
          | Some (Answer _, tls, fs, ks) \<Rightarrow>
              let c = c\<lparr>dc_tls := tls\<rparr> in
              if \<not> dc_publish_to_browser c then Some (Answer (StartDedicated c), fs, ks)
              else case configure_publication no_publication ks of None \<Rightarrow> None
              | Some (GivenUp, ks) \<Rightarrow> Some (GivenUp, fs, ks)
              | Some (SetupFailed e, ks) \<Rightarrow> Some (SetupFailed e, fs, ks)
              | Some (Answer pb, ks) \<Rightarrow> Some (Answer (StartDedicated (publish_as pb c)), fs, ks))"

definition setup_directory :: "trust_env \<Rightarrow> openssl \<Rightarrow> host_files \<Rightarrow> keystroke list \<Rightarrow> startup setup_result" where
  "setup_directory V S fs ks =
     (case edit_curses_form [toggle_field ''Use TLS'' True] ks of None \<Rightarrow> None
      | Some (None, ks) \<Rightarrow> Some (GivenUp, fs, ks)
      | Some (Some answers, ks) \<Rightarrow>
          (case configure_tls S (data_directory V)
             \<lparr>tls_enabled = (cf_value (answers ! 0) = ''yes''), certificate_path = [], private_key_path = []\<rparr> fs ks of None \<Rightarrow> None
          | Some (GivenUp, tls, fs, ks) \<Rightarrow> Some (GivenUp, fs, ks)
          | Some (SetupFailed e, tls, fs, ks) \<Rightarrow> Some (SetupFailed e, fs, ks)
          | Some (Answer _, tls, fs, ks) \<Rightarrow> Some (Answer (StartDirectory BROWSER_PORT tls), fs, ks)))"

section \<open>Keystrokes are used up\<close>

lemma notice_suffix: "show_curses_notice ks = Some rest \<Longrightarrow> suffix rest ks"
  using show_curses_notice_suffix by (auto simp: suffix_def)

lemma menu_loop_suffix: "menu_loop items selected ks = Some (choice, rest) \<Longrightarrow> strict_suffix rest ks"
proof (induction items selected ks rule: menu_loop.induct)
  case (2 items selected k ks)
  then have "suffix rest ks"
    by (auto split: menu_step.splits option.splits dest: notice_suffix suffix_order.less_imp_le intro: suffix_order.trans)
  then show ?case by (auto simp: strict_suffix_def suffix_def)
qed simp

lemma menu_suffix_strict: "choose_curses_menu items ks = Some (choice, rest) \<Longrightarrow> items \<noteq> [] \<Longrightarrow> strict_suffix rest ks"
  using menu_loop_suffix by (simp add: choose_curses_menu_def)

lemma form_loop_suffix: "form_loop s ks = Some (result, rest) \<Longrightarrow> suffix rest ks"
proof (induction s ks rule: form_loop.induct)
  case (2 s k ks)
  then have "suffix rest ks"
    by (auto split: form_step.splits option.splits dest: notice_suffix intro: suffix_order.trans)
  then show ?case by (rule suffix_ConsI)
qed simp

lemma form_suffix: "edit_curses_form form ks = Some (result, rest) \<Longrightarrow> suffix rest ks"
  using form_loop_suffix by (auto simp: edit_curses_form_def split: if_splits)

lemma configure_tls_suffix: "configure_tls S folder config fs ks = Some (result, config', fs', rest) \<Longrightarrow> suffix rest ks"
  unfolding configure_tls_def
  by (auto simp: tls_menu_def Let_def bind_eq_Some_conv split: if_splits option.splits prod.splits outcome.splits
      dest!: form_suffix menu_suffix_strict notice_suffix dest: suffix_order.less_imp_le intro: suffix_order.trans)

lemma setup_suffix:
  "setup_dedicated V S fs ks = Some (result, fs', rest) \<Longrightarrow> suffix rest ks"
  "setup_directory V S fs ks = Some (result, fs', rest) \<Longrightarrow> suffix rest ks"
  unfolding setup_dedicated_def setup_directory_def configure_publication_def Let_def
  by (auto split: if_splits option.splits prod.splits dialog.splits unit.splits
      dest!: form_suffix configure_tls_suffix intro: suffix_order.trans)

section \<open>The loop of the menu\<close>

lemma setup_shorter:
  assumes "choose_curses_menu startup_items ks = Some (mode, ks')"
    and "(if mode = 1 then setup_dedicated V S fs ks' else setup_directory V S fs ks') = Some (result, fs', ks'')"
  shows "suffix ks'' ks \<and> length ks'' < length ks"
proof -
  have "strict_suffix ks' ks" using menu_suffix_strict [OF assms(1)] by (simp add: startup_items_def)
  moreover have "suffix ks'' ks'" using setup_suffix assms(2) by (auto split: if_splits)
  ultimately show ?thesis
    using suffix_length_le [of ks'' ks'] suffix_length_less [of ks' ks] by (auto dest: suffix_order.less_imp_le intro: suffix_order.trans)
qed

function run_startup_menu :: "trust_env \<Rightarrow> openssl \<Rightarrow> host_files \<Rightarrow> keystroke list \<Rightarrow> (startup \<times> host_files \<times> keystroke list) option" where
  "run_startup_menu V S fs ks =
     (case choose_curses_menu startup_items ks of None \<Rightarrow> None
      | Some (mode, ks) \<Rightarrow>
          if mode < 0 \<or> mode = 3 then Some (QuitStartup, fs, ks)
          else if mode = 0 then Some (StartChatting, fs, ks)
          else case (if mode = 1 then setup_dedicated V S fs ks else setup_directory V S fs ks) of None \<Rightarrow> None
          | Some (Answer chosen, fs, ks) \<Rightarrow> Some (chosen, fs, ks)
          | Some (GivenUp, fs, ks) \<Rightarrow> run_startup_menu V S fs ks
          | Some (SetupFailed e, fs, ks) \<Rightarrow>
              (case show_curses_notice ks of None \<Rightarrow> None | Some ks \<Rightarrow> run_startup_menu V S fs ks))"
  by pat_completeness auto

termination
  by (relation "measure (\<lambda>(V, S, fs, ks). length ks)")
    (auto dest!: setup_shorter dest: show_curses_notice_shorter)

declare run_startup_menu.simps [simp del]

section \<open>Toggles\<close>

text \<open>The keys that can switch a toggle off.\<close>

definition switches_off :: "keystroke \<Rightarrow> bool" where
  "switches_off k \<longleftrightarrow> ks_key k \<in> {KEY_LEFT, KEY_RIGHT, Byte (CHR '' ''), Byte (CHR ''n''), Byte (CHR ''N'')}"

definition switched_on :: "nat \<Rightarrow> form_state \<Rightarrow> bool" where
  "switched_on j s \<longleftrightarrow> j < length (fs_fields s) \<and> fs_selected s < length (fs_fields s) \<and> cf_toggle (fs_fields s ! j) \<and>
     cf_value (fs_fields s ! j) = ''yes'' \<and> (fs_selected s = j \<longrightarrow> ed_text (fs_editor s) = ''yes'')"

lemma switched_on_keep: "switched_on j s \<Longrightarrow> switched_on j (keep_value s)"
  by (auto simp: switched_on_def keep_value_def nth_list_update)

lemma switched_on_select: "switched_on j s \<Longrightarrow> i < length (fs_fields s) \<Longrightarrow> switched_on j (select_field i s)"
  by (auto simp: switched_on_def select_field_def ed_set_def)

lemma switched_on_move: "switched_on j s \<Longrightarrow> switched_on j (move_in_form back s)"
  unfolding move_in_form_def Let_def by (rule switched_on_select) (auto simp: switched_on_def intro!: mod_less_divisor)

lemma switched_on_error [simp]: "switched_on j (s\<lparr>fs_error := m\<rparr>) = switched_on j s"
  by (simp add: switched_on_def)

fun step_on :: "nat \<Rightarrow> form_step \<Rightarrow> bool" where
  "step_on j (FormStay s) \<longleftrightarrow> switched_on j s"
| "step_on j (FormDetails s) \<longleftrightarrow> switched_on j s"
| "step_on j (FormDone answers) \<longleftrightarrow> cf_value (answers ! j) = ''yes''"
| "step_on j FormCancelled \<longleftrightarrow> True"

lemma submit_form_on: "switched_on j s \<Longrightarrow> step_on j (submit_form s)"
  by (auto simp: submit_form_def Let_def switched_on_move split: option.split intro!: switched_on_select dest!: first_error_Some)
    (auto simp: switched_on_def)

lemma form_key_on:
  assumes "switched_on j s" "\<not> switches_off k"
  shows "step_on j (form_key k s)"
proof -
  let ?s = "keep_value s"
  note kept = switched_on_keep [OF assms(1)]
  have toggled: "switched_on j (?s\<lparr>fs_editor := toggle_key (ks_key k) (fs_editor ?s)\<rparr>)"
    using kept assms(2) by (auto simp: switched_on_def toggle_key_def switches_off_def ed_set_def)
  have edited: "switched_on j (?s\<lparr>fs_editor := e, fs_error := m\<rparr>)" if "\<not> cf_toggle (fs_fields ?s ! fs_selected ?s)" for e m
    using kept that by (auto simp: switched_on_def)
  show ?thesis
    using kept toggled edited switched_on_keep [OF kept]
    by (simp add: form_key_def Let_def submit_form_on switched_on_move)
qed

lemma form_loop_on:
  "form_loop s ks = Some (Some answers, rest) \<Longrightarrow> switched_on j s \<Longrightarrow> \<forall>k \<in> set ks. \<not> switches_off k \<Longrightarrow> cf_value (answers ! j) = ''yes''"
proof (induction s ks rule: form_loop.induct)
  case (2 s k ks)
  have later: "\<forall>k \<in> set ks'. \<not> switches_off k" if "show_curses_notice ks = Some ks'" for ks'
    using "2.prems"(3) set_mono_suffix [OF notice_suffix [OF that]] by auto
  from form_key_on [OF "2.prems"(2), of k] 2 later show ?case by (auto split: form_step.splits option.splits)
qed simp

text \<open>A toggle that is on stays on until a key that can switch it off.\<close>

lemma toggle_stays_on:
  assumes "edit_curses_form form ks = Some (Some answers, rest)" "j < length form" "cf_toggle (form ! j)" "cf_value (form ! j) = ''yes''"
    and "cf_value (answers ! j) \<noteq> ''yes''"
  shows "\<exists>k \<in> set ks. switches_off k"
proof (rule ccontr)
  assume "\<not> (\<exists>k \<in> set ks. switches_off k)"
  moreover have "switched_on j \<lparr>fs_fields = form, fs_selected = 0,
      fs_editor = ed_set (cf_value (form ! 0)) \<lparr>ed_text = [], ed_cursor = 0\<rparr>, fs_error = []\<rparr>"
    using assms(2-4) by (auto simp: switched_on_def ed_set_def)
  ultimately show False
    using assms(1,2,5) form_loop_on by (auto simp: edit_curses_form_def split: if_splits)
qed

section \<open>What is started\<close>

lemma server_context_paths:
  "configure_server_context S config fs = None \<Longrightarrow> tls_enabled config \<Longrightarrow> certificate_path config \<noteq> [] \<and> private_key_path config \<noteq> []"
  by (auto simp: configure_server_context_def Let_def split: if_splits)

lemma configure_tls_ok:
  assumes "configure_tls S folder config fs ks = Some (Answer (), config', fs', rest)"
  shows "tls_enabled config' = tls_enabled config \<and> configure_server_context S config' fs' = None"
proof (cases "tls_enabled config")
  case False
  with assms show ?thesis by (simp add: configure_tls_def configure_server_context_def)
next
  case True
  then show ?thesis
    using assms ensure_returned [of S "in_directory folder ''tls''" fs config']
    by (auto simp: configure_tls_def Let_def bind_eq_Some_conv host_config_def split: option.splits if_splits prod.splits outcome.splits dialog.splits)
qed

lemma dedicated_form_ok: "dedicated_form \<noteq> []" "list_all (\<lambda>f. value_ok f (cf_value f)) dedicated_form"
  by (simp_all add: dedicated_form_def value_ok_def port_field_def text_field_def toggle_field_def field_default_def LOGFILE_MAX_LEN_def)

lemma publication_form_ok: "publication_form no_publication \<noteq> []" "list_all (\<lambda>f. value_ok f (cf_value f)) (publication_form no_publication)"
  by (simp_all add: publication_form_def no_publication_def value_ok_def text_field_def toggle_field_def field_default_def)

lemma publication_host_ok:
  assumes "configure_publication no_publication ks = Some (Answer pb, rest)"
  shows "plain_field HOST_MAX_LEN (pb_host pb) \<and> CHR '':'' \<notin> set (pb_host pb)"
proof -
  from assms obtain answers where answers: "edit_curses_form (publication_form no_publication) ks = Some (Some answers, rest)"
    "pb_host pb = sanitize_browser_field (cf_value (answers ! 0)) HOST_MAX_LEN"
    by (auto simp: configure_publication_def split: option.splits)
  note filled = submitted_filled [OF answers(1) publication_form_ok]
  have "cf_validate (answers ! 0) = cf_validate (publication_form no_publication ! 0)"
    using arg_cong [OF conjunct1 [OF filled_nth [OF filled(1), of 0]], of cf_validate] by (simp add: publication_form_def)
  then have "cf_validate (answers ! 0) = Some browser_host_error" by (simp add: publication_form_def)
  moreover have "field_error (answers ! 0) = []"
    using filled filled_length [OF filled(1)] by (auto simp: list_all_length publication_form_def)
  ultimately have "parse_browser_address (cf_value (answers ! 0)) \<noteq> None" by (auto simp: field_error_def browser_host_error_def split: if_splits)
  then obtain host where "parse_browser_address (cf_value (answers ! 0)) = Some host" by blast
  moreover from this have "host = pb_host pb" using answers(2) by (auto simp: parse_browser_address_def Let_def split: if_splits)
  ultimately show ?thesis using parse_browser_address_plain by blast
qed

text \<open>What holds of a configuration the menu starts a server with.\<close>

definition fit_to_run :: "openssl \<Rightarrow> host_files \<Rightarrow> dedicated_config \<Rightarrow> bool" where
  "fit_to_run S fs c \<longleftrightarrow> configure_server_context S (dc_tls c) fs = None \<and>
     1 \<le> dc_history_limit c \<and> dc_history_limit c \<le> MAX_HISTORY_PAGE \<and> length (dc_password c) \<le> PASS_MAX_LEN \<and>
     (dc_log_to_stdout_only c \<longrightarrow> dc_enable_logging c) \<and> dc_logfile c \<noteq> [] \<and>
     (dc_publish_to_browser c \<longrightarrow> plain_field HOST_MAX_LEN (dc_browser_host c) \<and> CHR '':'' \<notin> set (dc_browser_host c))"

lemma form_config_fit:
  fixes V
  assumes "length (cf_value (answers ! 1)) \<le> PASS_MAX_LEN" "configure_server_context S tls fs = None"
  defines "c \<equiv> (form_config V answers)\<lparr>dc_tls := tls\<rparr>"
  shows "\<not> dc_publish_to_browser c \<Longrightarrow> fit_to_run S fs c"
    "plain_field HOST_MAX_LEN (pb_host pb) \<and> CHR '':'' \<notin> set (pb_host pb) \<Longrightarrow> fit_to_run S fs (publish_as pb c)"
  using assms
  by (simp_all add: fit_to_run_def publish_as_def form_config_def default_dedicated_config_def Let_def SERVER_HISTORY_LIMIT_def MAX_HISTORY_PAGE_def)

lemma setup_dedicated_ok:
  assumes "setup_dedicated V S fs ks = Some (Answer chosen, fs', rest)"
  shows "\<exists>c. chosen = StartDedicated c \<and> fit_to_run S fs' c \<and> dc_browser_tls c = default_client_config V \<and>
    (\<not> tls_enabled (dc_tls c) \<longrightarrow> (\<exists>k \<in> set ks. switches_off k))"
proof -
  from assms obtain answers ks1 where answers: "edit_curses_form dedicated_form ks = Some (Some answers, ks1)"
    by (auto simp: setup_dedicated_def split: option.splits)
  let ?c = "form_config V answers"
  from assms answers obtain tls fs1 ks2 where tls: "configure_tls S (data_directory V) (dc_tls ?c) fs ks1 = Some (Answer (), tls, fs1, ks2)"
    by (auto simp: setup_dedicated_def Let_def split: option.splits dialog.splits unit.splits)
  note ok = configure_tls_ok [OF tls]
  note filled = submitted_filled(1) [OF answers dedicated_form_ok]
  have "length (cf_value (answers ! 1)) \<le> PASS_MAX_LEN"
    using filled_nth [OF filled, of 1] by (simp add: dedicated_form_def value_ok_def text_field_def field_default_def)
  note fit = form_config_fit [where V = V, OF this conjunct2 [OF ok]]
  have browser: "dc_browser_tls ?c = default_client_config V" by (simp add: form_config_def default_dedicated_config_def Let_def)
  have on: "\<exists>k \<in> set ks. switches_off k" if "\<not> tls_enabled tls"
    using toggle_stays_on [OF answers, of 3] that ok
    by (simp add: dedicated_form_def toggle_field_def field_default_def form_config_def Let_def)
  let ?started = "?c\<lparr>dc_tls := tls\<rparr>"
  show ?thesis
  proof (cases "dc_publish_to_browser ?started")
    case False
    with answers tls have "setup_dedicated V S fs ks = Some (Answer (StartDedicated ?started), fs1, ks2)"
      by (simp add: setup_dedicated_def Let_def)
    with assms have "chosen = StartDedicated ?started" "fs' = fs1" by simp_all
    with fit(1) [OF False] browser on show ?thesis by simp
  next
    case True
    with answers tls have "setup_dedicated V S fs ks = (case configure_publication no_publication ks2 of None \<Rightarrow> None
        | Some (GivenUp, ks) \<Rightarrow> Some (GivenUp, fs1, ks) | Some (SetupFailed e, ks) \<Rightarrow> Some (SetupFailed e, fs1, ks)
        | Some (Answer pb, ks) \<Rightarrow> Some (Answer (StartDedicated (publish_as pb ?started)), fs1, ks))"
      by (simp add: setup_dedicated_def Let_def)
    with assms obtain pb where pb: "configure_publication no_publication ks2 = Some (Answer pb, rest)"
      "chosen = StartDedicated (publish_as pb ?started)" "fs' = fs1"
      by (auto split: option.splits dialog.splits)
    with fit(2) [OF publication_host_ok [OF pb(1)]] browser on show ?thesis by (simp add: publish_as_def)
  qed
qed

lemma setup_directory_ok:
  assumes "setup_directory V S fs ks = Some (Answer chosen, fs', rest)"
  shows "\<exists>tls. chosen = StartDirectory BROWSER_PORT tls \<and> configure_server_context S tls fs' = None \<and>
    (\<not> tls_enabled tls \<longrightarrow> (\<exists>k \<in> set ks. switches_off k))"
proof -
  let ?form = "[toggle_field ''Use TLS'' True]"
  from assms obtain answers ks1 where answers: "edit_curses_form ?form ks = Some (Some answers, ks1)"
    by (auto simp: setup_directory_def split: option.splits)
  have "\<exists>k \<in> set ks. switches_off k" if "cf_value (answers ! 0) \<noteq> ''yes''"
    using toggle_stays_on [OF answers, of 0] that by (simp add: toggle_field_def field_default_def)
  then show ?thesis
    using assms answers
    by (auto simp: setup_directory_def split: option.splits dialog.splits unit.splits dest!: configure_tls_ok)
qed

fun startup_ok :: "trust_env \<Rightarrow> openssl \<Rightarrow> host_files \<Rightarrow> bool \<Rightarrow> startup \<Rightarrow> bool" where
  "startup_ok V S fs off (StartDedicated c) \<longleftrightarrow> fit_to_run S fs c \<and> dc_browser_tls c = default_client_config V \<and> (tls_enabled (dc_tls c) \<or> off)"
| "startup_ok V S fs off (StartDirectory port tls) \<longleftrightarrow> port = BROWSER_PORT \<and> configure_server_context S tls fs = None \<and> (tls_enabled tls \<or> off)"
| "startup_ok V S fs off QuitStartup \<longleftrightarrow> True"
| "startup_ok V S fs off StartChatting \<longleftrightarrow> True"

lemma startup_ok_mono: "startup_ok V S fs off chosen \<Longrightarrow> (off \<Longrightarrow> off') \<Longrightarrow> startup_ok V S fs off' chosen"
  by (cases chosen) auto

lemma setup_ok:
  assumes "(if mode = 1 then setup_dedicated V S fs ks else setup_directory V S fs ks) = Some (Answer chosen, fs', rest)"
  shows "startup_ok V S fs' (\<exists>k \<in> set ks. switches_off k) chosen"
  using assms setup_dedicated_ok [of V S fs ks chosen fs' rest] setup_directory_ok [of V S fs ks chosen fs' rest]
  by (auto split: if_splits)

lemma run_startup_menu_ok:
  "run_startup_menu V S fs ks = Some (chosen, fs', rest) \<Longrightarrow> startup_ok V S fs' (\<exists>k \<in> set ks. switches_off k) chosen"
proof (induction V S fs ks rule: run_startup_menu.induct)
  case (1 V S fs ks)
  obtain mode ks1 where mode: "choose_curses_menu startup_items ks = Some (mode, ks1)"
    using "1.prems" by (auto simp: run_startup_menu.simps [of V S fs ks] split: option.splits)
  have within: "set ks1 \<subseteq> set ks"
    using menu_suffix_strict [OF mode] by (auto simp: startup_items_def strict_suffix_def dest: set_mono_suffix)
  show ?case
  proof (cases "mode < 0 \<or> mode = 3 \<or> mode = 0")
    case True
    with mode "1.prems" show ?thesis by (auto simp: run_startup_menu.simps [of V S fs ks] split: if_splits)
  next
    case False
    let ?given = "if mode = 1 then setup_dedicated V S fs ks1 else setup_directory V S fs ks1"
    from mode "1.prems" False obtain result fs2 ks2 where result: "?given = Some (result, fs2, ks2)"
      by (simp add: run_startup_menu.simps [of V S fs ks] split: option.splits prod.splits if_splits)
    have later: "set ks2 \<subseteq> set ks" using setup_shorter [OF mode result] set_mono_suffix by blast
    show ?thesis
    proof (cases result)
      case (Answer c)
      with mode "1.prems" False result have "c = chosen" "fs2 = fs'" by (simp_all add: run_startup_menu.simps [of V S fs ks])
      with setup_ok result Answer have "startup_ok V S fs' (\<exists>k \<in> set ks1. switches_off k) chosen" by blast
      then show ?thesis by (rule startup_ok_mono) (use within in blast)
    next
      case GivenUp
      with mode "1.prems" False result have "run_startup_menu V S fs2 ks2 = Some (chosen, fs', rest)"
        by (simp add: run_startup_menu.simps [of V S fs ks])
      with "1.IH"(1) [OF mode _ _ _ result] False GivenUp have "startup_ok V S fs' (\<exists>k \<in> set ks2. switches_off k) chosen" by blast
      then show ?thesis by (rule startup_ok_mono) (use later in blast)
    next
      case (SetupFailed e)
      with mode "1.prems" False result obtain ks3 where ks3: "show_curses_notice ks2 = Some ks3"
        "run_startup_menu V S fs2 ks3 = Some (chosen, fs', rest)"
        by (auto simp: run_startup_menu.simps [of V S fs ks] split: option.splits)
      with "1.IH"(2) [OF mode _ _ _ result] False SetupFailed have "startup_ok V S fs' (\<exists>k \<in> set ks3. switches_off k) chosen" by blast
      then show ?thesis
        by (rule startup_ok_mono) (use later set_mono_suffix [OF notice_suffix [OF ks3(1)]] in blast)
    qed
  qed
qed

text \<open>
  C35: What the first menu starts is fit to run. Whatever keys are pressed, with returns to the menu and failures in between: a dedicated
  server is started only with a certificate and key that OpenSSL accepts at that moment, or without TLS after a key that can switch
  it off; with a history limit the storage accepts, a password within its limit, a log file, and, if it is to be published, the name of a
  directory without a port; \<open>run_dedicated_server_config\<close> does not refuse it for its TLS settings. The same holds of the
  TLS settings of a directory, which is started on its fixed port.
\<close>

theorem startup_menu_fit:
  assumes "run_startup_menu V S fs ks = Some (chosen, fs', rest)"
  shows "case chosen of
      StartDedicated c \<Rightarrow>
        (if tls_enabled (dc_tls c) then configure_server_context S (dc_tls c) fs' = None else \<exists>k \<in> set ks. switches_off k) \<and>
        1 \<le> dc_history_limit c \<and> dc_history_limit c \<le> MAX_HISTORY_PAGE \<and> length (dc_password c) \<le> PASS_MAX_LEN \<and>
        (dc_log_to_stdout_only c \<longrightarrow> dc_enable_logging c) \<and> dc_logfile c \<noteq> [] \<and>
        (dc_publish_to_browser c \<longrightarrow> parse_browser_address (dc_browser_host c) = Some (dc_browser_host c)) \<and>
        (\<forall>E P. run_dedicated_server_config E P c \<noteq>
          Inl ''TLS is required by default. Supply --tls-cert and --tls-key, or explicitly use --allow-plaintext.'')
    | StartDirectory port tls \<Rightarrow> port = BROWSER_PORT \<and>
        (if tls_enabled tls then configure_server_context S tls fs' = None \<and> certificate_path tls \<noteq> [] \<and> private_key_path tls \<noteq> []
         else \<exists>k \<in> set ks. switches_off k)
    | _ \<Rightarrow> True"
proof -
  note ok = run_startup_menu_ok [OF assms]
  have parsed: "parse_browser_address host = Some host" if "plain_field HOST_MAX_LEN host" "CHR '':'' \<notin> set host" for host
    using that by (simp add: parse_browser_address_def Let_def plain_field_def)
  have accepted: "run_dedicated_server_config E P c \<noteq>
      Inl ''TLS is required by default. Supply --tls-cert and --tls-key, or explicitly use --allow-plaintext.''"
    if "configure_server_context S (dc_tls c) fs' = None" for E P c
    using server_context_paths [OF that]
    by (auto simp: run_dedicated_server_config_def split: sum.splits option.splits)
  show ?thesis
  proof (cases chosen)
    case (StartDedicated c)
    with ok parsed accepted show ?thesis by (auto simp: fit_to_run_def)
  next
    case (StartDirectory port tls)
    with ok server_context_paths show ?thesis by auto
  qed simp_all
qed

lemma demo_startup_menu:
  "run_startup_menu V S fs [press KEY_DOWN, press KEY_DOWN, press KEY_ENTER, press (Byte CHR ''n''), press KEY_ENTER] =
     Some (StartDirectory BROWSER_PORT \<lparr>tls_enabled = False, certificate_path = [], private_key_path = []\<rparr>, fs, [])"
  by (simp add: run_startup_menu.simps choose_curses_menu_def startup_items_def menu_key_def setup_directory_def configure_tls_def
      edit_curses_form_def toggle_field_def field_default_def form_key_def toggle_key_def submit_form_def keep_value_def field_error_def
      press_def is_byte_def is_enter_def small_screen_def byte_def ctype_defs ed_set_def Let_def)

theorem startup_menu_fit_witness:
  "\<exists>fs' rest port tls. run_startup_menu demo_trust_env demo_openssl no_host_files [press KEY_DOWN, press KEY_DOWN, press KEY_ENTER, press (Byte CHR ''n''), press KEY_ENTER] =
     Some (StartDirectory port tls, fs', rest) \<and> port = BROWSER_PORT"
  using startup_menu_fit [OF demo_startup_menu [of demo_trust_env demo_openssl no_host_files]] demo_startup_menu by simp

text \<open>
  The answers about the TLS of the directory a server is to be published to are not used: the server
  always talks to the directory with the default settings.
\<close>

lemma directory_tls_not_used:
  assumes "run_startup_menu V S fs ks = Some (StartDedicated c, fs', rest)"
  shows "dc_browser_tls c = default_client_config V"
  using run_startup_menu_ok [OF assms] by simp

end
