(* ===== verification/App_Menu.thy ===== *)
theory App_Menu
  imports Setup_Menu "HOL-Library.Monad_Syntax"
begin

text \<open>
  The main menu of \<open>run_curses_app\<close> (\<open>ui/interactive_app.cpp\<close>): its local variables, the nickname prompt, and each entry of the menu up
  to the point where a server is opened or a connection is made; what follows is \<open>connect_loop\<close> of \<open>Interactive_App\<close> and \<open>host_session\<close> of
  \<open>Host_Session\<close>. One turn of the menu is a function of the keystrokes to come; OpenSSL, identities, the directory, the user's answer about a
  certificate and whether a save succeeds are the record \<open>app_env\<close>. \<open>sh_saves\<close> collects what was handed to \<open>save_preferences\<close>.
  Leaving a form is \<open>CursesFormCancelled\<close>, which goes back to the menu.
\<close>

section \<open>The variables of the application\<close>

text \<open>What the host form has settled.\<close>

record host_plan =
  hp_port :: u16
  hp_password :: string
  hp_upnp :: bool
  hp_tls :: server_config
  hp_publication :: "(string \<times> publication) option"

datatype app_phase = AtMenu | HostPhase host_plan | JoinPhase string u16 client_config | QuitPhase

record shell =
  sh_phase :: app_phase
  sh_nickname :: string
  sh_preferences :: preferences
  sh_saves :: "preferences list"
  sh_draft :: string
  sh_host :: string
  sh_port :: string
  sh_join_tls :: string
  sh_host_port :: string
  sh_password :: string
  sh_upnp :: string
  sh_host_tls :: string
  sh_certificate :: server_config
  sh_files :: host_files

datatype directory_answer = DirectoryCancelled | DirectoryThrew string | DirectoryError string | DirectoryEntries "browser_entry list"

record app_env =
  ap_trust :: trust_env
  ap_ssl :: openssl
  ap_confirm :: "string \<Rightarrow> string \<Rightarrow> string \<Rightarrow> bool"
  ap_identity :: "string \<Rightarrow> bool"
  ap_save_fails :: "nat \<Rightarrow> bool"
  ap_directory :: "string \<Rightarrow> client_config \<Rightarrow> directory_answer"
  ap_now :: int

definition interactive_tls :: "app_env \<Rightarrow> client_config" where
  "interactive_tls A = (default_client_config (ap_trust A))\<lparr>trust_on_first_use := False, confirm_certificate := Some (ap_confirm A)\<rparr>"

text \<open>\<open>save_preferences\<close> of the application: a failure is shown.\<close>

definition save_now :: "app_env \<Rightarrow> shell \<Rightarrow> keystroke list \<Rightarrow> (shell \<times> keystroke list) option" where
  "save_now A sh ks =
     (let sh' = sh\<lparr>sh_saves := sh_saves sh @ [sh_preferences sh]\<rparr> in
      if ap_save_fails A (length (sh_saves sh)) then do {ks \<leftarrow> show_curses_notice ks; Some (sh', ks)} else Some (sh', ks))"

definition notify_user :: "shell \<Rightarrow> keystroke list \<Rightarrow> (shell \<times> keystroke list) option" where
  "notify_user sh ks = do {ks \<leftarrow> show_curses_notice ks; Some (sh, ks)}"

definition on_preferences :: "(preferences \<Rightarrow> preferences) \<Rightarrow> shell \<Rightarrow> shell" where
  "on_preferences f sh = sh\<lparr>sh_preferences := f (sh_preferences sh)\<rparr>"

definition assign_option :: "string \<Rightarrow> string \<Rightarrow> shell \<Rightarrow> shell" where
  "assign_option name v = on_preferences (preferences_step (OptionSet name v))"

text \<open>\<open>preferences.options[name]\<close> read: the value, and an empty one is inserted if there is none.\<close>

definition read_option :: "string \<Rightarrow> shell \<Rightarrow> string \<times> shell" where
  "read_option name sh =
     (let (v, options) = option_ref name (pf_options (sh_preferences sh))
      in (v, on_preferences (\<lambda>p. p\<lparr>pf_options := options\<rparr>) sh))"

section \<open>The nickname\<close>

definition nickname_dialog :: "app_env \<Rightarrow> shell \<Rightarrow> keystroke list \<Rightarrow> (shell \<times> keystroke list) option" where
  "nickname_dialog A sh ks = do {
     (form, ks) \<leftarrow> edit_curses_form (nickname_form (sh_nickname sh) (pf_remember (sh_preferences sh))) ks;
     case form of
       None \<Rightarrow> Some (sh, ks)
     | Some form \<Rightarrow>
         if \<not> ap_identity A (cf_value (form ! 0)) then notify_user sh ks
         else save_now A (on_preferences (preferences_step (NicknameSubmitted form)) (sh\<lparr>sh_nickname := cf_value (form ! 0)\<rparr>)) ks}"

section \<open>Recent servers\<close>

definition recent_items :: "preferences \<Rightarrow> menu_item list" where
  "recent_items p = map (\<lambda>e. \<lparr>mi_shortcut = None, mi_title = rs_name e,
     mi_description = rs_host e @ '':'' @ nat_to_string (unat (rs_port e)) @ (if rs_tls e then '' (TLS)'' else '' (insecure plaintext)'')\<rparr>) (pf_recent p)"

definition recent_actions :: "menu_item list" where
  "recent_actions =
     [\<lparr>mi_shortcut = Some CHR ''j'', mi_title = ''Join'', mi_description = ''Connect using these settings.''\<rparr>,
      \<lparr>mi_shortcut = Some CHR ''n'', mi_title = ''Rename'', mi_description = ''Change the display name.''\<rparr>,
      \<lparr>mi_shortcut = Some CHR ''d'', mi_title = ''Remove'', mi_description = ''Forget this saved connection.''\<rparr>]"

definition join_recent :: "app_env \<Rightarrow> recent_server \<Rightarrow> app_phase" where
  "join_recent A r = JoinPhase (rs_host r) (rs_port r)
     ((interactive_tls A)\<lparr>enabled := rs_tls r, ca_path := rs_ca_path r, expected_fingerprint := rs_fingerprint r\<rparr>)"

definition rename_dialog :: "app_env \<Rightarrow> nat \<Rightarrow> shell \<Rightarrow> keystroke list \<Rightarrow> (shell \<times> keystroke list) option" where
  "rename_dialog A i sh ks = do {
     (form, ks) \<leftarrow> edit_curses_form [required_field ''Display name'' (rs_name (pf_recent (sh_preferences sh) ! i)) HOST_MAX_LEN] ks;
     case form of
       None \<Rightarrow> Some (sh, ks)
     | Some form \<Rightarrow> save_now A (on_preferences (preferences_step (ServerRenamed i (cf_value (form ! 0)))) sh) ks}"

definition recent_dialog :: "app_env \<Rightarrow> shell \<Rightarrow> keystroke list \<Rightarrow> (shell \<times> keystroke list) option" where
  "recent_dialog A sh ks =
     (let items = recent_items (sh_preferences sh) in
      if items = [] then notify_user sh ks
      else do {
        (chosen, ks) \<leftarrow> choose_curses_menu items ks;
        if chosen < 0 then Some (sh, ks)
        else do {
          (action, ks) \<leftarrow> choose_curses_menu recent_actions ks;
          if action = 0 then Some (sh\<lparr>sh_phase := join_recent A (pf_recent (sh_preferences sh) ! nat chosen)\<rparr>, ks)
          else if action = 1 then rename_dialog A (nat chosen) sh ks
          else if action = 2 then save_now A (on_preferences (preferences_step (ServerRemoved (nat chosen))) sh) ks
          else Some (sh, ks)}})"

section \<open>Joining\<close>

definition invite_items :: "menu_item list" where
  "invite_items =
     [\<lparr>mi_shortcut = Some CHR ''b'', mi_title = ''Back'', mi_description = ''Discard invite.''\<rparr>,
      \<lparr>mi_shortcut = Some CHR ''j'', mi_title = ''Join'', mi_description = ''Use these connection details.''\<rparr>]"

definition join_invited :: "app_env \<Rightarrow> invite \<Rightarrow> app_phase" where
  "join_invited A i = JoinPhase (invite_host i) (invite_port i)
     ((interactive_tls A)\<lparr>enabled := invite_tls i, expected_fingerprint := invite_fingerprint i\<rparr>)"

definition invite_dialog :: "app_env \<Rightarrow> shell \<Rightarrow> keystroke list \<Rightarrow> (shell \<times> keystroke list) option" where
  "invite_dialog A sh ks = do {
     (form, ks) \<leftarrow> edit_curses_form [required_field ''Chatbox invite'' [] 1024] ks;
     case form of
       None \<Rightarrow> Some (sh, ks)
     | Some form \<Rightarrow>
         (case parse_invite (cf_value (form ! 0)) of
            Inl e \<Rightarrow> notify_user sh ks
          | Inr i \<Rightarrow> do {
              ks \<leftarrow> show_curses_notice ks;
              (choice, ks) \<leftarrow> choose_curses_menu invite_items ks;
              if choice \<noteq> 1 then Some (sh, ks) else Some (sh\<lparr>sh_phase := join_invited A i\<rparr>, ks)})}"

definition directory_form :: "string \<Rightarrow> string \<Rightarrow> string \<Rightarrow> string \<Rightarrow> curses_field list" where
  "directory_form host tls ca pin =
     [required_field ''Directory host'' host HOST_MAX_LEN,
      toggle_field ''Use TLS (no = insecure plaintext)'' (tls \<noteq> ''no''),
      text_field ''Trusted CA file (optional)'' ca LOGFILE_MAX_LEN,
      text_field ''SHA-256 fingerprint (optional)'' pin 95]"

definition join_listed :: "app_env \<Rightarrow> browser_entry \<Rightarrow> app_phase" where
  "join_listed A e = JoinPhase (be_host e) (be_port e) ((interactive_tls A)\<lparr>enabled := be_uses_tls e\<rparr>)"

definition choose_listed :: "app_env \<Rightarrow> directory_answer \<Rightarrow> shell \<Rightarrow> keystroke list \<Rightarrow> (shell \<times> keystroke list) option" where
  "choose_listed A answer sh ks =
     (case answer of
        DirectoryCancelled \<Rightarrow> Some (sh, ks)
      | DirectoryThrew e \<Rightarrow> notify_user sh ks
      | DirectoryError e \<Rightarrow> notify_user sh ks
      | DirectoryEntries listing \<Rightarrow>
          if listing = [] then notify_user sh ks
          else do {
            (chosen, ks) \<leftarrow> choose_curses_menu (map (\<lambda>e. \<lparr>mi_shortcut = None, mi_title = be_name e,
                 mi_description = browser_entry_summary (ap_now A) e\<rparr>) listing) ks;
            if chosen < 0 then Some (sh, ks)
            else do {ks \<leftarrow> show_curses_notice ks; Some (sh\<lparr>sh_phase := join_listed A (listing ! nat chosen)\<rparr>, ks)}})"

definition discover_dialog :: "app_env \<Rightarrow> shell \<Rightarrow> keystroke list \<Rightarrow> (shell \<times> keystroke list) option" where
  "discover_dialog A sh ks =
     (let (host, sh) = read_option ''directory.host'' sh; (tls, sh) = read_option ''directory.tls'' sh;
          (ca, sh) = read_option ''directory.ca'' sh; (pin, sh) = read_option ''directory.pin'' sh
      in do {
        (form, ks) \<leftarrow> edit_curses_form (directory_form host tls ca pin) ks;
        case form of
          None \<Rightarrow> Some (sh, ks)
        | Some form \<Rightarrow> do {
            (sh, ks) \<leftarrow> save_now A (assign_option ''directory.pin'' (cf_value (form ! 3)) (assign_option ''directory.ca'' (cf_value (form ! 2))
              (assign_option ''directory.tls'' (cf_value (form ! 1)) (assign_option ''directory.host'' (cf_value (form ! 0)) sh)))) ks;
            case parse_browser_address (cf_value (form ! 0)) of
              None \<Rightarrow> notify_user sh ks
            | Some address \<Rightarrow> choose_listed A (ap_directory A address ((interactive_tls A)\<lparr>enabled := (cf_value (form ! 1) = ''yes''),
                ca_path := cf_value (form ! 2), expected_fingerprint := cf_value (form ! 3)\<rparr>)) sh ks}})"

definition join_form :: "shell \<Rightarrow> string \<Rightarrow> string \<Rightarrow> curses_field list" where
  "join_form sh ca pin =
     [required_field ''Host address'' (sh_host sh) HOST_MAX_LEN,
      field_default\<lparr>cf_label := ''Port'', cf_value := sh_port sh, cf_limit := 5, cf_validate := Some port_error\<rparr>,
      field_default\<lparr>cf_label := ''Use TLS (no = insecure plaintext)'', cf_value := sh_join_tls sh, cf_limit := 3, cf_toggle := True\<rparr>,
      text_field ''Trusted CA file (optional)'' ca LOGFILE_MAX_LEN,
      text_field ''SHA-256 fingerprint (optional)'' pin 95]"

text \<open>\<open>selected_port\<close> is 0 before \<open>parse_port\<close>.\<close>

definition join_typed :: "app_env \<Rightarrow> curses_field list \<Rightarrow> app_phase" where
  "join_typed A form = JoinPhase (cf_value (form ! 0)) (case parse_port (cf_value (form ! 1)) of None \<Rightarrow> 0 | Some port \<Rightarrow> port)
     ((interactive_tls A)\<lparr>enabled := (cf_value (form ! 2) = ''yes''), ca_path := cf_value (form ! 3), expected_fingerprint := cf_value (form ! 4)\<rparr>)"

definition join_dialog :: "app_env \<Rightarrow> shell \<Rightarrow> keystroke list \<Rightarrow> (shell \<times> keystroke list) option" where
  "join_dialog A sh ks =
     (let (ca, sh) = read_option ''join.ca'' sh; (pin, sh) = read_option ''join.pin'' sh in do {
        (form, ks) \<leftarrow> edit_curses_form (join_form sh ca pin) ks;
        case form of
          None \<Rightarrow> Some (sh, ks)
        | Some form \<Rightarrow> do {
            (sh, ks) \<leftarrow> save_now A (assign_option ''join.pin'' (cf_value (form ! 4)) (assign_option ''join.ca'' (cf_value (form ! 3))
              (sh\<lparr>sh_host := cf_value (form ! 0), sh_port := cf_value (form ! 1), sh_join_tls := cf_value (form ! 2)\<rparr>))) ks;
            Some (sh\<lparr>sh_phase := join_typed A form\<rparr>, ks)}})"

section \<open>Hosting\<close>

definition host_form :: "shell \<Rightarrow> curses_field list" where
  "host_form sh =
     [field_default\<lparr>cf_label := ''Port (TCP)'', cf_value := sh_host_port sh, cf_limit := 5, cf_validate := Some port_error\<rparr>,
      (text_field ''Password (optional)'' (sh_password sh) PASS_MAX_LEN)\<lparr>cf_secret := True\<rparr>,
      field_default\<lparr>cf_label := ''Automatic port forwarding (UPnP)'', cf_value := sh_upnp sh, cf_limit := 3, cf_toggle := True\<rparr>,
      toggle_field ''Publish to a server directory'' False,
      field_default\<lparr>cf_label := ''Use TLS (no = insecure plaintext)'', cf_value := sh_host_tls sh, cf_limit := 3, cf_toggle := True\<rparr>]"

definition stored_publication :: "shell \<Rightarrow> publication \<times> shell" where
  "stored_publication sh =
     (let (host, sh) = read_option ''publish.host'' sh; (name, sh) = read_option ''publish.name'' sh;
          (address, sh) = read_option ''publish.address'' sh; (tls, sh) = read_option ''publish.tls'' sh;
          (ca, sh) = read_option ''publish.ca'' sh; (pin, sh) = read_option ''publish.pin'' sh
      in (\<lparr>pb_host = host, pb_name = name, pb_public_host = address, pb_tls = (tls \<noteq> ''no''), pb_ca_path = ca, pb_fingerprint = pin\<rparr>, sh))"

definition store_publication :: "publication \<Rightarrow> shell \<Rightarrow> shell" where
  "store_publication pb sh =
     assign_option ''publish.pin'' (pb_fingerprint pb) (assign_option ''publish.ca'' (pb_ca_path pb)
       (assign_option ''publish.tls'' (if pb_tls pb then ''yes'' else ''no'') (assign_option ''publish.address'' (pb_public_host pb)
         (assign_option ''publish.name'' (pb_name pb) (assign_option ''publish.host'' (pb_host pb) sh)))))"

text \<open>The last checks before the server is opened.\<close>

definition plan_host :: "curses_field list \<Rightarrow> publication option \<Rightarrow> shell \<Rightarrow> keystroke list \<Rightarrow> (shell \<times> keystroke list) option" where
  "plan_host form pb sh ks =
     (case parse_port (cf_value (form ! 0)) of
        None \<Rightarrow> notify_user sh ks
      | Some port \<Rightarrow>
          let plan = \<lparr>hp_port = port, hp_password = cf_value (form ! 1), hp_upnp = (cf_value (form ! 2) = ''yes''), hp_tls = sh_certificate sh,
                hp_publication = None\<rparr> in
          (case pb of
             None \<Rightarrow> Some (sh\<lparr>sh_phase := HostPhase plan\<rparr>, ks)
           | Some pb \<Rightarrow>
               (case parse_browser_address (pb_host pb) of
                  None \<Rightarrow> notify_user sh ks
                | Some address \<Rightarrow> Some (sh\<lparr>sh_phase := HostPhase (plan\<lparr>hp_publication := Some (address, pb)\<rparr>)\<rparr>, ks))))"

definition publish_dialog :: "app_env \<Rightarrow> curses_field list \<Rightarrow> shell \<Rightarrow> keystroke list \<Rightarrow> (shell \<times> keystroke list) option" where
  "publish_dialog A form sh ks =
     (let (previous, sh) = stored_publication sh in do {
        (answer, ks) \<leftarrow> configure_publication previous ks;
        case answer of
          GivenUp \<Rightarrow> Some (sh, ks)
        | SetupFailed e \<Rightarrow> notify_user sh ks
        | Answer pb \<Rightarrow> do {
            (sh, ks) \<leftarrow> save_now A (store_publication pb sh) ks;
            plan_host form (Some pb) sh ks}})"

text \<open>The certificate, which is remembered, and the publication.\<close>

definition secure_host :: "app_env \<Rightarrow> curses_field list \<Rightarrow> shell \<Rightarrow> keystroke list \<Rightarrow> (shell \<times> keystroke list) option" where
  "secure_host A form sh ks = do {
     (answer, config, fs, ks) \<leftarrow> configure_tls (ap_ssl A) (data_directory (ap_trust A))
       ((sh_certificate sh)\<lparr>tls_enabled := (cf_value (form ! 4) = ''yes'')\<rparr>) (sh_files sh) ks;
     let sh = sh\<lparr>sh_certificate := config, sh_files := fs\<rparr>;
     case answer of
       GivenUp \<Rightarrow> Some (sh, ks)
     | SetupFailed e \<Rightarrow> notify_user sh ks
     | Answer _ \<Rightarrow> do {
         (sh, ks) \<leftarrow> save_now A (assign_option ''host.key'' (private_key_path config)
           (assign_option ''host.certificate'' (certificate_path config) sh)) ks;
         if cf_value (form ! 3) = ''yes'' then publish_dialog A form sh ks else plan_host form None sh ks}}"

definition host_dialog :: "app_env \<Rightarrow> shell \<Rightarrow> keystroke list \<Rightarrow> (shell \<times> keystroke list) option" where
  "host_dialog A sh ks = do {
     (form, ks) \<leftarrow> edit_curses_form (host_form sh) ks;
     case form of
       None \<Rightarrow> Some (sh, ks)
     | Some form \<Rightarrow> secure_host A form (sh\<lparr>sh_host_port := cf_value (form ! 0), sh_password := cf_value (form ! 1),
         sh_upnp := cf_value (form ! 2), sh_host_tls := cf_value (form ! 4)\<rparr>) ks}"

section \<open>The menu\<close>

definition main_items :: "menu_item list" where
  "main_items =
     [\<lparr>mi_shortcut = Some CHR ''j'', mi_title = ''Join a server'', mi_description = ''Connect using a host address and port''\<rparr>,
      \<lparr>mi_shortcut = Some CHR ''h'', mi_title = ''Host a conversation'', mi_description = ''Create a server and invite your people''\<rparr>,
      \<lparr>mi_shortcut = Some CHR ''b'', mi_title = ''Discover servers'', mi_description = ''Find a community in a server directory''\<rparr>,
      \<lparr>mi_shortcut = Some CHR ''r'', mi_title = ''Recent servers'', mi_description = ''Review, join, rename, or remove a remembered server.''\<rparr>,
      \<lparr>mi_shortcut = Some CHR ''n'', mi_title = ''Nickname and preferences'', mi_description = ''Choose a local identity and whether to remember servers.''\<rparr>,
      \<lparr>mi_shortcut = Some CHR ''i'', mi_title = ''Join by invite'', mi_description = ''Paste a versioned Chatbox invite and review its settings.''\<rparr>,
      \<lparr>mi_shortcut = Some CHR ''q'', mi_title = ''Quit'', mi_description = ''Close chatbox''\<rparr>]"

definition menu_turn :: "app_env \<Rightarrow> shell \<Rightarrow> keystroke list \<Rightarrow> (shell \<times> keystroke list) option" where
  "menu_turn A sh ks = do {
     (choice, ks) \<leftarrow> choose_curses_menu main_items ks;
     if choice = 0 then join_dialog A sh ks
     else if choice = 1 then host_dialog A sh ks
     else if choice = 2 then discover_dialog A sh ks
     else if choice = 3 then recent_dialog A sh ks
     else if choice = 4 then nickname_dialog A sh ks
     else if choice = 5 then invite_dialog A sh ks
     else Some (sh\<lparr>sh_phase := QuitPhase\<rparr>, ks)}"

text \<open>
  The beginning of \<open>run_curses_app\<close>, after the startup menu: the preferences that were loaded, the nickname prompt, the identity, and the
  initial values. \<open>None\<close> for the phase says that the form was left or the identity could not be loaded.
\<close>

definition open_app :: "app_env \<Rightarrow> preferences \<Rightarrow> host_files \<Rightarrow> keystroke list \<Rightarrow> (shell option \<times> keystroke list) option" where
  "open_app A loaded fs ks = do {
     (form, ks) \<leftarrow> edit_curses_form (nickname_form (pf_nickname loaded) (pf_remember loaded)) ks;
     case form of
       None \<Rightarrow> Some (None, ks)
     | Some form \<Rightarrow> do {
         let p = apply_nickname_form form loaded;
         let sh = \<lparr>sh_phase = AtMenu, sh_nickname = cf_value (form ! 0), sh_preferences = p, sh_saves = [], sh_draft = [],
           sh_host = ''localhost'', sh_port = ''7777'', sh_join_tls = ''yes'', sh_host_port = ''7777'', sh_password = [], sh_upnp = ''yes'',
           sh_host_tls = ''yes'', sh_certificate = \<lparr>tls_enabled = False, certificate_path = [], private_key_path = []\<rparr>, sh_files = fs\<rparr>;
         (sh, ks) \<leftarrow> save_now A sh ks;
         let (cert, sh) = read_option ''host.certificate'' sh;
         let (key, sh) = read_option ''host.key'' sh;
         if \<not> ap_identity A (cf_value (form ! 0)) then Some (None, ks)
         else Some (Some (sh\<lparr>sh_certificate := (sh_certificate sh)\<lparr>certificate_path := cert, private_key_path := key\<rparr>\<rparr>), ks)}}"

text \<open>
  The application as a machine: a turn of the menu, the end of a session with a server that was joined, and the end of hosting.
\<close>

datatype shell_event = MenuTurn app_env "keystroke list" | JoinEnded "connect_attempt list" string | HostEnded string

definition end_join :: "connect_attempt list \<Rightarrow> string \<Rightarrow> shell \<Rightarrow> shell option" where
  "end_join attempts drafted sh =
     (case sh_phase sh of
        JoinPhase host port config \<Rightarrow>
          map_option (\<lambda>(events, p). sh\<lparr>sh_phase := AtMenu, sh_preferences := p, sh_draft := drafted,
              sh_saves := sh_saves sh @ (if pf_remember p then replicate (length (filter (\<lambda>e. e = Chatted) events)) p else [])\<rparr>)
            (connect_loop (joined_server host port config) False 0 [] attempts (sh_preferences sh))
      | _ \<Rightarrow> None)"

fun app_next :: "shell_event \<Rightarrow> shell \<Rightarrow> shell option" where
  "app_next (MenuTurn A ks) sh = (if sh_phase sh = AtMenu then map_option fst (menu_turn A sh ks) else None)"
| "app_next (JoinEnded attempts drafted) sh = end_join attempts drafted sh"
| "app_next (HostEnded drafted) sh =
     (case sh_phase sh of HostPhase plan \<Rightarrow> Some (sh\<lparr>sh_phase := AtMenu, sh_draft := drafted\<rparr>) | _ \<Rightarrow> None)"

end
