(* ===== verification/App_Fields.thy ===== *)
theory App_Fields
  imports App_Menu
begin

text \<open>
  Fields of a form one by one. The forms of the application are filled with stored settings, some of which may be longer than
  their fields accept; what is known of a submitted field does not depend on the others.
\<close>

section \<open>Fields one by one\<close>

text \<open>
  A form whose other fields may hold anything, values longer than their limit included: the field \<open>j\<close> and the text being edited, if it belongs to it.
\<close>

definition same_rules :: "curses_field \<Rightarrow> curses_field \<Rightarrow> bool" where
  "same_rules f g \<longleftrightarrow> cf_toggle g = cf_toggle f \<and> cf_limit g = cf_limit f \<and> cf_validate g = cf_validate f"

definition field_kept :: "curses_field \<Rightarrow> nat \<Rightarrow> nat \<Rightarrow> form_state \<Rightarrow> bool" where
  "field_kept f n j s \<longleftrightarrow> length (fs_fields s) = n \<and> j < n \<and> fs_selected s < n \<and>
     same_rules f (fs_fields s ! j) \<and> value_ok f (cf_value (fs_fields s ! j)) \<and>
     (fs_selected s = j \<longrightarrow> value_ok f (ed_text (fs_editor s)) \<and> ed_cursor (fs_editor s) \<le> length (ed_text (fs_editor s)))"

lemma field_kept_keep: "field_kept f n j s \<Longrightarrow> field_kept f n j (keep_value s)"
  by (auto simp: field_kept_def keep_value_def nth_list_update same_rules_def)

lemma field_kept_select: "field_kept f n j s \<Longrightarrow> i < n \<Longrightarrow> field_kept f n j (select_field i s)"
  by (auto simp: field_kept_def select_field_def ed_set_def)

lemma field_kept_move: "field_kept f n j s \<Longrightarrow> field_kept f n j (move_in_form b s)"
  unfolding move_in_form_def Let_def by (rule field_kept_select) (auto simp: field_kept_def intro!: mod_less_divisor)

lemma field_kept_error [simp]: "field_kept f n j (s\<lparr>fs_error := m\<rparr>) = field_kept f n j s"
  by (simp add: field_kept_def)

fun step_kept :: "curses_field \<Rightarrow> nat \<Rightarrow> nat \<Rightarrow> form_step \<Rightarrow> bool" where
  "step_kept f n j (FormStay s) \<longleftrightarrow> field_kept f n j s"
| "step_kept f n j (FormDetails s) \<longleftrightarrow> field_kept f n j s"
| "step_kept f n j (FormDone answers) \<longleftrightarrow> length answers = n \<and> same_rules f (answers ! j) \<and>
     value_ok f (cf_value (answers ! j)) \<and> field_error (answers ! j) = []"
| "step_kept f n j FormCancelled \<longleftrightarrow> True"

lemma submit_form_kept:
  assumes "field_kept f n j s"
  shows "step_kept f n j (submit_form s)"
proof (cases "field_error (fs_fields s ! fs_selected s) \<noteq> [] \<or> fs_selected s \<noteq> length (fs_fields s) - 1")
  case True
  with assms show ?thesis by (auto simp: submit_form_def Let_def field_kept_move)
next
  case False
  show ?thesis
  proof (cases "first_error 0 (fs_fields s)")
    case None
    with assms False show ?thesis
      by (simp add: submit_form_def Let_def field_kept_def) (simp add: first_error_None list_all_length)
  next
    case (Some result)
    then obtain i g where "first_error 0 (fs_fields s) = Some (i, g)" by (cases result) auto
    moreover from this have "i < n" using first_error_Some [of 0 "fs_fields s" i g] assms by (simp add: field_kept_def)
    ultimately show ?thesis using assms False field_kept_select [of f n j "s\<lparr>fs_error := field_error g\<rparr>" i]
      by (simp add: submit_form_def Let_def)
  qed
qed

lemma form_key_kept:
  assumes "field_kept f n j s"
  shows "step_kept f n j (form_key k s)"
proof -
  let ?s = "keep_value s" and ?i = "fs_selected (keep_value s)"
  note kept = field_kept_keep [OF assms]
  have toggled: "field_kept f n j (?s\<lparr>fs_editor := toggle_key ch (fs_editor ?s)\<rparr>)" if "cf_toggle (fs_fields ?s ! ?i)" for ch
    using kept that by (cases "?i = j") (auto simp: field_kept_def value_ok_def same_rules_def toggle_key_def ed_set_def)
  have edited: "field_kept f n j (?s\<lparr>fs_editor := edit_key ch (cf_limit (fs_fields ?s ! ?i)) (fs_editor ?s), fs_error := m\<rparr>)"
    if "\<not> cf_toggle (fs_fields ?s ! ?i)" for ch m
    using kept that ed_within_edit_key [of "cf_limit f" "fs_editor ?s" ch]
    by (cases "?i = j") (auto simp: field_kept_def value_ok_def same_rules_def ed_within_def)
  show ?thesis
    using kept toggled edited field_kept_keep [OF kept]
    by (simp add: form_key_def Let_def submit_form_kept field_kept_move)
qed

lemma form_loop_kept: "form_loop s ks = Some (Some answers, rest) \<Longrightarrow> field_kept f n j s \<Longrightarrow> step_kept f n j (FormDone answers)"
proof (induction s ks rule: form_loop.induct)
  case (2 s k ks)
  from form_key_kept [OF "2.prems"(2), of k] 2 show ?case by (auto simp del: step_kept.simps(3) split: form_step.splits option.splits)
qed simp

text \<open>A field that was in order at the beginning is so when the form is submitted, and valid.\<close>

lemma submitted_field:
  assumes "edit_curses_form form ks = Some (Some answers, rest)" "j < length form" "value_ok (form ! j) (cf_value (form ! j))"
  shows "value_ok (form ! j) (cf_value (answers ! j))"
    "case cf_validate (form ! j) of None \<Rightarrow> True | Some check \<Rightarrow> check (cf_value (answers ! j)) = []"
proof -
  have "form \<noteq> []" using assms(2) by auto
  then have "field_kept (form ! j) (length form) j \<lparr>fs_fields = form, fs_selected = 0,
      fs_editor = ed_set (cf_value (form ! 0)) \<lparr>ed_text = [], ed_cursor = 0\<rparr>, fs_error = []\<rparr>"
    using assms(2,3) by (auto simp: field_kept_def same_rules_def ed_set_def)
  with assms(1) \<open>form \<noteq> []\<close> have finished: "step_kept (form ! j) (length form) j (FormDone answers)"
    by (intro form_loop_kept) (auto simp: edit_curses_form_def)
  then show "value_ok (form ! j) (cf_value (answers ! j))" by auto
  from finished show "case cf_validate (form ! j) of None \<Rightarrow> True | Some check \<Rightarrow> check (cf_value (answers ! j)) = []"
    by (auto simp: field_error_def same_rules_def split: option.splits)
qed

fun step_fields :: "nat \<Rightarrow> form_step \<Rightarrow> bool" where
  "step_fields n (FormStay s) \<longleftrightarrow> length (fs_fields s) = n"
| "step_fields n (FormDetails s) \<longleftrightarrow> length (fs_fields s) = n"
| "step_fields n (FormDone answers) \<longleftrightarrow> length answers = n"
| "step_fields n FormCancelled \<longleftrightarrow> True"

lemma same_number [simp]:
  "length (fs_fields (keep_value s)) = length (fs_fields s)"
  "length (fs_fields (select_field i s)) = length (fs_fields s)"
  "length (fs_fields (move_in_form b s)) = length (fs_fields s)"
  by (simp_all add: keep_value_def move_in_form_def select_field_def Let_def)

lemma submit_form_fields: "length (fs_fields s) = n \<Longrightarrow> step_fields n (submit_form s)"
  by (auto simp: submit_form_def Let_def split: option.split)

lemma form_key_fields: "step_fields (length (fs_fields s)) (form_key k s)"
  by (simp add: form_key_def Let_def submit_form_fields)

lemma form_loop_fields: "form_loop s ks = Some (Some answers, rest) \<Longrightarrow> length answers = length (fs_fields s)"
proof (induction s ks rule: form_loop.induct)
  case (2 s k ks)
  from form_key_fields [of s k] 2 show ?case by (auto split: form_step.splits option.splits)
qed simp

lemma form_length:
  assumes "edit_curses_form form ks = Some (Some answers, rest)"
  shows "length answers = length form"
  using assms form_loop_fields by (fastforce simp: edit_curses_form_def split: if_splits)

lemma submitted_no_nul:
  assumes "edit_curses_form form ks = Some (Some answers, rest)" "list_all (\<lambda>f. no_nul (cf_value f)) form" "j < length form"
  shows "no_nul (cf_value (answers ! j))"
proof -
  have "CHR 0x00 \<notin> typed_chars ks" by (simp add: typed_chars_def byte_def)
  moreover have "answers ! j \<in> set answers" using form_length [OF assms(1)] assms(3) by simp
  ultimately show ?thesis
    using submitted_chars [OF assms(1)] assms(2) by (fastforce simp: no_nul_def list_all_iff)
qed

end
