(* ===== verification/App_Safety.thy ===== *)
theory App_Safety
  imports App_Fields
begin

text \<open>
  An invariant of the application of \<open>App_Menu\<close>, however the user moves through its menus and forms and whatever comes of saving, joining
  and hosting, beginning with any file of preferences.

  Shown: everything the application ever saves can be read back.
\<close>

section \<open>The invariant\<close>

text \<open>Where a join goes: a server that can be remembered, except that the port may be 0, and whose certificate is asked about.\<close>

fun phase_ok :: "app_phase \<Rightarrow> bool" where
  "phase_ok (JoinPhase host port config) \<longleftrightarrow> host \<noteq> [] \<and> length host \<le> 63 \<and> no_nul host \<and>
     no_nul (ca_path config) \<and> no_nul (expected_fingerprint config)"
| "phase_ok _ \<longleftrightarrow> True"

definition entries_ok :: "preferences \<Rightarrow> bool" where
  "entries_ok p \<longleftrightarrow> length (pf_recent p) \<le> 10 \<and> list_all storable_server (pf_recent p) \<and> ascending (map fst (pf_options p)) \<and>
     list_all (\<lambda>(n, v). no_nul n \<and> no_nul v) (pf_options p)"

definition kept_values :: "shell \<Rightarrow> string list" where
  "kept_values sh = [sh_host sh, sh_port sh, sh_join_tls sh, sh_host_port sh, sh_password sh, sh_upnp sh, sh_host_tls sh,
     certificate_path (sh_certificate sh), private_key_path (sh_certificate sh)]"

definition shell_ok :: "shell \<Rightarrow> bool" where
  "shell_ok sh \<longleftrightarrow> preferences_ok (sh_preferences sh) \<and> list_all preferences_ok (sh_saves sh) \<and> is_valid_nickname (sh_nickname sh) \<and>
     list_all no_nul (kept_values sh) \<and> length (sh_host sh) \<le> HOST_MAX_LEN \<and> length (sh_port sh) \<le> 5 \<and> phase_ok (sh_phase sh)"

text \<open>
  What is relied on: the name of the data directory has no zero byte, and the directory lists servers by host names that are not
  empty, not longer than a form accepts and without zero bytes.
\<close>

definition listing_ok :: "browser_entry list \<Rightarrow> bool" where
  "listing_ok = list_all (\<lambda>e. be_host e \<noteq> [] \<and> length (be_host e) \<le> 63 \<and> no_nul (be_host e))"

definition world_ok :: "app_env \<Rightarrow> bool" where
  "world_ok A \<longleftrightarrow> no_nul (data_directory (ap_trust A)) \<and>
     (\<forall>address config listing. ap_directory A address config = DirectoryEntries listing \<longrightarrow> listing_ok listing)"

lemma no_nul_simps [simp]: "no_nul []" "no_nul (c # s) \<longleftrightarrow> c \<noteq> CHR 0x00 \<and> no_nul s" "no_nul (s @ t) \<longleftrightarrow> no_nul s \<and> no_nul t"
  by (auto simp: no_nul_def)

lemma preferences_ok_entries:
  "preferences_ok p \<longleftrightarrow> (pf_remember p \<longrightarrow> is_valid_nickname (pf_nickname p)) \<and> entries_ok p"
  by (simp add: preferences_ok_def entries_ok_def)

lemma option_no_nul:
  assumes "preferences_ok p"
  shows "no_nul (option_or_empty name (pf_options p))"
proof -
  have "no_nul v" if "map_find m name = Some v" "list_all (\<lambda>(n, v). no_nul n \<and> no_nul v) m" for m :: "(string \<times> string) list" and v
    using that by (induction m) (auto split: if_splits)
  with assms show ?thesis by (auto simp: option_or_empty_def preferences_ok_def split: option.splits)
qed

lemma emplace_ok:
  "list_all (\<lambda>(n, v). no_nul n \<and> no_nul v) m \<Longrightarrow> no_nul k \<Longrightarrow> no_nul v \<Longrightarrow> list_all (\<lambda>(n, v). no_nul n \<and> no_nul v) (map_emplace k v m)"
  by (simp add: map_emplace_def no_nul_assign split: option.split)

lemma read_option_ok:
  assumes "shell_ok sh" "read_option name sh = (v, sh')" "no_nul name"
  shows "shell_ok sh'" "no_nul v" "kept_values sh' = kept_values sh" "sh_phase sh' = sh_phase sh"
  using assms option_no_nul [of "sh_preferences sh" name] emplace_ok [of "pf_options (sh_preferences sh)" name "[]"]
  by (auto simp: shell_ok_def read_option_def option_ref_def on_preferences_def kept_values_def preferences_ok_def)

lemma assign_option_ok:
  assumes "shell_ok sh" "no_nul name" "no_nul v"
  shows "shell_ok (assign_option name v sh)"
  using assms preferences_step_ok [of "sh_preferences sh" "OptionSet name v"]
  by (simp add: shell_ok_def assign_option_def on_preferences_def kept_values_def)

lemma on_preferences_ok:
  assumes "shell_ok sh" "preferences_allowed e (sh_preferences sh)"
  shows "shell_ok (on_preferences (preferences_step e) sh)"
  using assms preferences_step_ok [of "sh_preferences sh" e]
  by (simp add: shell_ok_def on_preferences_def kept_values_def)

lemma save_now_ok:
  assumes "save_now A sh ks = Some (sh', rest)" "shell_ok sh"
  shows "shell_ok sh'" "sh_phase sh' = sh_phase sh"
  using assms by (auto simp: save_now_def Let_def shell_ok_def kept_values_def bind_eq_Some_conv split: if_splits)

lemma notify_user_same [simp]: "notify_user sh ks = Some (sh', rest) \<longleftrightarrow> sh' = sh \<and> show_curses_notice ks = Some rest"
  by (auto simp: notify_user_def bind_eq_Some_conv)

lemma phase_shell_ok: "shell_ok sh \<Longrightarrow> phase_ok phase \<Longrightarrow> shell_ok (sh\<lparr>sh_phase := phase\<rparr>)"
  by (simp add: shell_ok_def kept_values_def)

lemma shell_okD:
  assumes "shell_ok sh"
  shows "preferences_ok (sh_preferences sh)" "is_valid_nickname (sh_nickname sh)" "list_all no_nul (kept_values sh)" "length (sh_host sh) \<le> HOST_MAX_LEN" "length (sh_port sh) \<le> 5"
  using assms by (simp_all add: shell_ok_def)

section \<open>Every entry of the menu keeps it\<close>

lemma nickname_dialog_ok:
  assumes "nickname_dialog A sh ks = Some (sh', rest)" "shell_ok sh"
  shows "shell_ok sh'"
proof -
  let ?p = "sh_preferences sh"
  have short: "length (sh_nickname sh) \<le> NICK_MAX_LEN"
    using shell_okD(2) [OF assms(2)] by (simp add: is_valid_nickname_def NICK_MAX_LEN_def split: if_splits)
  have submitted: "shell_ok (on_preferences (preferences_step (NicknameSubmitted form)) (sh\<lparr>sh_nickname := cf_value (form ! 0)\<rparr>))"
    if "edit_curses_form (nickname_form (sh_nickname sh) (pf_remember ?p)) ks = Some (Some form, ks1)" for form ks1
  proof (rule on_preferences_ok)
    from nickname_form_submitted [OF that short] assms(2) show "shell_ok (sh\<lparr>sh_nickname := cf_value (form ! 0)\<rparr>)"
      by (simp add: shell_ok_def kept_values_def)
    from that short show "preferences_allowed (NicknameSubmitted form) (sh_preferences (sh\<lparr>sh_nickname := cf_value (form ! 0)\<rparr>))" by auto
  qed
  from assms show ?thesis
    by (auto simp: nickname_dialog_def bind_eq_Some_conv split: option.splits if_splits prod.splits dest: save_now_ok(1) submitted)
qed

lemma menu_range:
  assumes "choose_curses_menu items ks = Some (choice, rest)" "items \<noteq> []" "0 \<le> choice"
  shows "nat choice < length items"
  using menu_loop_result [of items 0 ks choice rest] assms by (auto simp: choose_curses_menu_def)

lemma join_recent_ok:
  assumes "shell_ok sh" "i < length (pf_recent (sh_preferences sh))"
  shows "phase_ok (join_recent A (pf_recent (sh_preferences sh) ! i))"
  using shell_okD(1) [OF assms(1)] assms(2) by (auto simp: join_recent_def preferences_ok_def list_all_length storable_server_def)

lemma rename_dialog_ok:
  assumes "rename_dialog A i sh ks = Some (sh', rest)" "shell_ok sh" "i < length (pf_recent (sh_preferences sh))"
  shows "shell_ok sh'"
proof -
  have "no_nul (rs_name (pf_recent (sh_preferences sh) ! i))"
    using shell_okD(1) [OF assms(2)] assms(3) by (simp add: preferences_ok_def list_all_length storable_server_def)
  then have "no_nul (cf_value (form ! 0))"
    if "edit_curses_form [required_field ''Display name'' (rs_name (pf_recent (sh_preferences sh) ! i)) HOST_MAX_LEN] ks = Some (Some form, ks1)"
    for form ks1
    using submitted_no_nul [OF that, of 0] by (simp add: required_field_def)
  with assms show ?thesis
    by (auto simp: rename_dialog_def bind_eq_Some_conv split: option.splits prod.splits dest!: save_now_ok(1) intro!: on_preferences_ok)
qed

lemma recent_dialog_ok:
  assumes "recent_dialog A sh ks = Some (sh', rest)" "shell_ok sh"
  shows "shell_ok sh'"
proof -
  let ?items = "recent_items (sh_preferences sh)"
  have len: "length ?items = length (pf_recent (sh_preferences sh))" by (simp add: recent_items_def)
  show ?thesis
  proof (cases "?items = []")
    case True
    with assms show ?thesis by (simp add: recent_dialog_def)
  next
    case False
    with assms(1) obtain chosen ks1 where chosen: "choose_curses_menu ?items ks = Some (chosen, ks1)"
      by (auto simp: recent_dialog_def Let_def bind_eq_Some_conv)
    show ?thesis
    proof (cases "chosen < 0")
      case True
      with assms chosen False show ?thesis by (simp add: recent_dialog_def Let_def)
    next
      case listed: False
      then have i: "nat chosen < length (pf_recent (sh_preferences sh))" using menu_range [OF chosen False] len by simp
      from assms(1) chosen False listed obtain action ks2 where "choose_curses_menu recent_actions ks1 = Some (action, ks2)"
        by (auto simp: recent_dialog_def Let_def bind_eq_Some_conv)
      with assms chosen False listed show ?thesis
        by (auto simp: recent_dialog_def Let_def split: if_splits dest: save_now_ok(1)
            intro: phase_shell_ok join_recent_ok [OF assms(2) i] rename_dialog_ok [OF _ assms(2) i]
            on_preferences_ok [OF assms(2), of "ServerRemoved (nat chosen)", unfolded preferences_allowed.simps, OF i])
    qed
  qed
qed

lemma normal_no_nul: "no_nul (normalize_fingerprint s)"
proof (cases "normalize_fingerprint s = []")
  case False
  moreover have "\<not> isxdigit CHR 0x00" by (simp add: isxdigit_def isdigit_def byte_def)
  ultimately show ?thesis
    using normalize_result [of s] unfolding no_nul_def normal_fingerprint_def list_all_iff by blast
qed simp

lemma join_invited_ok:
  assumes "parse_invite s = Inr i"
  shows "phase_ok (join_invited A i)"
proof -
  have valid: "validate i = None" "normalize_fingerprint (invite_fingerprint i) = invite_fingerprint i"
    using parse_invite_valid [OF assms] by (simp_all add: valid_invite_def)
  from valid(1) have "list_all host_char (invite_host i)" by (simp add: validate_def split: if_splits)
  then have "no_nul (invite_host i)" by (auto simp: no_nul_def list_all_iff host_char_def ctype_defs byte_def)
  moreover have "no_nul (invite_fingerprint i)" using normal_no_nul [of "invite_fingerprint i"] valid(2) by simp
  ultimately show ?thesis using valid(1)
    by (simp add: join_invited_def interactive_tls_def default_client_config_def validate_def HOST_MAX_LEN_def split: if_splits)
qed

lemma invite_dialog_ok: "invite_dialog A sh ks = Some (sh', rest) \<Longrightarrow> shell_ok sh \<Longrightarrow> shell_ok sh'"
  by (auto simp: invite_dialog_def split: Option.bind_splits option.splits prod.splits sum.splits if_splits
      intro: phase_shell_ok join_invited_ok)

lemma choose_listed_ok:
  assumes "choose_listed A answer sh ks = Some (sh', rest)" "shell_ok sh" "\<And>listing. answer = DirectoryEntries listing \<Longrightarrow> listing_ok listing"
  shows "shell_ok sh'"
proof (cases answer)
  case (DirectoryEntries listing)
  have "phase_ok (join_listed A e)" if "e \<in> set listing" for e
    using assms(3) [OF DirectoryEntries] that
    by (simp add: listing_ok_def list_all_iff join_listed_def interactive_tls_def default_client_config_def)
  then have "shell_ok (sh\<lparr>sh_phase := join_listed A (listing ! i)\<rparr>)" if "i < length listing" for i
    using that assms(2) by (intro phase_shell_ok) simp_all
  with assms(1,2) DirectoryEntries show ?thesis
    by (auto simp: choose_listed_def bind_eq_Some_conv split: if_splits dest!: menu_range)
qed (use assms in \<open>auto simp: choose_listed_def\<close>)

lemma directory_form_ok:
  assumes "edit_curses_form (directory_form host tls ca pin) ks = Some (Some form, rest)" "no_nul host" "no_nul ca" "no_nul pin"
  shows "no_nul (cf_value (form ! 0))" "no_nul (cf_value (form ! 1))" "no_nul (cf_value (form ! 2))" "no_nul (cf_value (form ! 3))"
  using assms(2-4) by (auto intro!: submitted_no_nul [OF assms(1)]
      simp: directory_form_def required_field_def toggle_field_def text_field_def field_default_def)

lemma discover_dialog_ok:
  assumes "discover_dialog A sh ks = Some (sh', rest)" "shell_ok sh" "world_ok A"
  shows "shell_ok sh'"
proof -
  obtain host sh1 where r1: "read_option ''directory.host'' sh = (host, sh1)" by fastforce
  obtain tls sh2 where r2: "read_option ''directory.tls'' sh1 = (tls, sh2)" by fastforce
  obtain ca sh3 where r3: "read_option ''directory.ca'' sh2 = (ca, sh3)" by fastforce
  obtain pin sh4 where r4: "read_option ''directory.pin'' sh3 = (pin, sh4)" by fastforce
  note o1 = read_option_ok [OF assms(2) r1, simplified]
  note o2 = read_option_ok [OF o1(1) r2, simplified]
  note o3 = read_option_ok [OF o2(1) r3, simplified]
  note o4 = read_option_ok [OF o3(1) r4, simplified]
  have stored: "shell_ok (assign_option ''directory.pin'' (cf_value (form ! 3)) (assign_option ''directory.ca'' (cf_value (form ! 2))
              (assign_option ''directory.tls'' (cf_value (form ! 1)) (assign_option ''directory.host'' (cf_value (form ! 0)) sh4))))"
    if "edit_curses_form (directory_form host tls ca pin) ks = Some (Some form, ks1)" for form ks1
    using directory_form_ok [OF that o1(2) o3(2) o4(2)] o4(1) by (intro assign_option_ok) simp_all
  from assms(1) show ?thesis
    unfolding discover_dialog_def r1 r2 r3 r4 Let_def prod.case
    using assms(3) o4(1)
    by (auto simp: world_ok_def split: Option.bind_splits option.splits prod.splits
        dest!: stored dest: save_now_ok(1))
      (metis choose_listed_ok save_now_ok(1))
qed

lemma join_form_ok:
  assumes "edit_curses_form (join_form sh ca pin) ks = Some (Some form, rest)" "shell_ok sh" "no_nul ca" "no_nul pin"
  shows "no_nul (cf_value (form ! 0))" "no_nul (cf_value (form ! 1))" "no_nul (cf_value (form ! 2))" "no_nul (cf_value (form ! 3))"
    "no_nul (cf_value (form ! 4))" "cf_value (form ! 0) \<noteq> []" "length (cf_value (form ! 0)) \<le> HOST_MAX_LEN"
    "length (cf_value (form ! 1)) \<le> 5" "parse_port (cf_value (form ! 1)) \<noteq> None"
proof -
  have plain: "list_all (\<lambda>f. no_nul (cf_value f)) (join_form sh ca pin)" "length (join_form sh ca pin) = 5"
    using shell_okD(3) [OF assms(2)] assms(3,4)
    by (simp_all add: join_form_def kept_values_def required_field_def text_field_def field_default_def)
  then show "no_nul (cf_value (form ! 0))" "no_nul (cf_value (form ! 1))" "no_nul (cf_value (form ! 2))" "no_nul (cf_value (form ! 3))"
    "no_nul (cf_value (form ! 4))"
    by (auto intro!: submitted_no_nul [OF assms(1)])
  have "value_ok (join_form sh ca pin ! 0) (cf_value (join_form sh ca pin ! 0))"
    using shell_okD(4) [OF assms(2)] by (simp add: value_ok_def join_form_def required_field_def field_default_def)
  from submitted_field [OF assms(1) _ this] plain(2)
  show "cf_value (form ! 0) \<noteq> []" "length (cf_value (form ! 0)) \<le> HOST_MAX_LEN"
    by (auto simp: join_form_def required_field_def field_default_def value_ok_def required_error_def)
  have "value_ok (join_form sh ca pin ! 1) (cf_value (join_form sh ca pin ! 1))"
    using shell_okD(5) [OF assms(2)] by (simp add: value_ok_def join_form_def field_default_def)
  from submitted_field [OF assms(1) _ this] plain(2)
  show "length (cf_value (form ! 1)) \<le> 5" "parse_port (cf_value (form ! 1)) \<noteq> None"
    by (auto simp: join_form_def field_default_def value_ok_def port_error_def split: if_splits)
qed

lemma join_dialog_ok:
  assumes "join_dialog A sh ks = Some (sh', rest)" "shell_ok sh"
  shows "shell_ok sh'"
proof -
  obtain ca sh1 where r1: "read_option ''join.ca'' sh = (ca, sh1)" by fastforce
  obtain pin sh2 where r2: "read_option ''join.pin'' sh1 = (pin, sh2)" by fastforce
  note o1 = read_option_ok [OF assms(2) r1, simplified]
  note o2 = read_option_ok [OF o1(1) r2, simplified]
  have stored: "shell_ok (assign_option ''join.pin'' (cf_value (form ! 4)) (assign_option ''join.ca'' (cf_value (form ! 3))
      (sh2\<lparr>sh_host := cf_value (form ! 0), sh_port := cf_value (form ! 1), sh_join_tls := cf_value (form ! 2)\<rparr>)))"
    "phase_ok (join_typed A form)"
    if "edit_curses_form (join_form sh2 ca pin) ks = Some (Some form, ks1)" for form ks1
  proof -
    note answers = join_form_ok [OF that o2(1) o1(2) o2(2)]
    then have "shell_ok (sh2\<lparr>sh_host := cf_value (form ! 0), sh_port := cf_value (form ! 1), sh_join_tls := cf_value (form ! 2)\<rparr>)"
      using o2(1) by (simp add: shell_ok_def kept_values_def)
    with answers show "shell_ok (assign_option ''join.pin'' (cf_value (form ! 4)) (assign_option ''join.ca'' (cf_value (form ! 3))
      (sh2\<lparr>sh_host := cf_value (form ! 0), sh_port := cf_value (form ! 1), sh_join_tls := cf_value (form ! 2)\<rparr>)))"
      by (intro assign_option_ok) simp_all
    from answers show "phase_ok (join_typed A form)" by (simp add: join_typed_def HOST_MAX_LEN_def)
  qed
  from assms(1) show ?thesis
    unfolding join_dialog_def r1 r2 Let_def prod.case
    using o2(1) by (auto simp del: One_nat_def split: Option.bind_splits option.splits prod.splits
        intro!: phase_shell_ok stored(2) dest: save_now_ok(1) [OF _ stored(1)])
qed

lemma configure_tls_plain:
  assumes "configure_tls S folder config fs ks = Some (answer, config', fs', rest)" "no_nul folder"
    "no_nul (certificate_path config)" "no_nul (private_key_path config)"
  shows "no_nul (certificate_path config')" "no_nul (private_key_path config')"
proof -
  have ensured: "no_nul (certificate_path c) \<and> no_nul (private_key_path c)"
    if "ensure_host_certificate S (in_directory folder ''tls'') fs = (Returned c, states)" for c states
    using ensure_returned(1) [OF that] assms(2) by (simp add: host_config_def in_directory_def)
  have chosen: "no_nul (cf_value (answers ! 0)) \<and> no_nul (cf_value (answers ! Suc 0))"
    if "edit_curses_form (certificate_form config) ks1 = Some (Some answers, ks2)" for answers ks1 ks2
    using submitted_no_nul [OF that] assms(3,4) by (simp add: certificate_form_def required_field_def)
  from assms show "no_nul (certificate_path config')" "no_nul (private_key_path config')"
    by (auto simp: configure_tls_def Let_def split: if_splits option.splits prod.splits outcome.splits dest!: ensured chosen)
qed

lemma no_nul_sanitize: "no_nul s \<Longrightarrow> no_nul (sanitize_browser_field s n)"
proof -
  have "no_nul s \<Longrightarrow> no_nul out \<Longrightarrow> no_nul (sanitize_loop s n out)" for out
    by (induction s n out rule: sanitize_loop.induct) auto
  then show "no_nul s \<Longrightarrow> no_nul (sanitize_browser_field s n)" by (simp add: sanitize_browser_field_def)
qed

definition publication_plain :: "publication \<Rightarrow> bool" where
  "publication_plain pb \<longleftrightarrow> list_all no_nul [pb_host pb, pb_name pb, pb_public_host pb, pb_ca_path pb, pb_fingerprint pb]"

lemma configure_publication_ok:
  assumes "configure_publication previous ks = Some (Answer pb, rest)" "publication_plain previous"
  shows "publication_plain pb"
proof -
  obtain form where form: "edit_curses_form (publication_form previous) ks = Some (Some form, rest)"
    and pb: "pb = \<lparr>pb_host = sanitize_browser_field (cf_value (form ! 0)) HOST_MAX_LEN, pb_name = cf_value (form ! 1),
           pb_public_host = cf_value (form ! 2), pb_tls = (cf_value (form ! 3) = ''yes''),
           pb_ca_path = cf_value (form ! 4), pb_fingerprint = cf_value (form ! 5)\<rparr>"
    using assms(1) by (auto simp: configure_publication_def split: option.splits)
  have "no_nul (cf_value (form ! i))" if "i < 6" for i
    using submitted_no_nul [OF form, of i] assms(2) that
    by (simp add: publication_plain_def publication_form_def text_field_def toggle_field_def field_default_def)
  then show ?thesis by (simp add: pb publication_plain_def no_nul_sanitize)
qed

lemma stored_publication_ok:
  assumes "stored_publication sh = (pb, sh')" "shell_ok sh"
  shows "shell_ok sh'" "publication_plain pb"
proof -
  obtain host sh1 where r1: "read_option ''publish.host'' sh = (host, sh1)" by fastforce
  obtain name sh2 where r2: "read_option ''publish.name'' sh1 = (name, sh2)" by fastforce
  obtain address sh3 where r3: "read_option ''publish.address'' sh2 = (address, sh3)" by fastforce
  obtain tls sh4 where r4: "read_option ''publish.tls'' sh3 = (tls, sh4)" by fastforce
  obtain ca sh5 where r5: "read_option ''publish.ca'' sh4 = (ca, sh5)" by fastforce
  obtain pin sh6 where r6: "read_option ''publish.pin'' sh5 = (pin, sh6)" by fastforce
  note o1 = read_option_ok [OF assms(2) r1, simplified]
  note o2 = read_option_ok [OF o1(1) r2, simplified]
  note o3 = read_option_ok [OF o2(1) r3, simplified]
  note o4 = read_option_ok [OF o3(1) r4, simplified]
  note o5 = read_option_ok [OF o4(1) r5, simplified]
  note o6 = read_option_ok [OF o5(1) r6, simplified]
  from assms(1) have "sh' = sh6" "pb = \<lparr>pb_host = host, pb_name = name, pb_public_host = address, pb_tls = (tls \<noteq> ''no''), pb_ca_path = ca,
      pb_fingerprint = pin\<rparr>"
    by (auto simp: stored_publication_def r1 r2 r3 r4 r5 r6)
  with o1(2) o2(2) o3(2) o5(2) o6 show "shell_ok sh'" "publication_plain pb" by (simp_all add: publication_plain_def)
qed

lemma store_publication_ok: "shell_ok sh \<Longrightarrow> publication_plain pb \<Longrightarrow> shell_ok (store_publication pb sh)"
  unfolding store_publication_def by (intro assign_option_ok) (simp_all add: publication_plain_def)

lemma plan_host_ok: "plan_host form pb sh ks = Some (sh', rest) \<Longrightarrow> shell_ok sh \<Longrightarrow> shell_ok sh'"
  by (auto simp: plan_host_def Let_def split: option.splits intro!: phase_shell_ok)

lemma publish_dialog_ok:
  assumes "publish_dialog A form sh ks = Some (sh', rest)" "shell_ok sh"
  shows "shell_ok sh'"
proof -
  obtain previous sh1 where previous: "stored_publication sh = (previous, sh1)" by fastforce
  note ok = stored_publication_ok [OF this assms(2)]
  have "shell_ok (store_publication pb sh1)" if "configure_publication previous ks = Some (Answer pb, ks1)" for pb ks1
    using configure_publication_ok [OF that ok(2)] ok(1) by (rule store_publication_ok [rotated])
  with assms(1) ok(1) show ?thesis
    by (auto simp: publish_dialog_def previous split: Option.bind_splits prod.splits dialog.splits dest: save_now_ok(1) plan_host_ok)
qed

lemma host_form_ok:
  assumes "edit_curses_form (host_form sh) ks = Some (Some form, rest)" "shell_ok sh"
  shows "shell_ok (sh\<lparr>sh_host_port := cf_value (form ! 0), sh_password := cf_value (form ! 1), sh_upnp := cf_value (form ! 2),
    sh_host_tls := cf_value (form ! 4)\<rparr>)"
proof -
  have "no_nul (cf_value (form ! i))" if "i < 5" for i
    using submitted_no_nul [OF assms(1), of i] shell_okD(3) [OF assms(2)] that
    by (simp add: host_form_def kept_values_def text_field_def toggle_field_def field_default_def)
  with assms(2) show ?thesis by (simp add: shell_ok_def kept_values_def)
qed

lemma certificate_shell_ok:
  "shell_ok sh \<Longrightarrow> no_nul (certificate_path config) \<Longrightarrow> no_nul (private_key_path config) \<Longrightarrow>
     shell_ok (sh\<lparr>sh_certificate := config, sh_files := fs\<rparr>)"
  by (simp add: shell_ok_def kept_values_def)

lemma secure_host_ok:
  assumes "secure_host A form sh ks = Some (sh', rest)" "shell_ok sh" "world_ok A"
  shows "shell_ok sh'"
proof -
  from assms(1) obtain answer config fs ks1 where tls: "configure_tls (ap_ssl A) (data_directory (ap_trust A))
      ((sh_certificate sh)\<lparr>tls_enabled := (cf_value (form ! 4) = ''yes'')\<rparr>) (sh_files sh) ks = Some (answer, config, fs, ks1)"
    by (auto simp: secure_host_def bind_eq_Some_conv)
  have plain: "no_nul (certificate_path config)" "no_nul (private_key_path config)"
    using configure_tls_plain [OF tls] shell_okD(3) [OF assms(2)] assms(3) by (simp_all add: kept_values_def world_ok_def)
  with assms(2) have configured: "shell_ok (sh\<lparr>sh_certificate := config, sh_files := fs\<rparr>)" by (rule certificate_shell_ok)
  then have "shell_ok (assign_option ''host.key'' (private_key_path config) (assign_option ''host.certificate'' (certificate_path config)
      (sh\<lparr>sh_certificate := config, sh_files := fs\<rparr>)))"
    using plain by (intro assign_option_ok) simp_all
  with assms(1) tls configured show ?thesis
    by (simp add: secure_host_def Let_def split: Option.bind_splits prod.splits dialog.splits if_splits)
      (blast intro: save_now_ok(1) plan_host_ok publish_dialog_ok)+
qed

lemma host_dialog_ok:
  assumes "host_dialog A sh ks = Some (sh', rest)" "shell_ok sh" "world_ok A"
  shows "shell_ok sh'"
  using assms secure_host_ok [OF _ host_form_ok]
  by (auto simp: host_dialog_def simp del: One_nat_def split: Option.bind_splits option.splits prod.splits)

lemma menu_turn_ok:
  assumes "menu_turn A sh ks = Some (sh', rest)" "shell_ok sh" "world_ok A"
  shows "shell_ok sh'"
proof -
  have "shell_ok (sh\<lparr>sh_phase := QuitPhase\<rparr>)" using assms(2) by (simp add: phase_shell_ok)
  with assms show ?thesis
    by (simp add: menu_turn_def split: Option.bind_splits if_splits prod.splits)
      (blast intro: join_dialog_ok host_dialog_ok discover_dialog_ok recent_dialog_ok nickname_dialog_ok invite_dialog_ok)+
qed

lemma connect_loop_ok:
  "connect_loop server reconnecting retries room as p = Some (es, p') \<Longrightarrow> preferences_ok p \<Longrightarrow>
     (\<forall>a \<in> set as. at_failure a = None \<longrightarrow> storable_server server) \<Longrightarrow> preferences_ok p'"
proof (induction server reconnecting retries room as p arbitrary: es p' rule: connect_loop.induct)
  case (2 server reconnecting retries room a as p)
  have "preferences_ok (if pf_remember p then remember_server server p else p)" if "at_failure a = None"
    using preferences_step_ok [OF "2.prems"(2), of "ServerJoined server"] "2.prems"(3) that by simp
  with 2 show ?case
    by (simp add: Let_def split: if_splits option.splits) blast+
qed simp

section \<open>What is loaded\<close>

text \<open>Whatever is in the file, a load gives entries that can be stored.\<close>

abbreviation plain_options :: "(string \<times> string) list \<Rightarrow> bool" where
  "plain_options m \<equiv> ascending (map fst m) \<and> list_all (\<lambda>(n, v). no_nul n \<and> no_nul v) m"

lemma no_nul_column [simp]: "no_nul (column_text s)"
  by (auto simp: no_nul_def column_text_def dest: set_takeWhileD)

lemma no_nul_row [simp]: "no_nul (row_text v)"
  by (simp add: row_text_def split: option.split)

lemma load_recent_storable:
  assumes "load_recent_row r = Some s"
  shows "storable_server s"
proof -
  let ?port = "column_int (rr_port r)"
  from assms have port: "1 \<le> ?port" "?port \<le> 65535" and s: "rs_port s = word_of_int ?port" "rs_host s = row_text (rr_host r)"
      "rs_name s = row_text (rr_name r)" "rs_ca_path s = []" "rs_fingerprint s = []"
      "row_text (rr_host r) \<noteq> []" "length (row_text (rr_host r)) \<le> 63"
    by (auto simp: load_recent_row_def Let_def HOST_MAX_LEN_def split: if_splits)
  from port have "uint (word_of_int ?port :: u16) = ?port" by (simp add: uint_word_of_int take_bit_int_eq_self)
  with port(1) have "(word_of_int ?port :: u16) \<noteq> 0" by (metis not_one_le_zero uint_0_eq)
  with s show ?thesis by (simp add: storable_server_def)
qed

lemma load_recent_ok:
  "list_all storable_server (List.map_filter load_recent_row rows)" "length (List.map_filter load_recent_row rows) \<le> length rows"
proof -
  show "list_all storable_server (List.map_filter load_recent_row rows)"
    by (auto simp: list_all_iff List.map_filter_def dest: load_recent_storable)
  show "length (List.map_filter load_recent_row rows) \<le> length rows"
    by (simp add: List.map_filter_def)
qed

lemma assign_plain: "plain_options m \<Longrightarrow> no_nul k \<Longrightarrow> no_nul v \<Longrightarrow> plain_options (map_assign k v m)"
  by (auto simp: no_nul_assign)

lemma load_options_plain:
  "plain_options m \<Longrightarrow> plain_options (fold (\<lambda>(n, v). map_assign (row_text n) (row_text v)) rows m)"
proof (induction rows arbitrary: m)
  case (Cons row rows)
  obtain n v where "row = (n, v)" by (cases row)
  with Cons assign_plain [OF Cons.prems no_nul_row no_nul_row, of n v] show ?case by simp
qed simp

lemma option_ref_plain:
  assumes "option_ref name m = (v, m')" "plain_options m" "no_nul name"
  shows "plain_options m'" "no_nul v"
proof -
  have "no_nul v" if "map_find m name = Some v" "list_all (\<lambda>(n, v). no_nul n \<and> no_nul v) m" for m :: "(string \<times> string) list" and v
    using that by (induction m) (auto split: if_splits)
  with assms show "plain_options m'" "no_nul v"
    by (auto simp: option_ref_def option_or_empty_def emplace_ok split: option.splits)
qed

lemma load_trust_ok:
  "load_trust_options i l m = (l', m') \<Longrightarrow> plain_options m \<Longrightarrow> list_all storable_server l \<Longrightarrow>
     plain_options m' \<and> list_all storable_server l' \<and> length l' = length l"
proof (induction i l m arbitrary: l' m' rule: load_trust_options.induct)
  case (2 i s rest m)
  obtain ca m1 where ca: "option_ref (recent_ca i) m = (ca, m1)" by fastforce
  obtain pin m2 where pin: "option_ref (recent_pin i) m1 = (pin, m2)" by fastforce
  obtain rest' m3 where rest: "load_trust_options (Suc i) rest m2 = (rest', m3)" by fastforce
  note plain = option_ref_plain [OF ca "2.prems"(2)]
  note plain' = option_ref_plain [OF pin plain(1)]
  have "plain_options m3 \<and> list_all storable_server rest' \<and> length rest' = length rest"
    using "2.IH" [OF ca [symmetric] refl pin [symmetric] refl rest] plain' "2.prems"(3) by simp
  moreover have "storable_server (s\<lparr>rs_ca_path := ca, rs_fingerprint := pin\<rparr>)"
    using "2.prems"(3) plain(2) plain'(2) by (simp add: storable_server_def)
  ultimately show ?case using "2.prems"(1) by (auto simp: ca pin rest)
qed simp

lemma load_entries_ok:
  assumes "load_preferences opens file = Some p"
  shows "entries_ok p" "length (pf_nickname p) \<le> NICK_MAX_LEN"
proof -
  have nickname: "length n \<le> NICK_MAX_LEN" if "utils_is_valid_nickname n" for n
    using that by (simp add: utils_is_valid_nickname_eq is_valid_nickname_def NICK_MAX_LEN_def split: if_splits)
  have servers: "length (List.map_filter load_recent_row (take 10 rows)) \<le> 10" for rows
    using load_recent_ok(2) [of "take 10 rows"] by simp
  have trusted: "list_all storable_server l \<and> plain_options m \<and> length l \<le> 10"
    if "load_trust_options 0 (List.map_filter load_recent_row (take 10 (sort_key rr_position rows)))
          (fold (\<lambda>(n, v). map_assign (row_text n) (row_text v)) options []) = (l, m)" for rows options l m
    using load_trust_ok [OF that] load_options_plain [of "[]" options] load_recent_ok(1) servers [of "sort_key rr_position rows"] by simp
  show "entries_ok p" "length (pf_nickname p) \<le> NICK_MAX_LEN"
    using assms nickname servers load_recent_ok(1)
    by (auto simp: load_preferences_def entries_ok_def no_preferences_def Let_def
        split: option.splits if_splits list.splits prod.splits dest!: trusted)
qed

section \<open>Runs of the application\<close>

lemma open_app_ok:
  assumes "open_app A loaded fs ks = Some (Some sh, rest)" "entries_ok loaded" "length (pf_nickname loaded) \<le> NICK_MAX_LEN"
  shows "shell_ok sh" "sh_phase sh = AtMenu"
proof -
  from assms(1) obtain form ks1 where form: "edit_curses_form (nickname_form (pf_nickname loaded) (pf_remember loaded)) ks = Some (Some form, ks1)"
    by (auto simp: open_app_def split: Option.bind_splits option.splits)
  define sh0 where "sh0 = \<lparr>sh_phase = AtMenu, sh_nickname = cf_value (form ! 0), sh_preferences = apply_nickname_form form loaded, sh_saves = [],
    sh_draft = [], sh_host = ''localhost'', sh_port = ''7777'', sh_join_tls = ''yes'', sh_host_port = ''7777'', sh_password = [],
    sh_upnp = ''yes'', sh_host_tls = ''yes'',
    sh_certificate = \<lparr>tls_enabled = False, certificate_path = [], private_key_path = []\<rparr>, sh_files = fs\<rparr>"
  have valid: "is_valid_nickname (cf_value (form ! 0))" using nickname_form_submitted [OF form assms(3)] .
  then have "preferences_ok (apply_nickname_form form loaded)"
    using assms(2) by (simp add: apply_nickname_form_def Let_def preferences_ok_def entries_ok_def)
  with valid have ok0: "shell_ok sh0" by (simp add: sh0_def shell_ok_def kept_values_def HOST_MAX_LEN_def)
  from assms(1) form obtain sh1 where sh1: "save_now A sh0 ks1 = Some (sh1, rest)"
    by (auto simp: open_app_def sh0_def [symmetric] split: Option.bind_splits prod.splits if_splits)
  obtain cert sh2 where r2: "read_option ''host.certificate'' sh1 = (cert, sh2)" by fastforce
  obtain key sh3 where r3: "read_option ''host.key'' sh2 = (key, sh3)" by fastforce
  note o2 = read_option_ok [OF save_now_ok(1) [OF sh1 ok0] r2, simplified]
  note o3 = read_option_ok [OF o2(1) r3, simplified]
  have "sh = sh3\<lparr>sh_certificate := (sh_certificate sh3)\<lparr>certificate_path := cert, private_key_path := key\<rparr>\<rparr>"
    using assms(1) form sh1 by (simp add: open_app_def sh0_def [symmetric] r2 r3 split: if_splits)
  moreover have "sh_phase sh1 = AtMenu" using save_now_ok(2) [OF sh1 ok0] by (simp add: sh0_def)
  ultimately show "shell_ok sh" "sh_phase sh = AtMenu"
    using o2 o3 by (simp_all add: shell_ok_def kept_values_def)
qed

text \<open>What can happen next; nobody listens on port 0.\<close>

fun app_possible :: "shell_event \<Rightarrow> shell \<Rightarrow> bool" where
  "app_possible (MenuTurn A ks) sh \<longleftrightarrow> world_ok A \<and> app_next (MenuTurn A ks) sh \<noteq> None"
| "app_possible (JoinEnded attempts drafted) sh \<longleftrightarrow> app_next (JoinEnded attempts drafted) sh \<noteq> None \<and>
     (\<forall>host config. sh_phase sh = JoinPhase host 0 config \<longrightarrow> list_all (\<lambda>a. at_failure a \<noteq> None) attempts)"
| "app_possible (HostEnded drafted) sh \<longleftrightarrow> app_next (HostEnded drafted) sh \<noteq> None"

definition app_go :: "shell_event \<Rightarrow> shell \<Rightarrow> shell" where
  "app_go e sh = (case app_next e sh of None \<Rightarrow> sh | Some sh' \<Rightarrow> sh')"

lemma end_join_ok:
  assumes "end_join attempts drafted sh = Some sh'" "shell_ok sh"
    and "\<And>host config. sh_phase sh = JoinPhase host 0 config \<Longrightarrow> list_all (\<lambda>a. at_failure a \<noteq> None) attempts"
  shows "shell_ok sh'"
proof -
  from assms(1) obtain host port config events p where phase: "sh_phase sh = JoinPhase host port config"
    and loop: "connect_loop (joined_server host port config) False 0 [] attempts (sh_preferences sh) = Some (events, p)"
    and sh': "sh' = sh\<lparr>sh_phase := AtMenu, sh_preferences := p, sh_draft := drafted,
      sh_saves := sh_saves sh @ (if pf_remember p then replicate (length (filter (\<lambda>e. e = Chatted) events)) p else [])\<rparr>"
    by (auto simp: end_join_def split: app_phase.splits)
  have "storable_server (joined_server host port config)" if "a \<in> set attempts" "at_failure a = None" for a
    using assms(2,3) phase that by (fastforce simp: shell_ok_def joined_server_def storable_server_def list_all_iff)
  then have "preferences_ok p" using connect_loop_ok [OF loop] shell_okD(1) [OF assms(2)] by blast
  with assms(2) show ?thesis by (auto simp: sh' shell_ok_def kept_values_def list_all_iff)
qed

lemma app_go_ok:
  assumes "shell_ok sh" "app_possible e sh"
  shows "shell_ok (app_go e sh)"
proof (cases e)
  case (MenuTurn A ks)
  with assms show ?thesis by (auto simp: app_go_def dest: menu_turn_ok split: if_splits)
next
  case (JoinEnded attempts drafted)
  with assms show ?thesis by (auto simp: app_go_def intro: end_join_ok)
next
  case (HostEnded drafted)
  with assms show ?thesis by (auto simp: app_go_def shell_ok_def kept_values_def split: app_phase.splits)
qed

interpretation app_machine: invariant_machine app_go shell_ok app_possible
  by unfold_locales (rule app_go_ok)

text \<open>
  A run of the application, and what is relied on outside it: in every turn of the menu the name of the data directory has no zero byte and a directory
  lists host names of 1 to 63 bytes without zero bytes (\<open>world_ok\<close>); and attempts to connect to port 0 fail.
\<close>

fun app_run :: "shell_event list \<Rightarrow> shell \<Rightarrow> shell option" where
  "app_run [] sh = Some sh"
| "app_run (e # es) sh = do {sh \<leftarrow> app_next e sh; app_run es sh}"

definition listings_fit :: "shell_event list \<Rightarrow> bool" where
  "listings_fit events \<longleftrightarrow> (\<forall>A ks. MenuTurn A ks \<in> set events \<longrightarrow> world_ok A)"

definition port_zero_fails :: "shell_event list \<Rightarrow> shell \<Rightarrow> bool" where
  "port_zero_fails events sh \<longleftrightarrow> (\<forall>before attempts drafted later sh1 host config.
     events = before @ JoinEnded attempts drafted # later \<and> app_run before sh = Some sh1 \<and> sh_phase sh1 = JoinPhase host 0 config \<longrightarrow>
       list_all (\<lambda>a. at_failure a \<noteq> None) attempts)"

lemma app_run_possible:
  assumes "app_run events sh = Some sh'" "listings_fit events" "port_zero_fails events sh"
  shows "app_machine.possible events sh \<and> fold app_go events sh = sh'"
  using assms
proof (induction events arbitrary: sh)
  case (Cons e es)
  from Cons.prems(1) obtain sh1 where sh1: "app_next e sh = Some sh1" "app_run es sh1 = Some sh'" by (auto simp: bind_eq_Some_conv)
  have later: "port_zero_fails es sh1"
    unfolding port_zero_fails_def
  proof (intro allI impI)
    fix before attempts drafted later sh2 host config
    assume "es = before @ JoinEnded attempts drafted # later \<and> app_run before sh1 = Some sh2 \<and> sh_phase sh2 = JoinPhase host 0 config"
    then show "list_all (\<lambda>a. at_failure a \<noteq> None) attempts"
      using Cons.prems(3) [unfolded port_zero_fails_def, rule_format, of "e # before" attempts drafted later sh2 host config] sh1(1) by simp
  qed
  have "list_all (\<lambda>a. at_failure a \<noteq> None) attempts" if "e = JoinEnded attempts drafted" "sh_phase sh = JoinPhase host 0 config"
    for attempts drafted host config
    using Cons.prems(3) [unfolded port_zero_fails_def, rule_format, of "[]" attempts drafted es sh host config] that by simp
  then have "app_possible e sh" using Cons.prems(2) sh1(1) by (cases e) (auto simp: listings_fit_def simp del: app_next.simps)
  moreover have "app_go e sh = sh1" using sh1(1) by (simp add: app_go_def)
  moreover have "listings_fit es" using Cons.prems(2) by (simp add: listings_fit_def)
  ultimately show ?case using Cons.IH [OF sh1(2) _ later] by simp
qed simp

lemma run_shell_ok:
  assumes "load_preferences opens file = Some loaded" "open_app A loaded fs ks = Some (Some start_state, rest)"
    and "app_run events start_state = Some sh" "listings_fit events" "port_zero_fails events start_state"
  shows "shell_ok sh"
proof -
  have "shell_ok start_state" using open_app_ok(1) [OF assms(2)] load_entries_ok [OF assms(1)] by simp
  moreover have "app_machine.run start_state sh"
    using app_run_possible [OF assms(3-5)] app_machine.possible_run [OF app_machine.run.start, of events start_state] by simp
  ultimately show ?thesis using app_machine.run_inv by blast
qed

section \<open>What users can rely on\<close>

text \<open>
  C30: Whatever is saved can be read back. Whatever the file of preferences holds, whatever the user does in the menus and forms from then on,
  and whatever comes of saving, joining, reconnecting and hosting: each time the application saves preferences that are to be remembered, a committed save succeeds, and the next load
  gives the same nickname, the same recent servers in the same order with their certificates and fingerprints, and the same other
  settings. Relied on: no zero bytes in the path of the data directory; directories that list host names of 1 to 63 bytes without zero bytes, which
  nothing in the program checks (lemma \<open>long_host_shifts_pins\<close> shows what a longer one does); and nobody listening on port 0.
\<close>

theorem app_saves_readable:
  assumes "load_preferences opens file = Some loaded" "open_app A loaded fs ks = Some (Some start_state, rest)"
    and "app_run events start_state = Some sh" "listings_fit events" "port_zero_fails events start_state" "p \<in> set (sh_saves sh)" "pf_remember p"
  shows "\<exists>db p'. save_preferences Commits p old = (True, Some db) \<and> load_preferences True (Some db) = Some p' \<and>
    pf_remember p' \<and> pf_nickname p' = pf_nickname p \<and> pf_recent p' = pf_recent p \<and>
    (\<forall>name. \<not> prefix ''recent.'' name \<longrightarrow> map_find (pf_options p') name = map_find (pf_options p) name)"
proof -
  have "shell_ok sh" using run_shell_ok [OF assms(1-5)] .
  with assms(6) have "preferences_ok p" by (auto simp: shell_ok_def list_all_iff)
  with assms(7) have "storable_preferences p" by (simp add: preferences_ok_def storable_preferences_def)
  with assms(7) show ?thesis by (intro preferences_roundtrip)
qed

section \<open>A run\<close>

text \<open>The application is opened for the first time, the user joins a server on this computer and leaves it.\<close>

definition demo_app :: app_env where
  "demo_app = \<lparr>ap_trust = demo_trust_env, ap_ssl = demo_openssl, ap_confirm = (\<lambda>_ _ _. False), ap_identity = (\<lambda>_. True),
     ap_save_fails = (\<lambda>_. False), ap_directory = (\<lambda>_ _. DirectoryCancelled), ap_now = 0\<rparr>"

lemmas form_eval = edit_curses_form_def form_key_def submit_form_def keep_value_def move_in_form_def select_field_def field_error_def
  is_enter_def is_byte_def small_screen_def press_def field_default_def toggle_key_def ed_set_def Let_def

abbreviation enters :: "nat \<Rightarrow> keystroke list" where
  "enters n \<equiv> replicate n (press KEY_ENTER)"

lemma opened_form:
  "edit_curses_form (nickname_form [] False) [press (Byte CHR ''a''), press KEY_ENTER, press (Byte CHR ''y''), press KEY_ENTER] =
     Some (Some (nickname_form ''a'' True), [])"
  by (simp add: form_eval nickname_form_def nickname_error_def utils_is_valid_nickname_eq is_valid_nickname_def ctype_defs byte_def
      edit_key_def ed_insert_def NICK_MAX_LEN_def)

lemma enter_through:
  assumes "form \<noteq> []" "list_all (\<lambda>f. field_error f = []) form"
  shows "edit_curses_form form (enters (length form)) = Some (Some form, [])"
  using form_loop_enter [OF _ _ assms(2), of 0 "\<lparr>fs_fields = form, fs_selected = 0,
      fs_editor = ed_set (cf_value (form ! 0)) \<lparr>ed_text = [], ed_cursor = 0\<rparr>, fs_error = []\<rparr>" "[]"] assms(1)
  by (simp add: edit_curses_form_def at_field_def ed_set_def)

lemma demo_port: "parse_port ''7777'' = Some 7777"
proof -
  have "stoi ''7777'' = Some (7777, 4)" by (simp add: stoi_def ctype_defs byte_def dec_value_def)
  then show ?thesis by (simp add: parse_port_def)
qed

lemma joined_form:
  assumes "sh_host sh = ''localhost''" "sh_port sh = ''7777''" "sh_join_tls sh = ''yes''"
  shows "edit_curses_form (join_form sh [] []) (enters 5) = Some (Some (join_form sh [] []), [])"
    "join_typed A (join_form sh [] []) = JoinPhase ''localhost'' 7777 (interactive_tls A)"
proof -
  note port = demo_port
  then have "list_all (\<lambda>f. field_error f = []) (join_form sh [] [])"
    using assms by (simp add: join_form_def field_error_def required_field_def text_field_def field_default_def required_error_def port_error_def)
  moreover have "length (join_form sh [] []) = 5" "join_form sh [] [] \<noteq> []" by (simp_all add: join_form_def)
  ultimately show "edit_curses_form (join_form sh [] []) (enters 5) = Some (Some (join_form sh [] []), [])"
    using enter_through [of "join_form sh [] []"] by simp
  show "join_typed A (join_form sh [] []) = JoinPhase ''localhost'' 7777 (interactive_tls A)"
    using assms port by (simp add: join_typed_def join_form_def required_field_def text_field_def field_default_def interactive_tls_def
        default_client_config_def)
qed

abbreviation opening_keys :: "keystroke list" where
  "opening_keys \<equiv> [press (Byte CHR ''a''), press KEY_ENTER, press (Byte CHR ''y''), press KEY_ENTER]"

lemma demo_open:
  "\<exists>sh. open_app demo_app no_preferences no_host_files opening_keys = Some (Some sh, []) \<and> sh_phase sh = AtMenu \<and>
     sh_host sh = ''localhost'' \<and> sh_port sh = ''7777'' \<and> sh_join_tls sh = ''yes'' \<and> pf_remember (sh_preferences sh) \<and>
     pf_options (sh_preferences sh) = [(''host.certificate'', []), (''host.key'', [])]"
proof -
  have "apply_nickname_form (nickname_form ''a'' True) no_preferences = no_preferences\<lparr>pf_remember := True, pf_nickname := ''a''\<rparr>"
    by (simp add: apply_nickname_form_def nickname_form_def Let_def)
  then show ?thesis
    using opened_form
    by (simp add: open_app_def no_preferences_def save_now_def demo_app_def Let_def read_option_def option_ref_def
        on_preferences_def map_emplace_def option_or_empty_def nickname_form_def del: One_nat_def)
qed

lemma demo_join:
  assumes "sh_phase sh = AtMenu" "sh_host sh = ''localhost''" "sh_port sh = ''7777''" "sh_join_tls sh = ''yes''"
    "pf_options (sh_preferences sh) = [(''host.certificate'', []), (''host.key'', [])]" "pf_remember (sh_preferences sh)"
  shows "\<exists>sh'. app_next (MenuTurn demo_app (enters 6)) sh = Some sh' \<and>
    sh_phase sh' = JoinPhase ''localhost'' 7777 (interactive_tls demo_app) \<and> pf_remember (sh_preferences sh')"
proof -
  obtain ca sh1 where r1: "read_option ''join.ca'' sh = (ca, sh1)" by fastforce
  obtain pin sh2 where r2: "read_option ''join.pin'' sh1 = (pin, sh2)" by fastforce
  have read: "ca = []" "pin = []" "sh_host sh2 = ''localhost''" "sh_port sh2 = ''7777''" "sh_join_tls sh2 = ''yes''"
    "pf_remember (sh_preferences sh2)"
    using assms r1 r2 by (auto simp: read_option_def option_ref_def option_or_empty_def on_preferences_def map_emplace_def)
  have "join_dialog demo_app sh (enters 5) = save_now demo_app (assign_option ''join.pin'' [] (assign_option ''join.ca'' []
        (sh2\<lparr>sh_host := ''localhost'', sh_port := ''7777'', sh_join_tls := ''yes''\<rparr>))) [] \<bind>
      (\<lambda>(sh, ks). Some (sh\<lparr>sh_phase := JoinPhase ''localhost'' 7777 (interactive_tls demo_app)\<rparr>, ks))"
    unfolding join_dialog_def r1 r2 Let_def prod.case read(1,2)
    using joined_form [OF read(3-5)] read(3-5)
    by (simp add: join_form_def required_field_def text_field_def field_default_def)
  moreover have "menu_turn demo_app sh (enters 6) = join_dialog demo_app sh (enters 5)"
    by (simp add: menu_turn_def choose_curses_menu_def main_items_def menu_key_def press_def is_byte_def is_enter_def small_screen_def
        eval_nat_numeral)
  ultimately show ?thesis
    using assms(1) read(6) by (simp add: save_now_def demo_app_def Let_def assign_option_def on_preferences_def)
qed

theorem app_saves_readable_witness:
  "\<exists>start_state events sh p. open_app demo_app no_preferences no_host_files opening_keys = Some (Some start_state, []) \<and>
     app_run events start_state = Some sh \<and> p \<in> set (sh_saves sh) \<and> rs_host (hd (pf_recent p)) = ''localhost'' \<and>
     (\<exists>db p'. save_preferences Commits p None = (True, Some db) \<and> load_preferences True (Some db) = Some p' \<and> pf_recent p' = pf_recent p)"
proof -
  have world: "world_ok demo_app" by (simp add: world_ok_def demo_app_def demo_trust_env_def)
  obtain sh0 where sh0: "open_app demo_app no_preferences no_host_files opening_keys = Some (Some sh0, [])" "sh_phase sh0 = AtMenu"
     "sh_host sh0 = ''localhost''" "sh_port sh0 = ''7777''" "sh_join_tls sh0 = ''yes''" "pf_remember (sh_preferences sh0)"
     "pf_options (sh_preferences sh0) = [(''host.certificate'', []), (''host.key'', [])]"
    using demo_open by blast
  from demo_join [OF sh0(2-5,7,6)] obtain sh1 where sh1: "app_next (MenuTurn demo_app (enters 6)) sh0 = Some sh1"
    "sh_phase sh1 = JoinPhase ''localhost'' 7777 (interactive_tls demo_app)" "pf_remember (sh_preferences sh1)" by blast
  let ?attempt = "\<lparr>at_delayed = False, at_failure = None, at_retry = False, at_join_error = None, at_exit = ChatLeft, at_denied = False, at_room = []\<rparr>"
  let ?server = "joined_server ''localhost'' 7777 (interactive_tls demo_app)"
  let ?p = "remember_server ?server (sh_preferences sh1)"
  obtain sh2 where sh2: "app_next (JoinEnded [?attempt] []) sh1 = Some sh2" "?p \<in> set (sh_saves sh2)"
    using sh1(2,3) by (auto simp: end_join_def remember_server_def Let_def case_prod_unfold)
  let ?events = "[MenuTurn demo_app (enters 6), JoinEnded [?attempt] []]"
  have run: "app_run ?events sh0 = Some sh2" using sh1(1) sh2(1) by (simp del: app_next.simps)
  have fit: "listings_fit ?events" using world by (simp add: listings_fit_def)
  have zero: "port_zero_fails ?events sh0"
    using sh1 by (auto simp: port_zero_fails_def Cons_eq_append_conv append_eq_Cons_conv simp del: app_next.simps)
  have "rs_host (hd (pf_recent ?p)) = ''localhost''"
    using remember_front(2) [of ?server "sh_preferences sh1"] by (simp add: server_key_def joined_server_def)
  moreover have "pf_remember ?p" using sh1(3) by (simp add: remember_server_def Let_def case_prod_unfold)
  moreover have "load_preferences True None = Some no_preferences" by (simp add: load_preferences_def)
  ultimately show ?thesis using app_saves_readable [OF _ sh0(1) run fit zero sh2(2), of True None None] sh0(1) run sh2(2) by blast
qed

end
