(* ===== verification/App_Targets.thy ===== *)
theory App_Targets
  imports App_Safety
begin

text \<open>
  Where a turn of the main menu leads: the settings with which a server is joined, and those with which one is hosted.

  Shown: they are what the user has typed, chosen or reviewed, and a server is hosted with TLS settings that OpenSSL accepts. A lemma at the end is about host names longer
  than a form accepts.
\<close>

section \<open>Where a join goes\<close>

lemma same_phase [simp]:
  "sh_phase (on_preferences f sh) = sh_phase sh" "sh_phase (assign_option name v sh) = sh_phase sh"
  "sh_phase (store_publication pb sh) = sh_phase sh"
  by (simp_all add: on_preferences_def assign_option_def store_publication_def)

lemma read_phase: "read_option name sh = (v, sh') \<Longrightarrow> sh_phase sh' = sh_phase sh"
  by (auto simp: read_option_def on_preferences_def split: prod.splits)

lemma save_phase: "save_now A sh ks = Some (sh', rest) \<Longrightarrow> sh_phase sh' = sh_phase sh"
  by (auto simp: save_now_def Let_def split: if_splits Option.bind_splits)

lemma plan_phase:
  assumes "plan_host form pb sh ks = Some (sh', rest)" "sh_phase sh = AtMenu"
  shows "sh_phase sh' = AtMenu \<or> (\<exists>plan. sh_phase sh' = HostPhase plan)"
  using assms by (auto simp: plan_host_def Let_def split: option.splits)

lemma stored_phase: "stored_publication sh = (pb, sh') \<Longrightarrow> sh_phase sh' = sh_phase sh"
  by (auto simp: stored_publication_def dest!: read_phase split: prod.splits)

lemma publish_phase:
  assumes "publish_dialog A form sh ks = Some (sh', rest)" "sh_phase sh = AtMenu"
  shows "sh_phase sh' = AtMenu \<or> (\<exists>plan. sh_phase sh' = HostPhase plan)"
  using assms plan_phase
  by (fastforce simp: publish_dialog_def split: prod.splits Option.bind_splits dialog.splits dest!: stored_phase dest: save_phase)

lemma secure_phase:
  assumes "secure_host A form sh ks = Some (sh', rest)" "sh_phase sh = AtMenu"
  shows "sh_phase sh' = AtMenu \<or> (\<exists>plan. sh_phase sh' = HostPhase plan)"
  using assms
  by (auto simp: secure_host_def Let_def split: prod.splits Option.bind_splits dialog.splits if_splits
      dest!: save_phase publish_phase plan_phase)

lemma host_phase:
  assumes "host_dialog A sh ks = Some (sh', rest)" "sh_phase sh = AtMenu"
  shows "sh_phase sh' = AtMenu \<or> (\<exists>plan. sh_phase sh' = HostPhase plan)"
  using assms by (auto simp: host_dialog_def split: prod.splits Option.bind_splits option.splits dest!: secure_phase)

lemma nickname_phase: "nickname_dialog A sh ks = Some (sh', rest) \<Longrightarrow> sh_phase sh' = sh_phase sh"
  by (auto simp: nickname_dialog_def split: prod.splits Option.bind_splits option.splits if_splits dest!: save_phase)

lemma recent_target:
  assumes "recent_dialog A sh ks = Some (sh', rest)" "sh_phase sh = AtMenu" "sh_phase sh' = JoinPhase host port config"
  shows "\<exists>chosen ks1 ks2. choose_curses_menu (recent_items (sh_preferences sh)) ks = Some (chosen, ks1) \<and> 0 \<le> chosen \<and>
    nat chosen < length (pf_recent (sh_preferences sh)) \<and> choose_curses_menu recent_actions ks1 = Some (0, ks2) \<and>
    JoinPhase host port config = join_recent A (pf_recent (sh_preferences sh) ! nat chosen)"
proof -
  let ?items = "recent_items (sh_preferences sh)"
  have renamed: "sh_phase sh' = AtMenu" if "rename_dialog A i sh ks1 = Some (sh', rest)" for i ks1
    using that assms(2) by (auto simp: rename_dialog_def split: Option.bind_splits option.splits prod.splits dest!: save_phase)
  from assms renamed obtain chosen ks1 ks2 where chosen: "choose_curses_menu ?items ks = Some (chosen, ks1)" "?items \<noteq> []" "0 \<le> chosen"
      and phase: "choose_curses_menu recent_actions ks1 = Some (0, ks2)" "sh_phase sh' = join_recent A (pf_recent (sh_preferences sh) ! nat chosen)"
    by (auto simp: recent_dialog_def Let_def split: Option.bind_splits if_splits prod.splits dest!: save_phase)
  have "nat chosen < length (pf_recent (sh_preferences sh))"
    using menu_range [OF chosen] by (simp add: recent_items_def)
  with chosen phase assms(3) show ?thesis by auto
qed

lemma invite_target:
  assumes "invite_dialog A sh ks = Some (sh', rest)" "sh_phase sh = AtMenu" "sh_phase sh' = JoinPhase host port config"
  shows "\<exists>form ks1 ks2 i. edit_curses_form [required_field ''Chatbox invite'' [] 1024] ks = Some (Some form, ks1) \<and>
    parse_invite (cf_value (form ! 0)) = Inr i \<and> show_curses_notice ks1 = Some ks2 \<and> choose_curses_menu invite_items ks2 = Some (1, rest) \<and>
    JoinPhase host port config = join_invited A i"
  using assms by (auto simp: invite_dialog_def split: Option.bind_splits option.splits prod.splits sum.splits if_splits)

abbreviation listed_items :: "app_env \<Rightarrow> browser_entry list \<Rightarrow> menu_item list" where
  "listed_items A listing \<equiv> map (\<lambda>e. \<lparr>mi_shortcut = None, mi_title = be_name e, mi_description = browser_entry_summary (ap_now A) e\<rparr>) listing"

lemma choose_target:
  assumes "choose_listed A answer sh ks = Some (sh', rest)" "sh_phase sh = AtMenu" "sh_phase sh' = JoinPhase host port config"
  shows "\<exists>listing chosen ks1. answer = DirectoryEntries listing \<and> choose_curses_menu (listed_items A listing) ks = Some (chosen, ks1) \<and>
    0 \<le> chosen \<and> nat chosen < length listing \<and> show_curses_notice ks1 = Some rest \<and> JoinPhase host port config = join_listed A (listing ! nat chosen)"
proof -
  from assms obtain listing chosen ks1 where chosen: "answer = DirectoryEntries listing" "listing \<noteq> []"
      "choose_curses_menu (listed_items A listing) ks = Some (chosen, ks1)" "0 \<le> chosen"
    and shown: "show_curses_notice ks1 = Some rest" "sh_phase sh' = join_listed A (listing ! nat chosen)"
    by (auto simp: choose_listed_def split: directory_answer.splits Option.bind_splits prod.splits if_splits)
  moreover have "nat chosen < length listing" using menu_range [OF chosen(3) _ chosen(4)] chosen(2) by simp
  ultimately show ?thesis using assms(3) by auto
qed

lemma save_rest: "save_now A sh ks = Some (sh', ks') \<Longrightarrow> ks' = ks \<or> show_curses_notice ks = Some ks'"
  by (auto simp: save_now_def Let_def split: if_splits Option.bind_splits)

text \<open>What a form is filled with at first.\<close>

definition stored_option :: "string \<Rightarrow> shell \<Rightarrow> string" where
  "stored_option name sh = option_or_empty name (pf_options (sh_preferences sh))"

lemma read_stored:
  assumes "read_option name sh = (v, sh')" "shell_ok sh" "no_nul name"
  shows "v = stored_option name sh" "stored_option n sh' = stored_option n sh" "shell_ok sh'" "sh_phase sh' = sh_phase sh"
    "kept_values sh' = kept_values sh"
proof -
  have "ascending (map fst (pf_options (sh_preferences sh)))" using assms(2) by (simp add: shell_ok_def preferences_ok_def)
  with assms(1) show "v = stored_option name sh" "stored_option n sh' = stored_option n sh"
    by (auto simp: read_option_def option_ref_def stored_option_def on_preferences_def option_or_empty_def map_find_emplace split: option.splits if_splits)
  show "shell_ok sh'" "sh_phase sh' = sh_phase sh" "kept_values sh' = kept_values sh"
    using read_option_ok [OF assms(2,1,3)] by simp_all
qed

lemma discover_target:
  assumes "discover_dialog A sh ks = Some (sh', rest)" "sh_phase sh = AtMenu" "sh_phase sh' = JoinPhase host port config" "shell_ok sh"
  shows "\<exists>form ks1 ks2 address listing chosen ks3.
    edit_curses_form (directory_form (stored_option ''directory.host'' sh) (stored_option ''directory.tls'' sh)
      (stored_option ''directory.ca'' sh) (stored_option ''directory.pin'' sh)) ks = Some (Some form, ks1) \<and>
    (ks2 = ks1 \<or> show_curses_notice ks1 = Some ks2) \<and> parse_browser_address (cf_value (form ! 0)) = Some address \<and>
    ap_directory A address ((interactive_tls A)\<lparr>enabled := (cf_value (form ! 1) = ''yes''), ca_path := cf_value (form ! 2),
      expected_fingerprint := cf_value (form ! 3)\<rparr>) = DirectoryEntries listing \<and>
    choose_curses_menu (listed_items A listing) ks2 = Some (chosen, ks3) \<and> 0 \<le> chosen \<and> nat chosen < length listing \<and>
    show_curses_notice ks3 = Some rest \<and> JoinPhase host port config = join_listed A (listing ! nat chosen)"
proof -
  obtain h sh1 where r1: "read_option ''directory.host'' sh = (h, sh1)" by fastforce
  obtain t sh2 where r2: "read_option ''directory.tls'' sh1 = (t, sh2)" by fastforce
  obtain c sh3 where r3: "read_option ''directory.ca'' sh2 = (c, sh3)" by fastforce
  obtain f sh4 where r4: "read_option ''directory.pin'' sh3 = (f, sh4)" by fastforce
  note s1 = read_stored [OF r1 assms(4), simplified]
  note s2 = read_stored [OF r2 s1(3), simplified]
  note s3 = read_stored [OF r3 s2(3), simplified]
  note s4 = read_stored [OF r4 s3(3), simplified]
  note values_read = s1(1) s2(1) [unfolded s1(2)] s3(1) [unfolded s2(2) s1(2)] s4(1) [unfolded s3(2) s2(2) s1(2)]
  have at_menu: "sh_phase sh4 = AtMenu" using s1(4) s2(4) s3(4) s4(4) assms(2) by simp
  from assms(1,3) at_menu obtain form ks1 where form: "edit_curses_form (directory_form h t c f) ks = Some (Some form, ks1)"
    by (auto simp: discover_dialog_def r1 r2 r3 r4 Let_def split: Option.bind_splits option.splits prod.splits)
  let ?set = "assign_option ''directory.pin'' (cf_value (form ! 3)) (assign_option ''directory.ca'' (cf_value (form ! 2))
              (assign_option ''directory.tls'' (cf_value (form ! 1)) (assign_option ''directory.host'' (cf_value (form ! 0)) sh4)))"
  from assms(1) form obtain sh5 ks2 where saved: "save_now A ?set ks1 = Some (sh5, ks2)"
    by (auto simp: discover_dialog_def r1 r2 r3 r4 Let_def split: Option.bind_splits)
  have phase: "sh_phase sh5 = AtMenu" using save_phase [OF saved] at_menu by simp
  from assms(1,3) form saved phase obtain address where address: "parse_browser_address (cf_value (form ! 0)) = Some address"
    and chosen: "choose_listed A (ap_directory A address ((interactive_tls A)\<lparr>enabled := (cf_value (form ! 1) = ''yes''), ca_path := cf_value (form ! 2),
      expected_fingerprint := cf_value (form ! 3)\<rparr>)) sh5 ks2 = Some (sh', rest)"
    by (auto simp: discover_dialog_def r1 r2 r3 r4 Let_def notify_user_def split: Option.bind_splits option.splits)
  from choose_target [OF chosen phase assms(3)] form [unfolded values_read] save_rest [OF saved] address show ?thesis by blast
qed

lemma typed_target:
  assumes "join_dialog A sh ks = Some (sh', rest)" "sh_phase sh = AtMenu" "sh_phase sh' = JoinPhase host port config" "shell_ok sh"
  shows "\<exists>form ks1. edit_curses_form (join_form sh (stored_option ''join.ca'' sh) (stored_option ''join.pin'' sh)) ks = Some (Some form, ks1) \<and>
    parse_port (cf_value (form ! 1)) = Some port \<and> JoinPhase host port config = join_typed A form"
proof -
  obtain ca sh1 where r1: "read_option ''join.ca'' sh = (ca, sh1)" by fastforce
  obtain pin sh2 where r2: "read_option ''join.pin'' sh1 = (pin, sh2)" by fastforce
  note o1 = read_option_ok [OF assms(4) r1, simplified]
  note o2 = read_option_ok [OF o1(1) r2, simplified]
  note s1 = read_stored [OF r1 assms(4), simplified]
  note s2 = read_stored [OF r2 s1(3), simplified]
  have same: "join_form sh2 ca pin = join_form sh ca pin" "ca = stored_option ''join.ca'' sh" "pin = stored_option ''join.pin'' sh"
    using r1 r2 s1(1,2) s2(1) by (auto simp: join_form_def read_option_def on_preferences_def split: prod.splits)
  obtain form ks1 where form: "edit_curses_form (join_form sh2 ca pin) ks = Some (Some form, ks1)" "sh_phase sh' = join_typed A form"
    using assms(1-3) o1(4) o2(4)
    by (auto simp: join_dialog_def r1 r2 Let_def split: Option.bind_splits option.splits prod.splits dest!: save_phase)
  moreover have "parse_port (cf_value (form ! 1)) = Some port"
    using join_form_ok(9) [OF form(1) o2(1) o1(2) o2(2)] form(2) assms(3) by (auto simp: join_typed_def)
  ultimately show ?thesis using assms(3) same by metis
qed

section \<open>What is hosted\<close>

definition hosting :: "shell \<Rightarrow> server_config \<times> host_files \<times> string list" where
  "hosting sh = (sh_certificate sh, sh_files sh, [sh_host_port sh, sh_password sh, sh_upnp sh, sh_host_tls sh])"

text \<open>The variables hold the answers of the form.\<close>

definition answered :: "curses_field list \<Rightarrow> shell \<Rightarrow> bool" where
  "answered form sh \<longleftrightarrow> sh_host_port sh = cf_value (form ! 0) \<and> sh_password sh = cf_value (form ! 1) \<and>
     sh_upnp sh = cf_value (form ! 2) \<and> sh_host_tls sh = cf_value (form ! 4)"

lemma answered_hosting: "hosting sh' = hosting sh \<Longrightarrow> answered form sh' = answered form sh"
  by (simp add: hosting_def answered_def)

lemma same_hosting [simp]:
  "hosting (on_preferences f sh) = hosting sh" "hosting (assign_option name v sh) = hosting sh" "hosting (store_publication pb sh) = hosting sh"
  by (simp_all add: hosting_def on_preferences_def assign_option_def store_publication_def)

lemma read_hosting: "read_option name sh = (v, sh') \<Longrightarrow> hosting sh' = hosting sh"
  by (auto simp: hosting_def read_option_def on_preferences_def split: prod.splits)

lemma stored_hosting: "stored_publication sh = (pb, sh') \<Longrightarrow> hosting sh' = hosting sh"
  by (auto simp: stored_publication_def dest!: read_hosting split: prod.splits)

lemma save_hosting: "save_now A sh ks = Some (sh', rest) \<Longrightarrow> hosting sh' = hosting sh"
  by (auto simp: hosting_def save_now_def Let_def split: if_splits Option.bind_splits)

definition planned :: "shell \<Rightarrow> host_plan \<Rightarrow> bool" where
  "planned sh plan \<longleftrightarrow> hp_tls plan = sh_certificate sh \<and> parse_port (sh_host_port sh) = Some (hp_port plan) \<and>
     hp_password plan = sh_password sh \<and> hp_upnp plan = (sh_upnp sh = ''yes'') \<and>
     (\<forall>address pb. hp_publication plan = Some (address, pb) \<longrightarrow> parse_browser_address (pb_host pb) = Some address)"

lemma plan_target:
  assumes "plan_host form pb sh ks = Some (sh', rest)" "sh_phase sh = AtMenu" "sh_phase sh' = HostPhase plan" "answered form sh"
  shows "planned sh' plan" "hosting sh' = hosting sh"
  using assms by (auto simp: hosting_def plan_host_def planned_def answered_def Let_def split: option.splits)

lemma publish_target:
  assumes "publish_dialog A form sh ks = Some (sh', rest)" "sh_phase sh = AtMenu" "sh_phase sh' = HostPhase plan" "answered form sh"
  shows "planned sh' plan" "hosting sh' = hosting sh"
proof -
  obtain previous sh1 where previous: "stored_publication sh = (previous, sh1)" by fastforce
  note phase = stored_phase [OF previous, unfolded assms(2)]
  from assms(1,3) phase obtain pb sh2 ks1 ks2 where saved: "save_now A (store_publication pb sh1) ks1 = Some (sh2, ks2)"
    and plan: "plan_host form (Some pb) sh2 ks2 = Some (sh', rest)"
    by (auto simp: publish_dialog_def previous split: Option.bind_splits prod.splits dialog.splits)
  have "sh_phase sh2 = AtMenu" using save_phase [OF saved] phase by simp
  moreover have same: "hosting sh2 = hosting sh"
    using save_hosting [OF saved] stored_hosting [OF previous] by simp
  ultimately show "planned sh' plan" "hosting sh' = hosting sh"
    using plan_target [OF plan _ assms(3)] answered_hosting [OF same] assms(4) by simp_all
qed

lemma secure_target:
  assumes "secure_host A form sh ks = Some (sh', rest)" "sh_phase sh = AtMenu" "sh_phase sh' = HostPhase plan"
    and "answered form sh"
  shows "planned sh' plan \<and> configure_server_context (ap_ssl A) (sh_certificate sh') (sh_files sh') = None \<and>
    tls_enabled (sh_certificate sh') = (sh_host_tls sh' = ''yes'')"
proof -
  from assms(1-3) obtain config fs ks1 where tls: "configure_tls (ap_ssl A) (data_directory (ap_trust A))
      ((sh_certificate sh)\<lparr>tls_enabled := (cf_value (form ! 4) = ''yes'')\<rparr>) (sh_files sh) ks = Some (Answer (), config, fs, ks1)"
    by (auto simp: secure_host_def Let_def split: Option.bind_splits dialog.splits prod.splits)
  let ?sh = "assign_option ''host.key'' (private_key_path config) (assign_option ''host.certificate'' (certificate_path config)
      (sh\<lparr>sh_certificate := config, sh_files := fs\<rparr>))"
  from assms(1) tls obtain sh1 ks2 where saved: "save_now A ?sh ks1 = Some (sh1, ks2)"
    and next_step: "publish_dialog A form sh1 ks2 = Some (sh', rest) \<or> plan_host form None sh1 ks2 = Some (sh', rest)"
    by (auto simp: secure_host_def Let_def split: Option.bind_splits prod.splits if_splits)
  have at_menu: "sh_phase sh1 = AtMenu" using save_phase [OF saved] assms(2) by simp
  have same: "sh_certificate sh1 = config" "sh_files sh1 = fs" "answered form sh1"
    using save_hosting [OF saved] assms(4) by (simp_all add: hosting_def answered_def assign_option_def on_preferences_def)
  moreover have "planned sh' plan" "hosting sh' = hosting sh1"
    using next_step publish_target [OF _ at_menu assms(3) same(3)] plan_target [OF _ at_menu assms(3) same(3)] by blast+
  ultimately show ?thesis using configure_tls_ok [OF tls] by (simp add: hosting_def answered_def)
qed

lemma host_target:
  assumes "host_dialog A sh ks = Some (sh', rest)" "sh_phase sh = AtMenu" "sh_phase sh' = HostPhase plan"
  shows "planned sh' plan \<and> configure_server_context (ap_ssl A) (sh_certificate sh') (sh_files sh') = None \<and>
    tls_enabled (sh_certificate sh') = (sh_host_tls sh' = ''yes'')"
  using assms
  by (auto simp: host_dialog_def split: prod.splits Option.bind_splits option.splits dest!: secure_target)
    (simp_all add: answered_def)

lemma not_hosted:
  assumes "sh_phase sh = AtMenu"
  shows "choose_listed A answer sh ks = Some (sh', rest) \<Longrightarrow> sh_phase sh' \<noteq> HostPhase plan"
    and "rename_dialog A i sh ks = Some (sh', rest) \<Longrightarrow> sh_phase sh' \<noteq> HostPhase plan"
    and "join_dialog A sh ks = Some (sh', rest) \<Longrightarrow> sh_phase sh' \<noteq> HostPhase plan"
    and "invite_dialog A sh ks = Some (sh', rest) \<Longrightarrow> sh_phase sh' \<noteq> HostPhase plan"
  using assms
  by (auto simp: choose_listed_def join_listed_def rename_dialog_def join_dialog_def join_typed_def invite_dialog_def join_invited_def
      split: directory_answer.splits Option.bind_splits option.splits prod.splits sum.splits if_splits dest!: read_phase save_phase)

lemma not_hosted_either:
  assumes "sh_phase sh = AtMenu"
  shows "discover_dialog A sh ks = Some (sh', rest) \<Longrightarrow> sh_phase sh' \<noteq> HostPhase plan"
    and "recent_dialog A sh ks = Some (sh', rest) \<Longrightarrow> sh_phase sh' \<noteq> HostPhase plan"
  using assms
  by (auto simp: discover_dialog_def recent_dialog_def join_recent_def Let_def
      split: Option.bind_splits option.splits prod.splits if_splits dest!: read_phase save_phase not_hosted(1,2) [rotated])

lemma only_hosting_hosts:
  assumes "menu_turn A sh ks = Some (sh', rest)" "sh_phase sh = AtMenu" "sh_phase sh' = HostPhase plan"
  shows "\<exists>ks1. host_dialog A sh ks1 = Some (sh', rest)"
  using assms not_hosted(3,4) [OF assms(2)] not_hosted_either [OF assms(2)]
  by (auto simp: menu_turn_def split: Option.bind_splits if_splits dest!: nickname_phase)

section \<open>What users can rely on\<close>

text \<open>
  C31: A server is joined with the settings that were reviewed. After any run of the application, if a turn of the menu leads to a connection, then
  certificates that are not known yet are not trusted without asking, the question goes to the user, and the trust store is the
  usual one; and the keys of that turn were: the choice to join a server and a form, whose address, port, TLS, CA file and fingerprint are used; or the choice of the directories, a
  form for one, and the choice of the very entry of its listing whose address, port and TLS are used, without the CA file or the fingerprint that were entered for the
  directory; or the choice of the recent servers, of one of them and of joining it, and the settings are those of that server; or the choice of an invitation,
  which was typed, parsed, shown, and accepted in the menu after that, and the settings are those of the invitation. Relied on: as in the previous property.
\<close>

theorem join_settings_reviewed:
  assumes "load_preferences opens file = Some loaded" "open_app A0 loaded fs ks0 = Some (Some start_state, rest0)"
    and "app_run events start_state = Some sh" "listings_fit events" "port_zero_fails events start_state"
    and "app_next (MenuTurn A ks) sh = Some sh'" "sh_phase sh' = JoinPhase host port config"
  shows "\<not> trust_on_first_use config \<and> confirm_certificate config = Some (ap_confirm A) \<and>
    trust_store_path config = default_trust_store_path (ap_trust A) \<and>
    (\<exists>choice ks1. choose_curses_menu main_items ks = Some (choice, ks1) \<and>
      (choice = 0 \<and> (\<exists>form ks2. edit_curses_form (join_form sh (stored_option ''join.ca'' sh) (stored_option ''join.pin'' sh)) ks1 = Some (Some form, ks2) \<and>
         host = cf_value (form ! 0) \<and> parse_port (cf_value (form ! 1)) = Some port \<and> enabled config = (cf_value (form ! 2) = ''yes'') \<and>
         ca_path config = cf_value (form ! 3) \<and> expected_fingerprint config = cf_value (form ! 4)) \<or>
       choice = 2 \<and> (\<exists>form ks2 ks3 address listing chosen ks4 rest.
         edit_curses_form (directory_form (stored_option ''directory.host'' sh) (stored_option ''directory.tls'' sh)
           (stored_option ''directory.ca'' sh) (stored_option ''directory.pin'' sh)) ks1 = Some (Some form, ks2) \<and>
         (ks3 = ks2 \<or> show_curses_notice ks2 = Some ks3) \<and> parse_browser_address (cf_value (form ! 0)) = Some address \<and>
         ap_directory A address ((interactive_tls A)\<lparr>enabled := (cf_value (form ! 1) = ''yes''), ca_path := cf_value (form ! 2),
           expected_fingerprint := cf_value (form ! 3)\<rparr>) = DirectoryEntries listing \<and>
         choose_curses_menu (listed_items A listing) ks3 = Some (chosen, ks4) \<and> 0 \<le> chosen \<and> nat chosen < length listing \<and>
         show_curses_notice ks4 = Some rest \<and> (let e = listing ! nat chosen in host = be_host e \<and> port = be_port e \<and>
           enabled config = be_uses_tls e) \<and> ca_path config = [] \<and> expected_fingerprint config = []) \<or>
       choice = 3 \<and> (\<exists>chosen ks2 ks3. choose_curses_menu (recent_items (sh_preferences sh)) ks1 = Some (chosen, ks2) \<and> 0 \<le> chosen \<and>
         nat chosen < length (pf_recent (sh_preferences sh)) \<and> choose_curses_menu recent_actions ks2 = Some (0, ks3) \<and>
         (let r = pf_recent (sh_preferences sh) ! nat chosen in host = rs_host r \<and> port = rs_port r \<and> enabled config = rs_tls r \<and>
           ca_path config = rs_ca_path r \<and> expected_fingerprint config = rs_fingerprint r)) \<or>
       choice = 5 \<and> (\<exists>form ks2 ks3 rest i. edit_curses_form [required_field ''Chatbox invite'' [] 1024] ks1 = Some (Some form, ks2) \<and>
         parse_invite (cf_value (form ! 0)) = Inr i \<and> show_curses_notice ks2 = Some ks3 \<and> choose_curses_menu invite_items ks3 = Some (1, rest) \<and>
         host = invite_host i \<and> port = invite_port i \<and> enabled config = invite_tls i \<and> ca_path config = [] \<and>
         expected_fingerprint config = invite_fingerprint i)))"
proof -
  have ok: "shell_ok sh" using run_shell_ok [OF assms(1-5)] .
  from assms(6) obtain rest where at_menu: "sh_phase sh = AtMenu" and turn: "menu_turn A sh ks = Some (sh', rest)"
    by (auto split: if_splits)
  from turn obtain choice ks1 where chosen: "choose_curses_menu main_items ks = Some (choice, ks1)"
    by (auto simp: menu_turn_def split: Option.bind_splits)
  note defs = interactive_tls_def default_client_config_def
  consider (typed) "choice = 0" "join_dialog A sh ks1 = Some (sh', rest)" | (listed) "choice = 2" "discover_dialog A sh ks1 = Some (sh', rest)"
    | (recent) "choice = 3" "recent_dialog A sh ks1 = Some (sh', rest)" | (invited) "choice = 5" "invite_dialog A sh ks1 = Some (sh', rest)"
    using turn chosen assms(7) at_menu
    by (auto simp: menu_turn_def split: if_splits dest!: host_phase nickname_phase)
  then show ?thesis
  proof cases
    case typed
    from typed_target [OF typed(2) at_menu assms(7) ok] obtain form ks2 where
      form: "edit_curses_form (join_form sh (stored_option ''join.ca'' sh) (stored_option ''join.pin'' sh)) ks1 = Some (Some form, ks2)"
        "parse_port (cf_value (form ! 1)) = Some port" and target: "JoinPhase host port config = join_typed A form" by blast
    from target have "host = cf_value (form ! 0)" "config = (interactive_tls A)\<lparr>enabled := (cf_value (form ! 2) = ''yes''), ca_path := cf_value (form ! 3),
        expected_fingerprint := cf_value (form ! 4)\<rparr>" by (simp_all add: join_typed_def)
    then show ?thesis using chosen typed(1) form by (simp add: defs)
  next
    case listed
    from discover_target [OF listed(2) at_menu assms(7) ok] obtain form ks2 ks3 address listing chosen' ks4 where
      keys: "edit_curses_form (directory_form (stored_option ''directory.host'' sh) (stored_option ''directory.tls'' sh)
           (stored_option ''directory.ca'' sh) (stored_option ''directory.pin'' sh)) ks1 = Some (Some form, ks2)"
         "ks3 = ks2 \<or> show_curses_notice ks2 = Some ks3" "parse_browser_address (cf_value (form ! 0)) = Some address"
         "ap_directory A address ((interactive_tls A)\<lparr>enabled := (cf_value (form ! 1) = ''yes''), ca_path := cf_value (form ! 2),
           expected_fingerprint := cf_value (form ! 3)\<rparr>) = DirectoryEntries listing"
         "choose_curses_menu (listed_items A listing) ks3 = Some (chosen', ks4)" "0 \<le> chosen'" "nat chosen' < length listing"
         "show_curses_notice ks4 = Some rest" and target: "JoinPhase host port config = join_listed A (listing ! nat chosen')" by blast
    from target have "host = be_host (listing ! nat chosen')" "port = be_port (listing ! nat chosen')"
      "config = (interactive_tls A)\<lparr>enabled := be_uses_tls (listing ! nat chosen')\<rparr>" by (simp_all add: join_listed_def)
    with keys show ?thesis unfolding listed(1) [symmetric] using chosen listed(1) by (simp add: defs Let_def) blast
  next
    case recent
    with recent_target [OF _ at_menu assms(7)] chosen show ?thesis by (fastforce simp: join_recent_def defs Let_def)
  next
    case invited
    with invite_target [OF _ at_menu assms(7)] chosen show ?thesis by (fastforce simp: join_invited_def defs)
  qed
qed

theorem join_settings_reviewed_witness:
  "\<exists>start_state sh' config. open_app demo_app no_preferences no_host_files opening_keys = Some (Some start_state, []) \<and>
     app_next (MenuTurn demo_app (enters 6)) start_state = Some sh' \<and> sh_phase sh' = JoinPhase ''localhost'' 7777 config \<and>
     \<not> trust_on_first_use config"
proof -
  obtain sh0 where sh0: "open_app demo_app no_preferences no_host_files opening_keys = Some (Some sh0, [])" "sh_phase sh0 = AtMenu"
     "sh_host sh0 = ''localhost''" "sh_port sh0 = ''7777''" "sh_join_tls sh0 = ''yes''" "pf_remember (sh_preferences sh0)"
     "pf_options (sh_preferences sh0) = [(''host.certificate'', []), (''host.key'', [])]"
    using demo_open by blast
  from demo_join [OF sh0(2-5,7,6)] obtain sh1 where sh1: "app_next (MenuTurn demo_app (enters 6)) sh0 = Some sh1"
    "sh_phase sh1 = JoinPhase ''localhost'' 7777 (interactive_tls demo_app)" by blast
  have "load_preferences True None = Some no_preferences" by (simp add: load_preferences_def)
  moreover have "app_run [] sh0 = Some sh0" "listings_fit []" "port_zero_fails [] sh0" by (simp_all add: listings_fit_def port_zero_fails_def)
  ultimately show ?thesis using join_settings_reviewed [OF _ sh0(1) _ _ _ sh1] sh0(1) sh1 by blast
qed

text \<open>
  What is hosted has been prepared. If a turn of the menu leads to hosting, the server is given the port, the password and the choice about
  port forwarding that are shown in the form the next time; the TLS settings that have been configured, which use TLS exactly if the form
  says so and then with a certificate and a key that OpenSSL has loaded and found to belong together; and if it is to
  be published, the name of a directory without a port.
\<close>

theorem hosting_prepared:
  assumes "app_next (MenuTurn A ks) sh = Some sh'" "sh_phase sh' = HostPhase plan"
  shows "parse_port (sh_host_port sh') = Some (hp_port plan) \<and> hp_password plan = sh_password sh' \<and> hp_upnp plan = (sh_upnp sh' = ''yes'') \<and>
    hp_tls plan = sh_certificate sh' \<and> tls_enabled (hp_tls plan) = (sh_host_tls sh' = ''yes'') \<and>
    configure_server_context (ap_ssl A) (hp_tls plan) (sh_files sh') = None \<and>
    (\<forall>address pb. hp_publication plan = Some (address, pb) \<longrightarrow> parse_browser_address (pb_host pb) = Some address)"
proof -
  from assms(1) obtain rest where at_menu: "sh_phase sh = AtMenu" and turn: "menu_turn A sh ks = Some (sh', rest)"
    by (auto split: if_splits)
  obtain ks1 where "host_dialog A sh ks1 = Some (sh', rest)" using only_hosting_hosts [OF turn at_menu assms(2)] by blast
  from host_target [OF this at_menu assms(2)] show ?thesis by (auto simp: planned_def)
qed

definition demo_shell :: shell where
  "demo_shell = \<lparr>sh_phase = AtMenu, sh_nickname = ''a'', sh_preferences = no_preferences, sh_saves = [], sh_draft = [], sh_host = ''localhost'',
     sh_port = ''7777'', sh_join_tls = ''yes'', sh_host_port = ''7777'', sh_password = ''secret'', sh_upnp = ''yes'', sh_host_tls = ''no'',
     sh_certificate = \<lparr>tls_enabled = False, certificate_path = [], private_key_path = []\<rparr>, sh_files = no_host_files\<rparr>"

theorem hosting_prepared_witness:
  "\<exists>sh' plan. app_next (MenuTurn demo_app (press KEY_DOWN # enters 6)) demo_shell = Some sh' \<and> sh_phase sh' = HostPhase plan \<and>
     hp_password plan = ''secret'' \<and> \<not> tls_enabled (hp_tls plan)"
proof -
  have port: "parse_port ''7777'' = Some 7777" by (rule demo_port)
  then have "list_all (\<lambda>f. field_error f = []) (host_form demo_shell)"
    by (simp add: demo_shell_def host_form_def field_error_def text_field_def toggle_field_def field_default_def port_error_def)
  moreover have "length (host_form demo_shell) = 5" "host_form demo_shell \<noteq> []" by (simp_all add: host_form_def)
  ultimately have form: "edit_curses_form (host_form demo_shell) (enters 5) = Some (Some (host_form demo_shell), [])"
    using enter_through [of "host_form demo_shell"] by simp
  have "choose_curses_menu main_items (press KEY_DOWN # enters 6) = Some (1, enters 5)"
    using menu_loop_down [of 0 1 main_items "enters 5"] by (simp add: choose_curses_menu_def main_items_def eval_nat_numeral)
  then have turned: "menu_turn demo_app demo_shell (press KEY_DOWN # enters 6) = host_dialog demo_app demo_shell (enters 5)"
    by (simp add: menu_turn_def)
  have submitted: "host_dialog demo_app demo_shell (enters 5) = secure_host demo_app (host_form demo_shell) demo_shell []"
    by (simp add: host_dialog_def form) (simp add: host_form_def demo_shell_def text_field_def field_default_def)
  obtain sh plan where secured: "secure_host demo_app (host_form demo_shell) demo_shell [] = Some (sh, [])" "sh_phase sh = HostPhase plan"
    and left: "sh_password sh = ''secret''" "sh_host_tls sh = ''no''"
  proof -
    have shown: "cf_value (host_form demo_shell ! 0) = ''7777''" "cf_value (host_form demo_shell ! 4) = ''no''"
      "cf_value (host_form demo_shell ! 3) = ''no''"
      by (simp_all add: host_form_def demo_shell_def text_field_def toggle_field_def field_default_def)
    have "\<exists>sh plan. secure_host demo_app (host_form demo_shell) demo_shell [] = Some (sh, []) \<and> sh_phase sh = HostPhase plan \<and>
        sh_password sh = ''secret'' \<and> sh_host_tls sh = ''no''"
      by (simp add: secure_host_def configure_tls_def shown plan_host_def port Let_def save_now_def demo_app_def)
        (simp add: assign_option_def on_preferences_def demo_shell_def)
    then show thesis using that by blast
  qed
  have turn: "app_next (MenuTurn demo_app (press KEY_DOWN # enters 6)) demo_shell = Some sh"
    using turned submitted secured(1) by (simp add: demo_shell_def)
  from hosting_prepared [OF turn secured(2)] turn secured(2) left show ?thesis by auto
qed

text \<open>
  Where the limit on host names matters. Neither the directory's client nor the list of recent servers limits the length of a host name, but loading drops a server whose host name
  is longer than 63 bytes, and then counts the fingerprints without it: the servers after it come back with the wrong ones.
\<close>

lemma long_host_shifts_pins:
  assumes "length h = 64" "no_nul h"
    and p: "p = \<lparr>pf_remember = True, pf_nickname = ''a'', pf_options = [], pf_recent =
      [\<lparr>rs_name = h, rs_host = h, rs_port = 1, rs_tls = True, rs_ca_path = [], rs_fingerprint = []\<rparr>,
       \<lparr>rs_name = ''b'', rs_host = ''b'', rs_port = 1, rs_tls = True, rs_ca_path = [], rs_fingerprint = ''AB''\<rparr>]\<rparr>"
  shows "\<exists>db p'. saved_tables p = Some db \<and> load_preferences True (Some db) = Some p' \<and>
     rs_host (pf_recent p' ! 0) = ''b'' \<and> rs_fingerprint (pf_recent p' ! 0) = []"
proof -
  have names: "recent_ca 0 = ''recent.ca.0''" "recent_pin 0 = ''recent.pin.0''" "recent_ca (Suc 0) = ''recent.ca.1''" "recent_pin (Suc 0) = ''recent.pin.1''"
    by code_simp+
  have options: "saved_options p = [(''recent.ca.0'', []), (''recent.ca.1'', []), (''recent.pin.0'', []), (''recent.pin.1'', ''AB'')]"
    by (simp add: p saved_options_def names)
  have loaded: "List.map_filter load_recent_row (take 10 (sort_key rr_position (recent_rows 0 (pf_recent p)))) =
      [\<lparr>rs_name = ''b'', rs_host = ''b'', rs_port = 1, rs_tls = True, rs_ca_path = [], rs_fingerprint = []\<rparr>]"
    using assms(1,2) by (simp add: p List.map_filter_def Let_def load_recent_row_def row_text_def bound_text_def HOST_MAX_LEN_def column_int_small)
  have ok: "list_all (\<lambda>(n, v). no_nul n \<and> no_nul v) (saved_options p)" "ascending (map fst (saved_options p))"
    by (simp_all add: options)
  have "saved_tables p = Some \<lparr>pt_settings = Some [(1, Some ''a'')], pt_recent = Some (recent_rows 0 (pf_recent p)),
      pt_options = Some (map (\<lambda>(n, v). (Some n, Some v)) (saved_options p))\<rparr>"
    using insert_options_plain [OF ok(1), of "[]"] ok(2) by (simp add: p saved_tables_def bound_text_def keys_distinct del: saved_options_def)
  moreover have "load_trust_options 0 [\<lparr>rs_name = ''b'', rs_host = ''b'', rs_port = 1, rs_tls = True, rs_ca_path = [], rs_fingerprint = []\<rparr>]
      (saved_options p) = ([\<lparr>rs_name = ''b'', rs_host = ''b'', rs_port = 1, rs_tls = True, rs_ca_path = [], rs_fingerprint = []\<rparr>], saved_options p)"
    by (simp add: options names option_ref_def option_or_empty_def map_emplace_def)
  ultimately show ?thesis
    using load_saved_options [OF ok] loaded by (simp add: load_preferences_def column_int_small Let_def no_preferences_def)
qed

end
