(* ===== verification/Host_Session.thy ===== *)
theory Host_Session
  imports App_Menu
begin

text \<open>
  Hosting from the menu (\<open>ui/interactive_app.cpp\<close>, after the host form): opening the server with its storage, registering the host, the summary
  with the invitations, publication, the chat, and what happens to the server, the port mapping and the publisher at each exit. The variables
  \<open>server\<close>, \<open>upnp\<close> and \<open>browser_publisher\<close> of \<open>run_curses_app\<close> are the record \<open>host_vars\<close>, with the servers that have been given up.

  Shown: whatever fails, the server is stopped and nothing is kept; the hosted server is in a reachable state all the time; the summary tells nothing about the password but that there is one.
\<close>

section \<open>The model\<close>

text \<open>
  What opening the storage and importing old files gives, why the server cannot listen, the port it listens on, the port mapping (its last error and
  the external address, or \<open>None\<close> if it was skipped or timed out), an exception of the thread that asked for it, the addresses of this computer, what comes of publication, and an exception that ends
  the chat: its text, the line at that time, and what has become of the server until then.
\<close>

datatype publish_answer = PublishedListing | PublishCancelled | PublishThrew string

record host_world =
  hw_storage :: "string + persisted"
  hw_listen :: "string option"
  hw_port :: u16
  hw_router :: "(string \<times> string) option"
  hw_router_error :: string
  hw_addresses :: "string list"
  hw_publisher :: publish_answer
  hw_chat_throws :: "(string \<times> string \<times> (chat_server \<Rightarrow> chat_server)) option"

record host_vars =
  hv_server :: "chat_server option"
  hv_upnp :: bool
  hv_publisher :: "browser_entry option"
  hv_stopped :: "chat_server list"

definition no_host_vars :: host_vars where
  "no_host_vars = \<lparr>hv_server = None, hv_upnp = False, hv_publisher = None, hv_stopped = []\<rparr>"

datatype host_end = HostingRefused | HostingFailed string | HostingLeft

definition open_host :: "environment \<Rightarrow> host_world \<Rightarrow> string \<Rightarrow> host_plan \<Rightarrow> string + chat_server" where
  "open_host E W nick plan =
     (case hw_storage W of
        Inl e \<Rightarrow> Inl e
      | Inr P \<Rightarrow>
          (case hw_listen W of
             Some e \<Rightarrow> Inl e
           | None \<Rightarrow> Inr (new_chat_server E (hp_password plan) False nick (Some P) SERVER_HISTORY_LIMIT)))"

definition shown_text :: "environment \<Rightarrow> string \<Rightarrow> chat_server \<Rightarrow> chat_server" where
  "shown_text E s = host_step E (Display (PushMessage s))"

definition announce_host :: "environment \<Rightarrow> host_plan \<Rightarrow> u16 \<Rightarrow> string \<Rightarrow> chat_server \<Rightarrow> chat_server" where
  "announce_host E plan port key st =
     (let st = start_local_user st;
          st = shown_text E (''[system] Hosting on port '' @ nat_to_string (unat port)) st;
          st = shown_text E (''[hosting] Listening for chat connections on TCP port '' @ nat_to_string (unat port) @
            (if tls_enabled (hp_tls plan) then '' with TLS encryption'' else '' without TLS encryption'')) st;
          st = shown_text E (''[system] Your identity: '' @ identity_fingerprint key) st
      in if hp_password plan \<noteq> [] then shown_text E ''[system] Server password protection enabled'' st else st)"

text \<open>The address to be told to guests: the one that was entered, or that of the router.\<close>

definition advertised_host :: "host_plan \<Rightarrow> (string \<times> string) option \<Rightarrow> string" where
  "advertised_host plan router =
     (let entered = (case hp_publication plan of None \<Rightarrow> [] | Some (address, pb) \<Rightarrow> pb_public_host pb);
          public = sanitize_browser_field entered HOST_MAX_LEN
      in case router of Some ([], external) \<Rightarrow> if public = [] then external else public | _ \<Rightarrow> public)"

abbreviation nl :: string where
  "nl \<equiv> [CHR 0x0A]"

definition summary_head :: "host_plan \<Rightarrow> u16 \<Rightarrow> string \<Rightarrow> (string \<times> string) option \<Rightarrow> string" where
  "summary_head plan port fingerprint router =
     ''Listening on TCP port '' @ nat_to_string (unat port) @
     (if tls_enabled (hp_tls plan) then '' with TLS.'' @ nl else '' '' @ [CHR 0xE2, CHR 0x80, CHR 0x94] @ '' INSECURE plaintext.'' @ nl) @
     (if hp_password plan = [] then ''No server password.'' @ nl else ''Password required (share separately).'' @ nl) @
     ''TLS protects transport, not end-to-end messages.'' @ nl @
     (if tls_enabled (hp_tls plan) then ''SHA-256: '' @ fingerprint @ nl else []) @
     (case router of
        Some ([], external) \<Rightarrow> ''Router TCP mapping requested successfully; internet reachability is NOT verified.'' @ nl
      | _ \<Rightarrow> ''UPnP unavailable, failed, skipped, or timed out. '' @ (case router of None \<Rightarrow> [] | Some (e, external) \<Rightarrow> e) @ nl) @
     ''For LAN guests, use this computer's LAN address. For internet guests, use a public address and forward TCP port '' @
     nat_to_string (unat port) @ '' to this computer. Check your firewall too.'' @ nl"

text \<open>The lines for the addresses in turn; an address that no invitation can carry is an exception.\<close>

fun add_invites :: "(string \<Rightarrow> invite) \<Rightarrow> (string \<times> string) list \<Rightarrow> string + string" where
  "add_invites offer [] = Inr []"
| "add_invites offer ((address, scope) # rest) =
     (case make_invite (offer address) of
        Inl e \<Rightarrow> Inl e
      | Inr s \<Rightarrow>
          map_sum id (\<lambda>t. scope @ '': '' @ address @ '':'' @ nat_to_string (unat (invite_port (offer address))) @ nl @ s @ nl @ t) (add_invites offer rest))"

definition hosting_summary :: "host_plan \<Rightarrow> u16 \<Rightarrow> string \<Rightarrow> (string \<times> string) option \<Rightarrow> string list \<Rightarrow> string + string" where
  "hosting_summary plan port fingerprint router local =
     map_sum id (\<lambda>invites. summary_head plan port fingerprint router @ invites @
         ''Invites contain connection details and a public fingerprint, never passwords or private keys. Share through a trusted channel. F3 reopens this summary.'')
       (add_invites (invite_for port (tls_enabled (hp_tls plan)) (hp_password plan) fingerprint)
         (hosting_addresses local (advertised_host plan router)))"

text \<open>The server is stopped and given up.\<close>

definition give_up_server :: "host_vars \<Rightarrow> host_vars" where
  "give_up_server v = v\<lparr>hv_server := None, hv_stopped := hv_stopped v @ (case hv_server v of None \<Rightarrow> [] | Some st \<Rightarrow> [stop st])\<rparr>"

definition give_up_helpers :: "host_vars \<Rightarrow> host_vars" where
  "give_up_helpers v = v\<lparr>hv_publisher := None, hv_upnp := False\<rparr>"

type_synonym host_result = "(host_end \<times> string \<times> host_vars) option"

definition fail_hosting :: "string \<Rightarrow> string \<Rightarrow> host_vars \<Rightarrow> keystroke list \<Rightarrow> host_result" where
  "fail_hosting e draft v ks = do {
     ks \<leftarrow> show_curses_notice ks;
     Some (HostingFailed e, draft, give_up_helpers (give_up_server v))}"

text \<open>
  The chat. An exception stops the server before it is passed on to the handler of all failures, which stops the server again.
\<close>

definition chat_as_host :: "environment \<Rightarrow> term_env \<Rightarrow> host_world \<Rightarrow> string \<Rightarrow> string \<Rightarrow> string \<Rightarrow> host_vars \<Rightarrow> keystroke list \<Rightarrow>
    turn list \<Rightarrow> host_result" where
  "chat_as_host E T W nick details draft v ks turns =
     (case hv_server v of
        None \<Rightarrow> None
      | Some st \<Rightarrow>
          (case hw_chat_throws W of
             Some (e, line, meanwhile) \<Rightarrow>
               let st = stop (meanwhile st)
               in fail_hosting e line (v\<lparr>hv_server := Some st, hv_stopped := hv_stopped v @ [st]\<rparr>) ks
           | None \<Rightarrow> do {
               (ending, draft, peer, rest) \<leftarrow> run_curses_chat_loop E T \<lparr>cc_nickname = nick, cc_host_commands = True, cc_details = details\<rparr>
                 draft (Hosting st) turns;
               Some (HostingLeft, draft, give_up_server (give_up_helpers
                 (case peer of Hosting st \<Rightarrow> v\<lparr>hv_server := Some st\<rparr> | Joined c \<Rightarrow> v)))}))"

text \<open>What publication leaves: the publisher and a message, or an exception.\<close>

definition publish_host_entry :: "environment \<Rightarrow> host_world \<Rightarrow> string \<Rightarrow> host_plan \<Rightarrow> string \<Rightarrow> chat_server \<Rightarrow> host_vars \<Rightarrow> string + host_vars" where
  "publish_host_entry E W nick plan public st v =
     (case hp_publication plan of
        None \<Rightarrow> Inr v
      | Some (address, pb) \<Rightarrow>
          let entry = hosted_entry nick (pb_name pb) public (hw_port W) (hp_password plan) (tls_enabled (hp_tls plan)) in
          (case hw_publisher W of
             PublishThrew e \<Rightarrow> Inl e
           | PublishedListing \<Rightarrow>
               Inr (v\<lparr>hv_publisher := Some entry, hv_server := Some (shown_text E (''[hosting] Published directory listing for '' @ be_host entry) st)\<rparr>)
           | PublishCancelled \<Rightarrow>
               Inr (v\<lparr>hv_publisher := None, hv_server := Some (shown_text E ''[hosting] Directory publication cancelled or timed out.'' st)\<rparr>)))"

definition run_host :: "environment \<Rightarrow> term_env \<Rightarrow> openssl \<Rightarrow> host_world \<Rightarrow> string \<Rightarrow> string \<Rightarrow> host_files \<Rightarrow> host_plan \<Rightarrow> string \<Rightarrow>
    chat_server \<Rightarrow> keystroke list \<Rightarrow> turn list \<Rightarrow> host_result" where
  "run_host E T S W nick key fs plan draft st ks turns =
     (let port = hw_port W;
          st = announce_host E plan port key st;
          fingerprint = (if tls_enabled (hp_tls plan) then certificate_sha256_fingerprint S (certificate_path (hp_tls plan)) fs else []);
          router = (if hp_upnp plan then hw_router W else None);
          st = (if hp_upnp plan \<and> hw_router_error W \<noteq> [] then shown_text E (''[hosting] '' @ hw_router_error W) st else st);
          v = no_host_vars\<lparr>hv_server := Some st, hv_upnp := (router \<noteq> None)\<rparr>
      in case hosting_summary plan port fingerprint router (hw_addresses W) of
           Inl e \<Rightarrow> fail_hosting e draft v ks
         | Inr details \<Rightarrow> do {
             ks \<leftarrow> show_curses_notice ks;
             case publish_host_entry E W nick plan (advertised_host plan router) st v of
               Inl e \<Rightarrow> fail_hosting e draft v ks
             | Inr v \<Rightarrow> chat_as_host E T W nick details draft v ks turns})"

definition host_session :: "environment \<Rightarrow> term_env \<Rightarrow> openssl \<Rightarrow> host_world \<Rightarrow> string \<Rightarrow> string \<Rightarrow> host_files \<Rightarrow> host_plan \<Rightarrow> string \<Rightarrow>
    keystroke list \<Rightarrow> turn list \<Rightarrow> host_result" where
  "host_session E T S W nick key fs plan draft ks turns =
     (case open_host E W nick plan of
        Inl e \<Rightarrow> fail_hosting e draft no_host_vars ks
      | Inr st \<Rightarrow>
          let (registered, st) = register_local_identity nick key st in
          if \<not> registered
          then do {ks \<leftarrow> show_curses_notice ks; Some (HostingRefused, draft, give_up_server (no_host_vars\<lparr>hv_server := Some st\<rparr>))}
          else run_host E T S W nick key fs plan draft st ks turns)"

section \<open>The hosted server\<close>

lemma shown_text_hosted: "hosted E nick (Hosting st) \<Longrightarrow> hosted E nick (Hosting (shown_text E s st))"
  using hosted_step [of E st nick "Display (PushMessage s)"] by (simp add: hosted_def shown_text_def)

lemma announce_hosted:
  assumes "hosted E nick (Hosting st)"
  shows "hosted E nick (Hosting (announce_host E plan port key st))"
proof -
  have "hosted E nick (Hosting (start_local_user st))"
    using hosted_step [of E st nick StartLocalUser] assms by (simp add: hosted_def)
  then show ?thesis by (simp add: announce_host_def Let_def shown_text_hosted)
qed

lemma registered_hosted:
  assumes "reachable E st" "register_local_identity nick key st = (ok, st')"
  shows "reachable E st'" "local_nickname st' = local_nickname st"
proof -
  from reachable.step [OF assms(1), of "Host (RegisterLocal nick key)"] assms(2) show "reachable E st'" by simp
  from assms(2) show "local_nickname st' = local_nickname st"
    by (auto simp: register_local_identity_def bind_identity_def Let_def save_identities_def split: if_splits option.splits)
qed

lemma new_local_nickname [simp]: "local_nickname (new_chat_server E pw log nick storage limit) = nick"
proof -
  have "local_nickname (fold (load_room P) l st) = local_nickname st" for P l st
    by (induction l arbitrary: st) (simp_all add: load_room_def Let_def)
  then show ?thesis by (simp add: new_chat_server_def load_persistent_state_def persist_room_def Let_def split: option.split)
qed

lemma stopped_reachable: "reachable E st \<Longrightarrow> reachable E (stop st) \<and> \<not> acceptor_open (stop st) \<and> sessions (stop st) = []"
  using reachable.step [of E st "Host StopServer"] by (simp add: stop_def Let_def)

text \<open>The variables while the server is open, and when everything has been given up.\<close>

definition vars_open :: "environment \<Rightarrow> string \<Rightarrow> host_vars \<Rightarrow> bool" where
  "vars_open E nick v \<longleftrightarrow> (\<exists>st. hv_server v = Some st \<and> hosted E nick (Hosting st)) \<and> hv_stopped v = []"

text \<open>A server that has been stopped, and what stopping it again does: its storage is flushed once more.\<close>

definition at_rest :: "environment \<Rightarrow> chat_server \<Rightarrow> bool" where
  "at_rest E st \<longleftrightarrow> reachable E st \<and> \<not> acceptor_open st \<and> sessions st = []"

definition flushed :: "chat_server \<Rightarrow> chat_server" where
  "flushed st = (if has_storage st then effects_update (store Flush) st else st)"

lemma stop_again: "stop (stop st) = flushed (stop st)"
  by (simp add: stop_def flushed_def Let_def case_prod_unfold comp_def)

definition given_up :: "environment \<Rightarrow> nat \<Rightarrow> host_vars \<Rightarrow> bool" where
  "given_up E n v \<longleftrightarrow> hv_server v = None \<and> \<not> hv_upnp v \<and> hv_publisher v = None \<and>
     (if n = 0 then hv_stopped v = [] else \<exists>st. at_rest E st \<and> hv_stopped v = (if n = 1 then [st] else [st, flushed st]))"

lemma give_up_open: "vars_open E nick v \<Longrightarrow> given_up E 1 (give_up_helpers (give_up_server v))" "vars_open E nick v \<Longrightarrow> given_up E 1 (give_up_server (give_up_helpers v))"
  using stopped_reachable by (auto simp: vars_open_def given_up_def give_up_helpers_def give_up_server_def hosted_def at_rest_def)

lemma fail_hosting_ok:
  assumes "fail_hosting e draft v ks = Some (ending, draft', v')" "if n = 0 then v = no_host_vars else vars_open E nick v \<and> n = 1"
  shows "given_up E n v' \<and> ending = HostingFailed e \<and> draft' = draft"
  using assms give_up_open(1) [of E nick v]
  by (auto simp: fail_hosting_def split: Option.bind_splits if_splits)
    (simp add: given_up_def give_up_helpers_def give_up_server_def no_host_vars_def)

lemma publish_open:
  assumes "publish_host_entry E W nick plan public st v = Inr v'" "vars_open E nick v" "hosted E nick (Hosting st)"
  shows "vars_open E nick v'"
  using assms shown_text_hosted
  by (auto simp: publish_host_entry_def vars_open_def Let_def split: option.splits publish_answer.splits)

text \<open>An exception of the chat leaves the server where steps of the server lead.\<close>

definition throws_ok :: "environment \<Rightarrow> string \<Rightarrow> host_world \<Rightarrow> bool" where
  "throws_ok E nick W \<longleftrightarrow> (\<forall>e line meanwhile. hw_chat_throws W = Some (e, line, meanwhile) \<longrightarrow> length line \<le> MAX_CHAT_MESSAGE_LEN \<and>
     (\<forall>st. hosted E nick (Hosting st) \<longrightarrow> hosted E nick (Hosting (meanwhile st))))"

lemma chat_left_ok:
  assumes "chat_as_host E T W nick details draft v ks turns = Some (ending, draft', v')" "vars_open E nick v" "length draft \<le> MAX_CHAT_MESSAGE_LEN"
    and "\<forall>t \<in> set turns. \<forall>p. hosted E nick p \<longrightarrow> hosted E nick (tn_others t p)" "hw_chat_throws W = None"
  shows "given_up E 1 v' \<and> length draft' \<le> MAX_CHAT_MESSAGE_LEN"
proof -
  let ?ctx = "\<lparr>cc_nickname = nick, cc_host_commands = True, cc_details = details\<rparr>"
  from assms(2) obtain st where st: "hv_server v = Some st" "reachable E st" "local_nickname st = nick"
    by (auto simp: vars_open_def hosted_def)
  from assms(1,5) st(1) obtain exit peer rest where loop: "run_curses_chat_loop E T ?ctx draft (Hosting st) turns = Some (exit, draft', peer, rest)"
    and v': "v' = give_up_server (give_up_helpers (case peer of Hosting st \<Rightarrow> v\<lparr>hv_server := Some st\<rparr> | Joined c \<Rightarrow> v))"
    by (auto simp: chat_as_host_def split: Option.bind_splits)
  from host_screen_safe [of E st ?ctx draft turns, OF st(2) _ assms(3) _ loop] st(3) assms(4)
  obtain st' where st': "peer = Hosting st'" "reachable E st'" "local_nickname st' = nick" "length draft' \<le> MAX_CHAT_MESSAGE_LEN" by auto
  then have "vars_open E nick (v\<lparr>hv_server := Some st'\<rparr>)" using assms(2) by (simp add: vars_open_def hosted_def)
  from give_up_open(2) [OF this] v' st' show ?thesis by simp
qed

lemma chat_as_host_ok:
  assumes "chat_as_host E T W nick details draft v ks turns = Some (ending, draft', v')" "vars_open E nick v" "length draft \<le> MAX_CHAT_MESSAGE_LEN"
    and "\<forall>t \<in> set turns. \<forall>p. hosted E nick p \<longrightarrow> hosted E nick (tn_others t p)" "throws_ok E nick W"
  shows "(given_up E 1 v' \<or> hw_chat_throws W \<noteq> None \<and> given_up E 2 v') \<and> length draft' \<le> MAX_CHAT_MESSAGE_LEN"
proof (cases "hw_chat_throws W")
  case None
  from chat_left_ok [OF assms(1-4) None] show ?thesis by blast
next
  case (Some thrown)
  then obtain e line meanwhile where thrown: "hw_chat_throws W = Some (e, line, meanwhile)" by (cases thrown) auto
  from assms(2) obtain st where st: "hv_server v = Some st" "hosted E nick (Hosting st)" "hv_stopped v = []" by (auto simp: vars_open_def)
  with assms(5) thrown have "reachable E (meanwhile st)" "length line \<le> MAX_CHAT_MESSAGE_LEN"
    by (auto simp: throws_ok_def hosted_def)
  from stopped_reachable [OF this(1)] have "at_rest E (stop (meanwhile st))" by (simp add: at_rest_def)
  with assms(1) st(1,3) thrown \<open>length line \<le> _\<close> show ?thesis
    by (auto simp: chat_as_host_def fail_hosting_def Let_def given_up_def give_up_helpers_def give_up_server_def stop_again split: Option.bind_splits)
qed

lemma run_host_ok:
  assumes "run_host E T S W nick key fs plan draft st ks turns = Some (ending, draft', v)" "hosted E nick (Hosting st)"
    and "length draft \<le> MAX_CHAT_MESSAGE_LEN" "\<forall>t \<in> set turns. \<forall>p. hosted E nick p \<longrightarrow> hosted E nick (tn_others t p)" "throws_ok E nick W"
  shows "(given_up E 1 v \<or> hw_chat_throws W \<noteq> None \<and> given_up E 2 v) \<and> length draft' \<le> MAX_CHAT_MESSAGE_LEN"
proof -
  define router where "router = (if hp_upnp plan then hw_router W else None)"
  define st1 where "st1 = (if hp_upnp plan \<and> hw_router_error W \<noteq> [] then shown_text E (''[hosting] '' @ hw_router_error W)
      (announce_host E plan (hw_port W) key st) else announce_host E plan (hw_port W) key st)"
  let ?v = "no_host_vars\<lparr>hv_server := Some st1, hv_upnp := (router \<noteq> None)\<rparr>"
  have st1: "hosted E nick (Hosting st1)" using announce_hosted [OF assms(2)] by (simp add: st1_def shown_text_hosted)
  then have v: "vars_open E nick ?v" by (simp add: vars_open_def no_host_vars_def)
  let ?summary = "hosting_summary plan (hw_port W) (if tls_enabled (hp_tls plan) then certificate_sha256_fingerprint S (certificate_path (hp_tls plan)) fs else [])
      router (hw_addresses W)"
  from assms(1) have run: "(case ?summary of
           Inl e \<Rightarrow> fail_hosting e draft ?v ks
         | Inr details \<Rightarrow> do {
             ks \<leftarrow> show_curses_notice ks;
             case publish_host_entry E W nick plan (advertised_host plan router) st1 ?v of
               Inl e \<Rightarrow> fail_hosting e draft ?v ks
             | Inr v \<Rightarrow> chat_as_host E T W nick details draft v ks turns}) = Some (ending, draft', v)"
    unfolding run_host_def Let_def router_def [symmetric] st1_def [symmetric] .
  consider (failed) e ks' where "fail_hosting e draft ?v ks' = Some (ending, draft', v)"
    | (chat) details v1 ks' where "publish_host_entry E W nick plan (advertised_host plan router) st1 ?v = Inr v1"
        "chat_as_host E T W nick details draft v1 ks' turns = Some (ending, draft', v)"
    using run by (auto split: sum.splits Option.bind_splits)
  then show ?thesis
  proof cases
    case failed
    from fail_hosting_ok [OF this, of 1 E nick] v assms(3) show ?thesis by simp
  next
    case chat
    from chat_as_host_ok [OF chat(2) publish_open [OF chat(1) v st1] assms(3-5)] show ?thesis by blast
  qed
qed

section \<open>What hosts can rely on\<close>

text \<open>
  C32: Hosting leaves nothing behind. Whatever fails on the way (the storage, the port, the host's nickname, an address for the
  invitations, the publication), and however the chat goes, an exception included: when hosting has ended, no server, no port mapping and no
  publisher is kept; a server that was opened has been stopped: it has passed through reachable states only, accepts no
  connections and has no sessions; it has been stopped once, or twice after an exception in the chat, and then the second time has only flushed the storage again;
  and the draft that is kept is within the limit of a message. What other threads do to the server while the host chats, and what the chat has
  done to it before an exception, are steps of the server.
\<close>

theorem hosting_leaves_nothing:
  assumes "\<forall>P. hw_storage W = Inr P \<longrightarrow> wf_persisted P" "length draft \<le> MAX_CHAT_MESSAGE_LEN"
    and "\<forall>t \<in> set turns. \<forall>p. hosted E nick p \<longrightarrow> hosted E nick (tn_others t p)"
    and "throws_ok E nick W" "host_session E T S W nick key fs plan draft ks turns = Some (ending, draft', v)"
  shows "hv_server v = None \<and> \<not> hv_upnp v \<and> hv_publisher v = None \<and> length draft' \<le> MAX_CHAT_MESSAGE_LEN \<and>
    (if (\<exists>e. hw_storage W = Inl e) \<or> hw_listen W \<noteq> None then hv_stopped v = []
     else \<exists>st. reachable E st \<and> \<not> acceptor_open st \<and> sessions st = [] \<and>
       (hv_stopped v = [st] \<or> hw_chat_throws W \<noteq> None \<and> hv_stopped v = [st, if has_storage st then effects_update (store Flush) st else st]))"
proof (cases "open_host E W nick plan")
  case (Inl e)
  then have closed: "(\<exists>e. hw_storage W = Inl e) \<or> hw_listen W \<noteq> None" by (auto simp: open_host_def split: sum.splits option.splits)
  from Inl assms(5) have "fail_hosting e draft no_host_vars ks = Some (ending, draft', v)" by (simp add: host_session_def)
  from fail_hosting_ok [OF this, of 0 E nick] closed assms(2) show ?thesis by (auto simp: given_up_def)
next
  case (Inr st)
  then obtain P where P: "hw_storage W = Inr P" "hw_listen W = None"
    and st: "st = new_chat_server E (hp_password plan) False nick (Some P) SERVER_HISTORY_LIMIT"
    by (auto simp: open_host_def split: sum.splits option.splits)
  have "reachable E st" unfolding st using assms(1) P(1) by (intro reachable.stored) simp
  obtain registered st1 where register: "register_local_identity nick key st = (registered, st1)" by fastforce
  note ok = registered_hosted [OF \<open>reachable E st\<close> register]
  then have hosted: "hosted E nick (Hosting st1)" by (simp add: hosted_def st)
  have "(given_up E 1 v \<or> hw_chat_throws W \<noteq> None \<and> given_up E 2 v) \<and> length draft' \<le> MAX_CHAT_MESSAGE_LEN"
  proof (cases registered)
    case True
    with assms(5) Inr register have "run_host E T S W nick key fs plan draft st1 ks turns = Some (ending, draft', v)"
      by (simp add: host_session_def)
    from run_host_ok [OF this hosted assms(2-4)] show ?thesis .
  next
    case False
    with assms(5) Inr register have "v = give_up_server (no_host_vars\<lparr>hv_server := Some st1\<rparr>)" "draft' = draft"
      by (auto simp: host_session_def split: Option.bind_splits)
    with assms(2) stopped_reachable [OF ok(1)] show ?thesis by (simp add: given_up_def give_up_server_def no_host_vars_def at_rest_def)
  qed
  with P show ?thesis by (auto simp: given_up_def at_rest_def flushed_def split: if_splits)
qed

lemma map_sum_Inr: "map_sum f g x = Inr y \<longleftrightarrow> (\<exists>z. x = Inr z \<and> y = g z)"
  by (cases x) auto

lemma add_invites_contains:
  "add_invites offer l = Inr t \<Longrightarrow> (address, scope) \<in> set l \<Longrightarrow> \<exists>s. make_invite (offer address) = Inr s \<and> sublist s t"
proof (induction offer l arbitrary: t rule: add_invites.induct)
  case (2 offer a sc rest)
  then obtain s u where made: "make_invite (offer a) = Inr s" "add_invites offer rest = Inr u"
    and t: "t = (sc @ '': '' @ a @ '':'' @ nat_to_string (unat (invite_port (offer a))) @ nl) @ s @ (nl @ u)"
    by (auto simp: map_sum_Inr split: sum.splits)
  have "sublist s t" unfolding t by (rule sublist_appendI)
  moreover have "sublist u t"
    unfolding t using suffixI [of _ "(sc @ '': '' @ a @ '':'' @ nat_to_string (unat (invite_port (offer a))) @ nl) @ s @ nl" u]
    by (intro suffix_imp_sublist) simp
  ultimately have "sublist s t" "sublist u t" .
  note inside = this
  show ?case
  proof (cases "(address, scope) = (a, sc)")
    case True
    with made(1) inside(1) show ?thesis by blast
  next
    case False
    with "2.prems"(2) have "(address, scope) \<in> set rest" by auto
    from "2.IH" [OF made this] inside(2) show ?thesis using sublist_order.order.trans by blast
  qed
qed simp

text \<open>
  C33: The summary for guests is complete and gives no password away. If a host is shown a summary, it contains for this computer, every local address
  and the public one an invitation that parses to the address, the port and the TLS settings of the server with the fingerprint of its
  certificate; and the text is the same for every password, except that it says whether there is one.
\<close>

theorem hosting_summary_public:
  assumes "hosting_summary plan port fingerprint router local = Inr details"
  shows "(\<forall>pw. (pw = []) = (hp_password plan = []) \<longrightarrow> hosting_summary (plan\<lparr>hp_password := pw\<rparr>) port fingerprint router local = Inr details) \<and>
    (\<forall>address scope. (address, scope) \<in> set (hosting_addresses local (advertised_host plan router)) \<longrightarrow>
      (\<exists>s i. sublist s details \<and> parse_invite s = Inr i \<and> invite_host i = address \<and> invite_port i = port \<and>
         invite_tls i = tls_enabled (hp_tls plan) \<and> invite_password_required i = (hp_password plan \<noteq> []) \<and>
         invite_fingerprint i = (if tls_enabled (hp_tls plan) then normalize_fingerprint fingerprint else [])))"
proof (intro conjI allI impI)
  fix pw :: string
  assume "(pw = []) = (hp_password plan = [])"
  then have "invite_for port tls pw f = invite_for port tls (hp_password plan) f" "summary_head (plan\<lparr>hp_password := pw\<rparr>) = summary_head plan"
    "advertised_host (plan\<lparr>hp_password := pw\<rparr>) = advertised_host plan" for tls f
    by (auto simp: invite_for_def summary_head_def advertised_host_def fun_eq_iff)
  with assms show "hosting_summary (plan\<lparr>hp_password := pw\<rparr>) port fingerprint router local = Inr details"
    by (simp add: hosting_summary_def)
next
  fix address scope
  assume "(address, scope) \<in> set (hosting_addresses local (advertised_host plan router))"
  moreover from assms obtain t where t: "add_invites (invite_for port (tls_enabled (hp_tls plan)) (hp_password plan) fingerprint)
      (hosting_addresses local (advertised_host plan router)) = Inr t" "sublist t details"
    by (auto simp: hosting_summary_def map_sum_Inr)
  ultimately obtain s where s: "make_invite (invite_for port (tls_enabled (hp_tls plan)) (hp_password plan) fingerprint address) = Inr s" "sublist s details"
    using add_invites_contains sublist_order.order.trans by blast
  from hosting_invites_parse [OF s(1)] s(2)
  show "\<exists>s i. sublist s details \<and> parse_invite s = Inr i \<and> invite_host i = address \<and> invite_port i = port \<and>
         invite_tls i = tls_enabled (hp_tls plan) \<and> invite_password_required i = (hp_password plan \<noteq> []) \<and>
         invite_fingerprint i = (if tls_enabled (hp_tls plan) then normalize_fingerprint fingerprint else [])"
    by blast
qed

definition demo_plan :: host_plan where
  "demo_plan = \<lparr>hp_port = 7777, hp_password = ''secret'', hp_upnp = False,
     hp_tls = \<lparr>tls_enabled = False, certificate_path = [], private_key_path = []\<rparr>, hp_publication = None\<rparr>"

lemma demo_addresses: "hosting_addresses [] (advertised_host demo_plan None) = [(''localhost'', ''This computer only'')]"
  by (simp add: hosting_addresses_def advertised_host_def demo_plan_def sanitize_browser_field_def)

lemma demo_summary: "\<exists>details. hosting_summary demo_plan 7777 [] None [] = Inr details"
proof -
  have "validate (invite_for 7777 False ''secret'' [] ''localhost'') = None"
    by (simp add: validate_def invite_for_def HOST_MAX_LEN_def host_char_def ctype_defs byte_def)
  then show ?thesis by (simp add: hosting_summary_def demo_addresses make_invite_def) (simp add: demo_plan_def)
qed

theorem hosting_summary_public_witness:
  "\<exists>details s i. hosting_summary demo_plan 7777 [] None [] = Inr details \<and> sublist s details \<and> parse_invite s = Inr i \<and>
     invite_host i = ''localhost'' \<and> hosting_summary (demo_plan\<lparr>hp_password := ''other''\<rparr>) 7777 [] None [] = Inr details"
proof -
  obtain details where details: "hosting_summary demo_plan 7777 [] None [] = Inr details" using demo_summary by blast
  from hosting_summary_public [OF this] details demo_addresses show ?thesis by (simp add: demo_plan_def) blast
qed

definition demo_world :: host_world where
  "demo_world = \<lparr>hw_storage = Inr \<lparr>load_rooms = [\<lparr>sr_id = DEFAULT_ROOM_ID, sr_name = ''lobby'', sr_topic = [], sr_owner = [], sr_created_at = 0\<rparr>],
       load_history = \<lambda>_ _. [], load_stored_identities = [], load_stored_bans = []\<rparr>,
     hw_listen = None, hw_port = 7777, hw_router = None, hw_router_error = [], hw_addresses = [], hw_publisher = PublishCancelled,
     hw_chat_throws = None\<rparr>"

lemma demo_world_wf: "hw_storage demo_world = Inr P \<Longrightarrow> wf_persisted P"
  by (auto simp: demo_world_def wf_persisted_def is_valid_room_name_def is_valid_room_topic_def DEFAULT_ROOM_ID_def protocol_limits ctype_defs byte_def)

lemma demo_host_session:
  "\<exists>v. host_session demo_env ascii_env demo_openssl demo_world ''ann'' ann_key no_host_files demo_plan ''hi'' [press KEY_ENTER]
     [demo_turn (Byte CHR 0x1B), demo_turn KEY_ENTER] = Some (HostingLeft, ''hi'', v)"
proof -
  obtain P where P: "hw_storage demo_world = Inr P" "load_stored_identities P = []" by (simp add: demo_world_def)
  define st where "st = new_chat_server demo_env ''secret'' False ''ann'' (Some P) SERVER_HISTORY_LIMIT"
  have opened: "open_host demo_env demo_world ''ann'' demo_plan = Inr st"
    using P(1) by (simp add: open_host_def demo_plan_def st_def demo_world_def)
  have "identities st = []" using started_view(3) [OF demo_world_wf [OF P(1)]] P(2) by (simp add: st_def)
  then have "fst (register_local_identity ''ann'' ann_key st)"
    by (simp add: register_local_identity_def identity_available_for_def utils_is_valid_nickname_eq ann_valid ann_key_valid bind_identity_def Let_def)
  then obtain st1 where registered: "register_local_identity ''ann'' ann_key st = (True, st1)" by (metis prod.collapse)
  obtain details where details: "hosting_summary demo_plan 7777 [] None [] = Inr details" using demo_summary by blast
  let ?ctx = "\<lparr>cc_nickname = ''ann'', cc_host_commands = True, cc_details = details\<rparr>"
  have chat: "run_curses_chat_loop demo_env ascii_env ?ctx ''hi'' (Hosting st2)
       [demo_turn (Byte CHR 0x1B), demo_turn KEY_ENTER] = Some (ChatLeft, ''hi'', Hosting st2, [])" for st2
    by (simp add: run_curses_chat_loop_def demo_turn_def render_chat_def too_small_def connection_ended_def
        chat_key_def press_def is_byte_def is_enter_def byte_def Let_def ed_set_def)
  have notice: "show_curses_notice [press KEY_ENTER] = Some []" by (simp add: press_def is_byte_def is_enter_def)
  have "hp_upnp demo_plan = False" "tls_enabled (hp_tls demo_plan) = False" "hp_publication demo_plan = None" "hw_port demo_world = 7777"
    "hw_addresses demo_world = []" by (simp_all add: demo_plan_def demo_world_def)
  moreover have "hw_chat_throws demo_world = None" by (simp add: demo_world_def)
  ultimately show ?thesis using details chat notice
    by (simp add: host_session_def opened registered run_host_def publish_host_entry_def chat_as_host_def no_host_vars_def Let_def)
qed

theorem hosting_leaves_nothing_witness:
  "\<exists>v st. host_session demo_env ascii_env demo_openssl demo_world ''ann'' ann_key no_host_files demo_plan ''hi'' [press KEY_ENTER]
     [demo_turn (Byte CHR 0x1B), demo_turn KEY_ENTER] = Some (HostingLeft, ''hi'', v) \<and> hv_stopped v = [st] \<and> \<not> acceptor_open st"
proof -
  obtain v where v: "host_session demo_env ascii_env demo_openssl demo_world ''ann'' ann_key no_host_files demo_plan ''hi'' [press KEY_ENTER]
     [demo_turn (Byte CHR 0x1B), demo_turn KEY_ENTER] = Some (HostingLeft, ''hi'', v)"
    using demo_host_session by blast
  have "length ''hi'' \<le> MAX_CHAT_MESSAGE_LEN" by (simp add: MAX_CHAT_MESSAGE_LEN_def protocol_limits)
  moreover have "\<not> ((\<exists>e. hw_storage demo_world = Inl e) \<or> hw_listen demo_world \<noteq> None)" by (simp add: demo_world_def)
  moreover have "throws_ok demo_env ''ann'' demo_world" "hw_chat_throws demo_world = None" by (simp_all add: throws_ok_def demo_world_def)
  ultimately show ?thesis using hosting_leaves_nothing [OF _ _ _ _ v] demo_world_wf v by (auto simp: demo_turn_def)
qed

end
