(* ===== verification/Upnp_Mapper.thy ===== *)
theory Upnp_Mapper
  imports Server_Browser
begin

text \<open>
  \<open>network/upnp_mapper.h\<close>: port mappings at a router. Objects of the class share a table that says which opening of a port is the latest, because
  an object is destroyed in a thread of its own, possibly long after another one has opened the same port. The functions of
  miniupnpc are arguments: what they return, and which deletions the router refuses. Opening and destroying hold
  a mutex and are atomic.

  Shown: however the objects are created, used and destroyed, a late destruction never removes a mapping that
  another object has opened since, and when all objects are gone the router keeps nothing but what it refused to delete.
\<close>

section \<open>The class\<close>

record mapping =
  mp_port :: string
  mp_proto :: string
  mp_owner :: u64

record mapper =
  mm_url :: string
  mm_local :: string
  mm_external :: string
  mm_error :: string
  mm_discovered :: bool
  mm_mappings :: "mapping list"

definition new_mapper :: mapper where
  "new_mapper = \<lparr>mm_url = [], mm_local = [], mm_external = [], mm_error = [], mm_discovered = False, mm_mappings = []\<rparr>"

text \<open>\<open>upnpDiscover\<close>: no device and an error code; otherwise the status of \<open>UPNP_GetValidIGD\<close>, the control URL, the local address, and the external one if it is known.\<close>

datatype discovery = NoDevices int | Devices int string string "string option"

definition discover :: "discovery \<Rightarrow> mapper \<Rightarrow> bool \<times> mapper" where
  "discover d mm =
     (case d of
        NoDevices e \<Rightarrow> (False, mm\<lparr>mm_error := ''No UPnP devices found (err '' @ int_to_string e @ '')''\<rparr>)
      | Devices status url lan external \<Rightarrow>
          if status \<noteq> 1 then (False, mm\<lparr>mm_error := ''No valid IGD found (status '' @ int_to_string status @ '')''\<rparr>)
          else (True, mm\<lparr>mm_url := url, mm_local := lan, mm_discovered := True,
                  mm_external := (case external of None \<Rightarrow> mm_external mm | Some ip \<Rightarrow> ip)\<rparr>))"

definition mapping_key :: "string \<Rightarrow> string \<Rightarrow> string \<Rightarrow> string" where
  "mapping_key url port proto = url @ ''|'' @ port @ ''|'' @ proto"

text \<open>
  The static members, the objects, and what is at the routers: for a control URL, port and protocol. \<open>uw_refused\<close> are deletions that a router has refused.
\<close>

record upnp_world =
  uw_owners :: "(string \<times> u64) list"
  uw_next :: u64
  uw_mappers :: "nat \<Rightarrow> mapper option"
  uw_router :: "(string \<times> string \<times> string) set"
  uw_refused :: "(string \<times> string \<times> string) set"

definition new_world :: upnp_world where
  "new_world = \<lparr>uw_owners = [], uw_next = 0, uw_mappers = (\<lambda>i. None), uw_router = {}, uw_refused = {}\<rparr>"

text \<open>\<open>code\<close> is what \<open>UPNP_AddPortMapping\<close> returns.\<close>

definition openPort :: "int \<Rightarrow> string \<Rightarrow> string \<Rightarrow> nat \<Rightarrow> mapper \<Rightarrow> upnp_world \<Rightarrow> bool \<times> upnp_world" where
  "openPort code port proto i mm w =
     (if \<not> mm_discovered mm then (False, w)
      else if code \<noteq> 0
      then (False, w\<lparr>uw_mappers := (uw_mappers w)(i \<mapsto> mm\<lparr>mm_error := ''AddPortMapping failed: code '' @ int_to_string code\<rparr>)\<rparr>)
      else let owner = uw_next w + 1 in
        (True, w\<lparr>uw_next := owner, uw_owners := map_assign (mapping_key (mm_url mm) port proto) owner (uw_owners w),
           uw_mappers := (uw_mappers w)(i \<mapsto> mm\<lparr>mm_mappings := mm_mappings mm @ [\<lparr>mp_port = port, mp_proto = proto, mp_owner = owner\<rparr>]\<rparr>),
           uw_router := insert (mm_url mm, port, proto) (uw_router w)\<rparr>))"

text \<open>One turn of the loop of the destructor; \<open>mapping_owners_[key]\<close> inserts 0 for a key that is missing.\<close>

definition close_mapping :: "(string \<times> string \<times> string \<Rightarrow> bool) \<Rightarrow> string \<Rightarrow> mapping \<Rightarrow> upnp_world \<Rightarrow> upnp_world" where
  "close_mapping refuses url m w =
     (let key = mapping_key url (mp_port m) (mp_proto m); at = (url, mp_port m, mp_proto m);
          w = w\<lparr>uw_owners := map_emplace key 0 (uw_owners w)\<rparr>
      in if map_find (uw_owners w) key \<noteq> Some (mp_owner m) then w
         else let w = w\<lparr>uw_owners := map_erase key (uw_owners w)\<rparr>
              in if refuses at then w\<lparr>uw_refused := insert at (uw_refused w)\<rparr> else w\<lparr>uw_router := uw_router w - {at}\<rparr>)"

definition destroy :: "(string \<times> string \<times> string \<Rightarrow> bool) \<Rightarrow> nat \<Rightarrow> mapper \<Rightarrow> upnp_world \<Rightarrow> upnp_world" where
  "destroy refuses i mm w =
     (let w = (if mm_discovered mm then fold (close_mapping refuses (mm_url mm)) (mm_mappings mm) w else w)
      in w\<lparr>uw_mappers := (uw_mappers w)(i := None)\<rparr>)"

definition openPortBoth :: "int \<Rightarrow> int \<Rightarrow> string \<Rightarrow> nat \<Rightarrow> mapper \<Rightarrow> upnp_world \<Rightarrow> bool \<times> upnp_world" where
  "openPortBoth tcp_code udp_code port i mm w =
     (let (tcp, w) = openPort tcp_code port ''TCP'' i mm w;
          (udp, w) = openPort udp_code port ''UDP'' i (case uw_mappers w i of None \<Rightarrow> mm | Some mm \<Rightarrow> mm) w
      in (tcp \<or> udp, w))"

section \<open>Runs\<close>

datatype upnp_event =
    Create nat | Discover nat discovery | Open nat int string string | OpenBoth nat int int string
  | Destroy nat "string \<times> string \<times> string \<Rightarrow> bool"

fun upnp_step :: "upnp_event \<Rightarrow> upnp_world \<Rightarrow> upnp_world" where
  "upnp_step (Create i) w = w\<lparr>uw_mappers := (uw_mappers w)(i \<mapsto> new_mapper)\<rparr>"
| "upnp_step (Discover i d) w =
     (case uw_mappers w i of None \<Rightarrow> w | Some mm \<Rightarrow> w\<lparr>uw_mappers := (uw_mappers w)(i \<mapsto> snd (discover d mm))\<rparr>)"
| "upnp_step (Open i code port proto) w = (case uw_mappers w i of None \<Rightarrow> w | Some mm \<Rightarrow> snd (openPort code port proto i mm w))"
| "upnp_step (OpenBoth i tcp_code udp_code port) w =
     (case uw_mappers w i of None \<Rightarrow> w | Some mm \<Rightarrow> snd (openPortBoth tcp_code udp_code port i mm w))"
| "upnp_step (Destroy i refuses) w = (case uw_mappers w i of None \<Rightarrow> w | Some mm \<Rightarrow> destroy refuses i mm w)"

text \<open>
  How the class is used: a new object is not one that lives, ports and protocols have
  no vertical bar, and there are owner numbers left. A router is discovered once: a second, failing discovery frees the URL that the first has left.
\<close>

fun upnp_allowed :: "upnp_event \<Rightarrow> upnp_world \<Rightarrow> bool" where
  "upnp_allowed (Create i) w \<longleftrightarrow> uw_mappers w i = None"
| "upnp_allowed (Discover i d) w \<longleftrightarrow> (case uw_mappers w i of None \<Rightarrow> False | Some mm \<Rightarrow> \<not> mm_discovered mm)"
| "upnp_allowed (Open i code port proto) w \<longleftrightarrow> uw_next w + 1 \<noteq> 0 \<and> CHR ''|'' \<notin> set port \<and> CHR ''|'' \<notin> set proto"
| "upnp_allowed (OpenBoth i tcp_code udp_code port) w \<longleftrightarrow> uw_next w + 1 \<noteq> 0 \<and> uw_next w + 2 \<noteq> 0 \<and> CHR ''|'' \<notin> set port"
| "upnp_allowed (Destroy i refuses) w \<longleftrightarrow> True"

section \<open>The invariant\<close>

text \<open>An object that lives has opened the mapping \<open>m\<close> at the router with the control URL \<open>u\<close>.\<close>

definition held :: "upnp_world \<Rightarrow> nat \<Rightarrow> string \<Rightarrow> mapping \<Rightarrow> bool" where
  "held w i u m \<longleftrightarrow> (\<exists>mm. uw_mappers w i = Some mm \<and> mm_discovered mm \<and> mm_url mm = u \<and> m \<in> set (mm_mappings mm))"

definition current :: "upnp_world \<Rightarrow> string \<Rightarrow> mapping \<Rightarrow> bool" where
  "current w u m \<longleftrightarrow> map_find (uw_owners w) (mapping_key u (mp_port m) (mp_proto m)) = Some (mp_owner m)"

definition location :: "string \<Rightarrow> mapping \<Rightarrow> string \<times> string \<times> string" where
  "location u m = (u, mp_port m, mp_proto m)"

definition plain_mapping :: "mapping \<Rightarrow> bool" where
  "plain_mapping m \<longleftrightarrow> CHR ''|'' \<notin> set (mp_port m) \<and> CHR ''|'' \<notin> set (mp_proto m)"

definition numbers_ok :: "upnp_world \<Rightarrow> bool" where
  "numbers_ok w \<longleftrightarrow> ascending (map fst (uw_owners w)) \<and> (\<forall>k v. map_find (uw_owners w) k = Some v \<longrightarrow> v \<le> uw_next w) \<and>
     (\<forall>i u m. held w i u m \<longrightarrow> mp_owner m \<le> uw_next w \<and> mp_owner m \<noteq> 0 \<and> plain_mapping m) \<and>
     (\<forall>i j u v m n. held w i u m \<longrightarrow> held w j v n \<longrightarrow> mp_owner m = mp_owner n \<longrightarrow> i = j \<and> m = n) \<and>
     (\<forall>i mm. uw_mappers w i = Some mm \<longrightarrow> distinct (map mp_owner (mm_mappings mm)) \<and> (mm_mappings mm \<noteq> [] \<longrightarrow> mm_discovered mm))"

definition router_ok :: "upnp_world \<Rightarrow> bool" where
  "router_ok w \<longleftrightarrow> (\<forall>at \<in> uw_router w - uw_refused w. \<exists>i u m. held w i u m \<and> current w u m \<and> at = location u m) \<and>
     (\<forall>i u m. held w i u m \<longrightarrow> current w u m \<longrightarrow> location u m \<in> uw_router w)"

definition upnp_inv :: "upnp_world \<Rightarrow> bool" where
  "upnp_inv w \<longleftrightarrow> numbers_ok w \<and> router_ok w"

lemma bar_inject:
  assumes "CHR ''|'' \<notin> set a" "CHR ''|'' \<notin> set b"
  shows "x @ CHR ''|'' # a = y @ CHR ''|'' # b \<longleftrightarrow> x = y \<and> a = b"
  using assms by (auto simp: append_eq_append_conv2 Cons_eq_append_conv append_eq_Cons_conv)

lemma mapping_key_inject:
  assumes "plain_mapping m" "plain_mapping n" "mapping_key u (mp_port m) (mp_proto m) = mapping_key v (mp_port n) (mp_proto n)"
  shows "location u m = location v n"
proof -
  have "(u @ CHR ''|'' # mp_port m) @ CHR ''|'' # mp_proto m = (v @ CHR ''|'' # mp_port n) @ CHR ''|'' # mp_proto n"
    using assms(3) by (simp add: mapping_key_def)
  then show ?thesis using assms(1,2) by (simp add: bar_inject plain_mapping_def location_def del: append_assoc)
qed

lemma location_key: "location u m = location v n \<Longrightarrow> mapping_key u (mp_port m) (mp_proto m) = mapping_key v (mp_port n) (mp_proto n)"
  by (simp add: location_def)

lemma next_owner:
  fixes n :: u64
  assumes "n + 1 \<noteq> 0" "x \<le> n"
  shows "x \<le> n + 1" "x \<noteq> n + 1"
proof -
  have "n < n + 1" using assms(1) unatSuc [of n] by (simp add: word_less_nat_alt add.commute)
  with assms(2) show "x \<le> n + 1" "x \<noteq> n + 1" by auto
qed

lemma held_update: "held (w\<lparr>uw_mappers := (uw_mappers w)(i := x)\<rparr>) j u m \<longleftrightarrow>
    (if j = i then (\<exists>mm. x = Some mm \<and> mm_discovered mm \<and> mm_url mm = u \<and> m \<in> set (mm_mappings mm)) else held w j u m)"
  by (auto simp: held_def)

lemma replace_mapper:
  assumes "upnp_inv w" "uw_mappers w i = x" "case x of None \<Rightarrow> mm_mappings y = [] | Some mm \<Rightarrow> mm_mappings y = mm_mappings mm"
    and "mm_mappings y \<noteq> [] \<Longrightarrow> mm_discovered y \<and> mm_url y = mm_url (the x)"
  shows "upnp_inv (w\<lparr>uw_mappers := (uw_mappers w)(i \<mapsto> y)\<rparr>)"
proof -
  let ?w = "w\<lparr>uw_mappers := (uw_mappers w)(i \<mapsto> y)\<rparr>"
  have "held ?w j u m = held w j u m" for j u m
    using assms by (cases "mm_mappings y = []"; cases x) (auto simp: held_update upnp_inv_def numbers_ok_def held_def)
  moreover have "current ?w u m = current w u m" for u m by (simp add: current_def)
  moreover have "distinct (map mp_owner (mm_mappings y))"
    using assms(1-3) by (cases x) (auto simp: upnp_inv_def numbers_ok_def)
  ultimately show ?thesis using assms(1,4) by (auto simp: upnp_inv_def numbers_ok_def router_ok_def)
qed

lemma open_inv:
  assumes "upnp_inv w" "uw_mappers w i = Some mm" "uw_next w + 1 \<noteq> 0" "CHR ''|'' \<notin> set port" "CHR ''|'' \<notin> set proto"
  shows "upnp_inv (snd (openPort code port proto i mm w))"
proof (cases "mm_discovered mm \<and> code = 0")
  case False
  have "mm_mappings mm \<noteq> [] \<longrightarrow> mm_discovered mm" using assms(1,2) by (simp add: upnp_inv_def numbers_ok_def)
  then have "upnp_inv (w\<lparr>uw_mappers := (uw_mappers w)(i \<mapsto> mm\<lparr>mm_error := e\<rparr>)\<rparr>)" for e
    by (intro replace_mapper [OF assms(1,2)]) simp_all
  with False assms(1) show ?thesis by (simp add: openPort_def)
next
  case True
  define m where "m = \<lparr>mp_port = port, mp_proto = proto, mp_owner = uw_next w + 1\<rparr>"
  define w' where "w' = snd (openPort code port proto i mm w)"
  let ?key = "mapping_key (mm_url mm) port proto"
  have w': "w' = w\<lparr>uw_next := uw_next w + 1, uw_owners := map_assign ?key (uw_next w + 1) (uw_owners w),
      uw_mappers := (uw_mappers w)(i \<mapsto> mm\<lparr>mm_mappings := mm_mappings mm @ [m]\<rparr>), uw_router := insert (location (mm_url mm) m) (uw_router w)\<rparr>"
    using True by (simp add: w'_def openPort_def m_def location_def Let_def)
  have numbers: "numbers_ok w" "router_ok w" using assms(1) by (simp_all add: upnp_inv_def)
  note asc = numbers(1) [unfolded numbers_ok_def, THEN conjunct1]
  have held: "held w' j u n \<longleftrightarrow> held w j u n \<or> j = i \<and> u = mm_url mm \<and> n = m" for j u n
    using assms(2) True by (auto simp: w' held_def)
  have old: "mp_owner n \<le> uw_next w + 1 \<and> mp_owner n \<noteq> uw_next w + 1 \<and> mp_owner n \<noteq> 0 \<and> plain_mapping n" if "held w j u n" for j u n
    using numbers(1) that next_owner [OF assms(3)] by (auto simp: numbers_ok_def)
  have new: "mp_owner m = uw_next w + 1" "plain_mapping m" "mapping_key (mm_url mm) (mp_port m) (mp_proto m) = ?key"
    using assms(4,5) by (simp_all add: m_def plain_mapping_def)
  have current_new: "current w' (mm_url mm) m" using asc new by (simp add: current_def w')
  have current_old: "current w' u n \<longleftrightarrow> location u n \<noteq> location (mm_url mm) m \<and> current w u n" if "held w j u n" for j u n
  proof (cases "mapping_key u (mp_port n) (mp_proto n) = ?key")
    case True
    with mapping_key_inject [of n m u "mm_url mm"] old [OF that] new have "location u n = location (mm_url mm) m" by simp
    with True old [OF that] asc show ?thesis by (auto simp: current_def w')
  next
    case False
    with location_key [of u n "mm_url mm" m] new asc show ?thesis by (auto simp: current_def w')
  qed
  have next': "uw_next w' = uw_next w + 1" by (simp add: w')
  have "numbers_ok w'"
  proof -
    have "v \<le> uw_next w + 1" if "map_find (uw_owners w') k = Some v" for k v
      using that numbers(1) next_owner(1) [OF assms(3)] asc by (auto simp: w' numbers_ok_def split: if_splits)
    moreover have "distinct (map mp_owner (mm_mappings mm @ [m]))"
    proof -
      have "distinct (map mp_owner (mm_mappings mm))" using numbers(1) assms(2) unfolding numbers_ok_def by blast
      moreover have "mp_owner m \<noteq> mp_owner n" if "n \<in> set (mm_mappings mm)" for n
        using old [of i "mm_url mm" n] that assms(2) True new(1) by (auto simp: held_def)
      ultimately show ?thesis by auto
    qed
    moreover have "i1 = i2 \<and> m1 = m2" if "held w' i1 u1 m1" "held w' i2 u2 m2" "mp_owner m1 = mp_owner m2" for i1 i2 u1 u2 m1 m2
      using that old numbers(1) new(1) unfolding held numbers_ok_def by metis
    moreover have "mp_owner n \<le> uw_next w' \<and> mp_owner n \<noteq> 0 \<and> plain_mapping n" if "held w' j u n" for j u n
      using that old new assms(3) next' unfolding held by auto
    ultimately show ?thesis using numbers(1) asc True unfolding numbers_ok_def next' by (auto simp: w')
  qed
  moreover have "router_ok w'"
  proof -
    have "\<exists>j u n. held w' j u n \<and> current w' u n \<and> at = location u n" if "at \<in> uw_router w' - uw_refused w'" for at
    proof (cases "at = location (mm_url mm) m")
      case True
      with current_new held show ?thesis by blast
    next
      case False
      with that have "at \<in> uw_router w - uw_refused w" by (simp add: w')
      with numbers(2) obtain j u n where "held w j u n" "current w u n" "at = location u n" unfolding router_ok_def by blast
      with current_old False held show ?thesis by blast
    qed
    moreover have "location u n \<in> uw_router w'" if "held w' j u n" "current w' u n" for j u n
      using that held current_old numbers(2) by (auto simp: w' router_ok_def)
    ultimately show ?thesis by (simp add: router_ok_def)
  qed
  ultimately show ?thesis by (simp add: upnp_inv_def w'_def)
qed

lemma map_find_erase: "map_find (map_erase k m) k' = (if k' = k then None else map_find m k')"
  by (induction m) (auto simp: map_erase_def)

text \<open>A turn of the destructor's loop, with the mapping taken off the list of the object.\<close>

lemma close_inv:
  assumes "upnp_inv w" "uw_mappers w i = Some mm" "mm_discovered mm" "mm_mappings mm = m # ms"
  shows "upnp_inv ((close_mapping refuses (mm_url mm) m w)\<lparr>uw_mappers := (uw_mappers w)(i \<mapsto> mm\<lparr>mm_mappings := ms\<rparr>)\<rparr>)"
proof -
  define w' where "w' = (close_mapping refuses (mm_url mm) m w)\<lparr>uw_mappers := (uw_mappers w)(i \<mapsto> mm\<lparr>mm_mappings := ms\<rparr>)\<rparr>"
  let ?key = "mapping_key (mm_url mm) (mp_port m) (mp_proto m)"
  have numbers: "numbers_ok w" "router_ok w" using assms(1) by (simp_all add: upnp_inv_def)
  note asc = numbers(1) [unfolded numbers_ok_def, THEN conjunct1]
  have m: "held w i (mm_url mm) m" using assms(2-4) by (auto simp: held_def)
  have m_plain: "plain_mapping m" "mp_owner m \<noteq> 0" using numbers(1) m by (auto simp: numbers_ok_def)
  have distinct: "distinct (map mp_owner (m # ms))" using numbers(1) assms(2,4) unfolding numbers_ok_def by metis
  then have "m \<notin> set ms" by auto
  then have held: "held w' j u n \<longleftrightarrow> held w j u n \<and> (j, n) \<noteq> (i, m)" for j u n
    using assms(2-4) by (auto simp: w'_def held_def)
  have emplaced: "map_find (map_emplace ?key 0 (uw_owners w)) ?key = Some (mp_owner m) \<longleftrightarrow> current w (mm_url mm) m"
    using m_plain(2) asc by (auto simp: map_emplace_def current_def)
  have owners: "uw_owners w' = (if current w (mm_url mm) m then map_erase ?key (map_emplace ?key 0 (uw_owners w)) else map_emplace ?key 0 (uw_owners w))"
    and router: "uw_router w' = (if current w (mm_url mm) m \<and> \<not> refuses (location (mm_url mm) m) then uw_router w - {location (mm_url mm) m} else uw_router w)"
    and refused: "uw_refused w' = (if current w (mm_url mm) m \<and> refuses (location (mm_url mm) m) then insert (location (mm_url mm) m) (uw_refused w) else uw_refused w)"
    and same: "uw_next w' = uw_next w"
    using emplaced by (auto simp: w'_def close_mapping_def location_def Let_def)
  have find: "map_find (uw_owners w') k = (if k = ?key then (if current w (mm_url mm) m then None
      else if map_find (uw_owners w) ?key = None then Some 0 else map_find (uw_owners w) ?key) else map_find (uw_owners w) k)" for k
    using asc by (auto simp: owners map_emplace_def map_find_erase)
  have current: "current w' u n \<longleftrightarrow> current w u n \<and> \<not> (current w (mm_url mm) m \<and> location u n = location (mm_url mm) m)" if "held w j u n" for j u n
  proof -
    have "mp_owner n \<noteq> 0" "plain_mapping n" using numbers(1) that by (auto simp: numbers_ok_def)
    with mapping_key_inject [OF _ m_plain(1), of n u "mm_url mm"] location_key [of u n "mm_url mm" m]
    show ?thesis by (auto simp: current_def find)
  qed
  have "numbers_ok w'"
  proof -
    have "ascending (map fst (uw_owners w'))" using asc by (simp add: owners ascending_emplace ascending_map_erase)
    moreover have "v \<le> uw_next w" if "map_find (uw_owners w') k = Some v" for k v
      using that numbers(1) by (auto simp: find numbers_ok_def split: if_splits)
    moreover have "distinct (map mp_owner ms)" using distinct by simp
    ultimately show ?thesis
      using numbers(1) assms(3) unfolding numbers_ok_def held same by (auto simp: w'_def)
  qed
  moreover have "router_ok w'"
  proof -
    have "\<exists>j u n. held w' j u n \<and> current w' u n \<and> at = location u n" if at: "at \<in> uw_router w' - uw_refused w'" for at
    proof -
      from at have "at \<in> uw_router w - uw_refused w" by (auto simp: router refused split: if_splits)
      with numbers(2) obtain j u n where n: "held w j u n" "current w u n" "at = location u n" unfolding router_ok_def by blast
      have "\<not> (current w (mm_url mm) m \<and> location u n = location (mm_url mm) m)"
        using at n(3) by (auto simp: router refused split: if_splits)
      moreover from this have "(j, n) \<noteq> (i, m)" using n m by (auto simp: held_def)
      ultimately show ?thesis using n held current by blast
    qed
    moreover have "location u n \<in> uw_router w'" if "held w' j u n" "current w' u n" for j u n
      using that held current numbers(2) by (auto simp: router router_ok_def)
    ultimately show ?thesis by (simp add: router_ok_def)
  qed
  ultimately show ?thesis by (simp add: upnp_inv_def w'_def)
qed

lemma close_same: "uw_mappers (close_mapping refuses u m w) = uw_mappers w"
  by (simp add: close_mapping_def Let_def)

lemma close_mapping_mappers:
  "(close_mapping refuses u m w)\<lparr>uw_mappers := f\<rparr> = close_mapping refuses u m (w\<lparr>uw_mappers := f\<rparr>)"
  by (simp add: close_mapping_def Let_def)

lemma close_all_inv:
  assumes "upnp_inv w" "uw_mappers w i = Some mm" "mm_discovered mm"
  shows "upnp_inv ((fold (close_mapping refuses (mm_url mm)) (mm_mappings mm) w)\<lparr>uw_mappers := (uw_mappers w)(i \<mapsto> mm\<lparr>mm_mappings := []\<rparr>)\<rparr>)"
  using assms
proof (induction "mm_mappings mm" arbitrary: w mm)
  case Nil
  then have "w\<lparr>uw_mappers := (uw_mappers w)(i \<mapsto> mm\<lparr>mm_mappings := []\<rparr>)\<rparr> = w"
    by (cases w; cases mm) (auto simp: fun_upd_idem)
  with Nil show ?case by (metis fold_simps(1))
next
  case (Cons m ms)
  let ?mm = "mm\<lparr>mm_mappings := ms\<rparr>"
  let ?w = "(close_mapping refuses (mm_url mm) m w)\<lparr>uw_mappers := (uw_mappers w)(i \<mapsto> ?mm)\<rparr>"
  have moved: "(fold (close_mapping refuses u) l v)\<lparr>uw_mappers := f\<rparr> = fold (close_mapping refuses u) l (v\<lparr>uw_mappers := f\<rparr>)" for u l v f
    by (induction l arbitrary: v) (simp_all add: close_mapping_mappers)
  have "upnp_inv ((fold (close_mapping refuses (mm_url ?mm)) (mm_mappings ?mm) ?w)\<lparr>uw_mappers := (uw_mappers ?w)(i \<mapsto> ?mm\<lparr>mm_mappings := []\<rparr>)\<rparr>)"
    using Cons.prems Cons.hyps(2) close_inv [OF Cons.prems, of m ms refuses] by (intro Cons.hyps(1)) simp_all
  then show ?case by (simp add: moved close_mapping_mappers close_same flip: Cons.hyps(2))
qed

lemma remove_idle:
  fixes w :: upnp_world
  assumes "upnp_inv (w\<lparr>uw_mappers := f(i \<mapsto> mm)\<rparr>)" "mm_mappings mm = []"
  shows "upnp_inv (w\<lparr>uw_mappers := f(i := None)\<rparr>)"
proof -
  have "held (w\<lparr>uw_mappers := f(i := None)\<rparr>) j u m = held (w\<lparr>uw_mappers := f(i \<mapsto> mm)\<rparr>) j u m" for j u m
    using assms(2) by (auto simp: held_def)
  moreover have "current (w\<lparr>uw_mappers := f(i := None)\<rparr>) u m = current (w\<lparr>uw_mappers := f(i \<mapsto> mm)\<rparr>) u m" for u m
    by (simp add: current_def)
  ultimately show ?thesis using assms(1) unfolding upnp_inv_def numbers_ok_def router_ok_def
    by (auto split: if_splits)
qed

lemma fold_close_same: "uw_mappers (fold (close_mapping refuses u) l w) = uw_mappers w"
  by (induction l arbitrary: w) (simp_all add: close_same)

lemma destroy_inv:
  assumes "upnp_inv w" "uw_mappers w i = Some mm"
  shows "upnp_inv (destroy refuses i mm w)"
proof (cases "mm_discovered mm")
  case True
  from remove_idle [OF close_all_inv [OF assms True]] True show ?thesis by (simp add: destroy_def fold_close_same)
next
  case False
  then have "mm_mappings mm = []" using assms by (auto simp: upnp_inv_def numbers_ok_def)
  moreover have "w\<lparr>uw_mappers := (uw_mappers w)(i \<mapsto> mm)\<rparr> = w" using assms(2) by (cases w) (simp add: fun_upd_idem)
  ultimately show ?thesis using remove_idle [where w = w and f = "uw_mappers w" and i = i and mm = mm] assms(1) False by (simp add: destroy_def)
qed

lemma open_both_inv:
  assumes "upnp_inv w" "uw_mappers w i = Some mm" "uw_next w + 1 \<noteq> 0" "uw_next w + 2 \<noteq> 0" "CHR ''|'' \<notin> set port"
  shows "upnp_inv (snd (openPortBoth tcp_code udp_code port i mm w))"
proof -
  obtain tcp w1 where tcp: "openPort tcp_code port ''TCP'' i mm w = (tcp, w1)" by fastforce
  have "upnp_inv w1" using open_inv [OF assms(1-3,5), of "''TCP''" tcp_code] tcp by simp
  moreover obtain mm1 where "uw_mappers w1 i = Some mm1" "uw_next w1 + 1 \<noteq> 0"
    using tcp assms(2-4) by (auto simp: openPort_def Let_def add.assoc split: if_splits)
  ultimately have "upnp_inv (snd (openPort udp_code port ''UDP'' i mm1 w1))" using assms(5) by (intro open_inv) simp_all
  with \<open>uw_mappers w1 i = Some mm1\<close> show ?thesis by (simp add: openPortBoth_def tcp case_prod_unfold Let_def)
qed

lemma upnp_step_inv:
  assumes "upnp_inv w" "upnp_allowed e w"
  shows "upnp_inv (upnp_step e w)"
proof (cases e)
  case (Create i)
  with assms show ?thesis by (auto simp: new_mapper_def intro!: replace_mapper)
next
  case (Discover i d)
  with assms(2) obtain mm where "uw_mappers w i = Some mm" "\<not> mm_discovered mm" by (auto split: option.splits)
  moreover from this assms(1) have "mm_mappings mm = []" unfolding upnp_inv_def numbers_ok_def by blast
  moreover from this have "mm_mappings (snd (discover d mm)) = []" by (simp add: discover_def split: discovery.split)
  ultimately show ?thesis using Discover replace_mapper [OF assms(1), of i "Some mm" "snd (discover d mm)"] by simp
next
  case (Open i code port proto)
  with assms show ?thesis by (auto split: option.split intro!: open_inv)
next
  case (OpenBoth i tcp_code udp_code port)
  with assms show ?thesis by (auto split: option.split intro!: open_both_inv)
next
  case (Destroy i refuses)
  with assms show ?thesis by (auto split: option.split intro!: destroy_inv)
qed

interpretation upnp_machine: invariant_machine upnp_step upnp_inv upnp_allowed
  by unfold_locales (rule upnp_step_inv)

lemma upnp_run_inv: "upnp_machine.run new_world w \<Longrightarrow> upnp_inv w"
  by (erule upnp_machine.run_inv) (simp add: upnp_inv_def numbers_ok_def router_ok_def held_def new_world_def)

section \<open>What hosts can rely on\<close>

text \<open>Destroying another object leaves the current opening of a port as it is.\<close>

lemma close_keeps_current:
  assumes "mapping_key u (mp_port m) (mp_proto m) = mapping_key v (mp_port n) (mp_proto n) \<longrightarrow> mp_owner m \<noteq> mp_owner n"
    and "current w u m" "ascending (map fst (uw_owners w))"
  shows "current (close_mapping refuses v n w) u m"
proof (cases "mapping_key u (mp_port m) (mp_proto m) = mapping_key v (mp_port n) (mp_proto n)")
  case True
  with assms show ?thesis by (auto simp: current_def close_mapping_def Let_def map_emplace_def)
next
  case False
  with assms(2,3) show ?thesis by (auto simp: current_def close_mapping_def Let_def map_emplace_def map_find_erase)
qed

lemma close_ascending: "ascending (map fst (uw_owners w)) \<Longrightarrow> ascending (map fst (uw_owners (close_mapping refuses v n w)))"
  by (simp add: close_mapping_def Let_def ascending_emplace ascending_map_erase)

lemma fold_close_keeps_current:
  assumes "\<forall>n \<in> set l. mp_owner m \<noteq> mp_owner n" "current w u m" "ascending (map fst (uw_owners w))"
  shows "current (fold (close_mapping refuses v) l w) u m"
  using assms by (induction l arbitrary: w) (simp_all add: close_keeps_current close_ascending)

text \<open>
  C27: A late destruction takes away nothing that is in use. However objects are created, discover routers, open ports and are destroyed, in any order:
  if an object that lives has opened a port and none has opened it at that router since, the mapping is at the router,
  and it is still there and still the object's own after any other object has been destroyed; and when no object lives any more, the routers
  keep no mapping but those whose deletion they have refused.
\<close>

theorem late_cleanup_harmless:
  assumes "upnp_machine.run new_world w"
  shows "(\<forall>i j u m refuses. i \<noteq> j \<and> held w i u m \<and> current w u m \<longrightarrow> location u m \<in> uw_router w \<and>
      (let w' = upnp_step (Destroy j refuses) w in held w' i u m \<and> current w' u m \<and> location u m \<in> uw_router w')) \<and>
    ((\<forall>i. uw_mappers w i = None) \<longrightarrow> uw_router w \<subseteq> uw_refused w)"
proof (intro conjI allI impI)
  note inv = upnp_run_inv [OF assms]
  then have numbers: "numbers_ok w" and router: "router_ok w" by (simp_all add: upnp_inv_def)
  fix i j u m refuses
  assume m: "i \<noteq> j \<and> held w i u m \<and> current w u m"
  with router show "location u m \<in> uw_router w" unfolding router_ok_def by blast
  define w' where "w' = upnp_step (Destroy j refuses) w"
  have inv': "upnp_inv w'" unfolding w'_def by (rule upnp_step_inv [OF inv]) simp
  have "held w' i u m"
    using m by (auto simp: w'_def held_def destroy_def fold_close_same Let_def split: option.split)
  moreover have "current w' u m"
  proof (cases "uw_mappers w j")
    case (Some mm)
    have "mp_owner m \<noteq> mp_owner n" if "n \<in> set (mm_mappings mm)" for n
    proof -
      have "mm_mappings mm \<noteq> []" using that by auto
      then have "mm_discovered mm" using Some numbers unfolding numbers_ok_def by blast
      with Some that have "held w j (mm_url mm) n" by (simp add: held_def)
      with m numbers show ?thesis unfolding numbers_ok_def by blast
    qed
    moreover have "ascending (map fst (uw_owners w))" using numbers by (simp add: numbers_ok_def)
    ultimately have "current (fold (close_mapping refuses (mm_url mm)) (mm_mappings mm) w) u m"
      using m by (intro fold_close_keeps_current) auto
    with m Some show ?thesis by (simp add: w'_def destroy_def Let_def current_def)
  qed (use m in \<open>simp add: w'_def\<close>)
  ultimately show "let w' = upnp_step (Destroy j refuses) w in held w' i u m \<and> current w' u m \<and> location u m \<in> uw_router w'"
    using inv' unfolding Let_def w'_def [symmetric] upnp_inv_def router_ok_def by blast
next
  assume "\<forall>i. uw_mappers w i = None"
  then have "\<not> held w i u m" for i u m by (simp add: held_def)
  with upnp_run_inv [OF assms] show "uw_router w \<subseteq> uw_refused w" unfolding upnp_inv_def router_ok_def by blast
qed

text \<open>A host opens a port, leaves and hosts again before the first object is destroyed.\<close>

abbreviation host_steps :: "nat \<Rightarrow> upnp_event list" where
  "host_steps i \<equiv> [Create i, Discover i (Devices 1 ''http://router'' ''10.0.0.2'' None), Open i 0 ''7777'' ''TCP'']"

lemma host_steps_run:
  assumes "upnp_machine.run new_world w" "uw_mappers w i = None" "uw_next w + 1 \<noteq> 0" "ascending (map fst (uw_owners w))"
  shows "\<exists>w'. upnp_machine.run new_world w' \<and> uw_next w' = uw_next w + 1 \<and> (\<forall>j. j \<noteq> i \<longrightarrow> uw_mappers w' j = uw_mappers w j) \<and>
    (\<exists>m. held w' i ''http://router'' m \<and> current w' ''http://router'' m \<and> location ''http://router'' m = (''http://router'', ''7777'', ''TCP'')) \<and>
    ascending (map fst (uw_owners w'))"
proof -
  let ?m = "\<lparr>mp_port = ''7777'', mp_proto = ''TCP'', mp_owner = uw_next w + 1\<rparr>"
  let ?key = "mapping_key ''http://router'' ''7777'' ''TCP''"
  define w' where "w' = w\<lparr>uw_next := uw_next w + 1, uw_owners := map_assign ?key (uw_next w + 1) (uw_owners w),
      uw_mappers := (uw_mappers w)(i \<mapsto> \<lparr>mm_url = ''http://router'', mm_local = ''10.0.0.2'', mm_external = [], mm_error = [],
        mm_discovered = True, mm_mappings = [?m]\<rparr>), uw_router := insert (''http://router'', ''7777'', ''TCP'') (uw_router w)\<rparr>"
  have "fold upnp_step (host_steps i) w = w'" "upnp_machine.possible (host_steps i) w"
    using assms(2,3) by (simp_all add: w'_def new_mapper_def discover_def openPort_def Let_def)
  with upnp_machine.possible_run [OF assms(1), of "host_steps i"] have "upnp_machine.run new_world w'" by simp
  moreover have "held w' i ''http://router'' ?m" by (simp add: held_def w'_def)
  moreover have "current w' ''http://router'' ?m" using assms(4) by (simp add: current_def w'_def)
  moreover have "ascending (map fst (uw_owners w'))" using assms(4) by (simp add: w'_def ascending_assign)
  ultimately show ?thesis by (intro exI [of _ w'] conjI exI [of _ ?m]) (simp_all add: w'_def location_def)
qed

theorem late_cleanup_harmless_witness:
  "\<exists>w. upnp_machine.run new_world w \<and> (\<exists>m. held w 1 ''http://router'' m \<and> current w ''http://router'' m) \<and>
     (''http://router'', ''7777'', ''TCP'') \<in> uw_router (upnp_step (Destroy 0 (\<lambda>at. False)) w)"
proof -
  have "uw_mappers new_world 0 = None" "uw_next new_world + 1 \<noteq> 0" "ascending (map fst (uw_owners new_world))" by (simp_all add: new_world_def)
  from host_steps_run [OF upnp_machine.run.start this] obtain w1 where w1: "upnp_machine.run new_world w1" "uw_next w1 = 1" "uw_mappers w1 1 = None"
    "ascending (map fst (uw_owners w1))" by (auto simp: new_world_def)
  then have "uw_next w1 + 1 \<noteq> 0" by simp
  from host_steps_run [OF w1(1,3) this w1(4)] obtain w m where w: "upnp_machine.run new_world w" "held w 1 ''http://router'' m"
    "current w ''http://router'' m" "location ''http://router'' m = (''http://router'', ''7777'', ''TCP'')" by blast
  from late_cleanup_harmless [OF w(1)] w(2,3) have "location ''http://router'' m \<in> uw_router (upnp_step (Destroy 0 (\<lambda>at. False)) w)"
    unfolding Let_def by (metis zero_neq_one)
  with w show ?thesis by auto
qed

end
