(* ===== verification/Chat_Log.thy ===== *)
theory Chat_Log
  imports Chatbox_Prelude
begin

text \<open>
  \<open>storage/chat_log.h\<close>: the log of a server, appended to a file and repeated on the console. The files are a map from paths to contents;
  whether the file can be opened and the time of each line are arguments.

  Shown: the log only ever appends to its own file, one line for each call in the order of the calls, between a line for the start and one for the stop.
\<close>

datatype log_mode = LogToFile | StdoutOnly

record chat_log =
  lg_path :: string
  lg_mode :: log_mode
  lg_open :: bool
  lg_files :: "string \<Rightarrow> string option"
  lg_stdout :: string
  lg_stderr :: string

definition log_entry :: "string \<Rightarrow> string \<Rightarrow> string" where
  "log_entry now line = ''['' @ now @ ''] '' @ line @ [CHR 0x0A]"

definition write_log :: "string \<Rightarrow> string \<Rightarrow> chat_log \<Rightarrow> chat_log" where
  "write_log now line g =
     (let g = (if lg_open g
               then g\<lparr>lg_files := (lg_files g)(lg_path g \<mapsto> (case lg_files g (lg_path g) of None \<Rightarrow> [] | Some old \<Rightarrow> old) @ log_entry now line)\<rparr>
               else g)
      in g\<lparr>lg_stdout := lg_stdout g @ ''[log] '' @ line @ [CHR 0x0A]\<rparr>)"

text \<open>The constructor; opening to append creates a file that does not exist.\<close>

definition new_chat_log :: "bool \<Rightarrow> string \<Rightarrow> string \<Rightarrow> log_mode \<Rightarrow> (string \<Rightarrow> string option) \<Rightarrow> chat_log" where
  "new_chat_log opens now path mode files =
     (let g = \<lparr>lg_path = path, lg_mode = mode, lg_open = False, lg_files = files, lg_stdout = [], lg_stderr = []\<rparr>;
          g = (if mode \<noteq> LogToFile then g
               else if opens
               then g\<lparr>lg_open := True, lg_files := files(path \<mapsto> (case files path of None \<Rightarrow> [] | Some old \<Rightarrow> old))\<rparr>
               else g\<lparr>lg_stderr := ''[warn] Could not open log file: '' @ path @ [CHR 0x0A]\<rparr>)
      in write_log now ''=== Server started ==='' g)"

definition close_chat_log :: "string \<Rightarrow> chat_log \<Rightarrow> chat_log" where
  "close_chat_log now g =
     (let g = (if lg_mode g = StdoutOnly \<or> lg_open g then write_log now ''=== Server stopped ==='' g else g)
      in g\<lparr>lg_open := False\<rparr>)"

lemma write_log_same [simp]:
  "lg_path (write_log now line g) = lg_path g" "lg_mode (write_log now line g) = lg_mode g" "lg_open (write_log now line g) = lg_open g"
  by (simp_all add: write_log_def Let_def)

lemma write_lines_same [simp]:
  "lg_path (fold (\<lambda>(now, line). write_log now line) lines g) = lg_path g" "lg_mode (fold (\<lambda>(now, line). write_log now line) lines g) = lg_mode g"
  "lg_open (fold (\<lambda>(now, line). write_log now line) lines g) = lg_open g"
  by (induction lines arbitrary: g) (auto simp: case_prod_unfold)

lemma write_log_files:
  "lg_open g \<Longrightarrow> lg_files g (lg_path g) = Some old \<Longrightarrow> lg_files (write_log now line g) = (lg_files g)(lg_path g \<mapsto> old @ log_entry now line)"
  by (simp add: write_log_def Let_def)

lemma write_lines_files:
  "lg_open g \<Longrightarrow> lg_files g (lg_path g) = Some old \<Longrightarrow>
     lg_files (fold (\<lambda>(now, line). write_log now line) lines g) = (lg_files g)(lg_path g \<mapsto> old @ concat (map (\<lambda>(now, line). log_entry now line) lines))"
proof (induction lines arbitrary: g old)
  case (Cons x lines)
  obtain now line where x: "x = (now, line)" by (cases x)
  from Cons.IH [of "write_log now line g" "old @ log_entry now line"] Cons.prems x show ?case by (simp add: write_log_files fun_eq_iff)
qed (simp add: fun_upd_idem)

text \<open>
  The log of a server that starts, writes lines and stops: the file is what it was, the start, the lines and the stop; no other file is touched. Without a
  file nothing is.
\<close>

theorem log_appends:
  "lg_files (close_chat_log stop_time (fold (\<lambda>(now, line). write_log now line) lines (new_chat_log opens start_time path mode files))) =
     (if mode = LogToFile \<and> opens
      then files(path \<mapsto> (case files path of None \<Rightarrow> [] | Some old \<Rightarrow> old) @ log_entry start_time ''=== Server started ==='' @
        concat (map (\<lambda>(now, line). log_entry now line) lines) @ log_entry stop_time ''=== Server stopped ==='')
      else files)"
proof (cases "mode = LogToFile \<and> opens")
  case True
  let ?old = "(case files path of None \<Rightarrow> [] | Some old \<Rightarrow> old) @ log_entry start_time ''=== Server started ===''"
  define g where "g = new_chat_log opens start_time path mode files"
  have g: "lg_open g" "lg_path g = path" "lg_files g = files(path \<mapsto> ?old)"
    using True by (simp_all add: g_def new_chat_log_def write_log_def Let_def)
  define h where "h = fold (\<lambda>(now, line). write_log now line) lines g"
  have h: "lg_open h" "lg_path h = path" "lg_files h = files(path \<mapsto> ?old @ concat (map (\<lambda>(now, line). log_entry now line) lines))"
    using g write_lines_files [of g ?old lines] by (simp_all add: h_def fun_eq_iff)
  from write_log_files [OF h(1), of _ stop_time "''=== Server stopped ===''"] h
  have "lg_files (close_chat_log stop_time h) = files(path \<mapsto> ?old @ concat (map (\<lambda>(now, line). log_entry now line) lines) @ log_entry stop_time ''=== Server stopped ==='')"
    by (simp add: close_chat_log_def Let_def fun_eq_iff)
  with True show ?thesis unfolding h_def g_def by simp
next
  case False
  have unopened: "lg_files (write_log now line g) = lg_files g" if "\<not> lg_open g" for now line g using that by (simp add: write_log_def Let_def)
  have "lg_files (fold (\<lambda>(now, line). write_log now line) lines g) = lg_files g" if "\<not> lg_open g" for g
    using that by (induction lines arbitrary: g) (auto simp: unopened)
  moreover have "\<not> lg_open (new_chat_log opens start_time path mode files)" "lg_files (new_chat_log opens start_time path mode files) = files"
    using False by (auto simp: new_chat_log_def write_log_def Let_def)
  ultimately have "lg_files (close_chat_log stop_time (fold (\<lambda>(now, line). write_log now line) lines (new_chat_log opens start_time path mode files))) = files"
    by (simp add: close_chat_log_def unopened Let_def)
  then show ?thesis by (simp only: if_not_P [OF False])
qed

end
