(* ===== verification/Message_Quota.thy ===== *)
theory Message_Quota
  imports Server_Authority "HOL-Library.Sublist"
begin

text \<open>
  The message quota of a session (\<open>consume_message_quota\<close> of \<open>chat/client_session.cpp\<close>) in the runs of the server: the deques of the
  times of a session's messages, which only its own chat lines and whispers change, and how many of these are passed on.
\<close>

section \<open>One deque\<close>

text \<open>
  The deque holds the latest allowed times; those that left it are out of the window of every
  later call.
\<close>

definition quota_state :: "int \<Rightarrow> int list \<Rightarrow> int list \<Rightarrow> bool" where
  "quota_state now allowed recent \<longleftrightarrow> (\<exists>old. allowed = old @ recent \<and>
     (\<forall>x \<in> set old. now - x > RATE_LIMIT_WINDOW_NANOS)) \<and>
     (\<forall>i. i + RATE_LIMIT_MESSAGES < length allowed \<longrightarrow>
        allowed ! (i + RATE_LIMIT_MESSAGES) - allowed ! i > RATE_LIMIT_WINDOW_NANOS)"

lemma quota_stateI:
  assumes "allowed = old @ recent" "\<forall>x \<in> set old. now - x > RATE_LIMIT_WINDOW_NANOS"
    and "\<And>i. i + RATE_LIMIT_MESSAGES < length allowed \<Longrightarrow>
      allowed ! (i + RATE_LIMIT_MESSAGES) - allowed ! i > RATE_LIMIT_WINDOW_NANOS"
  shows "quota_state now allowed recent"
  unfolding quota_state_def using assms by blast

lemma quota_state_step:
  assumes "quota_state t allowed recent" "t \<le> now" "quota_step now recent = (ok, recent')"
  shows "quota_state now (allowed @ (if ok then [now] else [])) recent'"
proof -
  let ?gone = "takeWhile (\<lambda>x. now - x > RATE_LIMIT_WINDOW_NANOS) recent"
  let ?kept = "dropWhile (\<lambda>x. now - x > RATE_LIMIT_WINDOW_NANOS) recent"
  obtain old where old: "allowed = old @ recent" "\<forall>x \<in> set old. t - x > RATE_LIMIT_WINDOW_NANOS"
    and spaced: "\<And>i. i + RATE_LIMIT_MESSAGES < length allowed \<Longrightarrow>
      allowed ! (i + RATE_LIMIT_MESSAGES) - allowed ! i > RATE_LIMIT_WINDOW_NANOS"
    using assms(1) by (auto simp: quota_state_def)
  have split: "allowed = (old @ ?gone) @ ?kept" using old(1) by simp
  have out: "\<forall>x \<in> set (old @ ?gone). now - x > RATE_LIMIT_WINDOW_NANOS"
    using old(2) assms(2) by (auto dest!: set_takeWhileD)
  show ?thesis
  proof (cases "length ?kept \<ge> RATE_LIMIT_MESSAGES")
    case True
    then have "\<not> ok" "recent' = ?kept" using assms(3) by (auto simp: quota_step_def Let_def)
    then show ?thesis using quota_stateI [OF split out spaced] by simp
  next
    case False
    then have ok: ok and recent': "recent' = ?kept @ [now]" using assms(3) by (auto simp: quota_step_def Let_def)
    have spaced': "(allowed @ [now]) ! (i + RATE_LIMIT_MESSAGES) - (allowed @ [now]) ! i > RATE_LIMIT_WINDOW_NANOS"
      if i: "i + RATE_LIMIT_MESSAGES < length (allowed @ [now])" for i
    proof (cases "i + RATE_LIMIT_MESSAGES < length allowed")
      case True
      then show ?thesis using spaced [OF True] by (simp add: nth_append)
    next
      case last: False
      have "length allowed = length (old @ ?gone) + length ?kept" using split by (metis length_append)
      then have early: "i < length (old @ ?gone)" using i last False by simp
      then have "allowed ! i \<in> set (old @ ?gone)"
        by (subst split) (metis nth_append nth_mem)
      moreover have "i + RATE_LIMIT_MESSAGES = length allowed" "i < length allowed"
        using i last by (auto simp: RATE_LIMIT_MESSAGES_def)
      ultimately show ?thesis using out by (simp add: nth_append)
    qed
    have "allowed @ [now] = (old @ ?gone) @ recent'" using split recent' by simp
    from quota_stateI [OF this out spaced'] ok show ?thesis by simp
  qed
qed

lemma quota_state_later: "quota_state t allowed recent \<Longrightarrow> t \<le> now \<Longrightarrow> quota_state now allowed recent"
  unfolding quota_state_def by fastforce

lemma window_length:
  fixes xs :: "int list"
  assumes "sorted xs"
  shows "length (filter (\<lambda>t. a \<le> t \<and> t \<le> b) xs) = length (takeWhile (\<lambda>t. t \<le> b) (dropWhile (\<lambda>t. t < a) xs))"
  using assms
proof (induction xs)
  case (Cons x xs)
  have late: "filter (\<lambda>t. a \<le> t \<and> t \<le> b) ys = takeWhile (\<lambda>t. t \<le> b) ys" if "sorted ys" "\<forall>y \<in> set ys. a \<le> y" for ys
    using that
  proof (induction ys)
    case (Cons y ys)
    have "filter (\<lambda>t. a \<le> t \<and> t \<le> b) ys = []" if "b < y" using that Cons.prems(1) by (fastforce simp: filter_empty_conv)
    with Cons show ?case by auto
  qed simp
  show ?case
  proof (cases "x < a")
    case True
    with Cons show ?thesis by simp
  next
    case False
    with late [of "x # xs"] Cons.prems show ?thesis by fastforce
  qed
qed simp

lemma window_bound:
  assumes "quota_state now allowed recent" "sorted allowed"
  shows "length (filter (\<lambda>t. a \<le> t \<and> t \<le> a + RATE_LIMIT_WINDOW_NANOS) allowed) \<le> RATE_LIMIT_MESSAGES"
proof (rule ccontr)
  let ?b = "a + RATE_LIMIT_WINDOW_NANOS" and ?xs = "dropWhile (\<lambda>t. t < a) allowed"
  assume "\<not> ?thesis"
  then have many: "RATE_LIMIT_MESSAGES < length (takeWhile (\<lambda>t. t \<le> ?b) ?xs)" using window_length [OF assms(2)] by simp
  then have len: "RATE_LIMIT_MESSAGES < length ?xs" using length_takeWhile_le less_le_trans by blast
  have "takeWhile (\<lambda>t. t \<le> ?b) ?xs ! RATE_LIMIT_MESSAGES \<le> ?b" using nth_mem [OF many] by (auto dest: set_takeWhileD)
  then have last: "?xs ! RATE_LIMIT_MESSAGES \<le> ?b" using many by (simp add: takeWhile_nth)
  have first: "a \<le> ?xs ! 0" using len hd_dropWhile [of "\<lambda>t. t < a" allowed] by (cases ?xs) auto
  define n where "n = length (takeWhile (\<lambda>t. t < a) allowed)"
  have at: "?xs ! i = allowed ! (n + i)" if "i < length ?xs" for i
  proof -
    have "allowed ! (n + i) = (takeWhile (\<lambda>t. t < a) allowed @ ?xs) ! (n + i)" by simp
    also have "\<dots> = ?xs ! i" by (simp only: n_def nth_append_length_plus)
    finally show ?thesis by simp
  qed
  have "length allowed = n + length ?xs" unfolding n_def by (metis length_append takeWhile_dropWhile_id)
  with len assms(1) have "allowed ! (n + RATE_LIMIT_MESSAGES) - allowed ! n > RATE_LIMIT_WINDOW_NANOS"
    unfolding quota_state_def by simp
  with first last at [OF len] at [of 0] len show False by (cases ?xs) auto
qed

section \<open>The deques of the server\<close>

definition deques :: "chat_server \<Rightarrow> session_id \<Rightarrow> (room_id \<times> int list) list" where
  "deques st t = recent_messages_by_room (sess st t)"

lemma deques_base [simp]:
  "deques (effects_update g st) = deques st"
  "deques (broadcast_room E rid msg n st) = deques st"
  "deques (broadcast_users rid st) = deques st"
  "deques (broadcast_room_lists st) = deques st"
  "deques (persist_room E rid st) = deques st"
  "deques (rooms_update h st) = deques st"
  "deques (sessions_update p st) = deques st"
  "deques (local_room_id_update l st) = deques st"
  "deques (banned_nicks_update b st) = deques st"
  "deques (reply s answer st) = deques st"
  by (simp_all add: deques_def fun_eq_iff)

lemma deques_session:
  "(\<And>c. recent_messages_by_room (f c) = recent_messages_by_room c) \<Longrightarrow> deques (update_session s f st) = deques st"
  by (auto simp: deques_def update_session_def fun_eq_iff)

lemma deques_ops [simp]:
  "deques (set_active_room_id s a st) = deques st"
  "deques (erase_member rid s st) = deques st"
  "deques (insert_member rid s st) = deques st"
  "deques (stop_reading s st) = deques st"
  "deques (add_room name owner st) = deques st"
  "deques (save_bans st) = deques st"
  by (auto simp: fun_eq_iff deques_def set_active_room_id_def erase_member_def insert_member_def stop_reading_def
      update_session_def add_room_def Let_def save_bans_def)

lemma deques_moves [simp]:
  "deques (disconnect E s announce st) = deques st"
  "deques (move_session_to_room E s target announce st) = deques st"
  "deques (move_local_to_room E target announce st) = deques st"
  by (simp_all add: disconnect_def move_session_to_room_def move_local_to_room_def Let_def split: option.split)

lemma deques_hang_up [simp]: "deques (hang_up E s st) = deques st"
  by (simp add: hang_up_def)

lemma deques_kick [simp]: "deques (snd (kick_user_in_room E rid nick reason st)) = deques st"
  by (simp add: kick_user_in_room_def Let_def split: option.split)

lemma deques_kickD: "kick_user_in_room E rid nick reason st = (b, st') \<Longrightarrow> deques st' = deques st"
  using deques_kick [of E rid nick reason st] by simp

lemma deques_results:
  "set_topic_for_room E rid actor priv topic st = Inr st' \<Longrightarrow> deques st' = deques st"
  "join_room E s name st = Inr st' \<Longrightarrow> deques st' = deques st"
  "leave_room E s st = Inr st' \<Longrightarrow> deques st' = deques st"
  "create_room E s name st = Inr st' \<Longrightarrow> deques st' = deques st"
  "kick_from E s nick reason st = Inr st' \<Longrightarrow> deques st' = deques st"
  "create_local_room E name st = Inr st' \<Longrightarrow> deques st' = deques st"
  "create_admin_room E name st = Inr st' \<Longrightarrow> deques st' = deques st"
  "join_local_room E name st = Inr st' \<Longrightarrow> deques st' = deques st"
  "leave_local_room E st = Inr st' \<Longrightarrow> deques st' = deques st"
  "kick_user_in_named_room E room nick reason st = Inr st' \<Longrightarrow> deques st' = deques st"
  by (auto simp: set_topic_for_room_def join_room_def leave_room_def create_room_def kick_from_def
      create_local_room_def create_admin_room_def join_local_room_def leave_local_room_def
      kick_user_in_named_room_def Let_def dest: deques_kickD
      split: option.splits if_splits prod.splits)

lemma deques_private [simp]:
  "deques (snd (send_private_in_room E a b m rid mirror st)) = deques st"
  by (simp add: send_private_in_room_def Let_def split: option.split)

lemma deques_bind: "bind_identity nick key st = (b, st') \<Longrightarrow> deques st' = deques st"
  by (auto simp: deques_def fun_eq_iff bind_identity_def Let_def save_identities_def split: option.splits if_splits)

lemma deques_or_error:
  "(\<And>st'. r = Inr st' \<Longrightarrow> deques st' = deques st) \<Longrightarrow> deques (or_error s r st) = deques st"
  "(\<And>st'. r = Inr st' \<Longrightarrow> deques st' = deques st) \<Longrightarrow> deques (keep_on_error st r) = deques st"
  by (cases r; simp add: or_error_def keep_on_error_def)+

lemma deques_handlers:
  "deques (handle_hello s v st) = deques st"
  "deques (handle_authenticate E s pw st) = deques st"
  "deques (handle_identify E s nick key st) = deques st"
  "deques (handle_proof E s g st) = deques st"
  "deques (handle_leave E s st) = deques st"
  "deques (handle_disconnect E s st) = deques st"
  "deques (handle_list_rooms s st) = deques st"
  "deques (handle_create E s name st) = deques st"
  "deques (handle_join_room E s name st) = deques st"
  "deques (handle_topic E s topic st) = deques st"
  "deques (handle_kick E s nick reason st) = deques st"
  by (auto simp: handle_hello_def handle_authenticate_def handle_identify_def handle_proof_def admit_to_default_room_def Let_def deques_session
      handle_leave_def handle_disconnect_def handle_list_rooms_def send_room_list_def handle_create_def
      handle_join_room_def handle_topic_def send_topic_def set_topic_def handle_kick_def
      intro!: deques_or_error dest: deques_results deques_bind split: option.split prod.split bool.split)

definition carries_message :: "client_message \<Rightarrow> bool" where
  "carries_message m = (case m of Chat body \<Rightarrow> True | Whisper target body \<Rightarrow> True | _ \<Rightarrow> False)"

lemma deques_message: "\<not> carries_message m \<Longrightarrow> deques (handle_message E s m st) = deques st"
  by (cases m) (simp_all add: carries_message_def handle_message_def handle_authorised_def deques_handlers)

lemma deques_host: "deques (host_step E e st) = deques st"
proof (cases e)
  case (ServerBroadcast msg)
  have "deques (fold (\<lambda>rid. broadcast_room E rid m []) rids st') = deques st'" for rids m st'
    by (induction rids arbitrary: st') simp_all
  with ServerBroadcast show ?thesis by (simp add: broadcast_server_def)
next
  case (BanUser nick reason)
  then show ?thesis by (simp add: ban_user_def Let_def split: option.split)
next
  case StopServer
  then show ?thesis by (simp add: stop_def Let_def deques_def fun_eq_iff)
next
  case StartLocalUser
  then show ?thesis by (simp add: start_local_user_def Let_def split: option.split)
next
  case (RegisterLocal nick key)
  then show ?thesis
    by (auto simp: register_local_identity_def split: prod.split option.split if_splits dest: deques_bind)
      (metis deques_bind prod.collapse)
qed (auto simp: broadcast_def send_private_def show_room_list_local_def kick_user_def unban_user_def
      set_local_topic_def set_admin_topic_def Let_def
      intro!: deques_or_error dest: deques_results split: option.splits)

lemma deques_accept: "server_inv st \<Longrightarrow> deques (accept st) = deques st"
  using server_invD(5) [of st "next_session st"]
  by (auto simp: accept_def Let_def join_def deques_def fun_eq_iff)

section \<open>Messages that are passed on\<close>

text \<open>
  Nothing has reached anybody but the session \<open>s\<close>: no room, nothing stored, shown or logged, nothing queued for another session.
\<close>

definition unheard :: "session_id \<Rightarrow> chat_server \<Rightarrow> chat_server \<Rightarrow> bool" where
  "unheard s st st' \<longleftrightarrow> rooms st' = rooms st \<and> storage_requests (effects st') = storage_requests (effects st) \<and>
     ui (effects st') = ui (effects st) \<and> log_lines (effects st') = log_lines (effects st) \<and>
     (\<forall>t. t \<noteq> s \<longrightarrow> ios (effects st') t = ios (effects st) t)"

text \<open>A chat line or a whisper of the session \<open>s\<close>, sent from the room \<open>rid\<close>, that is passed on.\<close>

definition speaks :: "environment \<Rightarrow> session_id \<Rightarrow> room_id \<Rightarrow> server_event \<Rightarrow> chat_server \<Rightarrow> bool" where
  "speaks E s rid e st \<longleftrightarrow> (\<exists>line m. e = Line s line \<and> decode_client_frame line = Success m \<and> carries_message m) \<and>
     active_room_id (sess st s) = rid \<and> \<not> unheard s st (server_step E e st)"

definition deque :: "session_id \<Rightarrow> room_id \<Rightarrow> chat_server \<Rightarrow> int list" where
  "deque s rid st = (case map_find (deques st s) rid of None \<Rightarrow> [] | Some q \<Rightarrow> q)"

lemma unheard_refl [simp]: "unheard s st st"
  by (simp add: unheard_def)

lemma unheard_reply: "unheard s st st' \<Longrightarrow> unheard s st (reply s msg st')"
  by (simp add: unheard_def reply_def deliver_def split: result.split)

lemma quota_unheard: "consume_message_quota E s st = (b, st') \<Longrightarrow> unheard s st st'"
  by (auto simp: consume_message_quota_def Let_def update_session_def tick_def unheard_def split: prod.splits)

lemma quota_deques:
  assumes "consume_message_quota E s st = (b, st')" "ascending (map fst (deques st s))"
  shows "b = fst (quota_step (steady_nanos E (calls (effects st))) (deque s (active_room_id (sess st s)) st))"
    "deque s rid st' = (if rid = active_room_id (sess st s)
       then snd (quota_step (steady_nanos E (calls (effects st))) (deque s rid st)) else deque s rid st)"
    "ascending (map fst (deques st' s))"
  using assms
  by (auto simp: consume_message_quota_def Let_def update_session_def deque_def deques_def tick_def ascending_assign split: prod.splits)

text \<open>What a chat line or a whisper does: nothing to the deques, or what the quota does, and without its leave nothing else.\<close>

definition quota_applied :: "environment \<Rightarrow> session_id \<Rightarrow> chat_server \<Rightarrow> chat_server \<Rightarrow> bool" where
  "quota_applied E s st st' \<longleftrightarrow> deques st' = deques st \<and> unheard s st st' \<or>
     (\<exists>b st1. consume_message_quota E s st = (b, st1) \<and> deques st' = deques st1 \<and> (b \<or> unheard s st st'))"

lemma quota_appliedI:
  "consume_message_quota E s st = (b, st1) \<Longrightarrow> deques st' = deques st1 \<Longrightarrow> b \<or> unheard s st st' \<Longrightarrow> quota_applied E s st st'"
  "deques st' = deques st \<Longrightarrow> unheard s st st' \<Longrightarrow> quota_applied E s st st'"
  by (auto simp: quota_applied_def)

lemma quota_applied_messages:
  "quota_applied E s st (handle_chat E s body st)" "quota_applied E s st (handle_whisper E s target body st)"
proof -
  obtain b st1 where quota: "consume_message_quota E s st = (b, st1)" by fastforce
  note quiet = unheard_reply [OF quota_unheard [OF quota]] unheard_reply [OF unheard_refl]
  show "quota_applied E s st (handle_chat E s body st)"
    using quiet by (cases "nickname (sess st s) = []"; cases b) (auto simp: handle_chat_def quota Let_def intro: quota_appliedI(1) [OF quota] quota_appliedI(2))
  show "quota_applied E s st (handle_whisper E s target body st)"
    using quiet by (cases "nickname (sess st s) = []"; cases b)
      (auto simp: handle_whisper_def quota send_private_from_def intro: quota_appliedI(1) [OF quota] quota_appliedI(2))
qed

lemma quota_applied_line:
  assumes "server_inv st" "decode_client_frame line = Success m" "carries_message m"
  shows "quota_applied E s st (server_step E (Line s line) st)"
proof -
  have early: "quota_applied E s st (hang_up E s (reply s answer st))" if "\<not> protocol_negotiated (sess st s)" for answer
  proof -
    have "nickname (sess st s) = []" using server_invD(4) [OF assms(1), of s] that by (auto simp: session_inv_def admitted_def)
    from untouched_hang_up [OF assms(1) this] show ?thesis by (simp add: quota_applied_def untouched_def unheard_def)
  qed
  have "quota_applied E s st (reply s answer st)" for answer by (simp add: quota_applied_def unheard_reply)
  with early quota_applied_messages show ?thesis
    using assms(2,3) by (cases m) (simp_all add: carries_message_def handle_line_def handle_message_def handle_authorised_def)
qed

lemma other_steps:
  assumes "server_inv st" "\<nexists>line m. e = Line s line \<and> decode_client_frame line = Success m \<and> carries_message m"
  shows "deques (server_step E e st) s = deques st s"
proof (cases e)
  case (Line t line)
  show ?thesis
  proof (cases "decode_client_frame line")
    case (Failure error detail)
    with Line show ?thesis by (simp add: handle_line_def Let_def)
  next
    case (Success m)
    show ?thesis
    proof (cases "carries_message m")
      case True
      with assms(2) Line Success have "t \<noteq> s" by blast
      moreover from quota_applied_line [OF assms(1) Success True, of E t] obtain st1 b where
        "deques (server_step E e st) = deques st \<or> deques (server_step E e st) = deques st1 \<and> consume_message_quota E t st = (b, st1)"
        by (auto simp: quota_applied_def Line)
      moreover have "deques st1 s = deques st s" if "consume_message_quota E t st = (b, st1)" for b st1
        using that \<open>t \<noteq> s\<close> by (auto simp: consume_message_quota_def Let_def update_session_def deques_def split: prod.splits)
      ultimately show ?thesis by metis
    next
      case False
      with Line Success show ?thesis by (simp add: handle_line_def deques_message)
    qed
  qed
next
  case (HandshakeDone t)
  then show ?thesis by (simp add: handshake_done_def deques_session)
qed (simp_all add: deques_accept [OF assms(1)] handshake_failed_def read_failed_def deques_host)

text \<open>
  The runs of a server from before the session \<open>s\<close> connects: what the steady clock reads at each step, and the times at which
  messages from the room \<open>rid\<close> were passed on.
\<close>

inductive talk :: "environment \<Rightarrow> session_id \<Rightarrow> room_id \<Rightarrow> int list \<Rightarrow> int list \<Rightarrow> chat_server \<Rightarrow> bool" for E s rid where
  silence: "reachable E st \<Longrightarrow> next_session st \<le> s \<Longrightarrow> talk E s rid [] [] st"
| event: "talk E s rid readings spoken st \<Longrightarrow> event_enabled e st \<Longrightarrow> now = steady_nanos E (calls (effects st)) \<Longrightarrow>
    talk E s rid (readings @ [now]) (spoken @ (if speaks E s rid e st then [now] else [])) (server_step E e st)"

lemma talk_reachable: "talk E s rid readings spoken st \<Longrightarrow> reachable E st"
  by (induction rule: talk.induct) (auto intro: reachable.step)

lemma quota_recorded:
  assumes "server_inv st" "ascending (map fst (deques st s))" "quota_state now allowed (deque s rid st)" "now = steady_nanos E (calls (effects st))"
  shows "ascending (map fst (deques (server_step E e st) s)) \<and>
    (\<exists>ok. (speaks E s rid e st \<longrightarrow> ok) \<and> quota_state now (allowed @ (if ok then [now] else [])) (deque s rid (server_step E e st)))"
proof (cases "\<exists>line m. e = Line s line \<and> decode_client_frame line = Success m \<and> carries_message m")
  case False
  with other_steps [OF assms(1) False, of E] assms(2,3) show ?thesis by (auto simp: deque_def speaks_def intro!: exI [of _ False])
next
  case True
  then obtain line m where line: "e = Line s line" "decode_client_frame line = Success m" "carries_message m" by blast
  from quota_applied_line [OF assms(1) line(2,3), of E s] consider
      (nothing) "deques (server_step E e st) = deques st" "unheard s st (server_step E e st)"
    | (quota) b st1 where "consume_message_quota E s st = (b, st1)" "deques (server_step E e st) = deques st1" "b \<or> unheard s st (server_step E e st)"
    unfolding quota_applied_def line(1) [symmetric] by blast
  then show ?thesis
  proof cases
    case nothing
    with assms(2,3) show ?thesis by (auto simp: deque_def speaks_def intro!: exI [of _ False])
  next
    case quota
    note d = quota_deques [OF quota(1) assms(2)]
    have same: "deque s rid (server_step E e st) = deque s rid st1" by (simp add: deque_def quota(2))
    show ?thesis
    proof (cases "rid = active_room_id (sess st s)")
      case True
      have "quota_step now (deque s rid st) = (b, deque s rid st1)" using d(1) d(2) [of rid] True assms(4) by (simp add: prod_eq_iff)
      from quota_state_step [OF assms(3) order_refl this] quota(3) d(3) quota(2) show ?thesis
        by (auto simp: same speaks_def intro!: exI [of _ b])
    next
      case False
      with d(2) [of rid] d(3) assms(3) quota(2) show ?thesis by (auto simp: same speaks_def intro!: exI [of _ False])
    qed
  qed
qed

lemma talk_quota:
  assumes "talk E s rid readings spoken st" "sorted readings"
  shows "ascending (map fst (deques st s)) \<and> (\<exists>allowed. subseq spoken allowed \<and> sorted allowed \<and> set allowed \<subseteq> set readings \<and>
    (\<forall>now. (\<forall>t \<in> set readings. t \<le> now) \<longrightarrow> quota_state now allowed (deque s rid st)))"
  using assms
proof (induction rule: talk.induct)
  case (silence st)
  have "sess st s = fresh_session" using server_invD(5) [OF reachable_inv [OF silence(1)] silence(2)] .
  then show ?case by (auto simp: deques_def deque_def fresh_session_def quota_state_def)
next
  case (event readings spoken st e now)
  have before: "\<forall>t \<in> set readings. t \<le> now" "sorted readings" using event.prems by (simp_all add: sorted_append)
  from event.IH [OF before(2)] obtain allowed where ascending: "ascending (map fst (deques st s))"
    and allowed: "subseq spoken allowed" "sorted allowed" "set allowed \<subseteq> set readings" "quota_state now allowed (deque s rid st)"
    using before(1) by blast
  from quota_recorded [OF reachable_inv [OF talk_reachable [OF event.hyps(1)]] ascending allowed(4) event.hyps(3), of e]
  obtain ok where ok: "ascending (map fst (deques (server_step E e st) s))" "speaks E s rid e st \<longrightarrow> ok"
      "quota_state now (allowed @ (if ok then [now] else [])) (deque s rid (server_step E e st))" by blast
  have "subseq (spoken @ (if speaks E s rid e st then [now] else [])) (allowed @ (if ok then [now] else []))"
    using allowed(1) ok(2) by (auto intro!: list_emb_append_mono)
  moreover have "sorted (allowed @ (if ok then [now] else []))" "set (allowed @ (if ok then [now] else [])) \<subseteq> set (readings @ [now])"
    using allowed(2,3) before(1) by (auto simp: sorted_append)
  moreover have "quota_state later (allowed @ (if ok then [now] else [])) (deque s rid (server_step E e st))"
    if "\<forall>t \<in> set (readings @ [now]). t \<le> later" for later
    using quota_state_later [OF ok(3)] that by simp
  ultimately show ?case using ok(1) by blast
qed

text \<open>
  C23: The quota holds. In every run of the server in which the steady clock does not go backwards: among the chat lines and whispers that a session has sent from one
  room and that were passed on to anyone (to the members of a room, another session, the history, the storage, the log or the screen
  of the host), at most 20 fall into any 60 seconds, both ends included.
\<close>

theorem rate_limit:
  assumes "talk E s rid readings spoken st" "sorted readings"
  shows "length (filter (\<lambda>t. begin_time \<le> t \<and> t \<le> begin_time + 60 * 1000000000) spoken) \<le> 20"
proof -
  from talk_quota [OF assms] obtain allowed where allowed: "subseq spoken allowed" "sorted allowed" "set allowed \<subseteq> set readings"
    "\<forall>now. (\<forall>t \<in> set readings. t \<le> now) \<longrightarrow> quota_state now allowed (deque s rid st)" by blast
  have "\<exists>now. \<forall>t \<in> set readings. t \<le> now"
    by (intro exI [of _ "Max (insert 0 (set readings))"]) (simp add: Max_ge)
  with allowed(4) obtain now where "quota_state now allowed (deque s rid st)" by blast
  from window_bound [OF this allowed(2), of begin_time]
  have "length (filter (\<lambda>t. begin_time \<le> t \<and> t \<le> begin_time + 60 * 1000000000) allowed) \<le> 20"
    by (simp add: RATE_LIMIT_WINDOW_NANOS_def RATE_LIMIT_MESSAGES_def)
  moreover have "length (filter (\<lambda>t. begin_time \<le> t \<and> t \<le> begin_time + 60 * 1000000000) spoken) \<le>
      length (filter (\<lambda>t. begin_time \<le> t \<and> t \<le> begin_time + 60 * 1000000000) allowed)"
    by (rule list_emb_length [OF subseq_filter [OF allowed(1)]])
  ultimately show ?thesis by linarith
qed

text \<open>Ann connects, joins the lobby and says something.\<close>

lemma calls_simps [simp]:
  "calls (deliver msg s out) = calls out" "calls (deliver_all ms msg out) = calls out" "calls (on_ui f out) = calls out"
  "calls (log_write b line out) = calls out"
proof -
  show "calls (deliver msg s out) = calls out" for msg s out by (simp add: deliver_def split: result.split)
  then show "calls (deliver_all ms msg out) = calls out" unfolding deliver_all_def by (induction ms arbitrary: out) simp_all
qed (simp_all add: on_ui_def log_write_def)

lemma calls_started: "calls (effects started) = 0"
  by (simp add: started_def new_chat_server_def load_persistent_state_def persist_room_def initial_outputs_def map_emplace_def)

lemma calls_connected: "calls (effects connected) = 0"
  using calls_started
  by (simp add: connected_def handshake_done_def update_session_def reply_def accept_def Let_def join_def)

lemma calls_negotiated: "calls (effects negotiated) = 0"
  using calls_connected
  by (simp add: negotiated_def handle_message_def handle_hello_def Let_def update_session_def reply_def connected_fields fresh_session_def)

lemma calls_identified: "calls (effects identified) = 1"
  using calls_negotiated
  by (simp add: identified_def handle_message_def has_password_def handle_authorised_def handle_identify_def
      identity_available_for_def utils_is_valid_nickname_eq ann_valid ann_key_valid is_banned_def set_count_def
      nickname_taken_def Let_def update_session_def reply_def negotiated_fields fresh_session_def demo_env_def tick_def)

lemma calls_moved: "calls (effects st) \<le> calls (effects (move_session_to_room E s rid b st))"
proof -
  have room: "calls (effects st) \<le> calls (effects (broadcast_room E rid msg nick st))" for rid msg nick st
    by (simp add: broadcast_room_def store_message_def next_message_timestamp_def store_def tick_def Let_def split: option.split)
  have users: "calls (effects (broadcast_users rid st)) = calls (effects st)" for rid st
    by (simp add: broadcast_users_def Let_def split: option.split)
  have lists: "calls (effects (broadcast_room_lists st)) = calls (effects st)" for st
    by (simp add: broadcast_room_lists_def Let_def)
  have recent: "calls (fold (\<lambda>message. deliver (RoomText n message) s) ms out) = calls out" for n ms out
    by (induction ms arbitrary: out) simp_all
  have send: "calls (send_room target s out) = calls out" for target out
    by (simp add: send_room_def deliver_text_def recent Let_def)
  show ?thesis
    by (auto simp: move_session_to_room_def users lists send set_active_room_id_def erase_member_def insert_member_def Let_def
        split: option.split intro!: order_trans [OF _ room])
qed

lemma calls_joined: "1 \<le> calls (effects joined)"
  using calls_identified
  by (simp add: joined_def handle_message_def has_password_def handle_authorised_def handle_proof_def
      is_banned_def set_count_def nickname_taken_def bind_identity_def save_identities_def Let_def update_session_def
      reply_def identified_fields started_fields fresh_session_def demo_env_def ann_key_valid ann_verifies
      challenge_not_Nil admit_to_default_room_def order_trans [OF _ calls_moved])

lemmas demo_calls = calls_started calls_connected calls_negotiated calls_identified calls_joined

lemma talk_message:
  assumes "talk E s rid readings spoken st" "reading (sess st s)" "wf_client m" "\<not> carries_message m"
  shows "talk E s rid (readings @ [steady_nanos E (calls (effects st))]) spoken (handle_message E s m st)"
proof -
  obtain line where line: "decode_client_frame line = Success m" "server_step E (Line s line) st = handle_message E s m st"
    using message_line [OF assms(3)] by blast
  then have "\<not> speaks E s rid (Line s line) st" using assms(4) by (auto simp: speaks_def)
  with talk.event [OF assms(1), of "Line s line"] line(2) assms(2) show ?thesis by simp
qed

theorem rate_limit_witness:
  "\<exists>readings t st. talk demo_env 0 1 readings [t] st \<and> sorted readings \<and> length (filter (\<lambda>x. t \<le> x \<and> x \<le> t + 60 * 1000000000) [t]) \<le> 20"
proof -
  let ?t = "\<lambda>st. steady_nanos demo_env (calls (effects st))"
  have "reachable demo_env started" unfolding started_def by (rule reachable.start)
  then have "talk demo_env 0 1 [] [] started" by (rule talk.silence) (simp add: started_fields)
  from talk.event [OF this, of Accept] have "talk demo_env 0 1 [?t started] [] (accept started)" by (simp add: speaks_def)
  moreover have "event_enabled (HandshakeDone 0) (accept started)"
    by (simp add: accept_def join_def started_fields Let_def fresh_session_def)
  ultimately have "talk demo_env 0 1 [?t started, ?t (accept started)] [] connected"
    using talk.event [of demo_env 0 1 "[?t started]" "[]" "accept started" "HandshakeDone 0"] by (simp add: connected_def speaks_def)
  from talk_message [OF this, of "Hello VERSION"] have "talk demo_env 0 1 [?t started, ?t (accept started), ?t connected] [] negotiated"
    by (simp add: negotiated_def [symmetric] connected_fields carries_message_def)
  from talk_message [OF this, of "Identify ''ann'' ann_key"]
  have "talk demo_env 0 1 [?t started, ?t (accept started), ?t connected, ?t negotiated] [] identified"
    by (simp add: identified_def [symmetric] negotiated_fields carries_message_def ann_valid ann_key_valid)
  from talk_message [OF this, of "IdentityProof ann_signature"]
  have talk: "talk demo_env 0 1 [?t started, ?t (accept started), ?t connected, ?t negotiated, ?t identified] [] joined"
    by (simp add: joined_def [symmetric] identified_fields carries_message_def ann_signature_valid)
  have hi: "is_valid_chat_message ''hi''" by code_simp
  then have "wf_client (Chat ''hi'')" by (simp add: is_valid_chat_message_def is_valid_text_def protocol_limits ctype_defs byte_def)
  then obtain line where line: "decode_client_frame line = Success (Chat ''hi'')"
    "server_step demo_env (Line 0 line) joined = handle_message demo_env 0 (Chat ''hi'') joined"
    using message_line [of "Chat ''hi''" demo_env 0 joined] by blast
  have "rooms (handle_message demo_env 0 (Chat ''hi'') joined) \<noteq> rooms joined"
    using hi by (simp add: handle_message_def handle_authorised_def handle_chat_def has_password_def consume_message_quota_def quota_step_def
        joined_fields RATE_LIMIT_MESSAGES_def Let_def update_session_def push_bounded_def map_modify_def)
  then have "speaks demo_env 0 1 (Line 0 line) joined" using line by (auto simp: speaks_def carries_message_def unheard_def joined_fields)
  with talk.event [OF talk, of "Line 0 line"] have
    run: "talk demo_env 0 1 [?t started, ?t (accept started), ?t connected, ?t negotiated, ?t identified, ?t joined] [?t joined]
      (server_step demo_env (Line 0 line) joined)" by (simp add: joined_fields)
  have "calls (effects (accept started)) = 0" using demo_calls(1) by (simp add: accept_def join_def Let_def)
  then have sorted: "sorted [?t started, ?t (accept started), ?t connected, ?t negotiated, ?t identified, ?t joined]"
    using demo_calls by (simp add: demo_env_def)
  from rate_limit [OF run sorted, of "?t joined"] run sorted show ?thesis by blast
qed

end
