(* ===== verification/Membership_Threads.thy ===== *)
theory Membership_Threads
  imports Server_Example
begin

text \<open>
  The membership of the rooms under the two threads of a server, the network thread (\<open>io.run()\<close>) and the thread of the host's console or
  chat screen. The other theories take each method of \<open>ChatServer\<close> as one step. Here \<open>disconnect\<close> and \<open>move_session_to_room\<close> of
  \<open>chat/chat_server.h\<close>, the two methods that change which session is listed in which room and which room is active for a session, are
  taken apart into their accesses to shared memory: the blocks under \<open>sessions_mutex_\<close> and \<open>rooms_mutex_\<close>, and the loads and stores of the
  atomic \<open>active_room_id_\<close>, which are not under a mutex in \<open>disconnect\<close>. The steps of the two threads are interleaved in every way the mutex
  allows, with everything else the server does in between.
\<close>

section \<open>The two methods, access by access\<close>

text \<open>Where a thread is: outside the two methods, or before one of their accesses to shared memory.\<close>

datatype thread_at = Outside
  | Disconnect_start session_id
  | Disconnect_load session_id
  | Disconnect_clear session_id room_id
  | Disconnect_leave session_id room_id
  | Move_load session_id room_id
  | Move_swap session_id room_id room_id
  | Move_store session_id room_id

text \<open>
  \<open>disconnect\<close>: the session leaves \<open>sessions_\<close>; the active room is loaded; it is set to 0, and the method returns if it was 0; the session is
  erased from the room that was loaded.
\<close>

fun disconnect_step :: "thread_at \<Rightarrow> chat_server \<Rightarrow> chat_server \<times> thread_at" where
  "disconnect_step (Disconnect_start s) st = (st\<lparr>sessions := set_erase s (sessions st)\<rparr>, Disconnect_load s)"
| "disconnect_step (Disconnect_load s) st = (st, Disconnect_clear s (active_room_id (sess st s)))"
| "disconnect_step (Disconnect_clear s old) st =
     (set_active_room_id s 0 st, if old = 0 then Outside else Disconnect_leave s old)"
| "disconnect_step (Disconnect_leave s old) st = (erase_member old s st, Outside)"
| "disconnect_step at st = (st, at)"

text \<open>
  \<open>move_session_to_room\<close>: the active room is loaded; under \<open>rooms_mutex_\<close> the session changes the rooms, if the target exists, and its active room
  is stored. The store is a step of its own: \<open>disconnect\<close> loads and stores the active room without the mutex.
\<close>

fun move_step :: "thread_at \<Rightarrow> chat_server \<Rightarrow> chat_server \<times> thread_at" where
  "move_step (Move_load s target) st = (st, Move_swap s (active_room_id (sess st s)) target)"
| "move_step (Move_swap s old target) st =
     (if map_find (rooms st) target = None then (st, Outside)
      else (insert_member target s (erase_member old s st), Move_store s target))"
| "move_step (Move_store s target) st = (set_active_room_id s target st, Outside)"
| "move_step at st = (st, at)"

definition advance :: "thread_at \<Rightarrow> chat_server \<Rightarrow> chat_server \<times> thread_at" where
  "advance at st = (case at of
     Move_load _ _ \<Rightarrow> move_step at st | Move_swap _ _ _ \<Rightarrow> move_step at st | Move_store _ _ \<Rightarrow> move_step at st
   | _ \<Rightarrow> disconnect_step at st)"

lemma advance_simps [simp]:
  "advance Outside st = (st, Outside)"
  "advance (Disconnect_start s) st = disconnect_step (Disconnect_start s) st"
  "advance (Disconnect_load s) st = disconnect_step (Disconnect_load s) st"
  "advance (Disconnect_clear s old) st = disconnect_step (Disconnect_clear s old) st"
  "advance (Disconnect_leave s old) st = disconnect_step (Disconnect_leave s old) st"
  "advance (Move_load s target) st = move_step (Move_load s target) st"
  "advance (Move_swap s old target) st = move_step (Move_swap s old target) st"
  "advance (Move_store s target) st = move_step (Move_store s target) st"
  by (simp_all add: advance_def)

fun works_on :: "thread_at \<Rightarrow> session_id option" where
  "works_on Outside = None"
| "works_on (Disconnect_start s) = Some s"
| "works_on (Disconnect_load s) = Some s"
| "works_on (Disconnect_clear s old) = Some s"
| "works_on (Disconnect_leave s old) = Some s"
| "works_on (Move_load s target) = Some s"
| "works_on (Move_swap s old target) = Some s"
| "works_on (Move_store s target) = Some s"

text \<open>Between its two steps under \<open>rooms_mutex_\<close> a move holds it; three of the steps have to take it.\<close>

definition holds_rooms_mutex :: "thread_at \<Rightarrow> bool" where
  "holds_rooms_mutex at = (case at of Move_store _ _ \<Rightarrow> True | _ \<Rightarrow> False)"

definition takes_rooms_mutex :: "thread_at \<Rightarrow> bool" where
  "takes_rooms_mutex at = (case at of Disconnect_leave _ _ \<Rightarrow> True | Move_swap _ _ _ \<Rightarrow> True | _ \<Rightarrow> False)"

section \<open>The threads\<close>

record threads =
  shared :: chat_server
  net_at :: thread_at
  host_at :: thread_at
  was_stopped :: bool
  raced :: "session_id set"

text \<open>
  \<open>raced\<close> is not a part of the program: it collects the sessions on which both threads have been inside the two methods at the same time.

  The network thread calls both methods, for any session and for the rooms the server has given out; the thread of the host calls \<open>disconnect\<close>, from \<open>kick_user_in_room\<close> for a session it has
  found in a room and from \<open>ban_user\<close> for one it has found among the sessions. All else that either thread does leaves the members and
  the active rooms as they are; \<open>stop\<close> clears the members, on the network thread.
\<close>

datatype thread_turn = Net_disconnects session_id | Net_moves session_id room_id
  | Host_kicks room_id session_id | Host_bans session_id
  | Net_turn | Host_turn | Elsewhere chat_server | Stops

definition note_race :: "threads \<Rightarrow> threads" where
  "note_race c = (case works_on (net_at c) of
     Some s \<Rightarrow> if works_on (host_at c) = Some s then c\<lparr>raced := insert s (raced c)\<rparr> else c
   | None \<Rightarrow> c)"

fun take_turn :: "thread_turn \<Rightarrow> threads \<Rightarrow> threads" where
  "take_turn (Net_disconnects s) c = note_race (c\<lparr>net_at := Disconnect_start s\<rparr>)"
| "take_turn (Net_moves s target) c = note_race (c\<lparr>net_at := Move_load s target\<rparr>)"
| "take_turn (Host_kicks rid s) c = note_race (c\<lparr>host_at := Disconnect_start s\<rparr>)"
| "take_turn (Host_bans s) c = note_race (c\<lparr>host_at := Disconnect_start s\<rparr>)"
| "take_turn Net_turn c = (let (st, at) = advance (net_at c) (shared c) in note_race (c\<lparr>shared := st, net_at := at\<rparr>))"
| "take_turn Host_turn c = (let (st, at) = advance (host_at c) (shared c) in note_race (c\<lparr>shared := st, host_at := at\<rparr>))"
| "take_turn (Elsewhere st) c = c\<lparr>shared := st\<rparr>"
| "take_turn Stops c = c\<lparr>shared := stop (shared c), was_stopped := True\<rparr>"

definition same_membership :: "chat_server \<Rightarrow> chat_server \<Rightarrow> bool" where
  "same_membership st st' \<longleftrightarrow> (\<forall>rid s. is_member rid s st' = is_member rid s st) \<and>
     (\<forall>s. active_room_id (sess st' s) = active_room_id (sess st s))"

fun turn_enabled :: "thread_turn \<Rightarrow> threads \<Rightarrow> bool" where
  "turn_enabled (Net_disconnects s) c \<longleftrightarrow> net_at c = Outside"
| "turn_enabled (Net_moves s target) c \<longleftrightarrow> net_at c = Outside \<and> target \<noteq> 0"
| "turn_enabled (Host_kicks rid s) c \<longleftrightarrow> host_at c = Outside \<and> is_member rid s (shared c) \<and> \<not> holds_rooms_mutex (net_at c)"
| "turn_enabled (Host_bans s) c \<longleftrightarrow> host_at c = Outside \<and> s \<in> set (sessions (shared c))"
| "turn_enabled Net_turn c \<longleftrightarrow> takes_rooms_mutex (net_at c) \<longrightarrow> \<not> holds_rooms_mutex (host_at c)"
| "turn_enabled Host_turn c \<longleftrightarrow> takes_rooms_mutex (host_at c) \<longrightarrow> \<not> holds_rooms_mutex (net_at c)"
| "turn_enabled (Elsewhere st) c \<longleftrightarrow> same_membership (shared c) st"
| "turn_enabled Stops c \<longleftrightarrow> net_at c = Outside \<and> \<not> holds_rooms_mutex (host_at c)"

definition launch_threads :: "chat_server \<Rightarrow> threads" where
  "launch_threads st = \<lparr>shared = st, net_at = Outside, host_at = Outside, was_stopped = False, raced = {}\<rparr>"

section \<open>One thread on its own\<close>

text \<open>
  A thread that is not disturbed leaves the same members and active rooms as the one step of the other theories.
\<close>

primrec undisturbed :: "nat \<Rightarrow> chat_server \<times> thread_at \<Rightarrow> chat_server \<times> thread_at" where
  "undisturbed 0 c = c"
| "undisturbed (Suc n) c = (if snd c = Outside then c else undisturbed n (advance (snd c) (fst c)))"

lemma is_member_simps [simp]:
  "is_member rid s (effects_update g st) = is_member rid s st"
  "is_member rid s (sessions_update p st) = is_member rid s st"
  "is_member rid s (set_active_room_id t n st) = is_member rid s st"
  "is_member rid s (erase_member old t st) \<longleftrightarrow> is_member rid s st \<and> \<not> (rid = old \<and> s = t)"
  "is_member rid s (insert_member target t st) \<longleftrightarrow> is_member rid s st \<or> rid = target \<and> s = t \<and> map_find (rooms st) target \<noteq> None"
  "is_member rid s (broadcast_room E n msg nick st) = is_member rid s st"
  "is_member rid s (broadcast_users n st) = is_member rid s st"
  "is_member rid s (broadcast_room_lists st) = is_member rid s st"
  "\<not> is_member rid s (stop st)"
proof -
  show room: "is_member rid s (broadcast_room E n msg nick st) = is_member rid s st" for n msg nick st
    by (auto simp: is_member_def broadcast_room_def Let_def split: option.split)
  show "is_member rid s (broadcast_users n st) = is_member rid s st" "is_member rid s (broadcast_room_lists st) = is_member rid s st"
    using broadcast_users_effects [of n st] broadcast_room_lists_effects [of st] by (auto simp: is_member_def)
  have cleared: "map_find (map (\<lambda>(rid, room). (rid, room\<lparr>rm_members := []\<rparr>)) rms) rid = map_option (\<lambda>r. r\<lparr>rm_members := []\<rparr>) (map_find rms rid)"
    for rms :: "(room_id \<times> room) list" by (induction rms) auto
  show "\<not> is_member rid s (stop st)"
    by (auto simp: is_member_def stop_def Let_def cleared set_count_def split: option.split)
qed (auto simp: is_member_def set_active_room_id_def erase_member_def insert_member_def set_count_def split: option.split)

lemma active_simps [simp]:
  "active_room_id (sess (set_active_room_id t n st) s) = (if s = t then n else active_room_id (sess st s))"
  "active_room_id (sess (erase_member old t st) s) = active_room_id (sess st s)"
  "active_room_id (sess (insert_member target t st) s) = active_room_id (sess st s)"
  "active_room_id (sess (stop st) s) = active_room_id (sess st s)"
  by (simp_all add: set_active_room_id_def erase_member_def insert_member_def stop_def Let_def)

lemma disconnect_undisturbed:
  "\<exists>st'. undisturbed 4 (st, Disconnect_start s) = (st', Outside) \<and> same_membership (disconnect E s announce st) st' \<and>
     sessions st' = sessions (disconnect E s announce st)"
  by (simp add: eval_nat_numeral disconnect_def same_membership_def Let_def set_active_room_id_def erase_member_def)

lemma move_undisturbed:
  "\<exists>st'. undisturbed 3 (st, Move_load s target) = (st', Outside) \<and> same_membership (move_session_to_room E s target b st) st' \<and>
     sessions st' = sessions (move_session_to_room E s target b st)"
  by (auto simp: eval_nat_numeral move_session_to_room_def same_membership_def Let_def set_active_room_id_def erase_member_def insert_member_def split: option.split)

section \<open>The invariant\<close>

text \<open>A session is listed in its active room only; unless the server was stopped, it is listed there.\<close>

definition listed_in :: "room_id \<Rightarrow> bool \<Rightarrow> chat_server \<Rightarrow> session_id \<Rightarrow> bool" where
  "listed_in rid ended st s \<longleftrightarrow> (\<forall>n. is_member n s st \<longrightarrow> n = rid \<and> rid \<noteq> 0) \<and> (\<not> ended \<and> rid \<noteq> 0 \<longrightarrow> is_member rid s st)"

definition listed_active :: "bool \<Rightarrow> chat_server \<Rightarrow> session_id \<Rightarrow> bool" where
  "listed_active ended st s \<longleftrightarrow> listed_in (active_room_id (sess st s)) ended st s"

fun underway :: "thread_at \<Rightarrow> bool \<Rightarrow> chat_server \<Rightarrow> bool" where
  "underway (Disconnect_clear s old) ended st \<longleftrightarrow> active_room_id (sess st s) = old \<and> listed_in old ended st s"
| "underway (Disconnect_leave s old) ended st \<longleftrightarrow> active_room_id (sess st s) = 0 \<and> listed_in old ended st s"
| "underway (Move_load s target) ended st \<longleftrightarrow> target \<noteq> 0 \<and> listed_active ended st s"
| "underway (Move_swap s old target) ended st \<longleftrightarrow> target \<noteq> 0 \<and> active_room_id (sess st s) = old \<and> listed_in old ended st s"
| "underway (Move_store s target) ended st \<longleftrightarrow> target \<noteq> 0 \<and> listed_in target ended st s"
| "underway (Disconnect_start s) ended st \<longleftrightarrow> listed_active ended st s"
| "underway (Disconnect_load s) ended st \<longleftrightarrow> listed_active ended st s"
| "underway Outside ended st \<longleftrightarrow> True"

definition session_ok :: "bool \<Rightarrow> chat_server \<Rightarrow> thread_at \<Rightarrow> thread_at \<Rightarrow> session_id \<Rightarrow> bool" where
  "session_ok ended st at other s \<longleftrightarrow> \<not> (works_on at = Some s \<and> works_on other = Some s) \<and>
     (works_on at = Some s \<longrightarrow> underway at ended st) \<and> (works_on other = Some s \<longrightarrow> underway other ended st) \<and>
     (works_on at \<noteq> Some s \<longrightarrow> works_on other \<noteq> Some s \<longrightarrow> listed_active ended st s)"

definition threads_inv :: "threads \<Rightarrow> bool" where
  "threads_inv c \<longleftrightarrow> (\<forall>s. s \<notin> raced c \<longrightarrow> session_ok (was_stopped c) (shared c) (net_at c) (host_at c) s)"

lemma session_ok_swap: "session_ok ended st at other s = session_ok ended st other at s"
  by (auto simp: session_ok_def)

lemma listed_in_sessions [simp]: "listed_in rid ended (sessions_update p st) s = listed_in rid ended st s"
  by (simp add: listed_in_def)

lemma listed_in_store [simp]: "listed_in rid ended (set_active_room_id t n st) s = listed_in rid ended st s"
  by (simp add: listed_in_def)

lemma listed_in_moved:
  assumes "listed_in old ended st s" "map_find (rooms st) target \<noteq> None" "target \<noteq> 0"
  shows "listed_in target ended (insert_member target s (erase_member old s st)) s"
proof -
  have "map_find (rooms (erase_member old s st)) target \<noteq> None" using assms(2) by (auto simp: erase_member_def)
  with assms show ?thesis unfolding listed_in_def by auto
qed

text \<open>What a step does to the session its thread works on, and to the others.\<close>

lemma advance_own:
  assumes "advance at st = (st', at')" "works_on at = Some s" "underway at ended st"
  shows "if works_on at' = Some s then underway at' ended st' else listed_active ended st' s"
proof (cases at)
  case (Move_swap s' old target)
  with assms show ?thesis by (cases "map_find (rooms st) target = None") (auto simp: listed_active_def dest: listed_in_moved)
next
  case (Disconnect_leave s' old)
  have "listed_in 0 ended (erase_member old s st) s" if "listed_in old ended st s" using that unfolding listed_in_def by auto
  with Disconnect_leave assms show ?thesis by (auto simp: listed_active_def)
next
  case (Disconnect_clear s' old)
  with assms show ?thesis by (cases "old = 0") (auto simp: listed_active_def)
qed (use assms in \<open>auto simp: listed_active_def\<close>)

lemma advance_other:
  assumes "advance at st = (st', at')" "works_on at \<noteq> Some s"
  shows "is_member rid s st' = is_member rid s st" "active_room_id (sess st' s) = active_room_id (sess st s)"
  using assms by (cases at; auto split: if_splits)+

lemma advance_works: "advance at st = (st', at') \<Longrightarrow> works_on at' = works_on at \<or> at' = Outside"
  by (cases at) (auto split: if_splits)

lemma underway_cong:
  assumes "\<And>rid. is_member rid s st' = is_member rid s st" "active_room_id (sess st' s) = active_room_id (sess st s)"
    and "works_on at = Some s"
  shows "underway at ended st' = underway at ended st"
  using assms by (cases at) (auto simp: listed_active_def listed_in_def)

lemma listed_active_cong:
  assumes "\<And>rid. is_member rid s st' = is_member rid s st" "active_room_id (sess st' s) = active_room_id (sess st s)"
  shows "listed_active ended st' s = listed_active ended st s"
  using assms by (simp add: listed_active_def listed_in_def)

lemma advance_inv:
  assumes step: "advance at st = (st', at')" and ok: "session_ok ended st at other s"
  shows "session_ok ended st' at' other s"
proof (cases "works_on at = Some s")
  case True
  with advance_own [OF step True] advance_works [OF step] ok show ?thesis by (auto simp: session_ok_def split: if_splits)
next
  case False
  note same = advance_other [OF step False]
  have "works_on at' \<noteq> Some s" using advance_works [OF step] False by auto
  with False ok listed_active_cong [OF same] underway_cong [OF same, of other] show ?thesis by (auto simp: session_ok_def)
qed

lemma threads_inv_note_race:
  assumes "\<And>s. s \<notin> raced c \<Longrightarrow> \<not> (works_on (net_at c) = Some s \<and> works_on (host_at c) = Some s) \<Longrightarrow>
     session_ok (was_stopped c) (shared c) (net_at c) (host_at c) s"
  shows "threads_inv (note_race c)"
  using assms unfolding threads_inv_def by (cases "works_on (net_at c)") (auto simp: note_race_def)

lemma threads_inv_note_race_host:
  assumes "\<And>s. s \<notin> raced c \<Longrightarrow> \<not> (works_on (net_at c) = Some s \<and> works_on (host_at c) = Some s) \<Longrightarrow>
     session_ok (was_stopped c) (shared c) (host_at c) (net_at c) s"
  shows "threads_inv (note_race c)"
  by (rule threads_inv_note_race) (subst session_ok_swap, use assms in blast)

lemma stop_underway:
  assumes "works_on at = Some s" "\<not> holds_rooms_mutex at" "underway at ended st"
  shows "underway at True (stop st)"
  using assms by (cases at) (simp_all add: listed_active_def listed_in_def holds_rooms_mutex_def)

lemma start_inv:
  assumes "session_ok ended st Outside other s" "\<not> (works_on at = Some s \<and> works_on other = Some s)"
    and "works_on at = Some s \<Longrightarrow> listed_active ended st s \<Longrightarrow> underway at ended st"
  shows "session_ok ended st at other s"
  using assms by (cases "works_on at = Some s") (simp_all add: session_ok_def)

lemma elsewhere_inv:
  assumes "threads_inv c" "same_membership (shared c) st"
  shows "threads_inv (c\<lparr>shared := st\<rparr>)"
proof -
  have same: "is_member rid s st = is_member rid s (shared c)"
    "active_room_id (sess st s) = active_room_id (sess (shared c) s)" for rid s
    using assms(2) by (simp_all add: same_membership_def)
  have "session_ok (was_stopped c) st (net_at c) (host_at c) s" if "s \<notin> raced c" for s
    using assms(1) that listed_active_cong [OF same] underway_cong [OF same] unfolding threads_inv_def session_ok_def by blast
  then show ?thesis by (simp add: threads_inv_def)
qed

lemma stops_inv:
  assumes "threads_inv c" "net_at c = Outside" "\<not> holds_rooms_mutex (host_at c)"
  shows "threads_inv (c\<lparr>shared := stop (shared c), was_stopped := True\<rparr>)"
proof -
  have "listed_active True (stop (shared c)) s" for s by (simp add: listed_active_def listed_in_def)
  moreover have "underway (host_at c) True (stop (shared c))" if "works_on (host_at c) = Some s" "s \<notin> raced c" for s
  proof -
    have "underway (host_at c) (was_stopped c) (shared c)" using assms(1) that unfolding threads_inv_def session_ok_def by blast
    then show ?thesis by (rule stop_underway [OF that(1) assms(3)])
  qed
  ultimately show ?thesis using assms(2) by (simp add: threads_inv_def session_ok_def)
qed

lemma threads_inv_turn:
  assumes inv: "threads_inv c" and "turn_enabled t c"
  shows "threads_inv (take_turn t c)"
proof -
  have ok: "session_ok (was_stopped c) (shared c) (net_at c) (host_at c) s" if "s \<notin> raced c" for s
    using inv that by (simp add: threads_inv_def)
  then have ok': "session_ok (was_stopped c) (shared c) (host_at c) (net_at c) s" if "s \<notin> raced c" for s
    using that session_ok_swap by blast
  show ?thesis
  proof (cases t)
    case Net_turn
    obtain st at where step: "advance (net_at c) (shared c) = (st, at)" by fastforce
    then show ?thesis using Net_turn ok advance_inv [OF step] by (auto intro!: threads_inv_note_race)
  next
    case Host_turn
    obtain st at where step: "advance (host_at c) (shared c) = (st, at)" by fastforce
    then show ?thesis using Host_turn ok' advance_inv [OF step] by (auto intro!: threads_inv_note_race_host)
  next
    case (Elsewhere st)
    with elsewhere_inv assms show ?thesis by simp
  next
    case Stops
    with stops_inv assms show ?thesis by simp
  next
    case (Net_disconnects s)
    have "threads_inv (note_race (c\<lparr>net_at := Disconnect_start s\<rparr>))"
      by (rule threads_inv_note_race, simp, rule start_inv) (use ok assms(2) Net_disconnects in auto)
    with Net_disconnects show ?thesis by simp
  next
    case (Net_moves s target)
    have "threads_inv (note_race (c\<lparr>net_at := Move_load s target\<rparr>))"
      by (rule threads_inv_note_race, simp, rule start_inv) (use ok assms(2) Net_moves in auto)
    with Net_moves show ?thesis by simp
  next
    case (Host_kicks rid s)
    have "threads_inv (note_race (c\<lparr>host_at := Disconnect_start s\<rparr>))"
      by (rule threads_inv_note_race_host, simp, rule start_inv) (use ok' assms(2) Host_kicks in auto)
    with Host_kicks show ?thesis by simp
  next
    case (Host_bans s)
    have "threads_inv (note_race (c\<lparr>host_at := Disconnect_start s\<rparr>))"
      by (rule threads_inv_note_race_host, simp, rule start_inv) (use ok' assms(2) Host_bans in auto)
    with Host_bans show ?thesis by simp
  qed
qed

interpretation membership: invariant_machine take_turn threads_inv turn_enabled
  by unfold_locales (rule threads_inv_turn)

text \<open>A server starts without members.\<close>

definition vacant :: "chat_server \<Rightarrow> bool" where
  "vacant st \<longleftrightarrow> (\<forall>(rid, r) \<in> set (rooms st). rm_members r = []) \<and> (\<forall>s. active_room_id (sess st s) = 0)"

lemma vacant_emplace:
  "vacant st \<Longrightarrow> rm_members r = [] \<Longrightarrow> vacant (st\<lparr>rooms := map_emplace rid r (rooms st)\<rparr>)"
  by (auto simp: vacant_def map_emplace_def set_assign_new split: if_splits)

lemma vacant_frame [simp]:
  "vacant (next_room_id_update f st) = vacant st" "vacant (identities_update g st) = vacant st" "vacant (banned_nicks_update h st) = vacant st"
  "vacant (effects_update e st) = vacant st"
  by (simp_all add: vacant_def)

lemma new_server_vacant: "vacant (new_chat_server E pw log local_nick stored limit)"
proof -
  have load: "vacant (load_room P r st)" if "vacant st" for P r st
  proof -
    have "vacant (st\<lparr>next_room_id := n, rooms := map_emplace k q (rooms st)\<rparr>)" if "rm_members q = []" for k q n
      using vacant_emplace [of "st\<lparr>next_room_id := n\<rparr>", OF _ that] \<open>vacant st\<close> by simp
    then show ?thesis by (simp add: load_room_def Let_def)
  qed
  have loads: "vacant (fold (load_room P) rs st)" if "vacant st" for P rs st
    using that by (induction rs arbitrary: st) (simp_all add: load)
  have persist: "vacant (persist_room E k st) = vacant st" for k st
    using persist_room_effects [of E k st] by auto
  have start: "vacant (load_persistent_state E P st)" if "vacant st" for P st
    using that by (simp add: load_persistent_state_def Let_def persist vacant_emplace loads)
  show ?thesis unfolding new_chat_server_def Let_def by (rule start) (simp add: vacant_def fresh_session_def)
qed

lemma vacant_launch: "vacant st \<Longrightarrow> threads_inv (launch_threads st)"
proof -
  assume "vacant st"
  then have "\<not> is_member rid s st" "active_room_id (sess st s) = 0" for rid s
    by (auto simp: vacant_def is_member_def set_count_def split: option.split dest!: map_of_SomeD)
  then show ?thesis by (simp add: threads_inv_def launch_threads_def session_ok_def listed_active_def listed_in_def)
qed

section \<open>What holds, and what does not\<close>

text \<open>
  C16: In every interleaving of the network thread and the thread of the host, from the start of a server, fresh or with stored rooms: take a
  session on which the two threads have never been inside \<open>disconnect\<close> and \<open>move_session_to_room\<close> at the same time. Whenever neither
  is inside them for it, it is listed in no room but its active one, and it is listed there, unless it has none or the server was stopped.
\<close>

theorem membership_exact:
  assumes "membership.run (launch_threads (new_chat_server E pw log local_nick stored limit)) c"
    and "s \<notin> raced c" "works_on (net_at c) \<noteq> Some s" "works_on (host_at c) \<noteq> Some s"
  shows "(\<forall>rid. is_member rid s (shared c) \<longrightarrow> rid = active_room_id (sess (shared c) s) \<and> rid \<noteq> 0) \<and>
    (\<not> was_stopped c \<and> active_room_id (sess (shared c) s) \<noteq> 0 \<longrightarrow> is_member (active_room_id (sess (shared c) s)) s (shared c))"
proof -
  have "threads_inv c" by (rule membership.run_inv [OF assms(1) vacant_launch [OF new_server_vacant]])
  then have "listed_active (was_stopped c) (shared c) s" using assms(2-4) by (simp add: threads_inv_def session_ok_def)
  then show ?thesis unfolding listed_active_def listed_in_def by metis
qed

text \<open>The session 0 connects and joins the lobby; the room 2 is there too.\<close>

definition joining :: "thread_turn list" where
  "joining = [Elsewhere (add_room ''dev'' ''ann'' (join 0 started)), Net_moves 0 1, Net_turn, Net_turn, Net_turn]"

definition in_lobby :: threads where
  "in_lobby = fold take_turn joining (launch_threads started)"

lemma new_room_membership: "same_membership started (add_room ''dev'' ''ann'' (join 0 started))"
  by (simp add: same_membership_def is_member_def add_room_def join_def Let_def started_fields map_emplace_def set_count_def)

lemmas turn_simps = note_race_def launch_threads_def holds_rooms_mutex_def takes_rooms_mutex_def

lemma joining_possible: "membership.possible joining (launch_threads started)"
  using new_room_membership by (simp add: joining_def turn_simps)

lemma opened:
  "map_find (rooms (add_room ''dev'' ''ann'' (join 0 started))) 1 \<noteq> None"
  "map_find (rooms (add_room ''dev'' ''ann'' (join 0 started))) 2 \<noteq> None"
  "active_room_id (sess (add_room ''dev'' ''ann'' (join 0 started)) 0) = 0"
  by (simp_all add: add_room_def join_def Let_def started_fields map_emplace_def fresh_session_def)

lemma in_lobby_fields:
  "net_at in_lobby = Outside" "host_at in_lobby = Outside" "raced in_lobby = {}" "\<not> was_stopped in_lobby"
  "shared in_lobby = set_active_room_id 0 1 (insert_member 1 0 (erase_member 0 0 (add_room ''dev'' ''ann'' (join 0 started))))"
proof -
  obtain lobby where "map_find (rooms (add_room ''dev'' ''ann'' (join 0 started))) 1 = Some lobby" using opened(1) by blast
  with opened(3) show "net_at in_lobby = Outside" "host_at in_lobby = Outside" "raced in_lobby = {}" "\<not> was_stopped in_lobby"
    "shared in_lobby = set_active_room_id 0 1 (insert_member 1 0 (erase_member 0 0 (add_room ''dev'' ''ann'' (join 0 started))))"
    by (simp_all add: in_lobby_def joining_def turn_simps)
qed

lemma reached_lobby: "membership.run (launch_threads started) in_lobby"
  unfolding in_lobby_def by (rule membership.possible_run [OF membership.run.start joining_possible])

theorem membership_exact_witness:
  "membership.run (launch_threads (new_chat_server demo_env [] False [] None 100)) in_lobby \<and>
   active_room_id (sess (shared in_lobby) 0) = 1 \<and> is_member 1 0 (shared in_lobby) \<and> \<not> is_member 2 0 (shared in_lobby)"
proof -
  have run: "membership.run (launch_threads (new_chat_server demo_env [] False [] None 100)) in_lobby"
    using reached_lobby by (simp add: started_def)
  have active: "active_room_id (sess (shared in_lobby) 0) = 1" by (simp add: in_lobby_fields)
  with membership_exact [OF run, of 0] run show ?thesis by (auto simp: in_lobby_fields(1-4))
qed

text \<open>
  The exception is real. The host kicks the session 0 while it moves to the room 2: between the load of the active room and the store of 0 in the host's
  \<open>disconnect\<close>, the network thread completes the move. Then the session is erased from the room it has left: it stays listed in the room 2, with no
  active room and gone from \<open>sessions_\<close>, and every later \<open>disconnect\<close> of it returns early and leaves it there.
\<close>

definition kicked_while_moving :: "thread_turn list" where
  "kicked_while_moving = [Host_kicks 1 0, Host_turn, Host_turn, Net_moves 0 2, Net_turn, Net_turn, Net_turn, Host_turn, Host_turn]"

theorem kicked_member_stays:
  "\<exists>c. membership.run (launch_threads started) c \<and> net_at c = Outside \<and> host_at c = Outside \<and> \<not> was_stopped c \<and>
     0 \<notin> set (sessions (shared c)) \<and> active_room_id (sess (shared c) 0) = 0 \<and> is_member 2 0 (shared c) \<and>
     (\<forall>E announce. is_member 2 0 (disconnect E 0 announce (shared c)))"
proof -
  obtain dev where rooms: "map_find (rooms (shared in_lobby)) 2 = Some dev" using opened(2)
    by (auto simp: in_lobby_fields set_active_room_id_def insert_member_def erase_member_def)
  then have dev: "map_find (rooms (erase_member 1 0 (shared in_lobby\<lparr>sessions := set_erase 0 (sessions (shared in_lobby))\<rparr>))) 2 = Some dev"
    by (simp add: erase_member_def)
  have "map_find (rooms (erase_member 0 0 (add_room ''dev'' ''ann'' (join 0 started)))) 1 \<noteq> None"
    using opened(1) by (simp add: erase_member_def)
  then have lobby: "is_member 1 0 (shared in_lobby)" "active_room_id (sess (shared in_lobby) 0) = 1" by (simp_all add: in_lobby_fields)
  have possible: "membership.possible kicked_while_moving in_lobby"
    using rooms dev lobby in_lobby_fields(1-4) by (simp add: kicked_while_moving_def turn_simps)
  let ?c = "fold take_turn kicked_while_moving in_lobby"
  have "membership.run (launch_threads started) ?c" by (rule membership.possible_run [OF reached_lobby possible])
  moreover have end_state: "net_at ?c = Outside" "host_at ?c = Outside" "\<not> was_stopped ?c" "0 \<notin> set (sessions (shared ?c))"
     "active_room_id (sess (shared ?c) 0) = 0" "is_member 2 0 (shared ?c)"
    using rooms dev lobby in_lobby_fields(1-4)
    by (simp_all add: kicked_while_moving_def turn_simps)
  moreover from end_state have "is_member 2 0 (disconnect E 0 announce (shared ?c))" for E announce
    by (simp add: disconnect_def Let_def)
  ultimately show ?thesis by blast
qed

end
