(* ===== verification/Spec2Isabelle.thy ===== *)
theory Spec2Isabelle
  imports Login Setup_Screens Network_Task App_Targets Host_Session Upnp_Mapper Chat_Log Message_Quota Membership_Threads
begin

text \<open>
  \<^bold>\<open>Chatbox.\<close> A chat server with rooms, its client, a directory of published servers and the
  terminal programs around them, written in C++20 over Boost.Asio, OpenSSL, libsodium and
  SQLite. All paths below are relative to \<open>src/src/\<close>.

  \<^bold>\<open>How the program works.\<close> A client connects, over TLS if it is told so, and decides whether it
  trusts the certificate (\<open>network/tls.cpp\<close>). Both sides then exchange lines: a frame is a
  message of \<open>protocol/protocol.h\<close> printed with vertical bars between its fields, encoded in
  Base64 and ended by a newline. A \<open>ClientSession\<close> of the server takes a client through
  handshake, password, nickname and identity proof, and then executes its requests on the
  \<open>ChatServer\<close>, which keeps sessions, rooms, bans and bound identities, sends messages to the
  members of a room and asks its storage to keep them. The host of a server, or the
  administrator of a dedicated one, works on the same object from a prompt. Servers announce
  themselves to a directory that clients can list.

  \<^bold>\<open>How it is modelled.\<close> A class is a record of its fields, a method a function from the state
  before to the state after, with the value it returns; errors are values. \<open>std::map\<close> and
  \<open>std::set\<close> are sorted lists (\<open>Ordered_Containers\<close>), \<open>std::string\<close> is \<open>string\<close> with one
  character per byte, identifiers and blocks of bits are words of their width. Handlers that
  Asio runs, and calls from other threads that take a lock, are atomic steps; what matters of
  concurrency is the order of the steps, and every theorem about runs quantifies over it. This includes methods that
  take several locks one after the other or write to the storage after they have released one, such as
  \<open>set_topic_for_room\<close>, whose change in memory and request to the storage are one step here: two topics set at the
  same time by the host and by the owner of a room can be stored in the other order. Where the finer order matters for which
  session is listed in which room, \<open>Membership_Threads\<close> takes \<open>disconnect\<close> and \<open>move_session_to_room\<close> apart. What
  is not code of this repository is an argument: the clocks (a function from a counter of the
  calls), libsodium (record \<open>sodium\<close> with the predicates \<open>hex_laws\<close>, \<open>keypair_laws\<close>,
  \<open>signature_laws\<close>, \<open>random_laws\<close>), OpenSSL's view of a peer (record \<open>tls_peer\<close>), the multibyte
  functions of C (record \<open>term_env\<close> with \<open>utf8_laws\<close>), the file system (a map from paths to
  contents) and the outcome of a transaction. Laws are hypotheses of the theorems that need
  them, and each is shown to hold of a concrete instance (\<open>plain_sodium\<close>, \<open>ascii_env\<close>).

  \<^bold>\<open>The theories\<close>, in the order they build on each other:

  \<^item> \<open>Chatbox_Prelude\<close>: bytes and the functions of \<open><cctype>\<close>, decimal numbers, splitting and
    joining, bounded queues; the locales \<open>codec\<close> (encode and decode), \<open>invariant_machine\<close> (an
    invariant kept by every enabled step holds after every run) and \<open>simulation\<close> (functional
    refinement). \<open>Ordered_Containers\<close>: \<open>set_container\<close> and \<open>map_container\<close>, the contracts of the
    two containers, interpreted on sorted lists.
  \<^item> \<open>Frame_Codec\<close>, \<open>Protocol_Messages\<close>: \<open>protocol/protocol.cpp\<close> in full. Frames and messages
    survive the wire, parsers accept only well-formed messages, sizes stay within a frame.
  \<^item> \<open>App_State\<close>: \<open>app/app_state.cpp\<close>, what the user interface shows. \<open>Identity_Utils\<close>: the
    validators, text and identity functions of \<open>common/utils.cpp\<close>; an identity file is read
    back as it was written.
  \<^item> \<open>Session_IO\<close>: the write queue of a session as a step relation. Frames leave in order, and a
    graceful close writes them first and ends.
  \<^item> \<open>Chat_Server\<close>, \<open>Client_Session\<close>: every method of \<open>chat/chat_server.h\<close> and every handler of
    \<open>chat/client_session.cpp\<close>, composed to \<open>server_step\<close>: a connection, a completed handshake, a
    line, a failed read, a step of a write queue, or a call of the host.
  \<^item> \<open>Server_Invariant\<close>: the inductive predicate \<open>reachable\<close> (start, fresh or from stored data,
    then any steps) and the invariant of rooms, members, sessions and nicknames. \<open>Server_Example\<close>:
    a run in which two clients join and one creates a room; the input of the witnesses.
    \<open>Server_Properties\<close>: who is admitted, under which name, with which key. \<open>Server_Delivery\<close>:
    who receives what. \<open>Server_Authority\<close>: who may change what. \<open>Message_Quota\<close>: how many messages of a session are passed on.
    \<open>Membership_Threads\<close>: the members of the rooms under the network thread and the thread of the host, access by access; exact for every
    session on which the two threads do not work at the same time, and a run in which they do and a kicked session stays listed.
  \<^item> \<open>Chat_Client\<close>: \<open>chat/chat_client.h\<close>, connecting with its deadline and cancellation, the
    write queue, every message handler. \<open>Login\<close>: client and server together; an honest client
    is admitted.
  \<^item> \<open>Trust_Store\<close>: \<open>network/tls.cpp\<close>, fingerprints, the trust store and \<open>verify_peer\<close>.
    \<open>Invitations\<close>: \<open>network/invite.cpp\<close>. \<open>Server_Browser\<close>: \<open>network/server_browser.h\<close>, registry,
    client and publisher.
  \<^item> \<open>Line_Editor\<close>, \<open>Display_Text\<close>, \<open>Scrollback\<close>: \<open>ui/terminal_model.cpp\<close>. The editor of bytes refines
    an editor of characters on the keys of whole characters, wrapped lines fit, the binary search of the scroll position finds
    the partition point.
  \<^item> \<open>Commands\<close>: \<open>app/commands.cpp\<close>, for a client and for a host.
  \<^item> \<open>Storage\<close>: \<open>storage/storage.cpp\<close>, schema, statements, queue and transactions, history pages,
    import of old files. \<open>Persistence\<close>: the tables mirror the server's memory after every step.
    \<open>Restart\<close>: a server started from its database has what it had.
  \<^item> \<open>Dedicated_Server\<close>: \<open>app/dedicated_server.cpp\<close>, command line, start and both consoles. At the start, opening the
    database and importing older files are one argument (\<open>Storage\<close> has the import), and the TLS context, once accepted, does not occur in the
    state of the server.
    \<open>Startup_Modes\<close>: \<open>main\<close> of \<open>app/chatbox.cpp\<close>; plaintext only on request.
  \<^item> \<open>Preferences\<close>: \<open>storage/preferences.cpp\<close>. Recent servers are the last ten joined; what is saved is
    read back, and a user who is not to be remembered leaves no trace.
  \<^item> \<open>Curses_Input\<close>, \<open>Completion\<close>, \<open>Chat_Screen\<close>, \<open>Setup_Screens\<close>, \<open>Chat_Loop\<close>: \<open>ui/curses_ui.cpp\<close>. \<open>edit_key\<close>,
    \<open>choose_curses_menu\<close>, \<open>edit_curses_form\<close> and \<open>show_curses_notice\<close> as loops over keys; \<open>complete\<close>;
    \<open>render_chat\<close> and the pages of menus, forms and notices as the list of things drawn; \<open>run_curses_chat_loop\<close>.
    Everything drawn is on the screen and free of control characters, a password is not drawn, a submitted form is valid, only Enter and
    the choice of a room act on the chat, a host's screen keeps the server reachable.
  \<^item> \<open>Interactive_App\<close>: \<open>ui/interactive_app.cpp\<close> and \<open>ui/setup_forms.h\<close>. The fields of the forms, the question
    about a certificate, joining, reconnecting, invitations, what the menus do to the preferences.
  \<^item> \<open>Host_Files\<close>: what a host keeps on disk. \<open>ensure_host_certificate\<close>, \<open>configure_server_context\<close> and
    \<open>certificate_sha256_fingerprint\<close> of \<open>network/tls.cpp\<close> and \<open>chatbox_database_path\<close> of \<open>common/utils.cpp\<close>, with every state
    of the files between two calls. No file is changed but one that the call has created; the key file is for its owner only before it is written, and the certificate file is given the certificate only.
  \<^item> \<open>Setup_Menu\<close>: \<open>configure_tls\<close> and \<open>configure_publication\<close> of \<open>ui/setup_forms.h\<close>, and \<open>ui/startup_menu.cpp\<close>. What the menu
    starts is fit to run.
  \<^item> \<open>App_Menu\<close>, \<open>App_Fields\<close>, \<open>App_Safety\<close>, \<open>App_Targets\<close>: \<open>run_curses_app\<close> of \<open>ui/interactive_app.cpp\<close> as a machine whose
    steps are the turns of its main menu and the ends of sessions. Whatever is saved can be read back; a server is joined with
    the settings that were reviewed; what is hosted has been prepared. \<open>Host_Session\<close>: hosting from the menu; whatever fails, the server is stopped
    (twice after an exception in the chat, and the second time only flushes) and nothing is kept, and the summary for guests gives no password away.
  \<^item> \<open>Network_Task\<close>: \<open>ui/network_task.h\<close>, two threads with a mutex and a condition variable in every interleaving. A certificate is
    confirmed by the user only; nobody waits in vain unless the task is cancelled.
  \<^item> \<open>Upnp_Mapper\<close>: \<open>network/upnp_mapper.h\<close>, objects that open ports at routers and are destroyed late. No port in use is closed,
    none is left open. \<open>Chat_Log\<close>: \<open>storage/chat_log.h\<close>; the log is appended to and no other file is touched.

  \<^bold>\<open>Bounds and fuel.\<close> All loops of the program that are modelled are structural or have a
  termination proof, except the one that follows history cursors: \<open>history_pages\<close> takes the
  number of pages, and one page per stored message is shown to be enough. The loops that wait for the user
  take the keys to come (the turns, the attempts) as a list; \<open>None\<close> says that they still wait at its end. Counters kept at
  their width are identifiers of rooms (64 bits) and the numbers the parsers read; the lengths of
  lists in memory are \<open>nat\<close>.

  \<^bold>\<open>Not modelled.\<close> Sockets, resolvers, timers and threads of Boost.Asio beyond the order of their
  callbacks (\<open>network/transport.h\<close>); the insides of OpenSSL, libsodium, SQLite and miniupnpc,
  and the options set on the SSL context of a client; initialising ncurses; the waits of
  \<open>ui/interactive_app.cpp\<close> for the router, for a connection and between two attempts, whose outcomes are arguments; the log lines of
  a starting dedicated server.
\<close>

end
